(* ===== verification/Turbo_Prelude.thy ===== *)
theory Turbo_Prelude
  imports Main "HOL-Library.Word" "HOL-Library.Char_ord" "HOL-Library.List_Lexorder"
    "HOL-Library.Product_Lexorder" "HOL-Library.Multiset" "HOL-Library.While_Combinator"
begin

section \<open>Shared types, the allocation oracle and generic lemmas\<close>

text \<open>
  What the components share.
  \<^item> Machine integers: \<open>size_t\<close> and \<open>uint64_t\<close> are 64-bit words; counts of array elements are
    the lengths of the lists that model the arrays.
  \<^item> Strings: a NUL-terminated C string is a \<^typ>\<open>string\<close>, a nullable \<open>const char *\<close> is a
    \<^typ>\<open>string option\<close> (\<open>None\<close> is \<open>NULL\<close>).
  \<^item> Allocation: whether the next \<open>malloc\<close>/\<open>calloc\<close>/\<open>realloc\<close>/\<open>tstr_dup\<close>/\<open>json_clone\<close>
    succeeds is not determined by the program. The oracle \<open>alloc\<close> lists the outcomes of the
    next allocations; when the list is used up every further allocation succeeds. As a
    finite run makes finitely many allocations, the theorems, which hold for every oracle, cover every
    pattern of failures.
  \<^item> The collections \<open>turbo_simps\<close> (equations that unfold the small helpers of the code)
    and \<open>turbo_frame\<close> (fields an operation does not touch).
\<close>

named_theorems turbo_simps \<open>equations of the small helpers of the C code\<close>
named_theorems turbo_frame \<open>fields an operation leaves unchanged\<close>

type_synonym u64 = "64 word"
type_synonym size_t = "64 word"
type_synonym cstr = "string option"

text \<open>Counting below a bound does not wrap.\<close>

lemma no_wrap:
  assumes "n < (l :: 64 word)"
  shows "n + 1 \<le> l \<and> unat (n + 1) = unat n + 1 \<and> n \<le> n + 1"
proof -
  have "unat l < 2 ^ LENGTH(64)" by (rule unsigned_less)
  then have "unat n < unat l" "unat l < 2 ^ 64" using assms by (simp_all add: word_less_nat_alt)
  moreover from this have "unat (n + 1) = unat n + 1" by (simp add: unat_word_ariths)
  ultimately show ?thesis by (simp add: word_le_nat_alt)
qed

subsection \<open>The allocation oracle\<close>

type_synonym alloc = "bool list"

fun alloc1 :: "alloc \<Rightarrow> bool \<times> alloc" where
  "alloc1 [] = (True, [])"
| "alloc1 (b # bs) = (b, bs)"

text \<open>\<open>n\<close> allocations made one after the other and checked together afterwards.\<close>

fun alloc_all :: "nat \<Rightarrow> alloc \<Rightarrow> bool \<times> alloc" where
  "alloc_all 0 a = (True, a)"
| "alloc_all (Suc n) a =
     (let (ok, a1) = alloc1 a; (oks, a2) = alloc_all n a1 in (ok \<and> oks, a2))"

text \<open>A loop of \<open>n\<close> allocations that leaves at the first failure.\<close>

fun alloc_loop :: "nat \<Rightarrow> alloc \<Rightarrow> bool \<times> alloc" where
  "alloc_loop 0 a = (True, a)"
| "alloc_loop (Suc n) a =
     (let (ok, a1) = alloc1 a in if ok then alloc_loop n a1 else (False, a1))"

lemma alloc1_Nil [simp]: "alloc1 [] = (True, [])"
  by simp

lemma alloc_all_Nil [simp]: "alloc_all n [] = (True, [])"
  by (induction n) auto

lemma alloc_loop_Nil [simp]: "alloc_loop n [] = (True, [])"
  by (induction n) auto

subsection \<open>strcmp and qsort\<close>

text \<open>
  \<open>strcmp\<close> compares bytes as unsigned characters and a proper prefix comes first, which is the
  lexicographic order of \<open>List_Lexorder\<close> over the byte order of \<open>Char_ord\<close>.
\<close>

definition strcmp :: "string \<Rightarrow> string \<Rightarrow> int" where
  "strcmp a b = (if a = b then 0 else if a < b then - 1 else 1)"

lemma strcmp_eq_0 [simp]: "strcmp a b = 0 \<longleftrightarrow> a = b"
  by (simp add: strcmp_def)

lemma strcmp_le_0 [simp]: "strcmp a b \<le> 0 \<longleftrightarrow> a \<le> b"
  by (auto simp: strcmp_def)

lemma strcmp_less_0 [simp]: "strcmp a b < 0 \<longleftrightarrow> a < b"
  by (auto simp: strcmp_def)

text \<open>\<open>qsort\<close> with a comparison callback: an insertion sort. The C standard leaves the order of
  equal elements open; the theorems about sorted output hold for every sorted permutation.\<close>

fun qsort_insert :: "('a \<Rightarrow> 'a \<Rightarrow> int) \<Rightarrow> 'a \<Rightarrow> 'a list \<Rightarrow> 'a list" where
  "qsort_insert cmp x [] = [x]"
| "qsort_insert cmp x (y # ys) =
     (if cmp x y \<le> 0 then x # y # ys else y # qsort_insert cmp x ys)"

fun qsort :: "('a \<Rightarrow> 'a \<Rightarrow> int) \<Rightarrow> 'a list \<Rightarrow> 'a list" where
  "qsort cmp [] = []"
| "qsort cmp (x # xs) = qsort_insert cmp x (qsort cmp xs)"

lemma mset_qsort_insert [simp]: "mset (qsort_insert cmp x xs) = add_mset x (mset xs)"
  by (induction xs) auto

lemma mset_qsort [simp]: "mset (qsort cmp xs) = mset xs"
  by (induction xs) auto

lemma length_qsort [simp]: "length (qsort cmp xs) = length xs"
  by (metis mset_qsort size_mset)

lemma set_qsort [simp]: "set (qsort cmp xs) = set xs"
  by (metis mset_qsort set_mset_mset)

text \<open>A comparison callback that compares keys of a linear order sorts by that key.\<close>

lemma qsort_insert_key:
  assumes "\<And>a b. cmp a b \<le> 0 \<longleftrightarrow> key a \<le> (key b :: 'k::linorder)"
    and "sorted (map key xs)"
  shows "sorted (map key (qsort_insert cmp x xs))"
  using assms(2)
proof (induction xs)
  case Nil
  then show ?case by simp
next
  case (Cons y ys)
  have "set (qsort_insert cmp x ys) = insert x (set ys)"
    by (metis mset_qsort_insert set_mset_add_mset_insert set_mset_mset)
  with Cons assms(1) show ?case by auto
qed

lemma qsort_key_sorted:
  assumes "\<And>a b. cmp a b \<le> 0 \<longleftrightarrow> key a \<le> (key b :: 'k::linorder)"
  shows "sorted (map key (qsort cmp xs))"
  by (induction xs) (auto intro: qsort_insert_key [OF assms])

lemma sorted_key_unique:
  assumes "sorted (map key xs)" and "sorted (map key ys)" and "mset xs = mset ys"
    and "\<And>a b. a \<in> set xs \<Longrightarrow> b \<in> set ys \<Longrightarrow> key a = (key b :: 'k::linorder) \<Longrightarrow> r a = r b"
  shows "map r xs = map r ys"
proof -
  have keys: "map key xs = map key ys"
    by (metis assms(1-3) mset_map properties_for_sort)
  then have len: "length xs = length ys"
    by (metis length_map)
  show ?thesis
  proof (rule nth_equalityI)
    show "length (map r xs) = length (map r ys)" using len by simp
  next
    fix i assume "i < length (map r xs)"
    then have i: "i < length xs" "i < length ys" using len by auto
    then have "key (xs ! i) = key (ys ! i)"
      by (metis keys nth_map)
    then have "r (xs ! i) = r (ys ! i)"
      using i assms(4) by (simp add: nth_mem)
    then show "map r xs ! i = map r ys ! i" using i by simp
  qed
qed

subsection \<open>First match in an array\<close>

text \<open>The search loops of the code return the least index that matches.\<close>

lemma find_index_Some:
  "find P [0..<n] = Some i \<longleftrightarrow> i < n \<and> P i \<and> (\<forall>j < i. \<not> P j)"
  by (auto simp: find_Some_iff)

lemma find_index_None: "find P [0..<n] = None \<longleftrightarrow> (\<forall>i < n. \<not> P i)"
  by (auto simp: find_None_iff)

lemma find_index_append:
  "find (\<lambda>i. f ((xs @ ys) ! i) = k) [0..<length (xs @ ys)] =
     (case find (\<lambda>i. f (xs ! i) = k) [0..<length xs] of
        Some i \<Rightarrow> Some i
      | None \<Rightarrow> map_option ((+) (length xs)) (find (\<lambda>i. f (ys ! i) = k) [0..<length ys]))"
proof (cases "find (\<lambda>i. f (xs ! i) = k) [0..<length xs]")
  case (Some i)
  then have "find (\<lambda>i. f ((xs @ ys) ! i) = k) [0..<length (xs @ ys)] = Some i"
    unfolding find_index_Some by (auto simp: nth_append)
  with Some show ?thesis by simp
next
  case None
  then have none: "\<And>i. i < length xs \<Longrightarrow> f (xs ! i) \<noteq> k" by (simp add: find_index_None)
  show ?thesis
  proof (cases "find (\<lambda>i. f (ys ! i) = k) [0..<length ys]")
    case (Some j)
    then have "find (\<lambda>i. f ((xs @ ys) ! i) = k) [0..<length (xs @ ys)] = Some (length xs + j)"
      unfolding find_index_Some using none by (auto simp: nth_append)
    with None Some show ?thesis by simp
  next
    case None': None
    then have "find (\<lambda>i. f ((xs @ ys) ! i) = k) [0..<length (xs @ ys)] = None"
      unfolding find_index_None using none by (auto simp: nth_append)
    with None None' show ?thesis by simp
  qed
qed

lemma find_index_mem: "find (\<lambda>i. f (xs ! i) = k) [0..<length xs] \<noteq> None \<longleftrightarrow> k \<in> f ` set xs"
proof -
  have "set xs = {xs ! i | i. i < length xs}" by (auto simp: in_set_conv_nth)
  then show ?thesis unfolding find_index_None by auto
qed

subsection \<open>Building objects by fallible operations\<close>

text \<open>A run of operations that each return a status, the new object and what they leave of their
  surroundings (the allocation oracle, or the world); a failed operation does not end the run.\<close>

fun run_ops :: "('op \<Rightarrow> 'a \<Rightarrow> 'g \<Rightarrow> 's \<times> 'g \<times> 'a) \<Rightarrow> 'op list \<Rightarrow> 'a \<Rightarrow> 'g \<Rightarrow> 's list \<times> 'g \<times> 'a" where
  "run_ops f [] a g = ([], g, a)"
| "run_ops f (op # ops) a g =
     (case f op a g of (s, g1, a1) \<Rightarrow>
        (case run_ops f ops a1 g1 of (ss, g2, a2) \<Rightarrow> (s # ss, g2, a2)))"

text \<open>The contract that graphs, state graphs and tool registries give to the code that builds them: every
  operation keeps the invariant, and one that fails leaves what a client can see unchanged.\<close>

locale builder =
  fixes apply_op :: "'op \<Rightarrow> 'a \<Rightarrow> 'g \<Rightarrow> 's \<times> 'g \<times> 'a"
    and inv :: "'g \<Rightarrow> bool"
    and view :: "'g \<Rightarrow> 'v"
    and ok :: 's
  assumes apply_inv: "inv g \<Longrightarrow> apply_op op a g = (s, g', a') \<Longrightarrow> inv g'"
    and apply_failed: "inv g \<Longrightarrow> apply_op op a g = (s, g', a') \<Longrightarrow> s \<noteq> ok \<Longrightarrow> view g' = view g"
begin

lemma run_inv: "inv g \<Longrightarrow> run_ops apply_op ops a g = (ss, g', a') \<Longrightarrow> inv g'"
proof (induction ops arbitrary: a g ss g' a')
  case Nil
  then show ?case by simp
next
  case (Cons op ops)
  obtain s g1 a1 where s: "apply_op op a g = (s, g1, a1)" by (cases "apply_op op a g") auto
  obtain ss2 g2 a2 where r: "run_ops apply_op ops a1 g1 = (ss2, g2, a2)"
    by (cases "run_ops apply_op ops a1 g1") auto
  have "inv g1" using Cons.prems(1) s by (rule apply_inv)
  with Cons s r show ?case by auto
qed

lemma run_failed: "inv g \<Longrightarrow> run_ops apply_op ops a g = (ss, g', a') \<Longrightarrow> ok \<notin> set ss \<Longrightarrow> view g' = view g"
proof (induction ops arbitrary: a g ss g' a')
  case Nil
  then show ?case by simp
next
  case (Cons op ops)
  obtain s g1 a1 where s: "apply_op op a g = (s, g1, a1)" by (cases "apply_op op a g") auto
  obtain ss2 g2 a2 where r: "run_ops apply_op ops a1 g1 = (ss2, g2, a2)"
    by (cases "run_ops apply_op ops a1 g1") auto
  have i1: "inv g1" using Cons.prems(1) s by (rule apply_inv)
  have ss: "ss = s # ss2" "g' = g2" using Cons.prems(2) s r by auto
  then have "view g1 = view g" using apply_failed [OF Cons.prems(1) s] Cons.prems(3) by auto
  moreover have "view g2 = view g1" using Cons.IH [OF i1 r] ss Cons.prems(3) Cons.prems(2) s r by auto
  ultimately show ?case using ss by simp
qed

end

subsection \<open>Loops that end when they end\<close>

text \<open>A C loop as a step that either returns from the function (\<open>Inl\<close>) or goes on with new values of
  the loop variables (\<open>Inr\<close>). The loop denotes \<open>None\<close> when it runs for ever.\<close>

definition run_loop :: "('s \<Rightarrow> 'r + 's) \<Rightarrow> 's \<Rightarrow> 'r option" where
  "run_loop step s = map_option projl (while_option (\<lambda>x. \<not> isl x) (\<lambda>x. step (projr x)) (Inr s))"

lemma run_loop_unfold:
  "run_loop step s = (case step s of Inl r \<Rightarrow> Some r | Inr s' \<Rightarrow> run_loop step s')"
proof -
  let ?w = "while_option (\<lambda>x. \<not> isl x) (\<lambda>x. step (projr x))"
  have go: "?w (Inr s) = ?w (step s)" by (subst while_option_unfold) simp
  have stop: "?w (Inl r) = Some (Inl r)" for r by (subst while_option_unfold) simp
  show ?thesis unfolding run_loop_def go by (cases "step s") (simp_all add: stop)
qed

lemma run_loop_inv:
  assumes "run_loop step s = Some r" and "I s"
    and step: "\<And>s s'. I s \<Longrightarrow> step s = Inr s' \<Longrightarrow> I s'"
    and last: "\<And>s r. I s \<Longrightarrow> step s = Inl r \<Longrightarrow> Q r"
  shows "Q r"
proof -
  obtain x where w: "while_option (\<lambda>x. \<not> isl x) (\<lambda>x. step (projr x)) (Inr s) = Some x" and r: "r = projl x"
    using assms(1) by (auto simp: run_loop_def)
  have "case x of Inl r \<Rightarrow> Q r | Inr s \<Rightarrow> I s"
  proof (rule while_option_rule [OF _ w])
    fix y assume "case y of Inl r \<Rightarrow> Q r | Inr s \<Rightarrow> I s" "\<not> isl y"
    then show "case step (projr y) of Inl r \<Rightarrow> Q r | Inr s \<Rightarrow> I s"
      using step last by (auto split: sum.splits)
  qed (use assms(2) in simp)
  moreover have "isl x" using while_option_stop [OF w] by simp
  ultimately show ?thesis using r by (auto split: sum.splits)
qed

lemma run_loop_terminates:
  assumes "I s" and step: "\<And>s s'. I s \<Longrightarrow> step s = Inr s' \<Longrightarrow> I s' \<and> (m s' :: nat) < m s"
  shows "\<exists>r. run_loop step s = Some r"
  using assms(1)
proof (induction "m s" arbitrary: s rule: less_induct)
  case less
  then show ?case using step by (subst run_loop_unfold) (auto split: sum.split)
qed

end
