(* ===== verification/Cancel_Control.thy ===== *)
theory Cancel_Control
  imports Turbo_Prelude
begin

section \<open>Cooperative cancellation: runtime\_core/src/turbo\_runtime\_control.c\<close>

text \<open>
  A cancel source owns one shared cancellation state; tokens are read-only references to it.
  The state, the source and the token handles live in a store \<open>cancel_heap\<close> from addresses to
  objects, so that reference counting and the lifetime of the shared state can be stated.
  An address that is not in the store is treated like \<open>NULL\<close>: the code tests handles against
  \<open>NULL\<close> only, and the ownership invariant \<open>cancel_inv\<close> shows that a live handle always refers to a
  live state.
  \<^item> Every operation takes the state's mutex for its whole critical section, and the two
    reference counters are changed by single atomic operations, so an operation is one atomic step
    and concurrent use is an interleaving of such steps (\<open>cancel_step\<close>).
  \<^item> A clock reading comes from the configured callback or from the system clock, both of which are
    outside the program; they are two sequences of readings in the store.
  \<^item> \<open>turbo_cancel_token_wait\<close> releases the mutex while it sleeps on the condition variable; what
    other threads do meanwhile is a sequence of arbitrary store transformers.
\<close>

subsection \<open>Data\<close>

datatype salts_status =
    SALTS_OK | SALTS_EINVAL | SALTS_ENOMEM | SALTS_ERANGE | SALTS_EALREADY
  | SALTS_ETIMEDOUT | SALTS_ECANCELED

datatype turbo_cancel_reason_t =
    TURBO_CANCEL_NONE | TURBO_CANCEL_USER | TURBO_CANCEL_DEADLINE
  | TURBO_CANCEL_SHUTDOWN | TURBO_CANCEL_PARENT

datatype turbo_cancel_wait_status_t =
    TURBO_CANCEL_WAIT_SIGNALED | TURBO_CANCEL_WAIT_TIMEOUT | TURBO_CANCEL_WAIT_INVALID_ARGUMENT

text \<open>The enumerators' integer values, which \<open>turbo_cancel_reason_valid\<close> compares.\<close>

fun cancel_reason_code :: "turbo_cancel_reason_t \<Rightarrow> int" where
  "cancel_reason_code TURBO_CANCEL_NONE = 0"
| "cancel_reason_code TURBO_CANCEL_USER = 1"
| "cancel_reason_code TURBO_CANCEL_DEADLINE = 2"
| "cancel_reason_code TURBO_CANCEL_SHUTDOWN = 3"
| "cancel_reason_code TURBO_CANCEL_PARENT = 4"

definition TURBO_RUNTIME_CONTROL_ABI_VERSION :: "32 word" where
  "TURBO_RUNTIME_CONTROL_ABI_VERSION = 1"


definition TURBO_CANCEL_MAX_WAIT_SLICE_MS :: u64 where
  "TURBO_CANCEL_MAX_WAIT_SLICE_MS = 4294967295 - 1"

definition TURBO_MILLISECONDS_TO_NANOSECONDS :: u64 where
  "TURBO_MILLISECONDS_TO_NANOSECONDS = 1000000"

record turbo_cancel_source_config =
  cc_struct_size :: "32 word"
  cc_abi_version :: "32 word"
  cc_deadline_mono_ms :: u64
  cc_monotonic_ms :: bool  \<comment> \<open>whether a clock callback is given\<close>

record cancel_state =
  cs_ref_count :: size_t
  cs_reason :: turbo_cancel_reason_t
  cs_deadline_mono_ms :: u64
  cs_monotonic_ms :: bool

record cancel_token =
  ct_ref_count :: size_t
  ct_state :: nat

record cancel_heap =
  ch_alloc :: alloc
  ch_states :: "nat \<rightharpoonup> cancel_state"
  ch_sources :: "nat \<rightharpoonup> nat"
  ch_tokens :: "nat \<rightharpoonup> cancel_token"
  ch_next :: nat
  ch_sys_clock :: "u64 list"
  ch_user_clock :: "u64 list"

text \<open>The store with every allocation drawn from its oracle.\<close>

definition ch_draw :: "'a cancel_heap_scheme \<Rightarrow> bool \<times> 'a cancel_heap_scheme" where
  "ch_draw h = (let (ok, a) = alloc1 (ch_alloc h) in (ok, h\<lparr>ch_alloc := a\<rparr>))"

text \<open>A clock: the next reading; the last one repeats.\<close>

fun clock_read :: "u64 list \<Rightarrow> u64 \<times> u64 list" where
  "clock_read [] = (0, [])"
| "clock_read [t] = (t, [t])"
| "clock_read (t # u # ts) = (t, u # ts)"

subsection \<open>Helpers of the C file\<close>

definition turbo_cancel_state_now_ms ::
    "'a cancel_heap_scheme \<Rightarrow> cancel_state \<Rightarrow> u64 \<times> 'a cancel_heap_scheme" where
  "turbo_cancel_state_now_ms h st =
     (if cs_monotonic_ms st
      then (let (t, c) = clock_read (ch_user_clock h) in (t, h\<lparr>ch_user_clock := c\<rparr>))
      else (let (t, c) = clock_read (ch_sys_clock h) in (t, h\<lparr>ch_sys_clock := c\<rparr>)))"

definition turbo_cancel_config_valid ::
    "32 word \<Rightarrow> turbo_cancel_source_config option \<Rightarrow> bool" where
  "turbo_cancel_config_valid size_of config =
     (case config of None \<Rightarrow> True
      | Some c \<Rightarrow> cc_struct_size c \<ge> size_of \<and> cc_abi_version c = TURBO_RUNTIME_CONTROL_ABI_VERSION)"

definition turbo_cancel_state_retain ::
    "'a cancel_heap_scheme \<Rightarrow> nat \<Rightarrow> bool \<times> 'a cancel_heap_scheme" where
  "turbo_cancel_state_retain h s =
     (case ch_states h s of None \<Rightarrow> (False, h)
      | Some st \<Rightarrow>
          if cs_ref_count st = - 1 then (False, h)
          else (True, h\<lparr>ch_states := (ch_states h)(s \<mapsto> st\<lparr>cs_ref_count := cs_ref_count st + 1\<rparr>)\<rparr>))"

definition turbo_cancel_state_release ::
    "'a cancel_heap_scheme \<Rightarrow> nat \<Rightarrow> 'a cancel_heap_scheme" where
  "turbo_cancel_state_release h s =
     (case ch_states h s of None \<Rightarrow> h
      | Some st \<Rightarrow>
          if cs_ref_count st \<noteq> 1
          then h\<lparr>ch_states := (ch_states h)(s \<mapsto> st\<lparr>cs_ref_count := cs_ref_count st - 1\<rparr>)\<rparr>
          else h\<lparr>ch_states := (ch_states h)(s := None)\<rparr>)"

definition turbo_cancel_reason_valid :: "turbo_cancel_reason_t \<Rightarrow> bool" where
  "turbo_cancel_reason_valid reason \<longleftrightarrow>
     cancel_reason_code reason \<ge> cancel_reason_code TURBO_CANCEL_USER \<and>
     cancel_reason_code reason \<le> cancel_reason_code TURBO_CANCEL_PARENT"

definition turbo_cancel_state_refresh_deadline_locked :: "cancel_state \<Rightarrow> u64 \<Rightarrow> cancel_state" where
  "turbo_cancel_state_refresh_deadline_locked st now_ms =
     (if cs_reason st = TURBO_CANCEL_NONE \<and> cs_deadline_mono_ms st \<noteq> 0 \<and>
         now_ms \<ge> cs_deadline_mono_ms st
      then st\<lparr>cs_reason := TURBO_CANCEL_DEADLINE\<rparr> else st)"

definition turbo_cancel_reason_status :: "turbo_cancel_reason_t \<Rightarrow> salts_status" where
  "turbo_cancel_reason_status reason =
     (if reason = TURBO_CANCEL_NONE then SALTS_OK
      else if reason = TURBO_CANCEL_DEADLINE then SALTS_ETIMEDOUT
      else SALTS_ECANCELED)"


text \<open>Reading the clock and materialising an expired deadline, under the state's mutex.\<close>

definition refresh_locked :: "'a cancel_heap_scheme \<Rightarrow> nat \<Rightarrow> cancel_state \<Rightarrow>
    turbo_cancel_reason_t \<times> 'a cancel_heap_scheme" where
  "refresh_locked h s st =
     (let (now, h1) = turbo_cancel_state_now_ms h st;
          st1 = turbo_cancel_state_refresh_deadline_locked st now
      in (cs_reason st1, h1\<lparr>ch_states := (ch_states h1)(s \<mapsto> st1)\<rparr>))"

text \<open>The handle tests \<open>!source || !source->state\<close> and \<open>!token || !token->state\<close>.\<close>

definition source_state :: "'a cancel_heap_scheme \<Rightarrow> nat option \<Rightarrow> (nat \<times> cancel_state) option" where
  "source_state h src =
     (case src of None \<Rightarrow> None
      | Some a \<Rightarrow> (case ch_sources h a of None \<Rightarrow> None
         | Some s \<Rightarrow> map_option (Pair s) (ch_states h s)))"

definition token_state :: "'a cancel_heap_scheme \<Rightarrow> nat option \<Rightarrow> (nat \<times> cancel_state) option" where
  "token_state h tok =
     (case tok of None \<Rightarrow> None
      | Some a \<Rightarrow> (case ch_tokens h a of None \<Rightarrow> None
         | Some t \<Rightarrow> map_option (Pair (ct_state t)) (ch_states h (ct_state t))))"

subsection \<open>Operations\<close>

definition turbo_cancel_source_create ::
    "32 word \<Rightarrow> 'a cancel_heap_scheme \<Rightarrow> turbo_cancel_source_config option \<Rightarrow>
     salts_status \<times> nat option \<times> 'a cancel_heap_scheme" where
  "turbo_cancel_source_create size_of h config =
     (if \<not> turbo_cancel_config_valid size_of config then (SALTS_EINVAL, None, h)
      else
        let (ok1, h) = ch_draw h; (ok2, h) = ch_draw h
        in if \<not> ok1 \<or> \<not> ok2 then (SALTS_ENOMEM, None, h)
           else
             let (ok3, h) = ch_draw h; (ok4, h) = ch_draw h
             in if \<not> ok3 \<or> \<not> ok4 then (SALTS_ENOMEM, None, h)
                else
                  let st = \<lparr>cs_ref_count = 1, cs_reason = TURBO_CANCEL_NONE,
                            cs_deadline_mono_ms = (case config of None \<Rightarrow> 0 | Some c \<Rightarrow> cc_deadline_mono_ms c),
                            cs_monotonic_ms = (case config of None \<Rightarrow> False | Some c \<Rightarrow> cc_monotonic_ms c)\<rparr>;
                      s = ch_next h; src = Suc s
                  in (SALTS_OK, Some src,
                      h\<lparr>ch_states := (ch_states h)(s \<mapsto> st),
                        ch_sources := (ch_sources h)(src \<mapsto> s),
                        ch_next := Suc src\<rparr>))"

definition turbo_cancel_source_destroy ::
    "'a cancel_heap_scheme \<Rightarrow> nat option \<Rightarrow> 'a cancel_heap_scheme" where
  "turbo_cancel_source_destroy h src =
     (case src of None \<Rightarrow> h
      | Some a \<Rightarrow>
         (case ch_sources h a of None \<Rightarrow> h
          | Some s \<Rightarrow>
             (let h1 = turbo_cancel_state_release h s
              in h1\<lparr>ch_sources := (ch_sources h1)(a := None)\<rparr>)))"

definition turbo_cancel_source_token ::
    "'a cancel_heap_scheme \<Rightarrow> nat option \<Rightarrow> salts_status \<times> nat option \<times> 'a cancel_heap_scheme" where
  "turbo_cancel_source_token h src =
     (case source_state h src of None \<Rightarrow> (SALTS_EINVAL, None, h)
      | Some (s, _) \<Rightarrow>
          (let (retained, h1) = turbo_cancel_state_retain h s
           in if \<not> retained then (SALTS_ERANGE, None, h1)
              else
                let (ok, h2) = ch_draw h1
                in if \<not> ok then (SALTS_ENOMEM, None, turbo_cancel_state_release h2 s)
                   else (SALTS_OK, Some (ch_next h2),
                         h2\<lparr>ch_tokens := (ch_tokens h2)(ch_next h2 \<mapsto> \<lparr>ct_ref_count = 1, ct_state = s\<rparr>),
                            ch_next := Suc (ch_next h2)\<rparr>)))"

definition turbo_cancel_source_cancel ::
    "'a cancel_heap_scheme \<Rightarrow> nat option \<Rightarrow> turbo_cancel_reason_t \<Rightarrow>
     salts_status \<times> 'a cancel_heap_scheme" where
  "turbo_cancel_source_cancel h src reason =
     (case source_state h src of None \<Rightarrow> (SALTS_EINVAL, h)
      | Some (s, st) \<Rightarrow>
          if \<not> turbo_cancel_reason_valid reason then (SALTS_EINVAL, h)
          else
            let (now, h1) = turbo_cancel_state_now_ms h st;
                st1 = turbo_cancel_state_refresh_deadline_locked st now
            in if cs_reason st1 \<noteq> TURBO_CANCEL_NONE
               then (SALTS_EALREADY, h1\<lparr>ch_states := (ch_states h1)(s \<mapsto> st1)\<rparr>)
               else (SALTS_OK, h1\<lparr>ch_states := (ch_states h1)(s \<mapsto> st1\<lparr>cs_reason := reason\<rparr>)\<rparr>))"

definition turbo_cancel_source_reason ::
    "'a cancel_heap_scheme \<Rightarrow> nat option \<Rightarrow> turbo_cancel_reason_t \<times> 'a cancel_heap_scheme" where
  "turbo_cancel_source_reason h src =
     (case source_state h src of None \<Rightarrow> (TURBO_CANCEL_NONE, h)
      | Some (s, st) \<Rightarrow> refresh_locked h s st)"

definition turbo_cancel_token_retain ::
    "'a cancel_heap_scheme \<Rightarrow> nat option \<Rightarrow> nat option \<times> 'a cancel_heap_scheme" where
  "turbo_cancel_token_retain h tok =
     (case tok of None \<Rightarrow> (None, h)
      | Some a \<Rightarrow>
         (case ch_tokens h a of None \<Rightarrow> (None, h)
          | Some t \<Rightarrow>
              if ct_ref_count t = 0 \<or> ct_ref_count t = - 1 then (None, h)
              else (Some a, h\<lparr>ch_tokens := (ch_tokens h)(a \<mapsto> t\<lparr>ct_ref_count := ct_ref_count t + 1\<rparr>)\<rparr>)))"

definition turbo_cancel_token_release ::
    "'a cancel_heap_scheme \<Rightarrow> nat option \<Rightarrow> 'a cancel_heap_scheme" where
  "turbo_cancel_token_release h tok =
     (case tok of None \<Rightarrow> h
      | Some a \<Rightarrow>
         (case ch_tokens h a of None \<Rightarrow> h
          | Some t \<Rightarrow>
              if ct_ref_count t \<noteq> 1
              then h\<lparr>ch_tokens := (ch_tokens h)(a \<mapsto> t\<lparr>ct_ref_count := ct_ref_count t - 1\<rparr>)\<rparr>
              else
                let h1 = turbo_cancel_state_release h (ct_state t)
                in h1\<lparr>ch_tokens := (ch_tokens h1)(a := None)\<rparr>))"

definition turbo_cancel_token_check ::
    "'a cancel_heap_scheme \<Rightarrow> nat option \<Rightarrow> salts_status \<times> 'a cancel_heap_scheme" where
  "turbo_cancel_token_check h tok =
     (case token_state h tok of None \<Rightarrow> (SALTS_EINVAL, h)
      | Some (s, st) \<Rightarrow>
          (let (reason, h1) = refresh_locked h s st in (turbo_cancel_reason_status reason, h1)))"

definition turbo_cancel_token_reason ::
    "'a cancel_heap_scheme \<Rightarrow> nat option \<Rightarrow> turbo_cancel_reason_t \<times> 'a cancel_heap_scheme" where
  "turbo_cancel_token_reason h tok =
     (case token_state h tok of None \<Rightarrow> (TURBO_CANCEL_NONE, h)
      | Some (s, st) \<Rightarrow> refresh_locked h s st)"

definition turbo_cancel_token_deadline_mono_ms :: "'a cancel_heap_scheme \<Rightarrow> nat option \<Rightarrow> u64" where
  "turbo_cancel_token_deadline_mono_ms h tok =
     (case token_state h tok of None \<Rightarrow> 0 | Some (_, st) \<Rightarrow> cs_deadline_mono_ms st)"

subsection \<open>Waiting\<close>

text \<open>
  One pass of the loop of \<open>turbo_cancel_token_wait\<close> for a reading \<open>now_ms\<close>: either the wait is over
  (\<open>Inl\<close> its status), or the thread sleeps, without (\<open>Inr None\<close>) or with (\<open>Inr (Some ns)\<close>) a
  timeout in nanoseconds.
\<close>

definition wait_slice_ms :: "u64 \<Rightarrow> u64 \<Rightarrow> u64" where
  "wait_slice_ms wake_deadline_ms now_ms =
     (let wait_ms = wake_deadline_ms - now_ms
      in if wait_ms > TURBO_CANCEL_MAX_WAIT_SLICE_MS then TURBO_CANCEL_MAX_WAIT_SLICE_MS else wait_ms)"

definition wait_wake_deadline :: "cancel_state \<Rightarrow> u64 option \<Rightarrow> u64" where
  "wait_wake_deadline st caller_deadline =
     (let wake = (case caller_deadline of None \<Rightarrow> - 1 | Some d \<Rightarrow> d)
      in if cs_deadline_mono_ms st \<noteq> 0 \<and> cs_deadline_mono_ms st < wake
         then cs_deadline_mono_ms st else wake)"

definition wait_pass :: "cancel_state \<Rightarrow> u64 option \<Rightarrow> u64 \<Rightarrow>
    (turbo_cancel_wait_status_t + u64 option) \<times> cancel_state" where
  "wait_pass st caller_deadline now_ms =
     (let st1 = turbo_cancel_state_refresh_deadline_locked st now_ms
      in if cs_reason st1 \<noteq> TURBO_CANCEL_NONE then (Inl TURBO_CANCEL_WAIT_SIGNALED, st1)
         else if (case caller_deadline of None \<Rightarrow> False | Some d \<Rightarrow> now_ms \<ge> d)
         then (Inl TURBO_CANCEL_WAIT_TIMEOUT, st1)
         else
           let wake = wait_wake_deadline st1 caller_deadline
           in if wake = - 1 then (Inr None, st1)
              else (Inr (Some (wait_slice_ms wake now_ms * TURBO_MILLISECONDS_TO_NANOSECONDS)), st1))"

text \<open>The loop: \<open>env\<close> lists what the other threads do during each sleep; \<open>None\<close> means that the
  thread is still asleep when \<open>env\<close> ends. The token is the caller's, so its state stays
  allocated; a store in which it is gone is the \<open>EINVAL\<close> stand-in for a dead handle.\<close>

fun wait_loop :: "nat option \<Rightarrow> u64 option \<Rightarrow>
    ('a cancel_heap_scheme \<Rightarrow> 'a cancel_heap_scheme) list \<Rightarrow>
    'a cancel_heap_scheme \<Rightarrow> (turbo_cancel_wait_status_t \<times> 'a cancel_heap_scheme) option" where
  "wait_loop tok caller_deadline env h =
     (case token_state h tok of None \<Rightarrow> Some (TURBO_CANCEL_WAIT_INVALID_ARGUMENT, h)
      | Some (s, st) \<Rightarrow>
          (let (now, h1) = turbo_cancel_state_now_ms h st;
               (res, st1) = wait_pass st caller_deadline now;
               h2 = h1\<lparr>ch_states := (ch_states h1)(s \<mapsto> st1)\<rparr>
           in (case res of
                 Inl status \<Rightarrow> Some (status, h2)
               | Inr _ \<Rightarrow>
                   (case env of [] \<Rightarrow> None
                    | e # es \<Rightarrow> wait_loop tok caller_deadline es (e h2)))))"


declare wait_loop.simps [simp del]

subsection \<open>Ownership of the shared state\<close>

text \<open>The references to state \<open>s\<close>: its source handle and the live tokens.\<close>

definition source_refs :: "'a cancel_heap_scheme \<Rightarrow> nat \<Rightarrow> nat set" where
  "source_refs h s = {a. ch_sources h a = Some s}"

definition token_refs :: "'a cancel_heap_scheme \<Rightarrow> nat \<Rightarrow> nat set" where
  "token_refs h s = {a. \<exists>t. ch_tokens h a = Some t \<and> ct_state t = s}"

definition state_refs :: "'a cancel_heap_scheme \<Rightarrow> nat \<Rightarrow> nat" where
  "state_refs h s = card (source_refs h s) + card (token_refs h s)"

definition cancel_bounds :: "'a cancel_heap_scheme \<Rightarrow> bool" where
  "cancel_bounds h \<longleftrightarrow>
     finite (dom (ch_sources h)) \<and> finite (dom (ch_tokens h)) \<and>
     (\<forall>a \<in> dom (ch_states h) \<union> dom (ch_sources h) \<union> dom (ch_tokens h). a < ch_next h)"

text \<open>The counter of a live state is the number of its references, at least one; a state
  with no reference is freed.\<close>

definition count_ok :: "'a cancel_heap_scheme \<Rightarrow> nat \<Rightarrow> bool" where
  "count_ok h s \<longleftrightarrow>
     (case ch_states h s of None \<Rightarrow> state_refs h s = 0
      | Some st \<Rightarrow> unat (cs_ref_count st) = state_refs h s \<and> 0 < state_refs h s)"

definition cancel_inv :: "'a cancel_heap_scheme \<Rightarrow> bool" where
  "cancel_inv h \<longleftrightarrow> cancel_bounds h \<and> (\<forall>s. count_ok h s)"

lemma count_okD:
  "count_ok h s \<Longrightarrow> ch_states h s = Some st \<Longrightarrow>
     unat (cs_ref_count st) = state_refs h s \<and> 0 < state_refs h s"
  "count_ok h s \<Longrightarrow> ch_states h s = None \<Longrightarrow> state_refs h s = 0"
  by (auto simp: count_ok_def)

lemma cancel_invD:
  "cancel_inv h \<Longrightarrow> cancel_bounds h" "cancel_inv h \<Longrightarrow> count_ok h s"
  by (auto simp: cancel_inv_def)

lemma finite_source_refs [simp]: "cancel_bounds h \<Longrightarrow> finite (source_refs h s)"
  by (rule finite_subset [of _ "dom (ch_sources h)"]) (auto simp: source_refs_def cancel_bounds_def)

lemma finite_token_refs [simp]: "cancel_bounds h \<Longrightarrow> finite (token_refs h s)"
  by (rule finite_subset [of _ "dom (ch_tokens h)"]) (auto simp: token_refs_def cancel_bounds_def)

lemma state_refs_pos_source:
  "cancel_bounds h \<Longrightarrow> ch_sources h a = Some s \<Longrightarrow> 0 < state_refs h s"
  using finite_source_refs [of h s] by (auto simp: state_refs_def source_refs_def card_gt_0_iff)

lemma state_refs_pos_token:
  "cancel_bounds h \<Longrightarrow> ch_tokens h a = Some t \<Longrightarrow> 0 < state_refs h (ct_state t)"
  using finite_token_refs [of h "ct_state t"]
  by (auto simp: state_refs_def token_refs_def card_gt_0_iff)

lemma cancel_inv_source_live:
  "cancel_inv h \<Longrightarrow> ch_sources h a = Some s \<Longrightarrow> \<exists>st. ch_states h s = Some st"
  using state_refs_pos_source [of h a s] count_okD(2) [of h s]
  by (cases "ch_states h s") (auto simp: cancel_inv_def)

lemma cancel_inv_token_live:
  "cancel_inv h \<Longrightarrow> ch_tokens h a = Some t \<Longrightarrow> \<exists>st. ch_states h (ct_state t) = Some st"
  using state_refs_pos_token [of h a t] count_okD(2) [of h "ct_state t"]
  by (cases "ch_states h (ct_state t)") (auto simp: cancel_inv_def)

text \<open>Operations that change only the reasons, the clocks or the oracle keep the invariant.\<close>

definition same_refs :: "'a cancel_heap_scheme \<Rightarrow> 'a cancel_heap_scheme \<Rightarrow> bool" where
  "same_refs h h' \<longleftrightarrow>
     ch_sources h' = ch_sources h \<and> ch_tokens h' = ch_tokens h \<and> ch_next h' = ch_next h \<and>
     (\<forall>s. map_option cs_ref_count (ch_states h' s) = map_option cs_ref_count (ch_states h s))"

lemma same_refs_refl [simp]: "same_refs h h"
  by (simp add: same_refs_def)

lemma same_refs_trans: "same_refs h h1 \<Longrightarrow> same_refs h1 h2 \<Longrightarrow> same_refs h h2"
  by (simp add: same_refs_def)

lemma same_refs_domIff: "same_refs h h' \<Longrightarrow> ch_states h' s = None \<longleftrightarrow> ch_states h s = None"
  unfolding same_refs_def by (metis option.map_disc_iff)

lemma same_refs_state_refs: "same_refs h h' \<Longrightarrow> state_refs h' s = state_refs h s"
  by (simp add: same_refs_def state_refs_def source_refs_def token_refs_def)

lemma same_refs_bounds: "same_refs h h' \<Longrightarrow> cancel_bounds h' = cancel_bounds h"
proof -
  assume r: "same_refs h h'"
  have "dom (ch_states h') = dom (ch_states h)"
    using same_refs_domIff [OF r] by (auto simp: dom_def)
  with r show ?thesis by (simp add: same_refs_def cancel_bounds_def)
qed

lemma same_refs_count_ok: "same_refs h h' \<Longrightarrow> count_ok h' s = count_ok h s"
  using same_refs_state_refs [of h h' s]
  by (auto simp: count_ok_def same_refs_def split: option.splits
      dest!: spec [where P = "\<lambda>s. map_option cs_ref_count (ch_states h' s) = _ s" and x = s])

lemma same_refs_inv: "same_refs h h' \<Longrightarrow> cancel_inv h \<Longrightarrow> cancel_inv h'"
  by (simp add: cancel_inv_def same_refs_bounds same_refs_count_ok)

lemma same_refs_draw [simp]: "same_refs h (snd (ch_draw h))"
  by (auto simp: same_refs_def ch_draw_def split: prod.splits)

lemma same_refs_now [simp]: "same_refs h (snd (turbo_cancel_state_now_ms h st))"
  by (auto simp: same_refs_def turbo_cancel_state_now_ms_def split: prod.splits)

lemma ch_states_now [simp]: "ch_states (snd (turbo_cancel_state_now_ms h st)) = ch_states h"
  by (auto simp: turbo_cancel_state_now_ms_def split: prod.splits)

lemma ch_states_draw [simp]: "ch_states (snd (ch_draw h)) = ch_states h"
  by (auto simp: ch_draw_def split: prod.splits)

lemma refresh_ref_count [simp]:
  "cs_ref_count (turbo_cancel_state_refresh_deadline_locked st now) = cs_ref_count st"
  by (simp add: turbo_cancel_state_refresh_deadline_locked_def)

lemma same_refs_put:
  assumes "same_refs h h1" and "ch_states h s = Some st" and "cs_ref_count st' = cs_ref_count st"
  shows "same_refs h (h1\<lparr>ch_states := (ch_states h1)(s \<mapsto> st')\<rparr>)"
  using assms by (auto simp: same_refs_def)

lemma same_refs_put_now:
  "ch_states h s = Some st \<Longrightarrow> cs_ref_count st' = cs_ref_count st \<Longrightarrow>
   same_refs h ((snd (turbo_cancel_state_now_ms h st))\<lparr>ch_states := (ch_states h)(s \<mapsto> st')\<rparr>)"
  using same_refs_put [of h "snd (turbo_cancel_state_now_ms h st)" s st st'] by simp

lemma same_refs_refresh:
  "ch_states h s = Some st \<Longrightarrow> same_refs h (snd (refresh_locked h s st))"
  unfolding refresh_locked_def Let_def
  by (simp add: split_beta same_refs_put_now)

lemma source_state_SomeD: "source_state h src = Some (s, st) \<Longrightarrow> ch_states h s = Some st"
  by (auto simp: source_state_def split: option.splits)

lemma token_state_SomeD: "token_state h tok = Some (s, st) \<Longrightarrow> ch_states h s = Some st"
  by (auto simp: token_state_def split: option.splits)

lemma same_refs_cancel: "same_refs h (snd (turbo_cancel_source_cancel h src r))"
  unfolding turbo_cancel_source_cancel_def
  by (auto simp: split_beta Let_def same_refs_put_now dest!: source_state_SomeD
      split: option.splits)

lemma same_refs_source_reason: "same_refs h (snd (turbo_cancel_source_reason h src))"
  unfolding turbo_cancel_source_reason_def
  by (auto simp: same_refs_refresh dest!: source_state_SomeD split: option.splits)

lemma same_refs_token_check: "same_refs h (snd (turbo_cancel_token_check h tok))"
  unfolding turbo_cancel_token_check_def
  by (auto simp: split_beta same_refs_refresh dest!: token_state_SomeD split: option.splits)

lemma same_refs_token_reason: "same_refs h (snd (turbo_cancel_token_reason h tok))"
  unfolding turbo_cancel_token_reason_def
  by (auto simp: same_refs_refresh dest!: token_state_SomeD split: option.splits)

subsubsection \<open>Operations that change the references\<close>

text \<open>A generic step: one more reference to \<open>s\<close>, or one fewer, with the counter following.\<close>

lemma cancel_inv_recount:
  assumes inv: "cancel_inv h" and b: "cancel_bounds h'"
    and others: "\<And>s'. s' \<noteq> s \<Longrightarrow>
      ch_states h' s' = ch_states h s' \<and> state_refs h' s' = state_refs h s'"
    and mine: "count_ok h' s"
  shows "cancel_inv h'"
proof -
  have "count_ok h' s'" if "s' \<noteq> s" for s'
    using others [OF that] cancel_invD(2) [OF inv, of s']
    by (auto simp: count_ok_def split: option.splits)
  with mine have "count_ok h' s'" for s' by (cases "s' = s") simp_all
  with b show ?thesis by (simp add: cancel_inv_def)
qed

lemma cancel_inv_cong:
  assumes "cancel_inv h" and "cancel_bounds h'" and "ch_states h' = ch_states h"
    and "\<And>s. state_refs h' s = state_refs h s"
  shows "cancel_inv h'"
proof -
  have "count_ok h' s = count_ok h s" for s
    using assms(3,4) by (auto simp: count_ok_def split: option.splits)
  with assms(1,2) show ?thesis by (simp add: cancel_inv_def)
qed

lemma bounds_fresh:
  assumes "cancel_bounds h" and "ch_next h \<le> a"
  shows "ch_states h a = None" and "ch_sources h a = None" and "ch_tokens h a = None"
proof -
  have "a \<notin> dom (ch_states h) \<union> dom (ch_sources h) \<union> dom (ch_tokens h)"
    using assms by (auto simp: cancel_bounds_def dest!: bspec [of _ _ a])
  then show "ch_states h a = None" "ch_sources h a = None" "ch_tokens h a = None" by auto
qed

lemma create_inv:
  assumes inv: "cancel_inv h"
    and st: "cs_ref_count st = 1" and n: "s = ch_next h" "src = Suc s"
  shows "cancel_inv (h\<lparr>ch_states := (ch_states h)(s \<mapsto> st), ch_sources := (ch_sources h)(src \<mapsto> s),
                       ch_next := Suc src\<rparr>)" (is "cancel_inv ?h'")
proof (rule cancel_inv_recount [OF inv, of _ s])
  have b: "cancel_bounds h" using inv by (rule cancel_invD)
  show "cancel_bounds ?h'" using b n by (auto simp: cancel_bounds_def less_Suc_eq)
  have fresh: "ch_sources h src = None" "ch_states h s = None"
    using bounds_fresh [OF b] n by auto
  have src: "source_refs ?h' s' = (if s' = s then insert src (source_refs h s) else source_refs h s')"
    and tok: "token_refs ?h' s' = token_refs h s'" for s'
    using fresh by (auto simp: source_refs_def token_refs_def)
  have zero: "source_refs h s = {}" "token_refs h s = {}"
    using count_okD(2) [OF cancel_invD(2) [OF inv] fresh(2)] b by (auto simp: state_refs_def)
  show "ch_states ?h' s' = ch_states h s' \<and> state_refs ?h' s' = state_refs h s'" if "s' \<noteq> s" for s'
    using that src [of s'] tok [of s'] by (simp add: state_refs_def)
  show "count_ok ?h' s"
    using src [of s] tok [of s] zero st by (simp add: state_refs_def count_ok_def)
qed

lemma release_states_other [simp]:
  "s' \<noteq> s \<Longrightarrow> ch_states (turbo_cancel_state_release h s) s' = ch_states h s'"
  by (auto simp: turbo_cancel_state_release_def split: option.splits)

lemma release_frame [simp]:
  "ch_sources (turbo_cancel_state_release h s) = ch_sources h"
  "ch_tokens (turbo_cancel_state_release h s) = ch_tokens h"
  "ch_next (turbo_cancel_state_release h s) = ch_next h"
  by (auto simp: turbo_cancel_state_release_def split: option.splits)

lemma release_dom: "dom (ch_states (turbo_cancel_state_release h s)) \<subseteq> dom (ch_states h)"
  by (auto simp: turbo_cancel_state_release_def split: option.splits if_splits)

lemma unat_minus_one_size: "(c :: size_t) \<noteq> 0 \<Longrightarrow> unat (c - 1) = unat c - 1"
  by (simp add: unat_minus_one)

lemma unat_plus_one_size: "(c :: size_t) \<noteq> - 1 \<Longrightarrow> unat (c + 1) = unat c + 1"
  by (metis Suc_eq_plus1 add.commute unatSuc add_eq_0_iff)

lemma cancel_bounds_mono:
  assumes "cancel_bounds h" and "dom (ch_states h') \<subseteq> dom (ch_states h)"
    and "dom (ch_sources h') \<subseteq> dom (ch_sources h)" and "dom (ch_tokens h') \<subseteq> dom (ch_tokens h)"
    and "ch_next h' = ch_next h"
  shows "cancel_bounds h'"
  using assms unfolding cancel_bounds_def by (metis Un_iff finite_subset subset_iff)

lemma drop_ref_inv:
  assumes inv: "cancel_inv h" and b: "cancel_bounds h'" and st: "ch_states h s = Some st"
    and states: "ch_states h' = ch_states (turbo_cancel_state_release h s)"
    and mine: "Suc (state_refs h' s) = state_refs h s"
    and others: "\<And>s'. s' \<noteq> s \<Longrightarrow> state_refs h' s' = state_refs h s'"
  shows "cancel_inv h'"
proof (rule cancel_inv_recount [OF inv b, of s])
  have c: "unat (cs_ref_count st) = Suc (state_refs h' s)"
    using count_okD(1) [OF cancel_invD(2) [OF inv] st] mine by simp
  show "count_ok h' s"
  proof (cases "cs_ref_count st = 1")
    case True
    then show ?thesis using c st by (simp add: count_ok_def states turbo_cancel_state_release_def)
  next
    case False
    then have "unat (cs_ref_count st) \<noteq> 1" by (metis unat_1 word_unat_eq_iff)
    moreover have "unat (cs_ref_count st - 1) = state_refs h' s"
      using c by (subst unat_minus_one_size) auto
    ultimately show ?thesis
      using c st False by (simp add: count_ok_def states turbo_cancel_state_release_def)
  qed
qed (use others states in auto)

lemma source_destroy_inv:
  assumes inv: "cancel_inv h" shows "cancel_inv (turbo_cancel_source_destroy h src)"
proof (cases "\<exists>a s. src = Some a \<and> ch_sources h a = Some s")
  case False
  with inv show ?thesis by (auto simp: turbo_cancel_source_destroy_def split: option.splits)
next
  case True
  then obtain a s where a: "src = Some a" "ch_sources h a = Some s" by blast
  obtain st where st: "ch_states h s = Some st" using cancel_inv_source_live [OF inv a(2)] by blast
  let ?h1 = "turbo_cancel_state_release h s"
  let ?h' = "?h1\<lparr>ch_sources := (ch_sources ?h1)(a := None)\<rparr>"
  have b: "cancel_bounds h" using inv by (rule cancel_invD)
  have src: "source_refs ?h' s' = source_refs h s' - (if s' = s then {a} else {})"
    and tok: "token_refs ?h' s' = token_refs h s'" for s'
    using a by (auto simp: source_refs_def token_refs_def)
  have "a \<in> source_refs h s" using a by (simp add: source_refs_def)
  then have dec: "Suc (card (source_refs h s - {a})) = card (source_refs h s)"
    using b by (intro card_Suc_Diff1) auto
  have "cancel_inv ?h'"
  proof (rule drop_ref_inv [OF inv _ st])
    show "cancel_bounds ?h'" using b by (rule cancel_bounds_mono) (use release_dom [of h s] in auto)
  qed (use dec src tok in \<open>simp_all add: state_refs_def\<close>)
  with a show ?thesis by (simp add: turbo_cancel_source_destroy_def Let_def)
qed

lemma token_release_inv:
  assumes inv: "cancel_inv h" shows "cancel_inv (turbo_cancel_token_release h tok)"
proof (cases "\<exists>a t. tok = Some a \<and> ch_tokens h a = Some t")
  case False
  with inv show ?thesis by (auto simp: turbo_cancel_token_release_def split: option.splits)
next
  case True
  then obtain a t where a: "tok = Some a" "ch_tokens h a = Some t" by blast
  have b: "cancel_bounds h" using inv by (rule cancel_invD)
  show ?thesis
  proof (cases "ct_ref_count t = 1")
    case False
    let ?h' = "h\<lparr>ch_tokens := (ch_tokens h)(a \<mapsto> t\<lparr>ct_ref_count := ct_ref_count t - 1\<rparr>)\<rparr>"
    have "source_refs ?h' s = source_refs h s" "token_refs ?h' s = token_refs h s" for s
      using a by (auto simp: source_refs_def token_refs_def)
    then have "state_refs ?h' s = state_refs h s" for s by (simp add: state_refs_def)
    moreover have "cancel_bounds ?h'" using b a by (auto simp: cancel_bounds_def)
    ultimately have "cancel_inv ?h'" by (intro cancel_inv_cong [OF inv]) simp_all
    with False a show ?thesis by (simp add: turbo_cancel_token_release_def)
  next
    case True
    let ?s = "ct_state t" and ?h1 = "turbo_cancel_state_release h (ct_state t)"
    let ?h' = "?h1\<lparr>ch_tokens := (ch_tokens ?h1)(a := None)\<rparr>"
    obtain st where st: "ch_states h ?s = Some st" using cancel_inv_token_live [OF inv a(2)] by blast
    have src: "source_refs ?h' s' = source_refs h s'"
      and tok: "token_refs ?h' s' = token_refs h s' - (if s' = ?s then {a} else {})" for s'
      using a by (auto simp: source_refs_def token_refs_def)
    have "a \<in> token_refs h ?s" using a by (simp add: token_refs_def)
    then have dec: "Suc (card (token_refs h ?s - {a})) = card (token_refs h ?s)"
      using b by (intro card_Suc_Diff1) auto
    have "cancel_inv ?h'"
    proof (rule drop_ref_inv [OF inv _ st])
      show "cancel_bounds ?h'" using b by (rule cancel_bounds_mono) (use release_dom [of h ?s] in auto)
    qed (use dec src tok in \<open>simp_all add: state_refs_def\<close>)
    with True a show ?thesis by (simp add: turbo_cancel_token_release_def Let_def)
  qed
qed

lemma token_retain_inv:
  assumes inv: "cancel_inv h" shows "cancel_inv (snd (turbo_cancel_token_retain h tok))"
proof -
  have "cancel_inv (h\<lparr>ch_tokens := (ch_tokens h)(a \<mapsto> t\<lparr>ct_ref_count := c\<rparr>)\<rparr>)" (is "cancel_inv ?h'")
    if a: "ch_tokens h a = Some t" for a t c
  proof (rule cancel_inv_cong [OF inv])
    show "cancel_bounds ?h'" using cancel_invD(1) [OF inv] a by (auto simp: cancel_bounds_def)
    show "state_refs ?h' s = state_refs h s" for s
    proof -
      have "source_refs ?h' s = source_refs h s" "token_refs ?h' s = token_refs h s"
        using a by (auto simp: source_refs_def token_refs_def)
      then show ?thesis by (simp add: state_refs_def)
    qed
  qed simp
  with inv show ?thesis by (auto simp: turbo_cancel_token_retain_def split: option.splits)
qed

text \<open>A new token: the reference is counted before the token exists; when the token cannot be
  allocated the count is taken back.\<close>

lemma retain_release_same_refs:
  assumes "ch_states h s = Some st" and "cs_ref_count st \<noteq> 0"
    and "turbo_cancel_state_retain h s = (True, h1)"
  shows "same_refs h (turbo_cancel_state_release (snd (ch_draw h1)) s)"
  using assms
  by (auto simp: turbo_cancel_state_retain_def turbo_cancel_state_release_def same_refs_def ch_draw_def
      split: if_splits prod.splits)

lemma new_token_inv:
  assumes inv: "cancel_inv h" and st: "ch_states h s = Some st"
    and ret: "turbo_cancel_state_retain h s = (True, h1)" and h2: "h2 = snd (ch_draw h1)"
  shows "cancel_inv (h2\<lparr>ch_tokens := (ch_tokens h2)(ch_next h2 \<mapsto> \<lparr>ct_ref_count = 1, ct_state = s\<rparr>),
                        ch_next := Suc (ch_next h2)\<rparr>)" (is "cancel_inv ?h'")
proof (rule cancel_inv_recount [OF inv, of _ s])
  have b: "cancel_bounds h" using inv by (rule cancel_invD)
  have c: "cs_ref_count st \<noteq> - 1"
    and h1: "h1 = h\<lparr>ch_states := (ch_states h)(s \<mapsto> st\<lparr>cs_ref_count := cs_ref_count st + 1\<rparr>)\<rparr>"
    using ret st by (auto simp: turbo_cancel_state_retain_def split: if_splits)
  have frame: "ch_sources h2 = ch_sources h" "ch_tokens h2 = ch_tokens h" "ch_next h2 = ch_next h"
    "ch_states h2 = (ch_states h)(s \<mapsto> st\<lparr>cs_ref_count := cs_ref_count st + 1\<rparr>)"
    using same_refs_draw [of h1] by (simp_all add: h2 h1 same_refs_def ch_states_draw)
  show "cancel_bounds ?h'"
    using b st by (auto simp: cancel_bounds_def frame less_Suc_eq)
  have fresh: "ch_tokens h (ch_next h) = None" using bounds_fresh(3) [OF b] by simp
  have src: "source_refs ?h' s' = source_refs h s'"
    and tok: "token_refs ?h' s' = (if s' = s then insert (ch_next h) (token_refs h s) else token_refs h s')"
    for s' using fresh by (auto simp: source_refs_def token_refs_def frame)
  show "ch_states ?h' s' = ch_states h s' \<and> state_refs ?h' s' = state_refs h s'" if "s' \<noteq> s" for s'
    using that src [of s'] tok [of s'] by (simp add: state_refs_def frame)
  have "ch_next h \<notin> token_refs h s" using fresh by (simp add: token_refs_def)
  then have "state_refs ?h' s = Suc (state_refs h s)"
    using src [of s] tok [of s] b by (simp add: state_refs_def)
  moreover have "unat (cs_ref_count st + 1) = Suc (unat (cs_ref_count st))"
    using unat_plus_one_size [OF c] by simp
  ultimately show "count_ok ?h' s"
    using count_okD(1) [OF cancel_invD(2) [OF inv] st] by (simp add: count_ok_def frame)
qed

lemma source_token_inv:
  assumes inv: "cancel_inv h" shows "cancel_inv (snd (snd (turbo_cancel_source_token h src)))"
proof (cases "source_state h src")
  case None
  with inv show ?thesis by (simp add: turbo_cancel_source_token_def)
next
  case (Some p)
  then obtain s st where p: "source_state h src = Some (s, st)" by (cases p) auto
  then have st: "ch_states h s = Some st" by (rule source_state_SomeD)
  have c0: "cs_ref_count st \<noteq> 0" using count_okD(1) [OF cancel_invD(2) [OF inv] st] by auto
  show ?thesis
  proof (cases "turbo_cancel_state_retain h s")
    case (Pair ok h1)
    show ?thesis
    proof (cases ok)
      case False
      with Pair st have "h1 = h" by (auto simp: turbo_cancel_state_retain_def split: if_splits)
      with False Pair p inv show ?thesis by (simp add: turbo_cancel_source_token_def)
    next
      case True
      with Pair have ret: "turbo_cancel_state_retain h s = (True, h1)" by simp
      show ?thesis
        using new_token_inv [OF inv st ret refl]
          same_refs_inv [OF retain_release_same_refs [OF st c0 ret] inv]
        by (simp add: turbo_cancel_source_token_def p ret split_beta Let_def)
    qed
  qed
qed

lemma source_create_inv:
  assumes inv: "cancel_inv h"
  shows "cancel_inv (snd (snd (turbo_cancel_source_create sz h cfg)))"
proof -
  let ?h2 = "snd (ch_draw (snd (ch_draw h)))"
  let ?h4 = "snd (ch_draw (snd (ch_draw ?h2)))"
  have i2: "cancel_inv ?h2" using inv by (blast intro: same_refs_inv same_refs_draw)
  then have "cancel_inv ?h4" by (blast intro: same_refs_inv same_refs_draw)
  with inv i2 show ?thesis
    by (auto simp: turbo_cancel_source_create_def split_beta Let_def simp del: ch_states_draw
        intro!: create_inv)
qed

subsection \<open>Interleavings of the operations\<close>

text \<open>One operation of any thread, on any handles. \<open>tick\<close> lets the environment (the allocator
  and the two clocks) change between the operations.\<close>

inductive cancel_step :: "'a cancel_heap_scheme \<Rightarrow> 'a cancel_heap_scheme \<Rightarrow> bool" where
  create: "cancel_step h (snd (snd (turbo_cancel_source_create sz h cfg)))"
| destroy: "cancel_step h (turbo_cancel_source_destroy h src)"
| token: "cancel_step h (snd (snd (turbo_cancel_source_token h src)))"
| cancel: "cancel_step h (snd (turbo_cancel_source_cancel h src r))"
| source_reason: "cancel_step h (snd (turbo_cancel_source_reason h src))"
| retain: "cancel_step h (snd (turbo_cancel_token_retain h tok))"
| release: "cancel_step h (turbo_cancel_token_release h tok)"
| check: "cancel_step h (snd (turbo_cancel_token_check h tok))"
| token_reason: "cancel_step h (snd (turbo_cancel_token_reason h tok))"
| tick: "cancel_step h (h\<lparr>ch_alloc := al, ch_sys_clock := c1, ch_user_clock := c2\<rparr>)"

definition cancel_init :: "alloc \<Rightarrow> cancel_heap" where
  "cancel_init a = \<lparr>ch_alloc = a, ch_states = Map.empty, ch_sources = Map.empty,
     ch_tokens = Map.empty, ch_next = 1, ch_sys_clock = [], ch_user_clock = []\<rparr>"

lemma cancel_init_inv: "cancel_inv (cancel_init a)"
  by (simp add: cancel_inv_def cancel_bounds_def count_ok_def state_refs_def source_refs_def
      token_refs_def cancel_init_def)

lemma cancel_step_inv: "cancel_step h h' \<Longrightarrow> cancel_inv h \<Longrightarrow> cancel_inv h'"
proof (induction rule: cancel_step.induct)
  case (tick h al c1 c2)
  then show ?case by (rule same_refs_inv [rotated]) (simp add: same_refs_def)
qed (simp_all add: source_create_inv source_destroy_inv source_token_inv token_retain_inv
    token_release_inv same_refs_inv [OF same_refs_cancel] same_refs_inv [OF same_refs_source_reason]
    same_refs_inv [OF same_refs_token_check] same_refs_inv [OF same_refs_token_reason])

lemma cancel_steps_inv: "cancel_step\<^sup>*\<^sup>* h h' \<Longrightarrow> cancel_inv h \<Longrightarrow> cancel_inv h'"
  by (induction rule: rtranclp_induct) (auto intro: cancel_step_inv)

subsubsection \<open>The first published reason wins\<close>

text \<open>What a step can do to one state: a published reason stays; a state freed once stays
  freed, because addresses are not handed out again.\<close>

definition reason_kept :: "nat \<Rightarrow> 'a cancel_heap_scheme \<Rightarrow> 'a cancel_heap_scheme \<Rightarrow> bool" where
  "reason_kept s h h' \<longleftrightarrow>
     ch_next h \<le> ch_next h' \<and>
     (s < ch_next h \<longrightarrow>
       (case ch_states h s of
          None \<Rightarrow> ch_states h' s = None
        | Some st \<Rightarrow>
           (case ch_states h' s of
              None \<Rightarrow> True
            | Some st' \<Rightarrow> cs_deadline_mono_ms st' = cs_deadline_mono_ms st \<and>
                (cs_reason st = TURBO_CANCEL_NONE \<or> cs_reason st' = cs_reason st))))"

lemma reason_kept_refl [simp]: "reason_kept s h h"
  by (simp add: reason_kept_def split: option.splits)

lemma reason_kept_trans: "reason_kept s h h1 \<Longrightarrow> reason_kept s h1 h2 \<Longrightarrow> reason_kept s h h2"
  by (fastforce simp: reason_kept_def split: option.splits)

lemma reason_kept_same_states:
  "ch_states h' = ch_states h \<Longrightarrow> ch_next h' = ch_next h \<Longrightarrow> reason_kept s h h'"
  by (simp add: reason_kept_def split: option.splits)

lemma refresh_kept:
  "cs_deadline_mono_ms (turbo_cancel_state_refresh_deadline_locked st now) = cs_deadline_mono_ms st"
  "cs_reason st \<noteq> TURBO_CANCEL_NONE \<Longrightarrow> turbo_cancel_state_refresh_deadline_locked st now = st"
  by (auto simp: turbo_cancel_state_refresh_deadline_locked_def)

lemma reason_kept_put:
  assumes "ch_states h t = Some st" and "ch_states h1 = ch_states h" and "ch_next h1 = ch_next h"
    and "cs_deadline_mono_ms st' = cs_deadline_mono_ms st"
    and "cs_reason st = TURBO_CANCEL_NONE \<or> cs_reason st' = cs_reason st"
  shows "reason_kept s h (h1\<lparr>ch_states := (ch_states h1)(t \<mapsto> st')\<rparr>)"
  using assms by (auto simp: reason_kept_def split: option.splits)

lemma ch_next_now [simp]: "ch_next (snd (turbo_cancel_state_now_ms h st)) = ch_next h"
  by (auto simp: turbo_cancel_state_now_ms_def split: prod.splits)

lemma ch_next_draw [simp]: "ch_next (snd (ch_draw h)) = ch_next h"
  by (auto simp: ch_draw_def split: prod.splits)

lemma reason_kept_refresh:
  "ch_states h t = Some st \<Longrightarrow> reason_kept s h (snd (refresh_locked h t st))"
  unfolding refresh_locked_def Let_def split_beta snd_conv
  by (rule reason_kept_put [where st = st])
    (auto simp: refresh_kept turbo_cancel_state_refresh_deadline_locked_def)

lemma reason_kept_release: "reason_kept s h (turbo_cancel_state_release h t)"
  by (auto simp: turbo_cancel_state_release_def reason_kept_def split: option.splits)

lemma reason_kept_retain: "reason_kept s h (snd (turbo_cancel_state_retain h t))"
  by (auto simp: turbo_cancel_state_retain_def reason_kept_def split: option.splits)

lemma reason_kept_cancel: "reason_kept s h (snd (turbo_cancel_source_cancel h src r))"
proof (cases "source_state h src")
  case None
  then show ?thesis by (simp add: turbo_cancel_source_cancel_def)
next
  case (Some p)
  then obtain t st where p: "source_state h src = Some (t, st)" by (cases p) auto
  have st: "ch_states h t = Some st" using p by (rule source_state_SomeD)
  define now where "now = fst (turbo_cancel_state_now_ms h st)"
  define st1 where "st1 = turbo_cancel_state_refresh_deadline_locked st now"
  have d: "cs_deadline_mono_ms st1 = cs_deadline_mono_ms st"
    and r1: "cs_reason st = TURBO_CANCEL_NONE \<or> cs_reason st1 = cs_reason st"
    by (auto simp: st1_def refresh_kept turbo_cancel_state_refresh_deadline_locked_def)
  show ?thesis
    using reason_kept_put [OF st, of "snd (turbo_cancel_state_now_ms h st)" st1 s]
      reason_kept_put [OF st, of "snd (turbo_cancel_state_now_ms h st)" "st1\<lparr>cs_reason := r\<rparr>" s] d r1
    by (auto simp: turbo_cancel_source_cancel_def p split_beta Let_def now_def [symmetric]
        st1_def [symmetric])
qed

lemma reason_kept_create:
  "reason_kept s h (snd (snd (turbo_cancel_source_create sz h cfg)))"
  by (auto simp: turbo_cancel_source_create_def split_beta Let_def reason_kept_def
      split: option.splits)

lemma reason_kept_token: "reason_kept s h (snd (snd (turbo_cancel_source_token h src)))"
proof (cases "source_state h src")
  case None
  then show ?thesis by (simp add: turbo_cancel_source_token_def)
next
  case (Some p)
  then obtain t st where p: "source_state h src = Some (t, st)" by (cases p) auto
  let ?h1 = "snd (turbo_cancel_state_retain h t)" and ?h2 = "snd (ch_draw (snd (turbo_cancel_state_retain h t)))"
  have h2: "reason_kept s h ?h2"
    using reason_kept_trans [OF reason_kept_retain, of s h t ?h2] by (simp add: reason_kept_same_states)
  have "reason_kept s h (turbo_cancel_state_release ?h2 t)"
    using h2 reason_kept_release by (rule reason_kept_trans)
  moreover have "reason_kept s h (?h2\<lparr>ch_tokens := tk, ch_next := Suc (ch_next ?h2)\<rparr>)" for tk
    using h2 by (auto simp: reason_kept_def split: option.splits)
  ultimately show ?thesis
    using reason_kept_retain [of s h t]
    by (simp add: turbo_cancel_source_token_def p split_beta Let_def)
qed

lemma cancel_step_reason_kept: "cancel_step h h' \<Longrightarrow> reason_kept s h h'"
proof (induction rule: cancel_step.induct)
  case (destroy h src)
  have "reason_kept s h ((turbo_cancel_state_release h t)\<lparr>ch_sources := m\<rparr>)" for t m
    using reason_kept_release [of s h t] by (rule reason_kept_trans) (simp add: reason_kept_same_states)
  then show ?case by (simp add: turbo_cancel_source_destroy_def Let_def split: option.splits)
next
  case (release h tok)
  have "reason_kept s h ((turbo_cancel_state_release h t)\<lparr>ch_tokens := m\<rparr>)" for t m
    using reason_kept_release [of s h t] by (rule reason_kept_trans) (simp add: reason_kept_same_states)
  then show ?case
    by (simp add: turbo_cancel_token_release_def Let_def reason_kept_same_states split: option.splits)
next
  case (source_reason h src)
  then show ?case
    by (auto simp: turbo_cancel_source_reason_def reason_kept_refresh dest!: source_state_SomeD
        split: option.splits)
next
  case (check h tok)
  then show ?case
    by (auto simp: turbo_cancel_token_check_def split_beta reason_kept_refresh dest!: token_state_SomeD
        split: option.splits)
next
  case (token_reason h tok)
  then show ?case
    by (auto simp: turbo_cancel_token_reason_def reason_kept_refresh dest!: token_state_SomeD
        split: option.splits)
next
  case (retain h tok)
  then show ?case
    by (auto simp: turbo_cancel_token_retain_def reason_kept_same_states split: option.splits)
qed (simp_all add: reason_kept_create reason_kept_token reason_kept_cancel reason_kept_same_states)

lemma cancel_steps_reason_kept: "cancel_step\<^sup>*\<^sup>* h h' \<Longrightarrow> reason_kept s h h'"
  by (induction rule: rtranclp_induct) (auto intro: reason_kept_trans cancel_step_reason_kept)

subsection \<open>The interface a client polls\<close>

text \<open>
  What the graph runtime relies on when it polls a token between nodes: whatever happens between
  two polls, a poll that reported an end of the run is answered in the same way ever after.
\<close>

locale cancel_poll =
  fixes env :: "'h \<Rightarrow> 'h \<Rightarrow> bool"
    and poll :: "'h \<Rightarrow> 'r \<times> 'h"
    and active :: "'r \<Rightarrow> bool"
    and live :: "'h \<Rightarrow> bool"
  assumes poll_live: "live h \<Longrightarrow> live (snd (poll h))"
    and poll_sticky: "live h \<Longrightarrow> poll h = (r, h1) \<Longrightarrow> \<not> active r \<Longrightarrow> env\<^sup>*\<^sup>* h1 h2 \<Longrightarrow> live h2 \<Longrightarrow>
      fst (poll h2) = r"
begin

text \<open>A run that polls repeatedly, with arbitrary steps of the environment in between.\<close>

inductive polls :: "'h \<Rightarrow> 'r list \<Rightarrow> 'h \<Rightarrow> bool" where
  none: "polls h [] h"
| one: "polls h rs h1 \<Longrightarrow> env\<^sup>*\<^sup>* h1 h2 \<Longrightarrow> live h2 \<Longrightarrow> poll h2 = (r, h3) \<Longrightarrow> env h2 h3 \<Longrightarrow>
    polls h (rs @ [r]) h3"

lemma polls_after_end:
  assumes "polls h1 rs h2" and "live h0" and "poll h0 = (r, h1)" and "\<not> active r"
  shows "set rs \<subseteq> {r} \<and> env\<^sup>*\<^sup>* h1 h2"
  using assms
proof (induction rule: polls.induct)
  case (none h)
  then show ?case by simp
next
  case (one h rs h1 h2 r' h3)
  then have reach: "env\<^sup>*\<^sup>* h h2" by auto
  then have "fst (poll h2) = r" using one poll_sticky by blast
  then have "r' = r" using one by simp
  moreover have "env\<^sup>*\<^sup>* h h3" using reach one.hyps(5) by (rule rtranclp.rtrancl_into_rtrancl)
  ultimately show ?case using one by auto
qed

end

definition token_live :: "nat \<Rightarrow> 'a cancel_heap_scheme \<Rightarrow> bool" where
  "token_live a h \<longleftrightarrow> cancel_inv h \<and> ch_tokens h a \<noteq> None"

text \<open>A token keeps pointing to the same state as long as it lives, and addresses are not reused.\<close>

definition token_kept :: "nat \<Rightarrow> 'a cancel_heap_scheme \<Rightarrow> 'a cancel_heap_scheme \<Rightarrow> bool" where
  "token_kept a h h' \<longleftrightarrow> ch_next h \<le> ch_next h' \<and>
     (a < ch_next h \<longrightarrow>
       (case ch_tokens h' a of None \<Rightarrow> True
        | Some t' \<Rightarrow> (\<exists>t. ch_tokens h a = Some t \<and> ct_state t' = ct_state t)))"

lemma token_kept_trans: "token_kept a h h1 \<Longrightarrow> token_kept a h1 h2 \<Longrightarrow> token_kept a h h2"
  by (fastforce simp: token_kept_def split: option.splits)

lemma token_kept_same:
  "ch_tokens h' = ch_tokens h \<Longrightarrow> ch_next h \<le> ch_next h' \<Longrightarrow> token_kept a h h'"
  by (auto simp: token_kept_def split: option.splits)

lemma token_kept_same_refs: "same_refs h h' \<Longrightarrow> token_kept a h h'"
  by (rule token_kept_same) (simp_all add: same_refs_def)

lemma ch_tokens_draw [simp]: "ch_tokens (snd (ch_draw h)) = ch_tokens h"
  by (auto simp: ch_draw_def split: prod.splits)

lemma retain_frame [simp]:
  "ch_tokens (snd (turbo_cancel_state_retain h s)) = ch_tokens h"
  "ch_next (snd (turbo_cancel_state_retain h s)) = ch_next h"
  by (auto simp: turbo_cancel_state_retain_def split: option.splits)

lemma cancel_step_token_kept: "cancel_step h h' \<Longrightarrow> token_kept a h h'"
proof (induction rule: cancel_step.induct)
  case (create h sz cfg)
  show ?case
    by (rule token_kept_same) (auto simp: turbo_cancel_source_create_def split_beta Let_def)
next
  case (token h src)
  show ?case
    by (auto simp: turbo_cancel_source_token_def split_beta Let_def token_kept_def
        split: option.splits)
next
  case (retain h tok)
  show ?case
    by (auto simp: turbo_cancel_token_retain_def token_kept_def split: option.splits)
next
  case (release h tok)
  show ?case
    by (auto simp: turbo_cancel_token_release_def token_kept_def Let_def split: option.splits)
next
  case (destroy h src)
  show ?case
    by (rule token_kept_same) (auto simp: turbo_cancel_source_destroy_def Let_def split: option.splits)
qed (simp_all add: token_kept_same_refs same_refs_cancel same_refs_source_reason
    same_refs_token_check same_refs_token_reason token_kept_same)

lemma cancel_steps_token_kept: "cancel_step\<^sup>*\<^sup>* h h' \<Longrightarrow> token_kept a h h'"
  by (induction rule: rtranclp_induct)
    (auto intro: token_kept_trans cancel_step_token_kept token_kept_same)

lemma token_live_state:
  assumes "token_live a h"
  obtains t st where "ch_tokens h a = Some t" and "token_state h (Some a) = Some (ct_state t, st)"
    and "ch_states h (ct_state t) = Some st" and "a < ch_next h" and "ct_state t < ch_next h"
proof -
  from assms obtain t where inv: "cancel_inv h" and t: "ch_tokens h a = Some t"
    by (auto simp: token_live_def)
  moreover obtain st where st: "ch_states h (ct_state t) = Some st"
    using cancel_inv_token_live [OF inv t] by blast
  moreover have "a < ch_next h" "ct_state t < ch_next h"
    using bounds_fresh [OF cancel_invD(1) [OF inv]] t st
    by (metis not_le_imp_less option.distinct(1))+
  ultimately show ?thesis using that by (simp add: token_state_def)
qed

lemma token_check_live: "token_live a h \<Longrightarrow> token_live a (snd (turbo_cancel_token_check h (Some a)))"
  using same_refs_token_check [of h "Some a"] same_refs_inv
  unfolding token_live_def same_refs_def by fastforce

lemma check_reports_reason:
  assumes "token_live a h" and "turbo_cancel_token_check h (Some a) = (r, h1)"
  obtains t st1 where "ch_tokens h1 a = Some t" and "ch_states h1 (ct_state t) = Some st1"
    and "r = turbo_cancel_reason_status (cs_reason st1)"
proof -
  obtain t st where t: "ch_tokens h a = Some t" "token_state h (Some a) = Some (ct_state t, st)"
    using assms(1) by (rule token_live_state)
  have "ch_tokens h1 a = Some t"
    using same_refs_token_check [of h "Some a"] t assms(2) by (simp add: same_refs_def)
  moreover from assms(2) t(2) have "\<exists>st1. ch_states h1 (ct_state t) = Some st1 \<and>
      r = turbo_cancel_reason_status (cs_reason st1)"
    by (auto simp: turbo_cancel_token_check_def refresh_locked_def split_beta Let_def)
  ultimately show ?thesis using that by blast
qed

lemma token_check_sticky:
  assumes live: "token_live a h" and c: "turbo_cancel_token_check h (Some a) = (r, h1)"
    and r: "r \<noteq> SALTS_OK" and steps: "cancel_step\<^sup>*\<^sup>* h1 h2" and live2: "token_live a h2"
  shows "fst (turbo_cancel_token_check h2 (Some a)) = r"
proof -
  obtain t1 st1 where t1: "ch_tokens h1 a = Some t1" "ch_states h1 (ct_state t1) = Some st1"
    and rs: "r = turbo_cancel_reason_status (cs_reason st1)"
    using live c by (rule check_reports_reason)
  have live1: "token_live a h1" using token_check_live [OF live] c by simp
  obtain t2 st2 where t2: "ch_tokens h2 a = Some t2" "token_state h2 (Some a) = Some (ct_state t2, st2)"
    "ch_states h2 (ct_state t2) = Some st2" using live2 by (rule token_live_state)
  have lt: "a < ch_next h1" "ct_state t1 < ch_next h1"
    using live1 t1 by (auto elim: token_live_state)
  have eq: "ct_state t2 = ct_state t1"
    using cancel_steps_token_kept [OF steps, of a] lt(1) t1(1) t2(1) by (simp add: token_kept_def)
  have none: "cs_reason st1 \<noteq> TURBO_CANCEL_NONE"
    using rs r by (auto simp: turbo_cancel_reason_status_def)
  then have "cs_reason st2 = cs_reason st1"
    using cancel_steps_reason_kept [OF steps, of "ct_state t1"] lt(2) t1(2) t2(3) eq
    by (simp add: reason_kept_def)
  with none t2(2) rs show ?thesis
    by (simp add: turbo_cancel_token_check_def refresh_locked_def split_beta Let_def refresh_kept)
qed

interpretation token_poll: cancel_poll cancel_step "\<lambda>h. turbo_cancel_token_check h (Some a)"
    "\<lambda>r. r = SALTS_OK" "token_live a" for a
  by unfold_locales (use token_check_live token_check_sticky in blast)+

subsection \<open>Waiting: bounds, outcome, progress\<close>

lemma wait_pass_signaled:
  "wait_pass st cd now = (Inl TURBO_CANCEL_WAIT_SIGNALED, st1) \<Longrightarrow> cs_reason st1 \<noteq> TURBO_CANCEL_NONE"
  by (auto simp: wait_pass_def Let_def split: if_splits)

lemma wait_pass_timeout:
  "wait_pass st cd now = (Inl TURBO_CANCEL_WAIT_TIMEOUT, st1) \<Longrightarrow>
     cs_reason st1 = TURBO_CANCEL_NONE \<and> (\<exists>d. cd = Some d \<and> d \<le> now)"
  by (auto simp: wait_pass_def Let_def split: if_splits option.splits)

lemma wait_pass_not_invalid: "fst (wait_pass st cd now) \<noteq> Inl TURBO_CANCEL_WAIT_INVALID_ARGUMENT"
  by (auto simp: wait_pass_def Let_def)

lemma wait_pass_sleep:
  assumes "wait_pass st cd now = (Inr (Some ns), st1)"
  shows "now < wait_wake_deadline st cd"
    and "ns = wait_slice_ms (wait_wake_deadline st cd) now * TURBO_MILLISECONDS_TO_NANOSECONDS"
proof -
  let ?st1 = "turbo_cancel_state_refresh_deadline_locked st now"
  have none: "cs_reason ?st1 = TURBO_CANCEL_NONE" and cd: "\<And>d. cd = Some d \<Longrightarrow> now < d"
    and wake: "wait_wake_deadline ?st1 cd \<noteq> - 1"
    and ns: "ns = wait_slice_ms (wait_wake_deadline ?st1 cd) now * TURBO_MILLISECONDS_TO_NANOSECONDS"
    using assms by (auto simp: wait_pass_def Let_def split: if_splits option.splits)
  from none have st1: "?st1 = st" and dl: "cs_deadline_mono_ms st \<noteq> 0 \<Longrightarrow> now < cs_deadline_mono_ms st"
    by (auto simp: turbo_cancel_state_refresh_deadline_locked_def split: if_splits)
  show "now < wait_wake_deadline st cd"
    using wake dl cd unfolding st1 by (auto simp: wait_wake_deadline_def Let_def split: option.splits if_splits)
  show "ns = wait_slice_ms (wait_wake_deadline st cd) now * TURBO_MILLISECONDS_TO_NANOSECONDS"
    using ns unfolding st1 .
qed

lemma wait_slice_bounds:
  assumes "now < wake"
  shows "0 < unat (wait_slice_ms wake now)" and "unat (wait_slice_ms wake now) \<le> 4294967294"
    and "unat now + unat (wait_slice_ms wake now) \<le> unat wake"
proof -
  let ?d = "wake - now"
  have d: "unat ?d = unat wake - unat now" using assms by (simp add: unat_sub order_less_imp_le)
  have lt: "unat now < unat wake" using assms by (simp add: word_less_nat_alt)
  have m: "unat TURBO_CANCEL_MAX_WAIT_SLICE_MS = 4294967294"
    by (simp add: TURBO_CANCEL_MAX_WAIT_SLICE_MS_def)
  have "unat (wait_slice_ms wake now) = min (unat ?d) 4294967294"
    using m by (auto simp: wait_slice_ms_def Let_def word_less_nat_alt min_def)
  with d lt show "0 < unat (wait_slice_ms wake now)" "unat (wait_slice_ms wake now) \<le> 4294967294"
    "unat now + unat (wait_slice_ms wake now) \<le> unat wake" by auto
qed

lemma ms_to_ns_exact:
  assumes "unat (ms :: u64) \<le> 4294967294"
  shows "unat (ms * TURBO_MILLISECONDS_TO_NANOSECONDS) = unat ms * 1000000"
proof -
  have "unat ms * unat TURBO_MILLISECONDS_TO_NANOSECONDS < 2 ^ LENGTH(64)"
    using assms by (simp add: TURBO_MILLISECONDS_TO_NANOSECONDS_def)
  then show ?thesis
    by (subst unat_mult_lem [THEN iffD1]) (simp_all add: TURBO_MILLISECONDS_TO_NANOSECONDS_def)
qed

lemma wait_loop_outcome:
  "wait_loop tok cd env h = Some (r, h') \<Longrightarrow>
     (r = TURBO_CANCEL_WAIT_SIGNALED \<longrightarrow>
        (\<exists>s st. ch_states h' s = Some st \<and> cs_reason st \<noteq> TURBO_CANCEL_NONE)) \<and>
     (r = TURBO_CANCEL_WAIT_TIMEOUT \<longrightarrow>
        (\<exists>d s st. cd = Some d \<and> ch_states h' s = Some st \<and> cs_reason st = TURBO_CANCEL_NONE))"
proof (induction tok cd env h rule: wait_loop.induct)
  case (1 tok cd env h)
  show ?case
  proof (cases "token_state h tok")
    case None
    with "1.prems" show ?thesis by (simp add: wait_loop.simps)
  next
    case (Some p)
    then obtain s st where p: "token_state h tok = Some (s, st)" by (cases p) auto
    define now where "now = fst (turbo_cancel_state_now_ms h st)"
    define h1 where "h1 = snd (turbo_cancel_state_now_ms h st)"
    have n: "turbo_cancel_state_now_ms h st = (now, h1)" by (simp add: now_def h1_def)
    obtain res st1 where w: "wait_pass st cd now = (res, st1)" by fastforce
    show ?thesis
    proof (cases res)
      case (Inl r')
      with "1.prems" p n w have "r = r'" "h' = h1\<lparr>ch_states := (ch_states h1)(s \<mapsto> st1)\<rparr>"
        by (auto simp: wait_loop.simps)
      with Inl w show ?thesis
        using wait_pass_signaled [of st cd now st1] wait_pass_timeout [of st cd now st1] by auto
    next
      case (Inr slp)
      with "1.prems" p n w obtain e es where env: "env = e # es"
        and rec: "wait_loop tok cd es (e (h1\<lparr>ch_states := (ch_states h1)(s \<mapsto> st1)\<rparr>)) = Some (r, h')"
        by (auto simp: wait_loop.simps [of tok cd env h] split: list.splits)
      show ?thesis
        using "1.IH" [OF p refl n [symmetric] refl w [symmetric] refl refl Inr env rec] .
    qed
  qed
qed






subsection \<open>Properties\<close>

text \<open>C37. Ownership: in every state that any interleaving of the operations reaches, with any
  pattern of allocation failures, each live token and each live source refers to an allocated
  cancellation state, and the atomic counter of an allocated state is exactly the number of its
  live handles, which is positive: the state is never used after it is freed and is freed when the last
  handle goes.\<close>

theorem cancel_ownership:
  assumes "cancel_step\<^sup>*\<^sup>* (cancel_init al) h"
  shows "(\<forall>a t. ch_tokens h a = Some t \<longrightarrow> ch_states h (ct_state t) \<noteq> None) \<and>
         (\<forall>a s. ch_sources h a = Some s \<longrightarrow> ch_states h s \<noteq> None) \<and>
         (\<forall>s st. ch_states h s = Some st \<longrightarrow>
            0 < unat (cs_ref_count st) \<and>
            unat (cs_ref_count st) = card {a. ch_sources h a = Some s} +
              card {a. \<exists>t. ch_tokens h a = Some t \<and> ct_state t = s})"
proof -
  have inv: "cancel_inv h" using assms cancel_init_inv by (rule cancel_steps_inv)
  then have "0 < unat (cs_ref_count st) \<and> unat (cs_ref_count st) =
      card {a. ch_sources h a = Some s} + card {a. \<exists>t. ch_tokens h a = Some t \<and> ct_state t = s}"
    if "ch_states h s = Some st" for s st
    using count_okD(1) [OF cancel_invD(2) that] by (simp add: state_refs_def source_refs_def token_refs_def)
  with cancel_inv_token_live [OF inv] cancel_inv_source_live [OF inv] show ?thesis by fastforce
qed

definition ex_heap :: cancel_heap where
  "ex_heap = snd (snd (turbo_cancel_source_token
     (snd (snd (turbo_cancel_source_create 32 (cancel_init [])
        (Some \<lparr>cc_struct_size = 32, cc_abi_version = 1, cc_deadline_mono_ms = 100, cc_monotonic_ms = True\<rparr>)))) (Some 2)))"

lemma ex_heap_eq:
  "ex_heap = \<lparr>ch_alloc = [],
     ch_states = [1 \<mapsto> \<lparr>cs_ref_count = 2, cs_reason = TURBO_CANCEL_NONE, cs_deadline_mono_ms = 100, cs_monotonic_ms = True\<rparr>],
     ch_sources = [2 \<mapsto> 1], ch_tokens = [3 \<mapsto> \<lparr>ct_ref_count = 1, ct_state = 1\<rparr>],
     ch_next = 4, ch_sys_clock = [], ch_user_clock = []\<rparr>"
  by (auto simp: ex_heap_def turbo_cancel_source_create_def turbo_cancel_source_token_def cancel_init_def
      turbo_cancel_config_valid_def TURBO_RUNTIME_CONTROL_ABI_VERSION_def ch_draw_def source_state_def
      turbo_cancel_state_retain_def fun_eq_iff)

lemma ex_heap_reach: "cancel_step\<^sup>*\<^sup>* (cancel_init []) ex_heap"
  unfolding ex_heap_def
  by (rule rtranclp.rtrancl_into_rtrancl, rule r_into_rtranclp, rule cancel_step.create, rule cancel_step.token)

theorem cancel_ownership_witness:
  "cancel_step\<^sup>*\<^sup>* (cancel_init []) ex_heap \<and> ch_states ex_heap 1 \<noteq> None \<and> ch_tokens ex_heap 3 \<noteq> None"
  using cancel_ownership [OF ex_heap_reach] ex_heap_reach by (auto simp: ex_heap_eq)

text \<open>C38. The first published reason wins: once a cancellation state carries a reason, no sequence of
  operations by any threads changes the reason or the deadline of that state.\<close>

theorem first_reason_wins:
  assumes "cancel_inv h" and "ch_states h s = Some st" and "cs_reason st \<noteq> TURBO_CANCEL_NONE"
    and "cancel_step\<^sup>*\<^sup>* h h'" and "ch_states h' s = Some st'"
  shows "cs_reason st' = cs_reason st \<and> cs_deadline_mono_ms st' = cs_deadline_mono_ms st"
proof -
  have "s < ch_next h"
    using bounds_fresh(1) [OF cancel_invD(1) [OF assms(1)], of s] assms(2) by (metis not_le_imp_less option.distinct(1))
  with cancel_steps_reason_kept [OF assms(4), of s] assms(2,3,5) show ?thesis
    by (simp add: reason_kept_def)
qed

definition ex_cancelled :: cancel_heap where
  "ex_cancelled = snd (turbo_cancel_source_cancel ex_heap (Some 2) TURBO_CANCEL_USER)"

lemma ex_cancelled_eq:
  "ex_cancelled = ex_heap\<lparr>ch_states := [1 \<mapsto> \<lparr>cs_ref_count = 2, cs_reason = TURBO_CANCEL_USER,
     cs_deadline_mono_ms = 100, cs_monotonic_ms = True\<rparr>]\<rparr>"
  by (simp add: ex_cancelled_def ex_heap_eq turbo_cancel_source_cancel_def source_state_def
      turbo_cancel_reason_valid_def turbo_cancel_state_now_ms_def
      turbo_cancel_state_refresh_deadline_locked_def)

lemma ex_cancelled_inv: "cancel_inv ex_cancelled"
  unfolding ex_cancelled_def
  by (rule cancel_step_inv [OF cancel_step.cancel cancel_steps_inv [OF ex_heap_reach cancel_init_inv]])

theorem first_reason_wins_witness:
  "cs_reason (the (ch_states (snd (turbo_cancel_source_cancel ex_cancelled (Some 2) TURBO_CANCEL_SHUTDOWN)) 1))
     = TURBO_CANCEL_USER"
proof -
  let ?h' = "snd (turbo_cancel_source_cancel ex_cancelled (Some 2) TURBO_CANCEL_SHUTDOWN)"
  have st': "ch_states ?h' 1 = Some (the (ch_states ?h' 1))"
    by (simp add: turbo_cancel_source_cancel_def source_state_def ex_cancelled_eq ex_heap_eq split_beta Let_def
        turbo_cancel_reason_valid_def)
  have "cancel_step\<^sup>*\<^sup>* ex_cancelled ?h'" by (rule r_into_rtranclp) (rule cancel_step.cancel)
  from first_reason_wins [OF ex_cancelled_inv _ _ this st'] show ?thesis
    by (simp add: ex_cancelled_eq)
qed

text \<open>What \<open>turbo_cancel_source_cancel\<close> does on every branch: an invalid handle or reason
  is refused and changes nothing; a state that already has a reason keeps it and the call says
  \<open>EALREADY\<close>; an expired deadline is published first and beats the explicit reason; otherwise the
  given reason is published.\<close>

lemma cancel_outcome:
  "turbo_cancel_source_cancel h src r =
     (case source_state h src of
        None \<Rightarrow> (SALTS_EINVAL, h)
      | Some (s, st) \<Rightarrow>
          if r = TURBO_CANCEL_NONE then (SALTS_EINVAL, h)
          else
            (let (now, h1) = turbo_cancel_state_now_ms h st;
                 expired = (cs_deadline_mono_ms st \<noteq> 0 \<and> cs_deadline_mono_ms st \<le> now)
             in if cs_reason st \<noteq> TURBO_CANCEL_NONE
                then (SALTS_EALREADY, h1\<lparr>ch_states := (ch_states h)(s \<mapsto> st)\<rparr>)
                else if expired
                then (SALTS_EALREADY, h1\<lparr>ch_states := (ch_states h)(s \<mapsto> st\<lparr>cs_reason := TURBO_CANCEL_DEADLINE\<rparr>)\<rparr>)
                else (SALTS_OK, h1\<lparr>ch_states := (ch_states h)(s \<mapsto> st\<lparr>cs_reason := r\<rparr>)\<rparr>)))"
proof -
  have v: "turbo_cancel_reason_valid r \<longleftrightarrow> r \<noteq> TURBO_CANCEL_NONE"
    by (cases r) (auto simp: turbo_cancel_reason_valid_def)
  show ?thesis
    by (auto simp: turbo_cancel_source_cancel_def v split_beta Let_def
        turbo_cancel_state_refresh_deadline_locked_def split: option.splits)
qed

text \<open>Cancellation is sticky for a polling client: once \<open>turbo_cancel_token_check\<close> has reported a
  cancellation or a deadline, every later check of that token reports the same status, whatever
  operations the other threads perform in between.\<close>

lemma token_check_stays:
  assumes "token_live a h" and "turbo_cancel_token_check h (Some a) = (r, h1)" and "r \<noteq> SALTS_OK"
    and "cancel_step\<^sup>*\<^sup>* h1 h2" and "token_live a h2"
  shows "fst (turbo_cancel_token_check h2 (Some a)) = r"
  using assms by (rule token_poll.poll_sticky)

theorem token_check_stays_witness:
  "fst (turbo_cancel_token_check (snd (turbo_cancel_token_check ex_cancelled (Some 3))) (Some 3)) = SALTS_ECANCELED"
proof -
  have live: "token_live 3 ex_cancelled"
    by (simp add: token_live_def ex_cancelled_inv) (simp add: ex_cancelled_eq ex_heap_eq)
  have chk: "turbo_cancel_token_check ex_cancelled (Some 3) =
      (SALTS_ECANCELED, snd (turbo_cancel_token_check ex_cancelled (Some 3)))"
    by (simp add: turbo_cancel_token_check_def token_state_def refresh_locked_def split_beta Let_def ex_cancelled_eq
        ex_heap_eq turbo_cancel_state_refresh_deadline_locked_def turbo_cancel_reason_status_def)
  show ?thesis
    by (rule token_check_stays [OF live chk _ rtranclp.rtrancl_refl token_check_live [OF live]]) simp
qed

text \<open>C39. A sleeping waiter never computes a wrapped duration: when a pass of the wait loop decides
  on a timed sleep, the wake deadline lies after the current reading, the slice is at least one and at most
  \<open>UINT32_MAX - 1\<close> milliseconds, it does not go past the wake deadline, and its conversion to nanoseconds is
  exact.\<close>

theorem wait_slice_safe:
  assumes "wait_pass st caller_deadline now_ms = (Inr (Some ns), st1)"
  shows "\<exists>ms. unat ns = ms * 1000000 \<and> 0 < ms \<and> ms \<le> 2 ^ 32 - 2 \<and>
           unat now_ms + ms \<le> unat (wait_wake_deadline st caller_deadline)"
proof -
  let ?ms = "wait_slice_ms (wait_wake_deadline st caller_deadline) now_ms"
  note b = wait_slice_bounds [OF wait_pass_sleep(1) [OF assms]]
  have "unat ns = unat ?ms * 1000000"
    unfolding wait_pass_sleep(2) [OF assms] by (rule ms_to_ns_exact [OF b(2)])
  with b show ?thesis by (intro exI [of _ "unat ?ms"]) simp
qed

theorem wait_slice_safe_witness:
  "\<exists>ms. unat (5000000 :: u64) = ms * 1000000 \<and> 0 < ms \<and> ms \<le> 2 ^ 32 - 2 \<and>
     unat (7 :: u64) + ms \<le> unat (wait_wake_deadline
       \<lparr>cs_ref_count = 1, cs_reason = TURBO_CANCEL_NONE, cs_deadline_mono_ms = 12, cs_monotonic_ms = False\<rparr> (Some 40))"
  by (rule wait_slice_safe)
    (simp add: wait_pass_def Let_def turbo_cancel_state_refresh_deadline_locked_def wait_wake_deadline_def
      wait_slice_ms_def TURBO_CANCEL_MAX_WAIT_SLICE_MS_def TURBO_MILLISECONDS_TO_NANOSECONDS_def)



end
