(* ===== verification/Runtime_Json.thy ===== *)
theory Runtime_Json
  imports Turbo_Prelude
begin

section \<open>JSON values: runtime\_data/src/turbo\_runtime\_json.c over the JSON library\<close>

text \<open>
  The JSON library (\<open>json_parser.h\<close>) is a separate package: its value type \<open>'j\<close>, the type
  \<open>'d\<close> of C doubles and its functions are the record \<open>json_lib\<close>, an argument of every
  definition that uses them. A \<open>json_value_t *\<close> denotes the value of the tree it points to; a
  mutating call returns the new value; \<open>json_clone\<close> copies, so on success the copy denotes the
  same value. Whether a library call runs out of memory is drawn from the allocation oracle.
  What the code relies on is stated by the predicates \<open>json_type_laws\<close>, \<open>json_object_laws\<close>,
  \<open>json_array_laws\<close> and \<open>json_text_laws\<close>, which theorems name as hypotheses where they
  need them; \<open>ref_json\<close> at the end is a concrete library that satisfies them.

  On top of it, the functions of \<open>turbo_runtime_json.c\<close>, one definition each.
\<close>

datatype json_type_t = JSON_NULL | JSON_BOOL | JSON_NUMBER | JSON_STRING | JSON_ARRAY | JSON_OBJECT

record ('j, 'd) json_lib =
  jl_type :: "'j \<Rightarrow> json_type_t"                      \<comment> \<open>json_type\<close>
  jl_type_code :: "json_type_t \<Rightarrow> int"               \<comment> \<open>the enumerator's value\<close>
  jl_null :: 'j                                       \<comment> \<open>json_create_null\<close>
  jl_bool_of :: "bool \<Rightarrow> 'j"                         \<comment> \<open>json_create_bool\<close>
  jl_string_of :: "string \<Rightarrow> 'j"                     \<comment> \<open>json_create_string\<close>
  jl_int64_of :: "int \<Rightarrow> 'j"                         \<comment> \<open>json_create_int64\<close>
  jl_number_of :: "'d \<Rightarrow> 'j"                         \<comment> \<open>json_create_number\<close>
  jl_object :: 'j                                     \<comment> \<open>json_create_object\<close>
  jl_array :: 'j                                      \<comment> \<open>json_create_array\<close>
  jl_object_size :: "'j \<Rightarrow> nat"
  jl_object_key :: "'j \<Rightarrow> nat \<Rightarrow> string option"
  jl_object_get :: "'j \<Rightarrow> string \<Rightarrow> 'j option"
  jl_object_add :: "'j \<Rightarrow> string \<Rightarrow> 'j \<Rightarrow> 'j"        \<comment> \<open>json_object_add, json_object_add_checked\<close>
  jl_set_string :: "'j \<Rightarrow> string \<Rightarrow> string \<Rightarrow> 'j"    \<comment> \<open>json_object_set_string\<close>
  jl_set_number :: "'j \<Rightarrow> string \<Rightarrow> 'd \<Rightarrow> 'j"        \<comment> \<open>json_object_set_number\<close>
  jl_get_string :: "'j \<Rightarrow> string \<Rightarrow> string option"   \<comment> \<open>json_get_string\<close>
  jl_array_size :: "'j \<Rightarrow> nat"
  jl_array_get :: "'j \<Rightarrow> nat \<Rightarrow> 'j option"
  jl_array_add :: "'j \<Rightarrow> 'j \<Rightarrow> 'j"                   \<comment> \<open>json_array_add, json_array_add_checked\<close>
  jl_bool :: "'j \<Rightarrow> bool"
  jl_string :: "'j \<Rightarrow> string"
  jl_number :: "'j \<Rightarrow> 'd"
  jl_number_text :: "'j \<Rightarrow> string option"
  jl_serialize :: "'j \<Rightarrow> string"
  jl_parse :: "string \<Rightarrow> 'j option"
  jl_double_add :: "'d \<Rightarrow> 'd \<Rightarrow> 'd"                  \<comment> \<open>C double addition\<close>
  jl_double_of_int :: "int \<Rightarrow> 'd"                    \<comment> \<open>conversion to double\<close>
  jl_double_zero :: 'd
  jl_double_int64 :: "'d \<Rightarrow> int option"              \<comment> \<open>a finite, integral double in the range of int64_t\<close>
  jl_depth :: "'j \<Rightarrow> nat"                            \<comment> \<open>nesting depth of the tree, never computed by the code\<close>

datatype turbo_runtime_json_status_t =
    TURBO_RUNTIME_JSON_OK | TURBO_RUNTIME_JSON_ERROR | TURBO_RUNTIME_JSON_INVALID_ARGUMENT
  | TURBO_RUNTIME_JSON_OUT_OF_MEMORY | TURBO_RUNTIME_JSON_TYPE_MISMATCH | TURBO_RUNTIME_JSON_NOT_FOUND

subsection \<open>Setting members and elements\<close>

definition turbo_runtime_json_object_set ::
    "('j, 'd) json_lib \<Rightarrow> alloc \<Rightarrow> 'j \<Rightarrow> cstr \<Rightarrow> 'j option \<Rightarrow> turbo_runtime_json_status_t \<times> 'j \<times> alloc" where
  "turbo_runtime_json_object_set J a object key field_value =
     (case (key, field_value) of
        (Some k, Some v) \<Rightarrow>
          if jl_type J object \<noteq> JSON_OBJECT then (TURBO_RUNTIME_JSON_TYPE_MISMATCH, object, a)
          else let (ok, a) = alloc1 a
               in if ok then (TURBO_RUNTIME_JSON_OK, jl_object_add J object k v, a)
                  else (TURBO_RUNTIME_JSON_OUT_OF_MEMORY, object, a)
      | _ \<Rightarrow> (TURBO_RUNTIME_JSON_INVALID_ARGUMENT, object, a))"

text \<open>\<open>value\<close> is the freshly created value, \<open>None\<close> when its creation failed.\<close>

definition turbo_runtime_json_object_set_owned ::
    "('j, 'd) json_lib \<Rightarrow> alloc \<Rightarrow> 'j \<Rightarrow> cstr \<Rightarrow> 'j option \<Rightarrow> turbo_runtime_json_status_t \<times> 'j \<times> alloc" where
  "turbo_runtime_json_object_set_owned J a object key value =
     (case value of None \<Rightarrow> (TURBO_RUNTIME_JSON_OUT_OF_MEMORY, object, a)
      | Some v \<Rightarrow> turbo_runtime_json_object_set J a object key (Some v))"

text \<open>Creating a value: one allocation.\<close>

definition json_create :: "alloc \<Rightarrow> 'j \<Rightarrow> 'j option \<times> alloc" where
  "json_create a v = (let (ok, a) = alloc1 a in (if ok then Some v else None, a))"

definition turbo_runtime_json_object_set_string ::
    "('j, 'd) json_lib \<Rightarrow> alloc \<Rightarrow> 'j \<Rightarrow> cstr \<Rightarrow> cstr \<Rightarrow> turbo_runtime_json_status_t \<times> 'j \<times> alloc" where
  "turbo_runtime_json_object_set_string J a object key value =
     (case (key, value) of
        (Some k, Some s) \<Rightarrow>
          if jl_type J object \<noteq> JSON_OBJECT then (TURBO_RUNTIME_JSON_TYPE_MISMATCH, object, a)
          else let (v, a) = json_create a (jl_string_of J s)
               in turbo_runtime_json_object_set_owned J a object key v
      | _ \<Rightarrow> (TURBO_RUNTIME_JSON_INVALID_ARGUMENT, object, a))"

definition turbo_runtime_json_object_set_int64 ::
    "('j, 'd) json_lib \<Rightarrow> alloc \<Rightarrow> 'j \<Rightarrow> cstr \<Rightarrow> int \<Rightarrow> turbo_runtime_json_status_t \<times> 'j \<times> alloc" where
  "turbo_runtime_json_object_set_int64 J a object key value =
     (case key of
        Some k \<Rightarrow>
          if jl_type J object \<noteq> JSON_OBJECT then (TURBO_RUNTIME_JSON_TYPE_MISMATCH, object, a)
          else let (v, a) = json_create a (jl_int64_of J value)
               in turbo_runtime_json_object_set_owned J a object key v
      | None \<Rightarrow> (TURBO_RUNTIME_JSON_INVALID_ARGUMENT, object, a))"

definition turbo_runtime_json_object_set_clone ::
    "('j, 'd) json_lib \<Rightarrow> alloc \<Rightarrow> 'j \<Rightarrow> cstr \<Rightarrow> 'j option \<Rightarrow> turbo_runtime_json_status_t \<times> 'j \<times> alloc" where
  "turbo_runtime_json_object_set_clone J a object key value =
     (case (key, value) of
        (Some k, Some x) \<Rightarrow>
          if jl_type J object \<noteq> JSON_OBJECT then (TURBO_RUNTIME_JSON_TYPE_MISMATCH, object, a)
          else let (v, a) = json_create a x
               in turbo_runtime_json_object_set_owned J a object key v
      | _ \<Rightarrow> (TURBO_RUNTIME_JSON_INVALID_ARGUMENT, object, a))"

definition turbo_runtime_json_array_append ::
    "('j, 'd) json_lib \<Rightarrow> alloc \<Rightarrow> 'j \<Rightarrow> 'j option \<Rightarrow> turbo_runtime_json_status_t \<times> 'j \<times> alloc" where
  "turbo_runtime_json_array_append J a array element_value =
     (case element_value of None \<Rightarrow> (TURBO_RUNTIME_JSON_INVALID_ARGUMENT, array, a)
      | Some v \<Rightarrow>
          if jl_type J array \<noteq> JSON_ARRAY then (TURBO_RUNTIME_JSON_TYPE_MISMATCH, array, a)
          else let (ok, a) = alloc1 a
               in if ok then (TURBO_RUNTIME_JSON_OK, jl_array_add J array v, a)
                  else (TURBO_RUNTIME_JSON_OUT_OF_MEMORY, array, a))"

subsection \<open>Reading values\<close>

definition turbo_runtime_json_value_size :: "('j, 'd) json_lib \<Rightarrow> 'j option \<Rightarrow> nat" where
  "turbo_runtime_json_value_size J value =
     (case value of None \<Rightarrow> 0
      | Some v \<Rightarrow> (case jl_type J v of JSON_OBJECT \<Rightarrow> jl_object_size J v
                   | JSON_ARRAY \<Rightarrow> jl_array_size J v | _ \<Rightarrow> 0))"

definition turbo_runtime_json_value_as_bool :: "('j, 'd) json_lib \<Rightarrow> 'j option \<Rightarrow> int \<Rightarrow> int" where
  "turbo_runtime_json_value_as_bool J value default_value =
     (case value of None \<Rightarrow> default_value
      | Some v \<Rightarrow> if jl_type J v = JSON_BOOL then (if jl_bool J v then 1 else 0) else default_value)"

text \<open>\<open>strtoimax\<close> in base 10, \<open>Some\<close> the value when the whole text is consumed: leading white space,
  an optional sign, at least one digit.\<close>

definition char_is_digit :: "char \<Rightarrow> bool" where
  "char_is_digit c \<longleftrightarrow> 48 \<le> (of_char c :: nat) \<and> (of_char c :: nat) \<le> 57"

definition char_is_space :: "char \<Rightarrow> bool" where
  "char_is_space c \<longleftrightarrow> of_char c = (32 :: nat) \<or> (9 \<le> (of_char c :: nat) \<and> (of_char c :: nat) \<le> 13)"

fun digits_value :: "nat \<Rightarrow> string \<Rightarrow> nat option" where
  "digits_value acc [] = Some acc"
| "digits_value acc (c # cs) =
     (if char_is_digit c then digits_value (acc * 10 + (of_char c - 48)) cs else None)"

definition strtoimax_whole :: "string \<Rightarrow> int option" where
  "strtoimax_whole text =
     (case dropWhile char_is_space text of
        [] \<Rightarrow> None
      | c # cs \<Rightarrow>
          if c = CHR ''-'' then (if cs = [] then None else map_option (\<lambda>n. - int n) (digits_value 0 cs))
          else if c = CHR ''+'' then (if cs = [] then None else map_option int (digits_value 0 cs))
          else map_option int (digits_value 0 (c # cs)))"

definition INT64_MIN :: int where "INT64_MIN = - (2 ^ 63)"
definition INT64_MAX :: int where "INT64_MAX = 2 ^ 63 - 1"

definition turbo_runtime_json_value_as_int64 :: "('j, 'd) json_lib \<Rightarrow> 'j option \<Rightarrow> int \<Rightarrow> int" where
  "turbo_runtime_json_value_as_int64 J value default_value =
     (case value of None \<Rightarrow> default_value
      | Some v \<Rightarrow>
          if jl_type J v \<noteq> JSON_NUMBER then default_value
          else
            (let double_value = (case jl_double_int64 J (jl_number J v) of
                                   None \<Rightarrow> default_value | Some n \<Rightarrow> n)
             in (case jl_number_text J v of
                   None \<Rightarrow> double_value
                 | Some text \<Rightarrow>
                     if length text > 0 \<and> length text < 22 \<and> CHR ''.'' \<notin> set text \<and>
                        CHR ''e'' \<notin> set text \<and> CHR ''E'' \<notin> set text
                     then (case strtoimax_whole text of
                             Some n \<Rightarrow> if INT64_MIN \<le> n \<and> n \<le> INT64_MAX then n else default_value
                           | None \<Rightarrow> default_value)
                     else double_value)))"

definition turbo_runtime_json_value_as_double :: "('j, 'd) json_lib \<Rightarrow> 'j option \<Rightarrow> 'd \<Rightarrow> 'd" where
  "turbo_runtime_json_value_as_double J value default_value =
     (case value of None \<Rightarrow> default_value
      | Some v \<Rightarrow> if jl_type J v = JSON_NUMBER then jl_number J v else default_value)"

definition turbo_runtime_json_value_as_string :: "('j, 'd) json_lib \<Rightarrow> 'j option \<Rightarrow> cstr" where
  "turbo_runtime_json_value_as_string J value =
     (case value of None \<Rightarrow> None
      | Some v \<Rightarrow> if jl_type J v = JSON_STRING then Some (jl_string J v) else None)"

text \<open>\<open>json_object_get\<close> on a possibly \<open>NULL\<close> value, as \<open>turbo_state_graph.c\<close> uses it.\<close>

definition json_get :: "('j, 'd) json_lib \<Rightarrow> 'j option \<Rightarrow> string \<Rightarrow> 'j option" where
  "json_get J value k = (case value of None \<Rightarrow> None | Some v \<Rightarrow> jl_object_get J v k)"

text \<open>Decimal text of a number, as \<open>%zu\<close> and the integer token of \<open>json_create_int64\<close> print it.\<close>

fun dec_nat :: "nat \<Rightarrow> string" where
  "dec_nat n = (if n < 10 then [char_of (48 + n)] else dec_nat (n div 10) @ [char_of (48 + n mod 10)])"

declare dec_nat.simps [simp del]

definition dec_int :: "int \<Rightarrow> string" where
  "dec_int i = (if i < 0 then CHR ''-'' # dec_nat (nat (- i)) else dec_nat (nat i))"

subsection \<open>What the code relies on\<close>

definition json_type_laws :: "('j, 'd) json_lib \<Rightarrow> bool" where
  "json_type_laws J \<longleftrightarrow>
     jl_type J (jl_null J) = JSON_NULL \<and> (\<forall>b. jl_type J (jl_bool_of J b) = JSON_BOOL) \<and>
     (\<forall>s. jl_type J (jl_string_of J s) = JSON_STRING \<and> jl_string J (jl_string_of J s) = s) \<and>
     (\<forall>i. jl_type J (jl_int64_of J i) = JSON_NUMBER) \<and>
     (\<forall>d. jl_type J (jl_number_of J d) = JSON_NUMBER \<and> jl_number J (jl_number_of J d) = d) \<and>
     jl_type J (jl_object J) = JSON_OBJECT \<and> jl_type J (jl_array J) = JSON_ARRAY \<and>
     inj (jl_type_code J)"

text \<open>An object is a finite map: setting a member sets or replaces it, every key is enumerated once.\<close>

definition json_object_laws :: "('j, 'd) json_lib \<Rightarrow> bool" where
  "json_object_laws J \<longleftrightarrow>
     (\<forall>k. jl_object_get J (jl_object J) k = None) \<and>
     (\<forall>obj k v. jl_type J obj = JSON_OBJECT \<longrightarrow> jl_type J (jl_object_add J obj k v) = JSON_OBJECT) \<and>
     (\<forall>obj k v k'. jl_type J obj = JSON_OBJECT \<longrightarrow>
        jl_object_get J (jl_object_add J obj k v) k' = (if k' = k then Some v else jl_object_get J obj k')) \<and>
     (\<forall>obj. jl_type J obj = JSON_OBJECT \<longrightarrow>
        (\<forall>i < jl_object_size J obj. \<exists>k v. jl_object_key J obj i = Some k \<and> jl_object_get J obj k = Some v) \<and>
        (\<forall>k v. jl_object_get J obj k = Some v \<longrightarrow> (\<exists>i < jl_object_size J obj. jl_object_key J obj i = Some k)) \<and>
        (\<forall>i < jl_object_size J obj. \<forall>j < jl_object_size J obj.
           jl_object_key J obj i = jl_object_key J obj j \<longrightarrow> i = j))"

definition json_array_laws :: "('j, 'd) json_lib \<Rightarrow> bool" where
  "json_array_laws J \<longleftrightarrow>
     jl_array_size J (jl_array J) = 0 \<and>
     (\<forall>arr v. jl_type J arr = JSON_ARRAY \<longrightarrow>
        jl_type J (jl_array_add J arr v) = JSON_ARRAY \<and>
        jl_array_size J (jl_array_add J arr v) = Suc (jl_array_size J arr)) \<and>
     (\<forall>arr v i. jl_type J arr = JSON_ARRAY \<longrightarrow>
        jl_array_get J (jl_array_add J arr v) i =
          (if i = jl_array_size J arr then Some v else jl_array_get J arr i)) \<and>
     (\<forall>arr i. jl_type J arr = JSON_ARRAY \<longrightarrow>
        (i < jl_array_size J arr \<longleftrightarrow> jl_array_get J arr i \<noteq> None))"

text \<open>A value is a finite tree: a member is less deep than its object.\<close>

definition json_depth_laws :: "('j, 'd) json_lib \<Rightarrow> bool" where
  "json_depth_laws J \<longleftrightarrow> (\<forall>obj k v. jl_object_get J obj k = Some v \<longrightarrow> jl_depth J v < jl_depth J obj)"

text \<open>The string and number conveniences are the general member operations, and an integral double
  of small magnitude is read back exactly.\<close>

definition json_member_laws :: "('j, 'd) json_lib \<Rightarrow> bool" where
  "json_member_laws J \<longleftrightarrow>
     (\<forall>obj k s. jl_set_string J obj k s = jl_object_add J obj k (jl_string_of J s)) \<and>
     (\<forall>obj k d. jl_set_number J obj k d = jl_object_add J obj k (jl_number_of J d)) \<and>
     (\<forall>obj k. jl_get_string J obj k = turbo_runtime_json_value_as_string J (jl_object_get J obj k)) \<and>
     (\<forall>i. INT64_MIN \<le> i \<and> i \<le> INT64_MAX \<longrightarrow> jl_number_text J (jl_int64_of J i) = Some (dec_int i)) \<and>
     (\<forall>i. \<bar>i\<bar> \<le> 2 ^ 53 \<longrightarrow> jl_number_text J (jl_number_of J (jl_double_of_int J i)) = None \<and>
        jl_double_int64 J (jl_double_of_int J i) = Some i)"

text \<open>Printed text parses back to an equivalent value: \<open>E\<close> relates values that the program cannot tell
  apart through the accessors it uses (a parsed number keeps its token, a created one may not).\<close>

definition json_text_laws :: "('j, 'd) json_lib \<Rightarrow> ('j \<Rightarrow> 'j \<Rightarrow> bool) \<Rightarrow> bool" where
  "json_text_laws J E \<longleftrightarrow>
     (\<forall>v. E v v) \<and>
     (\<forall>v. \<exists>v'. jl_parse J (jl_serialize J v) = Some v' \<and> E v v') \<and>
     (\<forall>v v'. E v v' \<longrightarrow>
        jl_type J v' = jl_type J v \<and>
        (jl_type J v = JSON_STRING \<longrightarrow> jl_string J v' = jl_string J v) \<and>
        (\<forall>d. turbo_runtime_json_value_as_int64 J (Some v') d = turbo_runtime_json_value_as_int64 J (Some v) d) \<and>
        (\<forall>k. rel_option E (jl_object_get J v k) (jl_object_get J v' k)) \<and>
        jl_array_size J v' = jl_array_size J v \<and>
        (\<forall>i. rel_option E (jl_array_get J v i) (jl_array_get J v' i)))"

subsection \<open>A chain of member settings\<close>

text \<open>\<open>set1(...) != OK || set2(...) != OK || ...\<close>: the settings run in order until one fails; each says whether
  it succeeded.\<close>

fun set_fields :: "('j \<Rightarrow> alloc \<Rightarrow> bool \<times> 'j \<times> alloc) list \<Rightarrow> 'j \<Rightarrow> alloc \<Rightarrow> 'j option \<times> alloc" where
  "set_fields [] object a = (Some object, a)"
| "set_fields (f # fs) object a =
     (case f object a of (ok, object, a) \<Rightarrow> if ok then set_fields fs object a else (None, a))"

definition status_ok :: "turbo_runtime_json_status_t \<times> 'j \<times> alloc \<Rightarrow> bool \<times> 'j \<times> alloc" where
  "status_ok r = (case r of (status, object, a) \<Rightarrow> (status = TURBO_RUNTIME_JSON_OK, object, a))"

text \<open>The settings used in such chains.\<close>

definition f_string :: "('j, 'd) json_lib \<Rightarrow> string \<Rightarrow> string \<Rightarrow> 'j \<Rightarrow> alloc \<Rightarrow> bool \<times> 'j \<times> alloc" where
  "f_string J key s object a = status_ok (turbo_runtime_json_object_set_string J a object (Some key) (Some s))"

definition f_int64 :: "('j, 'd) json_lib \<Rightarrow> string \<Rightarrow> int \<Rightarrow> 'j \<Rightarrow> alloc \<Rightarrow> bool \<times> 'j \<times> alloc" where
  "f_int64 J key i object a = status_ok (turbo_runtime_json_object_set_int64 J a object (Some key) i)"

definition f_clone :: "('j, 'd) json_lib \<Rightarrow> string \<Rightarrow> 'j \<Rightarrow> 'j \<Rightarrow> alloc \<Rightarrow> bool \<times> 'j \<times> alloc" where
  "f_clone J key v object a = status_ok (turbo_runtime_json_object_set_clone J a object (Some key) (Some v))"

definition f_value :: "('j, 'd) json_lib \<Rightarrow> string \<Rightarrow> 'j \<Rightarrow> 'j \<Rightarrow> alloc \<Rightarrow> bool \<times> 'j \<times> alloc" where
  "f_value J key v object a = status_ok (turbo_runtime_json_object_set J a object (Some key) (Some v))"

end
