(* ===== verification/Reference_Json.thy ===== *)
theory Reference_Json
  imports Runtime_Json "HOL-Library.AList"
begin

section \<open>A concrete JSON library\<close>

text \<open>
  A library \<open>ref_json\<close> that satisfies every law of \<open>Runtime_Json\<close>: values are the datatype \<open>jv\<close>,
  doubles are integers, the text form is a length-prefixed encoding with a total decoder. It shows that
  the hypotheses of the theorems can hold, and the witnesses evaluate on it.
\<close>

datatype jv = JNull | JBool bool | JStr string | JInt int | JDouble int | JArr "jv list" | JObj "(string \<times> jv) list"

fun jv_type :: "jv \<Rightarrow> json_type_t" where
  "jv_type JNull = JSON_NULL"
| "jv_type (JBool b) = JSON_BOOL"
| "jv_type (JStr s) = JSON_STRING"
| "jv_type (JInt i) = JSON_NUMBER"
| "jv_type (JDouble d) = JSON_NUMBER"
| "jv_type (JArr vs) = JSON_ARRAY"
| "jv_type (JObj kvs) = JSON_OBJECT"

fun type_code :: "json_type_t \<Rightarrow> int" where
  "type_code JSON_NULL = 0"
| "type_code JSON_BOOL = 1"
| "type_code JSON_NUMBER = 2"
| "type_code JSON_STRING = 3"
| "type_code JSON_ARRAY = 4"
| "type_code JSON_OBJECT = 5"

fun jv_members :: "jv \<Rightarrow> (string \<times> jv) list" where
  "jv_members (JObj kvs) = kvs"
| "jv_members _ = []"

fun jv_elements :: "jv \<Rightarrow> jv list" where
  "jv_elements (JArr vs) = vs"
| "jv_elements _ = []"

definition jv_keys :: "jv \<Rightarrow> string list" where
  "jv_keys v = remdups (map fst (jv_members v))"

fun jv_string :: "jv \<Rightarrow> string" where
  "jv_string (JStr s) = s"
| "jv_string _ = []"

definition jv_get_string :: "jv \<Rightarrow> string \<Rightarrow> string option" where
  "jv_get_string v k = (case map_of (jv_members v) k of Some (JStr s) \<Rightarrow> Some s | _ \<Rightarrow> None)"

fun jv_number :: "jv \<Rightarrow> int" where
  "jv_number (JInt i) = i"
| "jv_number (JDouble d) = d"
| "jv_number _ = 0"

fun jv_number_text :: "jv \<Rightarrow> string option" where
  "jv_number_text (JInt i) = Some (dec_int i)"
| "jv_number_text _ = None"

fun jv_depth :: "jv \<Rightarrow> nat" where
  "jv_depth (JObj kvs) = Suc (foldr (\<lambda>(k, v). max (jv_depth v)) kvs 0)"
| "jv_depth _ = 0"

subsection \<open>Text\<close>

definition enc_nat :: "nat \<Rightarrow> string" where
  "enc_nat n = replicate n (CHR ''x'') @ ''.''"

definition enc_int :: "int \<Rightarrow> string" where
  "enc_int i = (if i < 0 then ''-'' else ''+'') @ enc_nat (nat \<bar>i\<bar>)"

definition enc_str :: "string \<Rightarrow> string" where
  "enc_str s = enc_nat (length s) @ s"

fun enc :: "jv \<Rightarrow> string" where
  "enc JNull = ''n''"
| "enc (JBool b) = (if b then ''t'' else ''f'')"
| "enc (JStr s) = ''s'' @ enc_str s"
| "enc (JInt i) = ''i'' @ enc_int i"
| "enc (JDouble i) = ''d'' @ enc_int i"
| "enc (JArr vs) = ''a'' @ enc_nat (length vs) @ concat (map enc vs)"
| "enc (JObj kvs) = ''o'' @ enc_nat (length kvs) @ concat (map (\<lambda>(k, v). enc_str k @ enc v) kvs)"

fun dec_unary :: "nat \<Rightarrow> string \<Rightarrow> (nat \<times> string) option" where
  "dec_unary n [] = None"
| "dec_unary n (c # s) =
     (if c = CHR ''x'' then dec_unary (Suc n) s else if c = CHR ''.'' then Some (n, s) else None)"

definition dec_sint :: "string \<Rightarrow> (int \<times> string) option" where
  "dec_sint s = (case s of [] \<Rightarrow> None
    | c # s \<Rightarrow> map_option (\<lambda>(n, s). (if c = CHR ''-'' then - int n else int n, s)) (dec_unary 0 s))"

definition dec_str :: "string \<Rightarrow> (string \<times> string) option" where
  "dec_str s = (case dec_unary 0 s of None \<Rightarrow> None
    | Some (n, s) \<Rightarrow> if n \<le> length s then Some (take n s, drop n s) else None)"

fun dec_n :: "(string \<Rightarrow> ('a \<times> string) option) \<Rightarrow> nat \<Rightarrow> string \<Rightarrow> ('a list \<times> string) option" where
  "dec_n f 0 s = Some ([], s)"
| "dec_n f (Suc n) s =
     (case f s of None \<Rightarrow> None | Some (v, s) \<Rightarrow> map_option (\<lambda>(vs, s). (v # vs, s)) (dec_n f n s))"

definition dec_member :: "(string \<Rightarrow> (jv \<times> string) option) \<Rightarrow> string \<Rightarrow> ((string \<times> jv) \<times> string) option" where
  "dec_member f s = (case dec_str s of None \<Rightarrow> None
    | Some (k, s) \<Rightarrow> map_option (\<lambda>(v, s). ((k, v), s)) (f s))"

fun dec :: "nat \<Rightarrow> string \<Rightarrow> (jv \<times> string) option" where
  "dec 0 s = None"
| "dec (Suc fuel) [] = None"
| "dec (Suc fuel) (c # s) =
     (if c = CHR ''n'' then Some (JNull, s)
      else if c = CHR ''t'' then Some (JBool True, s)
      else if c = CHR ''f'' then Some (JBool False, s)
      else if c = CHR ''s'' then map_option (\<lambda>(t, s). (JStr t, s)) (dec_str s)
      else if c = CHR ''i'' then map_option (\<lambda>(i, s). (JInt i, s)) (dec_sint s)
      else if c = CHR ''d'' then map_option (\<lambda>(i, s). (JDouble i, s)) (dec_sint s)
      else if c = CHR ''a'' then
        (case dec_unary 0 s of None \<Rightarrow> None
         | Some (n, s) \<Rightarrow> map_option (\<lambda>(vs, s). (JArr vs, s)) (dec_n (dec fuel) n s))
      else if c = CHR ''o'' then
        (case dec_unary 0 s of None \<Rightarrow> None
         | Some (n, s) \<Rightarrow> map_option (\<lambda>(kvs, s). (JObj kvs, s)) (dec_n (dec_member (dec fuel)) n s))
      else None)"

definition jv_parse :: "string \<Rightarrow> jv option" where
  "jv_parse text = (case dec (length text) text of Some (v, []) \<Rightarrow> Some v | _ \<Rightarrow> None)"

definition ref_json :: "(jv, int) json_lib" where
  "ref_json =
     \<lparr>jl_type = jv_type, jl_type_code = type_code, jl_null = JNull, jl_bool_of = JBool, jl_string_of = JStr,
      jl_int64_of = JInt, jl_number_of = JDouble, jl_object = JObj [], jl_array = JArr [],
      jl_object_size = \<lambda>v. length (jv_keys v),
      jl_object_key = \<lambda>v i. if i < length (jv_keys v) then Some (jv_keys v ! i) else None,
      jl_object_get = \<lambda>v k. map_of (jv_members v) k,
      jl_object_add = \<lambda>v k x. JObj (AList.update k x (jv_members v)),
      jl_set_string = \<lambda>v k s. JObj (AList.update k (JStr s) (jv_members v)),
      jl_set_number = \<lambda>v k d. JObj (AList.update k (JDouble d) (jv_members v)),
      jl_get_string = jv_get_string,
      jl_array_size = \<lambda>v. length (jv_elements v),
      jl_array_get = \<lambda>v i. if i < length (jv_elements v) then Some (jv_elements v ! i) else None,
      jl_array_add = \<lambda>v x. JArr (jv_elements v @ [x]),
      jl_bool = \<lambda>v. v = JBool True, jl_string = jv_string, jl_number = jv_number,
      jl_number_text = jv_number_text, jl_serialize = enc, jl_parse = jv_parse,
      jl_double_add = (+), jl_double_of_int = id, jl_double_zero = 0, jl_double_int64 = Some,
      jl_depth = jv_depth\<rparr>"

subsection \<open>The laws hold\<close>

lemma dec_unary_enc: "dec_unary m (enc_nat n @ s) = Some (m + n, s)"
  by (induction n arbitrary: m) (simp_all add: enc_nat_def)

lemma dec_sint_enc: "dec_sint (enc_int i @ s) = Some (i, s)"
  by (auto simp: dec_sint_def enc_int_def dec_unary_enc)

lemma dec_str_enc: "dec_str (enc_str t @ s) = Some (t, s)"
  by (simp add: dec_str_def enc_str_def dec_unary_enc)

lemma dec_n_enc:
  "(\<And>x rest. x \<in> set xs \<Longrightarrow> f (e x @ rest) = Some (x, rest)) \<Longrightarrow>
   dec_n f (length xs) (concat (map e xs) @ rest) = Some (xs, rest)"
  by (induction xs arbitrary: rest) auto

lemma length_concat_mem: "x \<in> set xs \<Longrightarrow> length (e x) \<le> length (concat (map e xs))"
  by (induction xs) auto

lemma dec_enc: "length (enc v) \<le> fuel \<Longrightarrow> dec fuel (enc v @ rest) = Some (v, rest)"
proof (induction v arbitrary: fuel rest)
  case (JArr vs)
  then obtain f where f: "fuel = Suc f" by (cases fuel) auto
  have "dec f (enc x @ rest) = Some (x, rest)" if "x \<in> set vs" for x rest
    using JArr.IH [OF that] JArr.prems f length_concat_mem [OF that, of enc] by auto
  then show ?case using f by (simp add: dec_unary_enc dec_n_enc)
next
  case (JObj kvs)
  let ?e = "\<lambda>(k, v). enc_str k @ enc v"
  from JObj obtain f where f: "fuel = Suc f" by (cases fuel) auto
  have "dec_member (dec f) (?e x @ rest) = Some (x, rest)" if "x \<in> set kvs" for x rest
  proof -
    obtain k v where x: "x = (k, v)" by force
    have "dec f (enc v @ rest) = Some (v, rest)"
      using JObj.IH [of x v f rest] that x JObj.prems f length_concat_mem [OF that, of ?e] by auto
    then show ?thesis by (simp add: x dec_member_def dec_str_enc)
  qed
  then show ?case using f dec_n_enc [of kvs "dec_member (dec f)" ?e rest] by (simp add: dec_unary_enc)
next
  case JNull
  then show ?case by (cases fuel) simp_all
next
  case (JBool b)
  then show ?case by (cases fuel) (simp_all split: if_splits)
next
  case (JStr s)
  then show ?case by (cases fuel) (simp_all add: dec_str_enc)
next
  case (JInt i)
  then show ?case by (cases fuel) (simp_all add: dec_sint_enc)
next
  case (JDouble i)
  then show ?case by (cases fuel) (simp_all add: dec_sint_enc)
qed

lemma jv_parse_enc [simp]: "jv_parse (enc v) = Some v"
  using dec_enc [of v "length (enc v)" "[]"] by (simp add: jv_parse_def)

lemma ref_type_laws: "json_type_laws ref_json"
proof -
  have "inj type_code"
  proof (rule injI)
    fix x y assume "type_code x = type_code y"
    then show "x = y" by (cases x; cases y) simp_all
  qed
  then show ?thesis by (simp add: json_type_laws_def ref_json_def)
qed

lemma jv_type_object: "jv_type v = JSON_OBJECT \<longleftrightarrow> (\<exists>kvs. v = JObj kvs)"
  by (cases v) simp_all

lemma jv_type_array: "jv_type v = JSON_ARRAY \<longleftrightarrow> (\<exists>vs. v = JArr vs)"
  by (cases v) simp_all

lemma ref_object_laws: "json_object_laws ref_json"
proof -
  have get: "map_of kvs k = Some v \<Longrightarrow> \<exists>i < length (remdups (map fst kvs)). remdups (map fst kvs) ! i = k"
    for kvs :: "(string \<times> jv) list" and k v
    by (metis in_set_conv_nth map_of_eq_None_iff option.distinct(1) set_map set_remdups)
  have key: "\<exists>v. map_of kvs (remdups (map fst kvs) ! i) = Some v"
    if "i < length (remdups (map fst kvs))" for kvs :: "(string \<times> jv) list" and i
    using nth_mem [OF that] by (metis map_of_eq_None_iff not_None_eq set_map set_remdups)
  show ?thesis
    unfolding json_object_laws_def
    by (auto simp: ref_json_def jv_type_object jv_keys_def update_conv' nth_eq_iff_index_eq
        intro!: key dest: get)
qed

lemma ref_array_laws: "json_array_laws ref_json"
  by (auto simp: json_array_laws_def ref_json_def jv_type_array nth_append)

lemma ref_member_laws: "json_member_laws ref_json"
  by (auto simp: json_member_laws_def ref_json_def jv_get_string_def turbo_runtime_json_value_as_string_def
      split: option.splits jv.splits)

lemma ref_text_laws: "json_text_laws ref_json (=)"
  by (simp add: json_text_laws_def ref_json_def option.rel_eq)

lemma jv_depth_member: "(k, v) \<in> set kvs \<Longrightarrow> jv_depth v \<le> foldr (\<lambda>(k, v). max (jv_depth v)) kvs 0"
  by (induction kvs) auto

lemma ref_depth_laws: "json_depth_laws ref_json"
proof -
  have "jv_depth v < jv_depth obj" if "map_of (jv_members obj) k = Some v" for obj k v
    using that by (cases obj) (auto dest!: map_of_SomeD jv_depth_member simp: less_Suc_eq_le)
  then show ?thesis by (simp add: json_depth_laws_def ref_json_def)
qed

lemmas ref_laws = ref_type_laws ref_object_laws ref_array_laws ref_member_laws ref_text_laws

end
