(* ===== verification/Graph_Core.thy ===== *)
theory Graph_Core
  imports Cancel_Control Reference_Json
begin

section \<open>The graph and its checkpoints: runtime/src/turbo\_graph.c (construction)\<close>

text \<open>
  The graph: named nodes with callbacks, edges between node indices with optional predicates,
  an entry node and a cached topology id; the checkpoints a run emits; the operations that build
  a graph and the canonical topology id.

  Callbacks are code of the host. Everything they can reach through their \<open>user_data\<close> is the
  environment part \<open>'u\<close> of the world, the record extension of the store of cancellation objects and
  of the allocation oracle; a node callback maps the execution context and the world to its return code, the
  context as it leaves it and the world. A callback that changes the graph it runs on is outside the
  model.
\<close>

subsection \<open>Data\<close>

datatype turbo_graph_exec_status_t =
    TURBO_GRAPH_EXEC_OK | TURBO_GRAPH_EXEC_STOP | TURBO_GRAPH_EXEC_INTERRUPTED
  | TURBO_GRAPH_EXEC_ERROR | TURBO_GRAPH_EXEC_STEP_LIMIT | TURBO_GRAPH_EXEC_ROUTE_NOT_FOUND
  | TURBO_GRAPH_EXEC_NODE_NOT_FOUND | TURBO_GRAPH_EXEC_INVALID_ARGUMENT
  | TURBO_GRAPH_EXEC_DUPLICATE_NODE | TURBO_GRAPH_EXEC_OUT_OF_MEMORY
  | TURBO_GRAPH_EXEC_CHECKPOINT_MISMATCH | TURBO_GRAPH_EXEC_CANCELLED | TURBO_GRAPH_EXEC_DEADLINE

type_synonym 'u world = "'u cancel_heap_scheme"

text \<open>\<open>cx_tree\<close> is the tree that \<open>ctx.state\<close> or \<open>ctx.json_value_state\<close> points to.\<close>

record 'j turbo_graph_exec_ctx =
  cx_tree :: 'j
  cx_current_node :: string
  cx_next_node :: cstr
  cx_step :: size_t
  cx_stop :: bool

type_synonym ('j, 'u) node_fn =
  "'j turbo_graph_exec_ctx \<Rightarrow> 'u world \<Rightarrow> int \<times> 'j turbo_graph_exec_ctx \<times> 'u world"

type_synonym ('j, 'u) edge_predicate_fn = "'j turbo_graph_exec_ctx \<Rightarrow> 'u world \<Rightarrow> int \<times> 'u world"

record ('j, 'u) turbo_graph_node_entry =
  gn_name :: string
  gn_semantic_id :: string
  gn_json_fn :: "('j, 'u) node_fn option"
  gn_json_value_fn :: "('j, 'u) node_fn option"

record ('j, 'u) turbo_graph_edge_entry =
  ge_from_index :: nat
  ge_to_index :: nat
  ge_semantic_id :: string
  ge_json_predicate :: "('j, 'u) edge_predicate_fn option"
  ge_json_value_predicate :: "('j, 'u) edge_predicate_fn option"

record ('j, 'u) turbo_graph =
  g_name :: cstr
  g_entry_node :: cstr
  g_nodes :: "('j, 'u) turbo_graph_node_entry list"
  g_node_capacity :: nat
  g_edges :: "('j, 'u) turbo_graph_edge_entry list"
  g_edge_capacity :: nat
  g_topology_id :: cstr

record 'j turbo_graph_checkpoint =
  cp_next_node :: string
  cp_steps :: size_t
  cp_state :: 'j
  cp_topology_id :: cstr

subsection \<open>The canonical topology\<close>

definition turbo_graph_join_edge_semantic_id :: "string \<Rightarrow> string \<Rightarrow> string" where
  "turbo_graph_join_edge_semantic_id from to = from @ ''->'' @ to"

definition turbo_graph_node_kind_text :: "('j, 'u) turbo_graph_node_entry \<Rightarrow> string" where
  "turbo_graph_node_kind_text node =
     (case gn_json_value_fn node of Some _ \<Rightarrow> ''bind'' | None \<Rightarrow> ''json'')"

definition turbo_graph_edge_predicate_kind_text :: "('j, 'u) turbo_graph_edge_entry \<Rightarrow> string" where
  "turbo_graph_edge_predicate_kind_text edge =
     (if ge_json_value_predicate edge \<noteq> None then ''json_value_predicate''
      else if ge_json_predicate edge \<noteq> None then ''json_predicate''
      else ''always'')"

definition turbo_graph_effective_semantic_id :: "cstr \<Rightarrow> string \<Rightarrow> string" where
  "turbo_graph_effective_semantic_id semantic_id fallback =
     (case semantic_id of Some s \<Rightarrow> if s \<noteq> [] then s else fallback | None \<Rightarrow> fallback)"

definition turbo_graph_invalidate_topology_id :: "('j, 'u) turbo_graph \<Rightarrow> ('j, 'u) turbo_graph" where
  "turbo_graph_invalidate_topology_id graph = graph\<lparr>g_topology_id := None\<rparr>"

definition turbo_graph_node_ptr_compare ::
    "('j, 'u) turbo_graph_node_entry \<Rightarrow> ('j, 'u) turbo_graph_node_entry \<Rightarrow> int" where
  "turbo_graph_node_ptr_compare lhs rhs =
     (let cmp = strcmp (gn_semantic_id lhs) (gn_semantic_id rhs)
      in if cmp \<noteq> 0 then cmp
         else let cmp = strcmp (gn_name lhs) (gn_name rhs)
              in if cmp \<noteq> 0 then cmp
                 else strcmp (turbo_graph_node_kind_text lhs) (turbo_graph_node_kind_text rhs))"

record turbo_graph_edge_topology_ref =
  er_semantic_id :: string
  er_from :: string
  er_to :: string
  er_predicate_kind :: string

definition turbo_graph_edge_ptr_compare ::
    "turbo_graph_edge_topology_ref \<Rightarrow> turbo_graph_edge_topology_ref \<Rightarrow> int" where
  "turbo_graph_edge_ptr_compare lhs rhs =
     (let cmp = strcmp (er_semantic_id lhs) (er_semantic_id rhs)
      in if cmp \<noteq> 0 then cmp
         else let cmp = strcmp (er_from lhs) (er_from rhs)
              in if cmp \<noteq> 0 then cmp
                 else let cmp = strcmp (er_to lhs) (er_to rhs)
                      in if cmp \<noteq> 0 then cmp
                         else strcmp (er_predicate_kind lhs) (er_predicate_kind rhs))"

definition edge_topology_ref ::
    "('j, 'u) turbo_graph \<Rightarrow> ('j, 'u) turbo_graph_edge_entry \<Rightarrow> turbo_graph_edge_topology_ref" where
  "edge_topology_ref graph edge =
     \<lparr>er_semantic_id = ge_semantic_id edge,
      er_from = gn_name (g_nodes graph ! ge_from_index edge),
      er_to = gn_name (g_nodes graph ! ge_to_index edge),
      er_predicate_kind = turbo_graph_edge_predicate_kind_text edge\<rparr>"

text \<open>The object of one node, and of one edge.\<close>

definition node_topology_json ::
    "('j, 'd) json_lib \<Rightarrow> ('j, 'u) turbo_graph_node_entry \<Rightarrow> 'j" where
  "node_topology_json J node =
     jl_set_string J (jl_set_string J (jl_set_string J (jl_object J) ''name'' (gn_name node))
       ''semantic_id'' (gn_semantic_id node)) ''kind'' (turbo_graph_node_kind_text node)"

definition edge_topology_json :: "('j, 'd) json_lib \<Rightarrow> turbo_graph_edge_topology_ref \<Rightarrow> 'j" where
  "edge_topology_json J ref =
     jl_set_string J (jl_set_string J (jl_set_string J (jl_set_string J (jl_object J) ''from'' (er_from ref))
       ''to'' (er_to ref)) ''semantic_id'' (er_semantic_id ref)) ''predicate_kind'' (er_predicate_kind ref)"

text \<open>The tree that \<open>turbo_graph_topology_json_create\<close> builds when no allocation fails. The C code adds
  the two arrays to the root before it fills them through their pointers; the value is the same. It ignores
  the results of \<open>json_object_set_string\<close> and \<open>json_object_add\<close>, which are taken to succeed here: a failure
  would leave the member out without notice.\<close>

definition topology_json :: "('j, 'd) json_lib \<Rightarrow> ('j, 'u) turbo_graph \<Rightarrow> 'j" where
  "topology_json J graph =
     (let node_refs = qsort turbo_graph_node_ptr_compare (g_nodes graph);
          edge_refs = qsort turbo_graph_edge_ptr_compare (map (edge_topology_ref graph) (g_edges graph));
          nodes = foldl (jl_array_add J) (jl_array J) (map (node_topology_json J) node_refs);
          edges = foldl (jl_array_add J) (jl_array J) (map (edge_topology_json J) edge_refs);
          root = jl_set_string J (jl_object J) ''graph_name'' (case g_name graph of Some s \<Rightarrow> s | None \<Rightarrow> []);
          root = jl_set_string J root ''entry_node'' (case g_entry_node graph of Some s \<Rightarrow> s | None \<Rightarrow> [])
      in jl_object_add J (jl_object_add J root ''nodes'' nodes) ''edges'' edges)"

text \<open>Its allocations: three containers, the two pointer arrays, one reference per edge, one object per
  node and per edge.\<close>

definition turbo_graph_topology_json_create ::
    "('j, 'd) json_lib \<Rightarrow> alloc \<Rightarrow> ('j, 'u) turbo_graph \<Rightarrow> 'j option \<times> alloc" where
  "turbo_graph_topology_json_create J a graph =
     (let (ok, a) = alloc_all 3 a
      in if \<not> ok then (None, a)
         else
           let (ok, a) = (if length (g_nodes graph) > 0 then alloc1 a else (True, a))
           in if \<not> ok then (None, a)
              else
                let (ok, a) = (if length (g_edges graph) > 0 then alloc1 a else (True, a))
                in if \<not> ok then (None, a)
                   else
                     let (ok, a) = alloc_loop (length (g_edges graph)) a
                     in if \<not> ok then (None, a)
                        else
                          let (ok, a) = alloc_loop (length (g_nodes graph)) a
                          in if \<not> ok then (None, a)
                             else
                               let (ok, a) = alloc_loop (length (g_edges graph)) a
                               in if \<not> ok then (None, a) else (Some (topology_json J graph), a))"

definition turbo_graph_topology_id_build ::
    "('j, 'd) json_lib \<Rightarrow> alloc \<Rightarrow> ('j, 'u) turbo_graph \<Rightarrow> cstr \<times> alloc" where
  "turbo_graph_topology_id_build J a graph =
     (case turbo_graph_topology_json_create J a graph of
        (None, a) \<Rightarrow> (None, a)
      | (Some root, a) \<Rightarrow> (let (ok, a) = alloc1 a in (if ok then Some (jl_serialize J root) else None, a)))"

definition turbo_graph_topology_id ::
    "('j, 'd) json_lib \<Rightarrow> alloc \<Rightarrow> ('j, 'u) turbo_graph \<Rightarrow> cstr \<times> ('j, 'u) turbo_graph \<times> alloc" where
  "turbo_graph_topology_id J a graph =
     (case g_topology_id graph of
        Some t \<Rightarrow> (Some t, graph, a)
      | None \<Rightarrow>
         (case turbo_graph_topology_id_build J a graph of
            (None, a) \<Rightarrow> (None, graph, a)
          | (Some t, a) \<Rightarrow> (Some t, graph\<lparr>g_topology_id := Some t\<rparr>, a)))"

subsection \<open>Building a graph\<close>

text \<open>\<open>None\<close> is the index \<open>(size_t)-1\<close>.\<close>

definition turbo_graph_find_node_index :: "('j, 'u) turbo_graph \<Rightarrow> cstr \<Rightarrow> nat option" where
  "turbo_graph_find_node_index graph name =
     (case name of None \<Rightarrow> None
      | Some n \<Rightarrow> find (\<lambda>i. gn_name (g_nodes graph ! i) = n) [0..<length (g_nodes graph)])"

definition turbo_graph_reserve_nodes ::
    "alloc \<Rightarrow> ('j, 'u) turbo_graph \<Rightarrow> turbo_graph_exec_status_t \<times> ('j, 'u) turbo_graph \<times> alloc" where
  "turbo_graph_reserve_nodes a graph =
     (if length (g_nodes graph) < g_node_capacity graph then (TURBO_GRAPH_EXEC_OK, graph, a)
      else
        let new_capacity = (if g_node_capacity graph = 0 then 4 else g_node_capacity graph * 2);
            (ok, a) = alloc1 a
        in if ok then (TURBO_GRAPH_EXEC_OK, graph\<lparr>g_node_capacity := new_capacity\<rparr>, a)
           else (TURBO_GRAPH_EXEC_OUT_OF_MEMORY, graph, a))"

definition turbo_graph_reserve_edges ::
    "alloc \<Rightarrow> ('j, 'u) turbo_graph \<Rightarrow> turbo_graph_exec_status_t \<times> ('j, 'u) turbo_graph \<times> alloc" where
  "turbo_graph_reserve_edges a graph =
     (if length (g_edges graph) < g_edge_capacity graph then (TURBO_GRAPH_EXEC_OK, graph, a)
      else
        let new_capacity = (if g_edge_capacity graph = 0 then 8 else g_edge_capacity graph * 2);
            (ok, a) = alloc1 a
        in if ok then (TURBO_GRAPH_EXEC_OK, graph\<lparr>g_edge_capacity := new_capacity\<rparr>, a)
           else (TURBO_GRAPH_EXEC_OUT_OF_MEMORY, graph, a))"

definition turbo_graph_create :: "alloc \<Rightarrow> cstr \<Rightarrow> ('j, 'u) turbo_graph option \<times> alloc" where
  "turbo_graph_create a name =
     (let graph = \<lparr>g_name = None, g_entry_node = None, g_nodes = [], g_node_capacity = 0,
                   g_edges = [], g_edge_capacity = 0, g_topology_id = None\<rparr>;
          (ok, a) = alloc1 a
      in if \<not> ok then (None, a)
         else (case name of None \<Rightarrow> (Some graph, a)
               | Some n \<Rightarrow> (let (ok, a) = alloc1 a
                            in if ok then (Some (graph\<lparr>g_name := Some n\<rparr>), a) else (None, a))))"

text \<open>The two node operations differ in the callback slot they fill and in how they report a failed
  growth; both copy the name and the effective semantic id.\<close>

definition turbo_graph_add_node_ex ::
    "alloc \<Rightarrow> ('j, 'u) turbo_graph \<Rightarrow> cstr \<Rightarrow> cstr \<Rightarrow> ('j, 'u) node_fn option \<Rightarrow>
     turbo_graph_exec_status_t \<times> ('j, 'u) turbo_graph \<times> alloc" where
  "turbo_graph_add_node_ex a graph name semantic_id fn =
     (case (name, fn) of
        (Some n, Some f) \<Rightarrow>
          if turbo_graph_find_node_index graph name \<noteq> None
          then (TURBO_GRAPH_EXEC_DUPLICATE_NODE, graph, a)
          else
            (case turbo_graph_reserve_nodes a graph of (status, graph, a) \<Rightarrow>
               if status \<noteq> TURBO_GRAPH_EXEC_OK then (status, graph, a)
               else
                 let (ok, a) = alloc1 a
                 in if \<not> ok then (TURBO_GRAPH_EXEC_OUT_OF_MEMORY, graph, a)
                    else
                      let (ok, a) = alloc1 a
                      in if \<not> ok then (TURBO_GRAPH_EXEC_OUT_OF_MEMORY, graph, a)
                         else
                           let node = \<lparr>gn_name = n,
                                       gn_semantic_id = turbo_graph_effective_semantic_id semantic_id n,
                                       gn_json_fn = Some f, gn_json_value_fn = None\<rparr>
                           in (TURBO_GRAPH_EXEC_OK,
                               turbo_graph_invalidate_topology_id (graph\<lparr>g_nodes := g_nodes graph @ [node]\<rparr>), a))
      | _ \<Rightarrow> (TURBO_GRAPH_EXEC_INVALID_ARGUMENT, graph, a))"

definition turbo_graph_add_node ::
    "alloc \<Rightarrow> ('j, 'u) turbo_graph \<Rightarrow> cstr \<Rightarrow> ('j, 'u) node_fn option \<Rightarrow>
     turbo_graph_exec_status_t \<times> ('j, 'u) turbo_graph \<times> alloc" where
  "turbo_graph_add_node a graph name fn = turbo_graph_add_node_ex a graph name None fn"

definition turbo_graph_add_json_value_node_ex ::
    "alloc \<Rightarrow> ('j, 'u) turbo_graph \<Rightarrow> cstr \<Rightarrow> cstr \<Rightarrow> ('j, 'u) node_fn option \<Rightarrow>
     turbo_graph_exec_status_t \<times> ('j, 'u) turbo_graph \<times> alloc" where
  "turbo_graph_add_json_value_node_ex a graph name semantic_id fn =
     (case (name, fn) of
        (Some n, Some f) \<Rightarrow>
          if turbo_graph_find_node_index graph name \<noteq> None
          then (TURBO_GRAPH_EXEC_DUPLICATE_NODE, graph, a)
          else
            (case turbo_graph_reserve_nodes a graph of (status, graph, a) \<Rightarrow>
               if status \<noteq> TURBO_GRAPH_EXEC_OK then (TURBO_GRAPH_EXEC_OUT_OF_MEMORY, graph, a)
               else
                 let (ok, a) = alloc1 a
                 in if \<not> ok then (TURBO_GRAPH_EXEC_OUT_OF_MEMORY, graph, a)
                    else
                      let (ok, a) = alloc1 a
                      in if \<not> ok then (TURBO_GRAPH_EXEC_OUT_OF_MEMORY, graph, a)
                         else
                           let node = \<lparr>gn_name = n,
                                       gn_semantic_id = turbo_graph_effective_semantic_id semantic_id n,
                                       gn_json_fn = None, gn_json_value_fn = Some f\<rparr>
                           in (TURBO_GRAPH_EXEC_OK,
                               turbo_graph_invalidate_topology_id (graph\<lparr>g_nodes := g_nodes graph @ [node]\<rparr>), a))
      | _ \<Rightarrow> (TURBO_GRAPH_EXEC_INVALID_ARGUMENT, graph, a))"

definition turbo_graph_add_json_value_node ::
    "alloc \<Rightarrow> ('j, 'u) turbo_graph \<Rightarrow> cstr \<Rightarrow> ('j, 'u) node_fn option \<Rightarrow>
     turbo_graph_exec_status_t \<times> ('j, 'u) turbo_graph \<times> alloc" where
  "turbo_graph_add_json_value_node a graph name fn = turbo_graph_add_json_value_node_ex a graph name None fn"

definition turbo_graph_add_edge_ex ::
    "alloc \<Rightarrow> ('j, 'u) turbo_graph \<Rightarrow> cstr \<Rightarrow> cstr \<Rightarrow> cstr \<Rightarrow> ('j, 'u) edge_predicate_fn option \<Rightarrow>
     turbo_graph_exec_status_t \<times> ('j, 'u) turbo_graph \<times> alloc" where
  "turbo_graph_add_edge_ex a graph from to semantic_id predicate =
     (case (from, to) of
        (Some f, Some t) \<Rightarrow>
          (case (turbo_graph_find_node_index graph from, turbo_graph_find_node_index graph to) of
             (Some from_index, Some to_index) \<Rightarrow>
               (case turbo_graph_reserve_edges a graph of (status, graph, a) \<Rightarrow>
                  if status \<noteq> TURBO_GRAPH_EXEC_OK then (status, graph, a)
                  else
                    let (ok, a) = alloc1 a
                    in if \<not> ok then (TURBO_GRAPH_EXEC_OUT_OF_MEMORY, graph, a)
                       else
                         let edge = \<lparr>ge_from_index = from_index, ge_to_index = to_index,
                                     ge_semantic_id = turbo_graph_effective_semantic_id semantic_id
                                       (turbo_graph_join_edge_semantic_id f t),
                                     ge_json_predicate = predicate, ge_json_value_predicate = None\<rparr>
                         in (TURBO_GRAPH_EXEC_OK,
                             turbo_graph_invalidate_topology_id (graph\<lparr>g_edges := g_edges graph @ [edge]\<rparr>), a))
           | _ \<Rightarrow> (TURBO_GRAPH_EXEC_NODE_NOT_FOUND, graph, a))
      | _ \<Rightarrow> (TURBO_GRAPH_EXEC_INVALID_ARGUMENT, graph, a))"

definition turbo_graph_add_edge ::
    "alloc \<Rightarrow> ('j, 'u) turbo_graph \<Rightarrow> cstr \<Rightarrow> cstr \<Rightarrow> ('j, 'u) edge_predicate_fn option \<Rightarrow>
     turbo_graph_exec_status_t \<times> ('j, 'u) turbo_graph \<times> alloc" where
  "turbo_graph_add_edge a graph from to predicate = turbo_graph_add_edge_ex a graph from to None predicate"

definition turbo_graph_add_json_value_edge_ex ::
    "alloc \<Rightarrow> ('j, 'u) turbo_graph \<Rightarrow> cstr \<Rightarrow> cstr \<Rightarrow> cstr \<Rightarrow> ('j, 'u) edge_predicate_fn option \<Rightarrow>
     turbo_graph_exec_status_t \<times> ('j, 'u) turbo_graph \<times> alloc" where
  "turbo_graph_add_json_value_edge_ex a graph from to semantic_id predicate =
     (case (from, to) of
        (Some f, Some t) \<Rightarrow>
          (case (turbo_graph_find_node_index graph from, turbo_graph_find_node_index graph to) of
             (Some from_index, Some to_index) \<Rightarrow>
               (case turbo_graph_reserve_edges a graph of (status, graph, a) \<Rightarrow>
                  if status \<noteq> TURBO_GRAPH_EXEC_OK then (TURBO_GRAPH_EXEC_OUT_OF_MEMORY, graph, a)
                  else
                    let (ok, a) = alloc1 a
                    in if \<not> ok then (TURBO_GRAPH_EXEC_OUT_OF_MEMORY, graph, a)
                       else
                         let edge = \<lparr>ge_from_index = from_index, ge_to_index = to_index,
                                     ge_semantic_id = turbo_graph_effective_semantic_id semantic_id
                                       (turbo_graph_join_edge_semantic_id f t),
                                     ge_json_predicate = None, ge_json_value_predicate = predicate\<rparr>
                         in (TURBO_GRAPH_EXEC_OK,
                             turbo_graph_invalidate_topology_id (graph\<lparr>g_edges := g_edges graph @ [edge]\<rparr>), a))
           | _ \<Rightarrow> (TURBO_GRAPH_EXEC_NODE_NOT_FOUND, graph, a))
      | _ \<Rightarrow> (TURBO_GRAPH_EXEC_INVALID_ARGUMENT, graph, a))"

definition turbo_graph_add_json_value_edge ::
    "alloc \<Rightarrow> ('j, 'u) turbo_graph \<Rightarrow> cstr \<Rightarrow> cstr \<Rightarrow> ('j, 'u) edge_predicate_fn option \<Rightarrow>
     turbo_graph_exec_status_t \<times> ('j, 'u) turbo_graph \<times> alloc" where
  "turbo_graph_add_json_value_edge a graph from to predicate =
     turbo_graph_add_json_value_edge_ex a graph from to None predicate"

definition turbo_graph_set_entry ::
    "alloc \<Rightarrow> ('j, 'u) turbo_graph \<Rightarrow> cstr \<Rightarrow>
     turbo_graph_exec_status_t \<times> ('j, 'u) turbo_graph \<times> alloc" where
  "turbo_graph_set_entry a graph name =
     (case name of None \<Rightarrow> (TURBO_GRAPH_EXEC_INVALID_ARGUMENT, graph, a)
      | Some n \<Rightarrow>
          if turbo_graph_find_node_index graph name = None then (TURBO_GRAPH_EXEC_NODE_NOT_FOUND, graph, a)
          else let (ok, a) = alloc1 a
               in if \<not> ok then (TURBO_GRAPH_EXEC_OUT_OF_MEMORY, graph, a)
                  else (TURBO_GRAPH_EXEC_OK,
                        turbo_graph_invalidate_topology_id (graph\<lparr>g_entry_node := Some n\<rparr>), a))"

definition turbo_graph_get_entry :: "('j, 'u) turbo_graph option \<Rightarrow> cstr" where
  "turbo_graph_get_entry graph = (case graph of None \<Rightarrow> None | Some g \<Rightarrow> g_entry_node g)"

definition turbo_graph_node_count :: "('j, 'u) turbo_graph option \<Rightarrow> nat" where
  "turbo_graph_node_count graph = (case graph of None \<Rightarrow> 0 | Some g \<Rightarrow> length (g_nodes g))"

definition turbo_graph_edge_count :: "('j, 'u) turbo_graph option \<Rightarrow> nat" where
  "turbo_graph_edge_count graph = (case graph of None \<Rightarrow> 0 | Some g \<Rightarrow> length (g_edges g))"

subsection \<open>The execution context\<close>

definition turbo_graph_ctx_set_next ::
    "('j, 'u) turbo_graph \<Rightarrow> 'j turbo_graph_exec_ctx \<Rightarrow> cstr \<Rightarrow>
     turbo_graph_exec_status_t \<times> 'j turbo_graph_exec_ctx" where
  "turbo_graph_ctx_set_next graph ctx next_node =
     (case next_node of None \<Rightarrow> (TURBO_GRAPH_EXEC_INVALID_ARGUMENT, ctx)
      | Some _ \<Rightarrow>
          if turbo_graph_find_node_index graph next_node = None then (TURBO_GRAPH_EXEC_NODE_NOT_FOUND, ctx)
          else (TURBO_GRAPH_EXEC_OK, ctx\<lparr>cx_next_node := next_node\<rparr>))"

definition turbo_graph_ctx_stop :: "'j turbo_graph_exec_ctx \<Rightarrow> 'j turbo_graph_exec_ctx" where
  "turbo_graph_ctx_stop ctx = ctx\<lparr>cx_stop := True\<rparr>"

subsection \<open>Checkpoints\<close>

definition TURBO_GRAPH_CHECKPOINT_SCHEMA_VERSION :: int where
  "TURBO_GRAPH_CHECKPOINT_SCHEMA_VERSION = 3"

definition turbo_graph_checkpoint_schema_version :: size_t where
  "turbo_graph_checkpoint_schema_version = of_int TURBO_GRAPH_CHECKPOINT_SCHEMA_VERSION"

text \<open>\<open>turbo_graph_clone_json_value_state\<close>, \<open>turbo_graph_clone_json\<close> and
  \<open>turbo_graph_json_value_state_to_json\<close> are the same code.\<close>

definition turbo_graph_clone_json :: "('j, 'd) json_lib \<Rightarrow> alloc \<Rightarrow> 'j option \<Rightarrow>
    turbo_graph_exec_status_t \<times> 'j option \<times> alloc" where
  "turbo_graph_clone_json J a state =
     (let (out_state, a) = json_create a (case state of None \<Rightarrow> jl_null J | Some v \<Rightarrow> v)
      in (if out_state \<noteq> None then TURBO_GRAPH_EXEC_OK else TURBO_GRAPH_EXEC_OUT_OF_MEMORY, out_state, a))"

definition turbo_graph_clone_json_value_state :: "('j, 'd) json_lib \<Rightarrow> alloc \<Rightarrow> 'j option \<Rightarrow>
    turbo_graph_exec_status_t \<times> 'j option \<times> alloc" where
  "turbo_graph_clone_json_value_state J a state =
     (let (out_state, a) = json_create a (case state of None \<Rightarrow> jl_null J | Some v \<Rightarrow> v)
      in (if out_state \<noteq> None then TURBO_GRAPH_EXEC_OK else TURBO_GRAPH_EXEC_OUT_OF_MEMORY, out_state, a))"

definition turbo_graph_json_value_state_to_json :: "('j, 'd) json_lib \<Rightarrow> alloc \<Rightarrow> 'j option \<Rightarrow>
    turbo_graph_exec_status_t \<times> 'j option \<times> alloc" where
  "turbo_graph_json_value_state_to_json J a state =
     (let (out_state, a) = json_create a (case state of None \<Rightarrow> jl_null J | Some v \<Rightarrow> v)
      in (if out_state \<noteq> None then TURBO_GRAPH_EXEC_OK else TURBO_GRAPH_EXEC_OUT_OF_MEMORY, out_state, a))"

definition turbo_graph_checkpoint_create :: "('j, 'd) json_lib \<Rightarrow> alloc \<Rightarrow> cstr \<Rightarrow> size_t \<Rightarrow> 'j option \<Rightarrow>
    turbo_graph_exec_status_t \<times> 'j turbo_graph_checkpoint option \<times> alloc" where
  "turbo_graph_checkpoint_create J a next_node steps state =
     (case next_node of None \<Rightarrow> (TURBO_GRAPH_EXEC_INVALID_ARGUMENT, None, a)
      | Some n \<Rightarrow>
         (let (ok, a) = alloc1 a
          in if \<not> ok then (TURBO_GRAPH_EXEC_OUT_OF_MEMORY, None, a)
             else
               let (ok, a) = alloc1 a
               in if \<not> ok then (TURBO_GRAPH_EXEC_OUT_OF_MEMORY, None, a)
                  else
                    (case turbo_graph_clone_json J a state of
                       (_, Some v, a) \<Rightarrow>
                         (TURBO_GRAPH_EXEC_OK,
                          Some \<lparr>cp_next_node = n, cp_steps = steps, cp_state = v, cp_topology_id = None\<rparr>, a)
                     | (status, None, a) \<Rightarrow> (status, None, a))))"

definition turbo_graph_checkpoint_create_json_value :: "('j, 'd) json_lib \<Rightarrow> alloc \<Rightarrow> cstr \<Rightarrow> size_t \<Rightarrow> 'j option \<Rightarrow>
    turbo_graph_exec_status_t \<times> 'j turbo_graph_checkpoint option \<times> alloc" where
  "turbo_graph_checkpoint_create_json_value J a next_node steps state =
     (case turbo_graph_json_value_state_to_json J a state of
        (_, Some v, a) \<Rightarrow> turbo_graph_checkpoint_create J a next_node steps (Some v)
      | (status, None, a) \<Rightarrow> (status, None, a))"

definition turbo_graph_checkpoint_set_topology ::
    "('j, 'd) json_lib \<Rightarrow> alloc \<Rightarrow> 'j turbo_graph_checkpoint \<Rightarrow> ('j, 'u) turbo_graph \<Rightarrow>
     turbo_graph_exec_status_t \<times> 'j turbo_graph_checkpoint \<times> ('j, 'u) turbo_graph \<times> alloc" where
  "turbo_graph_checkpoint_set_topology J a checkpoint graph =
     (case turbo_graph_topology_id J a graph of
        (None, graph, a) \<Rightarrow> (TURBO_GRAPH_EXEC_OUT_OF_MEMORY, checkpoint, graph, a)
      | (Some t, graph, a) \<Rightarrow>
         (let (ok, a) = alloc1 a
          in if \<not> ok then (TURBO_GRAPH_EXEC_OUT_OF_MEMORY, checkpoint, graph, a)
             else (TURBO_GRAPH_EXEC_OK, checkpoint\<lparr>cp_topology_id := Some t\<rparr>, graph, a)))"

definition turbo_graph_checkpoint_matches_graph ::
    "('j, 'd) json_lib \<Rightarrow> alloc \<Rightarrow> 'j turbo_graph_checkpoint \<Rightarrow> ('j, 'u) turbo_graph \<Rightarrow>
     turbo_graph_exec_status_t \<times> bool \<times> ('j, 'u) turbo_graph \<times> alloc" where
  "turbo_graph_checkpoint_matches_graph J a checkpoint graph =
     (case cp_topology_id checkpoint of
        None \<Rightarrow> (TURBO_GRAPH_EXEC_OK, False, graph, a)
      | Some ct \<Rightarrow>
         (case turbo_graph_topology_id J a graph of
            (None, graph, a) \<Rightarrow> (TURBO_GRAPH_EXEC_OUT_OF_MEMORY, False, graph, a)
          | (Some t, graph, a) \<Rightarrow> (TURBO_GRAPH_EXEC_OK, strcmp ct t = 0, graph, a)))"

definition turbo_graph_checkpoint_clone :: "('j, 'd) json_lib \<Rightarrow> alloc \<Rightarrow> 'j turbo_graph_checkpoint \<Rightarrow>
    turbo_graph_exec_status_t \<times> 'j turbo_graph_checkpoint option \<times> alloc" where
  "turbo_graph_checkpoint_clone J a checkpoint =
     (case turbo_graph_checkpoint_create J a (Some (cp_next_node checkpoint)) (cp_steps checkpoint)
             (Some (cp_state checkpoint)) of
        (_, Some copy, a) \<Rightarrow>
          (case cp_topology_id checkpoint of
             None \<Rightarrow> (TURBO_GRAPH_EXEC_OK, Some copy, a)
           | Some t \<Rightarrow>
              (let (ok, a) = alloc1 a
               in if \<not> ok then (TURBO_GRAPH_EXEC_OUT_OF_MEMORY, None, a)
                  else (TURBO_GRAPH_EXEC_OK, Some (copy\<lparr>cp_topology_id := Some t\<rparr>), a)))
      | (status, None, a) \<Rightarrow> (status, None, a))"

text \<open>The serialized form: five members, the numbers written as doubles. The results of the setters are ignored
  by the code and taken to succeed here.\<close>

definition checkpoint_json :: "('j, 'd) json_lib \<Rightarrow> 'j turbo_graph_checkpoint \<Rightarrow> 'j" where
  "checkpoint_json J checkpoint =
     (let root = jl_set_number J (jl_object J) ''checkpoint_version''
                   (jl_double_of_int J TURBO_GRAPH_CHECKPOINT_SCHEMA_VERSION);
          root = jl_set_string J root ''next_node'' (cp_next_node checkpoint);
          root = jl_set_number J root ''steps'' (jl_double_of_int J (uint (cp_steps checkpoint)));
          root = jl_set_string J root ''topology_id''
                   (case cp_topology_id checkpoint of Some t \<Rightarrow> t | None \<Rightarrow> [])
      in jl_object_add J root ''state'' (cp_state checkpoint))"

definition turbo_graph_checkpoint_serialize ::
    "('j, 'd) json_lib \<Rightarrow> alloc \<Rightarrow> 'j turbo_graph_checkpoint \<Rightarrow> cstr \<times> alloc" where
  "turbo_graph_checkpoint_serialize J a checkpoint =
     (let (ok, a) = alloc1 a
      in if \<not> ok then (None, a)
         else
           (case turbo_graph_clone_json J a (Some (cp_state checkpoint)) of
              (_, None, a) \<Rightarrow> (None, a)
            | (_, Some _, a) \<Rightarrow>
               (let (ok, a) = alloc1 a
                in (if ok then Some (jl_serialize J (checkpoint_json J checkpoint)) else None, a))))"

definition turbo_graph_checkpoint_deserialize ::
    "('j, 'd) json_lib \<Rightarrow> alloc \<Rightarrow> cstr \<Rightarrow>
     turbo_graph_exec_status_t \<times> 'j turbo_graph_checkpoint option \<times> alloc" where
  "turbo_graph_checkpoint_deserialize J a json =
     (case json of None \<Rightarrow> (TURBO_GRAPH_EXEC_INVALID_ARGUMENT, None, a)
      | Some text \<Rightarrow>
         (case jl_parse J text of None \<Rightarrow> (TURBO_GRAPH_EXEC_ERROR, None, a)
          | Some root \<Rightarrow>
             (let next_node = jl_get_string J root ''next_node'';
                  topology_id_text = jl_get_string J root ''topology_id'';
                  state = jl_object_get J root ''state'';
                  checkpoint_version = turbo_runtime_json_value_as_int64 J
                    (jl_object_get J root ''checkpoint_version'') (- 1);
                  steps_value = jl_object_get J root ''steps'';
                  steps = (if steps_value \<noteq> None
                           then turbo_runtime_json_value_as_int64 J steps_value (- 1) else 0)
              in if checkpoint_version \<noteq> TURBO_GRAPH_CHECKPOINT_SCHEMA_VERSION \<or> next_node = None \<or>
                    state = None \<or> topology_id_text = None \<or> steps < 0 \<or> steps > 9007199254740991
                 then (TURBO_GRAPH_EXEC_ERROR, None, a)
                 else
                   (case turbo_graph_checkpoint_create J a next_node (of_int steps) state of
                      (_, Some checkpoint, a) \<Rightarrow>
                        (case topology_id_text of
                           Some t \<Rightarrow>
                             if t \<noteq> []
                             then (let (ok, a) = alloc1 a
                                   in if \<not> ok then (TURBO_GRAPH_EXEC_OUT_OF_MEMORY, None, a)
                                      else (TURBO_GRAPH_EXEC_OK, Some (checkpoint\<lparr>cp_topology_id := Some t\<rparr>), a))
                             else (TURBO_GRAPH_EXEC_OK, Some checkpoint, a)
                         | None \<Rightarrow> (TURBO_GRAPH_EXEC_OK, Some checkpoint, a))
                    | (status, None, a) \<Rightarrow> (status, None, a)))))"

definition turbo_graph_checkpoint_topology_id :: "'j turbo_graph_checkpoint option \<Rightarrow> cstr" where
  "turbo_graph_checkpoint_topology_id checkpoint =
     (case checkpoint of None \<Rightarrow> None | Some c \<Rightarrow> cp_topology_id c)"

definition turbo_graph_checkpoint_next_node :: "'j turbo_graph_checkpoint option \<Rightarrow> cstr" where
  "turbo_graph_checkpoint_next_node checkpoint =
     (case checkpoint of None \<Rightarrow> None | Some c \<Rightarrow> Some (cp_next_node c))"

definition turbo_graph_checkpoint_steps :: "'j turbo_graph_checkpoint option \<Rightarrow> size_t" where
  "turbo_graph_checkpoint_steps checkpoint =
     (case checkpoint of None \<Rightarrow> 0 | Some c \<Rightarrow> cp_steps c)"

definition turbo_graph_checkpoint_state :: "'j turbo_graph_checkpoint option \<Rightarrow> 'j option" where
  "turbo_graph_checkpoint_state checkpoint =
     (case checkpoint of None \<Rightarrow> None | Some c \<Rightarrow> Some (cp_state c))"

definition turbo_graph_checkpoint_state_json_value ::
    "alloc \<Rightarrow> 'j turbo_graph_checkpoint option \<Rightarrow> 'j option \<times> alloc" where
  "turbo_graph_checkpoint_state_json_value a checkpoint =
     (case checkpoint of None \<Rightarrow> (None, a) | Some c \<Rightarrow> json_create a (cp_state c))"

subsection \<open>The graph invariant\<close>

text \<open>The whole builder interface as one operation type.\<close>

datatype (dead 'j, dead 'u) graph_op =
    Add_Node cstr cstr "('j, 'u) node_fn option"
  | Add_Json_Value_Node cstr cstr "('j, 'u) node_fn option"
  | Add_Edge cstr cstr cstr "('j, 'u) edge_predicate_fn option"
  | Add_Json_Value_Edge cstr cstr cstr "('j, 'u) edge_predicate_fn option"
  | Set_Entry cstr
  | Get_Topology_Id

fun apply_graph_op :: "('j, 'd) json_lib \<Rightarrow> ('j, 'u) graph_op \<Rightarrow> alloc \<Rightarrow> ('j, 'u) turbo_graph \<Rightarrow>
    turbo_graph_exec_status_t \<times> ('j, 'u) turbo_graph \<times> alloc" where
  "apply_graph_op J (Add_Node name sem fn) a g = turbo_graph_add_node_ex a g name sem fn"
| "apply_graph_op J (Add_Json_Value_Node name sem fn) a g = turbo_graph_add_json_value_node_ex a g name sem fn"
| "apply_graph_op J (Add_Edge from to sem p) a g = turbo_graph_add_edge_ex a g from to sem p"
| "apply_graph_op J (Add_Json_Value_Edge from to sem p) a g = turbo_graph_add_json_value_edge_ex a g from to sem p"
| "apply_graph_op J (Set_Entry name) a g = turbo_graph_set_entry a g name"
| "apply_graph_op J Get_Topology_Id a g =
     (case turbo_graph_topology_id J a g of (t, g, a) \<Rightarrow>
        (if t = None then TURBO_GRAPH_EXEC_OUT_OF_MEMORY else TURBO_GRAPH_EXEC_OK, g, a))"

definition graph_names :: "('j, 'u) turbo_graph \<Rightarrow> string list" where
  "graph_names g = map gn_name (g_nodes g)"

text \<open>Node names are distinct, edges join existing nodes, the entry node exists, the arrays have room for
  their elements, each node has exactly one kind of callback and each edge at most one kind of predicate.\<close>

definition graph_shape :: "('j, 'u) turbo_graph \<Rightarrow> bool" where
  "graph_shape g \<longleftrightarrow>
     distinct (graph_names g) \<and>
     (\<forall>e \<in> set (g_edges g). ge_from_index e < length (g_nodes g) \<and> ge_to_index e < length (g_nodes g) \<and>
        (ge_json_predicate e = None \<or> ge_json_value_predicate e = None)) \<and>
     (\<forall>n \<in> set (g_nodes g). (gn_json_fn n = None) \<noteq> (gn_json_value_fn n = None)) \<and>
     (case g_entry_node g of None \<Rightarrow> True | Some e \<Rightarrow> e \<in> set (graph_names g)) \<and>
     length (g_nodes g) \<le> g_node_capacity g \<and> length (g_edges g) \<le> g_edge_capacity g"

text \<open>The cached topology id is the id of the graph as it is now.\<close>

definition topology_cache_ok :: "('j, 'd) json_lib \<Rightarrow> ('j, 'u) turbo_graph \<Rightarrow> bool" where
  "topology_cache_ok J g \<longleftrightarrow>
     (case g_topology_id g of None \<Rightarrow> True | Some t \<Rightarrow> t = jl_serialize J (topology_json J g))"

definition graph_inv :: "('j, 'd) json_lib \<Rightarrow> ('j, 'u) turbo_graph \<Rightarrow> bool" where
  "graph_inv J g \<longleftrightarrow> graph_shape g \<and> topology_cache_ok J g"

definition graph_view where
  "graph_view g = (g_name g, g_entry_node g, g_nodes g, g_edges g)"

lemma find_node_index_Some:
  "turbo_graph_find_node_index g (Some n) = Some i \<longleftrightarrow>
     i < length (g_nodes g) \<and> gn_name (g_nodes g ! i) = n \<and> (\<forall>j < i. gn_name (g_nodes g ! j) \<noteq> n)"
  by (auto simp: turbo_graph_find_node_index_def find_index_Some)

lemma find_node_index_None:
  "turbo_graph_find_node_index g (Some n) = None \<longleftrightarrow> n \<notin> set (graph_names g)"
  unfolding turbo_graph_find_node_index_def graph_names_def set_map option.case
  using find_index_mem [of gn_name "g_nodes g" n] by blast

lemma find_node_index_NULL [simp]: "turbo_graph_find_node_index g None = None"
  by (simp add: turbo_graph_find_node_index_def)

lemma find_node_index_nodes [turbo_frame]:
  "g_nodes g' = g_nodes g \<Longrightarrow> turbo_graph_find_node_index g' n = turbo_graph_find_node_index g n"
  by (cases n) (simp_all add: turbo_graph_find_node_index_def)

lemma topology_json_view:
  "graph_view g' = graph_view g \<Longrightarrow> topology_json J g' = topology_json J g"
proof -
  assume "graph_view g' = graph_view g"
  then have "g_name g' = g_name g" "g_entry_node g' = g_entry_node g" "g_nodes g' = g_nodes g"
    "g_edges g' = g_edges g" by (simp_all add: graph_view_def)
  moreover from this have "edge_topology_ref g' = edge_topology_ref g"
    by (simp add: fun_eq_iff edge_topology_ref_def)
  ultimately show ?thesis by (simp add: topology_json_def)
qed

lemma topology_id_build_Some:
  "turbo_graph_topology_id_build J a g = (Some t, a') \<Longrightarrow> t = jl_serialize J (topology_json J g)"
  by (auto simp: turbo_graph_topology_id_build_def turbo_graph_topology_json_create_def Let_def
      split: prod.splits if_splits option.splits)

lemma topology_id_result:
  assumes "turbo_graph_topology_id J a g = (t, g', a')" and "topology_cache_ok J g"
  shows "graph_view g' = graph_view g" and "topology_cache_ok J g'"
    and "g_node_capacity g' = g_node_capacity g" and "g_edge_capacity g' = g_edge_capacity g"
    and "t = None \<or> (t = Some (jl_serialize J (topology_json J g)) \<and> g_topology_id g' = t)"
proof -
  consider (cached) t0 where "g_topology_id g = Some t0" "t = Some t0" "g' = g"
    | (failed) "g_topology_id g = None" "t = None" "g' = g"
    | (built) t0 where "g_topology_id g = None" "t = Some t0" "g' = g\<lparr>g_topology_id := Some t0\<rparr>"
        "t0 = jl_serialize J (topology_json J g)"
    using assms(1) topology_id_build_Some
    by (fastforce simp: turbo_graph_topology_id_def split: option.splits prod.splits)
  then have "graph_view g' = graph_view g \<and> topology_cache_ok J g' \<and>
      g_node_capacity g' = g_node_capacity g \<and> g_edge_capacity g' = g_edge_capacity g \<and>
      (t = None \<or> (t = Some (jl_serialize J (topology_json J g)) \<and> g_topology_id g' = t))"
  proof cases
    case built
    have "graph_view g' = graph_view g" using built by (simp add: graph_view_def)
    with built topology_json_view [OF this, of J] show ?thesis by (simp add: topology_cache_ok_def)
  qed (use assms(2) in \<open>simp_all add: topology_cache_ok_def\<close>)
  then show "graph_view g' = graph_view g" "topology_cache_ok J g'"
    "g_node_capacity g' = g_node_capacity g" "g_edge_capacity g' = g_edge_capacity g"
    "t = None \<or> (t = Some (jl_serialize J (topology_json J g)) \<and> g_topology_id g' = t)" by blast+
qed

lemma graph_shape_view:
  "graph_view g' = graph_view g \<Longrightarrow> g_node_capacity g \<le> g_node_capacity g' \<Longrightarrow>
   g_edge_capacity g \<le> g_edge_capacity g' \<Longrightarrow> graph_shape g \<Longrightarrow> graph_shape g'"
  by (auto simp: graph_shape_def graph_view_def graph_names_def split: option.splits)

lemma graph_inv_topology_id:
  "graph_inv J g \<Longrightarrow> turbo_graph_topology_id J a g = (t, g', a') \<Longrightarrow>
     graph_inv J g' \<and> graph_view g' = graph_view g"
  unfolding graph_inv_def using topology_id_result [of J a g t g' a'] graph_shape_view [of g' g] by simp

subsection \<open>Every builder operation keeps the invariant\<close>

text \<open>The part of a failed operation that stays: a larger capacity.\<close>

definition only_grown :: "('j, 'u) turbo_graph \<Rightarrow> ('j, 'u) turbo_graph \<Rightarrow> bool" where
  "only_grown g g' \<longleftrightarrow> (\<exists>c c'. g' = g\<lparr>g_node_capacity := c, g_edge_capacity := c'\<rparr> \<and>
     g_node_capacity g \<le> c \<and> g_edge_capacity g \<le> c')"

lemma only_grown_refl [simp]: "only_grown g g"
  unfolding only_grown_def by (rule exI [of _ "g_node_capacity g"], rule exI [of _ "g_edge_capacity g"]) simp

lemma only_grown_nodes: "g_node_capacity g \<le> c \<Longrightarrow> only_grown g (g\<lparr>g_node_capacity := c\<rparr>)"
  unfolding only_grown_def by (rule exI [of _ c], rule exI [of _ "g_edge_capacity g"]) simp

lemma only_grown_edges: "g_edge_capacity g \<le> c \<Longrightarrow> only_grown g (g\<lparr>g_edge_capacity := c\<rparr>)"
  unfolding only_grown_def by (rule exI [of _ "g_node_capacity g"], rule exI [of _ c]) simp

text \<open>Growing an array changes only its capacity, and success means there is room for one more.\<close>

lemma reserve_nodesE:
  assumes "graph_shape g"
  obtains s c a' where "turbo_graph_reserve_nodes a g = (s, g\<lparr>g_node_capacity := c\<rparr>, a')"
    "only_grown g (g\<lparr>g_node_capacity := c\<rparr>)" "s = TURBO_GRAPH_EXEC_OK \<Longrightarrow> length (g_nodes g) < c"
proof (cases "length (g_nodes g) < g_node_capacity g")
  case True
  then show thesis by (intro that [of TURBO_GRAPH_EXEC_OK "g_node_capacity g" a])
      (simp_all add: turbo_graph_reserve_nodes_def)
next
  case False
  define c where "c = (if g_node_capacity g = 0 then 4 else g_node_capacity g * 2)"
  obtain ok a1 where a1: "alloc1 a = (ok, a1)" by (cases "alloc1 a") auto
  have c: "g_node_capacity g \<le> c" "length (g_nodes g) < c" using assms by (auto simp: c_def graph_shape_def)
  show thesis
  proof (cases ok)
    case True
    then show thesis using False a1 c by (intro that [of TURBO_GRAPH_EXEC_OK c a1])
        (simp_all add: turbo_graph_reserve_nodes_def c_def [symmetric] only_grown_nodes)
  next
    case f: False
    then show thesis using False a1
      by (intro that [of TURBO_GRAPH_EXEC_OUT_OF_MEMORY "g_node_capacity g" a1])
        (simp_all add: turbo_graph_reserve_nodes_def)
  qed
qed

lemma reserve_edgesE:
  assumes "graph_shape g"
  obtains s c a' where "turbo_graph_reserve_edges a g = (s, g\<lparr>g_edge_capacity := c\<rparr>, a')"
    "only_grown g (g\<lparr>g_edge_capacity := c\<rparr>)" "s = TURBO_GRAPH_EXEC_OK \<Longrightarrow> length (g_edges g) < c"
proof (cases "length (g_edges g) < g_edge_capacity g")
  case True
  then show thesis by (intro that [of TURBO_GRAPH_EXEC_OK "g_edge_capacity g" a])
      (simp_all add: turbo_graph_reserve_edges_def)
next
  case False
  define c where "c = (if g_edge_capacity g = 0 then 8 else g_edge_capacity g * 2)"
  obtain ok a1 where a1: "alloc1 a = (ok, a1)" by (cases "alloc1 a") auto
  have c: "g_edge_capacity g \<le> c" "length (g_edges g) < c" using assms by (auto simp: c_def graph_shape_def)
  show thesis
  proof (cases ok)
    case True
    then show thesis using False a1 c by (intro that [of TURBO_GRAPH_EXEC_OK c a1])
        (simp_all add: turbo_graph_reserve_edges_def c_def [symmetric] only_grown_edges)
  next
    case f: False
    then show thesis using False a1
      by (intro that [of TURBO_GRAPH_EXEC_OUT_OF_MEMORY "g_edge_capacity g" a1])
        (simp_all add: turbo_graph_reserve_edges_def)
  qed
qed

text \<open>What one node operation can do: nothing a client sees, or append one node with a new name.\<close>

definition node_added :: "('j, 'u) turbo_graph \<Rightarrow> ('j, 'u) turbo_graph_node_entry \<Rightarrow> ('j, 'u) turbo_graph \<Rightarrow> bool" where
  "node_added g n g' \<longleftrightarrow> (\<exists>c. g' = g\<lparr>g_node_capacity := c, g_nodes := g_nodes g @ [n], g_topology_id := None\<rparr> \<and>
     length (g_nodes g) < c) \<and> gn_name n \<notin> set (graph_names g) \<and>
     (gn_json_fn n = None) \<noteq> (gn_json_value_fn n = None)"

definition edge_added :: "('j, 'u) turbo_graph \<Rightarrow> ('j, 'u) turbo_graph_edge_entry \<Rightarrow> ('j, 'u) turbo_graph \<Rightarrow> bool" where
  "edge_added g e g' \<longleftrightarrow> (\<exists>c. g' = g\<lparr>g_edge_capacity := c, g_edges := g_edges g @ [e], g_topology_id := None\<rparr> \<and>
     length (g_edges g) < c) \<and> ge_from_index e < length (g_nodes g) \<and> ge_to_index e < length (g_nodes g) \<and>
     (ge_json_predicate e = None \<or> ge_json_value_predicate e = None)"

lemma add_node_result:
  assumes "turbo_graph_add_node_ex a g name sem fn = (s, g', a')" and "graph_shape g"
  shows "if s = TURBO_GRAPH_EXEC_OK
         then \<exists>n f. name = Some n \<and> fn = Some f \<and> node_added g
           \<lparr>gn_name = n, gn_semantic_id = turbo_graph_effective_semantic_id sem n,
            gn_json_fn = Some f, gn_json_value_fn = None\<rparr> g'
         else only_grown g g'"
  by (rule reserve_nodesE [OF assms(2), of a], insert assms(1))
    (auto simp: turbo_graph_add_node_ex_def node_added_def Let_def find_node_index_None
        turbo_graph_invalidate_topology_id_def split: option.splits if_splits prod.splits)

lemma add_json_value_node_result:
  assumes "turbo_graph_add_json_value_node_ex a g name sem fn = (s, g', a')" and "graph_shape g"
  shows "if s = TURBO_GRAPH_EXEC_OK
         then \<exists>n f. name = Some n \<and> fn = Some f \<and> node_added g
           \<lparr>gn_name = n, gn_semantic_id = turbo_graph_effective_semantic_id sem n,
            gn_json_fn = None, gn_json_value_fn = Some f\<rparr> g'
         else only_grown g g'"
  by (rule reserve_nodesE [OF assms(2), of a], insert assms(1))
    (auto simp: turbo_graph_add_json_value_node_ex_def node_added_def Let_def find_node_index_None
        turbo_graph_invalidate_topology_id_def split: option.splits if_splits prod.splits)

lemma add_edge_result:
  assumes "turbo_graph_add_edge_ex a g from to sem p = (s, g', a')" and "graph_shape g"
  shows "if s = TURBO_GRAPH_EXEC_OK
         then \<exists>f t i j. from = Some f \<and> to = Some t \<and> turbo_graph_find_node_index g from = Some i \<and>
           turbo_graph_find_node_index g to = Some j \<and> edge_added g
           \<lparr>ge_from_index = i, ge_to_index = j,
            ge_semantic_id = turbo_graph_effective_semantic_id sem (turbo_graph_join_edge_semantic_id f t),
            ge_json_predicate = p, ge_json_value_predicate = None\<rparr> g'
         else only_grown g g'"
  by (rule reserve_edgesE [OF assms(2), of a], insert assms(1))
    (auto simp: turbo_graph_add_edge_ex_def edge_added_def Let_def find_node_index_Some
        turbo_graph_invalidate_topology_id_def split: option.splits if_splits prod.splits)

lemma add_json_value_edge_result:
  assumes "turbo_graph_add_json_value_edge_ex a g from to sem p = (s, g', a')" and "graph_shape g"
  shows "if s = TURBO_GRAPH_EXEC_OK
         then \<exists>f t i j. from = Some f \<and> to = Some t \<and> turbo_graph_find_node_index g from = Some i \<and>
           turbo_graph_find_node_index g to = Some j \<and> edge_added g
           \<lparr>ge_from_index = i, ge_to_index = j,
            ge_semantic_id = turbo_graph_effective_semantic_id sem (turbo_graph_join_edge_semantic_id f t),
            ge_json_predicate = None, ge_json_value_predicate = p\<rparr> g'
         else only_grown g g'"
  by (rule reserve_edgesE [OF assms(2), of a], insert assms(1))
    (auto simp: turbo_graph_add_json_value_edge_ex_def edge_added_def Let_def find_node_index_Some
        turbo_graph_invalidate_topology_id_def split: option.splits if_splits prod.splits)

lemma only_grown_inv: "only_grown g g' \<Longrightarrow> graph_inv J g \<Longrightarrow> graph_inv J g' \<and> graph_view g' = graph_view g"
proof -
  assume o: "only_grown g g'" and i: "graph_inv J g"
  from o have v: "graph_view g' = graph_view g" "g_node_capacity g \<le> g_node_capacity g'"
    "g_edge_capacity g \<le> g_edge_capacity g'" "g_topology_id g' = g_topology_id g"
    by (auto simp: only_grown_def graph_view_def)
  with i graph_shape_view [of g' g] topology_json_view [of g' g J] show ?thesis
    by (auto simp: graph_inv_def topology_cache_ok_def split: option.splits)
qed

lemma node_added_inv: "node_added g n g' \<Longrightarrow> graph_inv J g \<Longrightarrow> graph_inv J g'"
  by (auto simp: node_added_def graph_inv_def graph_shape_def graph_names_def topology_cache_ok_def
      split: option.splits intro: less_SucI)

lemma edge_added_inv: "edge_added g e g' \<Longrightarrow> graph_inv J g \<Longrightarrow> graph_inv J g'"
  by (auto simp: edge_added_def graph_inv_def graph_shape_def graph_names_def topology_cache_ok_def
      split: option.splits)

lemma set_entry_inv:
  "turbo_graph_set_entry a g name = (s, g', a') \<Longrightarrow> graph_inv J g \<Longrightarrow>
     graph_inv J g' \<and> (s \<noteq> TURBO_GRAPH_EXEC_OK \<longrightarrow> graph_view g' = graph_view g)"
  by (auto simp: turbo_graph_set_entry_def graph_inv_def graph_shape_def graph_names_def topology_cache_ok_def
      Let_def turbo_graph_invalidate_topology_id_def find_node_index_Some
      split: option.splits if_splits prod.splits)

lemma apply_graph_op_result:
  assumes "graph_inv J g" and "apply_graph_op J op a g = (s, g', a')"
  shows "graph_inv J g' \<and> (s \<noteq> TURBO_GRAPH_EXEC_OK \<longrightarrow> graph_view g' = graph_view g)"
proof -
  have sh: "graph_shape g" using assms(1) by (simp add: graph_inv_def)
  have grown: "only_grown g g' \<Longrightarrow> ?thesis" using only_grown_inv assms(1) by blast
  show ?thesis
  proof (cases op)
    case (Add_Node name sem fn)
    then show ?thesis using add_node_result [of a g name sem fn s g' a'] assms sh grown node_added_inv
      by (auto split: if_splits)
  next
    case (Add_Json_Value_Node name sem fn)
    then show ?thesis using add_json_value_node_result [of a g name sem fn s g' a'] assms sh grown node_added_inv
      by (auto split: if_splits)
  next
    case (Add_Edge f t sem p)
    then show ?thesis using add_edge_result [of a g f t sem p s g' a'] assms sh grown edge_added_inv
      by (auto split: if_splits)
  next
    case (Add_Json_Value_Edge f t sem p)
    then show ?thesis using add_json_value_edge_result [of a g f t sem p s g' a'] assms sh grown edge_added_inv
      by (auto split: if_splits)
  next
    case (Set_Entry name)
    then show ?thesis using set_entry_inv [of a g name s g' a' J] assms by auto
  next
    case Get_Topology_Id
    then obtain t where "turbo_graph_topology_id J a g = (t, g', a')" using assms(2) by (auto split: prod.splits)
    then show ?thesis using graph_inv_topology_id [OF assms(1)] by blast
  qed
qed

interpretation graph_builder: builder "apply_graph_op J" "graph_inv J" graph_view TURBO_GRAPH_EXEC_OK for J
  by unfold_locales (use apply_graph_op_result in blast)+

subsection \<open>Properties of graph construction\<close>

lemma graph_create_inv: "turbo_graph_create a name = (Some g, a') \<Longrightarrow> graph_inv J g"
  by (auto simp: turbo_graph_create_def graph_inv_def graph_shape_def graph_names_def topology_cache_ok_def Let_def
      split: option.splits if_splits prod.splits)

text \<open>C17. Whatever sequence of builder operations is applied to a new graph, with whatever failures of the
  allocations whose results the code tests (the JSON setters whose results it ignores while it builds a
  topology id are taken to succeed), the graph stays well formed: node names are distinct, edges join existing nodes, the entry is a
  node, each node has one kind of callback, the arrays have room, and a cached topology id is the id of the
  graph as it is now (every operation that changes the topology drops the stale one).\<close>

theorem graph_build_well_formed:
  assumes "turbo_graph_create a name = (Some g0, a0)"
    and "run_ops (apply_graph_op J) ops a0 g0 = (statuses, g, a1)"
  shows "graph_shape g \<and> topology_cache_ok J g"
  using graph_builder.run_inv [OF graph_create_inv [OF assms(1)] assms(2)] by (simp add: graph_inv_def)

text \<open>The operations of a small graph with two nodes, used by the witnesses.\<close>

definition demo_node :: "(jv, unit) node_fn" where
  "demo_node ctx w = (0, ctx, w)"

definition demo_ops :: "(jv, unit) graph_op list" where
  "demo_ops = [Add_Json_Value_Node (Some ''a'') None (Some demo_node),
     Add_Json_Value_Node (Some ''b'') None (Some demo_node), Get_Topology_Id,
     Add_Json_Value_Edge (Some ''a'') (Some ''b'') None None, Set_Entry (Some ''a'')]"

definition demo_new :: "(jv, unit) turbo_graph" where
  "demo_new = \<lparr>g_name = Some ''g'', g_entry_node = None, g_nodes = [], g_node_capacity = 0, g_edges = [],
     g_edge_capacity = 0, g_topology_id = None\<rparr>"

definition demo_graph :: "(jv, unit) turbo_graph" where
  "demo_graph = fst (snd (run_ops (apply_graph_op ref_json) demo_ops [] demo_new))"

lemma demo_create: "turbo_graph_create [] (Some ''g'') = (Some demo_new, [])"
  by (simp add: turbo_graph_create_def demo_new_def)

lemma demo_run: "run_ops (apply_graph_op ref_json) demo_ops [] demo_new =
    (fst (run_ops (apply_graph_op ref_json) demo_ops [] demo_new), demo_graph,
     snd (snd (run_ops (apply_graph_op ref_json) demo_ops [] demo_new)))"
  by (simp add: demo_graph_def)

lemma demo_statuses:
  "fst (run_ops (apply_graph_op ref_json) demo_ops [] demo_new) = replicate 5 TURBO_GRAPH_EXEC_OK"
  by code_simp

lemma graph_build_well_formed_witness: "graph_shape demo_graph \<and> topology_cache_ok ref_json demo_graph"
  using graph_build_well_formed [OF demo_create demo_run] .

text \<open>C18. A builder operation that does not return OK leaves the name, the entry, the nodes and the edges
  of the graph as they were, even when it failed half way through its allocations.\<close>

theorem graph_failed_op_changes_nothing:
  assumes "graph_shape g" and "topology_cache_ok J g"
    and "apply_graph_op J op a g = (status, g', a')" and "status \<noteq> TURBO_GRAPH_EXEC_OK"
  shows "graph_view g' = graph_view g"
  using graph_builder.apply_failed assms graph_inv_def by blast

lemma graph_failed_op_changes_nothing_witness:
  "graph_view (fst (snd (apply_graph_op ref_json (Add_Node (Some ''x'') None (Some demo_node)) [True, False] demo_new))) =
   graph_view demo_new"
  by (rule graph_failed_op_changes_nothing [of demo_new ref_json
        "Add_Node (Some ''x'') None (Some demo_node)" "[True, False]" TURBO_GRAPH_EXEC_OUT_OF_MEMORY _ "[]"])
    (simp_all add: demo_new_def graph_shape_def graph_names_def topology_cache_ok_def turbo_graph_add_node_ex_def
      turbo_graph_find_node_index_def turbo_graph_reserve_nodes_def)

end
