(* ===== verification/Graph_Topology.thy ===== *)
theory Graph_Topology
  imports Graph_Core
begin

section \<open>Topology ids and checkpoints\<close>

text \<open>
  What the topology id identifies, when a checkpoint is accepted for a graph, and that a serialized
  checkpoint reads back. The JSON library enters through its laws.
\<close>

subsection \<open>Consequences of the JSON laws\<close>

definition json_laws :: "('j, 'd) json_lib \<Rightarrow> bool" where
  "json_laws J \<longleftrightarrow> json_type_laws J \<and> json_object_laws J \<and> json_array_laws J \<and> json_member_laws J"

lemma ref_json_laws: "json_laws ref_json"
  by (simp add: json_laws_def ref_laws)

lemma json_obj:
  assumes "json_laws J"
  shows "jl_type J (jl_object J) = JSON_OBJECT" "jl_object_get J (jl_object J) k = None"
    "jl_type J obj = JSON_OBJECT \<Longrightarrow> jl_type J (jl_object_add J obj k v) = JSON_OBJECT"
    "jl_type J obj = JSON_OBJECT \<Longrightarrow>
       jl_object_get J (jl_object_add J obj k v) k' = (if k' = k then Some v else jl_object_get J obj k')"
    "jl_set_string J obj k s = jl_object_add J obj k (jl_string_of J s)"
    "jl_set_number J obj k d = jl_object_add J obj k (jl_number_of J d)"
    "jl_get_string J obj k = turbo_runtime_json_value_as_string J (jl_object_get J obj k)"
  using assms by (simp_all add: json_laws_def json_type_laws_def json_object_laws_def json_member_laws_def)

lemma json_str:
  assumes "json_laws J"
  shows "jl_type J (jl_string_of J s) = JSON_STRING" "jl_string J (jl_string_of J s) = s"
  using assms by (simp_all add: json_laws_def json_type_laws_def)

lemma json_small_number:
  assumes "json_laws J" and "\<bar>i\<bar> \<le> 2 ^ 53"
  shows "turbo_runtime_json_value_as_int64 J (Some (jl_number_of J (jl_double_of_int J i))) d = i"
  using assms by (simp add: json_laws_def json_type_laws_def json_member_laws_def
      turbo_runtime_json_value_as_int64_def)

text \<open>An array filled element by element holds these elements.\<close>

lemma json_arr_append:
  assumes "json_laws J" and "jl_type J arr = JSON_ARRAY"
  shows "jl_type J (foldl (jl_array_add J) arr xs) = JSON_ARRAY \<and>
    jl_array_size J (foldl (jl_array_add J) arr xs) = jl_array_size J arr + length xs \<and>
    jl_array_get J (foldl (jl_array_add J) arr xs) i =
      (if i < jl_array_size J arr then jl_array_get J arr i
       else if i < jl_array_size J arr + length xs then Some (xs ! (i - jl_array_size J arr)) else None)"
  using assms(2)
proof (induction xs arbitrary: arr)
  case Nil
  then show ?case using assms(1) by (auto simp: json_laws_def json_array_laws_def)
next
  case (Cons x xs)
  have "jl_type J (jl_array_add J arr x) = JSON_ARRAY"
    "jl_array_size J (jl_array_add J arr x) = Suc (jl_array_size J arr)"
    "jl_array_get J (jl_array_add J arr x) i = (if i = jl_array_size J arr then Some x else jl_array_get J arr i)"
    using Cons.prems assms(1) by (simp_all add: json_laws_def json_array_laws_def)
  with Cons.IH [of "jl_array_add J arr x"] show ?case
    by (auto simp: nth_Cons' less_Suc_eq)
qed

lemma json_arr:
  assumes "json_laws J"
  shows "jl_type J (foldl (jl_array_add J) (jl_array J) xs) = JSON_ARRAY"
    "jl_array_size J (foldl (jl_array_add J) (jl_array J) xs) = length xs"
    "jl_array_get J (foldl (jl_array_add J) (jl_array J) xs) i = (if i < length xs then Some (xs ! i) else None)"
proof -
  have "jl_type J (jl_array J) = JSON_ARRAY" "jl_array_size J (jl_array J) = 0"
    using assms by (simp_all add: json_laws_def json_type_laws_def json_array_laws_def)
  then show "jl_type J (foldl (jl_array_add J) (jl_array J) xs) = JSON_ARRAY"
    "jl_array_size J (foldl (jl_array_add J) (jl_array J) xs) = length xs"
    "jl_array_get J (foldl (jl_array_add J) (jl_array J) xs) i = (if i < length xs then Some (xs ! i) else None)"
    using json_arr_append [OF assms, of "jl_array J" xs i] by simp_all
qed

text \<open>Two values that parse to the same text are indistinguishable: \<open>same_text\<close>.\<close>

definition same_text :: "('j \<Rightarrow> 'j \<Rightarrow> bool) \<Rightarrow> 'j \<Rightarrow> 'j \<Rightarrow> bool" where
  "same_text E v v' \<longleftrightarrow> (\<exists>w. E v w \<and> E v' w)"

lemma serialize_same_text:
  "json_text_laws J E \<Longrightarrow> jl_serialize J v = jl_serialize J v' \<Longrightarrow> same_text E v v'"
  unfolding json_text_laws_def same_text_def by (metis option.inject)

lemma same_text_member:
  assumes "json_text_laws J E" and "same_text E v v'"
    and "jl_object_get J v k = Some x" and "jl_object_get J v' k = Some x'"
  shows "same_text E x x'"
proof -
  obtain w where w: "E v w" "E v' w" using assms(2) by (auto simp: same_text_def)
  then have "rel_option E (jl_object_get J v k) (jl_object_get J w k)"
    "rel_option E (jl_object_get J v' k) (jl_object_get J w k)"
    using assms(1) by (auto simp: json_text_laws_def)
  then show ?thesis using assms(3,4) by (auto simp: same_text_def option_rel_Some1)
qed

lemma same_text_element:
  assumes "json_text_laws J E" and "same_text E v v'"
    and "jl_array_get J v k = Some x" and "jl_array_get J v' k = Some x'"
  shows "same_text E x x'"
proof -
  obtain w where w: "E v w" "E v' w" using assms(2) by (auto simp: same_text_def)
  then have "rel_option E (jl_array_get J v k) (jl_array_get J w k)"
    "rel_option E (jl_array_get J v' k) (jl_array_get J w k)"
    using assms(1) by (auto simp: json_text_laws_def)
  then show ?thesis using assms(3,4) by (auto simp: same_text_def option_rel_Some1)
qed

lemma same_text_size:
  "json_text_laws J E \<Longrightarrow> same_text E v v' \<Longrightarrow> jl_array_size J v = jl_array_size J v'"
  unfolding json_text_laws_def same_text_def by metis

lemma same_text_string:
  assumes "json_laws J" and "json_text_laws J E" and "same_text E (jl_string_of J s) (jl_string_of J s')"
  shows "s = s'"
proof -
  obtain w where "E (jl_string_of J s) w" "E (jl_string_of J s') w" using assms(3) by (auto simp: same_text_def)
  then have "jl_string J w = jl_string J (jl_string_of J s)" "jl_string J w = jl_string J (jl_string_of J s')"
    using assms(2) json_str(1) [OF assms(1)] unfolding json_text_laws_def by blast+
  then show ?thesis using json_str(2) [OF assms(1)] by simp
qed

lemma same_text_arrays:
  assumes "json_laws J" and "json_text_laws J E"
    and "same_text E (foldl (jl_array_add J) (jl_array J) (map f xs)) (foldl (jl_array_add J) (jl_array J) (map f ys))"
    and "\<And>x y. same_text E (f x) (f y) \<Longrightarrow> key x = key y"
  shows "map key xs = map key ys"
proof (rule nth_equalityI)
  show len: "length (map key xs) = length (map key ys)"
    using same_text_size [OF assms(2,3)] by (simp add: json_arr [OF assms(1)])
  fix i assume "i < length (map key xs)"
  then have i: "i < length xs" "i < length ys" using len by auto
  then have "same_text E (f (xs ! i)) (f (ys ! i))"
    using same_text_element [OF assms(2,3), of i] by (simp add: json_arr [OF assms(1)])
  then show "map key xs ! i = map key ys ! i" using i assms(4) by simp
qed

subsection \<open>What the topology id identifies\<close>

text \<open>The identity of a node and of an edge, in the order in which the comparison callbacks look at it.\<close>

definition node_key :: "('j, 'u) turbo_graph_node_entry \<Rightarrow> string \<times> string \<times> string" where
  "node_key n = (gn_semantic_id n, gn_name n, turbo_graph_node_kind_text n)"

definition edge_key :: "turbo_graph_edge_topology_ref \<Rightarrow> string \<times> string \<times> string \<times> string" where
  "edge_key e = (er_semantic_id e, er_from e, er_to e, er_predicate_kind e)"

text \<open>Two graphs have the same topology: same name and entry, the same nodes and the same edges (by name,
  semantic id and kind), each as a multiset, so whatever the order in which they were added.\<close>

definition same_topology :: "('j, 'u) turbo_graph \<Rightarrow> ('j, 'u) turbo_graph \<Rightarrow> bool" where
  "same_topology g g' \<longleftrightarrow>
     (case g_name g of Some s \<Rightarrow> s | None \<Rightarrow> []) = (case g_name g' of Some s \<Rightarrow> s | None \<Rightarrow> []) \<and>
     (case g_entry_node g of Some s \<Rightarrow> s | None \<Rightarrow> []) = (case g_entry_node g' of Some s \<Rightarrow> s | None \<Rightarrow> []) \<and>
     mset (map node_key (g_nodes g)) = mset (map node_key (g_nodes g')) \<and>
     mset (map (edge_key \<circ> edge_topology_ref g) (g_edges g)) = mset (map (edge_key \<circ> edge_topology_ref g') (g_edges g'))"

lemma node_compare_key: "turbo_graph_node_ptr_compare x y \<le> 0 \<longleftrightarrow> node_key x \<le> node_key y"
  by (auto simp: turbo_graph_node_ptr_compare_def node_key_def Let_def less_eq_prod_def strcmp_def)

lemma edge_compare_key: "turbo_graph_edge_ptr_compare x y \<le> 0 \<longleftrightarrow> edge_key x \<le> edge_key y"
  by (auto simp: turbo_graph_edge_ptr_compare_def edge_key_def Let_def less_eq_prod_def strcmp_def)

lemma qsort_keys:
  assumes "\<And>a b. cmp a b \<le> 0 \<longleftrightarrow> key a \<le> (key b :: 'k::linorder)"
  shows "map key (qsort cmp xs) = sort (map key xs)"
proof -
  have "mset (map key (qsort cmp xs)) = mset (map key xs)" by simp
  then show ?thesis using qsort_key_sorted [of cmp key xs, OF assms] by (metis properties_for_sort)
qed

lemmas node_refs_keys = qsort_keys [of turbo_graph_node_ptr_compare node_key, OF node_compare_key]
lemmas edge_refs_keys = qsort_keys [of turbo_graph_edge_ptr_compare edge_key, OF edge_compare_key]

lemma node_json_key:
  "node_topology_json J n =
     (\<lambda>(sem, name, kind). jl_set_string J (jl_set_string J (jl_set_string J (jl_object J) ''name'' name)
       ''semantic_id'' sem) ''kind'' kind) (node_key n)"
  by (simp add: node_topology_json_def node_key_def)

lemma edge_json_key:
  "edge_topology_json J e =
     (\<lambda>(sem, from, to, kind). jl_set_string J (jl_set_string J (jl_set_string J (jl_set_string J (jl_object J)
       ''from'' from) ''to'' to) ''semantic_id'' sem) ''predicate_kind'' kind) (edge_key e)"
  by (simp add: edge_topology_json_def edge_key_def)

lemma map_node_json:
  "map (node_topology_json J) (qsort turbo_graph_node_ptr_compare ns) =
     map (\<lambda>(sem, name, kind). jl_set_string J (jl_set_string J (jl_set_string J (jl_object J) ''name'' name)
       ''semantic_id'' sem) ''kind'' kind) (sort (map node_key ns))"
  unfolding node_refs_keys [symmetric] by (simp add: node_json_key)

lemma map_edge_json:
  "map (edge_topology_json J) (qsort turbo_graph_edge_ptr_compare es) =
     map (\<lambda>(sem, from, to, kind). jl_set_string J (jl_set_string J (jl_set_string J (jl_set_string J (jl_object J)
       ''from'' from) ''to'' to) ''semantic_id'' sem) ''predicate_kind'' kind) (sort (map edge_key es))"
  unfolding edge_refs_keys [symmetric] by (simp add: edge_json_key)

lemma same_topology_json:
  assumes "same_topology g g'"
  shows "topology_json J g = topology_json J g'"
proof -
  have "sort (map node_key (g_nodes g)) = sort (map node_key (g_nodes g'))"
    "sort (map edge_key (map (edge_topology_ref g) (g_edges g))) =
     sort (map edge_key (map (edge_topology_ref g') (g_edges g')))"
    using assms by (simp_all add: same_topology_def properties_for_sort)
  then show ?thesis using assms unfolding topology_json_def Let_def map_node_json map_edge_json
    by (simp add: same_topology_def)
qed

lemma node_json_same_text:
  assumes "json_laws J" and "json_text_laws J E" and "same_text E (node_topology_json J x) (node_topology_json J y)"
  shows "node_key x = node_key y"
proof -
  note [simp] = node_topology_json_def json_obj [OF assms(1)]
  have "same_text E (jl_string_of J (gn_name x)) (jl_string_of J (gn_name y))"
    using same_text_member [OF assms(2,3), of "''name''"] by simp
  moreover have "same_text E (jl_string_of J (gn_semantic_id x)) (jl_string_of J (gn_semantic_id y))"
    using same_text_member [OF assms(2,3), of "''semantic_id''"] by simp
  moreover have "same_text E (jl_string_of J (turbo_graph_node_kind_text x))
      (jl_string_of J (turbo_graph_node_kind_text y))"
    using same_text_member [OF assms(2,3), of "''kind''"] by simp
  ultimately show ?thesis using same_text_string [OF assms(1,2)] by (simp add: node_key_def)
qed

lemma edge_json_same_text:
  assumes "json_laws J" and "json_text_laws J E" and "same_text E (edge_topology_json J x) (edge_topology_json J y)"
  shows "edge_key x = edge_key y"
proof -
  note [simp] = edge_topology_json_def json_obj [OF assms(1)]
  have "same_text E (jl_string_of J (er_from x)) (jl_string_of J (er_from y))"
    using same_text_member [OF assms(2,3), of "''from''"] by simp
  moreover have "same_text E (jl_string_of J (er_to x)) (jl_string_of J (er_to y))"
    using same_text_member [OF assms(2,3), of "''to''"] by simp
  moreover have "same_text E (jl_string_of J (er_semantic_id x)) (jl_string_of J (er_semantic_id y))"
    using same_text_member [OF assms(2,3), of "''semantic_id''"] by simp
  moreover have "same_text E (jl_string_of J (er_predicate_kind x)) (jl_string_of J (er_predicate_kind y))"
    using same_text_member [OF assms(2,3), of "''predicate_kind''"] by simp
  ultimately show ?thesis using same_text_string [OF assms(1,2)] by (simp add: edge_key_def)
qed

lemma topology_json_members:
  assumes "json_laws J"
  shows "jl_object_get J (topology_json J g) ''nodes'' =
      Some (foldl (jl_array_add J) (jl_array J)
        (map (node_topology_json J) (qsort turbo_graph_node_ptr_compare (g_nodes g))))"
    and "jl_object_get J (topology_json J g) ''edges'' =
      Some (foldl (jl_array_add J) (jl_array J) (map (edge_topology_json J)
        (qsort turbo_graph_edge_ptr_compare (map (edge_topology_ref g) (g_edges g)))))"
    and "jl_object_get J (topology_json J g) ''graph_name'' =
      Some (jl_string_of J (case g_name g of Some s \<Rightarrow> s | None \<Rightarrow> []))"
    and "jl_object_get J (topology_json J g) ''entry_node'' =
      Some (jl_string_of J (case g_entry_node g of Some s \<Rightarrow> s | None \<Rightarrow> []))"
  by (simp_all add: topology_json_def Let_def json_obj [OF assms])

lemma topology_same_text:
  assumes "json_laws J" and "json_text_laws J E" and s: "same_text E (topology_json J g) (topology_json J g')"
  shows "same_topology g g'"
proof -
  note m = same_text_member [OF assms(2) s]
  note t = topology_json_members [OF assms(1)]
  have "map node_key (qsort turbo_graph_node_ptr_compare (g_nodes g)) =
      map node_key (qsort turbo_graph_node_ptr_compare (g_nodes g'))"
    using same_text_arrays [OF assms(1,2) m [OF t(1) t(1)]] node_json_same_text [OF assms(1,2)] by blast
  then have n: "mset (map node_key (g_nodes g)) = mset (map node_key (g_nodes g'))"
    by (metis mset_map mset_qsort)
  have "map edge_key (qsort turbo_graph_edge_ptr_compare (map (edge_topology_ref g) (g_edges g))) =
      map edge_key (qsort turbo_graph_edge_ptr_compare (map (edge_topology_ref g') (g_edges g')))"
    using same_text_arrays [OF assms(1,2) m [OF t(2) t(2)]] edge_json_same_text [OF assms(1,2)] by blast
  then have "mset (map edge_key (map (edge_topology_ref g) (g_edges g))) =
      mset (map edge_key (map (edge_topology_ref g') (g_edges g')))"
    by (metis mset_map mset_qsort)
  with n same_text_string [OF assms(1,2) m [OF t(3) t(3)]] same_text_string [OF assms(1,2) m [OF t(4) t(4)]]
  show ?thesis by (simp add: same_topology_def)
qed

text \<open>C16. The topology id is a faithful fingerprint: when both ids can be computed, they are equal exactly
  when the graphs have the same name, entry, nodes and edges, in whatever order these were added. In
  particular building the same graph in another order gives the same id.\<close>

theorem topology_id_identifies:
  assumes "json_laws J" and "json_text_laws J E"
    and "topology_cache_ok J g" and "topology_cache_ok J g'"
    and "turbo_graph_topology_id J a g = (Some t, g1, a1)"
    and "turbo_graph_topology_id J a' g' = (Some t', g1', a1')"
  shows "t = t' \<longleftrightarrow> same_topology g g'"
proof -
  have t: "t = jl_serialize J (topology_json J g)" "t' = jl_serialize J (topology_json J g')"
    using topology_id_result(5) [OF assms(5,3)] topology_id_result(5) [OF assms(6,4)] by simp_all
  show ?thesis
    unfolding t using serialize_same_text [OF assms(2)] topology_same_text [OF assms(1,2)] same_topology_json
    by metis
qed

text \<open>The same two nodes and edge as in \<open>demo_graph\<close>, added in another order.\<close>

definition demo_reordered :: "(jv, unit) turbo_graph" where
  "demo_reordered = fst (snd (run_ops (apply_graph_op ref_json)
     [Add_Json_Value_Node (Some ''b'') None (Some demo_node), Add_Json_Value_Node (Some ''a'') None (Some demo_node),
      Set_Entry (Some ''a''), Add_Json_Value_Edge (Some ''a'') (Some ''b'') None None] [] demo_new))"

lemmas demo_eval = turbo_graph_add_json_value_node_ex_def turbo_graph_add_json_value_edge_ex_def
  turbo_graph_set_entry_def turbo_graph_find_node_index_def turbo_graph_reserve_nodes_def
  turbo_graph_reserve_edges_def turbo_graph_invalidate_topology_id_def turbo_graph_effective_semantic_id_def
  turbo_graph_join_edge_semantic_id_def upt_rec turbo_graph_topology_id_def turbo_graph_topology_id_build_def
  turbo_graph_topology_json_create_def

lemma demo_graph_eval:
  "demo_graph = \<lparr>g_name = Some ''g'', g_entry_node = Some ''a'',
     g_nodes = map (\<lambda>n. \<lparr>gn_name = n, gn_semantic_id = n, gn_json_fn = None, gn_json_value_fn = Some demo_node\<rparr>)
       [''a'', ''b''],
     g_node_capacity = 4,
     g_edges = [\<lparr>ge_from_index = 0, ge_to_index = 1, ge_semantic_id = ''a->b'', ge_json_predicate = None,
       ge_json_value_predicate = None\<rparr>],
     g_edge_capacity = 8, g_topology_id = None\<rparr>"
  by (simp add: demo_graph_def demo_ops_def demo_new_def demo_eval)

lemma demo_reordered_eval:
  "demo_reordered = \<lparr>g_name = Some ''g'', g_entry_node = Some ''a'',
     g_nodes = map (\<lambda>n. \<lparr>gn_name = n, gn_semantic_id = n, gn_json_fn = None, gn_json_value_fn = Some demo_node\<rparr>)
       [''b'', ''a''],
     g_node_capacity = 4,
     g_edges = [\<lparr>ge_from_index = 1, ge_to_index = 0, ge_semantic_id = ''a->b'', ge_json_predicate = None,
       ge_json_value_predicate = None\<rparr>],
     g_edge_capacity = 8, g_topology_id = None\<rparr>"
  by (simp add: demo_reordered_def demo_new_def demo_eval)

lemma demo_same_topology: "same_topology demo_graph demo_reordered"
  by (simp add: demo_graph_eval demo_reordered_eval same_topology_def node_key_def edge_key_def
      edge_topology_ref_def turbo_graph_edge_predicate_kind_text_def)

lemma topology_id_no_failure:
  "g_topology_id g = None \<Longrightarrow> turbo_graph_topology_id J [] g =
     (Some (jl_serialize J (topology_json J g)), g\<lparr>g_topology_id := Some (jl_serialize J (topology_json J g))\<rparr>, [])"
  by (simp add: turbo_graph_topology_id_def turbo_graph_topology_id_build_def turbo_graph_topology_json_create_def)

lemma topology_id_identifies_witness:
  "json_laws ref_json \<and> json_text_laws ref_json (=) \<and>
   jl_serialize ref_json (topology_json ref_json demo_graph) =
   jl_serialize ref_json (topology_json ref_json demo_reordered)"
proof -
  have ok: "topology_cache_ok ref_json demo_graph" "topology_cache_ok ref_json demo_reordered"
    by (simp_all add: demo_graph_eval demo_reordered_eval topology_cache_ok_def)
  show ?thesis
    using demo_same_topology topology_id_identifies [OF ref_json_laws ref_text_laws ok topology_id_no_failure topology_id_no_failure]
    by (simp add: ref_json_laws ref_text_laws demo_graph_eval demo_reordered_eval)
qed

lemma checkpoint_matches_iff:
  assumes "json_laws J" and "json_text_laws J E"
    and "graph_inv J g" and "graph_inv J g'"
    and "turbo_graph_checkpoint_set_topology J a cp g = (TURBO_GRAPH_EXEC_OK, cp', g1, a1)"
    and "turbo_graph_checkpoint_matches_graph J a' cp' g' = (TURBO_GRAPH_EXEC_OK, matches, g1', a1')"
  shows "(matches \<longleftrightarrow> same_topology g g') \<and> graph_view g1 = graph_view g \<and> graph_view g1' = graph_view g'"
proof -
  from assms(5) obtain t b where t: "turbo_graph_topology_id J a g = (Some t, g1, b)"
    and cp': "cp_topology_id cp' = Some t"
    by (auto simp: turbo_graph_checkpoint_set_topology_def Let_def split: prod.splits option.splits if_splits)
  from assms(6) cp' obtain t' where t': "turbo_graph_topology_id J a' g' = (Some t', g1', a1')"
    and m: "matches \<longleftrightarrow> t = t'"
    by (auto simp: turbo_graph_checkpoint_matches_graph_def split: prod.splits option.splits)
  have ok: "topology_cache_ok J g" "topology_cache_ok J g'" using assms(3,4) by (simp_all add: graph_inv_def)
  show ?thesis
    using topology_id_result(1) [OF t ok(1)] topology_id_result(1) [OF t' ok(2)] m t t' ok
      topology_id_result(5) [OF t ok(1)] topology_id_result(5) [OF t' ok(2)]
      serialize_same_text [OF assms(2)] topology_same_text [OF assms(1,2)] same_topology_json
    by (metis option.distinct(1) option.inject)
qed

text \<open>A checkpoint stamped with the topology of one graph is accepted for a graph exactly when that graph
  has the same topology; accepting or not, neither graph changes for its clients.\<close>

lemma checkpoint_matches_same_topology:
  assumes "json_laws J" and "json_text_laws J E"
    and "graph_inv J g" and "graph_inv J g'"
    and "turbo_graph_checkpoint_set_topology J a cp g = (TURBO_GRAPH_EXEC_OK, cp', g1, a1)"
    and "turbo_graph_checkpoint_matches_graph J a' cp' g' = (TURBO_GRAPH_EXEC_OK, matches, g1', a1')"
  shows "(matches \<longleftrightarrow> same_topology g g') \<and> graph_view g1 = graph_view g \<and> graph_view g1' = graph_view g'"
  by (rule checkpoint_matches_iff [OF assms])

definition demo_checkpoint :: "jv turbo_graph_checkpoint" where
  "demo_checkpoint = \<lparr>cp_next_node = ''b'', cp_steps = 1, cp_state = JObj [(''x'', JInt 7)], cp_topology_id = None\<rparr>"

lemma demo_graph_inv: "graph_inv ref_json demo_graph" "graph_inv ref_json demo_reordered"
  by (simp_all add: demo_graph_eval demo_reordered_eval graph_inv_def graph_shape_def graph_names_def
      topology_cache_ok_def)

lemma checkpoint_matches_same_topology_witness:
  "fst (snd (turbo_graph_checkpoint_matches_graph ref_json []
     (fst (snd (turbo_graph_checkpoint_set_topology ref_json [] demo_checkpoint demo_graph))) demo_reordered))"
proof -
  let ?t = "jl_serialize ref_json (topology_json ref_json demo_graph)"
  let ?t' = "jl_serialize ref_json (topology_json ref_json demo_reordered)"
  have s: "turbo_graph_checkpoint_set_topology ref_json [] demo_checkpoint demo_graph =
      (TURBO_GRAPH_EXEC_OK, demo_checkpoint\<lparr>cp_topology_id := Some ?t\<rparr>, demo_graph\<lparr>g_topology_id := Some ?t\<rparr>, [])"
    by (simp add: turbo_graph_checkpoint_set_topology_def topology_id_no_failure demo_graph_eval)
  have m: "turbo_graph_checkpoint_matches_graph ref_json [] (demo_checkpoint\<lparr>cp_topology_id := Some ?t\<rparr>) demo_reordered =
      (TURBO_GRAPH_EXEC_OK, ?t = ?t', demo_reordered\<lparr>g_topology_id := Some ?t'\<rparr>, [])"
    by (simp add: turbo_graph_checkpoint_matches_graph_def topology_id_no_failure demo_reordered_eval)
  have "?t = ?t'"
    using demo_same_topology checkpoint_matches_same_topology [OF ref_json_laws ref_text_laws demo_graph_inv s m] by blast
  then show ?thesis unfolding s snd_conv fst_conv m by simp
qed

subsection \<open>Checkpoint text\<close>

lemma checkpoint_create_result:
  assumes "turbo_graph_checkpoint_create J a (Some n) steps (Some v) = (s, r, a')"
  shows "(s = TURBO_GRAPH_EXEC_OK \<and> r = Some \<lparr>cp_next_node = n, cp_steps = steps, cp_state = v, cp_topology_id = None\<rparr>) \<or>
         (s = TURBO_GRAPH_EXEC_OUT_OF_MEMORY \<and> r = None \<and> a \<noteq> [])"
  using assms by (auto simp: turbo_graph_checkpoint_create_def turbo_graph_clone_json_def json_create_def Let_def
      split: prod.splits if_splits option.splits)

lemma checkpoint_json_members:
  assumes "json_laws J"
  shows "jl_object_get J (checkpoint_json J c) ''checkpoint_version'' =
      Some (jl_number_of J (jl_double_of_int J TURBO_GRAPH_CHECKPOINT_SCHEMA_VERSION))"
    and "jl_object_get J (checkpoint_json J c) ''next_node'' = Some (jl_string_of J (cp_next_node c))"
    and "jl_object_get J (checkpoint_json J c) ''steps'' =
      Some (jl_number_of J (jl_double_of_int J (uint (cp_steps c))))"
    and "jl_object_get J (checkpoint_json J c) ''topology_id'' =
      Some (jl_string_of J (case cp_topology_id c of Some t \<Rightarrow> t | None \<Rightarrow> []))"
    and "jl_object_get J (checkpoint_json J c) ''state'' = Some (cp_state c)"
  by (simp_all add: checkpoint_json_def Let_def json_obj [OF assms])

lemma text_member_value:
  assumes "json_text_laws J E" and "E v w" and "jl_object_get J v k = Some y"
  shows "\<exists>x. jl_object_get J w k = Some x \<and> E y x"
proof -
  have "rel_option E (jl_object_get J v k) (jl_object_get J w k)"
    using assms(1,2) by (simp add: json_text_laws_def)
  then show ?thesis using assms(3) by (simp add: option_rel_Some1)
qed

lemma text_equiv:
  assumes "json_text_laws J E" and "E v w"
  shows "jl_type J w = jl_type J v" "jl_type J v = JSON_STRING \<Longrightarrow> jl_string J w = jl_string J v"
    "turbo_runtime_json_value_as_int64 J (Some w) d = turbo_runtime_json_value_as_int64 J (Some v) d"
  using assms by (auto simp: json_text_laws_def)

lemma text_member_string:
  assumes "json_laws J" and "json_text_laws J E" and "E v w" and "jl_object_get J v k = Some (jl_string_of J s)"
  shows "jl_get_string J w k = Some s"
proof -
  obtain x where x: "jl_object_get J w k = Some x" "E (jl_string_of J s) x"
    using text_member_value [OF assms(2-4)] by blast
  then show ?thesis using text_equiv [OF assms(2) x(2)] json_str [OF assms(1)]
    by (simp add: json_obj(7) [OF assms(1)] turbo_runtime_json_value_as_string_def)
qed

lemma text_member_int:
  assumes "json_laws J" and "json_text_laws J E" and "E v w" and "\<bar>i\<bar> \<le> 2 ^ 53"
    and "jl_object_get J v k = Some (jl_number_of J (jl_double_of_int J i))"
  shows "\<exists>x. jl_object_get J w k = Some x \<and> turbo_runtime_json_value_as_int64 J (Some x) d = i"
proof -
  obtain x where x: "jl_object_get J w k = Some x" "E (jl_number_of J (jl_double_of_int J i)) x"
    using text_member_value [OF assms(2,3,5)] by blast
  then show ?thesis
    using text_equiv(3) [OF assms(2) x(2)] json_small_number [OF assms(1,4)] by simp
qed

text \<open>C26. A serialized checkpoint reads back: when it has fewer than 2 to the 53 steps and its topology id is not
  the empty string (and the JSON setters whose results the code ignores succeed), reading its text gives the same next node, step count and topology id and an equivalent state, or runs
  out of memory, which does not happen when every allocation succeeds.\<close>

theorem checkpoint_roundtrip:
  assumes "json_laws J" and "json_text_laws J E"
    and "turbo_graph_checkpoint_serialize J a cp = (Some json, a1)"
    and "uint (cp_steps cp) \<le> 9007199254740991" and "cp_topology_id cp \<noteq> Some []"
    and "turbo_graph_checkpoint_deserialize J a2 (Some json) = (status, result, a3)"
  shows "(status = TURBO_GRAPH_EXEC_OUT_OF_MEMORY \<and> result = None \<and> a2 \<noteq> []) \<or>
    (status = TURBO_GRAPH_EXEC_OK \<and>
     (\<exists>v. E (cp_state cp) v \<and> result = Some (cp\<lparr>cp_state := v\<rparr>)))"
proof -
  have json: "json = jl_serialize J (checkpoint_json J cp)"
    using assms(3) by (auto simp: turbo_graph_checkpoint_serialize_def Let_def
        split: prod.splits if_splits option.splits)
  obtain w where w: "jl_parse J json = Some w" "E (checkpoint_json J cp) w"
    using assms(2) unfolding json json_text_laws_def by blast
  note m = checkpoint_json_members [OF assms(1), of cp]
  note str = text_member_string [OF assms(1,2) w(2)]
  have steps: "\<bar>uint (cp_steps cp)\<bar> \<le> 2 ^ 53" using assms(4) by simp
  obtain vx where vx: "jl_object_get J w ''checkpoint_version'' = Some vx"
    "turbo_runtime_json_value_as_int64 J (Some vx) (- 1) = TURBO_GRAPH_CHECKPOINT_SCHEMA_VERSION"
    using text_member_int [OF assms(1,2) w(2) _ m(1)] by (auto simp: TURBO_GRAPH_CHECKPOINT_SCHEMA_VERSION_def)
  obtain sx where sx: "jl_object_get J w ''steps'' = Some sx"
    "turbo_runtime_json_value_as_int64 J (Some sx) (- 1) = uint (cp_steps cp)"
    using text_member_int [OF assms(1,2) w(2) steps m(3)] by blast
  obtain v where v: "jl_object_get J w ''state'' = Some v" "E (cp_state cp) v"
    using text_member_value [OF assms(2) w(2) m(5)] by blast
  obtain s r b where c: "turbo_graph_checkpoint_create J a2 (Some (cp_next_node cp)) (cp_steps cp) (Some v) = (s, r, b)"
    by (cases "turbo_graph_checkpoint_create J a2 (Some (cp_next_node cp)) (cp_steps cp) (Some v)") auto
  have a2: "a2 = [] \<Longrightarrow> b = []"
    using c by (auto simp: turbo_graph_checkpoint_create_def turbo_graph_clone_json_def json_create_def)
  show ?thesis
    using assms(4-6) checkpoint_create_result [OF c] v(2) a2
    by (auto simp: turbo_graph_checkpoint_deserialize_def w(1) vx sx v(1) str [OF m(2)] str [OF m(4)] c Let_def
        split: option.splits if_splits prod.splits)
qed

definition demo_stamped :: "jv turbo_graph_checkpoint" where
  "demo_stamped = demo_checkpoint\<lparr>cp_topology_id := Some ''t''\<rparr>"

lemma checkpoint_roundtrip_witness:
  "turbo_graph_checkpoint_deserialize ref_json [] (fst (turbo_graph_checkpoint_serialize ref_json [] demo_stamped)) =
     (TURBO_GRAPH_EXEC_OK, Some demo_stamped,
      snd (snd (turbo_graph_checkpoint_deserialize ref_json []
        (fst (turbo_graph_checkpoint_serialize ref_json [] demo_stamped)))))"
proof -
  let ?j = "jl_serialize ref_json (checkpoint_json ref_json demo_stamped)"
  have s: "turbo_graph_checkpoint_serialize ref_json [] demo_stamped = (Some ?j, [])"
    by (simp add: turbo_graph_checkpoint_serialize_def turbo_graph_clone_json_def json_create_def)
  obtain st r b where d: "turbo_graph_checkpoint_deserialize ref_json [] (Some ?j) = (st, r, b)"
    by (cases "turbo_graph_checkpoint_deserialize ref_json [] (Some ?j)") auto
  have "uint (cp_steps demo_stamped) \<le> 9007199254740991" "cp_topology_id demo_stamped \<noteq> Some []"
    by (simp_all add: demo_stamped_def demo_checkpoint_def)
  from checkpoint_roundtrip [OF ref_json_laws ref_text_laws s this d]
  have "st = TURBO_GRAPH_EXEC_OK" "r = Some demo_stamped" by auto
  then show ?thesis by (simp add: s d)
qed

text \<open>C27. Reading untrusted text: a checkpoint comes out exactly when the status is OK, and only from text that
  parses to schema version 3 with a next node, a state, a topology id and a step count between 0 and
  2 to the 53 less 1, which the checkpoint holds unchanged; a missing step count is read as 0, and an empty
  topology id as none.\<close>

theorem checkpoint_deserialize_checked:
  assumes "turbo_graph_checkpoint_deserialize J a json = (status, result, a')"
  shows "(status = TURBO_GRAPH_EXEC_OK \<longleftrightarrow> result \<noteq> None) \<and>
    (\<forall>cp. result = Some cp \<longrightarrow>
       (\<exists>str root. json = Some str \<and> jl_parse J str = Some root \<and>
          turbo_runtime_json_value_as_int64 J (jl_object_get J root ''checkpoint_version'') (- 1) = 3 \<and>
          jl_get_string J root ''next_node'' = Some (cp_next_node cp) \<and>
          jl_object_get J root ''state'' = Some (cp_state cp) \<and>
          jl_get_string J root ''topology_id'' = Some (case cp_topology_id cp of Some t \<Rightarrow> t | None \<Rightarrow> []) \<and>
          uint (cp_steps cp) = (case jl_object_get J root ''steps'' of None \<Rightarrow> 0
            | Some v \<Rightarrow> turbo_runtime_json_value_as_int64 J (Some v) (- 1)) \<and>
          uint (cp_steps cp) \<le> 9007199254740991))"
proof (cases "\<exists>str root. json = Some str \<and> jl_parse J str = Some root")
  case False
  then show ?thesis using assms
    by (auto simp: turbo_graph_checkpoint_deserialize_def split: option.splits)
next
  case True
  then obtain str root where j: "json = Some str" "jl_parse J str = Some root" by blast
  define steps where "steps = (case jl_object_get J root ''steps'' of None \<Rightarrow> 0
    | Some v \<Rightarrow> turbo_runtime_json_value_as_int64 J (Some v) (- 1))"
  have w: "0 \<le> steps \<Longrightarrow> steps \<le> 9007199254740991 \<Longrightarrow> uint (of_int steps :: size_t) = steps"
    by (simp add: uint_word_of_int_eq take_bit_int_eq_self)
  have st: "(if jl_object_get J root ''steps'' \<noteq> None
      then turbo_runtime_json_value_as_int64 J (jl_object_get J root ''steps'') (- 1) else 0) = steps"
    by (auto simp: steps_def split: option.splits)
  note def = turbo_graph_checkpoint_deserialize_def j option.case Let_def st
  show ?thesis
  proof (cases "turbo_runtime_json_value_as_int64 J (jl_object_get J root ''checkpoint_version'') (- 1) \<noteq>
      TURBO_GRAPH_CHECKPOINT_SCHEMA_VERSION \<or> jl_get_string J root ''next_node'' = None \<or>
      jl_object_get J root ''state'' = None \<or> jl_get_string J root ''topology_id'' = None \<or>
      steps < 0 \<or> steps > 9007199254740991")
    case True
    then have "status = TURBO_GRAPH_EXEC_ERROR \<and> result = None" using assms unfolding def by simp
    then show ?thesis by simp
  next
    case False
    then obtain n v tid where m: "jl_get_string J root ''next_node'' = Some n"
      "jl_object_get J root ''state'' = Some v" "jl_get_string J root ''topology_id'' = Some tid" by auto
    obtain s r b where c: "turbo_graph_checkpoint_create J a (Some n) (of_int steps) (Some v) = (s, r, b)"
      by (rule prod_cases3)
    have "(status = TURBO_GRAPH_EXEC_OK \<and> result = Some \<lparr>cp_next_node = n, cp_steps = of_int steps, cp_state = v,
            cp_topology_id = (if tid = [] then None else Some tid)\<rparr>) \<or>
          (status = TURBO_GRAPH_EXEC_OUT_OF_MEMORY \<and> result = None)"
      using assms False checkpoint_create_result [OF c] unfolding def
      by (auto simp: m c split: if_splits prod.splits)
    with False w show ?thesis
      by (auto simp: j m steps_def TURBO_GRAPH_CHECKPOINT_SCHEMA_VERSION_def)
  qed
qed

definition demo_json :: string where
  "demo_json = jl_serialize ref_json (checkpoint_json ref_json demo_stamped)"

lemma demo_json_read:
  "turbo_graph_checkpoint_deserialize ref_json [] (Some demo_json) = (TURBO_GRAPH_EXEC_OK, Some demo_stamped, [])"
  by code_simp

lemma checkpoint_deserialize_checked_witness:
  "\<exists>root. jl_parse ref_json demo_json = Some root \<and> jl_get_string ref_json root ''next_node'' = Some ''b'' \<and>
     turbo_runtime_json_value_as_int64 ref_json (jl_object_get ref_json root ''checkpoint_version'') (- 1) = 3"
  using checkpoint_deserialize_checked [OF demo_json_read] by (auto simp: demo_stamped_def demo_checkpoint_def)

end
