(* ===== verification/Graph_Run.thy ===== *)
theory Graph_Run
  imports Graph_Topology
begin

section \<open>Running a graph: runtime/src/turbo\_graph.c (execution)\<close>

text \<open>
  The two run loops of \<open>turbo_graph.c\<close>, over the state a node callback changes in place
  (\<open>turbo_graph_run_internal\<close>) and over a value the loop owns (\<open>turbo_graph_run_internal_json_value\<close>),
  with cancellation, checkpoints, trace events and interrupts, and the functions of the interface that call
  them. A pass of a loop is a step function; the loop is \<open>run_loop\<close> of it, \<open>None\<close> when it does not
  end. The graph is threaded through because emitting a checkpoint may compute the cached topology id.
\<close>

subsection \<open>Options, results, and the variables of the loops\<close>

record ('j, 'u) turbo_graph_run_options =
  ro_max_steps :: size_t
  ro_start_node :: cstr
  ro_interrupt_before_nodes :: "cstr list"
  ro_skip_initial_interrupt :: bool
  ro_checkpoint_cb :: "('j turbo_graph_checkpoint \<Rightarrow> 'u world \<Rightarrow> 'u world) option"

record turbo_graph_run_result =
  rr_status :: turbo_graph_exec_status_t
  rr_last_node :: cstr
  rr_next_node :: cstr
  rr_steps :: size_t

record ('j, 'u) run_state =
  rs_graph :: "('j, 'u) turbo_graph"
  rs_tree :: 'j
  rs_current :: string
  rs_last :: cstr
  rs_steps :: size_t
  rs_skip :: bool
  rs_world :: "'u world"

type_synonym ('j, 'u) run_out = "turbo_graph_run_result \<times> ('j, 'u) run_state"
type_synonym ('j, 'u) run_step = "('j, 'u) run_out + ('j, 'u) run_state"
type_synonym ('j, 'u) event_sink = "('j \<Rightarrow> 'u world \<Rightarrow> 'u world) option"

definition turbo_graph_result_init ::
    "turbo_graph_exec_status_t \<Rightarrow> cstr \<Rightarrow> cstr \<Rightarrow> size_t \<Rightarrow> turbo_graph_run_result" where
  "turbo_graph_result_init status last_node next_node steps =
     \<lparr>rr_status = status, rr_last_node = last_node, rr_next_node = next_node, rr_steps = steps\<rparr>"

text \<open>\<open>turbo_graph_result_init(...); return status;\<close>\<close>

definition run_return ::
    "turbo_graph_exec_status_t \<Rightarrow> cstr \<Rightarrow> ('j, 'u) run_state \<Rightarrow> ('j, 'u) run_step" where
  "run_return status next_node s = Inl (turbo_graph_result_init status (rs_last s) next_node (rs_steps s), s)"

definition options_max_steps :: "('j, 'u) turbo_graph_run_options option \<Rightarrow> size_t" where
  "options_max_steps options = (case options of None \<Rightarrow> 0 | Some o' \<Rightarrow> ro_max_steps o')"

definition turbo_graph_should_interrupt_before ::
    "('j, 'u) turbo_graph_run_options option \<Rightarrow> string \<Rightarrow> bool" where
  "turbo_graph_should_interrupt_before options node_name =
     (case options of None \<Rightarrow> False
      | Some o' \<Rightarrow> (\<exists>candidate \<in> set (ro_interrupt_before_nodes o').
                    case candidate of None \<Rightarrow> False | Some c \<Rightarrow> strcmp c node_name = 0))"

subsection \<open>Trace events, cancellation, checkpoints\<close>

definition turbo_event_set_string_field ::
    "('j, 'd) json_lib \<Rightarrow> alloc \<Rightarrow> 'j \<Rightarrow> string \<Rightarrow> cstr \<Rightarrow> bool \<times> 'j \<times> alloc" where
  "turbo_event_set_string_field J a object key value =
     (case json_create a (jl_string_of J (case value of Some s \<Rightarrow> s | None \<Rightarrow> [])) of
        (None, a) \<Rightarrow> (False, object, a)
      | (Some v, a) \<Rightarrow>
         (case turbo_runtime_json_object_set J a object (Some key) (Some v) of (status, object, a) \<Rightarrow>
            (status = TURBO_RUNTIME_JSON_OK, object, a)))"

definition turbo_event_trace_create_json_value ::
    "('j, 'd) json_lib \<Rightarrow> alloc \<Rightarrow> cstr \<Rightarrow> cstr \<Rightarrow> cstr \<Rightarrow> int \<Rightarrow> 'j option \<times> alloc" where
  "turbo_event_trace_create_json_value J a name detail payload status =
     (case json_create a (jl_object J) of
        (None, a) \<Rightarrow> (None, a)
      | (Some event, a) \<Rightarrow>
         (case json_create a (jl_int64_of J status) of
            (None, a) \<Rightarrow> (None, a)
          | (Some status_value, a) \<Rightarrow>
              set_fields
                [\<lambda>e a. turbo_event_set_string_field J a e ''kind'' (Some ''trace''),
                 \<lambda>e a. turbo_event_set_string_field J a e ''name'' name,
                 \<lambda>e a. turbo_event_set_string_field J a e ''detail'' detail,
                 \<lambda>e a. turbo_event_set_string_field J a e ''payload'' payload,
                 f_value J ''status'' status_value] event a))"

definition turbo_graph_emit_trace_event ::
    "('j, 'd) json_lib \<Rightarrow> ('j, 'u) event_sink \<Rightarrow> string \<Rightarrow> string \<Rightarrow> cstr \<Rightarrow> int \<Rightarrow> 'u world \<Rightarrow>
     turbo_graph_exec_status_t \<times> 'u world" where
  "turbo_graph_emit_trace_event J event_sink name detail payload status w =
     (case event_sink of None \<Rightarrow> (TURBO_GRAPH_EXEC_OK, w)
      | Some sink \<Rightarrow>
         (case turbo_event_trace_create_json_value J (ch_alloc w) (Some name) (Some detail) payload status of
            (None, a) \<Rightarrow> (TURBO_GRAPH_EXEC_OUT_OF_MEMORY, w\<lparr>ch_alloc := a\<rparr>)
          | (Some event, a) \<Rightarrow> (TURBO_GRAPH_EXEC_OK, sink event (w\<lparr>ch_alloc := a\<rparr>))))"

text \<open>The token is the argument \<open>cancel_token\<close>, \<open>None\<close> for \<open>NULL\<close>.\<close>

definition turbo_graph_cancel_status ::
    "nat option \<Rightarrow> 'u world \<Rightarrow> turbo_graph_exec_status_t \<times> 'u world" where
  "turbo_graph_cancel_status cancel_token w =
     (if cancel_token = None then (TURBO_GRAPH_EXEC_OK, w)
      else
        (case turbo_cancel_token_check w cancel_token of (status, w) \<Rightarrow>
           (if status = SALTS_OK then TURBO_GRAPH_EXEC_OK
            else if status = SALTS_ETIMEDOUT then TURBO_GRAPH_EXEC_DEADLINE
            else if status = SALTS_ECANCELED then TURBO_GRAPH_EXEC_CANCELLED
            else TURBO_GRAPH_EXEC_ERROR, w)))"

text \<open>Handing a checkpoint that was just created to the callback, or failing.\<close>

definition stamp_and_emit ::
    "('j, 'd) json_lib \<Rightarrow> ('j turbo_graph_checkpoint \<Rightarrow> 'u world \<Rightarrow> 'u world) \<Rightarrow>
     turbo_graph_exec_status_t \<times> 'j turbo_graph_checkpoint option \<times> alloc \<Rightarrow>
     ('j, 'u) turbo_graph \<Rightarrow> 'u world \<Rightarrow> turbo_graph_exec_status_t \<times> ('j, 'u) turbo_graph \<times> 'u world" where
  "stamp_and_emit J cb created graph w =
     (case created of
        (status, None, a) \<Rightarrow> (status, graph, w\<lparr>ch_alloc := a\<rparr>)
      | (_, Some checkpoint, a) \<Rightarrow>
         (case turbo_graph_checkpoint_set_topology J a checkpoint graph of
            (status, checkpoint, graph, a) \<Rightarrow>
              if status \<noteq> TURBO_GRAPH_EXEC_OK then (status, graph, w\<lparr>ch_alloc := a\<rparr>)
              else (TURBO_GRAPH_EXEC_OK, graph, cb checkpoint (w\<lparr>ch_alloc := a\<rparr>))))"

definition turbo_graph_emit_checkpoint_json ::
    "('j, 'd) json_lib \<Rightarrow> ('j, 'u) turbo_graph_run_options option \<Rightarrow> ('j, 'u) turbo_graph \<Rightarrow> string \<Rightarrow> size_t \<Rightarrow> 'j \<Rightarrow>
     'u world \<Rightarrow> turbo_graph_exec_status_t \<times> ('j, 'u) turbo_graph \<times> 'u world" where
  "turbo_graph_emit_checkpoint_json J options graph next_node steps state w =
     (case options of None \<Rightarrow> (TURBO_GRAPH_EXEC_OK, graph, w)
      | Some o' \<Rightarrow>
         (case ro_checkpoint_cb o' of None \<Rightarrow> (TURBO_GRAPH_EXEC_OK, graph, w)
          | Some cb \<Rightarrow>
              stamp_and_emit J cb
                (turbo_graph_checkpoint_create J (ch_alloc w) (Some next_node) steps (Some state)) graph w))"

definition turbo_graph_emit_checkpoint_json_value ::
    "('j, 'd) json_lib \<Rightarrow> ('j, 'u) turbo_graph_run_options option \<Rightarrow> ('j, 'u) turbo_graph \<Rightarrow> string \<Rightarrow> size_t \<Rightarrow> 'j \<Rightarrow>
     'u world \<Rightarrow> turbo_graph_exec_status_t \<times> ('j, 'u) turbo_graph \<times> 'u world" where
  "turbo_graph_emit_checkpoint_json_value J options graph next_node steps state w =
     (case options of None \<Rightarrow> (TURBO_GRAPH_EXEC_OK, graph, w)
      | Some o' \<Rightarrow>
         (case ro_checkpoint_cb o' of None \<Rightarrow> (TURBO_GRAPH_EXEC_OK, graph, w)
          | Some cb \<Rightarrow>
             (case turbo_graph_json_value_state_to_json J (ch_alloc w) (Some state) of
                (status, None, a) \<Rightarrow> (status, graph, w\<lparr>ch_alloc := a\<rparr>)
              | (_, Some json_state, a) \<Rightarrow>
                  stamp_and_emit J cb
                    (turbo_graph_checkpoint_create J a (Some next_node) steps (Some json_state)) graph w)))"

text \<open>An emission inside a loop: a failure ends the run with its status.\<close>

definition emit_or_fail ::
    "(('j, 'u) turbo_graph \<Rightarrow> string \<Rightarrow> size_t \<Rightarrow> 'j \<Rightarrow> 'u world \<Rightarrow>
      turbo_graph_exec_status_t \<times> ('j, 'u) turbo_graph \<times> 'u world) \<Rightarrow>
     string \<Rightarrow> ('j, 'u) run_state \<Rightarrow> (('j, 'u) run_state \<Rightarrow> ('j, 'u) run_step) \<Rightarrow> ('j, 'u) run_step" where
  "emit_or_fail emit next_node s k =
     (case emit (rs_graph s) next_node (rs_steps s) (rs_tree s) (rs_world s) of (status, graph, w) \<Rightarrow>
        let s = s\<lparr>rs_graph := graph, rs_world := w\<rparr>
        in if status \<noteq> TURBO_GRAPH_EXEC_OK then run_return status (Some next_node) s else k s)"

definition trace_or_fail ::
    "('j, 'd) json_lib \<Rightarrow> ('j, 'u) event_sink \<Rightarrow> string \<Rightarrow> string \<Rightarrow> cstr \<Rightarrow> int \<Rightarrow> cstr \<Rightarrow>
     ('j, 'u) run_state \<Rightarrow> (('j, 'u) run_state \<Rightarrow> ('j, 'u) run_step) \<Rightarrow> ('j, 'u) run_step" where
  "trace_or_fail J event_sink name detail payload code next_node s k =
     (case turbo_graph_emit_trace_event J event_sink name detail payload code (rs_world s) of (status, w) \<Rightarrow>
        let s = s\<lparr>rs_world := w\<rparr>
        in if status \<noteq> TURBO_GRAPH_EXEC_OK then run_return status next_node s else k s)"

subsection \<open>The loop over a state changed in place\<close>

text \<open>The search for the first outgoing edge that applies: \<open>Inl ()\<close> when a predicate fails, otherwise the
  resolved name and the number of outgoing edges looked at.\<close>

fun run_internal_route ::
    "('j, 'u) turbo_graph \<Rightarrow> nat \<Rightarrow> 'j turbo_graph_exec_ctx \<Rightarrow> ('j, 'u) turbo_graph_edge_entry list \<Rightarrow> nat \<Rightarrow>
     'u world \<Rightarrow> (unit + cstr \<times> nat) \<times> 'u world" where
  "run_internal_route graph current_index ctx [] outgoing_count w = (Inr (None, outgoing_count), w)"
| "run_internal_route graph current_index ctx (edge # edges) outgoing_count w =
     (if ge_from_index edge \<noteq> current_index then run_internal_route graph current_index ctx edges outgoing_count w
      else
        (let outgoing_count = outgoing_count + 1;
             target = gn_name (g_nodes graph ! ge_to_index edge)
         in (case ge_json_predicate edge of
               None \<Rightarrow> (Inr (Some target, outgoing_count), w)
             | Some predicate \<Rightarrow>
                (case predicate ctx w of (predicate_status, w) \<Rightarrow>
                   if predicate_status < 0 then (Inl (), w)
                   else if predicate_status > 0 then (Inr (Some target, outgoing_count), w)
                   else run_internal_route graph current_index ctx edges outgoing_count w))))"

text \<open>From the resolved next node to the end of the pass.\<close>

definition run_internal_advance ::
    "('j, 'd) json_lib \<Rightarrow> ('j, 'u) turbo_graph_run_options option \<Rightarrow> cstr \<Rightarrow> nat \<Rightarrow> ('j, 'u) run_state \<Rightarrow>
     ('j, 'u) run_step" where
  "run_internal_advance J options resolved_next outgoing_count s =
     (case resolved_next of
        None \<Rightarrow>
          if outgoing_count > 0 then run_return TURBO_GRAPH_EXEC_ROUTE_NOT_FOUND None s
          else run_return TURBO_GRAPH_EXEC_OK None s
      | Some n \<Rightarrow>
          if turbo_graph_should_interrupt_before options n
          then emit_or_fail (turbo_graph_emit_checkpoint_json J options) n s
                 (\<lambda>s. run_return TURBO_GRAPH_EXEC_INTERRUPTED (Some n) s)
          else emit_or_fail (turbo_graph_emit_checkpoint_json J options) n s
                 (\<lambda>s. Inr (s\<lparr>rs_current := n\<rparr>)))"

text \<open>After the node callback returned \<open>node_status\<close> and left \<open>ctx\<close>.\<close>

definition run_internal_after_node ::
    "('j, 'd) json_lib \<Rightarrow> ('j, 'u) turbo_graph_run_options option \<Rightarrow> nat \<Rightarrow> int \<Rightarrow> 'j turbo_graph_exec_ctx \<Rightarrow>
     ('j, 'u) run_state \<Rightarrow> ('j, 'u) run_step" where
  "run_internal_after_node J options current_index node_status ctx s =
     (if node_status < 0 then run_return TURBO_GRAPH_EXEC_ERROR None s
      else if cx_stop ctx \<or> node_status > 0 then
        (case cx_next_node ctx of
           None \<Rightarrow> run_return TURBO_GRAPH_EXEC_STOP None s
         | Some n \<Rightarrow>
            (case turbo_graph_find_node_index (rs_graph s) (Some n) of
               None \<Rightarrow> run_return TURBO_GRAPH_EXEC_NODE_NOT_FOUND (Some n) s
             | Some next_index \<Rightarrow>
                (let resolved_next = gn_name (g_nodes (rs_graph s) ! next_index)
                 in emit_or_fail (turbo_graph_emit_checkpoint_json J options) resolved_next s
                      (\<lambda>s. run_return TURBO_GRAPH_EXEC_INTERRUPTED (Some resolved_next) s))))
      else
        (case cx_next_node ctx of
           Some n \<Rightarrow>
             if turbo_graph_find_node_index (rs_graph s) (Some n) = None
             then run_return TURBO_GRAPH_EXEC_NODE_NOT_FOUND (Some n) s
             else run_internal_advance J options (Some n) 0 s
         | None \<Rightarrow>
            (case run_internal_route (rs_graph s) current_index ctx (g_edges (rs_graph s)) 0 (rs_world s) of
               (Inl _, w) \<Rightarrow> run_return TURBO_GRAPH_EXEC_ERROR None (s\<lparr>rs_world := w\<rparr>)
             | (Inr (resolved_next, outgoing_count), w) \<Rightarrow>
                 run_internal_advance J options resolved_next outgoing_count (s\<lparr>rs_world := w\<rparr>))))"

definition run_internal_step ::
    "('j, 'd) json_lib \<Rightarrow> ('j, 'u) turbo_graph_run_options option \<Rightarrow> ('j, 'u) run_state \<Rightarrow> ('j, 'u) run_step" where
  "run_internal_step J options s =
     (if options_max_steps options > 0 \<and> rs_steps s \<ge> options_max_steps options
      then run_return TURBO_GRAPH_EXEC_STEP_LIMIT (Some (rs_current s)) s
      else if \<not> rs_skip s \<and> turbo_graph_should_interrupt_before options (rs_current s)
      then emit_or_fail (turbo_graph_emit_checkpoint_json J options) (rs_current s) s
             (\<lambda>s. run_return TURBO_GRAPH_EXEC_INTERRUPTED (Some (rs_current s)) s)
      else
        (let s = s\<lparr>rs_skip := False\<rparr>
         in (case turbo_graph_find_node_index (rs_graph s) (Some (rs_current s)) of
               None \<Rightarrow> run_return TURBO_GRAPH_EXEC_NODE_NOT_FOUND (Some (rs_current s)) s
             | Some current_index \<Rightarrow>
                (let node = g_nodes (rs_graph s) ! current_index;
                     ctx = \<lparr>cx_tree = rs_tree s, cx_current_node = gn_name node, cx_next_node = None,
                            cx_step = rs_steps s, cx_stop = False\<rparr>
                 in (case gn_json_fn node of
                       None \<Rightarrow> run_return TURBO_GRAPH_EXEC_INVALID_ARGUMENT (Some (rs_current s)) s
                     | Some json_fn \<Rightarrow>
                        (case json_fn ctx (rs_world s) of (node_status, ctx, w) \<Rightarrow>
                           run_internal_after_node J options current_index node_status ctx
                             (s\<lparr>rs_tree := cx_tree ctx, rs_world := w, rs_steps := rs_steps s + 1,
                                rs_last := Some (gn_name node)\<rparr>)))))))"

text \<open>The values of the loop variables on entry.\<close>

definition run_start ::
    "('j, 'u) turbo_graph_run_options option \<Rightarrow> ('j, 'u) turbo_graph \<Rightarrow> 'j \<Rightarrow> string \<Rightarrow> size_t \<Rightarrow> 'u world \<Rightarrow>
     ('j, 'u) run_state" where
  "run_start options graph state start_node initial_steps w =
     \<lparr>rs_graph = graph, rs_tree = state, rs_current = start_node, rs_last = None, rs_steps = initial_steps,
      rs_skip = (case options of None \<Rightarrow> False | Some o' \<Rightarrow> ro_skip_initial_interrupt o'), rs_world = w\<rparr>"

text \<open>What a run leaves: its result, the state tree, the graph and the world.\<close>

type_synonym ('j, 'u) run_end = "turbo_graph_run_result \<times> 'j \<times> ('j, 'u) turbo_graph \<times> 'u world"

definition run_end_of :: "('j, 'u) run_out \<Rightarrow> ('j, 'u) run_end" where
  "run_end_of out = (case out of (result, s) \<Rightarrow> (result, rs_tree s, rs_graph s, rs_world s))"

definition turbo_graph_run_internal ::
    "('j, 'd) json_lib \<Rightarrow> ('j, 'u) turbo_graph \<Rightarrow> 'j \<Rightarrow> cstr \<Rightarrow> size_t \<Rightarrow> ('j, 'u) turbo_graph_run_options option \<Rightarrow>
     'u world \<Rightarrow> ('j, 'u) run_end option" where
  "turbo_graph_run_internal J graph state start_node initial_steps options w =
     (case start_node of
        None \<Rightarrow> Some (turbo_graph_result_init TURBO_GRAPH_EXEC_INVALID_ARGUMENT None None 0, state, graph, w)
      | Some n \<Rightarrow> map_option run_end_of
          (run_loop (run_internal_step J options) (run_start options graph state n initial_steps w)))"

subsection \<open>The loop over a value it owns\<close>

text \<open>The clone of what a \<open>json_fn\<close> left becomes the state.\<close>

definition json_value_take_update ::
    "int \<Rightarrow> 'j turbo_graph_exec_ctx \<Rightarrow> ('j, 'u) run_state \<Rightarrow>
     ('j, 'u) run_step + int \<times> 'j turbo_graph_exec_ctx \<times> ('j, 'u) run_state" where
  "json_value_take_update node_status ctx s =
     (case ch_draw (rs_world s) of (ok, w) \<Rightarrow>
        if \<not> ok
        then Inl (run_return TURBO_GRAPH_EXEC_OUT_OF_MEMORY (Some (rs_current s)) (s\<lparr>rs_world := w\<rparr>))
        else Inr (node_status, ctx, s\<lparr>rs_tree := cx_tree ctx, rs_world := w\<rparr>))"

text \<open>The call of the node callback. A \<open>json_fn\<close> node works on a clone of the state, which replaces the
  state when the callback returns; its next node is resolved at once. \<open>Inl\<close> ends the run.\<close>

definition json_value_call_node ::
    "('j, 'u) turbo_graph_node_entry \<Rightarrow> 'j turbo_graph_exec_ctx \<Rightarrow> ('j, 'u) run_state \<Rightarrow>
     ('j, 'u) run_step + int \<times> 'j turbo_graph_exec_ctx \<times> ('j, 'u) run_state" where
  "json_value_call_node node ctx s =
     (case gn_json_value_fn node of
        Some json_value_fn \<Rightarrow>
          (case json_value_fn ctx (rs_world s) of (node_status, ctx, w) \<Rightarrow>
             Inr (node_status, ctx, s\<lparr>rs_tree := cx_tree ctx, rs_world := w\<rparr>))
      | None \<Rightarrow>
         (case gn_json_fn node of
            None \<Rightarrow> Inl (run_return TURBO_GRAPH_EXEC_INVALID_ARGUMENT (Some (rs_current s)) s)
          | Some json_fn \<Rightarrow>
             (case ch_draw (rs_world s) of (ok, w) \<Rightarrow>
                if \<not> ok
                then Inl (run_return TURBO_GRAPH_EXEC_OUT_OF_MEMORY (Some (rs_current s)) (s\<lparr>rs_world := w\<rparr>))
                else
                  (case json_fn ctx w of (node_status, ctx, w) \<Rightarrow>
                     let s = s\<lparr>rs_world := w\<rparr>
                     in (case cx_next_node ctx of
                           None \<Rightarrow> json_value_take_update node_status ctx s
                         | Some n \<Rightarrow>
                            (case turbo_graph_find_node_index (rs_graph s) (Some n) of
                               None \<Rightarrow> Inl (run_return TURBO_GRAPH_EXEC_NODE_NOT_FOUND (Some n) s)
                             | Some next_index \<Rightarrow>
                                 json_value_take_update node_status
                                   (ctx\<lparr>cx_next_node := Some (gn_name (g_nodes (rs_graph s) ! next_index))\<rparr>) s))))))"

fun json_value_route ::
    "('j, 'u) turbo_graph \<Rightarrow> nat \<Rightarrow> 'j turbo_graph_exec_ctx \<Rightarrow> ('j, 'u) turbo_graph_edge_entry list \<Rightarrow> nat \<Rightarrow>
     'u world \<Rightarrow> (turbo_graph_exec_status_t + cstr \<times> nat) \<times> 'u world" where
  "json_value_route graph current_index ctx [] outgoing_count w = (Inr (None, outgoing_count), w)"
| "json_value_route graph current_index ctx (edge # edges) outgoing_count w =
     (if ge_from_index edge \<noteq> current_index then json_value_route graph current_index ctx edges outgoing_count w
      else
        (let outgoing_count = outgoing_count + 1;
             target = gn_name (g_nodes graph ! ge_to_index edge);
             decide = (\<lambda>(predicate_status :: int, w).
               if predicate_status < 0 then (Inl TURBO_GRAPH_EXEC_ERROR, w)
               else if predicate_status > 0 then (Inr (Some target, outgoing_count), w)
               else json_value_route graph current_index ctx edges outgoing_count w)
         in (case ge_json_value_predicate edge of
               Some predicate \<Rightarrow> decide (predicate ctx w)
             | None \<Rightarrow>
                (case ge_json_predicate edge of
                   None \<Rightarrow> (Inr (Some target, outgoing_count), w)
                 | Some predicate \<Rightarrow>
                    (case ch_draw w of (ok, w) \<Rightarrow>
                       if \<not> ok then (Inl TURBO_GRAPH_EXEC_OUT_OF_MEMORY, w) else decide (predicate ctx w))))))"

text \<open>From the resolved next node to the end of the pass: the route event, the checkpoint, the second look at
  the token, the interrupt.\<close>

definition json_value_advance ::
    "('j, 'd) json_lib \<Rightarrow> ('j, 'u) turbo_graph_run_options option \<Rightarrow> nat option \<Rightarrow> ('j, 'u) event_sink \<Rightarrow>
     cstr \<Rightarrow> nat \<Rightarrow> ('j, 'u) run_state \<Rightarrow> ('j, 'u) run_step" where
  "json_value_advance J options cancel_token event_sink resolved_next outgoing_count s =
     (case resolved_next of
        None \<Rightarrow>
          if outgoing_count > 0 then run_return TURBO_GRAPH_EXEC_ROUTE_NOT_FOUND None s
          else trace_or_fail J event_sink ''graph.route'' ''complete'' (rs_last s) 0 None s
                 (\<lambda>s. run_return TURBO_GRAPH_EXEC_OK None s)
      | Some n \<Rightarrow>
          trace_or_fail J event_sink ''graph.route'' ''next'' (Some n) 0 (Some n) s
            (\<lambda>s. emit_or_fail (turbo_graph_emit_checkpoint_json_value J options) n s
              (\<lambda>s. case turbo_graph_cancel_status cancel_token (rs_world s) of (status, w) \<Rightarrow>
                 let s = s\<lparr>rs_world := w\<rparr>
                 in if status \<noteq> TURBO_GRAPH_EXEC_OK then run_return status (Some n) s
                    else if turbo_graph_should_interrupt_before options n
                    then run_return TURBO_GRAPH_EXEC_INTERRUPTED (Some n) s
                    else Inr (s\<lparr>rs_current := n\<rparr>))))"

definition json_value_after_node ::
    "('j, 'd) json_lib \<Rightarrow> ('j, 'u) turbo_graph_run_options option \<Rightarrow> nat option \<Rightarrow> ('j, 'u) event_sink \<Rightarrow>
     nat \<Rightarrow> int \<Rightarrow> 'j turbo_graph_exec_ctx \<Rightarrow> ('j, 'u) run_state \<Rightarrow> ('j, 'u) run_step" where
  "json_value_after_node J options cancel_token event_sink current_index node_status ctx s =
     (if node_status < 0 then
        (case turbo_graph_emit_trace_event J event_sink ''graph.node'' ''error'' (rs_last s) node_status (rs_world s) of
           (_, w) \<Rightarrow> run_return TURBO_GRAPH_EXEC_ERROR None (s\<lparr>rs_world := w\<rparr>))
      else if cx_stop ctx \<or> node_status > 0 then
        trace_or_fail J event_sink ''graph.node'' ''stop'' (rs_last s) node_status None s
          (\<lambda>s. case cx_next_node ctx of
             None \<Rightarrow> run_return TURBO_GRAPH_EXEC_STOP None s
           | Some n \<Rightarrow>
              (case turbo_graph_find_node_index (rs_graph s) (Some n) of
                 None \<Rightarrow> run_return TURBO_GRAPH_EXEC_NODE_NOT_FOUND (Some n) s
               | Some next_index \<Rightarrow>
                  (let resolved_next = gn_name (g_nodes (rs_graph s) ! next_index)
                   in emit_or_fail (turbo_graph_emit_checkpoint_json_value J options) resolved_next s
                        (\<lambda>s. run_return TURBO_GRAPH_EXEC_INTERRUPTED (Some resolved_next) s))))
      else
        trace_or_fail J event_sink ''graph.node'' ''finish'' (rs_last s) 0 None s
          (\<lambda>s. case cx_next_node ctx of
             Some n \<Rightarrow>
               if turbo_graph_find_node_index (rs_graph s) (Some n) = None
               then run_return TURBO_GRAPH_EXEC_NODE_NOT_FOUND (Some n) s
               else json_value_advance J options cancel_token event_sink (Some n) 0 s
           | None \<Rightarrow>
              (case json_value_route (rs_graph s) current_index ctx (g_edges (rs_graph s)) 0 (rs_world s) of
                 (Inl status, w) \<Rightarrow> run_return status None (s\<lparr>rs_world := w\<rparr>)
               | (Inr (resolved_next, outgoing_count), w) \<Rightarrow>
                   json_value_advance J options cancel_token event_sink resolved_next outgoing_count
                     (s\<lparr>rs_world := w\<rparr>))))"

text \<open>The middle of a pass: find the node, announce it, call it.\<close>

definition json_value_run_node ::
    "('j, 'd) json_lib \<Rightarrow> ('j, 'u) turbo_graph_run_options option \<Rightarrow> nat option \<Rightarrow> ('j, 'u) event_sink \<Rightarrow>
     ('j, 'u) run_state \<Rightarrow> ('j, 'u) run_step" where
  "json_value_run_node J options cancel_token event_sink s =
     (case turbo_graph_find_node_index (rs_graph s) (Some (rs_current s)) of
        None \<Rightarrow> run_return TURBO_GRAPH_EXEC_NODE_NOT_FOUND (Some (rs_current s)) s
      | Some current_index \<Rightarrow>
         (let node = g_nodes (rs_graph s) ! current_index
          in trace_or_fail J event_sink ''graph.node'' ''start'' (Some (gn_name node)) 0 (Some (rs_current s)) s
               (\<lambda>s. case json_value_call_node node
                       \<lparr>cx_tree = rs_tree s, cx_current_node = gn_name node, cx_next_node = None,
                        cx_step = rs_steps s, cx_stop = False\<rparr> s of
                    Inl returned \<Rightarrow> returned
                  | Inr (node_status, ctx, s) \<Rightarrow>
                      json_value_after_node J options cancel_token event_sink current_index node_status ctx
                        (s\<lparr>rs_steps := rs_steps s + 1, rs_last := Some (gn_name node)\<rparr>))))"

definition run_internal_json_value_step ::
    "('j, 'd) json_lib \<Rightarrow> ('j, 'u) turbo_graph_run_options option \<Rightarrow> nat option \<Rightarrow> ('j, 'u) event_sink \<Rightarrow>
     ('j, 'u) run_state \<Rightarrow> ('j, 'u) run_step" where
  "run_internal_json_value_step J options cancel_token event_sink s =
     (case turbo_graph_cancel_status cancel_token (rs_world s) of (cancel_status, w) \<Rightarrow>
        let s = s\<lparr>rs_world := w\<rparr>
        in if cancel_status \<noteq> TURBO_GRAPH_EXEC_OK
           then emit_or_fail (turbo_graph_emit_checkpoint_json_value J options) (rs_current s) s
                  (\<lambda>s. run_return cancel_status (Some (rs_current s)) s)
           else if options_max_steps options > 0 \<and> rs_steps s \<ge> options_max_steps options
           then run_return TURBO_GRAPH_EXEC_STEP_LIMIT (Some (rs_current s)) s
           else if \<not> rs_skip s \<and> turbo_graph_should_interrupt_before options (rs_current s)
           then emit_or_fail (turbo_graph_emit_checkpoint_json_value J options) (rs_current s) s
                  (\<lambda>s. run_return TURBO_GRAPH_EXEC_INTERRUPTED (Some (rs_current s)) s)
           else json_value_run_node J options cancel_token event_sink (s\<lparr>rs_skip := False\<rparr>))"

definition turbo_graph_run_internal_json_value ::
    "('j, 'd) json_lib \<Rightarrow> ('j, 'u) turbo_graph \<Rightarrow> 'j \<Rightarrow> cstr \<Rightarrow> size_t \<Rightarrow> ('j, 'u) turbo_graph_run_options option \<Rightarrow>
     nat option \<Rightarrow> ('j, 'u) event_sink \<Rightarrow> 'u world \<Rightarrow> ('j, 'u) run_end option" where
  "turbo_graph_run_internal_json_value J graph state start_node initial_steps options cancel_token event_sink w =
     (case start_node of
        None \<Rightarrow> Some (turbo_graph_result_init TURBO_GRAPH_EXEC_INVALID_ARGUMENT None None 0, state, graph, w)
      | Some n \<Rightarrow> map_option run_end_of
          (run_loop (run_internal_json_value_step J options cancel_token event_sink)
            (run_start options graph state n initial_steps w)))"

subsection \<open>The interface\<close>

text \<open>What a call leaves: the returned status, \<open>*out_result\<close> and \<open>*out_state\<close> (\<open>None\<close> when not written,
  respectively \<open>NULL\<close>), the graph and the world.\<close>

record ('j, 'u) run_call =
  rc_status :: turbo_graph_exec_status_t
  rc_result :: "turbo_graph_run_result option"
  rc_state :: "'j option"
  rc_graph :: "('j, 'u) turbo_graph"
  rc_world :: "'u world"

definition options_start_node :: "('j, 'u) turbo_graph_run_options option \<Rightarrow> ('j, 'u) turbo_graph \<Rightarrow> cstr" where
  "options_start_node options graph =
     (case options of None \<Rightarrow> g_entry_node graph
      | Some o' \<Rightarrow> (case ro_start_node o' of Some n \<Rightarrow> Some n | None \<Rightarrow> g_entry_node graph))"

text \<open>The state is changed in place: \<open>rc_state\<close> is the tree that \<open>state\<close> points to afterwards.\<close>

definition turbo_graph_run ::
    "('j, 'd) json_lib \<Rightarrow> ('j, 'u) turbo_graph \<Rightarrow> 'j \<Rightarrow> ('j, 'u) turbo_graph_run_options option \<Rightarrow> 'u world \<Rightarrow>
     ('j, 'u) run_call option" where
  "turbo_graph_run J graph state options w =
     map_option (\<lambda>(result, state, graph, w).
         \<lparr>rc_status = rr_status result, rc_result = Some result, rc_state = Some state, rc_graph = graph, rc_world = w\<rparr>)
       (turbo_graph_run_internal J graph state (options_start_node options graph) 0 options w)"

text \<open>The statuses after which the caller gets the state.\<close>

definition keeps_state :: "turbo_graph_exec_status_t \<Rightarrow> bool" where
  "keeps_state status \<longleftrightarrow> \<not> (status \<noteq> TURBO_GRAPH_EXEC_OK \<and> status \<noteq> TURBO_GRAPH_EXEC_STOP \<and>
     status \<noteq> TURBO_GRAPH_EXEC_INTERRUPTED \<and> status \<noteq> TURBO_GRAPH_EXEC_CANCELLED \<and>
     status \<noteq> TURBO_GRAPH_EXEC_DEADLINE \<and> status \<noteq> TURBO_GRAPH_EXEC_ERROR)"

definition run_call_of :: "('j, 'u) run_end \<Rightarrow> ('j, 'u) run_call" where
  "run_call_of out = (case out of (result, state, graph, w) \<Rightarrow>
     \<lparr>rc_status = rr_status result, rc_result = Some result,
      rc_state = (if keeps_state (rr_status result) then Some state else None), rc_graph = graph, rc_world = w\<rparr>)"

definition turbo_graph_run_json_value_stream_controlled ::
    "('j, 'd) json_lib \<Rightarrow> ('j, 'u) turbo_graph \<Rightarrow> 'j option \<Rightarrow> ('j, 'u) turbo_graph_run_options option \<Rightarrow> nat option \<Rightarrow>
     ('j, 'u) event_sink \<Rightarrow> 'u world \<Rightarrow> ('j, 'u) run_call option" where
  "turbo_graph_run_json_value_stream_controlled J graph state options cancel_token event_sink w =
     (case turbo_graph_clone_json_value_state J (ch_alloc w) state of
        (status, None, a) \<Rightarrow>
          Some \<lparr>rc_status = status, rc_result = None, rc_state = None, rc_graph = graph, rc_world = w\<lparr>ch_alloc := a\<rparr>\<rparr>
      | (_, Some bound_state, a) \<Rightarrow>
          map_option run_call_of
            (turbo_graph_run_internal_json_value J graph bound_state (options_start_node options graph) 0 options
               cancel_token event_sink (w\<lparr>ch_alloc := a\<rparr>)))"

definition turbo_graph_run_json_value_stream ::
    "('j, 'd) json_lib \<Rightarrow> ('j, 'u) turbo_graph \<Rightarrow> 'j option \<Rightarrow> ('j, 'u) turbo_graph_run_options option \<Rightarrow>
     ('j, 'u) event_sink \<Rightarrow> 'u world \<Rightarrow> ('j, 'u) run_call option" where
  "turbo_graph_run_json_value_stream J graph state options event_sink w =
     turbo_graph_run_json_value_stream_controlled J graph state options None event_sink w"

definition turbo_graph_run_json_value ::
    "('j, 'd) json_lib \<Rightarrow> ('j, 'u) turbo_graph \<Rightarrow> 'j option \<Rightarrow> ('j, 'u) turbo_graph_run_options option \<Rightarrow>
     'u world \<Rightarrow> ('j, 'u) run_call option" where
  "turbo_graph_run_json_value J graph state options w =
     turbo_graph_run_json_value_stream J graph state options None w"

text \<open>The check in front of both checkpoint runs: \<open>Some\<close> the failed call.\<close>

definition checkpoint_refused ::
    "'j turbo_graph_checkpoint \<Rightarrow> turbo_graph_exec_status_t \<Rightarrow> bool \<Rightarrow> turbo_graph_run_result option" where
  "checkpoint_refused checkpoint status matches =
     (if status \<noteq> TURBO_GRAPH_EXEC_OK
      then Some (turbo_graph_result_init status None (Some (cp_next_node checkpoint)) (cp_steps checkpoint))
      else if \<not> matches
      then Some (turbo_graph_result_init TURBO_GRAPH_EXEC_CHECKPOINT_MISMATCH None (Some (cp_next_node checkpoint))
                   (cp_steps checkpoint))
      else None)"

definition turbo_graph_run_checkpoint ::
    "('j, 'd) json_lib \<Rightarrow> ('j, 'u) turbo_graph \<Rightarrow> 'j turbo_graph_checkpoint \<Rightarrow> ('j, 'u) turbo_graph_run_options option \<Rightarrow>
     'u world \<Rightarrow> ('j, 'u) run_call option" where
  "turbo_graph_run_checkpoint J graph checkpoint options w =
     (case turbo_graph_checkpoint_matches_graph J (ch_alloc w) checkpoint graph of (status, matches, graph, a) \<Rightarrow>
        let w = w\<lparr>ch_alloc := a\<rparr>
        in (case checkpoint_refused checkpoint status matches of
              Some result \<Rightarrow>
                Some \<lparr>rc_status = rr_status result, rc_result = Some result, rc_state = Some (cp_state checkpoint),
                      rc_graph = graph, rc_world = w\<rparr>
            | None \<Rightarrow>
                map_option (\<lambda>(result, state, graph, w).
                    \<lparr>rc_status = rr_status result, rc_result = Some result, rc_state = Some state, rc_graph = graph,
                     rc_world = w\<rparr>)
                  (turbo_graph_run_internal J graph (cp_state checkpoint) (Some (cp_next_node checkpoint))
                     (cp_steps checkpoint) options w)))"

definition turbo_graph_run_checkpoint_json_value_stream_controlled ::
    "('j, 'd) json_lib \<Rightarrow> ('j, 'u) turbo_graph \<Rightarrow> 'j turbo_graph_checkpoint \<Rightarrow> ('j, 'u) turbo_graph_run_options option \<Rightarrow>
     nat option \<Rightarrow> ('j, 'u) event_sink \<Rightarrow> 'u world \<Rightarrow> ('j, 'u) run_call option" where
  "turbo_graph_run_checkpoint_json_value_stream_controlled J graph checkpoint options cancel_token event_sink w =
     (case turbo_graph_checkpoint_matches_graph J (ch_alloc w) checkpoint graph of (status, matches, graph, a) \<Rightarrow>
        let w = w\<lparr>ch_alloc := a\<rparr>
        in (case checkpoint_refused checkpoint status matches of
              Some result \<Rightarrow>
                Some \<lparr>rc_status = rr_status result, rc_result = Some result, rc_state = None, rc_graph = graph,
                      rc_world = w\<rparr>
            | None \<Rightarrow>
               (case ch_draw w of (ok, w) \<Rightarrow>
                  if \<not> ok
                  then Some \<lparr>rc_status = TURBO_GRAPH_EXEC_OUT_OF_MEMORY,
                         rc_result = Some (turbo_graph_result_init TURBO_GRAPH_EXEC_OUT_OF_MEMORY None
                           (Some (cp_next_node checkpoint)) (cp_steps checkpoint)),
                         rc_state = None, rc_graph = graph, rc_world = w\<rparr>
                  else
                    map_option run_call_of
                      (turbo_graph_run_internal_json_value J graph (cp_state checkpoint)
                         (Some (cp_next_node checkpoint)) (cp_steps checkpoint) options cancel_token event_sink w))))"

definition turbo_graph_run_checkpoint_json_value_stream ::
    "('j, 'd) json_lib \<Rightarrow> ('j, 'u) turbo_graph \<Rightarrow> 'j turbo_graph_checkpoint \<Rightarrow> ('j, 'u) turbo_graph_run_options option \<Rightarrow>
     ('j, 'u) event_sink \<Rightarrow> 'u world \<Rightarrow> ('j, 'u) run_call option" where
  "turbo_graph_run_checkpoint_json_value_stream J graph checkpoint options event_sink w =
     turbo_graph_run_checkpoint_json_value_stream_controlled J graph checkpoint options None event_sink w"

definition turbo_graph_run_checkpoint_json_value ::
    "('j, 'd) json_lib \<Rightarrow> ('j, 'u) turbo_graph \<Rightarrow> 'j turbo_graph_checkpoint \<Rightarrow> ('j, 'u) turbo_graph_run_options option \<Rightarrow>
     'u world \<Rightarrow> ('j, 'u) run_call option" where
  "turbo_graph_run_checkpoint_json_value J graph checkpoint options w =
     turbo_graph_run_checkpoint_json_value_stream J graph checkpoint options None w"

end
