(* ===== verification/Graph_Exec.thy ===== *)
theory Graph_Exec
  imports Graph_Run
begin

section \<open>Properties of graph execution\<close>

text \<open>
  What the two run loops have in common is the contract \<open>graph_runner\<close>: a pass keeps the graph,
  counts one step when it goes on, and does not start beyond the step limit. Both loops interpret it, and
  termination under a step limit and the bound on the steps are proved once from it. The remaining properties
  are about routing, cancellation, checkpoints and the equivalence of an interrupted and resumed run with an
  uninterrupted one.
\<close>

subsection \<open>The contract of a run loop\<close>

definition graph_kept :: "('j, 'd) json_lib \<Rightarrow> ('j, 'u) turbo_graph \<Rightarrow> ('j, 'u) turbo_graph \<Rightarrow> bool" where
  "graph_kept J g g' \<longleftrightarrow> graph_inv J g' \<and> graph_view g' = graph_view g"

locale graph_runner =
  fixes J :: "('j, 'd) json_lib"
    and limit :: size_t
    and step :: "('j, 'u) run_state \<Rightarrow> ('j, 'u) run_step"
  assumes goes_on: "step s = Inr s' \<Longrightarrow> graph_inv J (rs_graph s) \<Longrightarrow>
      graph_kept J (rs_graph s) (rs_graph s') \<and> rs_steps s' = rs_steps s + 1 \<and> (0 < limit \<longrightarrow> rs_steps s < limit)"
    and returns: "step s = Inl (r, s') \<Longrightarrow> graph_inv J (rs_graph s) \<Longrightarrow>
      graph_kept J (rs_graph s) (rs_graph s') \<and> rr_steps r = rs_steps s' \<and>
      (rs_steps s' = rs_steps s \<or> (rs_steps s' = rs_steps s + 1 \<and> (0 < limit \<longrightarrow> rs_steps s < limit)))"
begin

lemma run_keeps_graph:
  assumes "run_loop step s = Some (r, s')" and "graph_inv J (rs_graph s)"
  shows "graph_kept J (rs_graph s) (rs_graph s') \<and> rr_steps r = rs_steps s'"
proof -
  let ?I = "\<lambda>x. graph_kept J (rs_graph s) (rs_graph x)"
  have "case (r, s') of (r, s') \<Rightarrow> graph_kept J (rs_graph s) (rs_graph s') \<and> rr_steps r = rs_steps s'"
  proof (rule run_loop_inv [OF assms(1), of ?I])
    show "?I s" using assms(2) by (simp add: graph_kept_def)
  next
    fix x x' assume "?I x" "step x = Inr x'"
    then show "?I x'" using goes_on [of x x'] by (simp add: graph_kept_def)
  next
    fix x y assume "?I x" "step x = Inl y"
    then show "case y of (r, s') \<Rightarrow> graph_kept J (rs_graph s) (rs_graph s') \<and> rr_steps r = rs_steps s'"
      using returns [of x "fst y" "snd y"] by (auto simp: graph_kept_def)
  qed
  then show ?thesis by simp
qed

lemma run_terminates:
  assumes "0 < limit" and "graph_inv J (rs_graph s)"
  shows "\<exists>out. run_loop step s = Some out"
proof (rule run_loop_terminates [where I = "\<lambda>x. graph_inv J (rs_graph x)" and
      m = "\<lambda>x. unat limit - unat (rs_steps x)"])
  fix x x' assume x: "graph_inv J (rs_graph x)" "step x = Inr x'"
  from goes_on [OF x(2,1)] assms(1) have "rs_steps x' = rs_steps x + 1" "rs_steps x < limit" by auto
  then have "unat (rs_steps x') = unat (rs_steps x) + 1" "unat (rs_steps x) < unat limit"
    using no_wrap by (auto simp: word_less_nat_alt)
  with goes_on [OF x(2,1)]
  show "graph_inv J (rs_graph x') \<and> unat limit - unat (rs_steps x') < unat limit - unat (rs_steps x)"
    by (auto simp: graph_kept_def)
qed (use assms in simp)

lemma run_bounded:
  assumes "run_loop step s = Some (r, s')" and "0 < limit" and "rs_steps s \<le> limit" and "graph_inv J (rs_graph s)"
  shows "rs_steps s \<le> rr_steps r \<and> rr_steps r \<le> limit"
proof -
  let ?I = "\<lambda>x. graph_inv J (rs_graph x) \<and> rs_steps s \<le> rs_steps x \<and> rs_steps x \<le> limit"
  have "case (r, s') of (r, s') \<Rightarrow> rs_steps s \<le> rr_steps r \<and> rr_steps r \<le> limit"
  proof (rule run_loop_inv [OF assms(1), of ?I])
    show "?I s" using assms by simp
  next
    fix x x' assume x: "?I x" "step x = Inr x'"
    then show "?I x'" using goes_on [of x x'] no_wrap [of "rs_steps x" limit] assms(2)
      by (auto simp: graph_kept_def)
  next
    fix x y assume "?I x" "step x = Inl y"
    then show "case y of (r, s') \<Rightarrow> rs_steps s \<le> rr_steps r \<and> rr_steps r \<le> limit"
      using returns [of x "fst y" "snd y"] no_wrap [of "rs_steps x" limit] assms(2) by auto
  qed
  then show ?thesis by simp
qed

end

subsection \<open>The loops satisfy the contract\<close>

text \<open>A pass that keeps the graph \<open>g\<close> and ends with \<open>n\<close> steps.\<close>

definition sound :: "('j, 'd) json_lib \<Rightarrow> ('j, 'u) turbo_graph \<Rightarrow> size_t \<Rightarrow> ('j, 'u) run_step \<Rightarrow> bool" where
  "sound J g n out \<longleftrightarrow>
     (case out of Inl (r, s') \<Rightarrow> graph_kept J g (rs_graph s') \<and> rr_steps r = rs_steps s' \<and> rs_steps s' = n
      | Inr s' \<Rightarrow> graph_kept J g (rs_graph s') \<and> rs_steps s' = n)"

definition sound_state :: "('j, 'd) json_lib \<Rightarrow> ('j, 'u) turbo_graph \<Rightarrow> size_t \<Rightarrow> ('j, 'u) run_state \<Rightarrow> bool" where
  "sound_state J g n s \<longleftrightarrow> graph_kept J g (rs_graph s) \<and> rs_steps s = n"

named_theorems sound_intros \<open>a construct of the loops is sound when its parts are\<close>

lemma run_return_sound [sound_intros]: "sound_state J g n s \<Longrightarrow> sound J g n (run_return status next s)"
  by (simp add: sound_def sound_state_def run_return_def turbo_graph_result_init_def)

lemma Inr_sound [sound_intros]: "sound_state J g n s \<Longrightarrow> sound J g n (Inr s)"
  by (simp add: sound_def sound_state_def)

lemma sound_state_frame [sound_intros]:
  "sound_state J g n s \<Longrightarrow> sound_state J g n (s\<lparr>rs_world := w\<rparr>)"
  "sound_state J g n s \<Longrightarrow> sound_state J g n (s\<lparr>rs_current := c\<rparr>)"
  "sound_state J g n s \<Longrightarrow> sound_state J g n (s\<lparr>rs_skip := b\<rparr>)"
  "sound_state J g n s \<Longrightarrow> sound_state J g n (s\<lparr>rs_tree := t, rs_world := w\<rparr>)"
  by (simp_all add: sound_state_def)

lemma set_topology_kept:
  assumes "turbo_graph_checkpoint_set_topology J a cp g = (status, cp', g', a')" and "graph_inv J g"
  shows "graph_kept J g g'"
proof -
  obtain t g1 a1 where t: "turbo_graph_topology_id J a g = (t, g1, a1)" by (rule prod_cases3)
  have "g' = g1" using assms(1) t
    by (auto simp: turbo_graph_checkpoint_set_topology_def Let_def split: option.splits prod.splits if_splits)
  then show ?thesis using graph_inv_topology_id [OF assms(2) t] by (simp add: graph_kept_def)
qed

lemma stamp_kept:
  assumes "stamp_and_emit J cb created g w = (status, g', w')" and "graph_inv J g"
  shows "graph_kept J g g'"
proof (cases created)
  case (fields st cp a)
  show ?thesis
  proof (cases cp)
    case None
    then show ?thesis using assms fields by (simp add: stamp_and_emit_def graph_kept_def)
  next
    case (Some c)
    obtain st1 c1 g1 a1 where t: "turbo_graph_checkpoint_set_topology J a c g = (st1, c1, g1, a1)"
      by (cases "turbo_graph_checkpoint_set_topology J a c g") auto
    then have "g' = g1" using assms(1) fields Some by (simp add: stamp_and_emit_def split: if_splits)
    then show ?thesis using set_topology_kept [OF t assms(2)] by simp
  qed
qed

lemma emit_checkpoint_kept:
  "turbo_graph_emit_checkpoint_json J options g n st v w = (status, g', w') \<Longrightarrow> graph_inv J g \<Longrightarrow> graph_kept J g g'"
  by (auto simp: turbo_graph_emit_checkpoint_json_def graph_kept_def split: option.splits
      dest: stamp_kept [unfolded graph_kept_def])

lemma emit_checkpoint_json_value_kept:
  "turbo_graph_emit_checkpoint_json_value J options g n st v w = (status, g', w') \<Longrightarrow> graph_inv J g \<Longrightarrow> graph_kept J g g'"
  by (auto simp: turbo_graph_emit_checkpoint_json_value_def graph_kept_def split: option.splits prod.splits
      dest: stamp_kept [unfolded graph_kept_def])

lemma emit_or_fail_sound:
  assumes "sound_state J g n s"
    and kept: "\<And>g st v w status g' w'. emit g next st v w = (status, g', w') \<Longrightarrow> graph_inv J g \<Longrightarrow> graph_kept J g g'"
    and "\<And>s'. sound_state J g n s' \<Longrightarrow> sound J g n (k s')"
  shows "sound J g n (emit_or_fail emit next s k)"
proof -
  obtain status g1 w1 where e: "emit (rs_graph s) next (rs_steps s) (rs_tree s) (rs_world s) = (status, g1, w1)"
    by (rule prod_cases3)
  have "sound_state J g n (s\<lparr>rs_graph := g1, rs_world := w1\<rparr>)"
    using kept [OF e] assms(1) by (simp add: sound_state_def graph_kept_def)
  then show ?thesis using assms(3) by (simp add: emit_or_fail_def e Let_def run_return_sound)
qed

lemma emit_json_sound [sound_intros]:
  "sound_state J g n s \<Longrightarrow> (\<And>s'. sound_state J g n s' \<Longrightarrow> sound J g n (k s')) \<Longrightarrow>
   sound J g n (emit_or_fail (turbo_graph_emit_checkpoint_json J options) next s k)"
  by (erule emit_or_fail_sound, erule (1) emit_checkpoint_kept) blast

lemma emit_json_value_sound [sound_intros]:
  "sound_state J g n s \<Longrightarrow> (\<And>s'. sound_state J g n s' \<Longrightarrow> sound J g n (k s')) \<Longrightarrow>
   sound J g n (emit_or_fail (turbo_graph_emit_checkpoint_json_value J options) next s k)"
  by (erule emit_or_fail_sound, erule (1) emit_checkpoint_json_value_kept) blast

lemma trace_or_fail_sound [sound_intros]:
  "sound_state J g n s \<Longrightarrow> (\<And>s'. sound_state J g n s' \<Longrightarrow> sound J g n (k s')) \<Longrightarrow>
   sound J g n (trace_or_fail J sink name detail payload code next s k)"
  by (auto simp: trace_or_fail_def Let_def split: prod.splits intro!: sound_intros)

lemma run_internal_advance_sound [sound_intros]:
  "sound_state J g n s \<Longrightarrow> sound J g n (run_internal_advance J options next c s)"
  by (auto simp: run_internal_advance_def split: option.splits intro!: sound_intros)

lemma run_internal_after_node_sound [sound_intros]:
  "sound_state J g n s \<Longrightarrow> sound J g n (run_internal_after_node J options i st ctx s)"
  by (auto simp: run_internal_after_node_def Let_def split: option.splits sum.splits prod.splits intro!: sound_intros)

lemma json_value_advance_sound [sound_intros]:
  "sound_state J g n s \<Longrightarrow> sound J g n (json_value_advance J options token sink next c s)"
  by (auto simp: json_value_advance_def Let_def split: option.splits prod.splits intro!: sound_intros)

lemma json_value_after_node_sound [sound_intros]:
  "sound_state J g n s \<Longrightarrow> sound J g n (json_value_after_node J options token sink i st ctx s)"
  by (auto simp: json_value_after_node_def Let_def split: option.splits sum.splits prod.splits intro!: sound_intros)

lemma run_start_sound: "graph_inv J (rs_graph s) \<Longrightarrow> sound_state J (rs_graph s) (rs_steps s) s"
  by (simp add: sound_state_def graph_kept_def)

text \<open>What one pass may do: return with the same count, or count one step below the limit.\<close>

definition pass_ok :: "('j, 'd) json_lib \<Rightarrow> size_t \<Rightarrow> ('j, 'u) run_state \<Rightarrow> ('j, 'u) run_step \<Rightarrow> bool" where
  "pass_ok J limit s out \<longleftrightarrow> (isl out \<and> sound J (rs_graph s) (rs_steps s) out) \<or>
     ((0 < limit \<longrightarrow> rs_steps s < limit) \<and> sound J (rs_graph s) (rs_steps s + 1) out)"

lemma sound_state_count:
  "sound_state J g n s \<Longrightarrow> sound_state J g (n + 1) (s\<lparr>rs_steps := n + 1, rs_last := l\<rparr>)"
  "sound_state J g n s \<Longrightarrow>
     sound_state J g (n + 1) (s\<lparr>rs_tree := t, rs_world := w, rs_steps := n + 1, rs_last := l\<rparr>)"
  by (simp_all add: sound_state_def)

lemma isl_run_return [simp]: "isl (run_return status next s)"
  by (simp add: run_return_def)

lemma isl_emit_or_fail: "(\<And>s. isl (k s)) \<Longrightarrow> isl (emit_or_fail emit next s k)"
  by (simp add: emit_or_fail_def Let_def split: prod.splits)

lemma isl_trace_or_fail: "(\<And>s. isl (k s)) \<Longrightarrow> isl (trace_or_fail J sink name detail payload code next s k)"
  by (simp add: trace_or_fail_def Let_def split: prod.splits)

lemma pass_ok_returns:
  "isl out \<Longrightarrow> sound J (rs_graph s) (rs_steps s) out \<Longrightarrow> pass_ok J limit s out"
  by (simp add: pass_ok_def)

lemma pass_ok_counts:
  "(0 < limit \<longrightarrow> rs_steps s < limit) \<Longrightarrow> sound J (rs_graph s) (rs_steps s + 1) out \<Longrightarrow> pass_ok J limit s out"
  by (simp add: pass_ok_def)

lemma run_internal_step_ok:
  assumes "graph_inv J (rs_graph s)"
  shows "pass_ok J (options_max_steps options) s (run_internal_step J options s)"
proof -
  note st = run_start_sound [OF assms]
  have ret: "pass_ok J (options_max_steps options) s (run_return status nx (s\<lparr>rs_skip := b\<rparr>))" for status nx b
    using st by (intro pass_ok_returns) (auto intro!: sound_intros)
  have ret': "pass_ok J (options_max_steps options) s (run_return status nx s)" for status nx
    using st by (intro pass_ok_returns) (auto intro!: sound_intros)
  have emit: "pass_ok J (options_max_steps options) s
      (emit_or_fail (turbo_graph_emit_checkpoint_json J options) c s (\<lambda>s. run_return status (Some (rs_current s)) s))"
    for status c
    using st by (intro pass_ok_returns isl_emit_or_fail) (auto intro!: sound_intros)
  have node: "pass_ok J (options_max_steps options) s (run_internal_after_node J options i node_status ctx
      (s\<lparr>rs_skip := b, rs_tree := t, rs_world := w, rs_steps := rs_steps s + 1, rs_last := l\<rparr>))"
    if "\<not> (0 < options_max_steps options \<and> options_max_steps options \<le> rs_steps s)" for i node_status ctx b t w l
    using st that by (intro pass_ok_counts) (auto intro!: sound_intros simp: sound_state_def)
  show ?thesis
    unfolding run_internal_step_def Let_def using ret ret' emit node
    by (auto split: option.split prod.split)
qed

lemma json_value_call_node_cases:
  assumes "json_value_call_node node ctx s = x" and "sound_state J g n s"
  shows "case x of Inl out \<Rightarrow> isl out \<and> sound J g n out | Inr (node_status, ctx, s') \<Rightarrow> sound_state J g n s'"
  using assms by (auto simp: json_value_call_node_def json_value_take_update_def Let_def
      split: option.splits prod.splits if_splits intro!: sound_intros)

lemma run_internal_json_value_step_ok:
  assumes "graph_inv J (rs_graph s)"
  shows "pass_ok J (options_max_steps options) s (run_internal_json_value_step J options token sink s)"
proof -
  note st = run_start_sound [OF assms]
  let ?L = "options_max_steps options"
  have node: "pass_ok J ?L s (json_value_run_node J options token sink (s\<lparr>rs_world := w, rs_skip := False\<rparr>))"
    if l: "\<not> (0 < ?L \<and> ?L \<le> rs_steps s)" for w
  proof (cases "turbo_graph_find_node_index (rs_graph s) (Some (rs_current s))")
    case None
    then show ?thesis using st by (auto simp: json_value_run_node_def intro!: pass_ok_returns sound_intros)
  next
    case (Some i)
    let ?node = "g_nodes (rs_graph s) ! i"
    obtain status w1 where t: "turbo_graph_emit_trace_event J sink ''graph.node'' ''start''
        (Some (gn_name ?node)) 0 w = (status, w1)" by force
    let ?s = "s\<lparr>rs_skip := False, rs_world := w1\<rparr>"
    have s: "sound_state J (rs_graph s) (rs_steps s) ?s" using st by (simp add: sound_state_def)
    define call where "call = json_value_call_node ?node
       \<lparr>cx_tree = rs_tree s, cx_current_node = gn_name ?node, cx_next_node = None,
        cx_step = rs_steps s, cx_stop = False\<rparr> ?s"
    have run: "json_value_run_node J options token sink (s\<lparr>rs_world := w, rs_skip := False\<rparr>) =
       (if status \<noteq> TURBO_GRAPH_EXEC_OK then run_return status (Some (rs_current s)) ?s
        else (case call of Inl returned \<Rightarrow> returned
              | Inr (node_status, ctx, s) \<Rightarrow> json_value_after_node J options token sink i node_status ctx
                  (s\<lparr>rs_steps := rs_steps s + 1, rs_last := Some (gn_name ?node)\<rparr>)))"
      by (simp add: json_value_run_node_def Some trace_or_fail_def t call_def Let_def)
    note c = json_value_call_node_cases [OF call_def [symmetric] s]
    consider (failed) "status \<noteq> TURBO_GRAPH_EXEC_OK" | (ended) out where "status = TURBO_GRAPH_EXEC_OK" "call = Inl out"
      | (returned) node_status ctx s' where "status = TURBO_GRAPH_EXEC_OK" "call = Inr (node_status, ctx, s')"
      by (cases call) auto
    then show ?thesis
    proof cases
      case failed
      then show ?thesis using s by (auto simp: run intro!: pass_ok_returns sound_intros)
    next
      case ended
      then show ?thesis using c by (auto simp: run intro!: pass_ok_returns)
    next
      case returned
      then have "sound_state J (rs_graph s) (rs_steps s + 1)
          (s'\<lparr>rs_steps := rs_steps s' + 1, rs_last := Some (gn_name ?node)\<rparr>)"
        using c by (simp add: sound_state_def)
      then show ?thesis using returned l by (auto simp: run intro!: pass_ok_counts sound_intros)
    qed
  qed
  show ?thesis
    unfolding run_internal_json_value_step_def Let_def using node st
    by (auto split: option.split prod.split intro!: pass_ok_returns isl_emit_or_fail sound_intros)
qed

lemma pass_ok_laws:
  assumes "\<And>s. graph_inv J (rs_graph s) \<Longrightarrow> pass_ok J limit s (step s)"
  shows "graph_runner J limit step"
proof
  fix s s' assume "step s = Inr s'" "graph_inv J (rs_graph s)"
  then show "graph_kept J (rs_graph s) (rs_graph s') \<and> rs_steps s' = rs_steps s + 1 \<and>
      (0 < limit \<longrightarrow> rs_steps s < limit)"
    using assms [of s] by (auto simp: pass_ok_def sound_def)
next
  fix s r s' assume "step s = Inl (r, s')" "graph_inv J (rs_graph s)"
  then show "graph_kept J (rs_graph s) (rs_graph s') \<and> rr_steps r = rs_steps s' \<and>
      (rs_steps s' = rs_steps s \<or> (rs_steps s' = rs_steps s + 1 \<and> (0 < limit \<longrightarrow> rs_steps s < limit)))"
    using assms [of s] by (auto simp: pass_ok_def sound_def)
qed

interpretation plain: graph_runner J "options_max_steps options" "run_internal_step J options" for J options
  by (rule pass_ok_laws, rule run_internal_step_ok)

interpretation owned: graph_runner J "options_max_steps options" "run_internal_json_value_step J options token sink"
  for J options token sink
  by (rule pass_ok_laws, rule run_internal_json_value_step_ok)

subsection \<open>A step limit makes every run return\<close>

lemma run_start_fields [simp]:
  "rs_graph (run_start options g v n k w) = g" "rs_steps (run_start options g v n k w) = k"
  "rs_tree (run_start options g v n k w) = v" "rs_world (run_start options g v n k w) = w"
  "rs_current (run_start options g v n k w) = n" "rs_last (run_start options g v n k w) = None"
  by (simp_all add: run_start_def)

lemma owned_internal_returns:
  assumes "graph_inv J g" and "0 < options_max_steps options" and "k \<le> options_max_steps options"
  shows "\<exists>result v' g' w'. turbo_graph_run_internal_json_value J g v start k options token sink w = Some (result, v', g', w') \<and>
    graph_kept J g g' \<and> rr_steps result \<le> options_max_steps options"
proof (cases start)
  case None
  then show ?thesis using assms
    by (simp add: turbo_graph_run_internal_json_value_def turbo_graph_result_init_def graph_kept_def)
next
  case (Some n)
  let ?s = "run_start options g v n k w"
  obtain r s' where out: "run_loop (run_internal_json_value_step J options token sink) ?s = Some (r, s')"
    using owned.run_terminates [of options J ?s token sink] assms by auto
  show ?thesis
    using owned.run_keeps_graph [OF out] owned.run_bounded [OF out] assms out Some
    by (simp add: turbo_graph_run_internal_json_value_def run_end_of_def)
qed

lemma plain_internal_returns:
  assumes "graph_inv J g" and "0 < options_max_steps options" and "k \<le> options_max_steps options"
  shows "\<exists>result v' g' w'. turbo_graph_run_internal J g v start k options w = Some (result, v', g', w') \<and>
    graph_kept J g g' \<and> rr_steps result \<le> options_max_steps options"
proof (cases start)
  case None
  then show ?thesis using assms
    by (simp add: turbo_graph_run_internal_def turbo_graph_result_init_def graph_kept_def)
next
  case (Some n)
  let ?s = "run_start options g v n k w"
  obtain r s' where out: "run_loop (run_internal_step J options) ?s = Some (r, s')"
    using plain.run_terminates [of options J ?s] assms by auto
  show ?thesis
    using plain.run_keeps_graph [OF out] plain.run_bounded [OF out] assms out Some
    by (simp add: turbo_graph_run_internal_def run_end_of_def)
qed

text \<open>C2. With a step limit every controlled run returns, whatever the callbacks, the predicates, the token and
  the allocator do; it reports at most that many steps, the graph is the same for its clients, and the result
  structure (unless the first clone of the state failed) agrees with the returned status.\<close>

theorem run_json_value_returns:
  assumes "graph_inv J g" and "0 < options_max_steps options"
  shows "\<exists>call. turbo_graph_run_json_value_stream_controlled J g state options token sink w = Some call \<and>
    graph_inv J (rc_graph call) \<and> graph_view (rc_graph call) = graph_view g \<and>
    (case rc_result call of
       None \<Rightarrow> rc_status call = TURBO_GRAPH_EXEC_OUT_OF_MEMORY \<and> rc_state call = None
     | Some result \<Rightarrow> rr_status result = rc_status call \<and> rr_steps result \<le> options_max_steps options)"
proof -
  obtain st bs a where c: "turbo_graph_clone_json_value_state J (ch_alloc w) state = (st, bs, a)" by (rule prod_cases3)
  have oom: "bs = None \<Longrightarrow> st = TURBO_GRAPH_EXEC_OUT_OF_MEMORY"
    using c by (auto simp: turbo_graph_clone_json_value_state_def json_create_def Let_def split: prod.splits if_splits)
  show ?thesis
  proof (cases bs)
    case None
    then show ?thesis using assms(1) oom
      by (simp add: turbo_graph_run_json_value_stream_controlled_def c)
  next
    case (Some v)
    obtain r v' g' w' where run: "turbo_graph_run_internal_json_value J g v (options_start_node options g) 0 options
        token sink (w\<lparr>ch_alloc := a\<rparr>) = Some (r, v', g', w')" "graph_kept J g g'"
        "rr_steps r \<le> options_max_steps options"
      using owned_internal_returns [OF assms, of 0 v "options_start_node options g" token sink "w\<lparr>ch_alloc := a\<rparr>"]
      by auto
    then show ?thesis using Some
      by (simp add: turbo_graph_run_json_value_stream_controlled_def c run_call_of_def graph_kept_def)
  qed
qed

text \<open>The same for the run that changes the state in place.\<close>

lemma run_returns:
  assumes "graph_inv J g" and "0 < options_max_steps options"
  shows "\<exists>call result. turbo_graph_run J g state options w = Some call \<and> rc_result call = Some result \<and>
    rr_status result = rc_status call \<and> rr_steps result \<le> options_max_steps options \<and>
    graph_inv J (rc_graph call) \<and> graph_view (rc_graph call) = graph_view g"
proof -
  obtain r v' g' w' where "turbo_graph_run_internal J g state (options_start_node options g) 0 options w =
      Some (r, v', g', w')" "graph_kept J g g'" "rr_steps r \<le> options_max_steps options"
    using plain_internal_returns [OF assms, of 0 state "options_start_node options g" w] by auto
  then show ?thesis by (simp add: turbo_graph_run_def graph_kept_def)
qed

text \<open>A graph whose only node loops back to itself, run with a limit of three steps.\<close>

definition loop_ops :: "(jv, unit) graph_op list" where
  "loop_ops = [Add_Json_Value_Node (Some ''a'') None (Some demo_node),
     Add_Json_Value_Edge (Some ''a'') (Some ''a'') None None, Set_Entry (Some ''a'')]"

definition loop_graph :: "(jv, unit) turbo_graph" where
  "loop_graph = fst (snd (run_ops (apply_graph_op ref_json) loop_ops [] demo_new))"

definition three_steps :: "(jv, unit) turbo_graph_run_options option" where
  "three_steps = Some \<lparr>ro_max_steps = 3, ro_start_node = None, ro_interrupt_before_nodes = [],
     ro_skip_initial_interrupt = False, ro_checkpoint_cb = None\<rparr>"

definition quiet_world :: "unit world" where
  "quiet_world = \<lparr>ch_alloc = [], ch_states = Map.empty, ch_sources = Map.empty, ch_tokens = Map.empty, ch_next = 1,
     ch_sys_clock = [], ch_user_clock = [], \<dots> = ()\<rparr>"

lemma loop_graph_eval:
  "loop_graph = \<lparr>g_name = Some ''g'', g_entry_node = Some ''a'',
     g_nodes = [\<lparr>gn_name = ''a'', gn_semantic_id = ''a'', gn_json_fn = None, gn_json_value_fn = Some demo_node\<rparr>],
     g_node_capacity = 4,
     g_edges = [\<lparr>ge_from_index = 0, ge_to_index = 0, ge_semantic_id = ''a->a'', ge_json_predicate = None,
       ge_json_value_predicate = None\<rparr>],
     g_edge_capacity = 8, g_topology_id = None\<rparr>"
  by (simp add: loop_graph_def loop_ops_def demo_new_def demo_eval)

lemma loop_graph_inv: "graph_inv ref_json loop_graph"
  by (simp add: loop_graph_eval graph_inv_def graph_shape_def graph_names_def topology_cache_ok_def)

lemma run_json_value_returns_witness:
  "\<exists>call. turbo_graph_run_json_value_stream_controlled ref_json loop_graph (Some JNull) three_steps None None quiet_world =
     Some call"
  using run_json_value_returns [OF loop_graph_inv, of three_steps "Some JNull" None None quiet_world]
  by (auto simp: options_max_steps_def three_steps_def)

lemma run_returns_witness:
  "\<exists>call. turbo_graph_run ref_json loop_graph JNull three_steps quiet_world = Some call"
  using run_returns [OF loop_graph_inv, of three_steps JNull quiet_world]
  by (auto simp: options_max_steps_def three_steps_def)

subsection \<open>Routing\<close>

text \<open>What one outgoing edge says: a failure, take it (no predicate, or one that returns a positive number), or
  go on.\<close>

definition verdict_of :: "int \<times> 'u world \<Rightarrow> (turbo_graph_exec_status_t + bool) \<times> 'u world" where
  "verdict_of p = (if fst p < 0 then Inl TURBO_GRAPH_EXEC_ERROR else Inr (0 < fst p), snd p)"

definition edge_verdict :: "'j turbo_graph_exec_ctx \<Rightarrow> ('j, 'u) turbo_graph_edge_entry \<Rightarrow> 'u world \<Rightarrow>
    (turbo_graph_exec_status_t + bool) \<times> 'u world" where
  "edge_verdict ctx e w =
     (case ge_json_value_predicate e of
        Some p \<Rightarrow> verdict_of (p ctx w)
      | None \<Rightarrow>
         (case ge_json_predicate e of
            None \<Rightarrow> (Inr True, w)
          | Some p \<Rightarrow> (case ch_draw w of (ok, w) \<Rightarrow>
              if ok then verdict_of (p ctx w) else (Inl TURBO_GRAPH_EXEC_OUT_OF_MEMORY, w))))"

text \<open>Every outgoing edge among these was asked, in order, and said to go on.\<close>

fun passed_over :: "nat \<Rightarrow> 'j turbo_graph_exec_ctx \<Rightarrow> ('j, 'u) turbo_graph_edge_entry list \<Rightarrow> 'u world \<Rightarrow>
    'u world \<Rightarrow> bool" where
  "passed_over i ctx [] w w' \<longleftrightarrow> w' = w"
| "passed_over i ctx (e # es) w w' \<longleftrightarrow>
     (if ge_from_index e \<noteq> i then passed_over i ctx es w w'
      else fst (edge_verdict ctx e w) = Inr False \<and> passed_over i ctx es (snd (edge_verdict ctx e w)) w')"

lemma route_edge:
  "ge_from_index e = i \<Longrightarrow> json_value_route g i ctx (e # es) c w =
     (case edge_verdict ctx e w of
        (Inl status, w) \<Rightarrow> (Inl status, w)
      | (Inr True, w) \<Rightarrow> (Inr (Some (gn_name (g_nodes g ! ge_to_index e)), c + 1), w)
      | (Inr False, w) \<Rightarrow> json_value_route g i ctx es (c + 1) w)"
  by (auto simp: edge_verdict_def verdict_of_def Let_def split: option.splits prod.splits)

declare json_value_route.simps(2) [simp del]

lemma route_other_edge:
  "ge_from_index e \<noteq> i \<Longrightarrow> json_value_route g i ctx (e # es) c w = json_value_route g i ctx es c w"
  by (simp add: json_value_route.simps(2))

text \<open>The answer of the search, by what it returns.\<close>

definition route_spec :: "('j, 'u) turbo_graph \<Rightarrow> nat \<Rightarrow> 'j turbo_graph_exec_ctx \<Rightarrow>
    ('j, 'u) turbo_graph_edge_entry list \<Rightarrow> nat \<Rightarrow> 'u world \<Rightarrow>
    (turbo_graph_exec_status_t + cstr \<times> nat) \<times> 'u world \<Rightarrow> bool" where
  "route_spec g i ctx es c w answer \<longleftrightarrow>
     (case answer of
        (Inr (None, c'), w') \<Rightarrow> passed_over i ctx es w w' \<and> c' = c + length (filter (\<lambda>e. ge_from_index e = i) es)
      | (Inr (Some n, c'), w') \<Rightarrow>
          (\<exists>pre e post w1. es = pre @ e # post \<and> passed_over i ctx pre w w1 \<and> ge_from_index e = i \<and>
             edge_verdict ctx e w1 = (Inr True, w') \<and> n = gn_name (g_nodes g ! ge_to_index e))
      | (Inl status, w') \<Rightarrow>
          (\<exists>pre e post w1. es = pre @ e # post \<and> passed_over i ctx pre w w1 \<and> ge_from_index e = i \<and>
             edge_verdict ctx e w1 = (Inl status, w')))"

lemma route_spec_Cons:
  assumes "route_spec g i ctx es c1 w1 answer"
    and "if ge_from_index e = i then edge_verdict ctx e w = (Inr False, w1) \<and> c1 = c + 1 else w1 = w \<and> c1 = c"
  shows "route_spec g i ctx (e # es) c w answer"
proof -
  have over: "passed_over i ctx (e # pre) w w2" if "passed_over i ctx pre w1 w2" for pre w2
    using assms(2) that by (auto split: if_splits)
  consider (none) c' w' where "answer = (Inr (None, c'), w')" | (some) n c' w' where "answer = (Inr (Some n, c'), w')"
    | (failed) st w' where "answer = (Inl st, w')"
    by (metis not_None_eq old.sum.exhaust surj_pair)
  then show ?thesis
  proof cases
    case none
    then show ?thesis using assms over by (auto simp: route_spec_def split: if_splits)
  next
    case some
    then obtain pre f post w2 where f: "es = pre @ f # post" "passed_over i ctx pre w1 w2" "ge_from_index f = i"
      "edge_verdict ctx f w2 = (Inr True, w')" "n = gn_name (g_nodes g ! ge_to_index f)"
      using assms(1) by (auto simp: route_spec_def)
    have "e # es = (e # pre) @ f # post" using f by simp
    then show ?thesis using over [OF f(2)] f(3-5) unfolding route_spec_def some prod.case sum.case option.case by blast
  next
    case failed
    then obtain pre f post w2 where f: "es = pre @ f # post" "passed_over i ctx pre w1 w2" "ge_from_index f = i"
      "edge_verdict ctx f w2 = (Inl st, w')"
      using assms(1) by (auto simp: route_spec_def)
    have "e # es = (e # pre) @ f # post" using f by simp
    then show ?thesis using over [OF f(2)] f(3,4) unfolding route_spec_def failed prod.case sum.case by blast
  qed
qed

text \<open>C14. Routing is first match: the node reached is the target of the first outgoing edge, in the order the edges
  were added, that has no predicate or whose predicate returns a positive number; every earlier outgoing edge
  was asked and returned zero. No node is reached only when every outgoing edge said no, and then the count is
  the number of outgoing edges; a failing predicate or clone ends the search at its edge.\<close>

theorem routing_is_first_match:
  "route_spec g i ctx es c w (json_value_route g i ctx es c w)"
proof (induction es arbitrary: c w)
  case Nil
  then show ?case by (simp add: route_spec_def)
next
  case (Cons e es)
  show ?case
  proof (cases "ge_from_index e = i")
    case False
    then show ?thesis using route_spec_Cons [OF Cons.IH] by (simp add: route_other_edge)
  next
    case True
    obtain v w1 where v: "edge_verdict ctx e w = (v, w1)" by force
    show ?thesis
    proof (cases "v = Inr False")
      case no: True
      then show ?thesis using route_spec_Cons [OF Cons.IH [of "c + 1" w1], of e w c] True v by (simp add: route_edge)
    next
      case False
      have "e # es = [] @ e # es" by simp
      then show ?thesis using False True v
        by (force simp: route_edge route_spec_def split: sum.splits bool.splits)
    qed
  qed
qed

subsection \<open>Cancellation\<close>

lemma emit_or_fail_frame:
  assumes "emit_or_fail emit n s (\<lambda>s. run_return st (Some n) s) = Inl (r, s')"
  shows "rs_tree s' = rs_tree s \<and> rs_last s' = rs_last s \<and> rs_steps s' = rs_steps s \<and> rr_last_node r = rs_last s \<and>
    rr_next_node r = Some n \<and> rr_steps r = rs_steps s"
  using assms by (auto simp: emit_or_fail_def run_return_def turbo_graph_result_init_def Let_def
      split: prod.splits if_splits)

text \<open>C15. Cancellation wins before any node runs: when the token is cancelled or past its deadline as the run starts,
  the run ends in its first pass with the state it was given, the step count it was given and no last node, and
  the next node it reports is the one to resume at. Without a checkpoint callback the status is the one of the token
  and nothing else happened in the world.\<close>

theorem cancelled_run_executes_nothing:
  assumes "turbo_graph_cancel_status token w = (status, w1)" and "status \<noteq> TURBO_GRAPH_EXEC_OK"
  shows "\<exists>result g' w'.
    turbo_graph_run_internal_json_value J g v (Some n) k options token sink w = Some (result, v, g', w') \<and>
    rr_last_node result = None \<and> rr_next_node result = Some n \<and> rr_steps result = k \<and>
    ((case options of None \<Rightarrow> True | Some o' \<Rightarrow> ro_checkpoint_cb o' = None) \<longrightarrow>
       rr_status result = status \<and> g' = g \<and> w' = w1)"
proof -
  let ?s = "run_start options g v n k w"
  let ?emit = "turbo_graph_emit_checkpoint_json_value J options"
  have step: "run_internal_json_value_step J options token sink ?s =
      emit_or_fail ?emit n (?s\<lparr>rs_world := w1\<rparr>) (\<lambda>s. run_return status (Some n) s)"
    using assms by (simp add: run_internal_json_value_step_def emit_or_fail_def run_return_def Let_def split: prod.split)
  obtain r s' where out: "run_internal_json_value_step J options token sink ?s = Inl (r, s')"
    using isl_emit_or_fail [of "\<lambda>s. run_return status (Some n) s" ?emit n "?s\<lparr>rs_world := w1\<rparr>"]
    unfolding step by (metis isl_def isl_run_return surj_pair)
  have run: "turbo_graph_run_internal_json_value J g v (Some n) k options token sink w = Some (run_end_of (r, s'))"
    using out by (simp add: turbo_graph_run_internal_json_value_def run_loop_unfold)
  have quiet: "rr_status r = status \<and> rs_graph s' = g \<and> rs_world s' = w1"
    if "case options of None \<Rightarrow> True | Some o' \<Rightarrow> ro_checkpoint_cb o' = None"
    using out that unfolding step
    by (auto simp: emit_or_fail_def run_return_def turbo_graph_emit_checkpoint_json_value_def
        turbo_graph_result_init_def split: option.splits)
  show ?thesis
    using emit_or_fail_frame [OF out [unfolded step]] quiet by (auto simp: run run_end_of_def)
qed

lemma ex_cancelled_status: "turbo_graph_cancel_status (Some 3) ex_cancelled = (TURBO_GRAPH_EXEC_CANCELLED, ex_cancelled)"
  by (simp add: turbo_graph_cancel_status_def turbo_cancel_token_check_def token_state_def refresh_locked_def
      ex_cancelled_eq ex_heap_eq turbo_cancel_state_now_ms_def turbo_cancel_state_refresh_deadline_locked_def
      turbo_cancel_reason_status_def)

lemma cancelled_run_executes_nothing_witness:
  "\<exists>result. turbo_graph_run_internal_json_value ref_json loop_graph JNull (Some ''a'') 0 three_steps (Some 3) None
      ex_cancelled = Some (result, JNull, loop_graph, ex_cancelled) \<and> rr_status result = TURBO_GRAPH_EXEC_CANCELLED"
  using cancelled_run_executes_nothing [OF ex_cancelled_status, of ref_json loop_graph JNull "''a''" 0 three_steps None]
  by (auto simp: three_steps_def)

subsection \<open>Checkpoints a run emits\<close>

lemma stamp_and_emit_OK:
  assumes "stamp_and_emit J cb created g w = (TURBO_GRAPH_EXEC_OK, g', w')" and "graph_inv J g"
    and "created = (st, Some cp, a0)" and "cp_topology_id cp = None"
  shows "\<exists>a. w' = cb (cp\<lparr>cp_topology_id := Some (jl_serialize J (topology_json J g))\<rparr>) (w\<lparr>ch_alloc := a\<rparr>)"
proof -
  obtain t g1 a1 where t: "turbo_graph_topology_id J a0 g = (t, g1, a1)" by (rule prod_cases3)
  have ok: "topology_cache_ok J g" using assms(2) by (simp add: graph_inv_def)
  show ?thesis
    using assms(1,3) t topology_id_result(5) [OF t ok]
    by (auto simp: stamp_and_emit_def turbo_graph_checkpoint_set_topology_def Let_def
        split: option.splits prod.splits if_splits)
qed

text \<open>A checkpoint handed to the callback holds the node to resume at, the steps so far and the state, is stamped
  with the topology of the graph that runs, and is therefore accepted when that graph is resumed from it.\<close>

lemma emitted_checkpoint_accepted:
  assumes "graph_inv J g" and "options = Some o'" and "ro_checkpoint_cb o' = Some cb"
    and "turbo_graph_emit_checkpoint_json_value J options g n k v w = (TURBO_GRAPH_EXEC_OK, g', w')"
  shows "\<exists>cp a. w' = cb cp (w\<lparr>ch_alloc := a\<rparr>) \<and> cp_next_node cp = n \<and> cp_steps cp = k \<and> cp_state cp = v \<and>
    (\<forall>b. fst (turbo_graph_checkpoint_matches_graph J b cp g') = TURBO_GRAPH_EXEC_OK \<longrightarrow>
       fst (snd (turbo_graph_checkpoint_matches_graph J b cp g')))"
proof -
  obtain st js a0 where j: "turbo_graph_json_value_state_to_json J (ch_alloc w) (Some v) = (st, js, a0)"
    by (rule prod_cases3)
  obtain st1 c a1 where c: "turbo_graph_checkpoint_create J a0 (Some n) k (Some v) = (st1, c, a1)"
    by (rule prod_cases3)
  have js: "js = Some v"
    using assms j by (auto simp: turbo_graph_emit_checkpoint_json_value_def turbo_graph_json_value_state_to_json_def
        json_create_def Let_def split: prod.splits if_splits)
  have st: "stamp_and_emit J cb (st1, c, a1) g w = (TURBO_GRAPH_EXEC_OK, g', w')"
    using assms(2-4) j js c by (simp add: turbo_graph_emit_checkpoint_json_value_def)
  have c': "c = Some \<lparr>cp_next_node = n, cp_steps = k, cp_state = v, cp_topology_id = None\<rparr>"
    using checkpoint_create_result [OF c] st by (auto simp: stamp_and_emit_def)
  let ?t = "jl_serialize J (topology_json J g)"
  let ?cp = "\<lparr>cp_next_node = n, cp_steps = k, cp_state = v, cp_topology_id = Some ?t\<rparr>"
  from stamp_and_emit_OK [OF st assms(1) _ _, of st1 _ a1] c' obtain a where a: "w' = cb ?cp (w\<lparr>ch_alloc := a\<rparr>)" by auto
  have kept: "graph_kept J g g'" using emit_checkpoint_json_value_kept [OF assms(4,1)] .
  then have same: "topology_json J g' = topology_json J g" "topology_cache_ok J g'"
    using topology_json_view by (auto simp: graph_kept_def graph_inv_def)
  have "fst (snd (turbo_graph_checkpoint_matches_graph J b ?cp g'))"
    if "fst (turbo_graph_checkpoint_matches_graph J b ?cp g') = TURBO_GRAPH_EXEC_OK" for b
    using that topology_id_result(5) [OF _ same(2), of b] same(1)
    by (cases "turbo_graph_topology_id J b g'")
      (auto simp: turbo_graph_checkpoint_matches_graph_def split: option.splits)
  with a show ?thesis by auto
qed

definition saving :: "(jv, unit) turbo_graph_run_options" where
  "saving = \<lparr>ro_max_steps = 3, ro_start_node = None, ro_interrupt_before_nodes = [], ro_skip_initial_interrupt = False,
     ro_checkpoint_cb = Some (\<lambda>cp w. w\<lparr>ch_next := unat (cp_steps cp)\<rparr>)\<rparr>"

lemma emitted_checkpoint_accepted_witness:
  "ch_next (snd (snd (turbo_graph_emit_checkpoint_json_value ref_json (Some saving) demo_graph ''b'' 7 JNull quiet_world))) = 7"
proof -
  obtain st g' w' where e: "turbo_graph_emit_checkpoint_json_value ref_json (Some saving) demo_graph ''b'' 7 JNull quiet_world =
      (st, g', w')" by (rule prod_cases3)
  have st: "st = TURBO_GRAPH_EXEC_OK"
    using e by (simp add: turbo_graph_emit_checkpoint_json_value_def saving_def quiet_world_def stamp_and_emit_def
        turbo_graph_json_value_state_to_json_def turbo_graph_checkpoint_create_def turbo_graph_clone_json_def
        json_create_def turbo_graph_checkpoint_set_topology_def topology_id_no_failure demo_graph_eval)
  have "ro_checkpoint_cb saving = Some (\<lambda>cp w. w\<lparr>ch_next := unat (cp_steps cp)\<rparr>)" by (simp add: saving_def)
  from emitted_checkpoint_accepted [OF demo_graph_inv(1) refl this e [unfolded st]]
  have "ch_next w' = 7" by auto
  then show ?thesis by (simp add: e)
qed

text \<open>C25. Resuming is refused, without running anything, when the topology changed: for a checkpoint stamped with
  the topology of \<open>g\<close> and a different graph \<open>g'\<close>, the call returns the mismatch status (or fails to compute
  the id) with the node and steps of the checkpoint, no state, and a world in which only allocations happened.\<close>

theorem checkpoint_mismatch_refused:
  assumes "json_laws J" and "json_text_laws J E" and "graph_inv J g" and "graph_inv J g'"
    and "turbo_graph_checkpoint_set_topology J a cp g = (TURBO_GRAPH_EXEC_OK, cp', g1, a1)"
    and "\<not> same_topology g g'"
  shows "\<exists>call b. turbo_graph_run_checkpoint_json_value_stream_controlled J g' cp' options token sink w = Some call \<and>
    rc_status call \<in> {TURBO_GRAPH_EXEC_CHECKPOINT_MISMATCH, TURBO_GRAPH_EXEC_OUT_OF_MEMORY} \<and>
    rc_state call = None \<and> rc_world call = w\<lparr>ch_alloc := b\<rparr> \<and> graph_view (rc_graph call) = graph_view g' \<and>
    rc_result call = Some (turbo_graph_result_init (rc_status call) None (Some (cp_next_node cp)) (cp_steps cp))"
proof -
  obtain st m g2 a2 where m: "turbo_graph_checkpoint_matches_graph J (ch_alloc w) cp' g' = (st, m, g2, a2)"
    by (cases "turbo_graph_checkpoint_matches_graph J (ch_alloc w) cp' g'") auto
  have cp: "cp_next_node cp' = cp_next_node cp" "cp_steps cp' = cp_steps cp" "cp_topology_id cp' \<noteq> None"
    using assms(5) by (auto simp: turbo_graph_checkpoint_set_topology_def Let_def split: option.splits prod.splits if_splits)
  obtain t g3 a3 where t: "turbo_graph_topology_id J (ch_alloc w) g' = (t, g3, a3)" by (rule prod_cases3)
  have g2: "graph_view g2 = graph_view g'" "st \<in> {TURBO_GRAPH_EXEC_OK, TURBO_GRAPH_EXEC_OUT_OF_MEMORY}"
    using m t cp(3) graph_inv_topology_id [OF assms(4) t]
    by (auto simp: turbo_graph_checkpoint_matches_graph_def split: option.splits)
  have "st = TURBO_GRAPH_EXEC_OK \<Longrightarrow> \<not> m"
    using checkpoint_matches_iff [OF assms(1-5)] m assms(6) by blast
  with g2 show ?thesis
    unfolding turbo_graph_run_checkpoint_json_value_stream_controlled_def m
    by (auto simp: checkpoint_refused_def cp turbo_graph_result_init_def)
qed

lemma checkpoint_mismatch_refused_witness:
  "\<exists>call. turbo_graph_run_checkpoint_json_value_stream_controlled ref_json loop_graph
      (demo_checkpoint\<lparr>cp_topology_id := Some (jl_serialize ref_json (topology_json ref_json demo_graph))\<rparr>)
      three_steps None None quiet_world = Some call \<and> rc_state call = None"
proof -
  let ?t = "jl_serialize ref_json (topology_json ref_json demo_graph)"
  have s: "turbo_graph_checkpoint_set_topology ref_json [] demo_checkpoint demo_graph =
      (TURBO_GRAPH_EXEC_OK, demo_checkpoint\<lparr>cp_topology_id := Some ?t\<rparr>, demo_graph\<lparr>g_topology_id := Some ?t\<rparr>, [])"
    by (simp add: turbo_graph_checkpoint_set_topology_def topology_id_no_failure demo_graph_eval)
  have "\<not> same_topology demo_graph loop_graph"
    by (simp add: demo_graph_eval loop_graph_eval same_topology_def)
  from checkpoint_mismatch_refused [OF ref_json_laws ref_text_laws demo_graph_inv(1) loop_graph_inv s this]
  show ?thesis by blast
qed

end
