(* ===== verification/Graph_Resume.thy ===== *)
theory Graph_Resume
  imports Graph_Exec
begin

section \<open>Interrupting and resuming a run\<close>

text \<open>
  A run that stops at an interrupt and is resumed from what it returned does what the same run without
  interrupts does: the same callbacks on the same values, hence the same world, state, status, next node and
  number of steps. Only the last node of the result can differ, when the resumed run ends before it runs a node.
\<close>

definition no_interrupts ::
    "('j, 'u) turbo_graph_run_options option \<Rightarrow> ('j, 'u) turbo_graph_run_options option" where
  "no_interrupts options = map_option (\<lambda>o'. o'\<lparr>ro_interrupt_before_nodes := []\<rparr>) options"

text \<open>No node asks to pause, that is stops and names a next node in the same call.\<close>

definition never_pauses :: "('j, 'u) turbo_graph \<Rightarrow> bool" where
  "never_pauses g \<longleftrightarrow>
     (\<forall>node \<in> set (g_nodes g). \<forall>f. gn_json_fn node = Some f \<or> gn_json_value_fn node = Some f \<longrightarrow>
        (\<forall>ctx w st ctx' w'. cx_next_node ctx = None \<and> \<not> cx_stop ctx \<and> f ctx w = (st, ctx', w') \<longrightarrow>
           \<not> ((cx_stop ctx' \<or> 0 < st) \<and> cx_next_node ctx' \<noteq> None)))"

text \<open>What a caller sees of a run, apart from the last node.\<close>

definition run_view :: "('j, 'u) run_end \<Rightarrow>
    turbo_graph_exec_status_t \<times> cstr \<times> size_t \<times> 'j \<times> ('j, 'u) turbo_graph \<times> 'u world" where
  "run_view out = (case out of (r, v, g, w) \<Rightarrow> (rr_status r, rr_next_node r, rr_steps r, v, g, w))"

subsection \<open>With and without interrupts\<close>

lemma no_interrupts_same [simp]:
  "options_max_steps (no_interrupts options) = options_max_steps options"
  "turbo_graph_emit_checkpoint_json_value J (no_interrupts options) = turbo_graph_emit_checkpoint_json_value J options"
  "turbo_graph_should_interrupt_before (no_interrupts options) n = False"
  by (cases options; auto simp: no_interrupts_def options_max_steps_def fun_eq_iff
      turbo_graph_emit_checkpoint_json_value_def turbo_graph_should_interrupt_before_def)+

text \<open>The pass with interrupts against the pass without: the same, or it stops where the other goes on.\<close>

definition resumes :: "('j, 'u) run_step \<Rightarrow> ('j, 'u) run_step \<Rightarrow> bool" where
  "resumes oi on \<longleftrightarrow>
     (case oi of
        Inl (r, x) \<Rightarrow>
          if rr_status r = TURBO_GRAPH_EXEC_INTERRUPTED
          then \<exists>n. rr_next_node r = Some n \<and> on = Inr (x\<lparr>rs_current := n\<rparr>) \<and> rr_steps r = rs_steps x
          else on = oi
      | Inr x \<Rightarrow> on = oi)"

lemma resumes_return: "status \<noteq> TURBO_GRAPH_EXEC_INTERRUPTED \<Longrightarrow> resumes (run_return status nx s) (run_return status nx s)"
  by (simp add: resumes_def run_return_def turbo_graph_result_init_def)

lemma resumes_go_on: "resumes (Inr s) (Inr s)"
  by (simp add: resumes_def)

lemma resumes_interrupt: "resumes (run_return TURBO_GRAPH_EXEC_INTERRUPTED (Some n) s) (Inr (s\<lparr>rs_current := n\<rparr>))"
  by (simp add: resumes_def run_return_def turbo_graph_result_init_def)

lemma trace_event_status:
  "turbo_graph_emit_trace_event J sink name detail payload code w = (status, w') \<Longrightarrow>
     status \<noteq> TURBO_GRAPH_EXEC_INTERRUPTED"
  by (auto simp: turbo_graph_emit_trace_event_def split: option.splits prod.splits)

lemma resumes_trace:
  "(\<And>s. resumes (k s) (k' s)) \<Longrightarrow>
   resumes (trace_or_fail J sink name detail payload code nx s k) (trace_or_fail J sink name detail payload code nx s k')"
  by (auto simp: trace_or_fail_def Let_def split: prod.splits intro: resumes_return dest: trace_event_status)

lemma stamp_status:
  assumes "stamp_and_emit J cb (turbo_graph_checkpoint_create J a (Some n) k (Some v)) g w = (status, g', w')"
  shows "status \<noteq> TURBO_GRAPH_EXEC_INTERRUPTED"
proof -
  obtain st c a1 where c: "turbo_graph_checkpoint_create J a (Some n) k (Some v) = (st, c, a1)" by (rule prod_cases3)
  show ?thesis using assms checkpoint_create_result [OF c] unfolding c
    by (auto simp: stamp_and_emit_def turbo_graph_checkpoint_set_topology_def Let_def
        split: option.splits prod.splits if_splits)
qed

lemma emit_status:
  "turbo_graph_emit_checkpoint_json_value J options g n k v w = (status, g', w') \<Longrightarrow>
     status \<noteq> TURBO_GRAPH_EXEC_INTERRUPTED"
  by (auto simp: turbo_graph_emit_checkpoint_json_value_def turbo_graph_json_value_state_to_json_def json_create_def
      Let_def split: option.splits prod.splits if_splits dest: stamp_status)

lemma resumes_emit:
  "(\<And>s. resumes (k s) (k' s)) \<Longrightarrow>
   resumes (emit_or_fail (turbo_graph_emit_checkpoint_json_value J options) n s k)
     (emit_or_fail (turbo_graph_emit_checkpoint_json_value J options) n s k')"
  by (auto simp: emit_or_fail_def Let_def split: prod.splits intro: resumes_return dest: emit_status)

lemma cancel_status_values:
  "turbo_graph_cancel_status token w = (status, w') \<Longrightarrow> status \<noteq> TURBO_GRAPH_EXEC_INTERRUPTED"
  by (auto simp: turbo_graph_cancel_status_def split: if_splits prod.splits)

lemma route_status: "json_value_route g i ctx es c w = (Inl status, w') \<Longrightarrow> status \<noteq> TURBO_GRAPH_EXEC_INTERRUPTED"
proof (induction es arbitrary: c w)
  case (Cons e es)
  then show ?case
    by (cases "ge_from_index e = i")
      (auto simp: route_edge route_other_edge edge_verdict_def verdict_of_def
        split: option.splits prod.splits if_splits sum.splits bool.splits)
qed simp

lemma resumes_advance:
  "resumes (json_value_advance J options token sink nx c s) (json_value_advance J (no_interrupts options) token sink nx c s)"
  unfolding json_value_advance_def no_interrupts_same
  by (auto simp: Let_def split: option.split prod.split dest: cancel_status_values
      intro!: resumes_trace resumes_emit resumes_return resumes_go_on resumes_interrupt)

lemma resumes_after_node:
  assumes "\<not> ((cx_stop ctx \<or> 0 < st) \<and> cx_next_node ctx \<noteq> None)"
  shows "resumes (json_value_after_node J options token sink i st ctx s)
    (json_value_after_node J (no_interrupts options) token sink i st ctx s)"
  using assms unfolding json_value_after_node_def no_interrupts_same
  by (auto simp: Let_def split: option.split prod.split sum.split dest: route_status
      intro!: resumes_trace resumes_return resumes_advance)

lemma never_pausesD:
  assumes "never_pauses g" and "node \<in> set (g_nodes g)" and "gn_json_fn node = Some f \<or> gn_json_value_fn node = Some f"
    and "cx_next_node ctx = None" and "\<not> cx_stop ctx" and "f ctx w = (st, ctx', w')"
  shows "\<not> ((cx_stop ctx' \<or> 0 < st) \<and> cx_next_node ctx' \<noteq> None)"
  using assms unfolding never_pauses_def by blast

lemma call_node_never_pauses:
  assumes "never_pauses g" and "node \<in> set (g_nodes g)" and "json_value_call_node node ctx s = Inr (st, ctx', s')"
    and "cx_next_node ctx = None" and "\<not> cx_stop ctx"
  shows "\<not> ((cx_stop ctx' \<or> 0 < st) \<and> cx_next_node ctx' \<noteq> None)"
proof (cases "gn_json_value_fn node")
  case (Some f)
  then show ?thesis using assms(3-5) never_pausesD [OF assms(1,2), of f ctx "rs_world s"]
    by (auto simp: json_value_call_node_def split: prod.splits)
next
  case None
  then obtain f where f: "gn_json_fn node = Some f"
    using assms(3) by (auto simp: json_value_call_node_def split: option.splits)
  obtain ok w where d: "ch_draw (rs_world s) = (ok, w)" by force
  obtain st1 ctx1 w1 where r: "f ctx w = (st1, ctx1, w1)" by (rule prod_cases3)
  show ?thesis
    using assms(3) never_pausesD [OF assms(1,2), of f, OF disjI1, OF f assms(4,5) r] None f d r
    by (auto simp: json_value_call_node_def json_value_take_update_def Let_def
        split: prod.splits if_splits option.splits)
qed

lemma call_node_returned:
  "json_value_call_node node ctx s = Inl out \<Longrightarrow>
   \<exists>status nx s1. out = run_return status nx s1 \<and> status \<noteq> TURBO_GRAPH_EXEC_INTERRUPTED"
  by (auto simp: json_value_call_node_def json_value_take_update_def Let_def
      split: prod.splits if_splits option.splits)

lemma resumes_run_node:
  assumes "never_pauses (rs_graph s)"
  shows "resumes (json_value_run_node J options token sink s) (json_value_run_node J (no_interrupts options) token sink s)"
proof (cases "turbo_graph_find_node_index (rs_graph s) (Some (rs_current s))")
  case None
  then show ?thesis by (auto simp: json_value_run_node_def intro: resumes_return)
next
  case (Some i)
  then have "g_nodes (rs_graph s) ! i \<in> set (g_nodes (rs_graph s))" by (auto simp: find_node_index_Some)
  note np = call_node_never_pauses [OF assms this]
  show ?thesis
    unfolding json_value_run_node_def Some option.case Let_def
  proof (rule resumes_trace, goal_cases)
    case (1 x)
    let ?call = "json_value_call_node (g_nodes (rs_graph s) ! i)
      \<lparr>cx_tree = rs_tree x, cx_current_node = gn_name (g_nodes (rs_graph s) ! i), cx_next_node = None,
       cx_step = rs_steps x, cx_stop = False\<rparr> x"
    show ?case
    proof (cases ?call)
      case (Inl out)
      then show ?thesis using call_node_returned [OF Inl] resumes_return by auto
    next
      case (Inr y)
      then have "?call = Inr (fst y, fst (snd y), snd (snd y))" by simp
      from Inr np [OF this] show ?thesis
        by (auto split: prod.split intro!: resumes_after_node)
    qed
  qed
qed

definition may_start :: "('j, 'u) turbo_graph_run_options option \<Rightarrow> ('j, 'u) run_state \<Rightarrow> bool" where
  "may_start options s \<longleftrightarrow> rs_skip s \<or> \<not> turbo_graph_should_interrupt_before options (rs_current s)"

lemma resumes_step:
  assumes "never_pauses (rs_graph s)" and "may_start options s"
  shows "resumes (run_internal_json_value_step J options token sink s)
    (run_internal_json_value_step J (no_interrupts options) token sink s)"
  using assms unfolding run_internal_json_value_step_def no_interrupts_same may_start_def
  by (auto simp: Let_def split: prod.split dest: cancel_status_values
      intro!: resumes_emit resumes_return resumes_run_node)

subsection \<open>The loops\<close>

text \<open>A pass that goes on does so to a node that is not in the interrupt list.\<close>

definition goes_clear :: "('j, 'u) turbo_graph_run_options option \<Rightarrow> ('j, 'u) run_step \<Rightarrow> bool" where
  "goes_clear options out \<longleftrightarrow>
     (case out of Inl _ \<Rightarrow> True | Inr x \<Rightarrow> \<not> turbo_graph_should_interrupt_before options (rs_current x))"

lemma clear_return [intro!]: "goes_clear options (run_return status nx s)"
  by (simp add: goes_clear_def run_return_def)

lemma clear_trace [intro!]:
  "(\<And>s. goes_clear options (k s)) \<Longrightarrow> goes_clear options (trace_or_fail J sink name detail payload code nx s k)"
  by (auto simp: trace_or_fail_def Let_def split: prod.split)

lemma clear_emit [intro!]: "(\<And>s. goes_clear options (k s)) \<Longrightarrow> goes_clear options (emit_or_fail emit n s k)"
  by (auto simp: emit_or_fail_def Let_def split: prod.split)

lemma clear_advance [intro!]: "goes_clear options (json_value_advance J options token sink nx c s)"
proof -
  have "goes_clear options (if turbo_graph_should_interrupt_before options n
      then run_return TURBO_GRAPH_EXEC_INTERRUPTED (Some n) x else Inr (x\<lparr>rs_current := n\<rparr>))"
    for n x
    by (auto simp: goes_clear_def run_return_def)
  then show ?thesis
    unfolding json_value_advance_def by (auto simp: Let_def split: option.split prod.split)
qed

lemma clear_after_node [intro!]: "goes_clear options (json_value_after_node J options token sink i st ctx s)"
  unfolding json_value_after_node_def by (auto simp: Let_def split: option.split prod.split sum.split)

lemma clear_run_node [intro!]: "goes_clear options (json_value_run_node J options token sink s)"
  unfolding json_value_run_node_def
  by (auto simp: Let_def split: option.split prod.split sum.split dest!: call_node_returned)

lemma clear_step: "goes_clear options (run_internal_json_value_step J options token sink s)"
  unfolding run_internal_json_value_step_def by (auto simp: Let_def split: prod.split)

lemma never_pauses_view: "graph_view g' = graph_view g \<Longrightarrow> never_pauses g \<Longrightarrow> never_pauses g'"
  by (simp add: never_pauses_def graph_view_def)

lemma interrupted_run_continues:
  assumes run: "run_loop (run_internal_json_value_step J options token sink) s = Some (r, x)"
    and int: "rr_status r = TURBO_GRAPH_EXEC_INTERRUPTED"
    and "never_pauses (rs_graph s)" and "may_start options s" and "graph_inv J (rs_graph s)"
  shows "\<exists>n. rr_next_node r = Some n \<and> rr_steps r = rs_steps x \<and>
    run_loop (run_internal_json_value_step J (no_interrupts options) token sink) s =
    run_loop (run_internal_json_value_step J (no_interrupts options) token sink) (x\<lparr>rs_current := n\<rparr>)"
proof -
  let ?i = "run_internal_json_value_step J options token sink"
  let ?n = "run_internal_json_value_step J (no_interrupts options) token sink"
  let ?I = "\<lambda>y. run_loop ?n s = run_loop ?n y \<and> may_start options y \<and> never_pauses (rs_graph y) \<and> graph_inv J (rs_graph y)"
  let ?Q = "\<lambda>(r, x). rr_status r = TURBO_GRAPH_EXEC_INTERRUPTED \<longrightarrow> (\<exists>n. rr_next_node r = Some n \<and>
    rr_steps r = rs_steps x \<and> run_loop ?n s = run_loop ?n (x\<lparr>rs_current := n\<rparr>))"
  have "?Q (r, x)"
  proof (rule run_loop_inv [OF run, of ?I])
    show "?I s" using assms(3-5) by simp
  next
    fix y z assume y: "?I y" "?i y = Inr z"
    then have "?n y = Inr z" using resumes_step [of y options J token sink] by (simp add: resumes_def)
    then have "run_loop ?n y = run_loop ?n z" by (subst run_loop_unfold) simp
    moreover have "may_start options z" using clear_step [of options J token sink y] y(2)
      by (simp add: goes_clear_def may_start_def)
    ultimately show "?I z" using y owned.goes_on [OF y(2)] never_pauses_view by (auto simp: graph_kept_def)
  next
    fix y out assume y: "?I y" "?i y = Inl out"
    obtain r1 x1 where out: "out = (r1, x1)" by force
    show "?Q out"
    proof (cases "rr_status r1 = TURBO_GRAPH_EXEC_INTERRUPTED")
      case True
      then obtain n where n: "rr_next_node r1 = Some n" "?n y = Inr (x1\<lparr>rs_current := n\<rparr>)" "rr_steps r1 = rs_steps x1"
        using resumes_step [of y options J token sink] y out by (auto simp: resumes_def)
      then have "run_loop ?n y = run_loop ?n (x1\<lparr>rs_current := n\<rparr>)" by (subst run_loop_unfold) simp
      then show ?thesis using n y out by auto
    qed (simp add: out)
  qed
  then show ?thesis using int by simp
qed

subsection \<open>A fresh start against going on\<close>

text \<open>Two states that differ only in the last node and the skip flag, neither of which matters without interrupts.\<close>

definition alike :: "('j, 'u) run_state \<Rightarrow> ('j, 'u) run_state \<Rightarrow> bool" where
  "alike s s' \<longleftrightarrow> rs_graph s' = rs_graph s \<and> rs_tree s' = rs_tree s \<and> rs_current s' = rs_current s \<and>
     rs_steps s' = rs_steps s \<and> rs_world s' = rs_world s"

definition agree :: "('j, 'u) run_step \<Rightarrow> ('j, 'u) run_step \<Rightarrow> bool" where
  "agree o1 o2 \<longleftrightarrow>
     (case (o1, o2) of
        (Inl e1, Inl e2) \<Rightarrow> run_view (run_end_of e1) = run_view (run_end_of e2)
      | _ \<Rightarrow> o1 = o2)"

lemma agree_refl: "agree out out"
  by (simp add: agree_def split: sum.split)

lemma alike_world [intro]: "alike s s' \<Longrightarrow> alike (s\<lparr>rs_world := w\<rparr>) (s'\<lparr>rs_world := w\<rparr>)"
  by (simp add: alike_def)

lemma alike_graph [intro]:
  "alike s s' \<Longrightarrow> alike (s\<lparr>rs_graph := g, rs_world := w\<rparr>) (s'\<lparr>rs_graph := g, rs_world := w\<rparr>)"
  by (simp add: alike_def)

lemma alike_fields:
  assumes "alike s s'"
  shows "rs_graph s' = rs_graph s" "rs_tree s' = rs_tree s" "rs_current s' = rs_current s" "rs_steps s' = rs_steps s"
    "rs_world s' = rs_world s"
  using assms by (auto simp: alike_def)

lemma agree_return: "alike s s' \<Longrightarrow> agree (run_return status nx s) (run_return status nx s')"
  by (auto simp: agree_def run_return_def run_view_def run_end_of_def turbo_graph_result_init_def alike_def)

lemma agree_emit:
  assumes "alike s s'" and "\<And>x x'. alike x x' \<Longrightarrow> agree (k x) (k' x')"
  shows "agree (emit_or_fail emit n s k) (emit_or_fail emit n s' k')"
  using assms alike_graph [OF assms(1)]
  by (auto simp: emit_or_fail_def alike_fields [OF assms(1)] Let_def split: prod.split intro: agree_return)

lemma agree_call:
  assumes "alike s s'" and "json_value_call_node node ctx s = x"
  shows "case x of Inl out \<Rightarrow> \<exists>out'. json_value_call_node node ctx s' = Inl out' \<and> agree out out'
    | Inr (st, ctx', y) \<Rightarrow> \<exists>y'. json_value_call_node node ctx s' = Inr (st, ctx', y') \<and> alike y y'"
  using assms
  by (auto simp: json_value_call_node_def json_value_take_update_def Let_def alike_fields [OF assms(1)]
      split: option.splits prod.splits if_splits intro!: agree_return) (auto simp: alike_def)

lemma agree_run_node:
  assumes "alike s s'" and "rs_skip s' = rs_skip s"
  shows "agree (json_value_run_node J options token sink s) (json_value_run_node J options token sink s')"
proof (cases "turbo_graph_find_node_index (rs_graph s) (Some (rs_current s))")
  case None
  then show ?thesis using assms(1) alike_fields [OF assms(1)] by (auto simp: json_value_run_node_def intro: agree_return)
next
  case (Some i)
  let ?node = "g_nodes (rs_graph s) ! i"
  obtain status w where t: "turbo_graph_emit_trace_event J sink ''graph.node'' ''start''
        (Some (gn_name ?node)) 0 (rs_world s) = (status, w)" by force
  let ?x = "s\<lparr>rs_world := w\<rparr>" and ?x' = "s'\<lparr>rs_world := w\<rparr>"
  let ?ctx = "\<lparr>cx_tree = rs_tree s, cx_current_node = gn_name ?node, cx_next_node = None,
     cx_step = rs_steps s, cx_stop = False\<rparr>"
  have x: "alike ?x ?x'" "rs_skip ?x' = rs_skip ?x" using assms by auto
  note f = alike_fields [OF assms(1)]
  show ?thesis
  proof (cases "json_value_call_node ?node ?ctx ?x")
    case (Inl out)
    then show ?thesis using agree_call [OF x(1) Inl] agree_return [OF x(1)]
      by (auto simp: json_value_run_node_def Some trace_or_fail_def t f Let_def)
  next
    case (Inr y)
    obtain st ctx' z where y: "y = (st, ctx', z)" by (rule prod_cases3)
    then obtain z' where z': "json_value_call_node ?node ?ctx ?x' = Inr (st, ctx', z')" "alike z z'"
      using agree_call [OF x(1) Inr] by auto
    have "rs_skip z' = rs_skip z"
      using Inr z'(1) x(2) y by (auto simp: json_value_call_node_def json_value_take_update_def Let_def
          split: option.splits prod.splits if_splits)
    then have "z'\<lparr>rs_steps := rs_steps z' + 1, rs_last := Some (gn_name ?node)\<rparr> =
        z\<lparr>rs_steps := rs_steps z + 1, rs_last := Some (gn_name ?node)\<rparr>"
      using z'(2) by (intro run_state.equality) (auto simp: alike_def)
    then show ?thesis using agree_return [OF x(1)] Inr z'(1) y
      by (auto simp: json_value_run_node_def Some trace_or_fail_def t f Let_def agree_refl)
  qed
qed

lemma agree_step:
  assumes "alike s s'"
  shows "agree (run_internal_json_value_step J (no_interrupts options) token sink s)
    (run_internal_json_value_step J (no_interrupts options) token sink s')"
proof -
  have run: "alike (s\<lparr>rs_world := w, rs_skip := False\<rparr>) (s'\<lparr>rs_world := w, rs_skip := False\<rparr>)" for w
    using assms by (simp add: alike_def)
  show ?thesis
    unfolding run_internal_json_value_step_def no_interrupts_same Let_def
    using assms run alike_fields [OF assms]
    by (auto split: prod.split intro!: agree_return agree_emit agree_run_node simp: alike_world alike_fields(3))
qed

lemma alike_runs:
  assumes "alike s s'"
  shows "map_option (run_view \<circ> run_end_of) (run_loop (run_internal_json_value_step J (no_interrupts options) token sink) s) =
    map_option (run_view \<circ> run_end_of) (run_loop (run_internal_json_value_step J (no_interrupts options) token sink) s')"
  using agree_step [OF assms, of J options token sink]
  by (subst (1 2) run_loop_unfold) (auto simp: agree_def split: sum.splits)

text \<open>C1. Interrupting is transparent, in a graph whose nodes never pause (no node callback stops the run and names a next
  node) and when the options ask for no interrupt in front of the start node: a run that was interrupted in front of
  a node, and then resumed at that node with the state, the steps, the graph and the world it left, ends as the same
  run without any interrupts ends (both return the same, or neither returns): same status, next node, step count,
  state, graph and world. (An interrupt in front of the start node emits a checkpoint that the run without interrupts
  does not emit, so there the worlds differ.)\<close>

theorem interrupt_then_resume:
  assumes "graph_inv J g" and "never_pauses g"
    and "\<not> turbo_graph_should_interrupt_before options start"
    and "turbo_graph_run_internal_json_value J g v (Some start) k options token sink w = Some (result, v', g', w')"
    and "rr_status result = TURBO_GRAPH_EXEC_INTERRUPTED"
  shows "\<exists>n. rr_next_node result = Some n \<and>
    map_option run_view (turbo_graph_run_internal_json_value J g v (Some start) k (no_interrupts options) token sink w) =
    map_option run_view
      (turbo_graph_run_internal_json_value J g' v' (Some n) (rr_steps result) (no_interrupts options) token sink w')"
proof -
  let ?s = "run_start options g v start k w"
  let ?loop = "run_loop (run_internal_json_value_step J (no_interrupts options) token sink)"
  have skip: "run_start (no_interrupts options) g v start k w = ?s"
    by (cases options) (simp_all add: run_start_def no_interrupts_def)
  obtain x where run: "run_loop (run_internal_json_value_step J options token sink) ?s = Some (result, x)"
    and x: "v' = rs_tree x" "g' = rs_graph x" "w' = rs_world x"
    using assms(4) by (auto simp: turbo_graph_run_internal_json_value_def run_end_of_def split: prod.splits)
  have "may_start options ?s" using assms(3) by (simp add: may_start_def)
  from interrupted_run_continues [OF run assms(5) _ this] assms(1,2)
  obtain n where n: "rr_next_node result = Some n" "rr_steps result = rs_steps x" "?loop ?s = ?loop (x\<lparr>rs_current := n\<rparr>)"
    by auto
  have "alike (x\<lparr>rs_current := n\<rparr>) (run_start (no_interrupts options) g' v' n (rr_steps result) w')"
    using n x by (simp add: alike_def)
  from alike_runs [OF this, of J options token sink] n show ?thesis
    by (simp add: turbo_graph_run_internal_json_value_def skip option.map_comp)
qed

text \<open>The two-node graph interrupted in front of its second node.\<close>

definition stop_before_b :: "(jv, unit) turbo_graph_run_options option" where
  "stop_before_b = Some \<lparr>ro_max_steps = 5, ro_start_node = None, ro_interrupt_before_nodes = [Some ''b''],
     ro_skip_initial_interrupt = False, ro_checkpoint_cb = None\<rparr>"

lemma demo_interrupted:
  "turbo_graph_run_internal_json_value ref_json demo_graph JNull (Some ''a'') 0 stop_before_b None None quiet_world =
     Some (\<lparr>rr_status = TURBO_GRAPH_EXEC_INTERRUPTED, rr_last_node = Some ''a'', rr_next_node = Some ''b'', rr_steps = 1\<rparr>,
           JNull, demo_graph, quiet_world)"
  by (simp add: turbo_graph_run_internal_json_value_def run_loop_unfold run_internal_json_value_step_def
      run_start_def turbo_graph_cancel_status_def options_max_steps_def stop_before_b_def demo_graph_eval
      turbo_graph_should_interrupt_before_def json_value_run_node_def turbo_graph_find_node_index_def upt_rec
      trace_or_fail_def turbo_graph_emit_trace_event_def json_value_call_node_def demo_node_def
      json_value_after_node_def json_value_route.simps(2) json_value_advance_def emit_or_fail_def
      turbo_graph_emit_checkpoint_json_value_def run_return_def turbo_graph_result_init_def run_end_of_def)

lemma interrupt_then_resume_witness:
  "map_option run_view (turbo_graph_run_internal_json_value ref_json demo_graph JNull (Some ''a'') 0
     (no_interrupts stop_before_b) None None quiet_world) =
   map_option run_view (turbo_graph_run_internal_json_value ref_json demo_graph JNull (Some ''b'') 1
     (no_interrupts stop_before_b) None None quiet_world)"
proof -
  have "never_pauses demo_graph" by (auto simp: never_pauses_def demo_graph_eval demo_node_def)
  moreover have "\<not> turbo_graph_should_interrupt_before stop_before_b ''a''"
    by (simp add: turbo_graph_should_interrupt_before_def stop_before_b_def)
  ultimately show ?thesis
    using interrupt_then_resume [OF demo_graph_inv(1) _ _ demo_interrupted] by simp
qed

end
