(* ===== verification/State_Graph_Core.thy ===== *)
theory State_Graph_Core
  imports Graph_Core
begin

section \<open>State graphs: runtime/src/turbo\_state\_graph.c (structure, channels, updates)\<close>

text \<open>
  A state graph keeps a JSON object whose members are channels; nodes return updates, which the reducer of each
  channel combines with its current value. It also keeps the records of its threads, runs and history.
  This theory has the data, the operations that build a graph, and the reducers.

  Pointers to elements of the arrays are indices. Node callbacks map the context and the world to their return code,
  the context as they leave it and the world; their view of the state is read-only.
\<close>

subsection \<open>Data\<close>

datatype turbo_state_graph_status_t =
    TURBO_STATE_GRAPH_OK | TURBO_STATE_GRAPH_STOP | TURBO_STATE_GRAPH_INTERRUPTED
  | TURBO_STATE_GRAPH_ERROR | TURBO_STATE_GRAPH_INVALID_ARGUMENT | TURBO_STATE_GRAPH_OUT_OF_MEMORY
  | TURBO_STATE_GRAPH_DUPLICATE_CHANNEL | TURBO_STATE_GRAPH_DUPLICATE_NODE
  | TURBO_STATE_GRAPH_CHANNEL_NOT_FOUND | TURBO_STATE_GRAPH_NODE_NOT_FOUND
  | TURBO_STATE_GRAPH_ROUTE_NOT_FOUND | TURBO_STATE_GRAPH_STEP_LIMIT | TURBO_STATE_GRAPH_TYPE_MISMATCH
  | TURBO_STATE_GRAPH_RUN_NOT_FOUND | TURBO_STATE_GRAPH_THREAD_NOT_FOUND
  | TURBO_STATE_GRAPH_HISTORY_NOT_FOUND | TURBO_STATE_GRAPH_RUN_COMPLETED
  | TURBO_STATE_GRAPH_RUN_NOT_INTERRUPTED | TURBO_STATE_GRAPH_INVALID_UPDATE

datatype turbo_state_graph_reducer_kind_t =
    TURBO_STATE_GRAPH_REDUCER_REPLACE | TURBO_STATE_GRAPH_REDUCER_APPEND
  | TURBO_STATE_GRAPH_REDUCER_MERGE_OBJECT | TURBO_STATE_GRAPH_REDUCER_ADD
  | TURBO_STATE_GRAPH_REDUCER_LAST_NON_NULL

datatype turbo_state_graph_source_kind_t =
    TURBO_STATE_GRAPH_SOURCE_START | TURBO_STATE_GRAPH_SOURCE_NODE
  | TURBO_STATE_GRAPH_SOURCE_HOST | TURBO_STATE_GRAPH_SOURCE_FORK

record 'j turbo_state_graph_channel_entry =
  sc_name :: string
  sc_description :: cstr
  sc_reducer :: turbo_state_graph_reducer_kind_t
  sc_value_kind :: json_type_t
  sc_default_value :: 'j

record 'j turbo_state_graph_pending_send =
  ps_target_node :: string
  ps_update :: 'j

record 'j turbo_state_graph_exec_ctx =
  sx_state :: 'j
  sx_update :: 'j
  sx_current_node :: string
  sx_next_node :: cstr
  sx_sends :: "'j turbo_state_graph_pending_send list"
  sx_send_capacity :: nat
  sx_step :: size_t
  sx_stop :: bool

type_synonym ('j, 'u) sg_node_fn =
  "'j turbo_state_graph_exec_ctx \<Rightarrow> 'u world \<Rightarrow> int \<times> 'j turbo_state_graph_exec_ctx \<times> 'u world"

type_synonym ('j, 'u) sg_predicate_fn = "'j \<Rightarrow> 'u world \<Rightarrow> int \<times> 'u world"

record ('j, 'u) turbo_state_graph_node_entry =
  sn_name :: string
  sn_json_value_fn :: "('j, 'u) sg_node_fn"

record ('j, 'u) turbo_state_graph_edge_entry =
  se_from_index :: nat
  se_to_index :: nat
  se_predicate :: "('j, 'u) sg_predicate_fn option"

record turbo_state_graph_thread_entry =
  th_id :: string
  th_current_run_id :: cstr

record 'j turbo_state_graph_history_entry =
  he_id :: string
  he_checkpoint_id :: string
  he_thread_id :: string
  he_run_id :: string
  he_source_name :: cstr
  he_reason :: cstr
  he_last_node :: cstr
  he_next_node :: cstr
  he_source_kind :: turbo_state_graph_source_kind_t
  he_step :: size_t
  he_update :: 'j
  he_state :: 'j

record 'j turbo_state_graph_run_entry =
  re_id :: string
  re_thread_id :: string
  re_parent_run_id :: cstr
  re_forked_from_history_id :: cstr
  re_latest_history_entry_id :: cstr
  re_current_node :: cstr
  re_steps :: size_t
  re_interrupted :: bool
  re_completed :: bool
  re_state :: 'j

record ('j, 'u) turbo_state_graph =
  sg_name :: cstr
  sg_entry_node :: cstr
  sg_channels :: "'j turbo_state_graph_channel_entry list"
  sg_channel_capacity :: nat
  sg_nodes :: "('j, 'u) turbo_state_graph_node_entry list"
  sg_node_capacity :: nat
  sg_edges :: "('j, 'u) turbo_state_graph_edge_entry list"
  sg_edge_capacity :: nat
  sg_threads :: "turbo_state_graph_thread_entry list"
  sg_thread_capacity :: nat
  sg_runs :: "'j turbo_state_graph_run_entry list"
  sg_run_capacity :: nat
  sg_history :: "'j turbo_state_graph_history_entry list"
  sg_history_capacity :: nat
  sg_next_thread_id :: size_t
  sg_next_run_id :: size_t
  sg_next_history_id :: size_t
  sg_next_checkpoint_id :: size_t

record 'j turbo_state_graph_channel_config =
  cf_reducer :: turbo_state_graph_reducer_kind_t
  cf_value_kind :: json_type_t
  cf_default_value :: "'j option"
  cf_description :: cstr

subsection \<open>Small helpers\<close>

definition turbo_state_graph_strdup :: "alloc \<Rightarrow> cstr \<Rightarrow> cstr \<times> alloc" where
  "turbo_state_graph_strdup a s =
     (case s of None \<Rightarrow> (None, a)
      | Some t \<Rightarrow> (let (ok, a) = alloc1 a in (if ok then Some t else None, a)))"

text \<open>Several copies made one after the other and checked together; a \<open>NULL\<close> needs none.\<close>

definition strdups :: "alloc \<Rightarrow> cstr list \<Rightarrow> bool \<times> alloc" where
  "strdups a ss = alloc_all (length (filter (\<lambda>s. s \<noteq> None) ss)) a"

definition turbo_state_graph_make_id :: "alloc \<Rightarrow> string \<Rightarrow> size_t \<Rightarrow> cstr \<times> alloc" where
  "turbo_state_graph_make_id a prefix value =
     turbo_state_graph_strdup a (Some (prefix @ ''-'' @ dec_nat (unat value)))"

definition make_id :: "string \<Rightarrow> size_t \<Rightarrow> string" where
  "make_id prefix value = prefix @ ''-'' @ dec_nat (unat value)"

definition turbo_state_graph_reserve :: "alloc \<Rightarrow> nat \<Rightarrow> nat \<Rightarrow> bool \<times> nat \<times> alloc" where
  "turbo_state_graph_reserve a capacity needed =
     (if capacity \<ge> needed then (True, capacity, a)
      else
        let next_capacity = (if capacity = 0 then 4 else capacity * 2);
            next_capacity = (if next_capacity < needed then needed else next_capacity);
            (ok, a) = alloc1 a
        in if ok then (True, next_capacity, a) else (False, capacity, a))"

definition turbo_state_graph_find_channel_index :: "('j, 'u) turbo_state_graph \<Rightarrow> string \<Rightarrow> nat option" where
  "turbo_state_graph_find_channel_index graph name =
     find (\<lambda>i. sc_name (sg_channels graph ! i) = name) [0..<length (sg_channels graph)]"

definition turbo_state_graph_find_node_index :: "('j, 'u) turbo_state_graph \<Rightarrow> string \<Rightarrow> nat option" where
  "turbo_state_graph_find_node_index graph name =
     find (\<lambda>i. sn_name (sg_nodes graph ! i) = name) [0..<length (sg_nodes graph)]"

definition turbo_state_graph_source_kind_text :: "turbo_state_graph_source_kind_t \<Rightarrow> string" where
  "turbo_state_graph_source_kind_text source_kind =
     (case source_kind of
        TURBO_STATE_GRAPH_SOURCE_START \<Rightarrow> ''start''
      | TURBO_STATE_GRAPH_SOURCE_NODE \<Rightarrow> ''node''
      | TURBO_STATE_GRAPH_SOURCE_HOST \<Rightarrow> ''host''
      | TURBO_STATE_GRAPH_SOURCE_FORK \<Rightarrow> ''fork'')"

definition turbo_state_graph_run_status_text :: "'j turbo_state_graph_run_entry \<Rightarrow> string" where
  "turbo_state_graph_run_status_text run =
     (if re_completed run then ''completed'' else if re_interrupted run then ''interrupted'' else ''running'')"

subsection \<open>Channel values\<close>

text \<open>The values of an array, as the loops over \<open>json_array_get\<close> see them.\<close>

definition json_elements :: "('j, 'd) json_lib \<Rightarrow> 'j \<Rightarrow> 'j option list" where
  "json_elements J v = map (jl_array_get J v) [0..<turbo_runtime_json_value_size J (Some v)]"

definition turbo_state_graph_validate_channel_value ::
    "('j, 'd) json_lib \<Rightarrow> 'j turbo_state_graph_channel_entry \<Rightarrow> 'j option \<Rightarrow> turbo_state_graph_status_t" where
  "turbo_state_graph_validate_channel_value J channel value =
     (case value of None \<Rightarrow> TURBO_STATE_GRAPH_INVALID_ARGUMENT
      | Some v \<Rightarrow>
          if jl_type J v = JSON_NULL \<or> sc_value_kind channel = JSON_NULL then TURBO_STATE_GRAPH_OK
          else if sc_reducer channel = TURBO_STATE_GRAPH_REDUCER_APPEND \<and> jl_type J v = JSON_ARRAY
          then (if \<exists>child \<in> set (json_elements J v).
                     case child of None \<Rightarrow> False
                     | Some c \<Rightarrow> jl_type J c \<noteq> sc_value_kind channel \<and> jl_type J c \<noteq> JSON_NULL
                then TURBO_STATE_GRAPH_TYPE_MISMATCH else TURBO_STATE_GRAPH_OK)
          else if jl_type J v \<noteq> sc_value_kind channel then TURBO_STATE_GRAPH_TYPE_MISMATCH
          else TURBO_STATE_GRAPH_OK)"

text \<open>The value that \<open>turbo_state_graph_channel_base_value\<close> clones; the entry of a channel always has a default.\<close>

definition turbo_state_graph_channel_base_value ::
    "alloc \<Rightarrow> 'j turbo_state_graph_channel_entry \<Rightarrow> 'j option \<Rightarrow> 'j option \<times> alloc" where
  "turbo_state_graph_channel_base_value a channel current_value =
     json_create a (case current_value of Some v \<Rightarrow> v | None \<Rightarrow> sc_default_value channel)"

subsubsection \<open>Merging objects\<close>

text \<open>
  \<open>turbo_state_graph_merge_object_values\<close> calls itself on members that are objects on both sides. The fuel is the
  depth of the update, which bounds the nesting of the calls; \<open>merge_unfolds\<close> below shows that it is never used up,
  so that the definition satisfies the recursion of the C code. The loop over the keys, from index \<open>i\<close>, calls the
  merge of the members.
\<close>

definition merge_child ::
    "(alloc \<Rightarrow> 'j option \<Rightarrow> 'j \<Rightarrow> turbo_state_graph_status_t \<times> 'j option \<times> alloc) \<Rightarrow>
     ('j, 'd) json_lib \<Rightarrow> alloc \<Rightarrow> 'j option \<Rightarrow> 'j \<Rightarrow> turbo_state_graph_status_t \<times> 'j option \<times> alloc" where
  "merge_child merge J a current_child update_child =
     (case current_child of
        Some c \<Rightarrow>
          if jl_type J c = JSON_OBJECT \<and> jl_type J update_child = JSON_OBJECT
          then merge a (Some c) update_child
          else (case json_create a update_child of
                  (None, a) \<Rightarrow> (TURBO_STATE_GRAPH_OUT_OF_MEMORY, None, a)
                | (Some v, a) \<Rightarrow> (TURBO_STATE_GRAPH_OK, Some v, a))
      | None \<Rightarrow> (case json_create a update_child of
                  (None, a) \<Rightarrow> (TURBO_STATE_GRAPH_OUT_OF_MEMORY, None, a)
                | (Some v, a) \<Rightarrow> (TURBO_STATE_GRAPH_OK, Some v, a)))"

fun merge_keys ::
    "(alloc \<Rightarrow> 'j option \<Rightarrow> 'j \<Rightarrow> turbo_state_graph_status_t \<times> 'j option \<times> alloc) \<Rightarrow>
     ('j, 'd) json_lib \<Rightarrow> 'j \<Rightarrow> nat list \<Rightarrow> alloc \<Rightarrow> 'j \<Rightarrow> turbo_state_graph_status_t \<times> 'j option \<times> alloc" where
  "merge_keys merge J update_value [] a result = (TURBO_STATE_GRAPH_OK, Some result, a)"
| "merge_keys merge J update_value (i # is) a result =
     (case jl_object_key J update_value i of None \<Rightarrow> (TURBO_STATE_GRAPH_INVALID_UPDATE, None, a)
      | Some key \<Rightarrow>
         (case jl_object_get J update_value key of None \<Rightarrow> (TURBO_STATE_GRAPH_INVALID_UPDATE, None, a)
          | Some update_child \<Rightarrow>
             (case merge_child merge J a (jl_object_get J result key) update_child of
                (status, merged_child, a) \<Rightarrow>
                  if status \<noteq> TURBO_STATE_GRAPH_OK then (status, None, a)
                  else
                    (case turbo_runtime_json_object_set J a result (Some key) merged_child of (st, result, a) \<Rightarrow>
                       if st \<noteq> TURBO_RUNTIME_JSON_OK then (TURBO_STATE_GRAPH_OUT_OF_MEMORY, None, a)
                       else merge_keys merge J update_value is a result))))"

fun merge_fuel ::
    "nat \<Rightarrow> ('j, 'd) json_lib \<Rightarrow> alloc \<Rightarrow> 'j option \<Rightarrow> 'j \<Rightarrow> turbo_state_graph_status_t \<times> 'j option \<times> alloc" where
  "merge_fuel 0 J a current_value update_value = (TURBO_STATE_GRAPH_ERROR, None, a)"
| "merge_fuel (Suc fuel) J a current_value update_value =
     (if jl_type J update_value \<noteq> JSON_OBJECT then (TURBO_STATE_GRAPH_TYPE_MISMATCH, None, a)
      else if (case current_value of None \<Rightarrow> False
               | Some c \<Rightarrow> jl_type J c \<noteq> JSON_OBJECT \<and> jl_type J c \<noteq> JSON_NULL)
      then (TURBO_STATE_GRAPH_TYPE_MISMATCH, None, a)
      else
        (case json_create a (case current_value of None \<Rightarrow> jl_object J
                             | Some c \<Rightarrow> if jl_type J c = JSON_OBJECT then c else jl_object J) of
           (None, a) \<Rightarrow> (TURBO_STATE_GRAPH_OUT_OF_MEMORY, None, a)
         | (Some result, a) \<Rightarrow>
             merge_keys (merge_fuel fuel J) J update_value
               [0..<turbo_runtime_json_value_size J (Some update_value)] a result))"

definition turbo_state_graph_merge_object_values ::
    "('j, 'd) json_lib \<Rightarrow> alloc \<Rightarrow> 'j option \<Rightarrow> 'j \<Rightarrow> turbo_state_graph_status_t \<times> 'j option \<times> alloc" where
  "turbo_state_graph_merge_object_values J a current_value update_value =
     merge_fuel (Suc (jl_depth J update_value)) J a current_value update_value"

subsubsection \<open>Reducers\<close>

definition append_one ::
    "('j, 'd) json_lib \<Rightarrow> 'j turbo_state_graph_channel_entry \<Rightarrow> alloc \<Rightarrow> 'j option \<Rightarrow> 'j \<Rightarrow>
     turbo_state_graph_status_t \<times> 'j option \<times> alloc" where
  "append_one J channel a child result =
     (let status = turbo_state_graph_validate_channel_value J channel child
      in if status \<noteq> TURBO_STATE_GRAPH_OK then (status, None, a)
         else
           (case json_create a (the child) of
              (None, a) \<Rightarrow> (TURBO_STATE_GRAPH_OUT_OF_MEMORY, None, a)
            | (Some child_copy, a) \<Rightarrow>
               (case turbo_runtime_json_array_append J a result (Some child_copy) of (st, result, a) \<Rightarrow>
                  if st \<noteq> TURBO_RUNTIME_JSON_OK then (TURBO_STATE_GRAPH_OUT_OF_MEMORY, None, a)
                  else (TURBO_STATE_GRAPH_OK, Some result, a))))"

fun append_all ::
    "('j, 'd) json_lib \<Rightarrow> 'j turbo_state_graph_channel_entry \<Rightarrow> alloc \<Rightarrow> 'j option list \<Rightarrow> 'j \<Rightarrow>
     turbo_state_graph_status_t \<times> 'j option \<times> alloc" where
  "append_all J channel a [] result = (TURBO_STATE_GRAPH_OK, Some result, a)"
| "append_all J channel a (child # children) result =
     (case append_one J channel a child result of
        (TURBO_STATE_GRAPH_OK, Some result, a) \<Rightarrow> append_all J channel a children result
      | (status, _, a) \<Rightarrow> (status, None, a))"

definition reduce_append ::
    "('j, 'd) json_lib \<Rightarrow> 'j turbo_state_graph_channel_entry \<Rightarrow> alloc \<Rightarrow> 'j option \<Rightarrow> 'j \<Rightarrow>
     turbo_state_graph_status_t \<times> 'j option \<times> alloc" where
  "reduce_append J channel a current_value update_value =
     (if (case current_value of None \<Rightarrow> False
          | Some c \<Rightarrow> jl_type J c \<noteq> JSON_ARRAY \<and> jl_type J c \<noteq> JSON_NULL)
      then (TURBO_STATE_GRAPH_TYPE_MISMATCH, None, a)
      else
        (case json_create a (case current_value of None \<Rightarrow> jl_array J
                             | Some c \<Rightarrow> if jl_type J c = JSON_ARRAY then c else jl_array J) of
           (None, a) \<Rightarrow> (TURBO_STATE_GRAPH_OUT_OF_MEMORY, None, a)
         | (Some result, a) \<Rightarrow>
             if jl_type J update_value = JSON_ARRAY
             then append_all J channel a (json_elements J update_value) result
             else append_one J channel a (Some update_value) result))"

text \<open>In the C code both tests of the ADD reducer for a double are \<open>json_type(...) == JSON_NUMBER\<close>, so an update that
  passes the type check is added as a double and the branch for \<open>int64_t\<close> is never taken.\<close>

definition reduce_add ::
    "('j, 'd) json_lib \<Rightarrow> 'j turbo_state_graph_channel_entry \<Rightarrow> alloc \<Rightarrow> 'j option \<Rightarrow> 'j \<Rightarrow>
     turbo_state_graph_status_t \<times> 'j option \<times> alloc" where
  "reduce_add J channel a current_value update_value =
     (if jl_type J update_value \<noteq> JSON_NUMBER then (TURBO_STATE_GRAPH_TYPE_MISMATCH, None, a)
      else if (case current_value of None \<Rightarrow> False
               | Some c \<Rightarrow> jl_type J c \<noteq> JSON_NUMBER \<and> jl_type J c \<noteq> JSON_NULL)
      then (TURBO_STATE_GRAPH_TYPE_MISMATCH, None, a)
      else
        (let current_is_double = (case current_value of None \<Rightarrow> False | Some c \<Rightarrow> jl_type J c = JSON_NUMBER);
             update_is_double = (jl_type J update_value = JSON_NUMBER);
             value =
               (if current_is_double \<or> update_is_double \<or> sc_value_kind channel = JSON_NUMBER
                then
                  (let sum = (if current_is_double
                              then turbo_runtime_json_value_as_double J current_value (jl_double_zero J)
                              else jl_double_of_int J (turbo_runtime_json_value_as_int64 J current_value 0));
                       sum = jl_double_add J sum
                               (if update_is_double
                                then turbo_runtime_json_value_as_double J (Some update_value) (jl_double_zero J)
                                else jl_double_of_int J (turbo_runtime_json_value_as_int64 J (Some update_value) 0))
                   in jl_number_of J sum)
                else jl_int64_of J (sint (of_int (turbo_runtime_json_value_as_int64 J current_value 0 +
                        turbo_runtime_json_value_as_int64 J (Some update_value) 0) :: 64 word)))
         in (case json_create a value of
               (None, a) \<Rightarrow> (TURBO_STATE_GRAPH_OUT_OF_MEMORY, None, a)
             | (Some v, a) \<Rightarrow> (TURBO_STATE_GRAPH_OK, Some v, a))))"

definition turbo_state_graph_reduce_channel ::
    "('j, 'd) json_lib \<Rightarrow> 'j turbo_state_graph_channel_entry \<Rightarrow> alloc \<Rightarrow> 'j option \<Rightarrow> 'j \<Rightarrow>
     turbo_state_graph_status_t \<times> 'j option \<times> alloc" where
  "turbo_state_graph_reduce_channel J channel a current_value update_value =
     (let status = turbo_state_graph_validate_channel_value J channel (Some update_value)
      in if status \<noteq> TURBO_STATE_GRAPH_OK \<and> sc_reducer channel \<noteq> TURBO_STATE_GRAPH_REDUCER_APPEND \<and>
            sc_reducer channel \<noteq> TURBO_STATE_GRAPH_REDUCER_MERGE_OBJECT \<and>
            sc_reducer channel \<noteq> TURBO_STATE_GRAPH_REDUCER_ADD
         then (status, None, a)
         else
           (case sc_reducer channel of
              TURBO_STATE_GRAPH_REDUCER_REPLACE \<Rightarrow>
                (case json_create a update_value of
                   (None, a) \<Rightarrow> (TURBO_STATE_GRAPH_OUT_OF_MEMORY, None, a)
                 | (Some v, a) \<Rightarrow> (TURBO_STATE_GRAPH_OK, Some v, a))
            | TURBO_STATE_GRAPH_REDUCER_LAST_NON_NULL \<Rightarrow>
                (case (if jl_type J update_value = JSON_NULL
                       then turbo_state_graph_channel_base_value a channel current_value
                       else json_create a update_value) of
                   (None, a) \<Rightarrow> (TURBO_STATE_GRAPH_OUT_OF_MEMORY, None, a)
                 | (Some v, a) \<Rightarrow> (TURBO_STATE_GRAPH_OK, Some v, a))
            | TURBO_STATE_GRAPH_REDUCER_APPEND \<Rightarrow> reduce_append J channel a current_value update_value
            | TURBO_STATE_GRAPH_REDUCER_MERGE_OBJECT \<Rightarrow>
                turbo_state_graph_merge_object_values J a current_value update_value
            | TURBO_STATE_GRAPH_REDUCER_ADD \<Rightarrow> reduce_add J channel a current_value update_value))"

subsubsection \<open>Applying an update\<close>

text \<open>The update is applied key by key, in place: when a key fails, the keys before it stay applied.\<close>

fun apply_keys ::
    "('j, 'd) json_lib \<Rightarrow> ('j, 'u) turbo_state_graph \<Rightarrow> 'j \<Rightarrow> nat list \<Rightarrow> alloc \<Rightarrow> 'j \<Rightarrow>
     turbo_state_graph_status_t \<times> 'j \<times> alloc" where
  "apply_keys J graph update [] a state = (TURBO_STATE_GRAPH_OK, state, a)"
| "apply_keys J graph update (i # is) a state =
     (case jl_object_key J update i of None \<Rightarrow> (TURBO_STATE_GRAPH_INVALID_UPDATE, state, a)
      | Some key \<Rightarrow>
         (case jl_object_get J update key of None \<Rightarrow> (TURBO_STATE_GRAPH_INVALID_UPDATE, state, a)
          | Some update_value \<Rightarrow>
             (case turbo_state_graph_find_channel_index graph key of
                None \<Rightarrow> (TURBO_STATE_GRAPH_CHANNEL_NOT_FOUND, state, a)
              | Some channel_index \<Rightarrow>
                 (case turbo_state_graph_reduce_channel J (sg_channels graph ! channel_index) a
                         (jl_object_get J state key) update_value of
                    (status, merged_value, a) \<Rightarrow>
                      if status \<noteq> TURBO_STATE_GRAPH_OK then (status, state, a)
                      else
                        (case turbo_runtime_json_object_set J a state (Some key) merged_value of (st, state, a) \<Rightarrow>
                           if st \<noteq> TURBO_RUNTIME_JSON_OK then (TURBO_STATE_GRAPH_OUT_OF_MEMORY, state, a)
                           else apply_keys J graph update is a state)))))"

definition turbo_state_graph_apply_update ::
    "('j, 'd) json_lib \<Rightarrow> ('j, 'u) turbo_state_graph \<Rightarrow> alloc \<Rightarrow> 'j \<Rightarrow> 'j \<Rightarrow>
     turbo_state_graph_status_t \<times> 'j \<times> alloc" where
  "turbo_state_graph_apply_update J graph a state update =
     (if jl_type J state \<noteq> JSON_OBJECT \<or> jl_type J update \<noteq> JSON_OBJECT
      then (TURBO_STATE_GRAPH_TYPE_MISMATCH, state, a)
      else apply_keys J graph update [0..<turbo_runtime_json_value_size J (Some update)] a state)"

fun seed_defaults_loop ::
    "('j, 'd) json_lib \<Rightarrow> 'j turbo_state_graph_channel_entry list \<Rightarrow> alloc \<Rightarrow> 'j \<Rightarrow>
     turbo_state_graph_status_t \<times> 'j \<times> alloc" where
  "seed_defaults_loop J [] a state = (TURBO_STATE_GRAPH_OK, state, a)"
| "seed_defaults_loop J (channel # channels) a state =
     (case turbo_state_graph_channel_base_value a channel None of
        (None, a) \<Rightarrow> (TURBO_STATE_GRAPH_OUT_OF_MEMORY, state, a)
      | (Some value, a) \<Rightarrow>
         (case turbo_runtime_json_object_set J a state (Some (sc_name channel)) (Some value) of (st, state, a) \<Rightarrow>
            if st \<noteq> TURBO_RUNTIME_JSON_OK then (TURBO_STATE_GRAPH_OUT_OF_MEMORY, state, a)
            else seed_defaults_loop J channels a state))"

definition turbo_state_graph_seed_defaults ::
    "('j, 'd) json_lib \<Rightarrow> ('j, 'u) turbo_state_graph \<Rightarrow> alloc \<Rightarrow> 'j \<Rightarrow>
     turbo_state_graph_status_t \<times> 'j \<times> alloc" where
  "turbo_state_graph_seed_defaults J graph a state = seed_defaults_loop J (sg_channels graph) a state"

subsection \<open>Building a state graph\<close>

definition turbo_state_graph_create :: "alloc \<Rightarrow> cstr \<Rightarrow> ('j, 'u) turbo_state_graph option \<times> alloc" where
  "turbo_state_graph_create a name =
     (let (ok, a) = alloc1 a
      in if \<not> ok then (None, a)
         else
           (case turbo_state_graph_strdup a name of (copy, a) \<Rightarrow>
              if name \<noteq> None \<and> copy = None then (None, a)
              else
                (Some \<lparr>sg_name = copy, sg_entry_node = None, sg_channels = [], sg_channel_capacity = 0,
                       sg_nodes = [], sg_node_capacity = 0, sg_edges = [], sg_edge_capacity = 0,
                       sg_threads = [], sg_thread_capacity = 0, sg_runs = [], sg_run_capacity = 0,
                       sg_history = [], sg_history_capacity = 0, sg_next_thread_id = 0, sg_next_run_id = 0,
                       sg_next_history_id = 0, sg_next_checkpoint_id = 0\<rparr>, a)))"

definition turbo_state_graph_add_channel ::
    "('j, 'd) json_lib \<Rightarrow> alloc \<Rightarrow> ('j, 'u) turbo_state_graph \<Rightarrow> cstr \<Rightarrow> 'j turbo_state_graph_channel_config option \<Rightarrow>
     turbo_state_graph_status_t \<times> ('j, 'u) turbo_state_graph \<times> alloc" where
  "turbo_state_graph_add_channel J a graph name config =
     (case (name, config) of
        (Some n, Some c) \<Rightarrow>
          if turbo_state_graph_find_channel_index graph n \<noteq> None
          then (TURBO_STATE_GRAPH_DUPLICATE_CHANNEL, graph, a)
          else
            (case turbo_state_graph_reserve a (sg_channel_capacity graph) (length (sg_channels graph) + 1) of
               (reserved, capacity, a) \<Rightarrow>
                 let graph = graph\<lparr>sg_channel_capacity := capacity\<rparr>
                 in if \<not> reserved then (TURBO_STATE_GRAPH_OUT_OF_MEMORY, graph, a)
                    else
                      (case strdups a [name, cf_description c, Some []] of (ok, a) \<Rightarrow>
                         if \<not> ok then (TURBO_STATE_GRAPH_OUT_OF_MEMORY, graph, a)
                         else
                           let channel = \<lparr>sc_name = n, sc_description = cf_description c, sc_reducer = cf_reducer c,
                                          sc_value_kind = cf_value_kind c,
                                          sc_default_value = (case cf_default_value c of Some v \<Rightarrow> v | None \<Rightarrow> jl_null J)\<rparr>;
                               status = turbo_state_graph_validate_channel_value J channel (Some (sc_default_value channel))
                           in if status \<noteq> TURBO_STATE_GRAPH_OK then (status, graph, a)
                              else (TURBO_STATE_GRAPH_OK, graph\<lparr>sg_channels := sg_channels graph @ [channel]\<rparr>, a)))
      | _ \<Rightarrow> (TURBO_STATE_GRAPH_INVALID_ARGUMENT, graph, a))"

definition turbo_state_graph_add_json_value_node_owned ::
    "alloc \<Rightarrow> ('j, 'u) turbo_state_graph \<Rightarrow> cstr \<Rightarrow> ('j, 'u) sg_node_fn option \<Rightarrow>
     turbo_state_graph_status_t \<times> ('j, 'u) turbo_state_graph \<times> alloc" where
  "turbo_state_graph_add_json_value_node_owned a graph name fn =
     (case (name, fn) of
        (Some n, Some f) \<Rightarrow>
          if turbo_state_graph_find_node_index graph n \<noteq> None
          then (TURBO_STATE_GRAPH_DUPLICATE_NODE, graph, a)
          else
            (case turbo_state_graph_reserve a (sg_node_capacity graph) (length (sg_nodes graph) + 1) of
               (reserved, capacity, a) \<Rightarrow>
                 let graph = graph\<lparr>sg_node_capacity := capacity\<rparr>
                 in if \<not> reserved then (TURBO_STATE_GRAPH_OUT_OF_MEMORY, graph, a)
                    else
                      let (ok, a) = alloc1 a
                      in if \<not> ok then (TURBO_STATE_GRAPH_OUT_OF_MEMORY, graph, a)
                         else (TURBO_STATE_GRAPH_OK,
                               graph\<lparr>sg_nodes := sg_nodes graph @ [\<lparr>sn_name = n, sn_json_value_fn = f\<rparr>]\<rparr>, a))
      | _ \<Rightarrow> (TURBO_STATE_GRAPH_INVALID_ARGUMENT, graph, a))"

definition turbo_state_graph_add_json_value_node ::
    "alloc \<Rightarrow> ('j, 'u) turbo_state_graph \<Rightarrow> cstr \<Rightarrow> ('j, 'u) sg_node_fn option \<Rightarrow>
     turbo_state_graph_status_t \<times> ('j, 'u) turbo_state_graph \<times> alloc" where
  "turbo_state_graph_add_json_value_node a graph name fn =
     turbo_state_graph_add_json_value_node_owned a graph name fn"

definition turbo_state_graph_add_json_value_edge ::
    "alloc \<Rightarrow> ('j, 'u) turbo_state_graph \<Rightarrow> cstr \<Rightarrow> cstr \<Rightarrow> ('j, 'u) sg_predicate_fn option \<Rightarrow>
     turbo_state_graph_status_t \<times> ('j, 'u) turbo_state_graph \<times> alloc" where
  "turbo_state_graph_add_json_value_edge a graph from to predicate =
     (case (from, to) of
        (Some f, Some t) \<Rightarrow>
          (case (turbo_state_graph_find_node_index graph f, turbo_state_graph_find_node_index graph t) of
             (Some from_index, Some to_index) \<Rightarrow>
               (case turbo_state_graph_reserve a (sg_edge_capacity graph) (length (sg_edges graph) + 1) of
                  (reserved, capacity, a) \<Rightarrow>
                    let graph = graph\<lparr>sg_edge_capacity := capacity\<rparr>
                    in if \<not> reserved then (TURBO_STATE_GRAPH_OUT_OF_MEMORY, graph, a)
                       else (TURBO_STATE_GRAPH_OK,
                             graph\<lparr>sg_edges := sg_edges graph @
                               [\<lparr>se_from_index = from_index, se_to_index = to_index, se_predicate = predicate\<rparr>]\<rparr>, a))
           | _ \<Rightarrow> (TURBO_STATE_GRAPH_NODE_NOT_FOUND, graph, a))
      | _ \<Rightarrow> (TURBO_STATE_GRAPH_INVALID_ARGUMENT, graph, a))"

definition turbo_state_graph_set_entry ::
    "alloc \<Rightarrow> ('j, 'u) turbo_state_graph \<Rightarrow> cstr \<Rightarrow>
     turbo_state_graph_status_t \<times> ('j, 'u) turbo_state_graph \<times> alloc" where
  "turbo_state_graph_set_entry a graph name =
     (case name of None \<Rightarrow> (TURBO_STATE_GRAPH_INVALID_ARGUMENT, graph, a)
      | Some n \<Rightarrow>
          if turbo_state_graph_find_node_index graph n = None then (TURBO_STATE_GRAPH_NODE_NOT_FOUND, graph, a)
          else let (ok, a) = alloc1 a
               in if \<not> ok then (TURBO_STATE_GRAPH_OUT_OF_MEMORY, graph, a)
                  else (TURBO_STATE_GRAPH_OK, graph\<lparr>sg_entry_node := Some n\<rparr>, a))"

definition turbo_state_graph_get_entry :: "('j, 'u) turbo_state_graph option \<Rightarrow> cstr" where
  "turbo_state_graph_get_entry graph = (case graph of None \<Rightarrow> None | Some g \<Rightarrow> sg_entry_node g)"

definition turbo_state_graph_channel_count :: "('j, 'u) turbo_state_graph option \<Rightarrow> nat" where
  "turbo_state_graph_channel_count graph = (case graph of None \<Rightarrow> 0 | Some g \<Rightarrow> length (sg_channels g))"

definition turbo_state_graph_node_count :: "('j, 'u) turbo_state_graph option \<Rightarrow> nat" where
  "turbo_state_graph_node_count graph = (case graph of None \<Rightarrow> 0 | Some g \<Rightarrow> length (sg_nodes g))"

definition turbo_state_graph_edge_count :: "('j, 'u) turbo_state_graph option \<Rightarrow> nat" where
  "turbo_state_graph_edge_count graph = (case graph of None \<Rightarrow> 0 | Some g \<Rightarrow> length (sg_edges g))"

subsection \<open>What a node callback can call\<close>

definition turbo_state_graph_ctx_set_next ::
    "('j, 'u) turbo_state_graph \<Rightarrow> 'j turbo_state_graph_exec_ctx \<Rightarrow> cstr \<Rightarrow>
     turbo_state_graph_status_t \<times> 'j turbo_state_graph_exec_ctx" where
  "turbo_state_graph_ctx_set_next graph ctx next_node =
     (case next_node of None \<Rightarrow> (TURBO_STATE_GRAPH_INVALID_ARGUMENT, ctx)
      | Some n \<Rightarrow>
          if turbo_state_graph_find_node_index graph n = None then (TURBO_STATE_GRAPH_NODE_NOT_FOUND, ctx)
          else (TURBO_STATE_GRAPH_OK, ctx\<lparr>sx_next_node := next_node\<rparr>))"

definition turbo_state_graph_ctx_goto ::
    "('j, 'u) turbo_state_graph \<Rightarrow> 'j turbo_state_graph_exec_ctx \<Rightarrow> cstr \<Rightarrow>
     turbo_state_graph_status_t \<times> 'j turbo_state_graph_exec_ctx" where
  "turbo_state_graph_ctx_goto graph ctx next_node = turbo_state_graph_ctx_set_next graph ctx next_node"

definition turbo_state_graph_ctx_send ::
    "('j, 'd) json_lib \<Rightarrow> alloc \<Rightarrow> 'j turbo_state_graph_exec_ctx \<Rightarrow> cstr \<Rightarrow> 'j option \<Rightarrow>
     turbo_state_graph_status_t \<times> 'j turbo_state_graph_exec_ctx \<times> alloc" where
  "turbo_state_graph_ctx_send J a ctx target_node update =
     (case (target_node, update) of
        (Some n, Some u) \<Rightarrow>
          if jl_type J u \<noteq> JSON_OBJECT then (TURBO_STATE_GRAPH_INVALID_ARGUMENT, ctx, a)
          else
            (case turbo_state_graph_reserve a (sx_send_capacity ctx) (length (sx_sends ctx) + 1) of
               (reserved, capacity, a) \<Rightarrow>
                 let ctx = ctx\<lparr>sx_send_capacity := capacity\<rparr>
                 in if \<not> reserved then (TURBO_STATE_GRAPH_OUT_OF_MEMORY, ctx, a)
                    else
                      (case alloc_all 2 a of (ok, a) \<Rightarrow>
                         if \<not> ok then (TURBO_STATE_GRAPH_OUT_OF_MEMORY, ctx, a)
                         else (TURBO_STATE_GRAPH_OK,
                               ctx\<lparr>sx_sends := sx_sends ctx @ [\<lparr>ps_target_node = n, ps_update = u\<rparr>]\<rparr>, a)))
      | _ \<Rightarrow> (TURBO_STATE_GRAPH_INVALID_ARGUMENT, ctx, a))"

definition turbo_state_graph_ctx_stop :: "'j turbo_state_graph_exec_ctx \<Rightarrow> 'j turbo_state_graph_exec_ctx" where
  "turbo_state_graph_ctx_stop ctx = ctx\<lparr>sx_stop := True\<rparr>"

end
