(* ===== verification/State_Graph_Run.thy ===== *)
theory State_Graph_Run
  imports State_Graph_Core
begin

section \<open>State graphs: threads, runs and history\<close>

text \<open>
  The records a state graph keeps of its threads, runs and history entries, the execution of a run, and the
  operations that start, resume, update and branch runs. The allocation oracle is the one of the world. A function
  of the C code that loops over node callbacks may not return; it then denotes \<open>None\<close>.
\<close>

subsection \<open>Looking up records\<close>

definition turbo_state_graph_find_thread :: "('j, 'u) turbo_state_graph \<Rightarrow> cstr \<Rightarrow> nat option" where
  "turbo_state_graph_find_thread graph thread_id =
     (case thread_id of None \<Rightarrow> None
      | Some t \<Rightarrow> find (\<lambda>i. th_id (sg_threads graph ! i) = t) [0..<length (sg_threads graph)])"

definition turbo_state_graph_latest_run_for_thread :: "('j, 'u) turbo_state_graph \<Rightarrow> string \<Rightarrow> nat option" where
  "turbo_state_graph_latest_run_for_thread graph thread_id =
     find (\<lambda>i. re_thread_id (sg_runs graph ! i) = thread_id) (rev [0..<length (sg_runs graph)])"

definition turbo_state_graph_pending_run_for_thread :: "('j, 'u) turbo_state_graph \<Rightarrow> string \<Rightarrow> nat option" where
  "turbo_state_graph_pending_run_for_thread graph thread_id =
     find (\<lambda>i. re_thread_id (sg_runs graph ! i) = thread_id \<and> re_interrupted (sg_runs graph ! i))
       (rev [0..<length (sg_runs graph)])"

definition turbo_state_graph_find_run :: "('j, 'u) turbo_state_graph \<Rightarrow> cstr \<Rightarrow> nat option" where
  "turbo_state_graph_find_run graph run_id =
     (case run_id of None \<Rightarrow> None
      | Some r \<Rightarrow> find (\<lambda>i. re_id (sg_runs graph ! i) = r) [0..<length (sg_runs graph)])"

definition turbo_state_graph_find_history :: "('j, 'u) turbo_state_graph \<Rightarrow> cstr \<Rightarrow> nat option" where
  "turbo_state_graph_find_history graph history_entry_id =
     (case history_entry_id of None \<Rightarrow> None
      | Some h \<Rightarrow> find (\<lambda>i. he_id (sg_history graph ! i) = h) [0..<length (sg_history graph)])"

definition turbo_state_graph_find_checkpoint :: "('j, 'u) turbo_state_graph \<Rightarrow> cstr \<Rightarrow> nat option" where
  "turbo_state_graph_find_checkpoint graph checkpoint_id =
     (case checkpoint_id of None \<Rightarrow> None
      | Some c \<Rightarrow> find (\<lambda>i. he_checkpoint_id (sg_history graph ! i) = c) [0..<length (sg_history graph)])"

definition turbo_state_graph_clear_runtime_state ::
    "('j, 'u) turbo_state_graph \<Rightarrow> ('j, 'u) turbo_state_graph" where
  "turbo_state_graph_clear_runtime_state graph =
     graph\<lparr>sg_threads := [], sg_thread_capacity := 0, sg_runs := [], sg_run_capacity := 0, sg_history := [],
           sg_history_capacity := 0, sg_next_thread_id := 0, sg_next_run_id := 0, sg_next_history_id := 0,
           sg_next_checkpoint_id := 0\<rparr>"

subsection \<open>Adding records\<close>

definition upd_run :: "nat \<Rightarrow> ('j turbo_state_graph_run_entry \<Rightarrow> 'j turbo_state_graph_run_entry) \<Rightarrow>
    ('j, 'u) turbo_state_graph \<Rightarrow> ('j, 'u) turbo_state_graph" where
  "upd_run ri f graph = graph\<lparr>sg_runs := (sg_runs graph)[ri := f (sg_runs graph ! ri)]\<rparr>"

definition upd_thread :: "nat \<Rightarrow> (turbo_state_graph_thread_entry \<Rightarrow> turbo_state_graph_thread_entry) \<Rightarrow>
    ('j, 'u) turbo_state_graph \<Rightarrow> ('j, 'u) turbo_state_graph" where
  "upd_thread ti f graph = graph\<lparr>sg_threads := (sg_threads graph)[ti := f (sg_threads graph ! ti)]\<rparr>"

definition turbo_state_graph_add_thread_record ::
    "alloc \<Rightarrow> ('j, 'u) turbo_state_graph \<Rightarrow> cstr \<Rightarrow>
     turbo_state_graph_status_t \<times> nat option \<times> ('j, 'u) turbo_state_graph \<times> alloc" where
  "turbo_state_graph_add_thread_record a graph requested_thread_id =
     (let requested = (case requested_thread_id of None \<Rightarrow> False | Some t \<Rightarrow> t \<noteq> []);
          existing = (if requested then turbo_state_graph_find_thread graph requested_thread_id else None)
      in (case existing of
            Some ti \<Rightarrow> (TURBO_STATE_GRAPH_OK, Some ti, graph, a)
          | None \<Rightarrow>
             (let graph = (if requested then graph
                           else graph\<lparr>sg_next_thread_id := sg_next_thread_id graph + 1\<rparr>);
                  (thread_id_copy, a) =
                    (if requested then turbo_state_graph_strdup a requested_thread_id
                     else turbo_state_graph_make_id a ''thread'' (sg_next_thread_id graph))
              in (case thread_id_copy of
                    None \<Rightarrow> (TURBO_STATE_GRAPH_OUT_OF_MEMORY, None, graph, a)
                  | Some t \<Rightarrow>
                     (case turbo_state_graph_reserve a (sg_thread_capacity graph) (length (sg_threads graph) + 1) of
                        (reserved, capacity, a) \<Rightarrow>
                          let graph = graph\<lparr>sg_thread_capacity := capacity\<rparr>
                          in if \<not> reserved then (TURBO_STATE_GRAPH_OUT_OF_MEMORY, None, graph, a)
                             else (TURBO_STATE_GRAPH_OK, Some (length (sg_threads graph)),
                                   graph\<lparr>sg_threads := sg_threads graph @ [\<lparr>th_id = t, th_current_run_id = None\<rparr>]\<rparr>, a))))))"

definition turbo_state_graph_add_run_record ::
    "alloc \<Rightarrow> ('j, 'u) turbo_state_graph \<Rightarrow> string \<Rightarrow> cstr \<Rightarrow> cstr \<Rightarrow> 'j \<Rightarrow> cstr \<Rightarrow> size_t \<Rightarrow>
     turbo_state_graph_status_t \<times> nat option \<times> ('j, 'u) turbo_state_graph \<times> alloc" where
  "turbo_state_graph_add_run_record a graph thread_id parent_run_id forked_from_history_id state current_node steps =
     (case turbo_state_graph_reserve a (sg_run_capacity graph) (length (sg_runs graph) + 1) of
        (reserved, capacity, a) \<Rightarrow>
          let graph = graph\<lparr>sg_run_capacity := capacity\<rparr>
          in if \<not> reserved then (TURBO_STATE_GRAPH_OUT_OF_MEMORY, None, graph, a)
             else
               let graph = graph\<lparr>sg_next_run_id := sg_next_run_id graph + 1\<rparr>;
                   run_id = make_id ''run'' (sg_next_run_id graph);
                   (ok, a) = strdups a [Some run_id, Some thread_id, parent_run_id, forked_from_history_id,
                                        current_node, Some []]
               in if \<not> ok then (TURBO_STATE_GRAPH_OUT_OF_MEMORY, None, graph, a)
                  else
                    (TURBO_STATE_GRAPH_OK, Some (length (sg_runs graph)),
                     graph\<lparr>sg_runs := sg_runs graph @
                       [\<lparr>re_id = run_id, re_thread_id = thread_id, re_parent_run_id = parent_run_id,
                         re_forked_from_history_id = forked_from_history_id, re_latest_history_entry_id = None,
                         re_current_node = current_node, re_steps = steps, re_interrupted = False,
                         re_completed = (current_node = None), re_state = state\<rparr>]\<rparr>, a))"

definition turbo_state_graph_add_history_record ::
    "('j, 'd) json_lib \<Rightarrow> alloc \<Rightarrow> ('j, 'u) turbo_state_graph \<Rightarrow> nat \<Rightarrow> turbo_state_graph_source_kind_t \<Rightarrow>
     cstr \<Rightarrow> cstr \<Rightarrow> cstr \<Rightarrow> cstr \<Rightarrow> size_t \<Rightarrow> 'j option \<Rightarrow> 'j \<Rightarrow>
     turbo_state_graph_status_t \<times> nat option \<times> ('j, 'u) turbo_state_graph \<times> alloc" where
  "turbo_state_graph_add_history_record J a graph ri source_kind source_name reason last_node next_node step update state =
     (case turbo_state_graph_reserve a (sg_history_capacity graph) (length (sg_history graph) + 1) of
        (reserved, capacity, a) \<Rightarrow>
          let graph = graph\<lparr>sg_history_capacity := capacity\<rparr>
          in if \<not> reserved then (TURBO_STATE_GRAPH_OUT_OF_MEMORY, None, graph, a)
             else
               (case alloc_all 2 a of (ok, a) \<Rightarrow>
                  if \<not> ok then (TURBO_STATE_GRAPH_OUT_OF_MEMORY, None, graph, a)
                  else
                    let graph = graph\<lparr>sg_next_history_id := sg_next_history_id graph + 1,
                                      sg_next_checkpoint_id := sg_next_checkpoint_id graph + 1\<rparr>;
                        run = sg_runs graph ! ri;
                        history_id = make_id ''history'' (sg_next_history_id graph);
                        entry = \<lparr>he_id = history_id,
                                 he_checkpoint_id = make_id ''checkpoint'' (sg_next_checkpoint_id graph),
                                 he_thread_id = re_thread_id run, he_run_id = re_id run,
                                 he_source_name = source_name, he_reason = reason,
                                 he_last_node = last_node, he_next_node = next_node,
                                 he_source_kind = source_kind, he_step = step,
                                 he_update = (case update of Some u \<Rightarrow> u | None \<Rightarrow> jl_object J), he_state = state\<rparr>;
                        (ok, a) = strdups a [Some [], Some [], Some [], Some [], source_name, reason, last_node, next_node]
                    in if \<not> ok then (TURBO_STATE_GRAPH_OUT_OF_MEMORY, None, graph, a)
                       else
                         let (ok, a) = alloc1 a
                         in if \<not> ok
                            then (TURBO_STATE_GRAPH_OUT_OF_MEMORY, None,
                                  upd_run ri (\<lambda>r. r\<lparr>re_latest_history_entry_id := None\<rparr>) graph, a)
                            else (TURBO_STATE_GRAPH_OK, Some (length (sg_history graph)),
                                  upd_run ri (\<lambda>r. r\<lparr>re_latest_history_entry_id := Some history_id\<rparr>)
                                    (graph\<lparr>sg_history := sg_history graph @ [entry]\<rparr>), a)))"

subsection \<open>Options, results, and the variables of a run\<close>

record turbo_state_graph_run_options =
  so_max_steps :: size_t
  so_start_node :: cstr
  so_interrupt_before_nodes :: "cstr list"
  so_skip_initial_interrupt :: bool

record turbo_state_graph_history_options =
  ho_as_node :: cstr
  ho_reason :: cstr

record turbo_state_graph_run_result =
  sr_status :: turbo_state_graph_status_t
  sr_thread_id :: cstr
  sr_run_id :: cstr
  sr_history_entry_id :: cstr
  sr_checkpoint_id :: cstr
  sr_last_node :: cstr
  sr_next_node :: cstr
  sr_steps :: size_t

text \<open>What a call leaves: the status, \<open>*out_result\<close> and \<open>*out_state\<close> (\<open>None\<close> when not written, respectively
  \<open>NULL\<close>), the graph and the world.\<close>

record ('j, 'u) sg_call =
  sk_status :: turbo_state_graph_status_t
  sk_result :: "turbo_state_graph_run_result option"
  sk_state :: "'j option"
  sk_graph :: "('j, 'u) turbo_state_graph"
  sk_world :: "'u world"

record ('j, 'u) exec_state =
  xs_graph :: "('j, 'u) turbo_state_graph"
  xs_current :: string
  xs_steps :: size_t
  xs_skip :: bool
  xs_latest :: "nat option"
  xs_world :: "'u world"

type_synonym ('j, 'u) exec_step = "('j, 'u) sg_call + ('j, 'u) exec_state"

definition turbo_state_graph_should_interrupt_before ::
    "turbo_state_graph_run_options option \<Rightarrow> string \<Rightarrow> bool" where
  "turbo_state_graph_should_interrupt_before options node_name =
     (case options of None \<Rightarrow> False
      | Some o' \<Rightarrow> (\<exists>candidate \<in> set (so_interrupt_before_nodes o').
                    case candidate of None \<Rightarrow> False | Some c \<Rightarrow> strcmp c node_name = 0))"

text \<open>The ids and the last node of \<open>latest_history\<close>, when there is one.\<close>

definition turbo_state_graph_result_init ::
    "('j, 'u) turbo_state_graph \<Rightarrow> nat \<Rightarrow> nat option \<Rightarrow> turbo_state_graph_status_t \<Rightarrow> cstr \<Rightarrow> size_t \<Rightarrow>
     turbo_state_graph_run_result" where
  "turbo_state_graph_result_init graph ri latest status next_node steps =
     \<lparr>sr_status = status, sr_thread_id = Some (re_thread_id (sg_runs graph ! ri)),
      sr_run_id = Some (re_id (sg_runs graph ! ri)),
      sr_history_entry_id = map_option (\<lambda>h. he_id (sg_history graph ! h)) latest,
      sr_checkpoint_id = map_option (\<lambda>h. he_checkpoint_id (sg_history graph ! h)) latest,
      sr_last_node = Option.bind latest (\<lambda>h. he_last_node (sg_history graph ! h)),
      sr_next_node = next_node, sr_steps = steps\<rparr>"

definition sg_fail :: "turbo_state_graph_status_t \<Rightarrow> ('j, 'u) turbo_state_graph \<Rightarrow> 'u world \<Rightarrow> ('j, 'u) sg_call" where
  "sg_fail status graph w =
     \<lparr>sk_status = status, sk_result = None, sk_state = None, sk_graph = graph, sk_world = w\<rparr>"

text \<open>\<open>result_init(...); *out_state = json_clone(run->state); return *out_state ? status : OUT_OF_MEMORY\<close>.\<close>

definition finish_with_state ::
    "nat \<Rightarrow> turbo_state_graph_run_result \<Rightarrow> ('j, 'u) turbo_state_graph \<Rightarrow> 'u world \<Rightarrow> ('j, 'u) sg_call" where
  "finish_with_state ri result graph w =
     (case ch_draw w of (ok, w) \<Rightarrow>
        \<lparr>sk_status = (if ok then sr_status result else TURBO_STATE_GRAPH_OUT_OF_MEMORY), sk_result = Some result,
         sk_state = (if ok then Some (re_state (sg_runs graph ! ri)) else None), sk_graph = graph, sk_world = w\<rparr>)"

subsection \<open>Running nodes\<close>

definition apply_to_run ::
    "('j, 'd) json_lib \<Rightarrow> nat \<Rightarrow> 'j \<Rightarrow> ('j, 'u) turbo_state_graph \<Rightarrow> 'u world \<Rightarrow>
     turbo_state_graph_status_t \<times> ('j, 'u) turbo_state_graph \<times> 'u world" where
  "apply_to_run J ri update graph w =
     (case turbo_state_graph_apply_update J graph (ch_alloc w) (re_state (sg_runs graph ! ri)) update of
        (status, state, a) \<Rightarrow> (status, upd_run ri (\<lambda>r. r\<lparr>re_state := state\<rparr>) graph, w\<lparr>ch_alloc := a\<rparr>))"

definition record_history ::
    "('j, 'd) json_lib \<Rightarrow> nat \<Rightarrow> turbo_state_graph_source_kind_t \<Rightarrow> cstr \<Rightarrow> cstr \<Rightarrow> cstr \<Rightarrow> cstr \<Rightarrow> size_t \<Rightarrow> 'j \<Rightarrow>
     ('j, 'u) turbo_state_graph \<Rightarrow> 'u world \<Rightarrow>
     turbo_state_graph_status_t \<times> nat option \<times> ('j, 'u) turbo_state_graph \<times> 'u world" where
  "record_history J ri source_kind source_name reason last_node next_node step update graph w =
     (case turbo_state_graph_add_history_record J (ch_alloc w) graph ri source_kind source_name reason last_node
             next_node step (Some update) (re_state (sg_runs graph ! ri)) of
        (status, h, graph, a) \<Rightarrow> (status, h, graph, w\<lparr>ch_alloc := a\<rparr>))"

text \<open>The second half of a send: the target node runs on the state the send left, and may not route, stop or send.\<close>

definition send_target_node ::
    "('j, 'd) json_lib \<Rightarrow> nat \<Rightarrow> nat \<Rightarrow> size_t \<Rightarrow> nat option \<Rightarrow> ('j, 'u) turbo_state_graph \<Rightarrow> 'u world \<Rightarrow>
     turbo_state_graph_status_t \<times> nat option \<times> ('j, 'u) turbo_state_graph \<times> 'u world" where
  "send_target_node J ri target_index step latest graph w =
     (case ch_draw w of (ok, w) \<Rightarrow>
        if \<not> ok then (TURBO_STATE_GRAPH_OUT_OF_MEMORY, latest, graph, w)
        else
          let node = sg_nodes graph ! target_index
          in (case sn_json_value_fn node
                     \<lparr>sx_state = re_state (sg_runs graph ! ri), sx_update = jl_object J, sx_current_node = sn_name node,
                      sx_next_node = None, sx_sends = [], sx_send_capacity = 0, sx_step = step, sx_stop = False\<rparr> w of
                (callback_status, ctx, w) \<Rightarrow>
                  if callback_status \<noteq> 0 \<or> length (sx_sends ctx) > 0 \<or> sx_next_node ctx \<noteq> None \<or> sx_stop ctx
                  then (TURBO_STATE_GRAPH_ERROR, latest, graph, w)
                  else
                    (case apply_to_run J ri (sx_update ctx) graph w of (status, graph, w) \<Rightarrow>
                       if status \<noteq> TURBO_STATE_GRAPH_OK then (status, latest, graph, w)
                       else
                         (case record_history J ri TURBO_STATE_GRAPH_SOURCE_NODE (Some (sn_name node))
                                 (Some ''send_target'') (Some (sn_name node)) None step (sx_update ctx) graph w of
                            (status, h, graph, w) \<Rightarrow>
                              (status, if status = TURBO_STATE_GRAPH_OK then h else latest, graph, w)))))"

definition turbo_state_graph_execute_send_node ::
    "('j, 'd) json_lib \<Rightarrow> nat \<Rightarrow> 'j turbo_state_graph_pending_send \<Rightarrow> size_t \<Rightarrow> nat option \<Rightarrow>
     ('j, 'u) turbo_state_graph \<Rightarrow> 'u world \<Rightarrow>
     turbo_state_graph_status_t \<times> nat option \<times> ('j, 'u) turbo_state_graph \<times> 'u world" where
  "turbo_state_graph_execute_send_node J ri send step latest graph w =
     (if jl_type J (ps_update send) \<noteq> JSON_OBJECT then (TURBO_STATE_GRAPH_TYPE_MISMATCH, latest, graph, w)
      else
        (case turbo_state_graph_find_node_index graph (ps_target_node send) of
           None \<Rightarrow> (TURBO_STATE_GRAPH_NODE_NOT_FOUND, latest, graph, w)
         | Some target_index \<Rightarrow>
            (case ch_draw w of (ok, w) \<Rightarrow>
               if \<not> ok then (TURBO_STATE_GRAPH_OUT_OF_MEMORY, latest, graph, w)
               else
                 (case apply_to_run J ri (ps_update send) graph w of (status, graph, w) \<Rightarrow>
                    if status \<noteq> TURBO_STATE_GRAPH_OK then (status, latest, graph, w)
                    else
                      (case record_history J ri TURBO_STATE_GRAPH_SOURCE_NODE (Some (ps_target_node send))
                              (Some ''send'') None (Some (ps_target_node send)) step (ps_update send) graph w of
                         (status, h, graph, w) \<Rightarrow>
                           if status \<noteq> TURBO_STATE_GRAPH_OK then (status, latest, graph, w)
                           else send_target_node J ri target_index step h graph w)))))"

subsection \<open>Executing a run\<close>

fun execute_sends ::
    "('j, 'd) json_lib \<Rightarrow> nat \<Rightarrow> 'j turbo_state_graph_pending_send list \<Rightarrow> size_t \<Rightarrow> nat option \<Rightarrow>
     ('j, 'u) turbo_state_graph \<Rightarrow> 'u world \<Rightarrow>
     turbo_state_graph_status_t \<times> nat option \<times> ('j, 'u) turbo_state_graph \<times> 'u world" where
  "execute_sends J ri [] step latest graph w = (TURBO_STATE_GRAPH_OK, latest, graph, w)"
| "execute_sends J ri (send # sends) step latest graph w =
     (case turbo_state_graph_execute_send_node J ri send step latest graph w of (status, latest, graph, w) \<Rightarrow>
        if status \<noteq> TURBO_STATE_GRAPH_OK then (status, latest, graph, w)
        else execute_sends J ri sends step latest graph w)"

text \<open>The first outgoing edge without a predicate or whose predicate holds; the flag is \<open>saw_outgoing\<close>.\<close>

fun sg_route ::
    "('j, 'u) turbo_state_graph \<Rightarrow> nat \<Rightarrow> 'j \<Rightarrow> ('j, 'u) turbo_state_graph_edge_entry list \<Rightarrow> bool \<Rightarrow> 'u world \<Rightarrow>
     cstr \<times> bool \<times> 'u world" where
  "sg_route graph current_index state [] saw_outgoing w = (None, saw_outgoing, w)"
| "sg_route graph current_index state (edge # edges) saw_outgoing w =
     (if se_from_index edge \<noteq> current_index then sg_route graph current_index state edges saw_outgoing w
      else
        (case (case se_predicate edge of None \<Rightarrow> (1, w) | Some predicate \<Rightarrow> predicate state w) of (matches, w) \<Rightarrow>
           if matches \<noteq> 0 then (Some (sn_name (sg_nodes graph ! se_to_index edge)), True, w)
           else sg_route graph current_index state edges True w))"

text \<open>The end of a pass: count the step, move the run, record it, stop or go on. \<open>steps\<close> is the old count.\<close>

definition execute_commit ::
    "('j, 'd) json_lib \<Rightarrow> nat \<Rightarrow> string \<Rightarrow> cstr \<Rightarrow> bool \<Rightarrow> 'j \<Rightarrow> size_t \<Rightarrow> ('j, 'u) turbo_state_graph \<Rightarrow> 'u world \<Rightarrow>
     ('j, 'u) exec_step" where
  "execute_commit J ri executed_node resolved_next stop update steps graph w =
     (case turbo_state_graph_strdup (ch_alloc w) resolved_next of (current_copy, a) \<Rightarrow>
        let steps = steps + 1;
            w = w\<lparr>ch_alloc := a\<rparr>;
            graph = upd_run ri (\<lambda>r. r\<lparr>re_steps := steps, re_current_node := current_copy, re_interrupted := False,
                                      re_completed := (resolved_next = None)\<rparr>) graph
        in if resolved_next \<noteq> None \<and> current_copy = None
           then Inl (sg_fail TURBO_STATE_GRAPH_OUT_OF_MEMORY graph w)
           else
             (case record_history J ri TURBO_STATE_GRAPH_SOURCE_NODE (Some executed_node) None (Some executed_node)
                     resolved_next steps update graph w of
                (status, latest, graph, w) \<Rightarrow>
                  if status \<noteq> TURBO_STATE_GRAPH_OK then Inl (sg_fail status graph w)
                  else if stop
                  then
                    let graph = upd_run ri (\<lambda>r. r\<lparr>re_current_node := None, re_completed := True,
                                                  re_interrupted := False\<rparr>) graph
                    in Inl (finish_with_state ri
                              (turbo_state_graph_result_init graph ri latest TURBO_STATE_GRAPH_STOP None steps) graph w)
                  else
                    (case current_copy of
                       None \<Rightarrow> Inl (finish_with_state ri
                                 (turbo_state_graph_result_init graph ri latest TURBO_STATE_GRAPH_OK None steps) graph w)
                     | Some n \<Rightarrow> Inr \<lparr>xs_graph = graph, xs_current = n, xs_steps = steps, xs_skip = False,
                                     xs_latest = latest, xs_world = w\<rparr>)))"

text \<open>After the callback of the current node returned.\<close>

definition execute_after_node ::
    "('j, 'd) json_lib \<Rightarrow> nat \<Rightarrow> nat \<Rightarrow> string \<Rightarrow> 'j turbo_state_graph_exec_ctx \<Rightarrow> size_t \<Rightarrow> nat option \<Rightarrow>
     ('j, 'u) turbo_state_graph \<Rightarrow> 'u world \<Rightarrow> ('j, 'u) exec_step" where
  "execute_after_node J ri current_index executed_node ctx steps latest graph w =
     (case apply_to_run J ri (sx_update ctx) graph w of (status, graph, w) \<Rightarrow>
        if status \<noteq> TURBO_STATE_GRAPH_OK then Inl (sg_fail status graph w)
        else
          (case execute_sends J ri (sx_sends ctx) (steps + 1) latest graph w of (status, latest, graph, w) \<Rightarrow>
             if status \<noteq> TURBO_STATE_GRAPH_OK then Inl (sg_fail status graph w)
             else
               (case sx_next_node ctx of
                  Some n \<Rightarrow> execute_commit J ri executed_node (Some n) (sx_stop ctx) (sx_update ctx) steps graph w
                | None \<Rightarrow>
                   (case sg_route graph current_index (re_state (sg_runs graph ! ri)) (sg_edges graph) False w of
                      (resolved_next, saw_outgoing, w) \<Rightarrow>
                        if saw_outgoing \<and> resolved_next = None
                        then Inl (sg_fail TURBO_STATE_GRAPH_ROUTE_NOT_FOUND graph w)
                        else execute_commit J ri executed_node resolved_next (sx_stop ctx) (sx_update ctx) steps
                               graph w))))"

definition execute_node ::
    "('j, 'd) json_lib \<Rightarrow> nat \<Rightarrow> ('j, 'u) exec_state \<Rightarrow> ('j, 'u) exec_step" where
  "execute_node J ri s =
     (let graph = xs_graph s
      in (case turbo_state_graph_find_node_index graph (xs_current s) of
            None \<Rightarrow> Inl (sg_fail TURBO_STATE_GRAPH_NODE_NOT_FOUND graph (xs_world s))
          | Some current_index \<Rightarrow>
             (case ch_draw (xs_world s) of (ok, w) \<Rightarrow>
                if \<not> ok then Inl (sg_fail TURBO_STATE_GRAPH_OUT_OF_MEMORY graph w)
                else
                  let node = sg_nodes graph ! current_index
                  in (case sn_json_value_fn node
                             \<lparr>sx_state = re_state (sg_runs graph ! ri), sx_update = jl_object J,
                              sx_current_node = sn_name node, sx_next_node = None, sx_sends = [],
                              sx_send_capacity = 0, sx_step = xs_steps s, sx_stop = False\<rparr> w of
                        (callback_status, ctx, w) \<Rightarrow>
                          if callback_status \<noteq> 0 then Inl (sg_fail TURBO_STATE_GRAPH_ERROR graph w)
                          else execute_after_node J ri current_index (sn_name node) ctx (xs_steps s) (xs_latest s)
                                 graph w))))"

definition execute_run_step ::
    "('j, 'd) json_lib \<Rightarrow> nat \<Rightarrow> turbo_state_graph_run_options option \<Rightarrow> ('j, 'u) exec_state \<Rightarrow> ('j, 'u) exec_step" where
  "execute_run_step J ri options s =
     (let max_steps = (case options of None \<Rightarrow> 0 | Some o' \<Rightarrow> so_max_steps o')
      in if max_steps > 0 \<and> xs_steps s \<ge> max_steps
         then
           (case turbo_state_graph_strdup (ch_alloc (xs_world s)) (Some (xs_current s)) of (copy, a) \<Rightarrow>
              let graph = upd_run ri (\<lambda>r. r\<lparr>re_current_node := copy, re_interrupted := False, re_completed := False\<rparr>)
                            (xs_graph s)
              in Inl \<lparr>sk_status = TURBO_STATE_GRAPH_STEP_LIMIT,
                      sk_result = Some (turbo_state_graph_result_init graph ri (xs_latest s) TURBO_STATE_GRAPH_STEP_LIMIT
                        (Some (xs_current s)) (xs_steps s)),
                      sk_state = None, sk_graph = graph, sk_world = (xs_world s)\<lparr>ch_alloc := a\<rparr>\<rparr>)
         else if \<not> xs_skip s \<and> turbo_state_graph_should_interrupt_before options (xs_current s)
         then
           (case ch_draw (xs_world s) of (ok, w) \<Rightarrow>
              if \<not> ok then Inl (sg_fail TURBO_STATE_GRAPH_OUT_OF_MEMORY (xs_graph s) w)
              else
                let graph = upd_run ri (\<lambda>r. r\<lparr>re_current_node := Some (xs_current s), re_interrupted := True,
                                              re_completed := False\<rparr>) (xs_graph s)
                in Inl (finish_with_state ri
                          (turbo_state_graph_result_init graph ri (xs_latest s) TURBO_STATE_GRAPH_INTERRUPTED
                             (Some (xs_current s)) (xs_steps s)) graph w))
         else execute_node J ri s)"

definition turbo_state_graph_execute_run ::
    "('j, 'd) json_lib \<Rightarrow> nat \<Rightarrow> turbo_state_graph_run_options option \<Rightarrow> ('j, 'u) turbo_state_graph \<Rightarrow> 'u world \<Rightarrow>
     ('j, 'u) sg_call option" where
  "turbo_state_graph_execute_run J ri options graph w =
     (let run = sg_runs graph ! ri;
          current_node = (case options of None \<Rightarrow> re_current_node run
                          | Some o' \<Rightarrow> (case so_start_node o' of Some n \<Rightarrow> Some n | None \<Rightarrow> re_current_node run));
          latest = turbo_state_graph_find_history graph (re_latest_history_entry_id run)
      in (case current_node of
            None \<Rightarrow>
              (let graph = upd_run ri (\<lambda>r. r\<lparr>re_completed := True, re_interrupted := False\<rparr>) graph
               in Some \<lparr>sk_status = TURBO_STATE_GRAPH_RUN_COMPLETED,
                        sk_result = Some (turbo_state_graph_result_init graph ri latest TURBO_STATE_GRAPH_RUN_COMPLETED
                          None (re_steps run)),
                        sk_state = None, sk_graph = graph, sk_world = w\<rparr>)
          | Some n \<Rightarrow>
              run_loop (execute_run_step J ri options)
                \<lparr>xs_graph = graph, xs_current = n, xs_steps = re_steps run,
                 xs_skip = (case options of None \<Rightarrow> False | Some o' \<Rightarrow> so_skip_initial_interrupt o'),
                 xs_latest = latest, xs_world = w\<rparr>))"

subsection \<open>Starting, resuming, updating, branching\<close>

definition turbo_state_graph_seed_run ::
    "('j, 'd) json_lib \<Rightarrow> nat \<Rightarrow> turbo_state_graph_source_kind_t \<Rightarrow> cstr \<Rightarrow> cstr \<Rightarrow> 'j option \<Rightarrow> cstr \<Rightarrow> size_t \<Rightarrow>
     ('j, 'u) turbo_state_graph \<Rightarrow> 'u world \<Rightarrow>
     turbo_state_graph_status_t \<times> nat option \<times> ('j, 'u) turbo_state_graph \<times> 'u world" where
  "turbo_state_graph_seed_run J ri source_kind source_name reason update next_node step graph w =
     (case ch_draw w of (ok, w) \<Rightarrow>
        if \<not> ok then (TURBO_STATE_GRAPH_OUT_OF_MEMORY, None, graph, w)
        else
          let update_object = (case update of Some u \<Rightarrow> u | None \<Rightarrow> jl_object J)
          in if jl_type J update_object \<noteq> JSON_OBJECT then (TURBO_STATE_GRAPH_TYPE_MISMATCH, None, graph, w)
             else
               (case apply_to_run J ri update_object graph w of (status, graph, w) \<Rightarrow>
                  if status \<noteq> TURBO_STATE_GRAPH_OK then (status, None, graph, w)
                  else
                    (case turbo_state_graph_strdup (ch_alloc w) next_node of (copy, a) \<Rightarrow>
                       let w = w\<lparr>ch_alloc := a\<rparr>;
                           graph = upd_run ri (\<lambda>r. r\<lparr>re_current_node := copy\<rparr>) graph
                       in if next_node \<noteq> None \<and> copy = None then (TURBO_STATE_GRAPH_OUT_OF_MEMORY, None, graph, w)
                          else
                            record_history J ri source_kind source_name reason None next_node step update_object
                              (upd_run ri (\<lambda>r. r\<lparr>re_steps := step, re_completed := (next_node = None),
                                                 re_interrupted := False\<rparr>) graph) w)))"

text \<open>Making a run the current one of its thread.\<close>

definition set_current_run ::
    "nat \<Rightarrow> nat \<Rightarrow> ('j, 'u) turbo_state_graph \<Rightarrow> 'u world \<Rightarrow> bool \<times> ('j, 'u) turbo_state_graph \<times> 'u world" where
  "set_current_run ti ri graph w =
     (case ch_draw w of (ok, w) \<Rightarrow>
        (ok, upd_thread ti (\<lambda>t. t\<lparr>th_current_run_id := (if ok then Some (re_id (sg_runs graph ! ri)) else None)\<rparr>) graph, w))"

definition turbo_state_graph_start ::
    "('j, 'd) json_lib \<Rightarrow> cstr \<Rightarrow> 'j option \<Rightarrow> turbo_state_graph_run_options option \<Rightarrow> ('j, 'u) turbo_state_graph \<Rightarrow>
     'u world \<Rightarrow> ('j, 'u) sg_call option" where
  "turbo_state_graph_start J thread_id input_state options graph w =
     (let start_node = (case options of None \<Rightarrow> sg_entry_node graph
                        | Some o' \<Rightarrow> (case so_start_node o' of Some n \<Rightarrow> Some n | None \<Rightarrow> sg_entry_node graph))
      in if start_node = None then Some (sg_fail TURBO_STATE_GRAPH_INVALID_ARGUMENT graph w)
         else
           (case ch_draw w of (ok, w) \<Rightarrow>
              if \<not> ok then Some (sg_fail TURBO_STATE_GRAPH_OUT_OF_MEMORY graph w)
              else
                (case turbo_state_graph_seed_defaults J graph (ch_alloc w) (jl_object J) of (status, seed_state, a) \<Rightarrow>
                   if status \<noteq> TURBO_STATE_GRAPH_OK then Some (sg_fail status graph (w\<lparr>ch_alloc := a\<rparr>))
                   else
                     (case turbo_state_graph_add_thread_record a graph thread_id of
                        (status, None, graph, a) \<Rightarrow> Some (sg_fail status graph (w\<lparr>ch_alloc := a\<rparr>))
                      | (_, Some ti, graph, a) \<Rightarrow>
                         (case turbo_state_graph_add_run_record a graph (th_id (sg_threads graph ! ti)) None None
                                 seed_state start_node 0 of
                            (status, None, graph, a) \<Rightarrow> Some (sg_fail status graph (w\<lparr>ch_alloc := a\<rparr>))
                          | (_, Some ri, graph, a) \<Rightarrow>
                             (case turbo_state_graph_seed_run J ri TURBO_STATE_GRAPH_SOURCE_START (Some ''start'') None
                                     input_state start_node 0 graph (w\<lparr>ch_alloc := a\<rparr>) of
                                (status, _, graph, w) \<Rightarrow>
                                  if status \<noteq> TURBO_STATE_GRAPH_OK then Some (sg_fail status graph w)
                                  else
                                    (case set_current_run ti ri graph w of (ok, graph, w) \<Rightarrow>
                                       if \<not> ok then Some (sg_fail TURBO_STATE_GRAPH_OUT_OF_MEMORY graph w)
                                       else turbo_state_graph_execute_run J ri options graph w)))))))"

definition turbo_state_graph_resume ::
    "('j, 'd) json_lib \<Rightarrow> cstr \<Rightarrow> turbo_state_graph_run_options option \<Rightarrow> ('j, 'u) turbo_state_graph \<Rightarrow>
     'u world \<Rightarrow> ('j, 'u) sg_call option" where
  "turbo_state_graph_resume J run_id options graph w =
     (if run_id = None then Some (sg_fail TURBO_STATE_GRAPH_INVALID_ARGUMENT graph w)
      else
        (case turbo_state_graph_find_run graph run_id of
           None \<Rightarrow> Some (sg_fail TURBO_STATE_GRAPH_RUN_NOT_FOUND graph w)
         | Some ri \<Rightarrow>
             if re_current_node (sg_runs graph ! ri) = None
             then Some (sg_fail TURBO_STATE_GRAPH_RUN_COMPLETED graph w)
             else
               (case turbo_state_graph_find_thread graph (Some (re_thread_id (sg_runs graph ! ri))) of
                  None \<Rightarrow> Some (sg_fail TURBO_STATE_GRAPH_THREAD_NOT_FOUND graph w)
                | Some ti \<Rightarrow>
                   (case set_current_run ti ri graph w of (ok, graph, w) \<Rightarrow>
                      if \<not> ok then Some (sg_fail TURBO_STATE_GRAPH_OUT_OF_MEMORY graph w)
                      else turbo_state_graph_execute_run J ri options graph w))))"

definition turbo_state_graph_update_state ::
    "('j, 'd) json_lib \<Rightarrow> cstr \<Rightarrow> 'j option \<Rightarrow> turbo_state_graph_history_options option \<Rightarrow>
     ('j, 'u) turbo_state_graph \<Rightarrow> 'u world \<Rightarrow> ('j, 'u) sg_call" where
  "turbo_state_graph_update_state J run_id update options graph w =
     (case (run_id, update) of
        (Some _, Some u) \<Rightarrow>
          if jl_type J u \<noteq> JSON_OBJECT then sg_fail TURBO_STATE_GRAPH_TYPE_MISMATCH graph w
          else
            (case turbo_state_graph_find_run graph run_id of
               None \<Rightarrow> sg_fail TURBO_STATE_GRAPH_RUN_NOT_FOUND graph w
             | Some ri \<Rightarrow>
                (case ch_draw w of (ok, w) \<Rightarrow>
                   if \<not> ok then sg_fail TURBO_STATE_GRAPH_OUT_OF_MEMORY graph w
                   else
                     (case apply_to_run J ri u graph w of (status, graph, w) \<Rightarrow>
                        if status \<noteq> TURBO_STATE_GRAPH_OK then sg_fail status graph w
                        else
                          let source_name = (case options of None \<Rightarrow> Some ''host_update''
                                             | Some o' \<Rightarrow> (case ho_as_node o' of Some n \<Rightarrow> Some n | None \<Rightarrow> Some ''host_update''));
                              run = sg_runs graph ! ri
                          in (case record_history J ri TURBO_STATE_GRAPH_SOURCE_HOST source_name
                                     (case options of None \<Rightarrow> None | Some o' \<Rightarrow> ho_reason o') source_name
                                     (re_current_node run) (re_steps run) u graph w of
                                (status, latest, graph, w) \<Rightarrow>
                                  if status \<noteq> TURBO_STATE_GRAPH_OK then sg_fail status graph w
                                  else
                                    (case ch_draw w of (ok, w) \<Rightarrow>
                                       if \<not> ok then sg_fail TURBO_STATE_GRAPH_OUT_OF_MEMORY graph w
                                       else
                                         \<lparr>sk_status = TURBO_STATE_GRAPH_OK,
                                          sk_result = Some (turbo_state_graph_result_init graph ri latest TURBO_STATE_GRAPH_OK
                                            (re_current_node run) (re_steps run)),
                                          sk_state = Some (re_state (sg_runs graph ! ri)),
                                          sk_graph = graph, sk_world = w\<rparr>)))))
      | _ \<Rightarrow> sg_fail TURBO_STATE_GRAPH_INVALID_ARGUMENT graph w)"

text \<open>The end of \<open>turbo_state_graph_branch_from_history\<close>, once the new run is seeded.\<close>

definition branch_finish ::
    "('j, 'd) json_lib \<Rightarrow> nat \<Rightarrow> nat option \<Rightarrow> turbo_state_graph_run_options option \<Rightarrow> ('j, 'u) turbo_state_graph \<Rightarrow>
     'u world \<Rightarrow> ('j, 'u) sg_call option" where
  "branch_finish J ri seed_history run_options graph w =
     (if re_current_node (sg_runs graph ! ri) = None
      then
        (case ch_draw w of (ok, w) \<Rightarrow>
           if \<not> ok then Some (sg_fail TURBO_STATE_GRAPH_OUT_OF_MEMORY graph w)
           else
             Some \<lparr>sk_status = TURBO_STATE_GRAPH_OK,
                   sk_result = Some ((turbo_state_graph_result_init graph ri seed_history TURBO_STATE_GRAPH_OK None
                     (re_steps (sg_runs graph ! ri)))\<lparr>sr_last_node := None\<rparr>),
                   sk_state = Some (re_state (sg_runs graph ! ri)), sk_graph = graph, sk_world = w\<rparr>)
      else turbo_state_graph_execute_run J ri run_options graph w)"

definition turbo_state_graph_branch_from_history ::
    "('j, 'd) json_lib \<Rightarrow> cstr \<Rightarrow> 'j option \<Rightarrow> turbo_state_graph_history_options option \<Rightarrow>
     turbo_state_graph_run_options option \<Rightarrow> bool \<Rightarrow> turbo_state_graph_source_kind_t \<Rightarrow>
     ('j, 'u) turbo_state_graph \<Rightarrow> 'u world \<Rightarrow> ('j, 'u) sg_call option" where
  "turbo_state_graph_branch_from_history J history_entry_id update history_options run_options make_current source_kind
       graph w =
     (if history_entry_id = None then Some (sg_fail TURBO_STATE_GRAPH_INVALID_ARGUMENT graph w)
      else
        (case turbo_state_graph_find_history graph history_entry_id of
           None \<Rightarrow> Some (sg_fail TURBO_STATE_GRAPH_HISTORY_NOT_FOUND graph w)
         | Some h \<Rightarrow>
            (let history_entry = sg_history graph ! h
             in (case turbo_state_graph_find_run graph (Some (he_run_id history_entry)) of
                   None \<Rightarrow> Some (sg_fail TURBO_STATE_GRAPH_RUN_NOT_FOUND graph w)
                 | Some _ \<Rightarrow>
                    (case turbo_state_graph_find_thread graph (Some (he_thread_id history_entry)) of
                       None \<Rightarrow> Some (sg_fail TURBO_STATE_GRAPH_THREAD_NOT_FOUND graph w)
                     | Some ti \<Rightarrow>
                        (case turbo_state_graph_add_run_record (ch_alloc w) graph (he_thread_id history_entry)
                                (Some (he_run_id history_entry))
                                (if source_kind = TURBO_STATE_GRAPH_SOURCE_FORK then Some (he_id history_entry) else None)
                                (he_state history_entry) (he_next_node history_entry) (he_step history_entry) of
                           (status, None, graph, a) \<Rightarrow> Some (sg_fail status graph (w\<lparr>ch_alloc := a\<rparr>))
                         | (_, Some ri, graph, a) \<Rightarrow>
                            (let default_name = (if source_kind = TURBO_STATE_GRAPH_SOURCE_FORK then ''fork_from_history''
                                                 else ''resume_from_history'');
                                 source_name = (case history_options of None \<Rightarrow> Some default_name
                                   | Some o' \<Rightarrow> (case ho_as_node o' of Some n \<Rightarrow> Some n | None \<Rightarrow> Some default_name))
                             in (case turbo_state_graph_seed_run J ri source_kind source_name
                                        (case history_options of None \<Rightarrow> None | Some o' \<Rightarrow> ho_reason o') update
                                        (he_next_node history_entry) (he_step history_entry) graph (w\<lparr>ch_alloc := a\<rparr>) of
                                   (status, seed_history, graph, w) \<Rightarrow>
                                     if status \<noteq> TURBO_STATE_GRAPH_OK then Some (sg_fail status graph w)
                                     else if make_current
                                     then
                                       (case set_current_run ti ri graph w of (ok, graph, w) \<Rightarrow>
                                          if \<not> ok then Some (sg_fail TURBO_STATE_GRAPH_OUT_OF_MEMORY graph w)
                                          else branch_finish J ri seed_history run_options graph w)
                                     else branch_finish J ri seed_history run_options graph w))))))))"

definition turbo_state_graph_resume_from_history ::
    "('j, 'd) json_lib \<Rightarrow> cstr \<Rightarrow> 'j option \<Rightarrow> turbo_state_graph_history_options option \<Rightarrow>
     turbo_state_graph_run_options option \<Rightarrow> ('j, 'u) turbo_state_graph \<Rightarrow> 'u world \<Rightarrow> ('j, 'u) sg_call option" where
  "turbo_state_graph_resume_from_history J history_entry_id update history_options run_options graph w =
     turbo_state_graph_branch_from_history J history_entry_id update history_options run_options True
       TURBO_STATE_GRAPH_SOURCE_HOST graph w"

definition turbo_state_graph_fork_from_history ::
    "('j, 'd) json_lib \<Rightarrow> cstr \<Rightarrow> 'j option \<Rightarrow> turbo_state_graph_history_options option \<Rightarrow>
     turbo_state_graph_run_options option \<Rightarrow> ('j, 'u) turbo_state_graph \<Rightarrow> 'u world \<Rightarrow> ('j, 'u) sg_call option" where
  "turbo_state_graph_fork_from_history J history_entry_id update history_options run_options graph w =
     turbo_state_graph_branch_from_history J history_entry_id update history_options run_options False
       TURBO_STATE_GRAPH_SOURCE_FORK graph w"

end
