(* ===== verification/State_Graph_Query.thy ===== *)
theory State_Graph_Query
  imports State_Graph_Run
begin

section \<open>State graphs: queries\<close>

text \<open>
  The JSON objects that describe channels, history entries, runs, threads and branches, and the queries
  that return them.
\<close>

subsection \<open>Objects\<close>

definition turbo_state_graph_json_value_object_set_nullable_string ::
    "('j, 'd) json_lib \<Rightarrow> string \<Rightarrow> cstr \<Rightarrow> 'j \<Rightarrow> alloc \<Rightarrow> bool \<times> 'j \<times> alloc" where
  "turbo_state_graph_json_value_object_set_nullable_string J key value object a =
     (case json_create a (case value of Some s \<Rightarrow> jl_string_of J s | None \<Rightarrow> jl_null J) of
        (None, a) \<Rightarrow> (False, object, a)
      | (Some field, a) \<Rightarrow> f_value J key field object a)"

definition turbo_state_graph_set_nullable_string_field ::
    "('j, 'd) json_lib \<Rightarrow> string \<Rightarrow> cstr \<Rightarrow> 'j \<Rightarrow> alloc \<Rightarrow> bool \<times> 'j \<times> alloc" where
  "turbo_state_graph_set_nullable_string_field J key value object a =
     turbo_state_graph_json_value_object_set_nullable_string J key value object a"

text \<open>An object made by a chain of settings, out of memory when one fails.\<close>

definition build_object ::
    "('j, 'd) json_lib \<Rightarrow> ('j \<Rightarrow> alloc \<Rightarrow> bool \<times> 'j \<times> alloc) list \<Rightarrow> alloc \<Rightarrow>
     turbo_state_graph_status_t \<times> 'j option \<times> alloc" where
  "build_object J settings a =
     (case json_create a (jl_object J) of
        (None, a) \<Rightarrow> (TURBO_STATE_GRAPH_OUT_OF_MEMORY, None, a)
      | (Some object, a) \<Rightarrow>
         (case set_fields settings object a of
            (None, a) \<Rightarrow> (TURBO_STATE_GRAPH_OUT_OF_MEMORY, None, a)
          | (Some object, a) \<Rightarrow> (TURBO_STATE_GRAPH_OK, Some object, a)))"

text \<open>An array filled by a loop that ends at the first failure.\<close>

fun fill_array ::
    "('j, 'd) json_lib \<Rightarrow> ('x \<Rightarrow> alloc \<Rightarrow> turbo_state_graph_status_t \<times> 'j option \<times> alloc) \<Rightarrow> 'x list \<Rightarrow> 'j \<Rightarrow> alloc \<Rightarrow>
     turbo_state_graph_status_t \<times> 'j option \<times> alloc" where
  "fill_array J build [] array a = (TURBO_STATE_GRAPH_OK, Some array, a)"
| "fill_array J build (x # xs) array a =
     (case build x a of
        (status, None, a) \<Rightarrow> (status, None, a)
      | (_, Some v, a) \<Rightarrow>
         (case turbo_runtime_json_array_append J a array (Some v) of (st, array, a) \<Rightarrow>
            if st \<noteq> TURBO_RUNTIME_JSON_OK then (TURBO_STATE_GRAPH_OUT_OF_MEMORY, None, a)
            else fill_array J build xs array a))"

fun reducer_code :: "turbo_state_graph_reducer_kind_t \<Rightarrow> int" where
  "reducer_code TURBO_STATE_GRAPH_REDUCER_REPLACE = 0"
| "reducer_code TURBO_STATE_GRAPH_REDUCER_APPEND = 1"
| "reducer_code TURBO_STATE_GRAPH_REDUCER_MERGE_OBJECT = 2"
| "reducer_code TURBO_STATE_GRAPH_REDUCER_ADD = 3"
| "reducer_code TURBO_STATE_GRAPH_REDUCER_LAST_NON_NULL = 4"

definition turbo_state_graph_channel_object ::
    "('j, 'd) json_lib \<Rightarrow> 'j turbo_state_graph_channel_entry \<Rightarrow> alloc \<Rightarrow>
     turbo_state_graph_status_t \<times> 'j option \<times> alloc" where
  "turbo_state_graph_channel_object J channel a =
     build_object J
       [f_string J ''name'' (sc_name channel),
        f_int64 J ''reducer'' (reducer_code (sc_reducer channel)),
        f_int64 J ''value_kind'' (jl_type_code J (sc_value_kind channel)),
        turbo_state_graph_set_nullable_string_field J ''description'' (sc_description channel),
        f_clone J ''default_value'' (sc_default_value channel)] a"

text \<open>\<open>(int64_t)\<close> of a \<open>size_t\<close>.\<close>

definition int64_of_size :: "size_t \<Rightarrow> int" where
  "int64_of_size n = sint n"

definition turbo_state_graph_history_object ::
    "('j, 'd) json_lib \<Rightarrow> 'j turbo_state_graph_history_entry \<Rightarrow> alloc \<Rightarrow>
     turbo_state_graph_status_t \<times> 'j option \<times> alloc" where
  "turbo_state_graph_history_object J h a =
     (case build_object J
        [f_string J ''history_entry_id'' (he_id h),
         f_string J ''checkpoint_id'' (he_checkpoint_id h),
         f_string J ''thread_id'' (he_thread_id h),
         f_string J ''run_id'' (he_run_id h),
         f_string J ''source_kind'' (turbo_state_graph_source_kind_text (he_source_kind h)),
         turbo_state_graph_json_value_object_set_nullable_string J ''source_name'' (he_source_name h),
         turbo_state_graph_json_value_object_set_nullable_string J ''reason'' (he_reason h),
         turbo_state_graph_json_value_object_set_nullable_string J ''last_node'' (he_last_node h),
         turbo_state_graph_json_value_object_set_nullable_string J ''next_node'' (he_next_node h),
         f_int64 J ''step'' (int64_of_size (he_step h)),
         f_clone J ''update'' (he_update h),
         f_clone J ''state'' (he_state h)] a of
        (status, None, a) \<Rightarrow> (status, None, a)
      | (_, Some object, a) \<Rightarrow>
         (case json_create a (jl_bool_of J True) of
            (None, a) \<Rightarrow> (TURBO_STATE_GRAPH_OUT_OF_MEMORY, None, a)
          | (Some value, a) \<Rightarrow>
             (case f_value J ''checkpointable'' value object a of (ok, object, a) \<Rightarrow>
                if ok then (TURBO_STATE_GRAPH_OK, Some object, a) else (TURBO_STATE_GRAPH_OUT_OF_MEMORY, None, a))))"

definition run_fields :: "('j, 'd) json_lib \<Rightarrow> 'j turbo_state_graph_run_entry \<Rightarrow>
    ('j \<Rightarrow> alloc \<Rightarrow> bool \<times> 'j \<times> alloc) list" where
  "run_fields J run =
     [turbo_state_graph_json_value_object_set_nullable_string J ''parent_run_id'' (re_parent_run_id run),
      turbo_state_graph_json_value_object_set_nullable_string J ''forked_from_history_id'' (re_forked_from_history_id run),
      turbo_state_graph_json_value_object_set_nullable_string J ''latest_history_entry_id''
        (re_latest_history_entry_id run),
      turbo_state_graph_json_value_object_set_nullable_string J ''next_node'' (re_current_node run),
      f_string J ''status'' (turbo_state_graph_run_status_text run),
      f_int64 J ''steps'' (int64_of_size (re_steps run)),
      f_clone J ''state'' (re_state run)]"

definition turbo_state_graph_run_object ::
    "('j, 'd) json_lib \<Rightarrow> 'j turbo_state_graph_run_entry \<Rightarrow> alloc \<Rightarrow>
     turbo_state_graph_status_t \<times> 'j option \<times> alloc" where
  "turbo_state_graph_run_object J run a =
     build_object J
       ([f_string J ''run_id'' (re_id run), f_string J ''thread_id'' (re_thread_id run)] @ run_fields J run) a"

definition turbo_state_graph_thread_object ::
    "('j, 'd) json_lib \<Rightarrow> turbo_state_graph_thread_entry \<Rightarrow> 'j option \<Rightarrow> alloc \<Rightarrow>
     turbo_state_graph_status_t \<times> 'j option \<times> alloc" where
  "turbo_state_graph_thread_object J thread current_state a =
     build_object J
       ([f_string J ''thread_id'' (th_id thread),
         turbo_state_graph_json_value_object_set_nullable_string J ''current_run_id'' (th_current_run_id thread)] @
        (case current_state of None \<Rightarrow> [] | Some v \<Rightarrow> [f_clone J ''current_state'' v])) a"

definition branch_object ::
    "('j, 'd) json_lib \<Rightarrow> 'j turbo_state_graph_run_entry \<Rightarrow> alloc \<Rightarrow>
     turbo_state_graph_status_t \<times> 'j option \<times> alloc" where
  "branch_object J run a = build_object J (f_string J ''run_id'' (re_id run) # run_fields J run) a"

definition turbo_state_graph_branch_tree_object ::
    "('j, 'd) json_lib \<Rightarrow> ('j, 'u) turbo_state_graph \<Rightarrow> turbo_state_graph_thread_entry \<Rightarrow> alloc \<Rightarrow>
     turbo_state_graph_status_t \<times> 'j option \<times> alloc" where
  "turbo_state_graph_branch_tree_object J graph thread a =
     (case alloc_all 2 a of (ok, a) \<Rightarrow>
        if \<not> ok then (TURBO_STATE_GRAPH_OUT_OF_MEMORY, None, a)
        else
          (case set_fields
             [f_string J ''thread_id'' (th_id thread),
              turbo_state_graph_json_value_object_set_nullable_string J ''current_run_id'' (th_current_run_id thread)]
             (jl_object J) a of
             (None, a) \<Rightarrow> (TURBO_STATE_GRAPH_OUT_OF_MEMORY, None, a)
           | (Some root, a) \<Rightarrow>
              (case fill_array J (branch_object J) (filter (\<lambda>r. re_thread_id r = th_id thread) (sg_runs graph))
                      (jl_array J) a of
                 (status, None, a) \<Rightarrow> (status, None, a)
               | (_, Some branches, a) \<Rightarrow>
                  (case f_value J ''branches'' branches root a of (ok, root, a) \<Rightarrow>
                     if ok then (TURBO_STATE_GRAPH_OK, Some root, a) else (TURBO_STATE_GRAPH_OUT_OF_MEMORY, None, a)))))"

subsection \<open>Queries\<close>

text \<open>Each returns its status, the value written to its out-parameter (\<open>None\<close> for \<open>NULL\<close>), and the rest of the
  allocation oracle.\<close>

type_synonym 'j query = "turbo_state_graph_status_t \<times> 'j option \<times> alloc"

definition clone_out :: "alloc \<Rightarrow> 'j \<Rightarrow> 'j query" where
  "clone_out a v =
     (case json_create a v of (out, a) \<Rightarrow>
        (if out \<noteq> None then TURBO_STATE_GRAPH_OK else TURBO_STATE_GRAPH_OUT_OF_MEMORY, out, a))"

definition turbo_state_graph_get_state :: "('j, 'u) turbo_state_graph \<Rightarrow> cstr \<Rightarrow> alloc \<Rightarrow> 'j query" where
  "turbo_state_graph_get_state graph run_id a =
     (if run_id = None then (TURBO_STATE_GRAPH_INVALID_ARGUMENT, None, a)
      else (case turbo_state_graph_find_run graph run_id of
              None \<Rightarrow> (TURBO_STATE_GRAPH_RUN_NOT_FOUND, None, a)
            | Some ri \<Rightarrow> clone_out a (re_state (sg_runs graph ! ri))))"

definition turbo_state_graph_get_run :: "('j, 'd) json_lib \<Rightarrow> ('j, 'u) turbo_state_graph \<Rightarrow> cstr \<Rightarrow> alloc \<Rightarrow> 'j query" where
  "turbo_state_graph_get_run J graph run_id a =
     (if run_id = None then (TURBO_STATE_GRAPH_INVALID_ARGUMENT, None, a)
      else (case turbo_state_graph_find_run graph run_id of
              None \<Rightarrow> (TURBO_STATE_GRAPH_RUN_NOT_FOUND, None, a)
            | Some ri \<Rightarrow> turbo_state_graph_run_object J (sg_runs graph ! ri) a))"

definition turbo_state_graph_get_thread :: "('j, 'd) json_lib \<Rightarrow> ('j, 'u) turbo_state_graph \<Rightarrow> cstr \<Rightarrow> alloc \<Rightarrow> 'j query" where
  "turbo_state_graph_get_thread J graph thread_id a =
     (if thread_id = None then (TURBO_STATE_GRAPH_INVALID_ARGUMENT, None, a)
      else (case turbo_state_graph_find_thread graph thread_id of
              None \<Rightarrow> (TURBO_STATE_GRAPH_THREAD_NOT_FOUND, None, a)
            | Some ti \<Rightarrow>
               (let thread = sg_threads graph ! ti
                in turbo_state_graph_thread_object J thread
                     (map_option (\<lambda>ri. re_state (sg_runs graph ! ri))
                        (turbo_state_graph_find_run graph (th_current_run_id thread))) a)))"

definition turbo_state_graph_get_latest_run ::
    "('j, 'd) json_lib \<Rightarrow> ('j, 'u) turbo_state_graph \<Rightarrow> cstr \<Rightarrow> alloc \<Rightarrow> 'j query" where
  "turbo_state_graph_get_latest_run J graph thread_id a =
     (case thread_id of None \<Rightarrow> (TURBO_STATE_GRAPH_INVALID_ARGUMENT, None, a)
      | Some t \<Rightarrow>
          if turbo_state_graph_find_thread graph thread_id = None then (TURBO_STATE_GRAPH_THREAD_NOT_FOUND, None, a)
          else (case turbo_state_graph_latest_run_for_thread graph t of
                  None \<Rightarrow> (TURBO_STATE_GRAPH_RUN_NOT_FOUND, None, a)
                | Some ri \<Rightarrow> turbo_state_graph_run_object J (sg_runs graph ! ri) a))"

definition turbo_state_graph_get_pending_run ::
    "('j, 'd) json_lib \<Rightarrow> ('j, 'u) turbo_state_graph \<Rightarrow> cstr \<Rightarrow> alloc \<Rightarrow> 'j query" where
  "turbo_state_graph_get_pending_run J graph thread_id a =
     (case thread_id of None \<Rightarrow> (TURBO_STATE_GRAPH_INVALID_ARGUMENT, None, a)
      | Some t \<Rightarrow>
          if turbo_state_graph_find_thread graph thread_id = None then (TURBO_STATE_GRAPH_THREAD_NOT_FOUND, None, a)
          else (case turbo_state_graph_pending_run_for_thread graph t of
                  None \<Rightarrow> (TURBO_STATE_GRAPH_RUN_NOT_FOUND, None, a)
                | Some ri \<Rightarrow> turbo_state_graph_run_object J (sg_runs graph ! ri) a))"

definition turbo_state_graph_get_thread_state :: "('j, 'u) turbo_state_graph \<Rightarrow> cstr \<Rightarrow> alloc \<Rightarrow> 'j query" where
  "turbo_state_graph_get_thread_state graph thread_id a =
     (if thread_id = None then (TURBO_STATE_GRAPH_INVALID_ARGUMENT, None, a)
      else (case turbo_state_graph_find_thread graph thread_id of
              None \<Rightarrow> (TURBO_STATE_GRAPH_THREAD_NOT_FOUND, None, a)
            | Some ti \<Rightarrow>
                if th_current_run_id (sg_threads graph ! ti) = None then (TURBO_STATE_GRAPH_RUN_NOT_FOUND, None, a)
                else turbo_state_graph_get_state graph (th_current_run_id (sg_threads graph ! ti)) a))"

definition turbo_state_graph_get_history_entry ::
    "('j, 'd) json_lib \<Rightarrow> ('j, 'u) turbo_state_graph \<Rightarrow> cstr \<Rightarrow> alloc \<Rightarrow> 'j query" where
  "turbo_state_graph_get_history_entry J graph history_entry_id a =
     (if history_entry_id = None then (TURBO_STATE_GRAPH_INVALID_ARGUMENT, None, a)
      else (case turbo_state_graph_find_history graph history_entry_id of
              None \<Rightarrow> (TURBO_STATE_GRAPH_HISTORY_NOT_FOUND, None, a)
            | Some h \<Rightarrow> turbo_state_graph_history_object J (sg_history graph ! h) a))"

definition turbo_state_graph_get_history_entry_state ::
    "('j, 'u) turbo_state_graph \<Rightarrow> cstr \<Rightarrow> alloc \<Rightarrow> 'j query" where
  "turbo_state_graph_get_history_entry_state graph history_entry_id a =
     (if history_entry_id = None then (TURBO_STATE_GRAPH_INVALID_ARGUMENT, None, a)
      else (case turbo_state_graph_find_history graph history_entry_id of
              None \<Rightarrow> (TURBO_STATE_GRAPH_HISTORY_NOT_FOUND, None, a)
            | Some h \<Rightarrow> clone_out a (he_state (sg_history graph ! h))))"

definition turbo_state_graph_get_checkpoint ::
    "('j, 'd) json_lib \<Rightarrow> ('j, 'u) turbo_state_graph \<Rightarrow> cstr \<Rightarrow> alloc \<Rightarrow> 'j query" where
  "turbo_state_graph_get_checkpoint J graph checkpoint_id a =
     (if checkpoint_id = None then (TURBO_STATE_GRAPH_INVALID_ARGUMENT, None, a)
      else (case turbo_state_graph_find_checkpoint graph checkpoint_id of
              None \<Rightarrow> (TURBO_STATE_GRAPH_HISTORY_NOT_FOUND, None, a)
            | Some h \<Rightarrow> turbo_state_graph_history_object J (sg_history graph ! h) a))"

definition turbo_state_graph_list_state_history ::
    "('j, 'd) json_lib \<Rightarrow> ('j, 'u) turbo_state_graph \<Rightarrow> cstr \<Rightarrow> alloc \<Rightarrow> 'j query" where
  "turbo_state_graph_list_state_history J graph run_id a =
     (case run_id of None \<Rightarrow> (TURBO_STATE_GRAPH_INVALID_ARGUMENT, None, a)
      | Some r \<Rightarrow>
          if turbo_state_graph_find_run graph run_id = None then (TURBO_STATE_GRAPH_RUN_NOT_FOUND, None, a)
          else (case json_create a (jl_array J) of
                  (None, a) \<Rightarrow> (TURBO_STATE_GRAPH_OUT_OF_MEMORY, None, a)
                | (Some entries, a) \<Rightarrow>
                    fill_array J (turbo_state_graph_history_object J)
                      (filter (\<lambda>h. he_run_id h = r) (sg_history graph)) entries a))"

definition turbo_state_graph_list_checkpoints ::
    "('j, 'd) json_lib \<Rightarrow> ('j, 'u) turbo_state_graph \<Rightarrow> cstr \<Rightarrow> alloc \<Rightarrow> 'j query" where
  "turbo_state_graph_list_checkpoints J graph run_id a = turbo_state_graph_list_state_history J graph run_id a"

definition turbo_state_graph_list_runs ::
    "('j, 'd) json_lib \<Rightarrow> ('j, 'u) turbo_state_graph \<Rightarrow> cstr \<Rightarrow> alloc \<Rightarrow> 'j query" where
  "turbo_state_graph_list_runs J graph thread_id a =
     (case thread_id of None \<Rightarrow> (TURBO_STATE_GRAPH_INVALID_ARGUMENT, None, a)
      | Some t \<Rightarrow>
          if turbo_state_graph_find_thread graph thread_id = None then (TURBO_STATE_GRAPH_THREAD_NOT_FOUND, None, a)
          else (case json_create a (jl_array J) of
                  (None, a) \<Rightarrow> (TURBO_STATE_GRAPH_OUT_OF_MEMORY, None, a)
                | (Some runs, a) \<Rightarrow>
                    fill_array J (turbo_state_graph_run_object J)
                      (filter (\<lambda>r. re_thread_id r = t) (sg_runs graph)) runs a))"

definition turbo_state_graph_get_checkpoint_context ::
    "('j, 'd) json_lib \<Rightarrow> ('j, 'u) turbo_state_graph \<Rightarrow> cstr \<Rightarrow> alloc \<Rightarrow> 'j query" where
  "turbo_state_graph_get_checkpoint_context J graph checkpoint_id a =
     (if checkpoint_id = None then (TURBO_STATE_GRAPH_INVALID_ARGUMENT, None, a)
      else
        (case turbo_state_graph_find_checkpoint graph checkpoint_id of
           None \<Rightarrow> (TURBO_STATE_GRAPH_HISTORY_NOT_FOUND, None, a)
         | Some h \<Rightarrow>
            (let entry = sg_history graph ! h
             in (case turbo_state_graph_find_run graph (Some (he_run_id entry)) of
                   None \<Rightarrow> (TURBO_STATE_GRAPH_RUN_NOT_FOUND, None, a)
                 | Some ri \<Rightarrow>
                    (case turbo_state_graph_find_thread graph (Some (he_thread_id entry)) of
                       None \<Rightarrow> (TURBO_STATE_GRAPH_THREAD_NOT_FOUND, None, a)
                     | Some ti \<Rightarrow>
                        (case turbo_state_graph_history_object J entry a of
                           (status, None, a) \<Rightarrow> (status, None, a)
                         | (_, Some checkpoint, a) \<Rightarrow>
                            (case turbo_state_graph_run_object J (sg_runs graph ! ri) a of
                               (status, None, a) \<Rightarrow> (status, None, a)
                             | (_, Some run_object, a) \<Rightarrow>
                                (case turbo_state_graph_thread_object J (sg_threads graph ! ti)
                                        (Some (re_state (sg_runs graph ! ri))) a of
                                   (status, None, a) \<Rightarrow> (status, None, a)
                                 | (_, Some thread_object, a) \<Rightarrow>
                                    (case turbo_state_graph_branch_tree_object J graph (sg_threads graph ! ti) a of
                                       (status, None, a) \<Rightarrow> (status, None, a)
                                     | (_, Some branch_tree, a) \<Rightarrow>
                                         build_object J
                                           [f_value J ''checkpoint'' checkpoint, f_value J ''run'' run_object,
                                            f_value J ''thread'' thread_object,
                                            f_value J ''branch_tree'' branch_tree] a)))))))))"

definition turbo_state_graph_get_branch_tree ::
    "('j, 'd) json_lib \<Rightarrow> ('j, 'u) turbo_state_graph \<Rightarrow> cstr \<Rightarrow> alloc \<Rightarrow> 'j query" where
  "turbo_state_graph_get_branch_tree J graph thread_id a =
     (if thread_id = None then (TURBO_STATE_GRAPH_INVALID_ARGUMENT, None, a)
      else (case turbo_state_graph_find_thread graph thread_id of
              None \<Rightarrow> (TURBO_STATE_GRAPH_THREAD_NOT_FOUND, None, a)
            | Some ti \<Rightarrow> turbo_state_graph_branch_tree_object J graph (sg_threads graph ! ti) a))"

end
