(* ===== verification/State_Graph_Snapshot.thy ===== *)
theory State_Graph_Snapshot
  imports State_Graph_Query Graph_Topology
begin

section \<open>State graphs: snapshots\<close>

text \<open>
  The text form of a state graph's records, the check of a snapshot against the graph that loads it, and loading it.
  What they promise is in \<open>State_Graph_Roundtrip\<close>.
\<close>

subsection \<open>Writing a snapshot\<close>

definition TURBO_STATE_GRAPH_SNAPSHOT_SCHEMA_VERSION :: int where
  "TURBO_STATE_GRAPH_SNAPSHOT_SCHEMA_VERSION = 1"

definition turbo_state_graph_snapshot_schema_version :: size_t where
  "turbo_state_graph_snapshot_schema_version = of_int TURBO_STATE_GRAPH_SNAPSHOT_SCHEMA_VERSION"

definition node_value :: "('j, 'd) json_lib \<Rightarrow> ('j, 'u) turbo_state_graph_node_entry \<Rightarrow> alloc \<Rightarrow> 'j query" where
  "node_value J node a =
     (case json_create a (jl_string_of J (sn_name node)) of
        (None, a) \<Rightarrow> (TURBO_STATE_GRAPH_OUT_OF_MEMORY, None, a)
      | (Some v, a) \<Rightarrow> (TURBO_STATE_GRAPH_OK, Some v, a))"

definition edge_object ::
    "('j, 'd) json_lib \<Rightarrow> ('j, 'u) turbo_state_graph \<Rightarrow> ('j, 'u) turbo_state_graph_edge_entry \<Rightarrow> alloc \<Rightarrow> 'j query" where
  "edge_object J graph edge a =
     build_object J
       [f_string J ''from'' (sn_name (sg_nodes graph ! se_from_index edge)),
        f_string J ''to'' (sn_name (sg_nodes graph ! se_to_index edge))] a"

definition turbo_state_graph_topology_snapshot ::
    "('j, 'd) json_lib \<Rightarrow> ('j, 'u) turbo_state_graph \<Rightarrow> alloc \<Rightarrow> 'j query" where
  "turbo_state_graph_topology_snapshot J graph a =
     (case alloc_all 4 a of (ok, a) \<Rightarrow>
        if \<not> ok then (TURBO_STATE_GRAPH_OUT_OF_MEMORY, None, a)
        else
          (case set_fields
                  [turbo_state_graph_set_nullable_string_field J ''graph_name'' (sg_name graph),
                   turbo_state_graph_set_nullable_string_field J ''entry_node'' (sg_entry_node graph)]
                  (jl_object J) a of
             (None, a) \<Rightarrow> (TURBO_STATE_GRAPH_OUT_OF_MEMORY, None, a)
           | (Some root, a) \<Rightarrow>
              (case fill_array J (turbo_state_graph_channel_object J) (sg_channels graph) (jl_array J) a of
                 (_, None, a) \<Rightarrow> (TURBO_STATE_GRAPH_OUT_OF_MEMORY, None, a)
               | (_, Some channels, a) \<Rightarrow>
                  (case fill_array J (node_value J) (sg_nodes graph) (jl_array J) a of
                     (_, None, a) \<Rightarrow> (TURBO_STATE_GRAPH_OUT_OF_MEMORY, None, a)
                   | (_, Some nodes, a) \<Rightarrow>
                      (case fill_array J (edge_object J graph) (sg_edges graph) (jl_array J) a of
                         (_, None, a) \<Rightarrow> (TURBO_STATE_GRAPH_OUT_OF_MEMORY, None, a)
                       | (_, Some edges, a) \<Rightarrow>
                          (case set_fields
                                  [f_value J ''channels'' channels, f_value J ''nodes'' nodes, f_value J ''edges'' edges]
                                  root a of
                             (None, a) \<Rightarrow> (TURBO_STATE_GRAPH_OUT_OF_MEMORY, None, a)
                           | (Some root, a) \<Rightarrow> (TURBO_STATE_GRAPH_OK, Some root, a)))))))"

text \<open>The state of the current run of a thread, when there is one.\<close>

definition thread_snapshot ::
    "('j, 'd) json_lib \<Rightarrow> ('j, 'u) turbo_state_graph \<Rightarrow> turbo_state_graph_thread_entry \<Rightarrow> alloc \<Rightarrow> 'j query" where
  "thread_snapshot J graph thread a =
     turbo_state_graph_thread_object J thread
       (map_option (\<lambda>ri. re_state (sg_runs graph ! ri)) (turbo_state_graph_find_run graph (th_current_run_id thread))) a"

text \<open>The end of \<open>turbo_state_graph_serialize_snapshot\<close>: the runtime object, the clone and its text.\<close>

definition serialize_runtime ::
    "('j, 'd) json_lib \<Rightarrow> ('j, 'u) turbo_state_graph \<Rightarrow> 'j \<Rightarrow> 'j \<Rightarrow> 'j \<Rightarrow> 'j \<Rightarrow> alloc \<Rightarrow> cstr \<times> alloc" where
  "serialize_runtime J graph root threads runs history a =
     (case set_fields
             [f_int64 J ''next_thread_id'' (int64_of_size (sg_next_thread_id graph)),
              f_int64 J ''next_run_id'' (int64_of_size (sg_next_run_id graph)),
              f_int64 J ''next_history_id'' (int64_of_size (sg_next_history_id graph)),
              f_int64 J ''next_checkpoint_id'' (int64_of_size (sg_next_checkpoint_id graph)),
              f_value J ''threads'' threads, f_value J ''runs'' runs, f_value J ''history'' history]
             (jl_object J) a of
        (None, a) \<Rightarrow> (None, a)
      | (Some runtime, a) \<Rightarrow>
         (case f_value J ''runtime'' runtime root a of (ok, root, a) \<Rightarrow>
            if \<not> ok then (None, a)
            else
              (case json_create a root of
                 (None, a) \<Rightarrow> (None, a)
               | (Some json, a) \<Rightarrow> (let (ok, a) = alloc1 a in (if ok then Some (jl_serialize J json) else None, a)))))"

definition turbo_state_graph_serialize_snapshot ::
    "('j, 'd) json_lib \<Rightarrow> ('j, 'u) turbo_state_graph \<Rightarrow> alloc \<Rightarrow> cstr \<times> alloc" where
  "turbo_state_graph_serialize_snapshot J graph a =
     (case alloc_all 5 a of (ok, a) \<Rightarrow>
        if \<not> ok then (None, a)
        else
          (case turbo_state_graph_topology_snapshot J graph a of
             (_, None, a) \<Rightarrow> (None, a)
           | (_, Some topology, a) \<Rightarrow>
              (case set_fields
                      [f_int64 J ''snapshot_version'' TURBO_STATE_GRAPH_SNAPSHOT_SCHEMA_VERSION,
                       f_value J ''topology'' topology] (jl_object J) a of
                 (None, a) \<Rightarrow> (None, a)
               | (Some root, a) \<Rightarrow>
                  (case fill_array J (thread_snapshot J graph) (sg_threads graph) (jl_array J) a of
                     (_, None, a) \<Rightarrow> (None, a)
                   | (_, Some threads, a) \<Rightarrow>
                      (case fill_array J (turbo_state_graph_run_object J) (sg_runs graph) (jl_array J) a of
                         (_, None, a) \<Rightarrow> (None, a)
                       | (_, Some runs, a) \<Rightarrow>
                          (case fill_array J (turbo_state_graph_history_object J) (sg_history graph) (jl_array J) a of
                             (_, None, a) \<Rightarrow> (None, a)
                           | (_, Some history, a) \<Rightarrow> serialize_runtime J graph root threads runs history a))))))"

subsection \<open>Reading a snapshot\<close>

text \<open>The members the code reads, through \<open>turbo_runtime_json_value_as_string\<close> and \<open>..._as_int64\<close>.\<close>

definition get_str :: "('j, 'd) json_lib \<Rightarrow> 'j option \<Rightarrow> string \<Rightarrow> cstr" where
  "get_str J value key = turbo_runtime_json_value_as_string J (json_get J value key)"

definition get_int :: "('j, 'd) json_lib \<Rightarrow> 'j option \<Rightarrow> string \<Rightarrow> int \<Rightarrow> int" where
  "get_int J value key default_value = turbo_runtime_json_value_as_int64 J (json_get J value key) default_value"

definition channel_matches ::
    "('j, 'd) json_lib \<Rightarrow> 'j option \<Rightarrow> 'j turbo_state_graph_channel_entry \<Rightarrow> bool" where
  "channel_matches J value channel \<longleftrightarrow>
     value \<noteq> None \<and>
     (case get_str J value ''name'' of None \<Rightarrow> False | Some name \<Rightarrow> strcmp name (sc_name channel) = 0) \<and>
     get_int J value ''reducer'' (- 1) = reducer_code (sc_reducer channel) \<and>
     get_int J value ''value_kind'' (- 1) = jl_type_code J (sc_value_kind channel)"

definition node_matches ::
    "('j, 'd) json_lib \<Rightarrow> 'j option \<Rightarrow> ('j, 'u) turbo_state_graph_node_entry \<Rightarrow> bool" where
  "node_matches J value node \<longleftrightarrow>
     (case turbo_runtime_json_value_as_string J value of None \<Rightarrow> False | Some name \<Rightarrow> strcmp name (sn_name node) = 0)"

definition edge_matches ::
    "('j, 'd) json_lib \<Rightarrow> ('j, 'u) turbo_state_graph \<Rightarrow> 'j option \<Rightarrow> ('j, 'u) turbo_state_graph_edge_entry \<Rightarrow> bool" where
  "edge_matches J graph value edge \<longleftrightarrow>
     (case (get_str J value ''from'', get_str J value ''to'') of
        (Some from, Some to) \<Rightarrow>
          strcmp from (sn_name (sg_nodes graph ! se_from_index edge)) = 0 \<and>
          strcmp to (sn_name (sg_nodes graph ! se_to_index edge)) = 0
      | _ \<Rightarrow> False)"

definition turbo_state_graph_validate_topology_snapshot ::
    "('j, 'd) json_lib \<Rightarrow> ('j, 'u) turbo_state_graph \<Rightarrow> 'j \<Rightarrow> turbo_state_graph_status_t" where
  "turbo_state_graph_validate_topology_snapshot J graph topology =
     (case (jl_object_get J topology ''channels'', jl_object_get J topology ''nodes'', jl_object_get J topology ''edges'') of
        (Some channels, Some nodes, Some edges) \<Rightarrow>
          if jl_type J channels \<noteq> JSON_ARRAY \<or> jl_type J nodes \<noteq> JSON_ARRAY \<or> jl_type J edges \<noteq> JSON_ARRAY
          then TURBO_STATE_GRAPH_ERROR
          else if turbo_runtime_json_value_size J (Some channels) \<noteq> length (sg_channels graph) \<or>
                  turbo_runtime_json_value_size J (Some nodes) \<noteq> length (sg_nodes graph) \<or>
                  turbo_runtime_json_value_size J (Some edges) \<noteq> length (sg_edges graph)
          then TURBO_STATE_GRAPH_ERROR
          else if \<exists>i < length (sg_channels graph).
                    \<not> channel_matches J (jl_array_get J channels i) (sg_channels graph ! i)
          then TURBO_STATE_GRAPH_ERROR
          else if \<exists>i < length (sg_nodes graph). \<not> node_matches J (jl_array_get J nodes i) (sg_nodes graph ! i)
          then TURBO_STATE_GRAPH_ERROR
          else if \<exists>i < length (sg_edges graph). \<not> edge_matches J graph (jl_array_get J edges i) (sg_edges graph ! i)
          then TURBO_STATE_GRAPH_ERROR
          else TURBO_STATE_GRAPH_OK
      | _ \<Rightarrow> TURBO_STATE_GRAPH_ERROR)"

text \<open>
  Importing an array of records. The C code counts a record before it checks that its copies were made; the record
  with a failed copy is not represented here, the array keeps its length. Nothing reads it:
  \<open>turbo_state_graph_load_snapshot\<close>, the only caller, then clears the graph's records.
\<close>

fun import_threads_loop ::
    "('j, 'd) json_lib \<Rightarrow> 'j option list \<Rightarrow> ('j, 'u) turbo_state_graph \<Rightarrow> alloc \<Rightarrow>
     turbo_state_graph_status_t \<times> ('j, 'u) turbo_state_graph \<times> alloc" where
  "import_threads_loop J [] graph a = (TURBO_STATE_GRAPH_OK, graph, a)"
| "import_threads_loop J (v # vs) graph a =
     (let current_run_id = get_str J v ''current_run_id''
      in (case get_str J v ''thread_id'' of
            None \<Rightarrow> (TURBO_STATE_GRAPH_ERROR, graph, a)
          | Some thread_id \<Rightarrow>
             (case turbo_state_graph_reserve a (sg_thread_capacity graph) (length (sg_threads graph) + 1) of
                (reserved, capacity, a) \<Rightarrow>
                  let graph = graph\<lparr>sg_thread_capacity := capacity\<rparr>
                  in if \<not> reserved then (TURBO_STATE_GRAPH_OUT_OF_MEMORY, graph, a)
                     else
                       (case strdups a [Some thread_id, current_run_id] of (ok, a) \<Rightarrow>
                          if \<not> ok then (TURBO_STATE_GRAPH_OUT_OF_MEMORY, graph, a)
                          else
                            import_threads_loop J vs
                              (graph\<lparr>sg_threads := sg_threads graph @
                                 [\<lparr>th_id = thread_id, th_current_run_id = current_run_id\<rparr>]\<rparr>) a))))"

definition turbo_state_graph_import_threads ::
    "('j, 'd) json_lib \<Rightarrow> 'j \<Rightarrow> ('j, 'u) turbo_state_graph \<Rightarrow> alloc \<Rightarrow>
     turbo_state_graph_status_t \<times> ('j, 'u) turbo_state_graph \<times> alloc" where
  "turbo_state_graph_import_threads J threads graph a =
     (if jl_type J threads \<noteq> JSON_ARRAY then (TURBO_STATE_GRAPH_INVALID_ARGUMENT, graph, a)
      else import_threads_loop J (json_elements J threads) graph a)"

text \<open>\<open>(size_t)\<close> of an \<open>int64_t\<close> is reduction modulo 2 to the 64.\<close>

fun import_runs_loop ::
    "('j, 'd) json_lib \<Rightarrow> 'j option list \<Rightarrow> ('j, 'u) turbo_state_graph \<Rightarrow> alloc \<Rightarrow>
     turbo_state_graph_status_t \<times> ('j, 'u) turbo_state_graph \<times> alloc" where
  "import_runs_loop J [] graph a = (TURBO_STATE_GRAPH_OK, graph, a)"
| "import_runs_loop J (v # vs) graph a =
     (case (get_str J v ''run_id'', get_str J v ''thread_id'', json_get J v ''state'', get_str J v ''status'') of
        (Some run_id, Some thread_id, Some state, Some status) \<Rightarrow>
          (case turbo_state_graph_reserve a (sg_run_capacity graph) (length (sg_runs graph) + 1) of
             (reserved, capacity, a) \<Rightarrow>
               let graph = graph\<lparr>sg_run_capacity := capacity\<rparr>
               in if \<not> reserved then (TURBO_STATE_GRAPH_OUT_OF_MEMORY, graph, a)
                  else
                    let entry = \<lparr>re_id = run_id, re_thread_id = thread_id,
                                 re_parent_run_id = get_str J v ''parent_run_id'',
                                 re_forked_from_history_id = get_str J v ''forked_from_history_id'',
                                 re_latest_history_entry_id = get_str J v ''latest_history_entry_id'',
                                 re_current_node = get_str J v ''next_node'',
                                 re_steps = of_int (get_int J v ''steps'' 0),
                                 re_interrupted = (strcmp status ''interrupted'' = 0),
                                 re_completed = (strcmp status ''completed'' = 0), re_state = state\<rparr>
                    in (case strdups a [Some run_id, Some thread_id, re_parent_run_id entry,
                                        re_forked_from_history_id entry, re_latest_history_entry_id entry,
                                        re_current_node entry, Some []] of (ok, a) \<Rightarrow>
                          if \<not> ok then (TURBO_STATE_GRAPH_OUT_OF_MEMORY, graph, a)
                          else import_runs_loop J vs (graph\<lparr>sg_runs := sg_runs graph @ [entry]\<rparr>) a))
      | _ \<Rightarrow> (TURBO_STATE_GRAPH_ERROR, graph, a))"

definition turbo_state_graph_import_runs ::
    "('j, 'd) json_lib \<Rightarrow> 'j \<Rightarrow> ('j, 'u) turbo_state_graph \<Rightarrow> alloc \<Rightarrow>
     turbo_state_graph_status_t \<times> ('j, 'u) turbo_state_graph \<times> alloc" where
  "turbo_state_graph_import_runs J runs graph a =
     (if jl_type J runs \<noteq> JSON_ARRAY then (TURBO_STATE_GRAPH_INVALID_ARGUMENT, graph, a)
      else import_runs_loop J (json_elements J runs) graph a)"

definition source_kind_of_text :: "string \<Rightarrow> turbo_state_graph_source_kind_t" where
  "source_kind_of_text source_kind =
     (if strcmp source_kind ''start'' = 0 then TURBO_STATE_GRAPH_SOURCE_START
      else if strcmp source_kind ''node'' = 0 then TURBO_STATE_GRAPH_SOURCE_NODE
      else if strcmp source_kind ''fork'' = 0 then TURBO_STATE_GRAPH_SOURCE_FORK
      else TURBO_STATE_GRAPH_SOURCE_HOST)"

fun import_history_loop ::
    "('j, 'd) json_lib \<Rightarrow> 'j option list \<Rightarrow> ('j, 'u) turbo_state_graph \<Rightarrow> alloc \<Rightarrow>
     turbo_state_graph_status_t \<times> ('j, 'u) turbo_state_graph \<times> alloc" where
  "import_history_loop J [] graph a = (TURBO_STATE_GRAPH_OK, graph, a)"
| "import_history_loop J (v # vs) graph a =
     (case ((get_str J v ''history_entry_id'', get_str J v ''checkpoint_id'', get_str J v ''thread_id''),
            (get_str J v ''run_id'', get_str J v ''source_kind''), (json_get J v ''update'', json_get J v ''state'')) of
        ((Some history_entry_id, Some checkpoint_id, Some thread_id), (Some run_id, Some source_kind),
         (Some update, Some state)) \<Rightarrow>
          (case turbo_state_graph_reserve a (sg_history_capacity graph) (length (sg_history graph) + 1) of
             (reserved, capacity, a) \<Rightarrow>
               let graph = graph\<lparr>sg_history_capacity := capacity\<rparr>
               in if \<not> reserved then (TURBO_STATE_GRAPH_OUT_OF_MEMORY, graph, a)
                  else
                    let entry = \<lparr>he_id = history_entry_id, he_checkpoint_id = checkpoint_id, he_thread_id = thread_id,
                                 he_run_id = run_id, he_source_name = get_str J v ''source_name'',
                                 he_reason = get_str J v ''reason'', he_last_node = get_str J v ''last_node'',
                                 he_next_node = get_str J v ''next_node'',
                                 he_source_kind = source_kind_of_text source_kind,
                                 he_step = of_int (get_int J v ''step'' 0), he_update = update, he_state = state\<rparr>
                    in (case strdups a [Some history_entry_id, Some checkpoint_id, Some thread_id, Some run_id,
                                        he_source_name entry, he_reason entry, he_last_node entry, he_next_node entry,
                                        Some [], Some []] of (ok, a) \<Rightarrow>
                          if \<not> ok then (TURBO_STATE_GRAPH_OUT_OF_MEMORY, graph, a)
                          else import_history_loop J vs (graph\<lparr>sg_history := sg_history graph @ [entry]\<rparr>) a))
      | _ \<Rightarrow> (TURBO_STATE_GRAPH_ERROR, graph, a))"

definition turbo_state_graph_import_history ::
    "('j, 'd) json_lib \<Rightarrow> 'j \<Rightarrow> ('j, 'u) turbo_state_graph \<Rightarrow> alloc \<Rightarrow>
     turbo_state_graph_status_t \<times> ('j, 'u) turbo_state_graph \<times> alloc" where
  "turbo_state_graph_import_history J history graph a =
     (if jl_type J history \<noteq> JSON_ARRAY then (TURBO_STATE_GRAPH_INVALID_ARGUMENT, graph, a)
      else import_history_loop J (json_elements J history) graph a)"

text \<open>The counters of a snapshot, and the three imports up to the first failure.\<close>

definition load_counters :: "('j, 'd) json_lib \<Rightarrow> 'j \<Rightarrow> ('j, 'u) turbo_state_graph \<Rightarrow> ('j, 'u) turbo_state_graph" where
  "load_counters J runtime graph =
     graph\<lparr>sg_next_thread_id := of_int (get_int J (Some runtime) ''next_thread_id'' 0),
           sg_next_run_id := of_int (get_int J (Some runtime) ''next_run_id'' 0),
           sg_next_history_id := of_int (get_int J (Some runtime) ''next_history_id'' 0),
           sg_next_checkpoint_id := of_int (get_int J (Some runtime) ''next_checkpoint_id'' 0)\<rparr>"

definition load_imports ::
    "('j, 'd) json_lib \<Rightarrow> 'j \<Rightarrow> 'j \<Rightarrow> 'j \<Rightarrow> ('j, 'u) turbo_state_graph \<Rightarrow> alloc \<Rightarrow>
     turbo_state_graph_status_t \<times> ('j, 'u) turbo_state_graph \<times> alloc" where
  "load_imports J threads runs history graph a =
     (case turbo_state_graph_import_threads J threads graph a of (status, graph, a) \<Rightarrow>
        if status \<noteq> TURBO_STATE_GRAPH_OK then (status, graph, a)
        else
          (case turbo_state_graph_import_runs J runs graph a of (status, graph, a) \<Rightarrow>
             if status \<noteq> TURBO_STATE_GRAPH_OK then (status, graph, a)
             else turbo_state_graph_import_history J history graph a))"

definition turbo_state_graph_load_snapshot ::
    "('j, 'd) json_lib \<Rightarrow> cstr \<Rightarrow> ('j, 'u) turbo_state_graph \<Rightarrow> alloc \<Rightarrow>
     turbo_state_graph_status_t \<times> ('j, 'u) turbo_state_graph \<times> alloc" where
  "turbo_state_graph_load_snapshot J json graph a =
     (case json of None \<Rightarrow> (TURBO_STATE_GRAPH_INVALID_ARGUMENT, graph, a)
      | Some source \<Rightarrow>
         (case jl_parse J source of None \<Rightarrow> (TURBO_STATE_GRAPH_ERROR, graph, a)
          | Some parsed \<Rightarrow>
             (case json_create a parsed of
                (None, a) \<Rightarrow> (TURBO_STATE_GRAPH_OUT_OF_MEMORY, graph, a)
              | (Some root, a) \<Rightarrow>
                 (case (jl_object_get J root ''topology'', jl_object_get J root ''runtime'') of
                    (Some topology, Some runtime) \<Rightarrow>
                      if get_int J (Some root) ''snapshot_version'' 0 \<noteq> TURBO_STATE_GRAPH_SNAPSHOT_SCHEMA_VERSION
                      then (TURBO_STATE_GRAPH_ERROR, graph, a)
                      else
                        let status = turbo_state_graph_validate_topology_snapshot J graph topology
                        in if status \<noteq> TURBO_STATE_GRAPH_OK then (status, graph, a)
                           else
                             (case (jl_object_get J runtime ''threads'', jl_object_get J runtime ''runs'',
                                    jl_object_get J runtime ''history'') of
                                (Some threads, Some runs, Some history) \<Rightarrow>
                                  (case load_imports J threads runs history
                                          (load_counters J runtime (turbo_state_graph_clear_runtime_state graph)) a of
                                     (status, graph, a) \<Rightarrow>
                                       if status \<noteq> TURBO_STATE_GRAPH_OK
                                       then (status, turbo_state_graph_clear_runtime_state graph, a)
                                       else (TURBO_STATE_GRAPH_OK, graph, a))
                              | _ \<Rightarrow> (TURBO_STATE_GRAPH_ERROR, graph, a))
                  | _ \<Rightarrow> (TURBO_STATE_GRAPH_ERROR, graph, a)))))"

end
