(* ===== verification/Snapshot_Store.thy ===== *)
theory Snapshot_Store
  imports State_Graph_Snapshot
begin

section \<open>The state graph store: runtime/src/turbo\_state\_graph\_store.c\<close>

text \<open>
  A store keeps the text of snapshots under ids. It is a struct of callbacks over its own data; two are built in, one
  in memory and one in files. On top of it: listing, descriptors, the latest snapshot, saving and loading a graph.

  The callbacks act on a state \<open>'s\<close>: the list of records in memory, respectively the root directory and the file
  system. A file is represented by the C string its bytes make; whether a call of the C library that may fail does
  (opening, seeking, reading, writing, \<open>mkdir\<close>, \<open>opendir\<close>, \<open>remove\<close>) is drawn from the oracle, like allocation.
  A call through a null pointer, which the code does not exclude for every store, is the result \<open>None\<close>.
\<close>

subsection \<open>Interface\<close>

record 's turbo_state_graph_store =
  sv_load :: "(string \<Rightarrow> 's \<Rightarrow> alloc \<Rightarrow> int \<times> cstr \<times> alloc) option"
  sv_save :: "(string \<Rightarrow> string \<Rightarrow> 's \<Rightarrow> alloc \<Rightarrow> int \<times> 's \<times> alloc) option"
  sv_list :: "('s \<Rightarrow> alloc \<Rightarrow> int \<times> cstr \<times> alloc) option"
  sv_remove :: "(string \<Rightarrow> 's \<Rightarrow> alloc \<Rightarrow> int \<times> 's \<times> alloc) option"

record turbo_state_graph_store_list_options =
  lo_graph_name :: cstr
  lo_thread_id :: cstr
  lo_run_id :: cstr
  lo_history_entry_id :: cstr
  lo_checkpoint_id :: cstr
  lo_run_status :: cstr
  lo_limit :: size_t

text \<open>A store all of whose callbacks are \<open>NULL\<close>, and options all of whose members are.\<close>

definition null_store :: "'s turbo_state_graph_store" where
  "null_store = \<lparr>sv_load = None, sv_save = None, sv_list = None, sv_remove = None\<rparr>"

definition no_options :: turbo_state_graph_store_list_options where
  "no_options = \<lparr>lo_graph_name = None, lo_thread_id = None, lo_run_id = None, lo_history_entry_id = None,
     lo_checkpoint_id = None, lo_run_status = None, lo_limit = 0\<rparr>"

text \<open>\<open>json_get_double\<close> and the comparison of doubles.\<close>

record ('j, 'd) json_doubles =
  jd_get_double :: "'j \<Rightarrow> string \<Rightarrow> 'd \<Rightarrow> 'd"
  jd_ne :: "'d \<Rightarrow> 'd \<Rightarrow> bool"
  jd_gt :: "'d \<Rightarrow> 'd \<Rightarrow> bool"

subsection \<open>Descriptors\<close>

definition turbo_state_graph_store_parse_json :: "('j, 'd) json_lib \<Rightarrow> string \<Rightarrow> 'j option" where
  "turbo_state_graph_store_parse_json J json_text = jl_parse J json_text"

text \<open>A member of an object, \<open>NULL\<close> when the value is not an object.\<close>

definition entry_string :: "('j, 'd) json_lib \<Rightarrow> 'j option \<Rightarrow> string \<Rightarrow> cstr" where
  "entry_string J entry field =
     (case entry of None \<Rightarrow> None
      | Some e \<Rightarrow> if jl_type J e = JSON_OBJECT then jl_get_string J e field else None)"

definition turbo_state_graph_store_count_runs_by_status :: "('j, 'd) json_lib \<Rightarrow> 'j \<Rightarrow> string \<Rightarrow> nat" where
  "turbo_state_graph_store_count_runs_by_status J runs status_text =
     (if jl_type J runs \<noteq> JSON_ARRAY then 0
      else length (filter (\<lambda>run. case entry_string J run ''status'' of None \<Rightarrow> False
                                 | Some status \<Rightarrow> strcmp status status_text = 0)
                     (map (jl_array_get J runs) [0..<jl_array_size J runs])))"

definition turbo_state_graph_store_descriptor_set_nullable_string ::
    "('j, 'd) json_lib \<Rightarrow> string \<Rightarrow> cstr \<Rightarrow> 'j \<Rightarrow> 'j" where
  "turbo_state_graph_store_descriptor_set_nullable_string J key value object =
     jl_object_add J object key (case value of Some s \<Rightarrow> jl_string_of J s | None \<Rightarrow> jl_null J)"

text \<open>The members of a descriptor, in the order they are set.\<close>

definition descriptor_of ::
    "('j, 'd) json_lib \<Rightarrow> ('j, 'd) json_doubles \<Rightarrow> string \<Rightarrow> 'j \<Rightarrow> 'j \<Rightarrow> 'j \<Rightarrow> 'j \<Rightarrow> 'j \<Rightarrow> 'j \<Rightarrow> 'j \<Rightarrow> 'j \<Rightarrow> 'j \<Rightarrow> 'j" where
  "descriptor_of J D snapshot_id snapshot topology runtime channels nodes edges threads runs history =
     (let num = (\<lambda>key d object. jl_set_number J object key d);
          count_of = (\<lambda>key array. num key (jl_double_of_int J (int (jl_array_size J array))));
          counter = (\<lambda>key. num key (jd_get_double D runtime key (jl_double_zero J)));
          by_status = (\<lambda>key text. num key (jl_double_of_int J (int (turbo_state_graph_store_count_runs_by_status J runs text))));
          descriptor = jl_set_string J (jl_object J) ''snapshot_id'' snapshot_id;
          descriptor = num ''snapshot_version'' (jd_get_double D snapshot ''snapshot_version'' (jl_double_zero J)) descriptor;
          descriptor = turbo_state_graph_store_descriptor_set_nullable_string J ''graph_name''
                         (jl_get_string J topology ''graph_name'') descriptor;
          descriptor = turbo_state_graph_store_descriptor_set_nullable_string J ''entry_node''
                         (jl_get_string J topology ''entry_node'') descriptor;
          descriptor = count_of ''channel_count'' channels descriptor;
          descriptor = count_of ''node_count'' nodes descriptor;
          descriptor = count_of ''edge_count'' edges descriptor;
          descriptor = count_of ''thread_count'' threads descriptor;
          descriptor = count_of ''run_count'' runs descriptor;
          descriptor = count_of ''history_count'' history descriptor;
          descriptor = count_of ''checkpoint_count'' history descriptor;
          descriptor = counter ''next_thread_id'' descriptor;
          descriptor = counter ''next_run_id'' descriptor;
          descriptor = counter ''next_history_id'' descriptor;
          descriptor = counter ''next_checkpoint_id'' descriptor;
          descriptor = by_status ''interrupted_run_count'' ''interrupted'' descriptor;
          descriptor = by_status ''completed_run_count'' ''completed'' descriptor
      in descriptor)"

definition turbo_state_graph_store_make_snapshot_descriptor ::
    "('j, 'd) json_lib \<Rightarrow> ('j, 'd) json_doubles \<Rightarrow> string \<Rightarrow> 'j \<Rightarrow> alloc \<Rightarrow> int \<times> 'j option \<times> alloc" where
  "turbo_state_graph_store_make_snapshot_descriptor J D snapshot_id snapshot a =
     (if jl_type J snapshot \<noteq> JSON_OBJECT then (- 1, None, a)
      else
        (case (jl_object_get J snapshot ''topology'', jl_object_get J snapshot ''runtime'') of
           (Some topology, Some runtime) \<Rightarrow>
             if jl_type J topology \<noteq> JSON_OBJECT \<or> jl_type J runtime \<noteq> JSON_OBJECT then (- 1, None, a)
             else
               (case ((jl_object_get J topology ''channels'', jl_object_get J topology ''nodes'', jl_object_get J topology ''edges''),
                      (jl_object_get J runtime ''threads'', jl_object_get J runtime ''runs'', jl_object_get J runtime ''history'')) of
                  ((Some channels, Some nodes, Some edges), (Some threads, Some runs, Some history)) \<Rightarrow>
                    if jl_type J channels \<noteq> JSON_ARRAY \<or> jl_type J nodes \<noteq> JSON_ARRAY \<or> jl_type J edges \<noteq> JSON_ARRAY \<or>
                       jl_type J threads \<noteq> JSON_ARRAY \<or> jl_type J runs \<noteq> JSON_ARRAY \<or> jl_type J history \<noteq> JSON_ARRAY
                    then (- 1, None, a)
                    else
                      (let (ok, a) = alloc1 a
                       in if \<not> ok then (- 1, None, a)
                          else (0, Some (descriptor_of J D snapshot_id snapshot topology runtime channels nodes edges
                                           threads runs history), a))
                | _ \<Rightarrow> (- 1, None, a))
         | _ \<Rightarrow> (- 1, None, a)))"

subsection \<open>Selecting snapshots\<close>

definition turbo_state_graph_store_snapshot_array_has_string_field ::
    "('j, 'd) json_lib \<Rightarrow> 'j \<Rightarrow> string \<Rightarrow> string \<Rightarrow> bool" where
  "turbo_state_graph_store_snapshot_array_has_string_field J array field expected \<longleftrightarrow>
     jl_type J array = JSON_ARRAY \<and>
     (\<exists>i < jl_array_size J array.
        case entry_string J (jl_array_get J array i) field of None \<Rightarrow> False | Some value \<Rightarrow> strcmp value expected = 0)"

text \<open>One criterion of the options: it holds when it is not given.\<close>

definition wants :: "('j, 'd) json_lib \<Rightarrow> 'j \<Rightarrow> string \<Rightarrow> cstr \<Rightarrow> bool" where
  "wants J array field expected =
     (case expected of None \<Rightarrow> True
      | Some e \<Rightarrow> turbo_state_graph_store_snapshot_array_has_string_field J array field e)"

definition turbo_state_graph_store_snapshot_matches_options ::
    "('j, 'd) json_lib \<Rightarrow> 'j \<Rightarrow> turbo_state_graph_store_list_options option \<Rightarrow> bool" where
  "turbo_state_graph_store_snapshot_matches_options J snapshot options =
     (case options of None \<Rightarrow> True
      | Some o' \<Rightarrow>
         (case (jl_object_get J snapshot ''topology'', jl_object_get J snapshot ''runtime'') of
            (Some topology, Some runtime) \<Rightarrow>
              jl_type J topology = JSON_OBJECT \<and> jl_type J runtime = JSON_OBJECT \<and>
              (case lo_graph_name o' of None \<Rightarrow> True
               | Some n \<Rightarrow> (case jl_get_string J topology ''graph_name'' of None \<Rightarrow> False | Some g \<Rightarrow> strcmp g n = 0)) \<and>
              (case (jl_object_get J runtime ''threads'', jl_object_get J runtime ''runs'', jl_object_get J runtime ''history'') of
                 (Some threads, Some runs, Some history) \<Rightarrow>
                   jl_type J threads = JSON_ARRAY \<and> jl_type J runs = JSON_ARRAY \<and> jl_type J history = JSON_ARRAY \<and>
                   wants J threads ''thread_id'' (lo_thread_id o') \<and> wants J runs ''run_id'' (lo_run_id o') \<and>
                   wants J history ''history_entry_id'' (lo_history_entry_id o') \<and>
                   wants J history ''checkpoint_id'' (lo_checkpoint_id o') \<and> wants J runs ''status'' (lo_run_status o')
               | _ \<Rightarrow> False)
          | _ \<Rightarrow> False))"

text \<open>\<open>None\<close> is a call of \<open>strcmp\<close> with a null pointer.\<close>

definition turbo_state_graph_store_descriptor_is_newer ::
    "('j, 'd) json_lib \<Rightarrow> ('j, 'd) json_doubles \<Rightarrow> 'j \<Rightarrow> 'j option \<Rightarrow> bool option" where
  "turbo_state_graph_store_descriptor_is_newer J D candidate current_best =
     (case current_best of None \<Rightarrow> Some True
      | Some best \<Rightarrow>
         (let get = (\<lambda>v key. jd_get_double D v key (jl_double_zero J));
              differ = (\<lambda>key. jd_ne D (get candidate key) (get best key));
              more = (\<lambda>key. jd_gt D (get candidate key) (get best key))
          in if differ ''next_history_id'' then Some (more ''next_history_id'')
             else if differ ''next_checkpoint_id'' then Some (more ''next_checkpoint_id'')
             else if differ ''next_run_id'' then Some (more ''next_run_id'')
             else if differ ''next_thread_id'' then Some (more ''next_thread_id'')
             else (case (jl_get_string J candidate ''snapshot_id'', jl_get_string J best ''snapshot_id'') of
                     (Some c, Some b) \<Rightarrow> Some (strcmp c b > 0)
                   | _ \<Rightarrow> None)))"


subsection \<open>The store in memory\<close>

record turbo_state_graph_store_memory_record =
  mr_snapshot_id :: string
  mr_snapshot_json :: string

type_synonym turbo_state_graph_store_memory_backend = "turbo_state_graph_store_memory_record list"

definition turbo_state_graph_store_strdup :: "string \<Rightarrow> alloc \<Rightarrow> cstr \<times> alloc" where
  "turbo_state_graph_store_strdup t a = (let (ok, a) = alloc1 a in (if ok then Some t else None, a))"

fun turbo_state_graph_store_memory_find ::
    "turbo_state_graph_store_memory_backend \<Rightarrow> string \<Rightarrow> turbo_state_graph_store_memory_record option" where
  "turbo_state_graph_store_memory_find [] snapshot_id = None"
| "turbo_state_graph_store_memory_find (record # records) snapshot_id =
     (if strcmp (mr_snapshot_id record) snapshot_id = 0 then Some record
      else turbo_state_graph_store_memory_find records snapshot_id)"

definition turbo_state_graph_store_memory_load ::
    "string \<Rightarrow> turbo_state_graph_store_memory_backend \<Rightarrow> alloc \<Rightarrow> int \<times> cstr \<times> alloc" where
  "turbo_state_graph_store_memory_load snapshot_id backend a =
     (case turbo_state_graph_store_memory_find backend snapshot_id of
        None \<Rightarrow> (- 1, None, a)
      | Some record \<Rightarrow>
         (case turbo_state_graph_store_strdup (mr_snapshot_json record) a of (out, a) \<Rightarrow>
            (if out \<noteq> None then 0 else - 1, out, a)))"

text \<open>Replacing the text of the first record of an id, which the code does through the pointer it found.\<close>

fun memory_replace ::
    "turbo_state_graph_store_memory_backend \<Rightarrow> string \<Rightarrow> string \<Rightarrow> turbo_state_graph_store_memory_backend" where
  "memory_replace [] snapshot_id json = []"
| "memory_replace (record # records) snapshot_id json =
     (if strcmp (mr_snapshot_id record) snapshot_id = 0 then record\<lparr>mr_snapshot_json := json\<rparr> # records
      else record # memory_replace records snapshot_id json)"

definition turbo_state_graph_store_memory_save ::
    "string \<Rightarrow> string \<Rightarrow> turbo_state_graph_store_memory_backend \<Rightarrow> alloc \<Rightarrow>
     int \<times> turbo_state_graph_store_memory_backend \<times> alloc" where
  "turbo_state_graph_store_memory_save snapshot_id snapshot_json backend a =
     (case turbo_state_graph_store_strdup snapshot_json a of
        (None, a) \<Rightarrow> (- 1, backend, a)
      | (Some snapshot_copy, a) \<Rightarrow>
         (case turbo_state_graph_store_memory_find backend snapshot_id of
            Some _ \<Rightarrow> (0, memory_replace backend snapshot_id snapshot_copy, a)
          | None \<Rightarrow>
             (case alloc1 a of (ok, a) \<Rightarrow>
                if \<not> ok then (- 1, backend, a)
                else
                  (case turbo_state_graph_store_strdup snapshot_id a of
                     (None, a) \<Rightarrow> (- 1, backend, a)
                   | (Some id_copy, a) \<Rightarrow>
                      (0, \<lparr>mr_snapshot_id = id_copy, mr_snapshot_json = snapshot_copy\<rparr> # backend, a)))))"

definition turbo_state_graph_store_memory_list ::
    "('j, 'd) json_lib \<Rightarrow> turbo_state_graph_store_memory_backend \<Rightarrow> alloc \<Rightarrow> int \<times> cstr \<times> alloc" where
  "turbo_state_graph_store_memory_list J backend a =
     (case alloc1 a of (ok, a) \<Rightarrow>
        if \<not> ok then (- 1, None, a)
        else
          (let array = foldl (\<lambda>array record. jl_array_add J array (jl_string_of J (mr_snapshot_id record))) (jl_array J) backend;
               (ok, a) = alloc1 a
           in if \<not> ok then (- 1, None, a) else (0, Some (jl_serialize J array), a)))"

fun turbo_state_graph_store_memory_delete ::
    "string \<Rightarrow> turbo_state_graph_store_memory_backend \<Rightarrow> alloc \<Rightarrow> int \<times> turbo_state_graph_store_memory_backend \<times> alloc" where
  "turbo_state_graph_store_memory_delete snapshot_id [] a = (- 1, [], a)"
| "turbo_state_graph_store_memory_delete snapshot_id (record # records) a =
     (if strcmp (mr_snapshot_id record) snapshot_id = 0 then (0, records, a)
      else
        (case turbo_state_graph_store_memory_delete snapshot_id records a of
           (rc, records, a) \<Rightarrow> (rc, record # records, a)))"

definition turbo_state_graph_store_memory_create ::
    "('j, 'd) json_lib \<Rightarrow> alloc \<Rightarrow>
     turbo_state_graph_store_memory_backend turbo_state_graph_store \<times> turbo_state_graph_store_memory_backend \<times> alloc" where
  "turbo_state_graph_store_memory_create J a =
     (let (ok, a) = alloc1 a
      in if \<not> ok then (null_store, [], a)
         else (\<lparr>sv_load = Some turbo_state_graph_store_memory_load, sv_save = Some turbo_state_graph_store_memory_save,
                sv_list = Some (turbo_state_graph_store_memory_list J),
                sv_remove = Some turbo_state_graph_store_memory_delete\<rparr>, [], a))"

subsection \<open>Names of files\<close>

definition turbo_state_graph_store_hex_digit :: "nat \<Rightarrow> char" where
  "turbo_state_graph_store_hex_digit value = (if value < 10 then char_of (48 + value) else char_of (97 + (value - 10)))"

definition turbo_state_graph_store_hex_encode :: "string \<Rightarrow> alloc \<Rightarrow> cstr \<times> alloc" where
  "turbo_state_graph_store_hex_encode t a =
     (let (ok, a) = alloc1 a
      in (if ok then Some (concat (map (\<lambda>ch. [turbo_state_graph_store_hex_digit (of_char ch div 16),
                                             turbo_state_graph_store_hex_digit (of_char ch mod 16)]) t)) else None, a))"

definition turbo_state_graph_store_hex_value :: "char \<Rightarrow> int" where
  "turbo_state_graph_store_hex_value ch =
     (let c = of_char ch :: int
      in if 48 \<le> c \<and> c \<le> 57 then c - 48
         else if 97 \<le> c \<and> c \<le> 102 then c - 97 + 10
         else if 65 \<le> c \<and> c \<le> 70 then c - 65 + 10
         else - 1)"

fun hex_pairs :: "string \<Rightarrow> cstr" where
  "hex_pairs (h # l # rest) =
     (let hi = turbo_state_graph_store_hex_value h; lo = turbo_state_graph_store_hex_value l
      in if hi < 0 \<or> lo < 0 then None
         else map_option (\<lambda>s. char_of (nat (hi * 16 + lo)) # s) (hex_pairs rest))"
| "hex_pairs [c] = None"
| "hex_pairs [] = Some []"

text \<open>The result is read as a C string, which ends at the first zero byte.\<close>

definition c_string :: "string \<Rightarrow> string" where
  "c_string s = takeWhile (\<lambda>c. c \<noteq> char_of (0 :: nat)) s"

definition turbo_state_graph_store_hex_decode :: "string \<Rightarrow> alloc \<Rightarrow> cstr \<times> alloc" where
  "turbo_state_graph_store_hex_decode t a =
     (if length t mod 2 \<noteq> 0 then (None, a)
      else let (ok, a) = alloc1 a in (if ok then map_option c_string (hex_pairs t) else None, a))"

definition turbo_state_graph_store_join_path :: "string \<Rightarrow> string \<Rightarrow> alloc \<Rightarrow> cstr \<times> alloc" where
  "turbo_state_graph_store_join_path left right a =
     (let (ok, a) = alloc1 a in (if ok then Some (left @ ''/'' @ right) else None, a))"

definition turbo_state_graph_store_file_snapshot_dir :: "string \<Rightarrow> alloc \<Rightarrow> cstr \<times> alloc" where
  "turbo_state_graph_store_file_snapshot_dir root_dir a = turbo_state_graph_store_join_path root_dir ''snapshots'' a"

definition turbo_state_graph_store_file_snapshot_path :: "string \<Rightarrow> string \<Rightarrow> alloc \<Rightarrow> cstr \<times> alloc" where
  "turbo_state_graph_store_file_snapshot_path root_dir snapshot_id a =
     (case turbo_state_graph_store_file_snapshot_dir root_dir a of (snapshots_dir, a) \<Rightarrow>
        (case turbo_state_graph_store_hex_encode snapshot_id a of (encoded_id, a) \<Rightarrow>
           (case (snapshots_dir, encoded_id) of
              (Some dir, Some encoded) \<Rightarrow>
                (let (ok, a) = alloc1 a
                 in if ok then turbo_state_graph_store_join_path dir (encoded @ ''.json'') a else (None, a))
            | _ \<Rightarrow> (None, a))))"

subsection \<open>The store in files\<close>

text \<open>The files by path, in the order the directory lists them, the directories, and how much of a write that fails
  reaches the file.\<close>

record file_system =
  fs_files :: "(string \<times> string) list"
  fs_dirs :: "string list"
  fs_cut :: nat

record turbo_state_graph_store_file_backend =
  fb_root_dir :: string

definition path_base :: "string \<Rightarrow> string" where
  "path_base path = rev (takeWhile (\<lambda>c. c \<noteq> CHR ''/'') (rev path))"

definition path_dir :: "string \<Rightarrow> string" where
  "path_dir path = rev (tl (dropWhile (\<lambda>c. c \<noteq> CHR ''/'') (rev path)))"

fun fs_put :: "string \<Rightarrow> string \<Rightarrow> (string \<times> string) list \<Rightarrow> (string \<times> string) list" where
  "fs_put path content [] = [(path, content)]"
| "fs_put path content ((p, c) # files) =
     (if p = path then (p, content) # files else (p, c) # fs_put path content files)"

definition turbo_state_graph_store_ensure_dir :: "string \<Rightarrow> file_system \<Rightarrow> alloc \<Rightarrow> int \<times> file_system \<times> alloc" where
  "turbo_state_graph_store_ensure_dir path fs a =
     (if path = [] then (- 1, fs, a)
      else if path \<in> set (fs_dirs fs) \<or> map_of (fs_files fs) path \<noteq> None then (0, fs, a)
      else let (ok, a) = alloc1 a
           in if ok then (0, fs\<lparr>fs_dirs := fs_dirs fs @ [path]\<rparr>, a) else (- 1, fs, a))"

text \<open>Opening for writing creates the file or empties it. The result of \<open>fclose\<close> is ignored by the code; it is taken to
  succeed here, that is, buffered data is not lost there.\<close>

definition turbo_state_graph_store_write_text_file ::
    "string \<Rightarrow> string \<Rightarrow> file_system \<Rightarrow> alloc \<Rightarrow> int \<times> file_system \<times> alloc" where
  "turbo_state_graph_store_write_text_file path content fs a =
     (let (opened, a) = alloc1 a
      in if \<not> opened \<or> path_dir path \<notin> set (fs_dirs fs) \<or> path \<in> set (fs_dirs fs) then (- 1, fs, a)
         else if length content > 0
         then (let (written, a) = alloc1 a
               in if written then (0, fs\<lparr>fs_files := fs_put path content (fs_files fs)\<rparr>, a)
                  else (- 1, fs\<lparr>fs_files := fs_put path (take (fs_cut fs) content) (fs_files fs)\<rparr>, a))
         else (0, fs\<lparr>fs_files := fs_put path [] (fs_files fs)\<rparr>, a))"

text \<open>Open, seek to the end, tell, seek to the start, allocate, read.\<close>

definition turbo_state_graph_store_read_text_file :: "string \<Rightarrow> file_system \<Rightarrow> alloc \<Rightarrow> int \<times> cstr \<times> alloc" where
  "turbo_state_graph_store_read_text_file path fs a =
     (let (opened, a) = alloc1 a
      in (case map_of (fs_files fs) path of
            None \<Rightarrow> (- 1, None, a)
          | Some content \<Rightarrow>
             if \<not> opened then (- 1, None, a)
             else
               (case alloc_loop (if length content > 0 then 5 else 4) a of (ok, a) \<Rightarrow>
                  if ok then (0, Some content, a) else (- 1, None, a))))"

definition turbo_state_graph_store_file_load ::
    "string \<Rightarrow> turbo_state_graph_store_file_backend \<times> file_system \<Rightarrow> alloc \<Rightarrow> int \<times> cstr \<times> alloc" where
  "turbo_state_graph_store_file_load snapshot_id s a =
     (case turbo_state_graph_store_file_snapshot_path (fb_root_dir (fst s)) snapshot_id a of
        (None, a) \<Rightarrow> (- 1, None, a)
      | (Some path, a) \<Rightarrow> turbo_state_graph_store_read_text_file path (snd s) a)"

definition turbo_state_graph_store_file_save ::
    "string \<Rightarrow> string \<Rightarrow> turbo_state_graph_store_file_backend \<times> file_system \<Rightarrow> alloc \<Rightarrow>
     int \<times> (turbo_state_graph_store_file_backend \<times> file_system) \<times> alloc" where
  "turbo_state_graph_store_file_save snapshot_id snapshot_json s a =
     (case turbo_state_graph_store_file_snapshot_path (fb_root_dir (fst s)) snapshot_id a of
        (None, a) \<Rightarrow> (- 1, s, a)
      | (Some path, a) \<Rightarrow>
         (case turbo_state_graph_store_write_text_file path snapshot_json (snd s) a of
            (rc, fs, a) \<Rightarrow> (rc, (fst s, fs), a)))"

text \<open>One entry of the directory: \<open>0\<close> also when it is not the file of a snapshot.\<close>

definition turbo_state_graph_store_file_list_append ::
    "('j, 'd) json_lib \<Rightarrow> string \<Rightarrow> 'j \<Rightarrow> alloc \<Rightarrow> int \<times> 'j \<times> alloc" where
  "turbo_state_graph_store_file_list_append J file_name array a =
     (let len = length file_name
      in if len < 6 \<or> strcmp (drop (len - 5) file_name) ''.json'' \<noteq> 0 then (0, array, a)
         else
           (case alloc1 a of (ok, a) \<Rightarrow>
              if \<not> ok then (- 1, array, a)
              else
                (case turbo_state_graph_store_hex_decode (take (len - 5) file_name) a of
                   (None, a) \<Rightarrow> (- 1, array, a)
                 | (Some snapshot_id, a) \<Rightarrow> (0, jl_array_add J array (jl_string_of J snapshot_id), a))))"

fun file_list_loop :: "('j, 'd) json_lib \<Rightarrow> string list \<Rightarrow> 'j \<Rightarrow> alloc \<Rightarrow> int \<times> 'j \<times> alloc" where
  "file_list_loop J [] array a = (0, array, a)"
| "file_list_loop J (name # names) array a =
     (case turbo_state_graph_store_file_list_append J name array a of (rc, array, a) \<Rightarrow>
        if rc \<noteq> 0 then (- 1, array, a) else file_list_loop J names array a)"

definition dir_entries :: "file_system \<Rightarrow> string \<Rightarrow> string list" where
  "dir_entries fs dir =
     [''.'', ''..''] @ map path_base (filter (\<lambda>p. path_dir p = dir) (map fst (fs_files fs) @ fs_dirs fs))"

definition turbo_state_graph_store_file_list ::
    "('j, 'd) json_lib \<Rightarrow> turbo_state_graph_store_file_backend \<times> file_system \<Rightarrow> alloc \<Rightarrow> int \<times> cstr \<times> alloc" where
  "turbo_state_graph_store_file_list J s a =
     (case turbo_state_graph_store_file_snapshot_dir (fb_root_dir (fst s)) a of (snapshots_dir, a) \<Rightarrow>
        (case alloc1 a of (created, a) \<Rightarrow>
           (case snapshots_dir of
              None \<Rightarrow> (- 1, None, a)
            | Some dir \<Rightarrow>
               if \<not> created then (- 1, None, a)
               else
                 (case alloc1 a of (opened, a) \<Rightarrow>
                    if \<not> opened \<or> dir \<notin> set (fs_dirs (snd s)) then (- 1, None, a)
                    else
                      (case file_list_loop J (dir_entries (snd s) dir) (jl_array J) a of (rc, array, a) \<Rightarrow>
                         if rc \<noteq> 0 then (- 1, None, a)
                         else (let (ok, a) = alloc1 a
                               in if ok then (0, Some (jl_serialize J array), a) else (- 1, None, a)))))))"

definition turbo_state_graph_store_file_delete ::
    "string \<Rightarrow> turbo_state_graph_store_file_backend \<times> file_system \<Rightarrow> alloc \<Rightarrow>
     int \<times> (turbo_state_graph_store_file_backend \<times> file_system) \<times> alloc" where
  "turbo_state_graph_store_file_delete snapshot_id s a =
     (case turbo_state_graph_store_file_snapshot_path (fb_root_dir (fst s)) snapshot_id a of
        (None, a) \<Rightarrow> (- 1, s, a)
      | (Some path, a) \<Rightarrow>
         (let (ok, a) = alloc1 a
          in if ok \<and> map_of (fs_files (snd s)) path \<noteq> None
             then (0, (fst s, (snd s)\<lparr>fs_files := filter (\<lambda>(p, c). p \<noteq> path) (fs_files (snd s))\<rparr>), a)
             else (- 1, s, a)))"

definition turbo_state_graph_store_file_create ::
    "('j, 'd) json_lib \<Rightarrow> cstr \<Rightarrow> file_system \<Rightarrow> alloc \<Rightarrow>
     (turbo_state_graph_store_file_backend \<times> file_system) turbo_state_graph_store \<times>
     (turbo_state_graph_store_file_backend \<times> file_system) \<times> alloc" where
  "turbo_state_graph_store_file_create J root_dir fs a =
     (case root_dir of
        None \<Rightarrow> (null_store, (\<lparr>fb_root_dir = []\<rparr>, fs), a)
      | Some root \<Rightarrow>
         (case alloc1 a of (ok, a) \<Rightarrow>
            if \<not> ok then (null_store, (\<lparr>fb_root_dir = []\<rparr>, fs), a)
            else
              (case turbo_state_graph_store_strdup root a of (root_copy, a) \<Rightarrow>
                 (case turbo_state_graph_store_file_snapshot_dir root a of (snapshots_dir, a) \<Rightarrow>
                    (case (root_copy, snapshots_dir) of
                       (Some r, Some dir) \<Rightarrow>
                         (case turbo_state_graph_store_ensure_dir root fs a of (rc, fs, a) \<Rightarrow>
                            if rc \<noteq> 0 then (null_store, (\<lparr>fb_root_dir = []\<rparr>, fs), a)
                            else
                              (case turbo_state_graph_store_ensure_dir dir fs a of (rc, fs, a) \<Rightarrow>
                                 if rc \<noteq> 0 then (null_store, (\<lparr>fb_root_dir = []\<rparr>, fs), a)
                                 else (\<lparr>sv_load = Some turbo_state_graph_store_file_load,
                                        sv_save = Some turbo_state_graph_store_file_save,
                                        sv_list = Some (turbo_state_graph_store_file_list J),
                                        sv_remove = Some turbo_state_graph_store_file_delete\<rparr>,
                                       (\<lparr>fb_root_dir = r\<rparr>, fs), a)))
                     | _ \<Rightarrow> (null_store, (\<lparr>fb_root_dir = []\<rparr>, fs), a))))))"


subsection \<open>Using a store\<close>

definition turbo_state_graph_store_delete ::
    "'s turbo_state_graph_store \<Rightarrow> cstr \<Rightarrow> 's \<Rightarrow> alloc \<Rightarrow> int \<times> 's \<times> alloc" where
  "turbo_state_graph_store_delete store snapshot_id s a =
     (case (sv_remove store, snapshot_id) of (Some remove, Some i) \<Rightarrow> remove i s a | _ \<Rightarrow> (- 1, s, a))"

definition turbo_state_graph_store_list ::
    "('j, 'd) json_lib \<Rightarrow> 's turbo_state_graph_store \<Rightarrow> 's \<Rightarrow> alloc \<Rightarrow> int \<times> 'j option \<times> alloc" where
  "turbo_state_graph_store_list J store s a =
     (case sv_list store of
        None \<Rightarrow> (- 1, None, a)
      | Some lister \<Rightarrow>
         (case lister s a of (rc, serialized, a) \<Rightarrow>
            (case serialized of
               None \<Rightarrow> (- 1, None, a)
             | Some json_text \<Rightarrow>
                if rc \<noteq> 0 then (- 1, None, a)
                else (case turbo_state_graph_store_parse_json J json_text of
                        None \<Rightarrow> (- 1, None, a)
                      | Some json \<Rightarrow> (0, Some json, a)))))"

text \<open>\<open>store->load(...) != 0 || !snapshot_json\<close>, then \<open>parse_json\<close>.\<close>

definition load_parsed ::
    "('j, 'd) json_lib \<Rightarrow> (string \<Rightarrow> 's \<Rightarrow> alloc \<Rightarrow> int \<times> cstr \<times> alloc) \<Rightarrow> string \<Rightarrow> 's \<Rightarrow> alloc \<Rightarrow> 'j option \<times> alloc" where
  "load_parsed J load snapshot_id s a =
     (case load snapshot_id s a of (rc, snapshot_json, a) \<Rightarrow>
        (case snapshot_json of
           None \<Rightarrow> (None, a)
         | Some json_text \<Rightarrow> if rc \<noteq> 0 then (None, a) else (turbo_state_graph_store_parse_json J json_text, a)))"

definition turbo_state_graph_store_get_snapshot_descriptor ::
    "('j, 'd) json_lib \<Rightarrow> ('j, 'd) json_doubles \<Rightarrow> 's turbo_state_graph_store \<Rightarrow> cstr \<Rightarrow> 's \<Rightarrow> alloc \<Rightarrow>
     int \<times> 'j option \<times> alloc" where
  "turbo_state_graph_store_get_snapshot_descriptor J D store snapshot_id s a =
     (case (sv_load store, snapshot_id) of
        (Some load, Some i) \<Rightarrow>
          (case load_parsed J load i s a of
             (None, a) \<Rightarrow> (- 1, None, a)
           | (Some snapshot, a) \<Rightarrow>
              (case turbo_state_graph_store_make_snapshot_descriptor J D i snapshot a of (rc, descriptor, a) \<Rightarrow>
                 if rc \<noteq> 0 then (- 1, None, a) else (0, descriptor, a)))
      | _ \<Rightarrow> (- 1, None, a))"

definition value_string :: "('j, 'd) json_lib \<Rightarrow> 'j option \<Rightarrow> cstr" where
  "value_string J entry =
     (case entry of None \<Rightarrow> None | Some e \<Rightarrow> if jl_type J e = JSON_STRING then Some (jl_string J e) else None)"

fun list_descriptors_loop ::
    "('j, 'd) json_lib \<Rightarrow> ('j, 'd) json_doubles \<Rightarrow> 's turbo_state_graph_store \<Rightarrow> 's \<Rightarrow> 'j option list \<Rightarrow> 'j \<Rightarrow> alloc \<Rightarrow>
     int \<times> 'j option \<times> alloc" where
  "list_descriptors_loop J D store s [] descriptors a = (0, Some descriptors, a)"
| "list_descriptors_loop J D store s (entry # entries) descriptors a =
     (case value_string J entry of
        None \<Rightarrow> (- 1, None, a)
      | Some snapshot_id \<Rightarrow>
         (case turbo_state_graph_store_get_snapshot_descriptor J D store (Some snapshot_id) s a of
            (rc, descriptor, a) \<Rightarrow>
              (case descriptor of
                 None \<Rightarrow> (- 1, None, a)
               | Some d \<Rightarrow> if rc \<noteq> 0 then (- 1, None, a)
                          else list_descriptors_loop J D store s entries (jl_array_add J descriptors d) a)))"

definition turbo_state_graph_store_list_snapshot_descriptors ::
    "('j, 'd) json_lib \<Rightarrow> ('j, 'd) json_doubles \<Rightarrow> 's turbo_state_graph_store \<Rightarrow> 's \<Rightarrow> alloc \<Rightarrow> int \<times> 'j option \<times> alloc" where
  "turbo_state_graph_store_list_snapshot_descriptors J D store s a =
     (case turbo_state_graph_store_list J store s a of
        (_, None, a) \<Rightarrow> (- 1, None, a)
      | (_, Some snapshot_ids, a) \<Rightarrow>
         (let (ok, a) = alloc1 a
          in if \<not> ok then (- 1, None, a)
             else list_descriptors_loop J D store s (map (jl_array_get J snapshot_ids) [0..<jl_array_size J snapshot_ids])
                    (jl_array J) a))"

text \<open>The loop over the ids: the limit is tested before an id is loaded. The first \<open>None\<close> is a call of a callback that
  is \<open>NULL\<close>.\<close>

fun filtered_loop ::
    "('j, 'd) json_lib \<Rightarrow> ('j, 'd) json_doubles \<Rightarrow> 's turbo_state_graph_store \<Rightarrow>
     turbo_state_graph_store_list_options option \<Rightarrow> 's \<Rightarrow> 'j option list \<Rightarrow> nat \<Rightarrow> 'j \<Rightarrow> alloc \<Rightarrow>
     (int \<times> 'j option \<times> alloc) option" where
  "filtered_loop J D store options s [] emitted descriptors a = Some (0, Some descriptors, a)"
| "filtered_loop J D store options s (entry # entries) emitted descriptors a =
     (case value_string J entry of
        None \<Rightarrow> Some (- 1, None, a)
      | Some snapshot_id \<Rightarrow>
         if (case options of None \<Rightarrow> False | Some o' \<Rightarrow> lo_limit o' > 0 \<and> emitted \<ge> unat (lo_limit o'))
         then Some (0, Some descriptors, a)
         else
           (case sv_load store of
              None \<Rightarrow> None
            | Some load \<Rightarrow>
               (case load_parsed J load snapshot_id s a of
                  (None, a) \<Rightarrow> Some (- 1, None, a)
                | (Some snapshot, a) \<Rightarrow>
                   if \<not> turbo_state_graph_store_snapshot_matches_options J snapshot options
                   then filtered_loop J D store options s entries emitted descriptors a
                   else
                     (case turbo_state_graph_store_make_snapshot_descriptor J D snapshot_id snapshot a of
                        (rc, descriptor, a) \<Rightarrow>
                          (case descriptor of
                             None \<Rightarrow> Some (- 1, None, a)
                           | Some d \<Rightarrow>
                              filtered_loop J D store options s entries (emitted + 1) (jl_array_add J descriptors d) a)))))"

definition turbo_state_graph_store_list_snapshot_descriptors_filtered ::
    "('j, 'd) json_lib \<Rightarrow> ('j, 'd) json_doubles \<Rightarrow> 's turbo_state_graph_store \<Rightarrow>
     turbo_state_graph_store_list_options option \<Rightarrow> 's \<Rightarrow> alloc \<Rightarrow> (int \<times> 'j option \<times> alloc) option" where
  "turbo_state_graph_store_list_snapshot_descriptors_filtered J D store options s a =
     (case turbo_state_graph_store_list J store s a of
        (_, None, a) \<Rightarrow> Some (- 1, None, a)
      | (_, Some snapshot_ids, a) \<Rightarrow>
         (let (ok, a) = alloc1 a
          in if \<not> ok then Some (- 1, None, a)
             else filtered_loop J D store options s
                    (map (jl_array_get J snapshot_ids) [0..<jl_array_size J snapshot_ids]) 0 (jl_array J) a))"

fun latest_loop ::
    "('j, 'd) json_lib \<Rightarrow> ('j, 'd) json_doubles \<Rightarrow> 'j option list \<Rightarrow> 'j option \<Rightarrow> alloc \<Rightarrow> (int \<times> 'j option \<times> alloc) option" where
  "latest_loop J D [] best a =
     Some (case best of None \<Rightarrow> (- 1, None, a) | Some b \<Rightarrow> (0, Some b, a))"
| "latest_loop J D (entry # entries) best a =
     (case entry of
        None \<Rightarrow> latest_loop J D entries best a
      | Some e \<Rightarrow>
         if jl_type J e \<noteq> JSON_OBJECT then latest_loop J D entries best a
         else
           (case turbo_state_graph_store_descriptor_is_newer J D e best of
              None \<Rightarrow> None
            | Some newer \<Rightarrow>
               if newer
               then (let (ok, a) = alloc1 a in if ok then latest_loop J D entries (Some e) a else Some (- 1, None, a))
               else latest_loop J D entries best a))"

definition turbo_state_graph_store_get_latest_snapshot_descriptor ::
    "('j, 'd) json_lib \<Rightarrow> ('j, 'd) json_doubles \<Rightarrow> 's turbo_state_graph_store \<Rightarrow>
     turbo_state_graph_store_list_options option \<Rightarrow> 's \<Rightarrow> alloc \<Rightarrow> (int \<times> 'j option \<times> alloc) option" where
  "turbo_state_graph_store_get_latest_snapshot_descriptor J D store options s a =
     (case turbo_state_graph_store_list_snapshot_descriptors_filtered J D store options s a of
        None \<Rightarrow> None
      | Some (_, None, a) \<Rightarrow> Some (- 1, None, a)
      | Some (_, Some descriptors, a) \<Rightarrow>
          latest_loop J D (map (jl_array_get J descriptors) [0..<jl_array_size J descriptors]) None a)"

definition turbo_state_graph_store_get_latest_snapshot_id ::
    "('j, 'd) json_lib \<Rightarrow> ('j, 'd) json_doubles \<Rightarrow> 's turbo_state_graph_store \<Rightarrow>
     turbo_state_graph_store_list_options option \<Rightarrow> 's \<Rightarrow> alloc \<Rightarrow> (int \<times> cstr \<times> alloc) option" where
  "turbo_state_graph_store_get_latest_snapshot_id J D store options s a =
     (case turbo_state_graph_store_get_latest_snapshot_descriptor J D store options s a of
        None \<Rightarrow> None
      | Some (_, None, a) \<Rightarrow> Some (- 1, None, a)
      | Some (_, Some descriptor, a) \<Rightarrow>
         (case jl_get_string J descriptor ''snapshot_id'' of
            None \<Rightarrow> Some (- 1, None, a)
          | Some i \<Rightarrow>
             if i = [] then Some (- 1, None, a)
             else Some (case turbo_state_graph_store_strdup i a of (out, a) \<Rightarrow> (if out = None then - 1 else 0, out, a))))"

definition turbo_state_graph_store_save_snapshot ::
    "('j, 'd) json_lib \<Rightarrow> 's turbo_state_graph_store \<Rightarrow> cstr \<Rightarrow> ('j, 'u) turbo_state_graph \<Rightarrow> 's \<Rightarrow> alloc \<Rightarrow>
     turbo_state_graph_status_t \<times> 's \<times> alloc" where
  "turbo_state_graph_store_save_snapshot J store snapshot_id graph s a =
     (case (sv_save store, snapshot_id) of
        (Some save, Some i) \<Rightarrow>
          (case turbo_state_graph_serialize_snapshot J graph a of
             (None, a) \<Rightarrow> (TURBO_STATE_GRAPH_OUT_OF_MEMORY, s, a)
           | (Some snapshot_json, a) \<Rightarrow>
              (case save i snapshot_json s a of (rc, s, a) \<Rightarrow>
                 (if rc \<noteq> 0 then TURBO_STATE_GRAPH_ERROR else TURBO_STATE_GRAPH_OK, s, a)))
      | _ \<Rightarrow> (TURBO_STATE_GRAPH_INVALID_ARGUMENT, s, a))"

definition turbo_state_graph_store_load_snapshot ::
    "('j, 'd) json_lib \<Rightarrow> 's turbo_state_graph_store \<Rightarrow> cstr \<Rightarrow> ('j, 'u) turbo_state_graph \<Rightarrow> 's \<Rightarrow> alloc \<Rightarrow>
     turbo_state_graph_status_t \<times> ('j, 'u) turbo_state_graph \<times> alloc" where
  "turbo_state_graph_store_load_snapshot J store snapshot_id graph s a =
     (case (sv_load store, snapshot_id) of
        (Some load, Some i) \<Rightarrow>
          (case load i s a of (rc, snapshot_json, a) \<Rightarrow>
             if rc \<noteq> 0 \<or> snapshot_json = None then (TURBO_STATE_GRAPH_ERROR, graph, a)
             else turbo_state_graph_load_snapshot J snapshot_json graph a)
      | _ \<Rightarrow> (TURBO_STATE_GRAPH_INVALID_ARGUMENT, graph, a))"

definition turbo_state_graph_store_load_latest_snapshot ::
    "('j, 'd) json_lib \<Rightarrow> ('j, 'd) json_doubles \<Rightarrow> 's turbo_state_graph_store \<Rightarrow>
     turbo_state_graph_store_list_options option \<Rightarrow> ('j, 'u) turbo_state_graph \<Rightarrow> 's \<Rightarrow> alloc \<Rightarrow>
     (turbo_state_graph_status_t \<times> ('j, 'u) turbo_state_graph \<times> alloc) option" where
  "turbo_state_graph_store_load_latest_snapshot J D store options graph s a =
     (case turbo_state_graph_store_get_latest_snapshot_descriptor J D store options s a of
        None \<Rightarrow> None
      | Some (_, None, a) \<Rightarrow> Some (TURBO_STATE_GRAPH_ERROR, graph, a)
      | Some (_, Some descriptor, a) \<Rightarrow>
         (case jl_get_string J descriptor ''snapshot_id'' of
            None \<Rightarrow> Some (TURBO_STATE_GRAPH_ERROR, graph, a)
          | Some i \<Rightarrow> Some (turbo_state_graph_store_load_snapshot J store (Some i) graph s a)))"

subsection \<open>The latest snapshot of a thread, a run, a history entry, a checkpoint\<close>

definition turbo_state_graph_store_get_latest_snapshot_descriptor_for_thread ::
    "('j, 'd) json_lib \<Rightarrow> ('j, 'd) json_doubles \<Rightarrow> 's turbo_state_graph_store \<Rightarrow> cstr \<Rightarrow> 's \<Rightarrow> alloc \<Rightarrow>
     (int \<times> 'j option \<times> alloc) option" where
  "turbo_state_graph_store_get_latest_snapshot_descriptor_for_thread J D store thread_id s a =
     (if thread_id = None then Some (- 1, None, a)
      else turbo_state_graph_store_get_latest_snapshot_descriptor J D store (Some (no_options\<lparr>lo_thread_id := thread_id\<rparr>)) s a)"

definition turbo_state_graph_store_get_latest_snapshot_descriptor_for_run ::
    "('j, 'd) json_lib \<Rightarrow> ('j, 'd) json_doubles \<Rightarrow> 's turbo_state_graph_store \<Rightarrow> cstr \<Rightarrow> 's \<Rightarrow> alloc \<Rightarrow>
     (int \<times> 'j option \<times> alloc) option" where
  "turbo_state_graph_store_get_latest_snapshot_descriptor_for_run J D store run_id s a =
     (if run_id = None then Some (- 1, None, a)
      else turbo_state_graph_store_get_latest_snapshot_descriptor J D store (Some (no_options\<lparr>lo_run_id := run_id\<rparr>)) s a)"

definition turbo_state_graph_store_get_latest_snapshot_descriptor_for_history_entry ::
    "('j, 'd) json_lib \<Rightarrow> ('j, 'd) json_doubles \<Rightarrow> 's turbo_state_graph_store \<Rightarrow> cstr \<Rightarrow> 's \<Rightarrow> alloc \<Rightarrow>
     (int \<times> 'j option \<times> alloc) option" where
  "turbo_state_graph_store_get_latest_snapshot_descriptor_for_history_entry J D store history_entry_id s a =
     (if history_entry_id = None then Some (- 1, None, a)
      else turbo_state_graph_store_get_latest_snapshot_descriptor J D store (Some (no_options\<lparr>lo_history_entry_id := history_entry_id\<rparr>)) s a)"

definition turbo_state_graph_store_get_latest_snapshot_descriptor_for_checkpoint ::
    "('j, 'd) json_lib \<Rightarrow> ('j, 'd) json_doubles \<Rightarrow> 's turbo_state_graph_store \<Rightarrow> cstr \<Rightarrow> 's \<Rightarrow> alloc \<Rightarrow>
     (int \<times> 'j option \<times> alloc) option" where
  "turbo_state_graph_store_get_latest_snapshot_descriptor_for_checkpoint J D store checkpoint_id s a =
     (if checkpoint_id = None then Some (- 1, None, a)
      else turbo_state_graph_store_get_latest_snapshot_descriptor J D store (Some (no_options\<lparr>lo_checkpoint_id := checkpoint_id\<rparr>)) s a)"

definition turbo_state_graph_store_get_latest_snapshot_id_for_thread ::
    "('j, 'd) json_lib \<Rightarrow> ('j, 'd) json_doubles \<Rightarrow> 's turbo_state_graph_store \<Rightarrow> cstr \<Rightarrow> 's \<Rightarrow> alloc \<Rightarrow>
     (int \<times> cstr \<times> alloc) option" where
  "turbo_state_graph_store_get_latest_snapshot_id_for_thread J D store thread_id s a =
     (if thread_id = None then Some (- 1, None, a)
      else turbo_state_graph_store_get_latest_snapshot_id J D store (Some (no_options\<lparr>lo_thread_id := thread_id\<rparr>)) s a)"

definition turbo_state_graph_store_get_latest_snapshot_id_for_run ::
    "('j, 'd) json_lib \<Rightarrow> ('j, 'd) json_doubles \<Rightarrow> 's turbo_state_graph_store \<Rightarrow> cstr \<Rightarrow> 's \<Rightarrow> alloc \<Rightarrow>
     (int \<times> cstr \<times> alloc) option" where
  "turbo_state_graph_store_get_latest_snapshot_id_for_run J D store run_id s a =
     (if run_id = None then Some (- 1, None, a)
      else turbo_state_graph_store_get_latest_snapshot_id J D store (Some (no_options\<lparr>lo_run_id := run_id\<rparr>)) s a)"

definition turbo_state_graph_store_get_latest_snapshot_id_for_history_entry ::
    "('j, 'd) json_lib \<Rightarrow> ('j, 'd) json_doubles \<Rightarrow> 's turbo_state_graph_store \<Rightarrow> cstr \<Rightarrow> 's \<Rightarrow> alloc \<Rightarrow>
     (int \<times> cstr \<times> alloc) option" where
  "turbo_state_graph_store_get_latest_snapshot_id_for_history_entry J D store history_entry_id s a =
     (if history_entry_id = None then Some (- 1, None, a)
      else turbo_state_graph_store_get_latest_snapshot_id J D store (Some (no_options\<lparr>lo_history_entry_id := history_entry_id\<rparr>)) s a)"

definition turbo_state_graph_store_get_latest_snapshot_id_for_checkpoint ::
    "('j, 'd) json_lib \<Rightarrow> ('j, 'd) json_doubles \<Rightarrow> 's turbo_state_graph_store \<Rightarrow> cstr \<Rightarrow> 's \<Rightarrow> alloc \<Rightarrow>
     (int \<times> cstr \<times> alloc) option" where
  "turbo_state_graph_store_get_latest_snapshot_id_for_checkpoint J D store checkpoint_id s a =
     (if checkpoint_id = None then Some (- 1, None, a)
      else turbo_state_graph_store_get_latest_snapshot_id J D store (Some (no_options\<lparr>lo_checkpoint_id := checkpoint_id\<rparr>)) s a)"

definition turbo_state_graph_store_load_latest_snapshot_for_thread ::
    "('j, 'd) json_lib \<Rightarrow> ('j, 'd) json_doubles \<Rightarrow> 's turbo_state_graph_store \<Rightarrow> cstr \<Rightarrow> ('j, 'u) turbo_state_graph \<Rightarrow>
     's \<Rightarrow> alloc \<Rightarrow> (turbo_state_graph_status_t \<times> ('j, 'u) turbo_state_graph \<times> alloc) option" where
  "turbo_state_graph_store_load_latest_snapshot_for_thread J D store thread_id graph s a =
     (if thread_id = None then Some (TURBO_STATE_GRAPH_INVALID_ARGUMENT, graph, a)
      else turbo_state_graph_store_load_latest_snapshot J D store (Some (no_options\<lparr>lo_thread_id := thread_id\<rparr>)) graph s a)"

definition turbo_state_graph_store_load_latest_snapshot_for_run ::
    "('j, 'd) json_lib \<Rightarrow> ('j, 'd) json_doubles \<Rightarrow> 's turbo_state_graph_store \<Rightarrow> cstr \<Rightarrow> ('j, 'u) turbo_state_graph \<Rightarrow>
     's \<Rightarrow> alloc \<Rightarrow> (turbo_state_graph_status_t \<times> ('j, 'u) turbo_state_graph \<times> alloc) option" where
  "turbo_state_graph_store_load_latest_snapshot_for_run J D store run_id graph s a =
     (if run_id = None then Some (TURBO_STATE_GRAPH_INVALID_ARGUMENT, graph, a)
      else turbo_state_graph_store_load_latest_snapshot J D store (Some (no_options\<lparr>lo_run_id := run_id\<rparr>)) graph s a)"

definition turbo_state_graph_store_load_latest_snapshot_for_history_entry ::
    "('j, 'd) json_lib \<Rightarrow> ('j, 'd) json_doubles \<Rightarrow> 's turbo_state_graph_store \<Rightarrow> cstr \<Rightarrow> ('j, 'u) turbo_state_graph \<Rightarrow>
     's \<Rightarrow> alloc \<Rightarrow> (turbo_state_graph_status_t \<times> ('j, 'u) turbo_state_graph \<times> alloc) option" where
  "turbo_state_graph_store_load_latest_snapshot_for_history_entry J D store history_entry_id graph s a =
     (if history_entry_id = None then Some (TURBO_STATE_GRAPH_INVALID_ARGUMENT, graph, a)
      else turbo_state_graph_store_load_latest_snapshot J D store (Some (no_options\<lparr>lo_history_entry_id := history_entry_id\<rparr>)) graph s a)"

definition turbo_state_graph_store_load_latest_snapshot_for_checkpoint ::
    "('j, 'd) json_lib \<Rightarrow> ('j, 'd) json_doubles \<Rightarrow> 's turbo_state_graph_store \<Rightarrow> cstr \<Rightarrow> ('j, 'u) turbo_state_graph \<Rightarrow>
     's \<Rightarrow> alloc \<Rightarrow> (turbo_state_graph_status_t \<times> ('j, 'u) turbo_state_graph \<times> alloc) option" where
  "turbo_state_graph_store_load_latest_snapshot_for_checkpoint J D store checkpoint_id graph s a =
     (if checkpoint_id = None then Some (TURBO_STATE_GRAPH_INVALID_ARGUMENT, graph, a)
      else turbo_state_graph_store_load_latest_snapshot J D store (Some (no_options\<lparr>lo_checkpoint_id := checkpoint_id\<rparr>)) graph s a)"

end
