(* ===== verification/State_Graph_Updates.thy ===== *)
theory State_Graph_Updates
  imports State_Graph_Core Graph_Topology
begin

section \<open>State graphs: construction and updates are correct\<close>

text \<open>
  The structure of a state graph is an instance of the \<open>builder\<close> contract. Merging objects satisfies the recursion of
  the C code and merges member by member. Applying an update changes exactly the channels it names, each by its
  reducer.
\<close>

subsection \<open>Construction\<close>

datatype (dead 'j, dead 'u) state_graph_op =
    Add_Channel cstr "'j turbo_state_graph_channel_config option"
  | Add_State_Node cstr "('j, 'u) sg_node_fn option"
  | Add_State_Edge cstr cstr "('j, 'u) sg_predicate_fn option"
  | Set_State_Entry cstr

fun apply_state_graph_op ::
    "('j, 'd) json_lib \<Rightarrow> ('j, 'u) state_graph_op \<Rightarrow> alloc \<Rightarrow> ('j, 'u) turbo_state_graph \<Rightarrow>
     turbo_state_graph_status_t \<times> ('j, 'u) turbo_state_graph \<times> alloc" where
  "apply_state_graph_op J (Add_Channel name config) a g = turbo_state_graph_add_channel J a g name config"
| "apply_state_graph_op J (Add_State_Node name fn) a g = turbo_state_graph_add_json_value_node a g name fn"
| "apply_state_graph_op J (Add_State_Edge from to p) a g = turbo_state_graph_add_json_value_edge a g from to p"
| "apply_state_graph_op J (Set_State_Entry name) a g = turbo_state_graph_set_entry a g name"

text \<open>Channel names and node names are distinct, every default value is one its channel accepts, edges join existing
  nodes, the entry is a node, the arrays have room for their elements.\<close>

definition state_graph_shape :: "('j, 'd) json_lib \<Rightarrow> ('j, 'u) turbo_state_graph \<Rightarrow> bool" where
  "state_graph_shape J g \<longleftrightarrow>
     distinct (map sc_name (sg_channels g)) \<and> distinct (map sn_name (sg_nodes g)) \<and>
     (\<forall>c \<in> set (sg_channels g).
        turbo_state_graph_validate_channel_value J c (Some (sc_default_value c)) = TURBO_STATE_GRAPH_OK) \<and>
     (\<forall>e \<in> set (sg_edges g). se_from_index e < length (sg_nodes g) \<and> se_to_index e < length (sg_nodes g)) \<and>
     (case sg_entry_node g of None \<Rightarrow> True | Some n \<Rightarrow> n \<in> sn_name ` set (sg_nodes g)) \<and>
     length (sg_channels g) \<le> sg_channel_capacity g \<and> length (sg_nodes g) \<le> sg_node_capacity g \<and>
     length (sg_edges g) \<le> sg_edge_capacity g"

text \<open>What a client can see: everything but the capacities.\<close>

definition state_graph_structure where
  "state_graph_structure g = (sg_name g, sg_entry_node g, sg_channels g, sg_nodes g, sg_edges g)"

definition state_graph_records where
  "state_graph_records g = (sg_threads g, sg_runs g, sg_history g,
     (sg_next_thread_id g, sg_next_run_id g, sg_next_history_id g, sg_next_checkpoint_id g))"

definition state_graph_view where
  "state_graph_view g = (state_graph_structure g, state_graph_records g)"

lemma sg_reserve_grows: "turbo_state_graph_reserve a cap needed = (ok, cap', a') \<Longrightarrow> cap \<le> cap'"
  by (auto simp: turbo_state_graph_reserve_def Let_def split: if_splits prod.splits)

lemma sg_reserve_room: "turbo_state_graph_reserve a cap needed = (True, cap', a') \<Longrightarrow> needed \<le> cap'"
  by (auto simp: turbo_state_graph_reserve_def Let_def split: if_splits prod.splits)

lemma find_channel_index_None:
  "turbo_state_graph_find_channel_index g n = None \<longleftrightarrow> n \<notin> sc_name ` set (sg_channels g)"
  unfolding turbo_state_graph_find_channel_index_def using find_index_mem [of sc_name "sg_channels g" n] by blast

lemma find_channel_index_Some:
  "turbo_state_graph_find_channel_index g n = Some i \<Longrightarrow> i < length (sg_channels g) \<and> sc_name (sg_channels g ! i) = n"
  by (simp add: turbo_state_graph_find_channel_index_def find_index_Some)

lemma sg_find_node_index_None:
  "turbo_state_graph_find_node_index g n = None \<longleftrightarrow> n \<notin> sn_name ` set (sg_nodes g)"
  unfolding turbo_state_graph_find_node_index_def using find_index_mem [of sn_name "sg_nodes g" n] by blast

lemma sg_find_node_index_Some:
  "turbo_state_graph_find_node_index g n = Some i \<Longrightarrow> i < length (sg_nodes g) \<and> sn_name (sg_nodes g ! i) = n"
  by (simp add: turbo_state_graph_find_node_index_def find_index_Some)

lemmas sg_view_simps = state_graph_view_def state_graph_structure_def state_graph_records_def

text \<open>What one operation can do: nothing a client sees, or append one element that keeps the shape, or set the entry.\<close>

definition state_graph_grown :: "('j, 'u) turbo_state_graph \<Rightarrow> ('j, 'u) turbo_state_graph \<Rightarrow> bool" where
  "state_graph_grown g g' \<longleftrightarrow> (\<exists>cc cn ce. sg_channel_capacity g \<le> cc \<and> sg_node_capacity g \<le> cn \<and> sg_edge_capacity g \<le> ce \<and>
     g' = g\<lparr>sg_channel_capacity := cc, sg_node_capacity := cn, sg_edge_capacity := ce\<rparr>)"

lemma state_graph_grownI:
  "state_graph_grown g g"
  "sg_channel_capacity g \<le> c \<Longrightarrow> state_graph_grown g (g\<lparr>sg_channel_capacity := c\<rparr>)"
  "sg_node_capacity g \<le> c \<Longrightarrow> state_graph_grown g (g\<lparr>sg_node_capacity := c\<rparr>)"
  "sg_edge_capacity g \<le> c \<Longrightarrow> state_graph_grown g (g\<lparr>sg_edge_capacity := c\<rparr>)"
proof -
  show "state_graph_grown g g" unfolding state_graph_grown_def
    by (intro exI [of _ "sg_channel_capacity g"] exI [of _ "sg_node_capacity g"] exI [of _ "sg_edge_capacity g"]) simp
  show "state_graph_grown g (g\<lparr>sg_channel_capacity := c\<rparr>)" if "sg_channel_capacity g \<le> c"
    unfolding state_graph_grown_def
    by (intro exI [of _ c] exI [of _ "sg_node_capacity g"] exI [of _ "sg_edge_capacity g"]) (simp add: that)
  show "state_graph_grown g (g\<lparr>sg_node_capacity := c\<rparr>)" if "sg_node_capacity g \<le> c"
    unfolding state_graph_grown_def
    by (intro exI [of _ "sg_channel_capacity g"] exI [of _ c] exI [of _ "sg_edge_capacity g"]) (simp add: that)
  show "state_graph_grown g (g\<lparr>sg_edge_capacity := c\<rparr>)" if "sg_edge_capacity g \<le> c"
    unfolding state_graph_grown_def
    by (intro exI [of _ "sg_channel_capacity g"] exI [of _ "sg_node_capacity g"] exI [of _ c]) (simp add: that)
qed

lemma state_graph_grown_kept:
  "state_graph_grown g g' \<Longrightarrow> state_graph_view g' = state_graph_view g"
  "state_graph_grown g g' \<Longrightarrow> state_graph_shape J g \<Longrightarrow> state_graph_shape J g'"
  by (auto simp: state_graph_grown_def sg_view_simps state_graph_shape_def split: option.splits)

lemma shape_add_channel:
  "state_graph_shape J g \<Longrightarrow> length (sg_channels g) + 1 \<le> c \<Longrightarrow> sc_name ch \<notin> sc_name ` set (sg_channels g) \<Longrightarrow>
   turbo_state_graph_validate_channel_value J ch (Some (sc_default_value ch)) = TURBO_STATE_GRAPH_OK \<Longrightarrow>
   state_graph_shape J (g\<lparr>sg_channel_capacity := c, sg_channels := sg_channels g @ [ch]\<rparr>)"
  by (auto simp: state_graph_shape_def split: option.splits)

lemma shape_add_node:
  "state_graph_shape J g \<Longrightarrow> length (sg_nodes g) + 1 \<le> c \<Longrightarrow> sn_name n \<notin> sn_name ` set (sg_nodes g) \<Longrightarrow>
   state_graph_shape J (g\<lparr>sg_node_capacity := c, sg_nodes := sg_nodes g @ [n]\<rparr>)"
  by (fastforce simp: state_graph_shape_def intro: less_SucI split: option.splits)

lemma shape_add_edge:
  "state_graph_shape J g \<Longrightarrow> length (sg_edges g) + 1 \<le> c \<Longrightarrow> se_from_index e < length (sg_nodes g) \<Longrightarrow>
   se_to_index e < length (sg_nodes g) \<Longrightarrow>
   state_graph_shape J (g\<lparr>sg_edge_capacity := c, sg_edges := sg_edges g @ [e]\<rparr>)"
  by (auto simp: state_graph_shape_def split: option.splits)

text \<open>The outcome of a builder operation: the invariant holds, and a failure only grew a capacity.\<close>

definition built :: "('j, 'd) json_lib \<Rightarrow> ('j, 'u) turbo_state_graph \<Rightarrow>
    turbo_state_graph_status_t \<times> ('j, 'u) turbo_state_graph \<times> alloc \<Rightarrow> bool" where
  "built J g r \<longleftrightarrow> (case r of (s, g', _) \<Rightarrow>
     state_graph_shape J g' \<and> (s \<noteq> TURBO_STATE_GRAPH_OK \<longrightarrow> state_graph_view g' = state_graph_view g))"

lemma built_failed: "state_graph_shape J g \<Longrightarrow> state_graph_grown g g' \<Longrightarrow> built J g (s, g', a)"
  using state_graph_grown_kept by (auto simp: built_def)

lemma built_ok: "state_graph_shape J g' \<Longrightarrow> built J g (TURBO_STATE_GRAPH_OK, g', a)"
  by (simp add: built_def)

lemma add_channel_built:
  assumes "state_graph_shape J g"
  shows "built J g (turbo_state_graph_add_channel J a g name config)"
  by (auto simp: turbo_state_graph_add_channel_def Let_def find_channel_index_None
      dest: sg_reserve_grows sg_reserve_room intro!: built_failed built_ok state_graph_grownI shape_add_channel assms
      split: option.split prod.split)

lemma add_state_node_built:
  assumes "state_graph_shape J g"
  shows "built J g (turbo_state_graph_add_json_value_node a g name fn)"
  by (auto simp: turbo_state_graph_add_json_value_node_def turbo_state_graph_add_json_value_node_owned_def Let_def
      sg_find_node_index_None dest: sg_reserve_grows sg_reserve_room intro!: built_failed built_ok state_graph_grownI shape_add_node assms
      split: option.split prod.split)

lemma add_state_edge_built:
  assumes "state_graph_shape J g"
  shows "built J g (turbo_state_graph_add_json_value_edge a g from to p)"
  by (auto simp: turbo_state_graph_add_json_value_edge_def Let_def dest: sg_find_node_index_Some
      sg_reserve_grows sg_reserve_room intro!: built_failed built_ok state_graph_grownI shape_add_edge assms split: option.split prod.split)

lemma set_state_entry_built:
  assumes "state_graph_shape J g"
  shows "built J g (turbo_state_graph_set_entry a g name)"
proof -
  have "state_graph_shape J (g\<lparr>sg_entry_node := Some n\<rparr>)" if "turbo_state_graph_find_node_index g n \<noteq> None" for n
    using assms that sg_find_node_index_None [of g n] by (auto simp: state_graph_shape_def)
  then show ?thesis
    by (auto simp: turbo_state_graph_set_entry_def Let_def
        intro!: built_failed built_ok state_graph_grownI assms split: option.split prod.split)
qed

lemma apply_state_graph_op_result:
  assumes "state_graph_shape J g" and "apply_state_graph_op J op a g = (s, g', a')"
  shows "state_graph_shape J g' \<and> (s \<noteq> TURBO_STATE_GRAPH_OK \<longrightarrow> state_graph_view g' = state_graph_view g)"
proof -
  have "built J g (apply_state_graph_op J op a g)"
    using assms(1)
    by (cases op) (simp_all add: add_channel_built add_state_node_built add_state_edge_built set_state_entry_built)
  with assms(2) show ?thesis by (simp add: built_def)
qed

interpretation state_graph_builder: builder "apply_state_graph_op J" "state_graph_shape J" state_graph_view
    TURBO_STATE_GRAPH_OK for J
  by unfold_locales (use apply_state_graph_op_result in blast)+

subsection \<open>Merging objects\<close>

text \<open>The members of the current value that a merge starts from: those of an object, none of \<open>null\<close> or \<open>NULL\<close>.\<close>

definition base_member :: "('j, 'd) json_lib \<Rightarrow> 'j option \<Rightarrow> string \<Rightarrow> 'j option" where
  "base_member J current k =
     (case current of None \<Rightarrow> None | Some c \<Rightarrow> if jl_type J c = JSON_OBJECT then jl_object_get J c k else None)"

definition both_objects :: "('j, 'd) json_lib \<Rightarrow> 'j option \<Rightarrow> 'j \<Rightarrow> bool" where
  "both_objects J current v \<longleftrightarrow>
     (case current of None \<Rightarrow> False | Some c \<Rightarrow> jl_type J c = JSON_OBJECT \<and> jl_type J v = JSON_OBJECT)"

text \<open>The specification: members only one side has stay, members that are objects on both sides are merged, and any
  other member of the update wins.\<close>

inductive deep_merge :: "('j, 'd) json_lib \<Rightarrow> 'j option \<Rightarrow> 'j \<Rightarrow> 'j \<Rightarrow> bool" for J where
  deep_mergeI: "jl_type J r = JSON_OBJECT \<Longrightarrow>
    (\<And>k. jl_object_get J u k = None \<Longrightarrow> jl_object_get J r k = base_member J current k) \<Longrightarrow>
    (\<And>k v. jl_object_get J u k = Some v \<Longrightarrow>
       \<exists>rv. jl_object_get J r k = Some rv \<and>
         (both_objects J (base_member J current k) v \<longrightarrow> deep_merge J (base_member J current k) v rv) \<and>
         (\<not> both_objects J (base_member J current k) v \<longrightarrow> rv = v)) \<Longrightarrow>
    deep_merge J current u r"

inductive_cases deep_mergeE: "deep_merge J current u r"

definition member_merged :: "('j, 'd) json_lib \<Rightarrow> 'j option \<Rightarrow> 'j \<Rightarrow> 'j \<Rightarrow> bool" where
  "member_merged J current v rv \<longleftrightarrow>
     (if both_objects J current v then deep_merge J current v rv else rv = v)"

text \<open>The outcome of a computation that can only run out of memory, and does not when no allocation fails.\<close>

definition unless_oom :: "alloc \<Rightarrow> ('j \<Rightarrow> bool) \<Rightarrow> turbo_state_graph_status_t \<times> 'j option \<times> alloc \<Rightarrow> bool" where
  "unless_oom a Q r \<longleftrightarrow> (case r of (s, out, a') \<Rightarrow>
     ((s = TURBO_STATE_GRAPH_OUT_OF_MEMORY \<and> out = None) \<or> (s = TURBO_STATE_GRAPH_OK \<and> (\<exists>r. out = Some r \<and> Q r))) \<and>
     (a = [] \<longrightarrow> s = TURBO_STATE_GRAPH_OK \<and> a' = []))"

lemma merge_child_spec:
  assumes "\<And>c. jl_type J c = JSON_OBJECT \<Longrightarrow> jl_type J v = JSON_OBJECT \<Longrightarrow>
      unless_oom a (deep_merge J (Some c) v) (f a (Some c) v)"
  shows "unless_oom a (member_merged J current v) (merge_child f J a current v)"
  using assms by (cases a) (auto simp: merge_child_def unless_oom_def member_merged_def both_objects_def json_create_def
      split: option.splits if_splits)

definition keys_at :: "('j, 'd) json_lib \<Rightarrow> 'j \<Rightarrow> nat list \<Rightarrow> string set" where
  "keys_at J u is = {k. \<exists>i \<in> set is. jl_object_key J u i = Some k}"

lemma object_key:
  assumes "json_laws J" and "jl_type J u = JSON_OBJECT" and "i < jl_object_size J u"
  obtains k v where "jl_object_key J u i = Some k" "jl_object_get J u k = Some v"
  using assms unfolding json_laws_def json_object_laws_def by blast

lemma object_key_new:
  assumes "json_laws J" and "jl_type J u = JSON_OBJECT" and "i < jl_object_size J u"
    and "set is \<subseteq> {..<jl_object_size J u}" and "i \<notin> set is" and "jl_object_key J u i = Some k"
  shows "k \<notin> keys_at J u is"
proof
  assume "k \<in> keys_at J u is"
  then obtain j where j: "j \<in> set is" "jl_object_key J u j = Some k" by (auto simp: keys_at_def)
  then have "j = i" using assms unfolding json_laws_def json_object_laws_def by (metis lessThan_iff subsetD)
  with j assms(5) show False by simp
qed

lemma keys_at_all:
  assumes "json_laws J" and "jl_type J u = JSON_OBJECT"
  shows "k \<in> keys_at J u [0..<jl_object_size J u] \<longleftrightarrow> (\<exists>v. jl_object_get J u k = Some v)"
proof
  assume "k \<in> keys_at J u [0..<jl_object_size J u]"
  then obtain i where "i < jl_object_size J u" "jl_object_key J u i = Some k" by (auto simp: keys_at_def)
  then show "\<exists>v. jl_object_get J u k = Some v" using object_key [OF assms] by (metis option.inject)
next
  assume "\<exists>v. jl_object_get J u k = Some v"
  then obtain i where "i < jl_object_size J u" "jl_object_key J u i = Some k"
    using assms unfolding json_laws_def json_object_laws_def by blast
  then show "k \<in> keys_at J u [0..<jl_object_size J u]" by (auto simp: keys_at_def)
qed

text \<open>The loop over the keys: the members at the indices still to come are merged into the result, the others stay.\<close>

definition merged_keys :: "('j, 'd) json_lib \<Rightarrow> 'j \<Rightarrow> string set \<Rightarrow> 'j \<Rightarrow> 'j \<Rightarrow> bool" where
  "merged_keys J u K r r' \<longleftrightarrow> jl_type J r' = JSON_OBJECT \<and>
     (\<forall>k. k \<notin> K \<longrightarrow> jl_object_get J r' k = jl_object_get J r k) \<and>
     (\<forall>k \<in> K. \<forall>v. jl_object_get J u k = Some v \<longrightarrow>
        (\<exists>rv. jl_object_get J r' k = Some rv \<and> member_merged J (jl_object_get J r k) v rv))"

lemma merged_keys_step:
  assumes "json_laws J" and "jl_type J r = JSON_OBJECT" and "k \<notin> K" and "jl_object_get J u k = Some v"
    and "member_merged J (jl_object_get J r k) v m" and "merged_keys J u K (jl_object_add J r k m) r'"
  shows "merged_keys J u (insert k K) r r'"
proof -
  have get: "jl_object_get J (jl_object_add J r k m) k' = (if k' = k then Some m else jl_object_get J r k')" for k'
    using json_obj(4) [OF assms(1,2)] .
  have "\<exists>rv. jl_object_get J r' k' = Some rv \<and> member_merged J (jl_object_get J r k') v' rv"
    if "k' \<in> insert k K" "jl_object_get J u k' = Some v'" for k' v'
    using that assms(3-6) unfolding merged_keys_def get by (cases "k' = k") auto
  then show ?thesis using assms(6) unfolding merged_keys_def get by auto
qed

lemma merge_keys_spec:
  assumes "json_laws J" and "jl_type J u = JSON_OBJECT"
    and child: "\<And>a c k v. jl_object_get J u k = Some v \<Longrightarrow> jl_type J c = JSON_OBJECT \<Longrightarrow> jl_type J v = JSON_OBJECT \<Longrightarrow>
      unless_oom a (deep_merge J (Some c) v) (f a (Some c) v)"
    and "set is \<subseteq> {..<jl_object_size J u}" and "distinct is" and "jl_type J r = JSON_OBJECT"
  shows "unless_oom a (merged_keys J u (keys_at J u is) r) (merge_keys f J u is a r)"
  using assms(4-6)
proof (induction "is" arbitrary: a r)
  case Nil
  then show ?case by (simp add: unless_oom_def merged_keys_def keys_at_def)
next
  case (Cons i "is")
  obtain k v where k: "jl_object_key J u i = Some k" "jl_object_get J u k = Some v"
    using object_key [OF assms(1,2)] Cons.prems(1) by (metis lessThan_iff list.set_intros(1) subsetD)
  have new: "k \<notin> keys_at J u is"
    using object_key_new [OF assms(1,2)] Cons.prems k(1) by (metis distinct.simps(2) insert_subset lessThan_iff list.set(2))
  have keys: "keys_at J u (i # is) = insert k (keys_at J u is)" using k(1) by (auto simp: keys_at_def)
  obtain s m a1 where c: "merge_child f J a (jl_object_get J r k) v = (s, m, a1)" by (metis prod_cases3)
  have cs: "unless_oom a (member_merged J (jl_object_get J r k) v) (s, m, a1)"
    using merge_child_spec [of J v a f "jl_object_get J r k"] child [OF k(2)] c by metis
  show ?case
  proof (cases "s = TURBO_STATE_GRAPH_OK")
    case False
    then show ?thesis using cs k c by (auto simp: unless_oom_def)
  next
    case True
    then obtain mv where m: "m = Some mv" "member_merged J (jl_object_get J r k) v mv"
      using cs by (auto simp: unless_oom_def)
    obtain ok a2 where a2: "alloc1 a1 = (ok, a2)" by fastforce
    have IH: "unless_oom a2 (merged_keys J u (keys_at J u is) (jl_object_add J r k mv))
        (merge_keys f J u is a2 (jl_object_add J r k mv))"
      using Cons.IH [of "jl_object_add J r k mv" a2] Cons.prems json_obj(3) [OF assms(1)] by simp
    then have "unless_oom a2 (merged_keys J u (keys_at J u (i # is)) r)
        (merge_keys f J u is a2 (jl_object_add J r k mv))"
      using merged_keys_step [OF assms(1) Cons.prems(3) new k(2) m(2)] unfolding keys by (auto simp: unless_oom_def)
    moreover have "a = [] \<Longrightarrow> ok \<and> a2 = []" using cs a2 by (auto simp: unless_oom_def)
    ultimately show ?thesis
      using k c True m a2 Cons.prems(3) by (auto simp: turbo_runtime_json_object_set_def unless_oom_def)
  qed
qed

lemma value_size_object: "jl_type J u = JSON_OBJECT \<Longrightarrow> turbo_runtime_json_value_size J (Some u) = jl_object_size J u"
  by (simp add: turbo_runtime_json_value_size_def)

text \<open>A merge is refused when the update is not an object or the current value is neither an object nor \<open>null\<close>.\<close>

definition merge_refused :: "('j, 'd) json_lib \<Rightarrow> 'j option \<Rightarrow> 'j \<Rightarrow> bool" where
  "merge_refused J current u \<longleftrightarrow> jl_type J u \<noteq> JSON_OBJECT \<or>
     (case current of None \<Rightarrow> False | Some c \<Rightarrow> jl_type J c \<noteq> JSON_OBJECT \<and> jl_type J c \<noteq> JSON_NULL)"

text \<open>The object the loop starts from.\<close>

definition merge_base :: "('j, 'd) json_lib \<Rightarrow> 'j option \<Rightarrow> 'j" where
  "merge_base J current =
     (case current of None \<Rightarrow> jl_object J | Some c \<Rightarrow> if jl_type J c = JSON_OBJECT then c else jl_object J)"

lemma merge_base_members:
  assumes "json_laws J"
  shows "jl_type J (merge_base J current) = JSON_OBJECT"
    and "jl_object_get J (merge_base J current) k = base_member J current k"
  using json_obj(1,2) [OF assms] by (auto simp: merge_base_def base_member_def split: option.splits)

lemma merge_fuel_Suc:
  "merge_fuel (Suc fuel) J a current u =
     (if merge_refused J current u then (TURBO_STATE_GRAPH_TYPE_MISMATCH, None, a)
      else (case alloc1 a of (ok, a) \<Rightarrow>
        if \<not> ok then (TURBO_STATE_GRAPH_OUT_OF_MEMORY, None, a)
        else merge_keys (merge_fuel fuel J) J u [0..<jl_object_size J u] a (merge_base J current)))"
  by (cases "alloc1 a") (auto simp: merge_refused_def merge_base_def json_create_def value_size_object)

lemma merge_keys_cong:
  assumes "\<And>a c k v. jl_object_get J u k = Some v \<Longrightarrow> f a c v = g a c v"
  shows "merge_keys f J u is a r = merge_keys g J u is a r"
proof (induction "is" arbitrary: a r)
  case Nil
  show ?case by simp
next
  case (Cons i "is")
  have "merge_child f J a c v = merge_child g J a c v" if "jl_object_get J u k = Some v" for a c k v
    using assms [OF that] by (simp add: merge_child_def split: option.split)
  then show ?case using Cons.IH by (simp split: option.split prod.split)
qed

lemma merge_fuel_enough:
  assumes "json_depth_laws J" and "jl_depth J u < n" and "jl_depth J u < m"
  shows "merge_fuel n J a current u = merge_fuel m J a current u"
  using assms(2,3)
proof (induction n arbitrary: m a current u)
  case 0
  then show ?case by simp
next
  case (Suc n)
  then obtain m' where m: "m = Suc m'" by (cases m) auto
  have "merge_fuel n J a c v = merge_fuel m' J a c v" if "jl_object_get J u k = Some v" for a c k v
  proof -
    have "jl_depth J v < jl_depth J u" using assms(1) that by (auto simp: json_depth_laws_def)
    then show ?thesis using Suc.IH [of v m'] Suc.prems m by simp
  qed
  then have "merge_keys (merge_fuel n J) J u is a r = merge_keys (merge_fuel m' J) J u is a r" for "is" a r
    by (rule merge_keys_cong)
  then show ?case unfolding m merge_fuel_Suc by (simp split: prod.split)
qed

text \<open>The recursion of the C function.\<close>

lemma merge_unfolds:
  assumes "json_depth_laws J"
  shows "turbo_state_graph_merge_object_values J a current u =
     (if merge_refused J current u then (TURBO_STATE_GRAPH_TYPE_MISMATCH, None, a)
      else (case alloc1 a of (ok, a) \<Rightarrow>
        if \<not> ok then (TURBO_STATE_GRAPH_OUT_OF_MEMORY, None, a)
        else merge_keys (turbo_state_graph_merge_object_values J) J u [0..<jl_object_size J u] a (merge_base J current)))"
proof -
  have "merge_fuel (jl_depth J u) J a c v = turbo_state_graph_merge_object_values J a c v"
    if "jl_object_get J u k = Some v" for a c k v
  proof -
    have "jl_depth J v < jl_depth J u" using assms that by (auto simp: json_depth_laws_def)
    then show ?thesis unfolding turbo_state_graph_merge_object_values_def
      using merge_fuel_enough [OF assms] by blast
  qed
  then have "merge_keys (merge_fuel (jl_depth J u) J) J u is a r =
      merge_keys (turbo_state_graph_merge_object_values J) J u is a r" for "is" a r
    by (rule merge_keys_cong)
  then show ?thesis
    unfolding turbo_state_graph_merge_object_values_def [of J a current u] merge_fuel_Suc by (simp split: prod.split)
qed

lemma merge_fuel_spec:
  assumes "json_laws J" and "json_depth_laws J" and "jl_depth J u < n" and "\<not> merge_refused J current u"
  shows "unless_oom a (deep_merge J current u) (merge_fuel n J a current u)"
  using assms(3,4)
proof (induction n arbitrary: a current u)
  case 0
  then show ?case by simp
next
  case (Suc n)
  have u: "jl_type J u = JSON_OBJECT" using Suc.prems(2) by (simp add: merge_refused_def)
  have child: "unless_oom a (deep_merge J (Some c) v) (merge_fuel n J a (Some c) v)"
    if "jl_object_get J u k = Some v" "jl_type J c = JSON_OBJECT" "jl_type J v = JSON_OBJECT" for a c k v
  proof -
    have "jl_depth J v < jl_depth J u" using assms(2) that by (auto simp: json_depth_laws_def)
    then show ?thesis using Suc.IH [of v "Some c" a] Suc.prems that by (simp add: merge_refused_def)
  qed
  obtain ok a1 where a1: "alloc1 a = (ok, a1)" by fastforce
  let ?K = "keys_at J u [0..<jl_object_size J u]"
  have keys: "unless_oom a1 (merged_keys J u ?K (merge_base J current))
      (merge_keys (merge_fuel n J) J u [0..<jl_object_size J u] a1 (merge_base J current))"
    by (rule merge_keys_spec [OF assms(1) u child _ _ merge_base_members(1) [OF assms(1)]]) auto
  have "deep_merge J current u r" if r: "merged_keys J u ?K (merge_base J current) r" for r
  proof (rule deep_mergeI)
    show "jl_type J r = JSON_OBJECT" using r by (simp add: merged_keys_def)
  next
    fix k assume "jl_object_get J u k = None"
    then show "jl_object_get J r k = base_member J current k"
      using r keys_at_all [OF assms(1) u] merge_base_members(2) [OF assms(1)] by (simp add: merged_keys_def)
  next
    fix k v assume k: "jl_object_get J u k = Some v"
    then have "k \<in> ?K" using keys_at_all [OF assms(1) u] by blast
    then obtain rv where "jl_object_get J r k = Some rv" "member_merged J (base_member J current k) v rv"
      using r k unfolding merged_keys_def merge_base_members(2) [OF assms(1)] by blast
    then show "\<exists>rv. jl_object_get J r k = Some rv \<and>
         (both_objects J (base_member J current k) v \<longrightarrow> deep_merge J (base_member J current k) v rv) \<and>
         (\<not> both_objects J (base_member J current k) v \<longrightarrow> rv = v)"
      by (auto simp: member_merged_def split: if_splits)
  qed
  then have "unless_oom a1 (deep_merge J current u)
      (merge_keys (merge_fuel n J) J u [0..<jl_object_size J u] a1 (merge_base J current))"
    using keys by (auto simp: unless_oom_def)
  moreover have "a = [] \<Longrightarrow> ok \<and> a1 = []" using a1 by auto
  ultimately show ?case
    using Suc.prems(2) a1 unfolding merge_fuel_Suc by (auto simp: unless_oom_def)
qed

text \<open>C28. Merging one object into another is the deep merge: members that are objects on both sides are merged
  recursively, other members of the update win, the rest stays. It is refused exactly when the update is not an object
  or the current value is neither an object nor null; otherwise it can only run out of memory, and does not when
  every allocation succeeds.\<close>

theorem merge_is_deep_merge:
  assumes "json_laws J" and "json_depth_laws J"
    and "turbo_state_graph_merge_object_values J a current u = (s, out, a')"
  shows "if merge_refused J current u then s = TURBO_STATE_GRAPH_TYPE_MISMATCH \<and> out = None
         else ((s = TURBO_STATE_GRAPH_OK \<and> (\<exists>r. out = Some r \<and> deep_merge J current u r)) \<or>
               (s = TURBO_STATE_GRAPH_OUT_OF_MEMORY \<and> out = None \<and> a \<noteq> []))"
proof (cases "merge_refused J current u")
  case True
  then show ?thesis using assms(3) merge_unfolds [OF assms(2)] by simp
next
  case False
  then have "unless_oom a (deep_merge J current u) (s, out, a')"
    using merge_fuel_spec [OF assms(1,2) lessI] assms(3) unfolding turbo_state_graph_merge_object_values_def by metis
  then show ?thesis using False by (auto simp: unless_oom_def)
qed

lemma merge_is_deep_merge_witness:
  "deep_merge ref_json (Some (JObj [(''a'', JObj [(''x'', JInt 1)]), (''b'', JNull)])) (JObj [(''a'', JObj [(''y'', JInt 2)])])
     (JObj [(''a'', JObj [(''x'', JInt 1), (''y'', JInt 2)]), (''b'', JNull)])"
proof -
  have "turbo_state_graph_merge_object_values ref_json []
      (Some (JObj [(''a'', JObj [(''x'', JInt 1)]), (''b'', JNull)])) (JObj [(''a'', JObj [(''y'', JInt 2)])]) =
    (TURBO_STATE_GRAPH_OK, Some (JObj [(''a'', JObj [(''x'', JInt 1), (''y'', JInt 2)]), (''b'', JNull)]), [])"
    by code_simp
  from merge_is_deep_merge [OF ref_json_laws ref_depth_laws this] show ?thesis
    by (simp add: merge_refused_def ref_json_def)
qed

subsection \<open>Reducers\<close>

lemma elements_size: "jl_type J v = JSON_ARRAY \<Longrightarrow> json_elements J v = map (jl_array_get J v) [0..<jl_array_size J v]"
  by (simp add: json_elements_def turbo_runtime_json_value_size_def)

lemma elements_add:
  assumes "json_laws J" and "jl_type J arr = JSON_ARRAY"
  shows "jl_type J (jl_array_add J arr v) = JSON_ARRAY"
    and "json_elements J (jl_array_add J arr v) = json_elements J arr @ [Some v]"
proof -
  show t: "jl_type J (jl_array_add J arr v) = JSON_ARRAY"
    using assms by (simp add: json_laws_def json_array_laws_def)
  have "jl_array_size J (jl_array_add J arr v) = Suc (jl_array_size J arr)"
    "\<And>i. jl_array_get J (jl_array_add J arr v) i = (if i = jl_array_size J arr then Some v else jl_array_get J arr i)"
    using assms by (simp_all add: json_laws_def json_array_laws_def)
  then show "json_elements J (jl_array_add J arr v) = json_elements J arr @ [Some v]"
    unfolding elements_size [OF t] elements_size [OF assms(2)] by simp
qed

lemma elements_empty: "json_laws J \<Longrightarrow> jl_type J (jl_array J) = JSON_ARRAY \<and> json_elements J (jl_array J) = []"
  using elements_size [of J "jl_array J"] by (simp add: json_laws_def json_type_laws_def json_array_laws_def)

definition array_extended where
  "array_extended J channel es arr r \<longleftrightarrow>
     jl_type J r = JSON_ARRAY \<and> json_elements J r = json_elements J arr @ es \<and>
     (\<forall>e \<in> set es. turbo_state_graph_validate_channel_value J channel e = TURBO_STATE_GRAPH_OK)"

lemma append_one_spec:
  assumes "json_laws J" and "jl_type J arr = JSON_ARRAY" and "append_one J channel a child arr = (s, out, a')"
  shows "if s = TURBO_STATE_GRAPH_OK then \<exists>r. out = Some r \<and> array_extended J channel [child] arr r else out = None"
proof -
  have "child \<noteq> None" if "turbo_state_graph_validate_channel_value J channel child = TURBO_STATE_GRAPH_OK"
    using that by (cases child) (simp_all add: turbo_state_graph_validate_channel_value_def)
  then show ?thesis
    using assms elements_add [OF assms(1,2)]
    by (auto simp: append_one_def Let_def json_create_def turbo_runtime_json_array_append_def array_extended_def
        split: if_splits prod.splits option.splits)
qed

lemma append_all_spec:
  assumes "json_laws J" and "jl_type J arr = JSON_ARRAY" and "append_all J channel a es arr = (s, out, a')"
  shows "if s = TURBO_STATE_GRAPH_OK then \<exists>r. out = Some r \<and> array_extended J channel es arr r else out = None"
  using assms(2,3)
proof (induction es arbitrary: a arr)
  case Nil
  then show ?case by (auto simp: array_extended_def)
next
  case (Cons e es)
  obtain s1 out1 a1 where one: "append_one J channel a e arr = (s1, out1, a1)" by (metis prod_cases3)
  note o = append_one_spec [OF assms(1) Cons.prems(1) one]
  show ?case
  proof (cases "s1 = TURBO_STATE_GRAPH_OK")
    case True
    then obtain r1 where r1: "out1 = Some r1" "array_extended J channel [e] arr r1" using o by auto
    then have "append_all J channel a1 es r1 = (s, out, a')" using Cons.prems(2) one True by simp
    moreover have "jl_type J r1 = JSON_ARRAY" using r1 by (simp add: array_extended_def)
    ultimately have "if s = TURBO_STATE_GRAPH_OK then \<exists>r. out = Some r \<and> array_extended J channel es r1 r else out = None"
      by (rule Cons.IH [rotated])
    then show ?thesis using r1(2) by (auto simp: array_extended_def split: if_splits)
  next
    case False
    then show ?thesis using Cons.prems(2) one o by (cases s1) auto
  qed
qed

text \<open>The value each reducer promises.\<close>

definition reducer_value ::
    "('j, 'd) json_lib \<Rightarrow> 'j turbo_state_graph_channel_entry \<Rightarrow> 'j option \<Rightarrow> 'j \<Rightarrow> 'j \<Rightarrow> bool" where
  "reducer_value J channel current v rv \<longleftrightarrow>
     (case sc_reducer channel of
        TURBO_STATE_GRAPH_REDUCER_REPLACE \<Rightarrow> rv = v
      | TURBO_STATE_GRAPH_REDUCER_LAST_NON_NULL \<Rightarrow>
          rv = (if jl_type J v = JSON_NULL then (case current of Some c \<Rightarrow> c | None \<Rightarrow> sc_default_value channel) else v)
      | TURBO_STATE_GRAPH_REDUCER_APPEND \<Rightarrow>
          jl_type J rv = JSON_ARRAY \<and>
          json_elements J rv =
            (case current of None \<Rightarrow> [] | Some c \<Rightarrow> if jl_type J c = JSON_ARRAY then json_elements J c else []) @
            (if jl_type J v = JSON_ARRAY then json_elements J v else [Some v])
      | TURBO_STATE_GRAPH_REDUCER_MERGE_OBJECT \<Rightarrow> deep_merge J current v rv
      | TURBO_STATE_GRAPH_REDUCER_ADD \<Rightarrow>
          rv = jl_number_of J (jl_double_add J
                 (case current of None \<Rightarrow> jl_double_of_int J 0
                  | Some c \<Rightarrow> if jl_type J c = JSON_NUMBER then jl_number J c else jl_double_of_int J 0)
                 (jl_number J v)))"

text \<open>What an APPEND starts from, and what it appends.\<close>

definition append_base :: "('j, 'd) json_lib \<Rightarrow> 'j option \<Rightarrow> 'j" where
  "append_base J current =
     (case current of None \<Rightarrow> jl_array J | Some c \<Rightarrow> if jl_type J c = JSON_ARRAY then c else jl_array J)"

definition append_elements :: "('j, 'd) json_lib \<Rightarrow> 'j \<Rightarrow> 'j option list" where
  "append_elements J v = (if jl_type J v = JSON_ARRAY then json_elements J v else [Some v])"

lemma append_base_elements:
  assumes "json_laws J"
  shows "jl_type J (append_base J current) = JSON_ARRAY"
    and "json_elements J (append_base J current) =
      (case current of None \<Rightarrow> [] | Some c \<Rightarrow> if jl_type J c = JSON_ARRAY then json_elements J c else [])"
  using elements_empty [OF assms] by (auto simp: append_base_def split: option.split)

lemma reduce_append_extends:
  assumes "json_laws J" and "reduce_append J channel a current v = (s, out, a')"
  shows "if s = TURBO_STATE_GRAPH_OK
    then \<exists>rv. out = Some rv \<and> array_extended J channel (append_elements J v) (append_base J current) rv else out = None"
proof -
  consider (refused) "out = None" "s \<noteq> TURBO_STATE_GRAPH_OK"
    | (all) a1 where "append_all J channel a1 (append_elements J v) (append_base J current) = (s, out, a')"
    | (one) a1 where "append_one J channel a1 (Some v) (append_base J current) = (s, out, a')" "append_elements J v = [Some v]"
    using assms(2) by (auto simp: reduce_append_def json_create_def append_base_def append_elements_def
        split: if_splits prod.splits option.splits)
  then show ?thesis
    using append_all_spec [OF assms(1) append_base_elements(1) [OF assms(1)]]
      append_one_spec [OF assms(1) append_base_elements(1) [OF assms(1)]] by cases auto
qed

lemma reduce_append_spec:
  assumes "json_laws J" and "reduce_append J channel a current v = (s, out, a')"
    and "sc_reducer channel = TURBO_STATE_GRAPH_REDUCER_APPEND"
  shows "if s = TURBO_STATE_GRAPH_OK then \<exists>rv. out = Some rv \<and> reducer_value J channel current v rv else out = None"
  using reduce_append_extends [OF assms(1,2)] assms(3) append_base_elements [OF assms(1)]
  by (auto simp: reducer_value_def array_extended_def append_elements_def split: if_splits)

lemma reduce_add_spec:
  assumes "reduce_add J channel a current v = (s, out, a')" and "sc_reducer channel = TURBO_STATE_GRAPH_REDUCER_ADD"
  shows "if s = TURBO_STATE_GRAPH_OK then \<exists>rv. out = Some rv \<and> reducer_value J channel current v rv else out = None"
  using assms by (auto simp: reduce_add_def Let_def json_create_def reducer_value_def turbo_runtime_json_value_as_double_def
      turbo_runtime_json_value_as_int64_def split: if_splits option.splits prod.splits)

lemma reduce_channel_result:
  assumes "json_laws J" and "json_depth_laws J"
    and "turbo_state_graph_reduce_channel J channel a current v = (s, out, a')"
  shows "if s = TURBO_STATE_GRAPH_OK then \<exists>rv. out = Some rv \<and> reducer_value J channel current v rv else out = None"
proof (cases "sc_reducer channel")
  case TURBO_STATE_GRAPH_REDUCER_APPEND
  then show ?thesis using reduce_append_spec [OF assms(1)] assms(3)
    by (simp add: turbo_state_graph_reduce_channel_def Let_def)
next
  case TURBO_STATE_GRAPH_REDUCER_ADD
  then show ?thesis using reduce_add_spec [of J channel] assms(3)
    by (simp add: turbo_state_graph_reduce_channel_def Let_def)
next
  case TURBO_STATE_GRAPH_REDUCER_MERGE_OBJECT
  then have m: "turbo_state_graph_merge_object_values J a current v = (s, out, a')"
    using assms(3) by (simp add: turbo_state_graph_reduce_channel_def Let_def)
  show ?thesis
  proof (cases "merge_refused J current v")
    case True
    then show ?thesis using m merge_unfolds [OF assms(2)] by auto
  next
    case False
    then have "unless_oom a (deep_merge J current v) (s, out, a')"
      using merge_fuel_spec [OF assms(1,2) lessI] m unfolding turbo_state_graph_merge_object_values_def by metis
    then show ?thesis using TURBO_STATE_GRAPH_REDUCER_MERGE_OBJECT by (auto simp: unless_oom_def reducer_value_def)
  qed
qed (use assms(3) in \<open>auto simp: turbo_state_graph_reduce_channel_def Let_def json_create_def reducer_value_def
    turbo_state_graph_channel_base_value_def split: if_splits prod.splits option.splits\<close>)

subsection \<open>Applying an update\<close>

text \<open>The channels at the keys \<open>K\<close> have taken the value of their reducer, everything else is as it was.\<close>

definition keys_updated ::
    "('j, 'd) json_lib \<Rightarrow> ('j, 'u) turbo_state_graph \<Rightarrow> 'j \<Rightarrow> string set \<Rightarrow> 'j \<Rightarrow> 'j \<Rightarrow> bool" where
  "keys_updated J g u K st st' \<longleftrightarrow>
     jl_type J st' = JSON_OBJECT \<and>
     (\<forall>k. k \<notin> K \<longrightarrow> jl_object_get J st' k = jl_object_get J st k) \<and>
     (\<forall>k \<in> K. \<exists>v channel rv. jl_object_get J u k = Some v \<and> channel \<in> set (sg_channels g) \<and> sc_name channel = k \<and>
        jl_object_get J st' k = Some rv \<and> reducer_value J channel (jl_object_get J st k) v rv)"

lemma keys_updated_step:
  assumes "json_laws J" and "jl_type J st = JSON_OBJECT" and "k \<notin> K" and "jl_object_get J u k = Some v"
    and "channel \<in> set (sg_channels g)" "sc_name channel = k" and "reducer_value J channel (jl_object_get J st k) v m"
    and "keys_updated J g u K (jl_object_add J st k m) st'"
  shows "keys_updated J g u (insert k K) st st'"
proof -
  have get: "jl_object_get J (jl_object_add J st k m) k' = (if k' = k then Some m else jl_object_get J st k')" for k'
    using json_obj(4) [OF assms(1,2)] .
  note upd = assms(8) [unfolded keys_updated_def get]
  have "\<exists>v channel rv. jl_object_get J u k' = Some v \<and> channel \<in> set (sg_channels g) \<and> sc_name channel = k' \<and>
      jl_object_get J st' k' = Some rv \<and> reducer_value J channel (jl_object_get J st k') v rv"
    if k': "k' \<in> insert k K" for k'
  proof (cases "k' = k")
    case True
    moreover have "jl_object_get J st' k = Some m" using upd assms(3) by simp
    ultimately show ?thesis using assms(4-7) by blast
  next
    case False
    then have "k' \<in> K" using k' by simp
    then obtain v channel rv where "jl_object_get J u k' = Some v" "channel \<in> set (sg_channels g)" "sc_name channel = k'"
      "jl_object_get J st' k' = Some rv"
      "reducer_value J channel (if k' = k then Some m else jl_object_get J st k') v rv"
      using upd by blast
    moreover from this(5) have "reducer_value J channel (jl_object_get J st k') v rv" unfolding if_not_P [OF False] .
    ultimately show ?thesis by blast
  qed
  moreover have "jl_object_get J st' k' = jl_object_get J st k'" if "k' \<notin> insert k K" for k'
    using upd that by simp
  ultimately show ?thesis using upd unfolding keys_updated_def by blast
qed

lemma apply_keys_spec:
  assumes "json_laws J" and "json_depth_laws J" and "jl_type J u = JSON_OBJECT"
    and "set is \<subseteq> {..<jl_object_size J u}" and "distinct is" and "jl_type J st = JSON_OBJECT"
    and "apply_keys J g u is a st = (s, st', a')"
  shows "\<exists>K \<subseteq> keys_at J u is. keys_updated J g u K st st' \<and> (s = TURBO_STATE_GRAPH_OK \<longrightarrow> K = keys_at J u is)"
  using assms(4-7)
proof (induction "is" arbitrary: a st)
  case Nil
  then show ?case by (auto simp: keys_updated_def keys_at_def)
next
  case (Cons i "is")
  have kept: "keys_updated J g u {} st st" using Cons.prems(3) by (simp add: keys_updated_def)
  obtain k v where k: "jl_object_key J u i = Some k" "jl_object_get J u k = Some v"
    using object_key [OF assms(1,3)] Cons.prems(1) by (metis lessThan_iff list.set_intros(1) subsetD)
  have new: "k \<notin> keys_at J u is"
    using object_key_new [OF assms(1,3)] Cons.prems k(1) by (metis distinct.simps(2) insert_subset lessThan_iff list.set(2))
  have keys: "keys_at J u (i # is) = insert k (keys_at J u is)" using k(1) by (auto simp: keys_at_def)
  show ?case
  proof (cases "turbo_state_graph_find_channel_index g k")
    case None
    then have "s \<noteq> TURBO_STATE_GRAPH_OK \<and> st' = st" using Cons.prems(4) k by auto
    then show ?thesis using kept by - (rule exI [of _ "{}"], simp)
  next
    case (Some ci)
    let ?c = "sg_channels g ! ci"
    have ci: "?c \<in> set (sg_channels g)" "sc_name ?c = k" using find_channel_index_Some [OF Some] by auto
    obtain s1 m a1 where red: "turbo_state_graph_reduce_channel J ?c a (jl_object_get J st k) v = (s1, m, a1)"
      by (metis prod_cases3)
    note r = reduce_channel_result [OF assms(1,2) red]
    obtain ok a2 where a2: "alloc1 a1 = (ok, a2)" by fastforce
    show ?thesis
    proof (cases "s1 = TURBO_STATE_GRAPH_OK \<and> ok")
      case False
      then have "s \<noteq> TURBO_STATE_GRAPH_OK \<and> st' = st" using Cons.prems(3,4) k Some red r a2
        by (auto simp: turbo_runtime_json_object_set_def split: if_splits option.splits)
      then show ?thesis using kept by - (rule exI [of _ "{}"], simp)
    next
      case True
      then obtain mv where m: "m = Some mv" "reducer_value J ?c (jl_object_get J st k) v mv" using r by auto
      have "apply_keys J g u is a2 (jl_object_add J st k mv) = (s, st', a')"
        using Cons.prems(3,4) k Some red True m a2 by (simp add: turbo_runtime_json_object_set_def)
      then obtain K where K: "K \<subseteq> keys_at J u is" "keys_updated J g u K (jl_object_add J st k mv) st'"
        "s = TURBO_STATE_GRAPH_OK \<longrightarrow> K = keys_at J u is"
        using Cons.IH [of "jl_object_add J st k mv" a2] Cons.prems json_obj(3) [OF assms(1)] by auto
      have "keys_updated J g u (insert k K) st st'"
        using keys_updated_step [OF assms(1) Cons.prems(3) _ k(2) ci m(2) K(2)] K(1) new by blast
      then show ?thesis unfolding keys using K by (intro exI [of _ "insert k K"]) auto
    qed
  qed
qed

text \<open>C5. Applying an update to a state changes only members the update names, each to the value its channel's reducer
  promises, computed from the member's old value; a name that is no channel is never written. When the call succeeds
  every member the update names was changed so; when it fails some may have been (the update is not atomic).\<close>

theorem apply_update_by_reducers:
  assumes "json_laws J" and "json_depth_laws J" and "jl_type J st = JSON_OBJECT" and "jl_type J u = JSON_OBJECT"
    and "turbo_state_graph_apply_update J g a st u = (s, st', a')"
  shows "\<exists>K. keys_updated J g u K st st' \<and>
    (s = TURBO_STATE_GRAPH_OK \<longrightarrow> K = {k. \<exists>v. jl_object_get J u k = Some v})"
proof -
  have "apply_keys J g u [0..<jl_object_size J u] a st = (s, st', a')"
    using assms(3-5) by (simp add: turbo_state_graph_apply_update_def value_size_object)
  from apply_keys_spec [OF assms(1,2,4) _ _ assms(3) this]
  obtain K where K: "K \<subseteq> keys_at J u [0..<jl_object_size J u]" "keys_updated J g u K st st'"
    "s = TURBO_STATE_GRAPH_OK \<longrightarrow> K = keys_at J u [0..<jl_object_size J u]" by (auto simp: atLeast0LessThan)
  moreover have "keys_at J u [0..<jl_object_size J u] = {k. \<exists>v. jl_object_get J u k = Some v}"
    using keys_at_all [OF assms(1,4)] by blast
  ultimately show ?thesis by blast
qed

text \<open>A state graph for the witnesses: two channels, two nodes, one edge.\<close>

definition work_node :: "(jv, 'u) sg_node_fn" where
  "work_node ctx w = (0, ctx\<lparr>sx_update := JObj [(''log'', JStr (sx_current_node ctx)), (''total'', JDouble 2)]\<rparr>, w)"

definition log_config :: "jv turbo_state_graph_channel_config" where
  "log_config = \<lparr>cf_reducer = TURBO_STATE_GRAPH_REDUCER_APPEND, cf_value_kind = JSON_STRING,
     cf_default_value = Some (JArr []), cf_description = None\<rparr>"

definition total_config :: "jv turbo_state_graph_channel_config" where
  "total_config = \<lparr>cf_reducer = TURBO_STATE_GRAPH_REDUCER_ADD, cf_value_kind = JSON_NUMBER,
     cf_default_value = Some (JDouble 0), cf_description = None\<rparr>"

definition work_ops :: "(jv, unit) state_graph_op list" where
  "work_ops = [Add_Channel (Some ''log'') (Some log_config), Add_Channel (Some ''total'') (Some total_config),
     Add_State_Node (Some ''work'') (Some work_node), Add_State_Node (Some ''report'') (Some work_node),
     Add_State_Edge (Some ''work'') (Some ''report'') None, Set_State_Entry (Some ''work'')]"

definition new_work_graph :: "(jv, unit) turbo_state_graph" where
  "new_work_graph = the (fst (turbo_state_graph_create [] (Some ''demo'')))"

definition work_graph :: "(jv, unit) turbo_state_graph" where
  "work_graph = fst (snd (run_ops (apply_state_graph_op ref_json) work_ops [] new_work_graph))"

lemma new_work_graph_create: "turbo_state_graph_create [] (Some ''demo'') = (Some new_work_graph, [])"
  by (simp add: new_work_graph_def turbo_state_graph_create_def turbo_state_graph_strdup_def)

lemma work_graph_build:
  "run_ops (apply_state_graph_op ref_json) work_ops [] new_work_graph = (replicate 6 TURBO_STATE_GRAPH_OK, work_graph, [])"
proof -
  have "fst (run_ops (apply_state_graph_op ref_json) work_ops [] new_work_graph) = replicate 6 TURBO_STATE_GRAPH_OK"
    "snd (snd (run_ops (apply_state_graph_op ref_json) work_ops [] new_work_graph)) = []" by code_simp+
  then show ?thesis unfolding work_graph_def by (metis prod.collapse)
qed

text \<open>C30. Whatever sequence of builder operations is applied to a new state graph, with whatever allocation failures,
  channel names and node names stay distinct, every channel's default value is one the channel accepts, edges join
  existing nodes, the entry is a node, and the arrays have room for their elements.\<close>

theorem state_graph_build_well_formed:
  assumes "turbo_state_graph_create a name = (Some g0, a0)"
    and "run_ops (apply_state_graph_op J) ops a0 g0 = (statuses, g, a1)"
  shows "state_graph_shape J g"
proof -
  have "state_graph_shape J g0"
    using assms(1) by (auto simp: turbo_state_graph_create_def state_graph_shape_def Let_def split: prod.splits if_splits)
  then show ?thesis using assms(2) by (rule state_graph_builder.run_inv)
qed

lemma state_graph_build_well_formed_witness: "state_graph_shape ref_json work_graph"
  by (rule state_graph_build_well_formed [OF new_work_graph_create work_graph_build])

text \<open>A builder operation on a state graph that does not return OK leaves its structure, its threads, runs and
  history and its counters as they were, even when it failed half way through its allocations.\<close>

lemma state_graph_failed_op_changes_nothing:
  assumes "state_graph_shape J g" and "apply_state_graph_op J op a g = (s, g', a')" and "s \<noteq> TURBO_STATE_GRAPH_OK"
  shows "state_graph_view g' = state_graph_view g"
  using state_graph_builder.apply_failed [OF assms] .

lemma state_graph_failed_op_changes_nothing_witness:
  "state_graph_view (fst (snd (apply_state_graph_op ref_json (Add_Channel (Some ''x'') (Some log_config)) [True, True, False]
     new_work_graph))) = state_graph_view new_work_graph"
proof -
  have "state_graph_shape ref_json new_work_graph"
    by (simp add: new_work_graph_def turbo_state_graph_create_def turbo_state_graph_strdup_def state_graph_shape_def)
  moreover have "apply_state_graph_op ref_json (Add_Channel (Some ''x'') (Some log_config)) [True, True, False] new_work_graph =
      (TURBO_STATE_GRAPH_OUT_OF_MEMORY, new_work_graph\<lparr>sg_channel_capacity := 4\<rparr>, [])"
    by (simp add: new_work_graph_def turbo_state_graph_create_def turbo_state_graph_strdup_def
        turbo_state_graph_add_channel_def turbo_state_graph_find_channel_index_def turbo_state_graph_reserve_def
        log_config_def strdups_def)
  ultimately show ?thesis
    using state_graph_failed_op_changes_nothing [of ref_json new_work_graph _ _ TURBO_STATE_GRAPH_OUT_OF_MEMORY] by fastforce
qed

lemma apply_update_by_reducers_witness:
  "\<exists>K. keys_updated ref_json work_graph (JObj [(''log'', JStr ''x''), (''total'', JInt 3)]) K
     (JObj [(''log'', JArr [JStr ''w'']), (''total'', JDouble 4)])
     (JObj [(''log'', JArr [JStr ''w'', JStr ''x'']), (''total'', JDouble 7)]) \<and>
   K = {k. \<exists>v. jl_object_get ref_json (JObj [(''log'', JStr ''x''), (''total'', JInt 3)]) k = Some v}"
proof -
  have "turbo_state_graph_apply_update ref_json work_graph [] (JObj [(''log'', JArr [JStr ''w'']), (''total'', JDouble 4)])
      (JObj [(''log'', JStr ''x''), (''total'', JInt 3)]) =
    (TURBO_STATE_GRAPH_OK, JObj [(''log'', JArr [JStr ''w'', JStr ''x'']), (''total'', JDouble 7)], [])"
    by code_simp
  from apply_update_by_reducers [OF ref_json_laws ref_depth_laws _ _ this] show ?thesis
    by (simp add: ref_json_def)
qed

subsection \<open>Channel values keep their type\<close>

text \<open>The reducers for which the type check of a channel is about the value they produce: ADD on channels of numbers,
  MERGE on channels of objects, APPEND of elements that are not arrays themselves.\<close>

definition suits_reducer :: "('j, 'd) json_lib \<Rightarrow> 'j turbo_state_graph_channel_entry \<Rightarrow> 'j \<Rightarrow> bool" where
  "suits_reducer J channel v \<longleftrightarrow>
     (case sc_reducer channel of
        TURBO_STATE_GRAPH_REDUCER_APPEND \<Rightarrow>
          jl_type J v = JSON_ARRAY \<longrightarrow> (\<forall>e \<in> set (json_elements J v). \<forall>c. e = Some c \<longrightarrow> jl_type J c \<noteq> JSON_ARRAY)
      | TURBO_STATE_GRAPH_REDUCER_MERGE_OBJECT \<Rightarrow> sc_value_kind channel \<in> {JSON_OBJECT, JSON_NULL}
      | TURBO_STATE_GRAPH_REDUCER_ADD \<Rightarrow> sc_value_kind channel \<in> {JSON_NUMBER, JSON_NULL}
      | _ \<Rightarrow> True)"

lemma append_value_valid:
  assumes "array_extended J channel (append_elements J v) (append_base J current) rv"
    and "json_laws J" and "suits_reducer J channel v" and "sc_reducer channel = TURBO_STATE_GRAPH_REDUCER_APPEND"
    and "\<And>c. current = Some c \<Longrightarrow> turbo_state_graph_validate_channel_value J channel (Some c) = TURBO_STATE_GRAPH_OK"
  shows "turbo_state_graph_validate_channel_value J channel (Some rv) = TURBO_STATE_GRAPH_OK"
proof (cases "sc_value_kind channel = JSON_NULL")
  case True
  then show ?thesis by (simp add: turbo_state_graph_validate_channel_value_def)
next
  case kind: False
  have new: "jl_type J c = sc_value_kind channel \<or> jl_type J c = JSON_NULL" if "Some c \<in> set (append_elements J v)" for c
  proof -
    have "turbo_state_graph_validate_channel_value J channel (Some c) = TURBO_STATE_GRAPH_OK"
      using assms(1) that by (simp add: array_extended_def)
    moreover have "jl_type J c \<noteq> JSON_ARRAY"
      using assms(3,4) that by (auto simp: suits_reducer_def append_elements_def split: if_splits)
    ultimately show ?thesis using kind by (simp add: turbo_state_graph_validate_channel_value_def split: if_splits)
  qed
  have old: "jl_type J c = sc_value_kind channel \<or> jl_type J c = JSON_NULL"
    if "Some c \<in> set (json_elements J (append_base J current))" for c
    using that assms(5) kind assms(4) unfolding append_base_elements(2) [OF assms(2)]
    by (auto simp: turbo_state_graph_validate_channel_value_def split: option.splits if_splits)
  show ?thesis
    using assms(1,4) new old by (auto simp: turbo_state_graph_validate_channel_value_def array_extended_def
        split: option.splits)
qed

text \<open>C29. The value a reducer stores in a channel is one the channel accepts, when the channel's current value (or its
  default) was: for REPLACE and LAST\_NON\_NULL always, for ADD on channels of numbers, for MERGE\_OBJECT on channels of
  objects, for APPEND when no appended element is itself an array. (The other combinations are left out; an array appended
  inside an array gives a value the channel refuses.)\<close>

theorem reduced_value_valid:
  assumes "json_laws J" and "json_depth_laws J"
    and "turbo_state_graph_reduce_channel J channel a current v = (TURBO_STATE_GRAPH_OK, Some rv, a')"
    and "\<And>c. current = Some c \<Longrightarrow> turbo_state_graph_validate_channel_value J channel (Some c) = TURBO_STATE_GRAPH_OK"
    and "turbo_state_graph_validate_channel_value J channel (Some (sc_default_value channel)) = TURBO_STATE_GRAPH_OK"
    and "suits_reducer J channel v"
  shows "turbo_state_graph_validate_channel_value J channel (Some rv) = TURBO_STATE_GRAPH_OK"
proof -
  have rv: "reducer_value J channel current v rv" using reduce_channel_result [OF assms(1,2,3)] by simp
  show ?thesis
  proof (cases "sc_reducer channel")
    case TURBO_STATE_GRAPH_REDUCER_APPEND
    then have "reduce_append J channel a current v = (TURBO_STATE_GRAPH_OK, Some rv, a')"
      using assms(3) by (simp add: turbo_state_graph_reduce_channel_def Let_def)
    from reduce_append_extends [OF assms(1) this] show ?thesis
      using append_value_valid [OF _ assms(1,6) TURBO_STATE_GRAPH_REDUCER_APPEND assms(4)] by simp
  next
    case TURBO_STATE_GRAPH_REDUCER_MERGE_OBJECT
    then have "jl_type J rv = JSON_OBJECT" using rv by (auto simp: reducer_value_def elim: deep_mergeE)
    then show ?thesis using assms(6) TURBO_STATE_GRAPH_REDUCER_MERGE_OBJECT
      by (auto simp: suits_reducer_def turbo_state_graph_validate_channel_value_def)
  next
    case TURBO_STATE_GRAPH_REDUCER_ADD
    then have "jl_type J rv = JSON_NUMBER" using rv assms(1)
      by (simp add: reducer_value_def json_laws_def json_type_laws_def)
    then show ?thesis using assms(6) TURBO_STATE_GRAPH_REDUCER_ADD
      by (auto simp: suits_reducer_def turbo_state_graph_validate_channel_value_def)
  next
    case TURBO_STATE_GRAPH_REDUCER_REPLACE
    then show ?thesis using assms(3) rv
      by (auto simp: turbo_state_graph_reduce_channel_def Let_def reducer_value_def split: if_splits)
  next
    case TURBO_STATE_GRAPH_REDUCER_LAST_NON_NULL
    then show ?thesis using assms(3-5) rv
      by (auto simp: turbo_state_graph_reduce_channel_def Let_def reducer_value_def split: if_splits option.splits)
  qed
qed

definition log_channel :: "jv turbo_state_graph_channel_entry" where
  "log_channel = \<lparr>sc_name = ''log'', sc_description = None, sc_reducer = TURBO_STATE_GRAPH_REDUCER_APPEND,
     sc_value_kind = JSON_STRING, sc_default_value = JArr []\<rparr>"

lemma reduced_value_valid_witness:
  "turbo_state_graph_validate_channel_value ref_json log_channel (Some (JArr [JStr ''a'', JStr ''b''])) = TURBO_STATE_GRAPH_OK"
proof (rule reduced_value_valid [OF ref_json_laws ref_depth_laws])
  show "turbo_state_graph_reduce_channel ref_json log_channel [] (Some (JArr [JStr ''a''])) (JStr ''b'') =
      (TURBO_STATE_GRAPH_OK, Some (JArr [JStr ''a'', JStr ''b'']), [])" by code_simp
  show "turbo_state_graph_validate_channel_value ref_json log_channel (Some c) = TURBO_STATE_GRAPH_OK"
    if "Some (JArr [JStr ''a'']) = Some c" for c
  proof -
    have "turbo_state_graph_validate_channel_value ref_json log_channel (Some (JArr [JStr ''a''])) = TURBO_STATE_GRAPH_OK"
      by code_simp
    with that show ?thesis by simp
  qed
  show "turbo_state_graph_validate_channel_value ref_json log_channel (Some (sc_default_value log_channel)) = TURBO_STATE_GRAPH_OK"
    by code_simp
  show "suits_reducer ref_json log_channel (JStr ''b'')" by (simp add: suits_reducer_def log_channel_def ref_json_def)
qed

text \<open>Without that condition APPEND does not keep the type: an update with an array of strings as its one element is
  accepted by a channel of strings, which then holds a value it does not accept.\<close>

lemma append_accepts_nested_array:
  "turbo_state_graph_reduce_channel ref_json log_channel [] (Some (JArr [])) (JArr [JArr [JStr ''a'']]) =
     (TURBO_STATE_GRAPH_OK, Some (JArr [JArr [JStr ''a'']]), [])"
  "turbo_state_graph_validate_channel_value ref_json log_channel (Some (JArr [JArr [JStr ''a'']])) =
     TURBO_STATE_GRAPH_TYPE_MISMATCH"
  by code_simp+

end
