(* ===== verification/State_Graph_Exec.thy ===== *)
theory State_Graph_Exec
  imports State_Graph_Run State_Graph_Updates
begin

section \<open>State graphs: what every call keeps\<close>

text \<open>
  Executing a run touches the graph only through three kinds of change: a new state for the run, a new position of the
  run (its node, step count and flags), and a new history entry. The locale \<open>run_keeper\<close> is that interface: whatever
  the three keep, every execution keeps, whatever the callbacks, the options and the allocator do; what a failed
  attempt to record an entry leaves (\<open>Q\<close>) is also what the execution leaves, since it ends there. It is interpreted
  on three predicates, the frame of a run, the consistency of all records and the numbering of ids, from which the
  properties follow.
\<close>

subsection \<open>The primitive changes\<close>

definition set_position :: "nat \<Rightarrow> cstr \<Rightarrow> size_t \<Rightarrow> bool \<Rightarrow> bool \<Rightarrow> ('j, 'u) turbo_state_graph \<Rightarrow> ('j, 'u) turbo_state_graph" where
  "set_position ri current steps interrupted completed =
     upd_run ri (\<lambda>r. r\<lparr>re_current_node := current, re_steps := steps, re_interrupted := interrupted,
                       re_completed := completed\<rparr>)"

text \<open>The changes of position in the code, as that one.\<close>

lemma upd_run_cong: "f (sg_runs g ! ri) = f' (sg_runs g ! ri) \<Longrightarrow> upd_run ri f g = upd_run ri f' g"
  by (simp add: upd_run_def)

lemma upd_run_twice: "upd_run ri f (upd_run ri f' g) = upd_run ri (\<lambda>r. f (f' r)) g"
  by (cases "ri < length (sg_runs g)") (simp_all add: upd_run_def list_update_beyond)

lemma upd_run_nth:
  "sg_runs (upd_run ri f g) ! j = (if j = ri \<and> ri < length (sg_runs g) then f (sg_runs g ! ri) else sg_runs g ! j)"
  by (auto simp: upd_run_def list_update_beyond not_less)

lemma position_commit:
  "upd_run ri (\<lambda>r. r\<lparr>re_steps := n, re_current_node := c, re_interrupted := i, re_completed := d\<rparr>) g = set_position ri c n i d g"
  unfolding set_position_def by (rule upd_run_cong) simp

lemma position_flags:
  "upd_run ri (\<lambda>r. r\<lparr>re_current_node := c, re_interrupted := i, re_completed := d\<rparr>) g =
     set_position ri c (re_steps (sg_runs g ! ri)) i d g"
  unfolding set_position_def by (rule upd_run_cong) simp

lemma position_stop:
  "upd_run ri (\<lambda>r. r\<lparr>re_current_node := c, re_completed := d, re_interrupted := i\<rparr>) g =
     set_position ri c (re_steps (sg_runs g ! ri)) i d g"
  unfolding set_position_def by (rule upd_run_cong) simp

lemma position_completed:
  "upd_run ri (\<lambda>r. r\<lparr>re_completed := d, re_interrupted := i\<rparr>) g =
     set_position ri (re_current_node (sg_runs g ! ri)) (re_steps (sg_runs g ! ri)) i d g"
  unfolding set_position_def by (rule upd_run_cong) simp

lemma position_node:
  "upd_run ri (\<lambda>r. r\<lparr>re_current_node := c\<rparr>) g =
     set_position ri c (re_steps (sg_runs g ! ri)) (re_interrupted (sg_runs g ! ri)) (re_completed (sg_runs g ! ri)) g"
  unfolding set_position_def by (rule upd_run_cong) simp

lemma position_seeded:
  "upd_run ri (\<lambda>r. r\<lparr>re_steps := n, re_completed := d, re_interrupted := i\<rparr>) (upd_run ri (\<lambda>r. r\<lparr>re_current_node := c\<rparr>) g) =
     set_position ri c n i d g"
  unfolding set_position_def upd_run_twice by (rule upd_run_cong) simp

locale run_keeper =
  fixes J :: "('j, 'd) json_lib"
    and ri :: nat
    and P :: "('j, 'u) turbo_state_graph \<Rightarrow> bool"
    and Q :: "('j, 'u) turbo_state_graph \<Rightarrow> bool"
  assumes keep_state: "P g \<Longrightarrow> P (upd_run ri (\<lambda>r. r\<lparr>re_state := st\<rparr>) g)"
    and keep_position: "P g \<Longrightarrow> (completed \<longrightarrow> current = None) \<Longrightarrow> (interrupted \<longrightarrow> current \<noteq> None \<and> \<not> completed) \<Longrightarrow>
      P (set_position ri current steps interrupted completed g)"
    and keep_history: "P g \<Longrightarrow>
      turbo_state_graph_add_history_record J a g ri kind name reason last_node next_node step u st = (s, h, g', a') \<Longrightarrow>
      if s = TURBO_STATE_GRAPH_OK then P g' else Q g'"
    and keep_less: "P g \<Longrightarrow> Q g"
begin

text \<open>The graph in which a send, or a pass of the loop, ends.\<close>

definition sent :: "turbo_state_graph_status_t \<times> nat option \<times> ('j, 'u) turbo_state_graph \<times> 'u world \<Rightarrow> bool" where
  "sent r \<longleftrightarrow> (case r of (s, _, g, _) \<Rightarrow> if s = TURBO_STATE_GRAPH_OK then P g else Q g)"

definition ends_in :: "('j, 'u) exec_step \<Rightarrow> bool" where
  "ends_in r \<longleftrightarrow> (case r of Inl c \<Rightarrow> Q (sk_graph c) | Inr s \<Rightarrow> P (xs_graph s))"

lemma keeper_simps [simp]:
  "sent (s, h, g, w) = (if s = TURBO_STATE_GRAPH_OK then P g else Q g)" "ends_in (Inl c) = Q (sk_graph c)" "ends_in (Inr x) = P (xs_graph x)"
  by (simp_all add: ends_in_def sent_def)

lemma apply_to_run_keeps: "apply_to_run J ri u g w = (s, g', w') \<Longrightarrow> P g \<Longrightarrow> P g'"
  by (auto simp: apply_to_run_def intro: keep_state split: prod.splits)

lemma record_history_sent:
  "record_history J ri kind name reason last_node next_node step u g w = (s, h, g', w') \<Longrightarrow> P g \<Longrightarrow>
     (if s = TURBO_STATE_GRAPH_OK then P g' else Q g')"
  by (auto simp: record_history_def dest: keep_history split: prod.splits)

lemma record_history_keeps:
  "record_history J ri kind name reason last_node next_node step u g w = (s, h, g', w') \<Longrightarrow> P g \<Longrightarrow> Q g'"
  using record_history_sent keep_less by metis

lemma sentI: "(\<And>s h g' w'. r = (s, h, g', w') \<Longrightarrow> if s = TURBO_STATE_GRAPH_OK then P g' else Q g') \<Longrightarrow> sent r"
  by (cases r) auto

lemma sent_cases: "r = (s, h, g', w') \<Longrightarrow> sent r \<Longrightarrow> if s = TURBO_STATE_GRAPH_OK then P g' else Q g'"
  by simp

lemma sentD: "r = (s, h, g', w') \<Longrightarrow> sent r \<Longrightarrow> Q g'"
  using keep_less by (auto split: if_splits)

lemma send_target_keeps: "P g \<Longrightarrow> sent (send_target_node J ri ti step latest g w)"
  by (auto simp: send_target_node_def Let_def keep_less dest!: apply_to_run_keeps record_history_sent split: prod.split)

lemma send_keeps: "P g \<Longrightarrow> sent (turbo_state_graph_execute_send_node J ri send step latest g w)"
  by (auto simp: turbo_state_graph_execute_send_node_def keep_less intro!: send_target_keeps
      dest!: apply_to_run_keeps record_history_sent split: prod.split option.split)

lemma sends_keep: "P g \<Longrightarrow> sent (execute_sends J ri sends step latest g w)"
proof (induction sends arbitrary: latest g w)
  case (Cons send sends)
  obtain s h g' w' where r: "turbo_state_graph_execute_send_node J ri send step latest g w = (s, h, g', w')"
    by (metis prod_cases4)
  with send_keeps [OF Cons.prems, of send step latest w] Cons.IH [of g' h w'] show ?case by simp
qed simp

lemma finish_graph [simp]: "sk_graph (finish_with_state ri result g w) = g" "sk_graph (sg_fail s g w) = g"
  by (simp_all add: finish_with_state_def sg_fail_def split: prod.split)

lemma commit_keeps: "P g \<Longrightarrow> ends_in (execute_commit J ri node nxt stop u steps g w)"
  unfolding execute_commit_def Let_def position_commit position_stop
  by (cases nxt; cases "alloc1 (ch_alloc w)")
    (auto simp: turbo_state_graph_strdup_def keep_less intro!: keep_less [OF keep_position] keep_position dest!: record_history_sent split: prod.split)

lemma after_node_keeps: "P g \<Longrightarrow> ends_in (execute_after_node J ri ci node ctx steps latest g w)"
  by (auto simp: execute_after_node_def keep_less intro!: commit_keeps
      dest!: apply_to_run_keeps sent_cases [OF _ sends_keep] split: prod.split option.split)

lemma step_keeps: "P (xs_graph x) \<Longrightarrow> ends_in (execute_run_step J ri options x)"
  by (auto simp: execute_run_step_def execute_node_def Let_def position_flags keep_less
      intro!: after_node_keeps keep_less [OF keep_position] keep_position split: prod.split option.split)

lemma execute_run_keeps:
  assumes "P g" and "turbo_state_graph_execute_run J ri options g w = Some c"
  shows "Q (sk_graph c)"
proof (cases "case options of None \<Rightarrow> re_current_node (sg_runs g ! ri)
    | Some o' \<Rightarrow> (case so_start_node o' of Some n \<Rightarrow> Some n | None \<Rightarrow> re_current_node (sg_runs g ! ri))")
  case None
  then have "re_current_node (sg_runs g ! ri) = None" by (auto split: option.splits)
  with None assms show ?thesis
    by (auto simp: turbo_state_graph_execute_run_def Let_def position_completed intro!: keep_less [OF keep_position])
next
  case (Some n)
  then obtain x where x: "run_loop (execute_run_step J ri options) x = Some c" "xs_graph x = g"
    using assms(2) by (simp add: turbo_state_graph_execute_run_def Let_def)
  show ?thesis
  proof (rule run_loop_inv [OF x(1), of "\<lambda>x. P (xs_graph x)"])
    show "P (xs_graph x)" using x(2) assms(1) by simp
  next
    fix s s' assume "P (xs_graph s)" "execute_run_step J ri options s = Inr s'"
    then show "P (xs_graph s')" using step_keeps [of s options] by simp
  next
    fix s c assume "P (xs_graph s)" "execute_run_step J ri options s = Inl c"
    then show "Q (sk_graph c)" using step_keeps [of s options] by simp
  qed
qed

text \<open>A run that is being seeded is new: it is not interrupted, and completed only when it has no node to go to.\<close>

lemma seed_run_keeps:
  assumes "P g" and "\<not> re_interrupted (sg_runs g ! ri)" and "re_completed (sg_runs g ! ri) \<longrightarrow> nxt = None"
  shows "sent (turbo_state_graph_seed_run J ri kind name reason u nxt step g w)"
proof -
  have flags: "re_interrupted (sg_runs g' ! ri) = re_interrupted (sg_runs g ! ri) \<and>
      re_completed (sg_runs g' ! ri) = re_completed (sg_runs g ! ri)" if "apply_to_run J ri v g w = (s, g', w')" for v w s g' w'
    using that by (auto simp: apply_to_run_def upd_run_nth split: prod.splits if_splits)
  have last: "sent (case turbo_state_graph_strdup (ch_alloc w) nxt of (copy, a) \<Rightarrow>
      let w = w\<lparr>ch_alloc := a\<rparr>; graph = upd_run ri (\<lambda>r. r\<lparr>re_current_node := copy\<rparr>) g'
      in if nxt \<noteq> None \<and> copy = None then (TURBO_STATE_GRAPH_OUT_OF_MEMORY, None, graph, w)
         else record_history J ri kind name reason None nxt step v
           (upd_run ri (\<lambda>r. r\<lparr>re_steps := step, re_completed := (nxt = None), re_interrupted := False\<rparr>) graph) w)"
    if "P g'" "\<not> re_interrupted (sg_runs g' ! ri)" "re_completed (sg_runs g' ! ri) \<longrightarrow> nxt = None" for g' w v
  proof (cases "turbo_state_graph_strdup (ch_alloc w) nxt")
    case (Pair copy a)
    have copy: "nxt = None \<longrightarrow> copy = None" using Pair by (auto simp: turbo_state_graph_strdup_def)
    have "P (set_position ri copy step False (nxt = None) g')" using that copy by (intro keep_position) auto
    moreover have "P (upd_run ri (\<lambda>r. r\<lparr>re_current_node := copy\<rparr>) g')"
      unfolding position_node using that copy by (intro keep_position) auto
    ultimately show ?thesis unfolding Pair Let_def position_seeded
      by (auto intro!: sentI dest!: record_history_sent simp: keep_less)
  qed
  obtain ok w1 where w1: "ch_draw w = (ok, w1)" by fastforce
  obtain s g' w2 where app: "apply_to_run J ri (case u of Some u \<Rightarrow> u | None \<Rightarrow> jl_object J) g w1 = (s, g', w2)"
    by (metis prod_cases3)
  show ?thesis
    using last [of g' w2] flags [OF app] apply_to_run_keeps [OF app assms(1)] assms
    by (simp add: turbo_state_graph_seed_run_def w1 app Let_def keep_less)
qed

end

subsection \<open>The frame of a run\<close>

text \<open>The history entry a call records.\<close>

definition new_entry ::
    "('j, 'd) json_lib \<Rightarrow> ('j, 'u) turbo_state_graph \<Rightarrow> nat \<Rightarrow> turbo_state_graph_source_kind_t \<Rightarrow> cstr \<Rightarrow> cstr \<Rightarrow> cstr \<Rightarrow> cstr \<Rightarrow>
     size_t \<Rightarrow> 'j option \<Rightarrow> 'j \<Rightarrow> 'j turbo_state_graph_history_entry" where
  "new_entry J g ri kind name reason last_node next_node step u st =
     \<lparr>he_id = make_id ''history'' (sg_next_history_id g + 1),
      he_checkpoint_id = make_id ''checkpoint'' (sg_next_checkpoint_id g + 1),
      he_thread_id = re_thread_id (sg_runs g ! ri), he_run_id = re_id (sg_runs g ! ri), he_source_name = name,
      he_reason = reason, he_last_node = last_node, he_next_node = next_node, he_source_kind = kind, he_step = step,
      he_update = (case u of Some u \<Rightarrow> u | None \<Rightarrow> jl_object J), he_state = st\<rparr>"

text \<open>The records other than runs after an attempt to record an entry: a larger array, counters that may have moved.\<close>

definition history_grown :: "('j, 'u) turbo_state_graph \<Rightarrow> nat \<Rightarrow> bool \<Rightarrow> 'j turbo_state_graph_history_entry list \<Rightarrow>
    ('j, 'u) turbo_state_graph" where
  "history_grown g c bump new =
     g\<lparr>sg_history_capacity := c, sg_next_history_id := sg_next_history_id g + (if bump then 1 else 0),
       sg_next_checkpoint_id := sg_next_checkpoint_id g + (if bump then 1 else 0), sg_history := sg_history g @ new\<rparr>"

lemma add_history_cases:
  assumes "turbo_state_graph_add_history_record J a g ri kind name reason last_node next_node step u st = (s, h, g', a')"
  obtains (failed) c bump where "s = TURBO_STATE_GRAPH_OUT_OF_MEMORY" "h = None" "g' = history_grown g c bump []"
      "sg_history_capacity g \<le> c"
    | (cut) c where "s = TURBO_STATE_GRAPH_OUT_OF_MEMORY" "h = None" "sg_history_capacity g \<le> c"
      "g' = upd_run ri (\<lambda>r. r\<lparr>re_latest_history_entry_id := None\<rparr>) (history_grown g c True [])"
    | (recorded) c where "s = TURBO_STATE_GRAPH_OK" "h = Some (length (sg_history g))" "length (sg_history g) < c"
      "g' = upd_run ri (\<lambda>r. r\<lparr>re_latest_history_entry_id := Some (make_id ''history'' (sg_next_history_id g + 1))\<rparr>)
         (history_grown g c True [new_entry J g ri kind name reason last_node next_node step u st])"
proof -
  obtain ok c a1 where r: "turbo_state_graph_reserve a (sg_history_capacity g) (Suc (length (sg_history g))) = (ok, c, a1)"
    by (metis prod_cases3)
  note grow = sg_reserve_grows [OF r]
  have room: "ok \<Longrightarrow> length (sg_history g) < c" using sg_reserve_room r by fastforce
  obtain ok2 a2 where a2: "alloc_all 2 a1 = (ok2, a2)" by fastforce
  obtain ok3 a3 where a3: "strdups a2 [Some [], Some [], Some [], Some [], name, reason, last_node, next_node] = (ok3, a3)"
    by fastforce
  obtain ok4 a4 where a4: "alloc1 a3 = (ok4, a4)" by fastforce
  note eval = turbo_state_graph_add_history_record_def r a2 a3 a4 Let_def
  show thesis
  proof (cases "ok \<and> ok2")
    case False
    then have "s = TURBO_STATE_GRAPH_OUT_OF_MEMORY" "h = None" "g' = history_grown g c False []"
      using assms by (auto simp: eval history_grown_def split: if_splits)
    then show thesis by (rule failed) (rule grow)
  next
    case oks: True
    show thesis
    proof (cases ok3)
      case False
      then have "s = TURBO_STATE_GRAPH_OUT_OF_MEMORY" "h = None" "g' = history_grown g c True []"
        using assms oks by (auto simp: eval history_grown_def)
      then show thesis by (rule failed) (rule grow)
    next
      case ok3: True
      show thesis
      proof (cases ok4)
        case False
        then show thesis using assms oks ok3 grow by (intro cut [of c]) (auto simp: eval history_grown_def)
      next
        case True
        then show thesis using assms oks ok3 room
          by (intro recorded [of c]) (auto simp: eval history_grown_def new_entry_def)
      qed
    qed
  qed
qed

text \<open>What no call of the run interface changes: the structure, and the capacities of its arrays.\<close>

definition state_graph_fixed where
  "state_graph_fixed g = (state_graph_structure g, sg_channel_capacity g, sg_node_capacity g, sg_edge_capacity g)"

lemma state_graph_fixed_shape:
  "state_graph_fixed g' = state_graph_fixed g \<Longrightarrow>
     state_graph_structure g' = state_graph_structure g \<and> state_graph_shape J g' = state_graph_shape J g"
  by (simp add: state_graph_fixed_def state_graph_structure_def state_graph_shape_def split: option.split)

text \<open>What identifies a run, and what no execution of a run may touch.\<close>

definition run_identity :: "'j turbo_state_graph_run_entry \<Rightarrow> string \<times> string \<times> cstr \<times> cstr" where
  "run_identity r = (re_id r, re_thread_id r, re_parent_run_id r, re_forked_from_history_id r)"

definition run_frame :: "nat \<Rightarrow> ('j, 'u) turbo_state_graph \<Rightarrow> ('j, 'u) turbo_state_graph \<Rightarrow> bool" where
  "run_frame ri g g' \<longleftrightarrow>
     state_graph_fixed g' = state_graph_fixed g \<and> sg_threads g' = sg_threads g \<and>
     sg_next_thread_id g' = sg_next_thread_id g \<and> sg_next_run_id g' = sg_next_run_id g \<and>
     length (sg_runs g') = length (sg_runs g) \<and> (\<forall>j. j \<noteq> ri \<longrightarrow> sg_runs g' ! j = sg_runs g ! j) \<and>
     run_identity (sg_runs g' ! ri) = run_identity (sg_runs g ! ri) \<and>
     (\<exists>new. sg_history g' = sg_history g @ new \<and>
        (\<forall>h \<in> set new. he_run_id h = re_id (sg_runs g ! ri) \<and> he_thread_id h = re_thread_id (sg_runs g ! ri)))"

lemma upd_run_fields [simp]:
  "state_graph_fixed (upd_run ri f g) = state_graph_fixed g" "sg_threads (upd_run ri f g) = sg_threads g"
  "sg_next_thread_id (upd_run ri f g) = sg_next_thread_id g" "sg_next_run_id (upd_run ri f g) = sg_next_run_id g"
  "sg_next_history_id (upd_run ri f g) = sg_next_history_id g"
  "sg_next_checkpoint_id (upd_run ri f g) = sg_next_checkpoint_id g"
  "length (sg_runs (upd_run ri f g)) = length (sg_runs g)" "sg_history (upd_run ri f g) = sg_history g"
  "sg_run_capacity (upd_run ri f g) = sg_run_capacity g" "sg_thread_capacity (upd_run ri f g) = sg_thread_capacity g"
  "sg_history_capacity (upd_run ri f g) = sg_history_capacity g" "state_graph_shape J (upd_run ri f g) = state_graph_shape J g"
  by (simp_all add: upd_run_def state_graph_fixed_def state_graph_structure_def state_graph_shape_def split: option.split)

lemma history_grown_fields [simp]:
  "state_graph_fixed (history_grown g c b new) = state_graph_fixed g"
  "sg_threads (history_grown g c b new) = sg_threads g" "sg_runs (history_grown g c b new) = sg_runs g"
  "sg_next_thread_id (history_grown g c b new) = sg_next_thread_id g"
  "sg_next_run_id (history_grown g c b new) = sg_next_run_id g"
  "sg_history (history_grown g c b new) = sg_history g @ new" "sg_history_capacity (history_grown g c b new) = c"
  "sg_next_history_id (history_grown g c b new) = sg_next_history_id g + (if b then 1 else 0)"
  "sg_next_checkpoint_id (history_grown g c b new) = sg_next_checkpoint_id g + (if b then 1 else 0)"
  "sg_run_capacity (history_grown g c b new) = sg_run_capacity g"
  "sg_thread_capacity (history_grown g c b new) = sg_thread_capacity g"
  "state_graph_shape J (history_grown g c b new) = state_graph_shape J g"
  by (simp_all add: history_grown_def state_graph_fixed_def state_graph_structure_def state_graph_shape_def split: option.split)

lemma run_frame_refl [simp]: "run_frame ri g g"
  by (simp add: run_frame_def)

lemma run_frame_upd:
  "run_frame ri g0 g \<Longrightarrow> (\<And>r. run_identity (f r) = run_identity r) \<Longrightarrow> run_frame ri g0 (upd_run ri f g)"
  by (auto simp: run_frame_def upd_run_nth)

lemma run_frame_grown:
  assumes "run_frame ri g0 g"
    and "\<And>h. h \<in> set new \<Longrightarrow> he_run_id h = re_id (sg_runs g ! ri) \<and> he_thread_id h = re_thread_id (sg_runs g ! ri)"
  shows "run_frame ri g0 (history_grown g c b new)"
proof -
  obtain old where old: "sg_history g = sg_history g0 @ old"
    "\<forall>h \<in> set old. he_run_id h = re_id (sg_runs g0 ! ri) \<and> he_thread_id h = re_thread_id (sg_runs g0 ! ri)"
    using assms(1) by (auto simp: run_frame_def)
  have id: "re_id (sg_runs g ! ri) = re_id (sg_runs g0 ! ri)" "re_thread_id (sg_runs g ! ri) = re_thread_id (sg_runs g0 ! ri)"
    using assms(1) by (simp_all add: run_frame_def run_identity_def)
  have "\<exists>new'. sg_history g @ new = sg_history g0 @ new' \<and>
      (\<forall>h \<in> set new'. he_run_id h = re_id (sg_runs g0 ! ri) \<and> he_thread_id h = re_thread_id (sg_runs g0 ! ri))"
    using old id assms(2) by (intro exI [of _ "old @ new"]) auto
  then show ?thesis using assms(1) by (simp add: run_frame_def)
qed

interpretation frame: run_keeper J ri "run_frame ri g0" "run_frame ri g0" for J :: "('j, 'd) json_lib" and ri
    and g0 :: "('j, 'u) turbo_state_graph"
proof unfold_locales
  fix g st
  show "run_frame ri g0 g \<Longrightarrow> run_frame ri g0 (upd_run ri (re_state_update (\<lambda>_. st)) g)"
    by (rule run_frame_upd) (simp_all add: run_identity_def)
next
  fix g current steps interrupted completed
  show "run_frame ri g0 g \<Longrightarrow> run_frame ri g0 (set_position ri current steps interrupted completed g)"
    unfolding set_position_def by (rule run_frame_upd) (simp_all add: run_identity_def)
next
  fix g a kind name reason last_node next_node step u st s h g' a'
  assume g: "run_frame ri g0 g"
    and "turbo_state_graph_add_history_record J a g ri kind name reason last_node next_node step u st = (s, h, g', a')"
  from this(2) show "if s = TURBO_STATE_GRAPH_OK then run_frame ri g0 g' else run_frame ri g0 g'"
    by (cases rule: add_history_cases)
      (auto simp: run_identity_def new_entry_def intro!: run_frame_upd run_frame_grown g)
qed

subsection \<open>The records are consistent\<close>

definition run_keys :: "('j, 'u) turbo_state_graph \<Rightarrow> (string \<times> string) list" where
  "run_keys g = map (\<lambda>r. (re_id r, re_thread_id r)) (sg_runs g)"

definition run_flags :: "'j turbo_state_graph_run_entry \<Rightarrow> bool" where
  "run_flags r \<longleftrightarrow> (re_completed r \<longrightarrow> re_current_node r = None) \<and>
     (re_interrupted r \<longrightarrow> re_current_node r \<noteq> None \<and> \<not> re_completed r)"

definition latest_known :: "('j, 'u) turbo_state_graph \<Rightarrow> 'j turbo_state_graph_run_entry \<Rightarrow> bool" where
  "latest_known g r \<longleftrightarrow> (\<forall>i. re_latest_history_entry_id r = Some i \<longrightarrow>
     (\<exists>h \<in> set (sg_history g). he_id h = i \<and> he_run_id h = re_id r))"

definition records_inv :: "('j, 'u) turbo_state_graph \<Rightarrow> bool" where
  "records_inv g \<longleftrightarrow>
     (\<forall>r \<in> set (sg_runs g). re_thread_id r \<in> th_id ` set (sg_threads g)) \<and>
     (\<forall>h \<in> set (sg_history g). (he_run_id h, he_thread_id h) \<in> set (run_keys g)) \<and>
     (\<forall>t \<in> set (sg_threads g). \<forall>i. th_current_run_id t = Some i \<longrightarrow> (i, th_id t) \<in> set (run_keys g)) \<and>
     (\<forall>r \<in> set (sg_runs g). run_flags r \<and> latest_known g r) \<and>
     length (sg_threads g) \<le> sg_thread_capacity g \<and> length (sg_runs g) \<le> sg_run_capacity g \<and>
     length (sg_history g) \<le> sg_history_capacity g"

lemma map_upd_run: "(\<And>r. k (f r) = k r) \<Longrightarrow> map k (sg_runs (upd_run ri f g)) = map k (sg_runs g)"
  by (rule nth_equalityI) (auto simp: upd_run_nth)

lemma set_upd_run: "r \<in> set (sg_runs (upd_run ri f g)) \<Longrightarrow> ri < length (sg_runs g) \<Longrightarrow> r \<in> set (sg_runs g) \<or> r = f (sg_runs g ! ri)"
  by (auto simp: upd_run_def dest!: set_update_subset_insert [THEN subsetD])

text \<open>Updating one run keeps the records consistent when it keeps the run's ids and the new record is in order.\<close>

lemma records_upd_run:
  assumes "records_inv g" and "ri < length (sg_runs g)" and id: "\<And>r. run_identity (f r) = run_identity r"
    and "run_flags (f (sg_runs g ! ri))" and "latest_known g (f (sg_runs g ! ri))"
  shows "records_inv (upd_run ri f g)"
proof -
  have keys: "run_keys (upd_run ri f g) = run_keys g" "map re_id (sg_runs (upd_run ri f g)) = map re_id (sg_runs g)"
    "map re_thread_id (sg_runs (upd_run ri f g)) = map re_thread_id (sg_runs g)"
    unfolding run_keys_def using id by (auto simp: run_identity_def intro!: map_upd_run)
  have "latest_known (upd_run ri f g) r = latest_known g r" for r by (simp add: latest_known_def)
  then have runs: "run_flags r \<and> latest_known (upd_run ri f g) r" if "r \<in> set (sg_runs (upd_run ri f g))" for r
    using set_upd_run [OF that assms(2)] assms(1,4,5) by (auto simp: records_inv_def)
  have "re_thread_id ` set (sg_runs (upd_run ri f g)) = re_thread_id ` set (sg_runs g)"
    using keys(3) by (metis list.set_map)
  then have "\<forall>r \<in> set (sg_runs (upd_run ri f g)). re_thread_id r \<in> th_id ` set (sg_threads g)"
    using assms(1) unfolding records_inv_def by (metis imageE imageI)
  then show ?thesis using assms(1) runs unfolding records_inv_def by (simp add: keys)
qed

lemma records_grown:
  assumes "records_inv g" and "sg_history_capacity g \<le> c"
  shows "records_inv (history_grown g c b [])"
proof -
  have "run_keys (history_grown g c b []) = run_keys g" "\<And>r. latest_known (history_grown g c b []) r = latest_known g r"
    by (simp_all add: run_keys_def latest_known_def)
  then show ?thesis using assms by (simp add: records_inv_def)
qed

lemma records_entry:
  assumes "records_inv g" and "ri < length (sg_runs g)" and "length (sg_history g) < c"
    and h: "h = new_entry J g ri kind name reason last_node next_node step u st"
  shows "records_inv (history_grown g c True [h])"
proof -
  have keys: "run_keys (history_grown g c True [h]) = run_keys g" by (simp add: run_keys_def)
  have "(he_run_id h, he_thread_id h) \<in> set (run_keys g)"
    using assms(2) by (auto simp: h new_entry_def run_keys_def)
  moreover have "latest_known g r \<Longrightarrow> latest_known (history_grown g c True [h]) r" for r
    by (auto simp: latest_known_def split: option.splits)
  ultimately show ?thesis using assms(1,3) by (auto simp: records_inv_def keys)
qed

text \<open>The three changes, each alone.\<close>

lemma records_run_in_order:
  "records_inv g \<Longrightarrow> ri < length (sg_runs g) \<Longrightarrow> run_flags (sg_runs g ! ri) \<and> latest_known g (sg_runs g ! ri)"
  by (simp add: records_inv_def)

lemma records_state:
  assumes "records_inv g" and "ri < length (sg_runs g)"
  shows "records_inv (upd_run ri (\<lambda>r. r\<lparr>re_state := st\<rparr>) g)"
  using assms records_run_in_order [OF assms]
  by (intro records_upd_run) (simp_all add: run_identity_def run_flags_def latest_known_def)

lemma records_position:
  assumes "records_inv g" and "ri < length (sg_runs g)" and "completed \<longrightarrow> current = None"
    and "interrupted \<longrightarrow> current \<noteq> None \<and> \<not> completed"
  shows "records_inv (set_position ri current steps interrupted completed g)"
  unfolding set_position_def using assms records_run_in_order [OF assms(1,2)]
  by (intro records_upd_run) (simp_all add: run_identity_def run_flags_def latest_known_def)

lemma records_latest:
  assumes "records_inv g" and "ri < length (sg_runs g)"
    and "\<And>i. latest = Some i \<Longrightarrow> \<exists>h \<in> set (sg_history g). he_id h = i \<and> he_run_id h = re_id (sg_runs g ! ri)"
  shows "records_inv (upd_run ri (\<lambda>r. r\<lparr>re_latest_history_entry_id := latest\<rparr>) g)"
proof (rule records_upd_run [OF assms(1,2)])
  show "run_flags ((sg_runs g ! ri)\<lparr>re_latest_history_entry_id := latest\<rparr>)"
    using records_run_in_order [OF assms(1,2)] by (simp add: run_flags_def)
  show "latest_known g ((sg_runs g ! ri)\<lparr>re_latest_history_entry_id := latest\<rparr>)"
    using assms(3) by (simp add: latest_known_def)
qed (simp add: run_identity_def)

lemma records_history:
  assumes "records_inv g" and "ri < length (sg_runs g)"
    and "turbo_state_graph_add_history_record J a g ri kind name reason last_node next_node step u st = (s, h, g', a')"
  shows "records_inv g' \<and> ri < length (sg_runs g')"
  using assms(3)
proof (cases rule: add_history_cases)
  case (failed c bump)
  then show ?thesis using assms(1,2) records_grown [of g c bump] by simp
next
  case (cut c)
  then show ?thesis using assms(1,2) records_latest [OF records_grown [OF assms(1) cut(3), of True], of ri None] by simp
next
  case (recorded c)
  let ?h = "new_entry J g ri kind name reason last_node next_node step u st"
  have "records_inv (history_grown g c True [?h])" by (rule records_entry [OF assms(1,2) recorded(3) refl])
  then show ?thesis
    unfolding recorded(4) using assms(2) by (auto intro!: records_latest simp: new_entry_def)
qed

interpretation records: run_keeper J ri "\<lambda>g. records_inv g \<and> ri < length (sg_runs g)"
    "\<lambda>g. records_inv g \<and> ri < length (sg_runs g)" for J :: "('j, 'd) json_lib" and ri
proof unfold_locales
  fix g :: "('j, 'u) turbo_state_graph" and st
  show "records_inv g \<and> ri < length (sg_runs g) \<Longrightarrow>
      records_inv (upd_run ri (re_state_update (\<lambda>_. st)) g) \<and> ri < length (sg_runs (upd_run ri (re_state_update (\<lambda>_. st)) g))"
    using records_state [of g ri st] by simp
next
  fix g :: "('j, 'u) turbo_state_graph" and completed current interrupted steps
  show "records_inv g \<and> ri < length (sg_runs g) \<Longrightarrow> completed \<longrightarrow> current = None \<Longrightarrow>
      interrupted \<longrightarrow> current \<noteq> None \<and> \<not> completed \<Longrightarrow>
      records_inv (set_position ri current steps interrupted completed g) \<and>
      ri < length (sg_runs (set_position ri current steps interrupted completed g))"
    using records_position [of g ri completed current interrupted steps] by (simp add: set_position_def)
next
  fix g :: "('j, 'u) turbo_state_graph" and a kind name reason last_node next_node step u st s h g' a'
  assume "records_inv g \<and> ri < length (sg_runs g)"
    and "turbo_state_graph_add_history_record J a g ri kind name reason last_node next_node step u st = (s, h, g', a')"
  then show "if s = TURBO_STATE_GRAPH_OK then records_inv g' \<and> ri < length (sg_runs g') else records_inv g' \<and> ri < length (sg_runs g')"
    by (metis records_history)
qed

subsection \<open>The numbering of ids\<close>

text \<open>Ids are numbered in the order they are issued: the counter stands at \<open>N\<close> (modulo 2 to the 64), the ids carry
  increasing numbers up to \<open>N\<close>, and at most \<open>gaps\<close> of the numbers up to \<open>N\<close> are missing. A number is lost when a record
  fails after its number was taken; with fewer than 2 to the 64 records and gaps together, \<open>N\<close> is the counter.\<close>

definition issued :: "string \<Rightarrow> size_t \<Rightarrow> string list \<Rightarrow> nat \<Rightarrow> bool" where
  "issued prefix counter ids gaps \<longleftrightarrow> (\<exists>N ks. counter = of_nat N \<and> N \<le> length ids + gaps \<and>
     ids = map (\<lambda>k. make_id prefix (of_nat k)) ks \<and> sorted_wrt (<) ks \<and> set ks \<subseteq> {1..N})"

lemma issued_less:
  assumes "issued prefix counter ids gaps" and "gaps \<le> gaps'"
  shows "issued prefix counter ids gaps'"
proof -
  obtain N ks where ks: "counter = of_nat N" "N \<le> length ids + gaps"
    "ids = map (\<lambda>k. make_id prefix (of_nat k)) ks" "sorted_wrt (<) ks" "set ks \<subseteq> {1..N}" using assms(1) by (auto simp: issued_def)
  with assms(2) have "N \<le> length ids + gaps'" by simp
  with ks show ?thesis unfolding issued_def by blast
qed

lemma issued_next:
  assumes "issued prefix counter ids gaps"
  shows "issued prefix (counter + 1) ids (Suc gaps)"
proof -
  obtain N ks where ks: "counter = of_nat N" "N \<le> length ids + gaps"
    "ids = map (\<lambda>k. make_id prefix (of_nat k)) ks" "sorted_wrt (<) ks" "set ks \<subseteq> {1..N}" using assms by (auto simp: issued_def)
  then have "counter + 1 = of_nat (Suc N)" "Suc N \<le> length ids + Suc gaps" "set ks \<subseteq> {1..Suc N}" by auto
  with ks(3,4) show ?thesis unfolding issued_def by blast
qed

lemma issued_add:
  assumes "issued prefix counter ids gaps"
  shows "issued prefix (counter + 1) (ids @ [make_id prefix (counter + 1)]) gaps"
proof -
  obtain N ks where c: "counter = of_nat N" "N \<le> length ids + gaps"
    and ks: "ids = map (\<lambda>k. make_id prefix (of_nat k)) ks" "sorted_wrt (<) ks" "set ks \<subseteq> {1..N}"
    using assms by (auto simp: issued_def)
  have "ids @ [make_id prefix (counter + 1)] = map (\<lambda>k. make_id prefix (of_nat k)) (ks @ [Suc N])"
    by (simp add: ks(1) c add.commute)
  moreover have "sorted_wrt (<) (ks @ [Suc N])" "set (ks @ [Suc N]) \<subseteq> {1..Suc N}"
    using ks(2,3) by (auto simp: sorted_wrt_append)
  moreover have "counter + 1 = of_nat (Suc N)" "Suc N \<le> length (ids @ [make_id prefix (counter + 1)]) + gaps"
    using c by (simp_all add: add.commute)
  ultimately show ?thesis unfolding issued_def by blast
qed

text \<open>The three counters of a graph, with the gaps among run ids and among the ids of entries and checkpoints.\<close>

definition numbered :: "nat \<Rightarrow> nat \<Rightarrow> ('j, 'u) turbo_state_graph \<Rightarrow> bool" where
  "numbered rgaps hgaps g \<longleftrightarrow>
     issued ''run'' (sg_next_run_id g) (map re_id (sg_runs g)) rgaps \<and>
     issued ''history'' (sg_next_history_id g) (map he_id (sg_history g)) hgaps \<and>
     issued ''checkpoint'' (sg_next_checkpoint_id g) (map he_checkpoint_id (sg_history g)) hgaps"

lemma numbered_less: "numbered r h g \<Longrightarrow> r \<le> r' \<Longrightarrow> h \<le> h' \<Longrightarrow> numbered r' h' g"
  by (auto simp: numbered_def intro: issued_less)

lemma numbered_Suc:
  "numbered r h g \<Longrightarrow> numbered (Suc r) (Suc h) g" "numbered (Suc r) h g \<Longrightarrow> numbered (Suc r) (Suc h) g"
  "numbered r (Suc h) g \<Longrightarrow> numbered (Suc r) (Suc h) g" "numbered r h g \<Longrightarrow> numbered r (Suc h) g"
  "numbered r h g \<Longrightarrow> numbered (Suc r) h g"
  by (erule numbered_less; simp)+

lemma numbered_upd_run: "(\<And>r. re_id (f r) = re_id r) \<Longrightarrow> numbered rg hg (upd_run ri f g) = numbered rg hg g"
  using map_upd_run [of re_id f ri g] by (simp add: numbered_def)

lemma numbered_history:
  assumes "numbered rg hg g"
    and "turbo_state_graph_add_history_record J a g ri kind name reason last_node next_node step u st = (s, h, g', a')"
  shows "if s = TURBO_STATE_GRAPH_OK then numbered rg hg g' else numbered rg (Suc hg) g'"
  using assms(2)
proof (cases rule: add_history_cases)
  case (failed c bump)
  then show ?thesis using assms(1) by (auto simp: numbered_def intro: issued_next issued_less)
next
  case (cut c)
  then show ?thesis using assms(1) by (auto simp: numbered_upd_run) (auto simp: numbered_def intro: issued_next)
next
  case (recorded c)
  then show ?thesis using assms(1)
    by (auto simp: numbered_upd_run) (auto simp: numbered_def new_entry_def intro: issued_add)
qed

interpretation numbers: run_keeper J ri "numbered rg hg" "numbered rg (Suc hg)" for J :: "('j, 'd) json_lib" and ri rg hg
proof unfold_locales
  fix g :: "('j, 'u) turbo_state_graph" and st
  show "numbered rg hg g \<Longrightarrow> numbered rg hg (upd_run ri (re_state_update (\<lambda>_. st)) g)"
    by (simp add: numbered_upd_run)
next
  fix g :: "('j, 'u) turbo_state_graph" and completed current interrupted steps
  show "numbered rg hg g \<Longrightarrow> numbered rg hg (set_position ri current steps interrupted completed g)"
    by (simp add: set_position_def numbered_upd_run)
qed (rule numbered_history, assumption+, rule numbered_less, auto)

end
