(* ===== verification/Decimal_Text.thy ===== *)
theory Decimal_Text
  imports Runtime_Json
begin

section \<open>Decimal text reads back\<close>

text \<open>The text \<open>%zu\<close> and the integer tokens of the JSON library print is read back by \<open>strtoimax\<close>; so it identifies
  the number, and an \<open>int64_t\<close> survives being written to JSON and read again.\<close>

lemma of_char_digit: "d < 10 \<Longrightarrow> (of_char (char_of (48 + d)) :: nat) = 48 + d"
  by (simp add: of_char_of)

lemma char_is_digit_digit: "d < 10 \<Longrightarrow> char_is_digit (char_of (48 + d :: nat))"
  by (simp add: char_is_digit_def of_char_digit)

lemma digits_value_append:
  "digits_value acc (xs @ ys) = Option.bind (digits_value acc xs) (\<lambda>a. digits_value a ys)"
  by (induction acc xs rule: digits_value.induct) auto

lemma digits_value_dec_nat: "digits_value 0 (dec_nat n) = Some n"
proof (induction n rule: dec_nat.induct)
  case (1 n)
  show ?case
  proof (cases "n < 10")
    case True
    then show ?thesis
      by (subst dec_nat.simps) (simp add: of_char_digit char_is_digit_digit)
  next
    case False
    then have "digits_value 0 (dec_nat (n div 10)) = Some (n div 10)" using 1 by simp
    then show ?thesis using False
      by (subst dec_nat.simps) (simp add: digits_value_append of_char_digit char_is_digit_digit)
  qed
qed

lemma dec_nat_inj: "dec_nat m = dec_nat n \<Longrightarrow> m = n"
  using digits_value_dec_nat by (metis option.inject)

lemma dec_nat_hd: "\<exists>c cs. dec_nat n = c # cs \<and> char_is_digit c"
proof (induction n rule: dec_nat.induct)
  case (1 n)
  show ?case
  proof (cases "n < 10")
    case True
    then show ?thesis by (subst dec_nat.simps) (simp add: char_is_digit_digit)
  next
    case False
    with 1 obtain c cs where "dec_nat (n div 10) = c # cs" "char_is_digit c" by auto
    then show ?thesis using False by (subst dec_nat.simps) simp
  qed
qed

lemma digit_not_other: "char_is_digit c \<Longrightarrow> \<not> char_is_space c \<and> c \<noteq> CHR ''-'' \<and> c \<noteq> CHR ''+''"
  by (auto simp: char_is_digit_def char_is_space_def)

lemma strtoimax_dec_int: "strtoimax_whole (dec_int i) = Some i"
proof -
  obtain c cs where c: "dec_nat (nat \<bar>i\<bar>) = c # cs" "char_is_digit c" using dec_nat_hd by blast
  note d = digits_value_dec_nat [of "nat \<bar>i\<bar>", unfolded c(1)]
  show ?thesis
  proof (cases "i < 0")
    case True
    then have "dec_int i = CHR ''-'' # c # cs" using c(1) by (simp add: dec_int_def)
    moreover have "\<not> char_is_space (CHR ''-'')" by (simp add: char_is_space_def)
    ultimately show ?thesis using d True by (simp add: strtoimax_whole_def)
  next
    case False
    then have "dec_int i = c # cs" using c(1) by (simp add: dec_int_def)
    then show ?thesis using d False digit_not_other [OF c(2)] by (simp add: strtoimax_whole_def)
  qed
qed

text \<open>Decimal text of a 64-bit integer is short and has none of the characters of a fraction or exponent.\<close>

lemma length_dec_nat: "n < 10 ^ k \<Longrightarrow> 0 < k \<Longrightarrow> length (dec_nat n) \<le> k"
proof (induction n arbitrary: k rule: dec_nat.induct)
  case (1 n)
  show ?case
  proof (cases "n < 10")
    case True
    then show ?thesis using 1 by (subst dec_nat.simps) simp
  next
    case False
    then obtain j where j: "k = Suc j" "0 < j" using 1(2,3) by (cases k; cases "k - 1") auto
    then have "length (dec_nat (n div 10)) \<le> j" using 1(1) [OF False] 1(2) by auto
    then show ?thesis using False j by (subst dec_nat.simps) simp
  qed
qed

lemma dec_nat_digits: "c \<in> set (dec_nat n) \<Longrightarrow> char_is_digit c"
proof (induction n rule: dec_nat.induct)
  case (1 n)
  then show ?case by (subst (asm) dec_nat.simps) (auto simp: char_is_digit_digit split: if_splits)
qed

lemma dec_int_plain:
  assumes "INT64_MIN \<le> i" and "i \<le> INT64_MAX"
  shows "0 < length (dec_int i) \<and> length (dec_int i) < 22 \<and>
    CHR ''.'' \<notin> set (dec_int i) \<and> CHR ''e'' \<notin> set (dec_int i) \<and> CHR ''E'' \<notin> set (dec_int i)"
proof -
  have "nat \<bar>i\<bar> < 10 ^ 20" using assms by (simp add: INT64_MIN_def INT64_MAX_def nat_less_iff)
  then have "length (dec_nat (nat \<bar>i\<bar>)) \<le> 20" by (rule length_dec_nat) simp
  moreover have "\<not> char_is_digit CHR ''.''" "\<not> char_is_digit CHR ''e''" "\<not> char_is_digit CHR ''E''"
    by (simp_all add: char_is_digit_def)
  then have "CHR ''.'' \<notin> set (dec_nat n)" "CHR ''e'' \<notin> set (dec_nat n)" "CHR ''E'' \<notin> set (dec_nat n)" for n
    using dec_nat_digits by blast+
  moreover have "dec_nat n \<noteq> []" for n using dec_nat_hd [of n] by auto
  ultimately show ?thesis by (cases "i < 0") (simp_all add: dec_int_def)
qed

lemma as_int64_int64:
  assumes "json_type_laws J" and "json_member_laws J" and "INT64_MIN \<le> i" and "i \<le> INT64_MAX"
  shows "turbo_runtime_json_value_as_int64 J (Some (jl_int64_of J i)) d = i"
proof -
  have "jl_type J (jl_int64_of J i) = JSON_NUMBER" using assms(1) by (simp add: json_type_laws_def)
  moreover have "jl_number_text J (jl_int64_of J i) = Some (dec_int i)" using assms(2-4) by (simp add: json_member_laws_def)
  ultimately show ?thesis
    using dec_int_plain [OF assms(3,4)] assms(3,4)
    by (simp add: turbo_runtime_json_value_as_int64_def strtoimax_dec_int Let_def)
qed

end
