(* ===== verification/State_Graph_Calls.thy ===== *)
theory State_Graph_Calls
  imports State_Graph_Exec Decimal_Text "HOL-Library.Sublist"
begin

section \<open>State graphs: sequences of calls\<close>

text \<open>
  The public calls as one step relation, and what holds in every state they reach: the records refer to each other
  consistently, ids are numbered in the order they are issued, history is only ever appended to. Then what single
  calls promise: a step limit makes a run return, a run that ends is recorded, a fork leaves the runs it forks from
  alone.
\<close>

subsection \<open>Threads, runs and the current run\<close>

text \<open>What is kept across a call: consistency, the structure, and everything recorded so far.\<close>

definition extends :: "('j, 'u) turbo_state_graph \<Rightarrow> ('j, 'u) turbo_state_graph \<Rightarrow> bool" where
  "extends g g' \<longleftrightarrow> prefix (sg_history g) (sg_history g') \<and>
     prefix (map run_identity (sg_runs g)) (map run_identity (sg_runs g')) \<and>
     prefix (map th_id (sg_threads g)) (map th_id (sg_threads g'))"

definition kept :: "('j, 'u) turbo_state_graph \<Rightarrow> ('j, 'u) turbo_state_graph \<Rightarrow> bool" where
  "kept g g' \<longleftrightarrow> records_inv g' \<and> extends g g' \<and> state_graph_fixed g' = state_graph_fixed g"

lemma extends_refl [simp]: "extends g g"
  by (simp add: extends_def)

lemma extends_trans: "extends g g' \<Longrightarrow> extends g' g'' \<Longrightarrow> extends g g''"
  unfolding extends_def by (blast intro: prefix_order.trans)

lemma kept_refl: "records_inv g \<Longrightarrow> kept g g"
  by (simp add: kept_def)

lemma kept_trans: "kept g g' \<Longrightarrow> kept g' g'' \<Longrightarrow> kept g g''"
  using extends_trans by (auto simp: kept_def)

lemma run_frame_identities:
  assumes "run_frame ri g g'"
  shows "map run_identity (sg_runs g') = map run_identity (sg_runs g)"
proof (rule nth_equalityI)
  show len: "length (map run_identity (sg_runs g')) = length (map run_identity (sg_runs g))"
    using assms by (simp add: run_frame_def)
  show "map run_identity (sg_runs g') ! i = map run_identity (sg_runs g) ! i" if "i < length (map run_identity (sg_runs g'))" for i
    using assms that len by (cases "i = ri") (simp_all add: run_frame_def)
qed

lemma run_frame_extends: "run_frame ri g g' \<Longrightarrow> extends g g' \<and> state_graph_fixed g' = state_graph_fixed g"
  using run_frame_identities [of ri g g'] by (auto simp: extends_def run_frame_def prefix_def)

text \<open>Adding a thread.\<close>

definition threads_grown :: "('j, 'u) turbo_state_graph \<Rightarrow> ('j, 'u) turbo_state_graph \<Rightarrow> bool" where
  "threads_grown g g' \<longleftrightarrow>
     g' = g\<lparr>sg_next_thread_id := sg_next_thread_id g', sg_thread_capacity := sg_thread_capacity g', sg_threads := sg_threads g'\<rparr> \<and>
     (\<exists>new. sg_threads g' = sg_threads g @ new \<and> (\<forall>t \<in> set new. th_current_run_id t = None)) \<and>
     (length (sg_threads g) \<le> sg_thread_capacity g \<longrightarrow> length (sg_threads g') \<le> sg_thread_capacity g')"

lemma find_thread_Some:
  "turbo_state_graph_find_thread g i = Some ti \<Longrightarrow> ti < length (sg_threads g) \<and> i = Some (th_id (sg_threads g ! ti))"
  by (auto simp: turbo_state_graph_find_thread_def find_index_Some split: option.splits)

lemma add_thread_result:
  assumes "turbo_state_graph_add_thread_record a g requested = (s, ti, g', a')"
  shows "threads_grown g g'" and "\<And>i. ti = Some i \<Longrightarrow> i < length (sg_threads g')"
proof -
  have "threads_grown g g' \<and> (\<forall>i. ti = Some i \<longrightarrow> i < length (sg_threads g'))"
    using assms
    by (auto simp: turbo_state_graph_add_thread_record_def Let_def threads_grown_def
        dest: sg_reserve_grows sg_reserve_room find_thread_Some split: option.splits prod.splits if_splits)
  then show "threads_grown g g'" "\<And>i. ti = Some i \<Longrightarrow> i < length (sg_threads g')" by blast+
qed

lemma threads_grown_kept:
  assumes "records_inv g" and "threads_grown g g'"
  shows "kept g g'" and "sg_runs g' = sg_runs g" and "sg_history g' = sg_history g"
proof -
  obtain new where new: "sg_threads g' = sg_threads g @ new" "\<forall>t \<in> set new. th_current_run_id t = None"
    using assms(2) by (auto simp: threads_grown_def)
  have g': "g' = g\<lparr>sg_next_thread_id := sg_next_thread_id g', sg_thread_capacity := sg_thread_capacity g',
      sg_threads := sg_threads g'\<rparr>" using assms(2) by (simp add: threads_grown_def)
  have same: "sg_runs g' = sg_runs g" "sg_history g' = sg_history g" "sg_run_capacity g' = sg_run_capacity g"
    "sg_history_capacity g' = sg_history_capacity g" "sg_next_run_id g' = sg_next_run_id g"
    "sg_next_history_id g' = sg_next_history_id g" "sg_next_checkpoint_id g' = sg_next_checkpoint_id g"
    "state_graph_fixed g' = state_graph_fixed g"
    by (subst g', simp add: state_graph_fixed_def state_graph_structure_def)+
  have keys: "run_keys g' = run_keys g" "\<And>r. latest_known g' r = latest_known g r"
    by (simp_all add: run_keys_def latest_known_def same)
  have "records_inv g'"
    using assms new(2) unfolding records_inv_def keys same new(1) threads_grown_def by auto
  then show "kept g g'" using same new(1) by (simp add: kept_def extends_def)
  show "sg_runs g' = sg_runs g" "sg_history g' = sg_history g" by (rule same)+
qed

text \<open>Adding a run.\<close>

definition new_run :: "('j, 'u) turbo_state_graph \<Rightarrow> string \<Rightarrow> cstr \<Rightarrow> cstr \<Rightarrow> 'j \<Rightarrow> cstr \<Rightarrow> size_t \<Rightarrow> 'j turbo_state_graph_run_entry" where
  "new_run g thread_id parent fork st node steps =
     \<lparr>re_id = make_id ''run'' (sg_next_run_id g + 1), re_thread_id = thread_id, re_parent_run_id = parent,
      re_forked_from_history_id = fork, re_latest_history_entry_id = None, re_current_node = node, re_steps = steps,
      re_interrupted = False, re_completed = (node = None), re_state = st\<rparr>"

definition runs_grown :: "('j, 'u) turbo_state_graph \<Rightarrow> 'j turbo_state_graph_run_entry list \<Rightarrow> ('j, 'u) turbo_state_graph \<Rightarrow> bool" where
  "runs_grown g new g' \<longleftrightarrow>
     g' = g\<lparr>sg_run_capacity := sg_run_capacity g', sg_next_run_id := sg_next_run_id g', sg_runs := sg_runs g @ new\<rparr> \<and>
     (sg_next_run_id g' = sg_next_run_id g + 1 \<or> (sg_next_run_id g' = sg_next_run_id g \<and> new = [])) \<and>
     (length (sg_runs g) \<le> sg_run_capacity g \<longrightarrow> length (sg_runs g @ new) \<le> sg_run_capacity g')"

lemma add_run_result:
  assumes "turbo_state_graph_add_run_record a g thread_id parent fork st node steps = (s, ri, g', a')"
  shows "case ri of None \<Rightarrow> s = TURBO_STATE_GRAPH_OUT_OF_MEMORY \<and> runs_grown g [] g'
    | Some i \<Rightarrow> i = length (sg_runs g) \<and> runs_grown g [new_run g thread_id parent fork st node steps] g'"
  using assms
  by (auto simp: turbo_state_graph_add_run_record_def Let_def runs_grown_def new_run_def
      dest: sg_reserve_grows sg_reserve_room split: prod.splits if_splits)

lemma runs_grown_fields:
  assumes "runs_grown g new g'"
  shows "sg_runs g' = sg_runs g @ new" "sg_threads g' = sg_threads g" "sg_history g' = sg_history g"
    "sg_thread_capacity g' = sg_thread_capacity g" "sg_history_capacity g' = sg_history_capacity g"
    "sg_next_history_id g' = sg_next_history_id g" "sg_next_checkpoint_id g' = sg_next_checkpoint_id g"
    "sg_next_thread_id g' = sg_next_thread_id g"
    "state_graph_fixed g' = state_graph_fixed g" "sg_channels g' = sg_channels g"
proof -
  have g': "g' = g\<lparr>sg_run_capacity := sg_run_capacity g', sg_next_run_id := sg_next_run_id g', sg_runs := sg_runs g @ new\<rparr>"
    using assms by (simp add: runs_grown_def)
  show "sg_runs g' = sg_runs g @ new" "sg_threads g' = sg_threads g" "sg_history g' = sg_history g"
    "sg_thread_capacity g' = sg_thread_capacity g" "sg_history_capacity g' = sg_history_capacity g"
    "sg_next_history_id g' = sg_next_history_id g" "sg_next_checkpoint_id g' = sg_next_checkpoint_id g"
    "sg_next_thread_id g' = sg_next_thread_id g"
    "state_graph_fixed g' = state_graph_fixed g" "sg_channels g' = sg_channels g"
    by (subst g', simp add: state_graph_fixed_def state_graph_structure_def)+
qed

lemma runs_grown_kept:
  assumes "records_inv g" and "runs_grown g new g'"
    and "new = [] \<or> (\<exists>parent fork st node steps. new = [new_run g i parent fork st node steps] \<and>
      i \<in> th_id ` set (sg_threads g))"
  shows "kept g g'"
proof -
  note same = runs_grown_fields [OF assms(2)]
  have keys: "set (run_keys g) \<subseteq> set (run_keys g')" "\<And>r. latest_known g' r = latest_known g r"
    by (auto simp: run_keys_def latest_known_def same)
  have runs: "re_thread_id r \<in> th_id ` set (sg_threads g) \<and> run_flags r \<and> latest_known g r" if "r \<in> set (sg_runs g @ new)" for r
    using that assms(1,3) by (auto simp: records_inv_def new_run_def run_flags_def latest_known_def)
  have "length (sg_runs g @ new) \<le> sg_run_capacity g'" using assms(1,2) by (simp add: records_inv_def runs_grown_def)
  then have "records_inv g'"
    using assms(1) keys(1) runs unfolding records_inv_def keys(2) same by blast
  then show ?thesis using same by (simp add: kept_def extends_def)
qed

lemma add_run_kept:
  assumes "records_inv g" and "i \<in> th_id ` set (sg_threads g)"
    and "turbo_state_graph_add_run_record a g i parent fork st node steps = (s, ri, g', a')"
  shows "kept g g'" and "\<And>j. ri = Some j \<Longrightarrow> j = length (sg_runs g) \<and> j < length (sg_runs g') \<and>
    sg_runs g' ! j = new_run g i parent fork st node steps \<and> runs_grown g [sg_runs g' ! j] g'"
proof -
  note r = add_run_result [OF assms(3)]
  show "kept g g'"
  proof (cases ri)
    case None
    then show ?thesis using r runs_grown_kept [OF assms(1), of "[]"] by auto
  next
    case (Some j)
    then have "runs_grown g [new_run g i parent fork st node steps] g'" using r by simp
    then show ?thesis using runs_grown_kept [OF assms(1), of _ g' i] assms(2) by blast
  qed
  show "j = length (sg_runs g) \<and> j < length (sg_runs g') \<and> sg_runs g' ! j = new_run g i parent fork st node steps \<and>
      runs_grown g [sg_runs g' ! j] g'" if "ri = Some j" for j
    using r that runs_grown_fields(1) [of g _ g'] by (auto simp: nth_append)
qed

text \<open>Making a run the current one of its thread.\<close>

lemma set_current_kept:
  assumes "records_inv g" and "ti < length (sg_threads g)" and "ri < length (sg_runs g)"
    and "re_thread_id (sg_runs g ! ri) = th_id (sg_threads g ! ti)"
    and "set_current_run ti ri g w = (ok, g', w')"
  shows "kept g g'" and "sg_runs g' = sg_runs g" and "sg_history g' = sg_history g"
    and "state_graph_fixed g' = state_graph_fixed g" and "map th_id (sg_threads g') = map th_id (sg_threads g)"
proof -
  obtain cur where g': "g' = upd_thread ti (\<lambda>t. t\<lparr>th_current_run_id := cur\<rparr>) g"
    and cur: "cur = None \<or> cur = Some (re_id (sg_runs g ! ri))"
    using assms(5) by (auto simp: set_current_run_def split: prod.splits if_splits)
  have same: "sg_runs g' = sg_runs g" "sg_history g' = sg_history g" "sg_thread_capacity g' = sg_thread_capacity g"
    "sg_run_capacity g' = sg_run_capacity g" "sg_history_capacity g' = sg_history_capacity g"
    "sg_next_run_id g' = sg_next_run_id g" "sg_next_history_id g' = sg_next_history_id g"
    "sg_next_checkpoint_id g' = sg_next_checkpoint_id g" "state_graph_fixed g' = state_graph_fixed g"
    "length (sg_threads g') = length (sg_threads g)"
    by (simp_all add: g' upd_thread_def state_graph_fixed_def state_graph_structure_def)
  have ids: "map th_id (sg_threads g') = map th_id (sg_threads g)"
    by (rule nth_equalityI) (auto simp: g' upd_thread_def nth_list_update [OF assms(2)])
  have keys: "run_keys g' = run_keys g" "\<And>r. latest_known g' r = latest_known g r"
    by (simp_all add: run_keys_def latest_known_def same)
  have mem: "(re_id (sg_runs g ! ri), th_id (sg_threads g ! ti)) \<in> set (run_keys g)"
    using assms(3,4) by (force simp: run_keys_def)
  have threads: "(i, th_id t) \<in> set (run_keys g)"
    if t: "t \<in> set (sg_threads g')" "th_current_run_id t = Some i" for t i
  proof -
    have "t \<in> set (sg_threads g) \<or> t = (sg_threads g ! ti)\<lparr>th_current_run_id := cur\<rparr>"
      using t(1) by (auto simp: g' upd_thread_def dest!: set_update_subset_insert [THEN subsetD])
    then show ?thesis using t(2) assms(1) cur mem by (auto simp: records_inv_def)
  qed
  have "th_id ` set (sg_threads g') = th_id ` set (sg_threads g)" using ids by (metis list.set_map)
  then have "records_inv g'" using assms(1) threads unfolding records_inv_def keys same by blast
  then show "kept g g'" using same ids by (simp add: kept_def extends_def)
  show "sg_runs g' = sg_runs g" "sg_history g' = sg_history g" "state_graph_fixed g' = state_graph_fixed g"
    "map th_id (sg_threads g') = map th_id (sg_threads g)" by (fact same ids)+
qed

text \<open>Executing and seeding a run.\<close>

lemma execute_run_frame: "turbo_state_graph_execute_run J ri options g w = Some c \<Longrightarrow> run_frame ri g (sk_graph c)"
  by (rule frame.execute_run_keeps [OF run_frame_refl])

lemma execute_run_kept:
  assumes "records_inv g" and "ri < length (sg_runs g)" and "turbo_state_graph_execute_run J ri options g w = Some c"
  shows "kept g (sk_graph c)"
  using records.execute_run_keeps [OF _ assms(3)] assms(1,2) run_frame_extends [OF execute_run_frame [OF assms(3)]]
  by (simp add: kept_def)

lemma seed_run_frame:
  assumes "\<not> re_interrupted (sg_runs g ! ri)" and "re_completed (sg_runs g ! ri) \<longrightarrow> nxt = None"
    and "turbo_state_graph_seed_run J ri kind name reason u nxt step g w = (s, h, g', w')"
  shows "run_frame ri g g'"
  by (rule frame.sentD [OF assms(3) frame.seed_run_keeps [OF run_frame_refl assms(1,2)]])

lemma seed_run_kept:
  assumes "records_inv g" and "ri < length (sg_runs g)"
    and "\<not> re_interrupted (sg_runs g ! ri)" and "re_completed (sg_runs g ! ri) \<longrightarrow> nxt = None"
    and "turbo_state_graph_seed_run J ri kind name reason u nxt step g w = (s, h, g', w')"
  shows "kept g g'" and "ri < length (sg_runs g')"
proof -
  have "records_inv g' \<and> ri < length (sg_runs g')"
    using records.sentD [OF assms(5) records.seed_run_keeps [OF _ assms(3,4)]] assms(1,2) by simp
  then show "kept g g'" "ri < length (sg_runs g')"
    using run_frame_extends [OF seed_run_frame [OF assms(3-5)]] by (simp_all add: kept_def)
qed

subsection \<open>Every call keeps the records\<close>

lemma find_run_Some: "turbo_state_graph_find_run g i = Some ri \<Longrightarrow> ri < length (sg_runs g) \<and> i = Some (re_id (sg_runs g ! ri))"
  by (auto simp: turbo_state_graph_find_run_def find_index_Some split: option.splits)

lemma find_history_Some:
  "turbo_state_graph_find_history g i = Some h \<Longrightarrow> h < length (sg_history g) \<and> i = Some (he_id (sg_history g ! h))"
  by (auto simp: turbo_state_graph_find_history_def find_index_Some split: option.splits)

lemma sg_fail_graph [simp]: "sk_graph (sg_fail s g w) = g"
  by (simp add: sg_fail_def)

text \<open>The parts of a call, as rules that go forward: \<open>j\<close> is the run being handled, \<open>i\<close> its thread.\<close>

definition owned :: "('j, 'u) turbo_state_graph \<Rightarrow> nat \<Rightarrow> nat \<Rightarrow> bool" where
  "owned g j i \<longleftrightarrow> j < length (sg_runs g) \<and> i < length (sg_threads g) \<and> re_thread_id (sg_runs g ! j) = th_id (sg_threads g ! i)"

definition fresh :: "('j, 'u) turbo_state_graph \<Rightarrow> nat \<Rightarrow> nat \<Rightarrow> cstr \<Rightarrow> bool" where
  "fresh g j i node \<longleftrightarrow> owned g j i \<and> \<not> re_interrupted (sg_runs g ! j) \<and> (re_completed (sg_runs g ! j) \<longrightarrow> node = None)"

lemma kept_records: "kept g g' \<Longrightarrow> records_inv g'"
  by (simp add: kept_def)

lemma thread_part:
  "turbo_state_graph_add_thread_record a g t = (s, ti, g', a') \<Longrightarrow> kept g0 g \<Longrightarrow>
   kept g0 g' \<and> (\<forall>i. ti = Some i \<longrightarrow> i < length (sg_threads g'))"
  using kept_trans [OF _ threads_grown_kept(1) [OF kept_records add_thread_result(1)]] add_thread_result(2) by blast

lemma run_part:
  assumes "turbo_state_graph_add_run_record a g (th_id (sg_threads g ! i)) parent fork st node steps = (s, ri, g', a')"
    and "kept g0 g" and "i < length (sg_threads g)"
  shows "kept g0 g' \<and> (\<forall>j. ri = Some j \<longrightarrow> fresh g' j i node)"
proof -
  have "th_id (sg_threads g ! i) \<in> th_id ` set (sg_threads g)" using assms(3) by simp
  note r = add_run_kept [OF kept_records [OF assms(2)] this assms(1)]
  have "fresh g' j i node" if "ri = Some j" for j
    using r(2) [OF that] assms(3) runs_grown_fields(2) [of g "[sg_runs g' ! j]" g']
    by (auto simp: fresh_def owned_def new_run_def)
  then show ?thesis using kept_trans [OF assms(2) r(1)] by blast
qed

lemma seed_part:
  assumes "turbo_state_graph_seed_run J j kind name reason u node step g w = (s, h, g', w')"
    and "kept g0 g" and "fresh g j i node"
  shows "kept g0 g' \<and> owned g' j i"
proof -
  note f = assms(3) [unfolded fresh_def owned_def]
  have fr: "run_frame j g g'" using seed_run_frame [OF _ _ assms(1)] f by blast
  have "kept g g'" using seed_run_kept(1) [OF kept_records [OF assms(2)] _ _ _ assms(1)] f by blast
  then show ?thesis using kept_trans [OF assms(2)] f fr by (simp add: owned_def run_frame_def run_identity_def)
qed

lemma current_part:
  assumes "set_current_run i j g w = (ok, g', w')" and "kept g0 g" and "owned g j i"
  shows "kept g0 g' \<and> j < length (sg_runs g')"
  using set_current_kept [OF kept_records [OF assms(2)] _ _ _ assms(1)] kept_trans [OF assms(2)] assms(3)
  by (simp add: owned_def)

text \<open>What a call leaves behind, if it returns.\<close>

definition call_kept :: "('j, 'u) turbo_state_graph \<Rightarrow> ('j, 'u) sg_call option \<Rightarrow> bool" where
  "call_kept g0 r \<longleftrightarrow> (\<forall>c. r = Some c \<longrightarrow> kept g0 (sk_graph c))"

lemma call_kept_Some [simp]: "call_kept g0 (Some c) \<longleftrightarrow> kept g0 (sk_graph c)"
  by (simp add: call_kept_def)

lemma execute_part: "kept g0 g \<Longrightarrow> j < length (sg_runs g) \<Longrightarrow> call_kept g0 (turbo_state_graph_execute_run J j options g w)"
  unfolding call_kept_def using kept_trans execute_run_kept kept_records by blast

lemma start_kept:
  assumes "kept g0 g"
  shows "call_kept g0 (turbo_state_graph_start J thread_id input options g w)"
  unfolding turbo_state_graph_start_def Let_def
  by (auto simp: assms intro!: execute_part dest!: thread_part [OF _ assms] run_part seed_part current_part
      split: prod.split option.split)

lemma resume_kept:
  assumes "kept g0 g"
  shows "call_kept g0 (turbo_state_graph_resume J run_id options g w)"
proof -
  have own: "owned g ri ti" if "turbo_state_graph_find_run g run_id = Some ri"
    "turbo_state_graph_find_thread g (Some (re_thread_id (sg_runs g ! ri))) = Some ti" for ri ti
    using find_run_Some [OF that(1)] find_thread_Some [OF that(2)] by (simp add: owned_def)
  show ?thesis unfolding turbo_state_graph_resume_def
    by (auto simp: assms intro!: execute_part dest!: current_part [OF _ assms own] split: prod.split option.split)
qed

lemma keeper_kept:
  assumes "records_inv g'" and "ri < length (sg_runs g')" and "run_frame ri g g'" and "kept g0 g"
  shows "kept g0 g' \<and> ri < length (sg_runs g')"
  using kept_trans [OF assms(4)] assms(1-3) run_frame_extends [OF assms(3)] by (simp add: kept_def)

lemma apply_part:
  assumes "apply_to_run J ri u g w = (s, g', w')" and "kept g0 g" and "ri < length (sg_runs g)"
  shows "kept g0 g' \<and> ri < length (sg_runs g')"
  using records.apply_to_run_keeps [OF assms(1)] frame.apply_to_run_keeps [OF assms(1) run_frame_refl] assms(2,3) kept_records
    keeper_kept by blast

lemma record_part:
  assumes "record_history J ri kind name reason last_node next_node step u g w = (s, h, g', w')" and "kept g0 g"
    and "ri < length (sg_runs g)"
  shows "kept g0 g' \<and> ri < length (sg_runs g')"
  using records.record_history_keeps [OF assms(1)] frame.record_history_keeps [OF assms(1) run_frame_refl] assms(2,3)
    kept_records keeper_kept by blast

lemma update_kept:
  assumes "kept g0 g"
  shows "kept g0 (sk_graph (turbo_state_graph_update_state J run_id u options g w))"
proof -
  have len: "turbo_state_graph_find_run g run_id = Some ri \<Longrightarrow> ri < length (sg_runs g)" for ri
    using find_run_Some by blast
  show ?thesis unfolding turbo_state_graph_update_state_def Let_def
    by (auto simp: assms dest!: record_part apply_part [OF _ assms] len split: prod.split option.split)
qed

lemma branch_finish_kept:
  "kept g0 g \<Longrightarrow> j < length (sg_runs g) \<Longrightarrow> call_kept g0 (branch_finish J j h options g w)"
  by (auto simp: branch_finish_def intro: execute_part split: prod.split)

text \<open>Where a branch starts: the entry, its thread, and what recording the new run gives.\<close>

lemma branch_cases:
  obtains (refused) s where "turbo_state_graph_branch_from_history J i u ho ro cur kind g w = Some (sg_fail s g w)"
  | (failed) hi ti s a g1 where "turbo_state_graph_find_history g i = Some hi"
      "turbo_state_graph_find_thread g (Some (he_thread_id (sg_history g ! hi))) = Some ti"
      "turbo_state_graph_add_run_record (ch_alloc w) g (he_thread_id (sg_history g ! hi)) (Some (he_run_id (sg_history g ! hi)))
         (if kind = TURBO_STATE_GRAPH_SOURCE_FORK then Some (he_id (sg_history g ! hi)) else None)
         (he_state (sg_history g ! hi)) (he_next_node (sg_history g ! hi)) (he_step (sg_history g ! hi)) = (s, None, g1, a)"
      "turbo_state_graph_branch_from_history J i u ho ro cur kind g w = Some (sg_fail s g1 (w\<lparr>ch_alloc := a\<rparr>))"
  | (added) hi ti s a g1 j name reason s2 h g2 w2 where "turbo_state_graph_find_history g i = Some hi"
      "turbo_state_graph_find_thread g (Some (he_thread_id (sg_history g ! hi))) = Some ti"
      "turbo_state_graph_add_run_record (ch_alloc w) g (he_thread_id (sg_history g ! hi)) (Some (he_run_id (sg_history g ! hi)))
         (if kind = TURBO_STATE_GRAPH_SOURCE_FORK then Some (he_id (sg_history g ! hi)) else None)
         (he_state (sg_history g ! hi)) (he_next_node (sg_history g ! hi)) (he_step (sg_history g ! hi)) = (s, Some j, g1, a)"
      "turbo_state_graph_seed_run J j kind name reason u (he_next_node (sg_history g ! hi)) (he_step (sg_history g ! hi)) g1
         (w\<lparr>ch_alloc := a\<rparr>) = (s2, h, g2, w2)"
      "turbo_state_graph_branch_from_history J i u ho ro cur kind g w =
         (if s2 \<noteq> TURBO_STATE_GRAPH_OK then Some (sg_fail s2 g2 w2)
          else if cur then (case set_current_run ti j g2 w2 of (ok, g3, w3) \<Rightarrow>
            if \<not> ok then Some (sg_fail TURBO_STATE_GRAPH_OUT_OF_MEMORY g3 w3) else branch_finish J j h ro g3 w3)
          else branch_finish J j h ro g2 w2)"
proof (cases "i = None \<or> turbo_state_graph_find_history g i = None")
  case True
  then have "\<exists>s. turbo_state_graph_branch_from_history J i u ho ro cur kind g w = Some (sg_fail s g w)"
    by (auto simp: turbo_state_graph_branch_from_history_def)
  then show thesis using refused by blast
next
  case False
  then obtain hi where hi: "turbo_state_graph_find_history g i = Some hi" "i \<noteq> None" by auto
  let ?e = "sg_history g ! hi"
  show thesis
  proof (cases "turbo_state_graph_find_run g (Some (he_run_id ?e)) = None \<or>
      turbo_state_graph_find_thread g (Some (he_thread_id ?e)) = None")
    case True
    then have "\<exists>s. turbo_state_graph_branch_from_history J i u ho ro cur kind g w = Some (sg_fail s g w)"
      using hi by (cases "turbo_state_graph_find_run g (Some (he_run_id ?e))")
        (auto simp: turbo_state_graph_branch_from_history_def Let_def)
    then show thesis using refused by blast
  next
    case False
    then obtain sri ti where t: "turbo_state_graph_find_run g (Some (he_run_id ?e)) = Some sri"
      "turbo_state_graph_find_thread g (Some (he_thread_id ?e)) = Some ti" by auto
    note eval = turbo_state_graph_branch_from_history_def hi t
    obtain s ri g1 a where r: "turbo_state_graph_add_run_record (ch_alloc w) g (he_thread_id ?e) (Some (he_run_id ?e))
         (if kind = TURBO_STATE_GRAPH_SOURCE_FORK then Some (he_id ?e) else None)
         (he_state ?e) (he_next_node ?e) (he_step ?e) = (s, ri, g1, a)" by (metis prod_cases4)
    show thesis
    proof (cases ri)
      case None
      show thesis by (rule failed [OF hi(1) t(2) r [unfolded None]]) (simp add: eval r None)
    next
      case (Some j)
      define default where "default = (if kind = TURBO_STATE_GRAPH_SOURCE_FORK then ''fork_from_history'' else ''resume_from_history'')"
      define name where "name = (case ho of None \<Rightarrow> Some default | Some o' \<Rightarrow>
        (case ho_as_node o' of Some n \<Rightarrow> Some n | None \<Rightarrow> Some default))"
      define reason where "reason = (case ho of None \<Rightarrow> None | Some o' \<Rightarrow> ho_reason o')"
      obtain s2 h g2 w2 where seed: "turbo_state_graph_seed_run J j kind name reason u (he_next_node ?e) (he_step ?e) g1
         (w\<lparr>ch_alloc := a\<rparr>) = (s2, h, g2, w2)" by (metis prod_cases4)
      show thesis
        by (rule added [OF hi(1) t(2) r [unfolded Some] seed])
          (simp add: eval Let_def r Some seed flip: default_def name_def reason_def)
    qed
  qed
qed

lemma branch_kept:
  assumes "kept g0 g"
  shows "call_kept g0 (turbo_state_graph_branch_from_history J i u ho ro cur kind g w)"
proof (cases J i u ho ro cur kind g w rule: branch_cases)
  case (refused s)
  then show ?thesis using assms by simp
next
  case (failed hi ti s a g1)
  have "he_thread_id (sg_history g ! hi) = th_id (sg_threads g ! ti)" "ti < length (sg_threads g)"
    using find_thread_Some [OF failed(2)] by auto
  then show ?thesis using run_part [OF _ assms] failed(3,4) by (metis call_kept_Some sg_fail_graph)
next
  case (added hi ti s a g1 j name reason s2 h g2 w2)
  have "he_thread_id (sg_history g ! hi) = th_id (sg_threads g ! ti)" "ti < length (sg_threads g)"
    using find_thread_Some [OF added(2)] by auto
  then have "kept g0 g1 \<and> fresh g1 j ti (he_next_node (sg_history g ! hi))" using run_part [OF _ assms] added(3) by metis
  then have "kept g0 g2 \<and> owned g2 j ti" using seed_part [OF added(4)] by blast
  moreover from this have "j < length (sg_runs g2)" by (simp add: owned_def)
  ultimately show ?thesis unfolding added(5)
    by (auto intro: branch_finish_kept dest!: current_part split: prod.split)
qed

subsection \<open>Calls as steps\<close>

text \<open>One call of the builder or of the run interface that returned, on a graph and its world. Loading a snapshot,
  which takes the records from outside, is not among them.\<close>

inductive sg_step ::
    "('j, 'd) json_lib \<Rightarrow> ('j, 'u) turbo_state_graph \<times> 'u world \<Rightarrow> ('j, 'u) turbo_state_graph \<times> 'u world \<Rightarrow> bool" for J where
  build: "apply_state_graph_op J op (ch_alloc w) g = (s, g', a') \<Longrightarrow> sg_step J (g, w) (g', w\<lparr>ch_alloc := a'\<rparr>)"
| start: "turbo_state_graph_start J thread_id input options g w = Some c \<Longrightarrow> sg_step J (g, w) (sk_graph c, sk_world c)"
| resume: "turbo_state_graph_resume J run_id options g w = Some c \<Longrightarrow> sg_step J (g, w) (sk_graph c, sk_world c)"
| update: "turbo_state_graph_update_state J run_id u options' g w = c \<Longrightarrow> sg_step J (g, w) (sk_graph c, sk_world c)"
| resume_from: "turbo_state_graph_resume_from_history J i u' options' options g w = Some c \<Longrightarrow>
    sg_step J (g, w) (sk_graph c, sk_world c)"
| fork_from: "turbo_state_graph_fork_from_history J i u' options' options g w = Some c \<Longrightarrow>
    sg_step J (g, w) (sk_graph c, sk_world c)"

inductive_cases sg_stepE: "sg_step J (g, w) (g', w')"

definition sg_inv :: "('j, 'd) json_lib \<Rightarrow> ('j, 'u) turbo_state_graph \<Rightarrow> bool" where
  "sg_inv J g \<longleftrightarrow> state_graph_shape J g \<and> records_inv g"

text \<open>The shape of the structure does not depend on the records, but for the capacities, which no call lowers.\<close>

lemma run_calls_kept:
  assumes "records_inv g"
  shows "turbo_state_graph_start J t input options g w = Some c \<Longrightarrow> kept g (sk_graph c)"
    and "turbo_state_graph_resume J run_id options g w = Some c \<Longrightarrow> kept g (sk_graph c)"
    and "kept g (sk_graph (turbo_state_graph_update_state J run_id u options' g w))"
    and "turbo_state_graph_resume_from_history J i u' options' options g w = Some c \<Longrightarrow> kept g (sk_graph c)"
    and "turbo_state_graph_fork_from_history J i u' options' options g w = Some c \<Longrightarrow> kept g (sk_graph c)"
proof -
  note k = kept_refl [OF assms]
  show "kept g (sk_graph (turbo_state_graph_update_state J run_id u options' g w))" by (rule update_kept [OF k])
  show "turbo_state_graph_start J t input options g w = Some c \<Longrightarrow> kept g (sk_graph c)"
    using start_kept [OF k, of J t input options w] by simp
  show "turbo_state_graph_resume J run_id options g w = Some c \<Longrightarrow> kept g (sk_graph c)"
    using resume_kept [OF k, of J run_id options w] by simp
  show "turbo_state_graph_resume_from_history J i u' options' options g w = Some c \<Longrightarrow> kept g (sk_graph c)"
    using branch_kept [OF k, of J i u' options' options True TURBO_STATE_GRAPH_SOURCE_HOST w]
    by (simp add: turbo_state_graph_resume_from_history_def)
  show "turbo_state_graph_fork_from_history J i u' options' options g w = Some c \<Longrightarrow> kept g (sk_graph c)"
    using branch_kept [OF k, of J i u' options' options False TURBO_STATE_GRAPH_SOURCE_FORK w]
    by (simp add: turbo_state_graph_fork_from_history_def)
qed

text \<open>The builder does not touch the records.\<close>

definition records_of where
  "records_of g = (state_graph_records g, sg_thread_capacity g, sg_run_capacity g, sg_history_capacity g)"

lemma records_of_inv: "records_of g' = records_of g \<Longrightarrow> records_inv g' = records_inv g \<and> extends g g'"
  by (simp add: records_of_def state_graph_records_def records_inv_def run_keys_def latest_known_def extends_def)

lemma state_graph_op_unrecorded: "apply_state_graph_op J op a g = (s, g', a') \<Longrightarrow> records_of g' = records_of g"
  by (cases op)
    (auto simp: turbo_state_graph_add_channel_def turbo_state_graph_add_json_value_node_def
      turbo_state_graph_add_json_value_node_owned_def turbo_state_graph_add_json_value_edge_def
      turbo_state_graph_set_entry_def Let_def records_of_def state_graph_records_def
      split: option.splits prod.splits if_splits)

lemma state_graph_op_records:
  assumes "apply_state_graph_op J op a g = (s, g', a')"
  shows "records_inv g' = records_inv g" and "extends g g'"
  using records_of_inv [OF state_graph_op_unrecorded [OF assms]] by blast+

lemma sg_step_inv:
  assumes "sg_step J (g, w) (g', w')" and "sg_inv J g"
  shows "sg_inv J g' \<and> extends g g'"
proof -
  have rec: "records_inv g" and shape: "state_graph_shape J g" using assms(2) by (simp_all add: sg_inv_def)
  have kept: "kept g h \<Longrightarrow> sg_inv J h \<and> extends g h" for h
    using shape state_graph_fixed_shape [of h g J] by (simp add: kept_def sg_inv_def)
  have build: "sg_inv J h \<and> extends g h" if "apply_state_graph_op J op a g = (s, h, a')" for op a s a' h
    using state_graph_op_records [OF that] rec apply_state_graph_op_result [OF shape that] by (simp add: sg_inv_def)
  from assms(1) show ?thesis
    by (rule sg_stepE)
      (blast intro: build [THEN conjunct1] build [THEN conjunct2] kept [THEN conjunct1] kept [THEN conjunct2]
        run_calls_kept [OF rec])+
qed

lemma sg_steps_inv:
  assumes "(sg_step J)\<^sup>*\<^sup>* x y" and "sg_inv J (fst x)"
  shows "sg_inv J (fst y) \<and> extends (fst x) (fst y)"
  using assms
proof (induction rule: rtranclp_induct)
  case (step y z)
  then show ?case using sg_step_inv [of J "fst y" "snd y" "fst z" "snd z"] extends_trans [of "fst x" "fst y" "fst z"] by simp
qed simp

lemma state_graph_create_inv: "turbo_state_graph_create a name = (Some g, a') \<Longrightarrow> sg_inv J g"
  by (auto simp: turbo_state_graph_create_def sg_inv_def state_graph_shape_def records_inv_def
      Let_def split: prod.splits if_splits)

text \<open>Numbered ids are distinct as long as the counter has not wrapped around.\<close>

lemma make_id_inj: "make_id p m = make_id p n \<longleftrightarrow> m = n"
  by (auto simp: make_id_def word_unat_eq_iff dest: dec_nat_inj)

lemma issued_distinct:
  assumes "issued p counter ids gaps" and "length ids + gaps < 2 ^ 64"
  shows "distinct ids"
proof -
  obtain N ks where ks: "N \<le> length ids + gaps" "ids = map (\<lambda>k. make_id p (of_nat k)) ks" "sorted_wrt (<) ks" "set ks \<subseteq> {1..N}"
    using assms(1) by (auto simp: issued_def)
  have "inj_on (\<lambda>k. make_id p (of_nat k)) (set ks)"
  proof (rule inj_onI)
    fix k l assume "k \<in> set ks" "l \<in> set ks" and eq: "make_id p (of_nat k) = make_id p (of_nat l)"
    then have "k < 2 ^ 64" "l < 2 ^ 64" using ks(1,4) assms(2) by auto
    moreover have "(of_nat k :: size_t) = of_nat l" using eq by (simp add: make_id_inj)
    ultimately show "k = l" by (simp add: word_of_nat_eq_iff take_bit_nat_eq_self)
  qed
  then show ?thesis using ks(2,3) by (simp add: distinct_map strict_sorted_iff)
qed

subsection \<open>A call loses at most one number of each kind\<close>

text \<open>A record that fails after its number was taken ends the call, so that a call leaves at most one gap among the run
  ids and one among the entry ids.\<close>

definition call_numbered :: "nat \<Rightarrow> nat \<Rightarrow> ('j, 'u) sg_call option \<Rightarrow> bool" where
  "call_numbered rg hg r \<longleftrightarrow> (\<forall>c. r = Some c \<longrightarrow> numbered rg hg (sk_graph c))"

lemma call_numbered_Some [simp]: "call_numbered rg hg (Some c) \<longleftrightarrow> numbered rg hg (sk_graph c)"
  by (simp add: call_numbered_def)

lemma thread_numbered:
  "turbo_state_graph_add_thread_record a g t = (s, ti, g', a') \<Longrightarrow> numbered rg hg g \<Longrightarrow> numbered rg hg g'"
  by (auto simp: turbo_state_graph_add_thread_record_def Let_def numbered_def split: option.splits prod.splits if_splits)

lemma current_numbered: "set_current_run ti ri g w = (ok, g', w') \<Longrightarrow> numbered rg hg g \<Longrightarrow> numbered rg hg g'"
  by (auto simp: set_current_run_def upd_thread_def numbered_def split: prod.splits if_splits)

lemma run_numbered:
  assumes "turbo_state_graph_add_run_record a g i parent fork st node steps = (s, ri, g', a')" and "numbered rg hg g"
  shows "numbered (Suc rg) hg g' \<and> (ri \<noteq> None \<longrightarrow> numbered rg hg g')"
proof (cases ri)
  case None
  then have grown: "runs_grown g [] g'" using add_run_result [OF assms(1)] by simp
  then show ?thesis using assms(2) None runs_grown_fields [OF grown]
    by (auto simp: numbered_def runs_grown_def intro: issued_next issued_less)
next
  case (Some j)
  then have grown: "runs_grown g [new_run g i parent fork st node steps] g'" using add_run_result [OF assms(1)] by simp
  then have "sg_next_run_id g' = sg_next_run_id g + 1" by (simp add: runs_grown_def)
  then have "numbered rg hg g'" using assms(2) runs_grown_fields [OF grown]
    by (auto simp: numbered_def new_run_def intro: issued_add)
  then show ?thesis using numbered_less [of rg hg g' "Suc rg" hg] by simp
qed

lemma seed_numbered:
  assumes "turbo_state_graph_seed_run J j kind name reason u nxt step g w = (s, h, g', w')" and "numbered rg hg g"
  shows "numbered rg (Suc hg) g' \<and> (s = TURBO_STATE_GRAPH_OK \<longrightarrow> numbered rg hg g')"
proof -
  have rec: "numbered rg (Suc hg) g2 \<and> (s2 = TURBO_STATE_GRAPH_OK \<longrightarrow> numbered rg hg g2)"
    if "record_history J j kind name reason None nxt step v g1 w1 = (s2, h2, g2, w2)" "numbered rg hg g1" for v g1 w1 s2 h2 g2 w2
    using numbers.record_history_sent [OF that] by (auto intro: numbered_Suc split: if_splits)
  show ?thesis using assms
    by (auto simp: turbo_state_graph_seed_run_def Let_def numbered_upd_run intro: numbered_Suc
        dest!: numbers.apply_to_run_keeps [of J j _ _ _ _ _ _ rg hg] rec split: prod.splits if_splits)
qed

lemma execute_numbered:
  "numbered rg hg g \<Longrightarrow> call_numbered rg (Suc hg) (turbo_state_graph_execute_run J j options g w)"
  unfolding call_numbered_def using numbers.execute_run_keeps by blast

lemma start_numbered:
  assumes "numbered rg hg g"
  shows "call_numbered (Suc rg) (Suc hg) (turbo_state_graph_start J thread_id input options g w)"
proof -
  have run: "call_numbered (Suc rg) (Suc hg) (turbo_state_graph_execute_run J j o' g1 w1)"
    if "numbered rg hg g1" for j o' g1 w1
    using execute_numbered [of "Suc rg" hg g1] numbered_Suc(5) [OF that] by simp
  show ?thesis unfolding turbo_state_graph_start_def Let_def
    by (auto simp: assms numbered_Suc intro!: run dest!: thread_numbered [OF _ assms] run_numbered [where rg = rg and hg = hg]
        seed_numbered [where rg = rg and hg = hg] current_numbered [where rg = rg and hg = hg]
        split: prod.split option.split)
qed

lemma resume_numbered:
  "numbered rg hg g \<Longrightarrow> call_numbered rg (Suc hg) (turbo_state_graph_resume J run_id options g w)"
  unfolding turbo_state_graph_resume_def
  by (auto simp: numbered_Suc intro!: execute_numbered dest!: current_numbered split: prod.split option.split)

lemma update_numbered:
  assumes "numbered rg hg g"
  shows "numbered rg (Suc hg) (sk_graph (turbo_state_graph_update_state J run_id u options g w))"
proof -
  have rec: "numbered rg (Suc hg) g2"
    if "record_history J j kind name reason l n step v g1 w1 = (s2, h2, g2, w2)" "numbered rg hg g1"
    for j kind name reason l n step v g1 w1 s2 h2 g2 w2
    using that by (rule numbers.record_history_keeps)
  show ?thesis unfolding turbo_state_graph_update_state_def Let_def
    by (auto simp: assms numbered_Suc
        dest!: rec numbers.apply_to_run_keeps [OF _ assms] split: prod.split option.split)
qed

lemma branch_numbered:
  assumes "numbered rg hg g"
  shows "call_numbered (Suc rg) (Suc hg) (turbo_state_graph_branch_from_history J i u ho ro cur kind g w)"
proof -
  have fin: "call_numbered (Suc rg) (Suc hg) (branch_finish J j h ro g1 w1)" if "numbered rg hg g1" for j h g1 w1
    using execute_numbered [of "Suc rg" hg g1] numbered_Suc(1,5) [OF that]
    by (auto simp: branch_finish_def split: prod.split)
  show ?thesis
  proof (cases J i u ho ro cur kind g w rule: branch_cases)
    case (refused s)
    then show ?thesis using numbered_Suc(1) [OF assms] by simp
  next
    case (failed hi ti s a g1)
    then show ?thesis using run_numbered [OF failed(3) assms] numbered_Suc(2) by simp
  next
    case (added hi ti s a g1 j name reason s2 h g2 w2)
    have "numbered rg hg g1" using run_numbered [OF added(3) assms] by simp
    from seed_numbered [OF added(4) this] show ?thesis unfolding added(5)
      by (auto simp: numbered_Suc intro!: fin dest!: current_numbered [where rg = rg and hg = hg] split: prod.split)
  qed
qed

lemma build_numbered:
  assumes "apply_state_graph_op J op a g = (s, g', a')"
  shows "numbered rg hg g' = numbered rg hg g"
  using state_graph_op_unrecorded [OF assms] by (simp add: numbered_def records_of_def state_graph_records_def)

lemma sg_step_numbered:
  assumes "sg_step J (g, w) (g', w')" and "numbered rg hg g"
  shows "numbered (Suc rg) (Suc hg) g'"
  using assms(1)
proof (cases rule: sg_step.cases)
  case (build op s a')
  then show ?thesis using build_numbered [OF build(2)] numbered_less [OF assms(2), of "Suc rg" "Suc hg"] by simp
next
  case (start t input options c)
  then show ?thesis using start_numbered [OF assms(2), of J t input options w] by simp
next
  case (resume run_id options c)
  then show ?thesis using resume_numbered [OF assms(2), of J run_id options w] numbered_less [of rg "Suc hg" g' "Suc rg" "Suc hg"]
    by simp
next
  case (update run_id u options' c)
  then show ?thesis using update_numbered [OF assms(2), of J run_id u options' w] numbered_less [of rg "Suc hg" g' "Suc rg" "Suc hg"]
    by simp
next
  case (resume_from i u' options' options c)
  then show ?thesis using branch_numbered [OF assms(2), of J i u' options' options True TURBO_STATE_GRAPH_SOURCE_HOST w]
    by (simp add: turbo_state_graph_resume_from_history_def)
next
  case (fork_from i u' options' options c)
  then show ?thesis using branch_numbered [OF assms(2), of J i u' options' options False TURBO_STATE_GRAPH_SOURCE_FORK w]
    by (simp add: turbo_state_graph_fork_from_history_def)
qed

lemma sg_steps_numbered:
  "((sg_step J) ^^ m) x y \<Longrightarrow> numbered rg hg (fst x) \<Longrightarrow> numbered (rg + m) (hg + m) (fst y)"
proof (induction m arbitrary: y)
  case (Suc m)
  then obtain z where "((sg_step J) ^^ m) x z" "sg_step J z y" by auto
  then show ?case using Suc sg_step_numbered [of J "fst z" "snd z" "fst y" "snd y" "rg + m" "hg + m"] by simp
qed simp

lemma state_graph_create_numbered: "turbo_state_graph_create a name = (Some g, a') \<Longrightarrow> numbered 0 0 g"
  by (auto simp: turbo_state_graph_create_def numbered_def issued_def Let_def split: prod.splits if_splits)

end
