(* ===== verification/State_Graph_Promises.thy ===== *)
theory State_Graph_Promises
  imports State_Graph_Calls Graph_Exec
begin

section \<open>State graphs: what the calls promise\<close>

text \<open>
  The properties of the run interface: the records of every reachable graph are consistent and only grow, a step limit
  makes a run return, a run that ends well has been recorded with the state it returns, a fork leaves the runs and
  threads it forks from alone, and refused calls change nothing.
\<close>

subsection \<open>A run for the witnesses\<close>

definition five_steps :: turbo_state_graph_run_options where
  "five_steps = \<lparr>so_max_steps = 5, so_start_node = None, so_interrupt_before_nodes = [], so_skip_initial_interrupt = False\<rparr>"

definition work_run :: "(jv, unit) sg_call" where
  "work_run = the (turbo_state_graph_start ref_json (Some ''thread-1'') None (Some five_steps) work_graph quiet_world)"

lemma work_run_start:
  "turbo_state_graph_start ref_json (Some ''thread-1'') None (Some five_steps) work_graph quiet_world = Some work_run"
proof -
  have "map_option sk_status (turbo_state_graph_start ref_json (Some ''thread-1'') None (Some five_steps) work_graph
      quiet_world) = Some TURBO_STATE_GRAPH_OK" by code_simp
  then show ?thesis unfolding work_run_def by auto
qed

lemma work_run_values:
  "sk_status work_run = TURBO_STATE_GRAPH_OK"
  "map_option sr_history_entry_id (sk_result work_run) = Some (Some ''history-3'')"
  "map he_id (sg_history (sk_graph work_run)) = [''history-1'', ''history-2'', ''history-3'']"
  "map th_id (sg_threads (sk_graph work_run)) = [''thread-1'']"
  by code_simp+

lemma run_ops_steps:
  "run_ops (apply_state_graph_op J) ops a g = (ss, g', a') \<Longrightarrow>
     (sg_step J ^^ length ops) (g, w\<lparr>ch_alloc := a\<rparr>) (g', w\<lparr>ch_alloc := a'\<rparr>)"
proof (induction ops arbitrary: a g ss)
  case (Cons op ops)
  obtain s g1 a1 where op: "apply_state_graph_op J op a g = (s, g1, a1)" by (metis prod_cases3)
  then obtain ss' where "run_ops (apply_state_graph_op J) ops a1 g1 = (ss', g', a')"
    using Cons.prems by (auto split: prod.splits)
  moreover have "sg_step J (g, w\<lparr>ch_alloc := a\<rparr>) (g1, w\<lparr>ch_alloc := a1\<rparr>)"
    using sg_step.build [of J op "w\<lparr>ch_alloc := a\<rparr>" g s g1 a1] op by simp
  ultimately show ?case using Cons.IH [of a1 g1 ss'] relpowp_Suc_I2 by fastforce
qed simp

lemma quiet_alloc: "quiet_world\<lparr>ch_alloc := []\<rparr> = quiet_world"
  by (simp add: quiet_world_def)

lemma work_build_steps: "(sg_step ref_json ^^ 6) (new_work_graph, quiet_world) (work_graph, quiet_world)"
proof -
  have "length work_ops = 6" by (simp add: work_ops_def)
  then show ?thesis using run_ops_steps [OF work_graph_build, of quiet_world] by (simp only: quiet_alloc)
qed

lemma work_run_steps: "(sg_step ref_json ^^ 7) (new_work_graph, quiet_world) (sk_graph work_run, sk_world work_run)"
proof -
  have "7 = Suc 6" by simp
  then show ?thesis using relpowp_Suc_I [OF work_build_steps sg_step.start [OF work_run_start]] by (simp only:)
qed

lemma work_run_reached: "(sg_step ref_json)\<^sup>*\<^sup>* (new_work_graph, quiet_world) (sk_graph work_run, sk_world work_run)"
  by (rule relpowp_imp_rtranclp [OF work_run_steps])

lemma work_graph_records: "records_inv work_graph"
  using sg_steps_inv [OF relpowp_imp_rtranclp [OF work_build_steps]]
    state_graph_create_inv [OF new_work_graph_create, of ref_json] by (simp add: sg_inv_def)

subsection \<open>The records of a reachable graph\<close>



text \<open>C21. Until a snapshot is loaded, history is only ever appended to: over any sequence of builder and run calls the
  entries recorded so far stay as they are and in place, runs and threads are never removed, and a run never changes
  its id, its thread, its parent or the entry it was forked from. (Loading a snapshot replaces all records and is not
  among these calls.)\<close>

theorem state_graph_history_append_only:
  assumes "sg_inv J g" and "(sg_step J)\<^sup>*\<^sup>* (g, w) (g', w')"
  shows "prefix (sg_history g) (sg_history g') \<and>
    prefix (map run_identity (sg_runs g)) (map run_identity (sg_runs g')) \<and>
    prefix (map th_id (sg_threads g)) (map th_id (sg_threads g'))"
  using sg_steps_inv [OF assms(2)] assms(1) by (simp add: extends_def)

lemma state_graph_history_append_only_witness: "prefix (sg_history new_work_graph) (sg_history (sk_graph work_run))"
  using state_graph_history_append_only [OF state_graph_create_inv [OF new_work_graph_create] work_run_reached] by blast

subsection \<open>A step limit makes a run return\<close>

lemma commit_steps: "execute_commit J ri node nxt stop u steps g w = Inr x \<Longrightarrow> xs_steps x = steps + 1"
  by (auto simp: execute_commit_def Let_def split: prod.splits if_splits option.splits)

lemma after_node_steps: "execute_after_node J ri ci node ctx steps latest g w = Inr x \<Longrightarrow> xs_steps x = steps + 1"
  by (auto simp: execute_after_node_def dest!: commit_steps split: prod.splits if_splits option.splits)

lemma step_steps:
  assumes "execute_run_step J ri options s = Inr s'"
  shows "xs_steps s' = xs_steps s + 1"
    and "options = Some o' \<Longrightarrow> 0 < so_max_steps o' \<Longrightarrow> xs_steps s < so_max_steps o'"
  using assms
  by (auto simp: execute_run_step_def execute_node_def Let_def not_le dest!: after_node_steps
      split: prod.splits if_splits option.splits)

lemma execute_run_returns:
  assumes "0 < so_max_steps o'"
  shows "\<exists>c. turbo_state_graph_execute_run J ri (Some o') g w = Some c"
proof -
  have "\<exists>c. run_loop (execute_run_step J ri (Some o')) s = Some c" for s :: "('a, 'b) exec_state"
  proof (rule run_loop_terminates [where I = "\<lambda>_. True" and m = "\<lambda>s. unat (so_max_steps o') - unat (xs_steps s)"])
    fix s s' :: "('a, 'b) exec_state" assume s: "execute_run_step J ri (Some o') s = Inr s'"
    have lt: "xs_steps s < so_max_steps o'" using step_steps(2) [OF s] assms by simp
    show "True \<and> unat (so_max_steps o') - unat (xs_steps s') < unat (so_max_steps o') - unat (xs_steps s)"
      using no_wrap [OF lt] lt by (simp add: step_steps(1) [OF s] word_less_nat_alt)
  qed simp
  then show ?thesis by (simp add: turbo_state_graph_execute_run_def Let_def split: option.split)
qed

definition returns :: "'r option \<Rightarrow> bool" where
  "returns r \<longleftrightarrow> (\<exists>c. r = Some c)"

lemma returns_Some [simp]: "returns (Some c)"
  by (simp add: returns_def)

lemma branch_finish_returns: "0 < so_max_steps o' \<Longrightarrow> returns (branch_finish J j h (Some o') g w)"
  using execute_run_returns by (auto simp: branch_finish_def returns_def split: prod.split)

lemma branch_returns:
  assumes "0 < so_max_steps o'"
  shows "returns (turbo_state_graph_branch_from_history J i u ho (Some o') cur kind g w)"
proof (cases J i u ho "Some o'" cur kind g w rule: branch_cases)
  case (added hi ti s a g1 j name reason s2 h g2 w2)
  show ?thesis unfolding added(5) by (simp add: branch_finish_returns [OF assms] split: prod.split)
qed simp_all

text \<open>C6. With a step limit every run call returns: starting, resuming, and branching from history, whatever the
  callbacks, the routes and the allocator do, and also when the graph has a cycle.\<close>

theorem state_graph_run_returns:
  assumes "0 < so_max_steps o'"
  shows "(\<exists>c. turbo_state_graph_start J thread_id input (Some o') g w = Some c) \<and>
    (\<exists>c. turbo_state_graph_resume J run_id (Some o') g w = Some c) \<and>
    (\<exists>c. turbo_state_graph_branch_from_history J i u ho (Some o') cur kind g w = Some c)"
proof -
  have run: "returns (turbo_state_graph_execute_run J ri (Some o') g w)" for ri g w
    using execute_run_returns [OF assms] by (simp add: returns_def)
  have "returns (turbo_state_graph_start J thread_id input (Some o') g w)"
    unfolding turbo_state_graph_start_def Let_def by (auto simp: run split: prod.split option.split)
  moreover have "returns (turbo_state_graph_resume J run_id (Some o') g w)"
    unfolding turbo_state_graph_resume_def by (auto simp: run split: prod.split option.split)
  ultimately show ?thesis using branch_returns [OF assms] by (simp add: returns_def)
qed

lemma state_graph_run_returns_witness:
  "\<exists>c. turbo_state_graph_start ref_json None None (Some five_steps) work_graph quiet_world = Some c"
proof -
  have "0 < so_max_steps five_steps" by (simp add: five_steps_def)
  from state_graph_run_returns [OF this] show ?thesis by blast
qed

subsection \<open>A run that ends is recorded\<close>

text \<open>What the end of a run leaves: the last history entry belongs to the run and holds the state that is returned, the
  result names it, the run is completed and points to it.\<close>

definition recorded_end :: "nat \<Rightarrow> ('j, 'u) sg_call \<Rightarrow> bool" where
  "recorded_end ri c \<longleftrightarrow>
     (let g = sk_graph c; h = last (sg_history g); run = sg_runs g ! ri
      in sk_status c \<in> {TURBO_STATE_GRAPH_OK, TURBO_STATE_GRAPH_STOP} \<and> sg_history g \<noteq> [] \<and>
         sk_state c = Some (he_state h) \<and> re_state run = he_state h \<and> he_run_id h = re_id run \<and>
         re_latest_history_entry_id run = Some (he_id h) \<and> re_completed run \<and> re_current_node run = None \<and>
         re_steps run = he_step h \<and>
         (\<exists>r. sk_result c = Some r \<and> sr_status r = sk_status c \<and> sr_run_id r = Some (re_id run) \<and>
            sr_history_entry_id r = Some (he_id h) \<and> sr_checkpoint_id r = Some (he_checkpoint_id h) \<and>
            sr_next_node r = None \<and> sr_steps r = he_step h))"

definition ends_recorded :: "nat \<Rightarrow> ('j, 'u) exec_step \<Rightarrow> bool" where
  "ends_recorded ri x \<longleftrightarrow>
     (\<forall>c. x = Inl c \<longrightarrow> sk_state c \<noteq> None \<longrightarrow> sk_status c \<noteq> TURBO_STATE_GRAPH_INTERRUPTED \<longrightarrow> recorded_end ri c)"

lemma ends_recorded_fail [simp]: "ends_recorded ri (Inl (sg_fail s g w))" "ends_recorded ri (Inr x)"
  by (simp_all add: ends_recorded_def sg_fail_def)

lemma finish_recorded:
  assumes "sg_history g = hs @ [h]" and "sg_runs g ! ri = run" and "he_state h = re_state run" and "he_run_id h = re_id run"
    and "re_latest_history_entry_id run = Some (he_id h)" and "re_completed run" and "re_current_node run = None"
    and "re_steps run = n" and "he_step h = n" and "s \<in> {TURBO_STATE_GRAPH_OK, TURBO_STATE_GRAPH_STOP}"
  shows "ends_recorded ri (Inl (finish_with_state ri (turbo_state_graph_result_init g ri (Some (length hs)) s None n) g w))"
  using assms(10)
  by (auto simp: ends_recorded_def recorded_end_def finish_with_state_def turbo_state_graph_result_init_def
      Let_def assms(1-9) split: prod.split)

lemma commit_recorded:
  assumes "ri < length (sg_runs g)"
  shows "ends_recorded ri (execute_commit J ri node nxt stop u steps g w)"
proof -
  obtain copy a where copy: "turbo_state_graph_strdup (ch_alloc w) nxt = (copy, a)" by fastforce
  have none: "nxt = None \<longrightarrow> copy = None" using copy by (auto simp: turbo_state_graph_strdup_def)
  define g1 where "g1 = set_position ri copy (steps + 1) False (nxt = None) g"
  obtain s h g' a' where add: "turbo_state_graph_add_history_record J a g1 ri TURBO_STATE_GRAPH_SOURCE_NODE (Some node) None
      (Some node) nxt (steps + 1) (Some u) (re_state (sg_runs g1 ! ri)) = (s, h, g', a')" by (metis prod_cases4)
  have rec: "record_history J ri TURBO_STATE_GRAPH_SOURCE_NODE (Some node) None (Some node) nxt (steps + 1) u g1
      (w\<lparr>ch_alloc := a\<rparr>) = (s, h, g', w\<lparr>ch_alloc := a'\<rparr>)" by (simp add: record_history_def add)
  note eval = execute_commit_def copy Let_def position_commit rec g1_def [symmetric]
  from add show ?thesis
  proof (cases rule: add_history_cases)
    case (recorded c)
    define e where "e = new_entry J g1 ri TURBO_STATE_GRAPH_SOURCE_NODE (Some node) None (Some node) nxt (steps + 1) (Some u)
      (re_state (sg_runs g1 ! ri))"
    have g': "sg_history g' = sg_history g1 @ [e]" "ri < length (sg_runs g')"
      "sg_runs g' ! ri = (sg_runs g ! ri)\<lparr>re_current_node := copy, re_steps := steps + 1, re_interrupted := False,
         re_completed := (nxt = None), re_latest_history_entry_id := Some (he_id e)\<rparr>"
      using assms unfolding recorded(4) by (simp_all add: e_def g1_def set_position_def upd_run_nth new_entry_def)
    have e: "he_state e = re_state (sg_runs g ! ri)" "he_run_id e = re_id (sg_runs g ! ri)" "he_step e = steps + 1"
      using assms by (simp_all add: e_def g1_def set_position_def upd_run_nth new_entry_def)
    have stop: "ends_recorded ri (Inl (finish_with_state ri (turbo_state_graph_result_init (set_position ri None
        (re_steps (sg_runs g' ! ri)) False True g') ri h TURBO_STATE_GRAPH_STOP None (steps + 1))
        (set_position ri None (re_steps (sg_runs g' ! ri)) False True g') w'))" for w'
      unfolding recorded(2)
      by (rule finish_recorded [where h = e, OF _ refl]) (simp_all add: g' e set_position_def upd_run_nth)
    have end_: "ends_recorded ri (Inl (finish_with_state ri
        (turbo_state_graph_result_init g' ri h TURBO_STATE_GRAPH_OK None (steps + 1)) g' w'))" if "nxt = None" for w'
      unfolding recorded(2) using that none
      by - (rule finish_recorded [where h = e, OF _ refl], simp_all add: g' e)
    have "execute_commit J ri node nxt stop u steps g w =
      (if nxt \<noteq> None \<and> copy = None then Inl (sg_fail TURBO_STATE_GRAPH_OUT_OF_MEMORY g1 (w\<lparr>ch_alloc := a\<rparr>))
       else if stop then Inl (finish_with_state ri (turbo_state_graph_result_init (set_position ri None
         (re_steps (sg_runs g' ! ri)) False True g') ri h TURBO_STATE_GRAPH_STOP None (steps + 1))
         (set_position ri None (re_steps (sg_runs g' ! ri)) False True g') (w\<lparr>ch_alloc := a'\<rparr>))
       else case copy of
           None \<Rightarrow> Inl (finish_with_state ri
             (turbo_state_graph_result_init g' ri h TURBO_STATE_GRAPH_OK None (steps + 1)) g' (w\<lparr>ch_alloc := a'\<rparr>))
         | Some n \<Rightarrow> Inr \<lparr>xs_graph = g', xs_current = n, xs_steps = steps + 1, xs_skip = False,
             xs_latest = h, xs_world = w\<lparr>ch_alloc := a'\<rparr>\<rparr>)"
      unfolding execute_commit_def copy prod.case Let_def position_commit g1_def [symmetric] rec recorded(1) position_stop by simp
    then show ?thesis using stop end_ by (auto split: option.split)
  qed (simp_all add: eval)
qed

lemma after_node_recorded:
  "ri < length (sg_runs g) \<Longrightarrow> ends_recorded ri (execute_after_node J ri ci node ctx steps latest g w)"
  unfolding execute_after_node_def
  by (auto intro!: commit_recorded dest!: frame.apply_to_run_keeps [OF _ run_frame_refl]
      frame.sentD [OF _ frame.sends_keep [OF run_frame_refl]] simp: run_frame_def split: prod.split option.split)

lemma step_recorded:
  assumes "ri < length (sg_runs (xs_graph s))"
  shows "ends_recorded ri (execute_run_step J ri options s)"
  using assms
  by (auto simp: execute_run_step_def execute_node_def Let_def intro!: after_node_recorded split: prod.split option.split)
    (auto simp: ends_recorded_def finish_with_state_def turbo_state_graph_result_init_def split: prod.splits)

lemma execute_run_recorded:
  assumes "ri < length (sg_runs g)" and "turbo_state_graph_execute_run J ri options g w = Some c"
    and "sk_state c \<noteq> None" and "sk_status c \<noteq> TURBO_STATE_GRAPH_INTERRUPTED"
  shows "recorded_end ri c"
proof -
  obtain x where x: "run_loop (execute_run_step J ri options) x = Some c" "xs_graph x = g"
    using assms(2,3) by (auto simp: turbo_state_graph_execute_run_def Let_def split: option.splits)
  have "sk_state c \<noteq> None \<longrightarrow> sk_status c \<noteq> TURBO_STATE_GRAPH_INTERRUPTED \<longrightarrow> recorded_end ri c"
  proof (rule run_loop_inv [OF x(1), of "\<lambda>s. run_frame ri g (xs_graph s)"])
    fix s s' assume "run_frame ri g (xs_graph s)" "execute_run_step J ri options s = Inr s'"
    then show "run_frame ri g (xs_graph s')" using frame.step_keeps [of ri g s J options] by simp
  next
    fix s c' assume s: "run_frame ri g (xs_graph s)" "execute_run_step J ri options s = Inl c'"
    then have "ri < length (sg_runs (xs_graph s))" using assms(1) by (simp add: run_frame_def)
    then show "sk_state c' \<noteq> None \<longrightarrow> sk_status c' \<noteq> TURBO_STATE_GRAPH_INTERRUPTED \<longrightarrow> recorded_end ri c'"
      using step_recorded [of ri s J options] s(2) by (simp add: ends_recorded_def)
  qed (simp add: x(2))
  then show ?thesis using assms(3,4) by blast
qed

text \<open>A call that gives a state has executed a run, or has only seeded one with nowhere to go.\<close>

definition ran :: "('j, 'd) json_lib \<Rightarrow> turbo_state_graph_run_options option \<Rightarrow> ('j, 'u) sg_call option \<Rightarrow> bool" where
  "ran J options r \<longleftrightarrow> (\<forall>c. r = Some c \<longrightarrow> sk_state c \<noteq> None \<longrightarrow>
     (\<exists>ri g' w'. ri < length (sg_runs g') \<and> turbo_state_graph_execute_run J ri options g' w' = Some c))"

lemma ran_fail [simp]: "ran J options (Some (sg_fail s g w))"
  by (simp add: ran_def sg_fail_def)

lemma ran_execute: "j < length (sg_runs g) \<Longrightarrow> ran J options (turbo_state_graph_execute_run J j options g w)"
  by (auto simp: ran_def)

lemma start_ran: "records_inv g \<Longrightarrow> ran J options (turbo_state_graph_start J thread_id input options g w)"
  unfolding turbo_state_graph_start_def Let_def
  by (auto intro!: ran_execute dest!: thread_part [OF _ kept_refl] run_part seed_part current_part
      split: prod.split option.split)

lemma resume_ran: "records_inv g \<Longrightarrow> ran J options (turbo_state_graph_resume J run_id options g w)"
proof -
  assume inv: "records_inv g"
  have own: "owned g ri ti" if "turbo_state_graph_find_run g run_id = Some ri"
    "turbo_state_graph_find_thread g (Some (re_thread_id (sg_runs g ! ri))) = Some ti" for ri ti
    using find_run_Some [OF that(1)] find_thread_Some [OF that(2)] by (simp add: owned_def)
  show ?thesis unfolding turbo_state_graph_resume_def
    by (auto intro!: ran_execute dest!: current_part [OF _ kept_refl [OF inv] own] split: prod.split option.split)
qed

text \<open>C19. When starting or resuming a run returns a state and the run was not interrupted, the run has completed and
  that state is recorded: the last history entry belongs to the run and holds it, the result carries the entry's id,
  its checkpoint id and its step count, and the run points to the entry.\<close>

theorem state_graph_end_recorded:
  assumes "records_inv g"
    and "turbo_state_graph_start J thread_id input options g w = Some c \<or>
      turbo_state_graph_resume J run_id options g w = Some c"
    and "sk_state c = Some st" and "sk_status c \<noteq> TURBO_STATE_GRAPH_INTERRUPTED"
  shows "\<exists>ri < length (sg_runs (sk_graph c)). recorded_end ri c \<and> he_state (last (sg_history (sk_graph c))) = st"
proof -
  have "ran J options (Some c)"
    using assms(2) start_ran [OF assms(1), of J options thread_id input w] resume_ran [OF assms(1), of J options run_id w]
    by auto
  then obtain ri g' w' where ri: "ri < length (sg_runs g')" "turbo_state_graph_execute_run J ri options g' w' = Some c"
    using assms(3) by (auto simp: ran_def)
  then have "recorded_end ri c" using execute_run_recorded [OF ri] assms(3,4) by simp
  moreover have "ri < length (sg_runs (sk_graph c))" using execute_run_frame [OF ri(2)] ri(1) by (simp add: run_frame_def)
  ultimately show ?thesis using assms(3) by (auto simp: recorded_end_def Let_def)
qed

lemma state_graph_end_recorded_witness:
  "\<exists>ri < length (sg_runs (sk_graph work_run)). recorded_end ri work_run"
proof -
  have "sk_state work_run = Some (JObj [(''log'', JArr [JStr ''work'', JStr ''report'']), (''total'', JDouble 4)])"
    by code_simp
  moreover have "sk_status work_run \<noteq> TURBO_STATE_GRAPH_INTERRUPTED" by (simp add: work_run_values)
  ultimately show ?thesis using state_graph_end_recorded [OF work_graph_records disjI1 [OF work_run_start]] by blast
qed

subsection \<open>Branching from history\<close>

lemma run_frame_trans:
  assumes "run_frame ri g g'" and "run_frame ri g' g''"
  shows "run_frame ri g g''"
proof -
  obtain new new' where "sg_history g' = sg_history g @ new" "sg_history g'' = sg_history g' @ new'"
    "\<forall>h \<in> set new. he_run_id h = re_id (sg_runs g ! ri) \<and> he_thread_id h = re_thread_id (sg_runs g ! ri)"
    "\<forall>h \<in> set new'. he_run_id h = re_id (sg_runs g' ! ri) \<and> he_thread_id h = re_thread_id (sg_runs g' ! ri)"
    using assms by (auto simp: run_frame_def)
  moreover have "re_id (sg_runs g' ! ri) = re_id (sg_runs g ! ri)" "re_thread_id (sg_runs g' ! ri) = re_thread_id (sg_runs g ! ri)"
    using assms(1) by (simp_all add: run_frame_def run_identity_def)
  ultimately have "\<exists>new. sg_history g'' = sg_history g @ new \<and>
      (\<forall>h \<in> set new. he_run_id h = re_id (sg_runs g ! ri) \<and> he_thread_id h = re_thread_id (sg_runs g ! ri))"
    by (intro exI [of _ "new @ new'"]) auto
  then show ?thesis using assms by (simp add: run_frame_def)
qed

lemma branch_finish_frame:
  "branch_finish J j h options g w = Some c \<Longrightarrow> run_frame j g (sk_graph c)"
  by (auto simp: branch_finish_def dest: execute_run_frame split: prod.splits if_splits)

text \<open>What a fork leaves of everything that was there: all of it, plus at most one run, with its entries.\<close>

definition forked :: "('j, 'u) turbo_state_graph \<Rightarrow> 'j turbo_state_graph_history_entry \<Rightarrow> ('j, 'u) turbo_state_graph \<Rightarrow> bool" where
  "forked g e g' \<longleftrightarrow>
     (\<exists>run entries. sg_runs g' = sg_runs g @ [run] \<and> sg_history g' = sg_history g @ entries \<and>
        re_id run = make_id ''run'' (sg_next_run_id g + 1) \<and> re_thread_id run = he_thread_id e \<and>
        re_parent_run_id run = Some (he_run_id e) \<and> re_forked_from_history_id run = Some (he_id e) \<and>
        (\<forall>h \<in> set entries. he_run_id h = re_id run \<and> he_thread_id h = he_thread_id e))"

lemma fixed_structure: "state_graph_fixed g' = state_graph_fixed g \<Longrightarrow> state_graph_structure g' = state_graph_structure g"
  by (simp add: state_graph_fixed_def)

lemma run_frame_forked:
  assumes "runs_grown g [new_run g (he_thread_id e) (Some (he_run_id e)) (Some (he_id e)) st node n] g1"
    and "run_frame (length (sg_runs g)) g1 g2"
  shows "forked g e g2 \<and> state_graph_structure g2 = state_graph_structure g \<and> sg_threads g2 = sg_threads g"
proof -
  note f = runs_grown_fields [OF assms(1)]
  let ?n = "length (sg_runs g)"
  have runs: "sg_runs g2 = sg_runs g @ [sg_runs g2 ! ?n]"
  proof (rule nth_equalityI)
    show "length (sg_runs g2) = length (sg_runs g @ [sg_runs g2 ! ?n])" using assms(2) by (simp add: run_frame_def f)
    fix i assume "i < length (sg_runs g2)"
    then have "i < Suc ?n" using assms(2) by (simp add: run_frame_def f)
    then show "sg_runs g2 ! i = (sg_runs g @ [sg_runs g2 ! ?n]) ! i"
      using assms(2) by (cases "i = ?n") (simp_all add: run_frame_def f nth_append)
  qed
  have id: "run_identity (sg_runs g2 ! ?n) = (make_id ''run'' (sg_next_run_id g + 1), he_thread_id e, Some (he_run_id e), Some (he_id e))"
    using assms(2) by (simp add: run_frame_def f nth_append new_run_def run_identity_def)
  obtain entries where "sg_history g2 = sg_history g @ entries"
    "\<forall>h \<in> set entries. he_run_id h = make_id ''run'' (sg_next_run_id g + 1) \<and> he_thread_id h = he_thread_id e"
    using assms(2) by (auto simp: run_frame_def f nth_append new_run_def)
  then have "forked g e g2" unfolding forked_def
    using runs id by (intro exI [of _ "sg_runs g2 ! ?n"] exI [of _ entries]) (simp add: run_identity_def)
  then show ?thesis using assms(2) f(2,9) fixed_structure [of g2 g] by (simp add: run_frame_def)
qed

text \<open>C20. Forking from a history entry leaves the graph's structure, every thread (its current run included), every
  existing run and every existing history entry exactly as they were. It adds at most one run, in the thread of the
  entry, linked to the run and the entry it was forked from; everything it records belongs to that run.\<close>

theorem state_graph_fork_isolated:
  assumes "turbo_state_graph_fork_from_history J i u ho options g w = Some c"
  shows "state_graph_structure (sk_graph c) = state_graph_structure g \<and> sg_threads (sk_graph c) = sg_threads g \<and>
    ((sg_runs (sk_graph c) = sg_runs g \<and> sg_history (sk_graph c) = sg_history g) \<or>
     (\<exists>e \<in> set (sg_history g). i = Some (he_id e) \<and> forked g e (sk_graph c)))"
proof (cases J i u ho options False TURBO_STATE_GRAPH_SOURCE_FORK g w rule: branch_cases)
  case (refused s)
  then show ?thesis using assms by (auto simp: turbo_state_graph_fork_from_history_def sg_fail_def)
next
  case (failed hi ti s a g1)
  then have "runs_grown g [] g1" "sk_graph c = g1"
    using assms add_run_result [OF failed(3)] by (auto simp: turbo_state_graph_fork_from_history_def sg_fail_def)
  then show ?thesis using runs_grown_fields [of g "[]" g1] fixed_structure [of g1 g] by simp
next
  case (added hi ti s a g1 j name reason s2 h g2 w2)
  let ?e = "sg_history g ! hi"
  have hi: "hi < length (sg_history g)" "i = Some (he_id ?e)" using find_history_Some [OF added(1)] by auto
  have j: "j = length (sg_runs g)"
    "runs_grown g [new_run g (he_thread_id ?e) (Some (he_run_id ?e)) (Some (he_id ?e)) (he_state ?e) (he_next_node ?e)
       (he_step ?e)] g1"
    using add_run_result [OF added(3)] by simp_all
  have new: "sg_runs g1 ! j = new_run g (he_thread_id ?e) (Some (he_run_id ?e)) (Some (he_id ?e)) (he_state ?e)
      (he_next_node ?e) (he_step ?e)" using runs_grown_fields(1) [OF j(2)] by (simp add: j(1))
  have seeded: "run_frame j g1 g2" by (rule seed_run_frame [OF _ _ added(4)]) (simp_all add: new new_run_def)
  have "run_frame j g2 (sk_graph c)"
    using assms added(5) by (auto simp: turbo_state_graph_fork_from_history_def dest: branch_finish_frame split: if_splits)
  then have "run_frame j g1 (sk_graph c)" using seeded by (rule run_frame_trans [rotated])
  then show ?thesis using run_frame_forked [OF j(2)] hi j(1) nth_mem [OF hi(1)] by blast
qed

lemma work_run_inv: "sg_inv ref_json (sk_graph work_run)"
  using sg_steps_inv [OF work_run_reached] state_graph_create_inv [OF new_work_graph_create, of ref_json] by simp

definition work_fork :: "(jv, unit) sg_call" where
  "work_fork = the (turbo_state_graph_fork_from_history ref_json (Some ''history-2'') None None (Some five_steps)
     (sk_graph work_run) quiet_world)"

lemma work_fork_eq:
  "turbo_state_graph_fork_from_history ref_json (Some ''history-2'') None None (Some five_steps) (sk_graph work_run)
     quiet_world = Some work_fork"
proof -
  have "map_option sk_status (turbo_state_graph_fork_from_history ref_json (Some ''history-2'') None None (Some five_steps)
      (sk_graph work_run) quiet_world) = Some TURBO_STATE_GRAPH_OK" by code_simp
  then show ?thesis unfolding work_fork_def by auto
qed

lemma state_graph_fork_isolated_witness:
  "\<exists>e \<in> set (sg_history (sk_graph work_run)). he_id e = ''history-2'' \<and> forked (sk_graph work_run) e (sk_graph work_fork)"
proof -
  have "length (sg_runs (sk_graph work_fork)) \<noteq> length (sg_runs (sk_graph work_run))" by code_simp
  then show ?thesis using state_graph_fork_isolated [OF work_fork_eq] by fastforce
qed

text \<open>An update looks only at the channels of the graph.\<close>

lemma apply_keys_channels:
  "sg_channels g' = sg_channels g \<Longrightarrow> apply_keys J g' u is a st = apply_keys J g u is a st"
  by (induction "is" arbitrary: a st)
    (simp_all add: turbo_state_graph_find_channel_index_def split: option.split prod.split)

lemma apply_update_channels:
  "sg_channels g' = sg_channels g \<Longrightarrow> turbo_state_graph_apply_update J g' a st u = turbo_state_graph_apply_update J g a st u"
  by (simp add: turbo_state_graph_apply_update_def apply_keys_channels [of g' g])

text \<open>Seeding a run applies the update to its state and records that as one entry.\<close>

lemma seed_run_entry:
  assumes "turbo_state_graph_seed_run J ri kind name reason u nxt step g w = (TURBO_STATE_GRAPH_OK, h, g', w')"
    and "ri < length (sg_runs g)"
  shows "\<exists>a a' st e. turbo_state_graph_apply_update J g a (re_state (sg_runs g ! ri))
      (case u of Some v \<Rightarrow> v | None \<Rightarrow> jl_object J) = (TURBO_STATE_GRAPH_OK, st, a') \<and>
    sg_history g' = sg_history g @ [e] \<and> he_state e = st \<and> he_next_node e = nxt \<and> he_step e = step \<and>
    he_source_kind e = kind"
proof -
  let ?u = "case u of Some v \<Rightarrow> v | None \<Rightarrow> jl_object J"
  obtain ok w1 where w1: "ch_draw w = (ok, w1)" by fastforce
  obtain s st a' where app: "turbo_state_graph_apply_update J g (ch_alloc w1) (re_state (sg_runs g ! ri)) ?u = (s, st, a')"
    by (metis prod_cases3)
  obtain copy a2 where copy: "turbo_state_graph_strdup a' nxt = (copy, a2)" by fastforce
  define g2 where "g2 = upd_run ri (\<lambda>r. r\<lparr>re_steps := step, re_completed := (nxt = None), re_interrupted := False\<rparr>)
    (upd_run ri (\<lambda>r. r\<lparr>re_current_node := copy\<rparr>) (upd_run ri (\<lambda>r. r\<lparr>re_state := st\<rparr>) g))"
  have s: "s = TURBO_STATE_GRAPH_OK" and rec: "record_history J ri kind name reason None nxt step ?u g2
      (w1\<lparr>ch_alloc := a2\<rparr>) = (TURBO_STATE_GRAPH_OK, h, g', w')"
    using assms(1) by (simp_all add: turbo_state_graph_seed_run_def w1 apply_to_run_def app copy Let_def g2_def split: if_splits)
  obtain a3 where "turbo_state_graph_add_history_record J a2 g2 ri kind name reason None nxt step (Some ?u)
      (re_state (sg_runs g2 ! ri)) = (TURBO_STATE_GRAPH_OK, h, g', a3)"
    using rec by (auto simp: record_history_def split: prod.splits)
  then have "\<exists>e. sg_history g' = sg_history g @ [e] \<and> he_state e = st \<and> he_next_node e = nxt \<and> he_step e = step \<and>
      he_source_kind e = kind"
    by (cases rule: add_history_cases) (use assms(2) in \<open>simp_all add: new_entry_def g2_def upd_run_nth\<close>)
  then show ?thesis using app s by blast
qed

text \<open>A branch that gives a state, by resuming or by forking from a history entry, starts where that entry stands: the
  first thing it records is the entry's state with the given update applied by the channel reducers, the entry's next
  node and its step count. What was recorded before is kept.\<close>

lemma state_graph_branch_start:
  assumes "turbo_state_graph_branch_from_history J i u ho options cur kind g w = Some c" and "sk_state c \<noteq> None"
  shows "\<exists>e \<in> set (sg_history g). i = Some (he_id e) \<and>
    (\<exists>a a' st first rest. turbo_state_graph_apply_update J g a (he_state e)
        (case u of Some v \<Rightarrow> v | None \<Rightarrow> jl_object J) = (TURBO_STATE_GRAPH_OK, st, a') \<and>
      sg_history (sk_graph c) = sg_history g @ first # rest \<and> he_state first = st \<and>
      he_next_node first = he_next_node e \<and> he_step first = he_step e \<and> he_source_kind first = kind)"
proof (cases J i u ho options cur kind g w rule: branch_cases)
  case (added hi ti s a g1 j name reason s2 h g2 w2)
  let ?e = "sg_history g ! hi"
  have hi: "hi < length (sg_history g)" "i = Some (he_id ?e)" using find_history_Some [OF added(1)] by auto
  note r = add_run_result [OF added(3), simplified]
  note f = runs_grown_fields [OF conjunct2 [OF r]]
  have new: "j < length (sg_runs g1)" "re_state (sg_runs g1 ! j) = he_state ?e" using r f(1) by (simp_all add: new_run_def)
  have s2: "s2 = TURBO_STATE_GRAPH_OK"
    using assms added(5) by (cases "s2 = TURBO_STATE_GRAPH_OK") (auto simp: sg_fail_def)
  obtain rest where "sg_history (sk_graph c) = sg_history g2 @ rest"
    using assms added(5) s2
    by (auto simp: set_current_run_def upd_thread_def run_frame_def sg_fail_def dest!: branch_finish_frame
        split: if_splits prod.splits)
  moreover have "turbo_state_graph_apply_update J g1 = turbo_state_graph_apply_update J g"
    by (intro ext apply_update_channels f(10))
  ultimately show ?thesis
    using seed_run_entry [OF added(4) [unfolded s2] new(1)] hi nth_mem [OF hi(1)] unfolding new(2) f(3) by fastforce
qed (use assms in \<open>auto simp: sg_fail_def\<close>)

lemma state_graph_branch_start_witness:
  "\<exists>e \<in> set (sg_history (sk_graph work_run)). he_id e = ''history-2'' \<and>
    (\<exists>first rest. sg_history (sk_graph work_fork) = sg_history (sk_graph work_run) @ first # rest \<and>
       he_next_node first = he_next_node e \<and> he_step first = he_step e \<and>
       he_source_kind first = TURBO_STATE_GRAPH_SOURCE_FORK)"
proof -
  have "sk_state work_fork = Some (JObj [(''log'', JArr [JStr ''work'', JStr ''report'']), (''total'', JDouble 4)])"
    by code_simp
  then show ?thesis
    using state_graph_branch_start [OF work_fork_eq [unfolded turbo_state_graph_fork_from_history_def]] by fastforce
qed

subsection \<open>A run that ended cannot be resumed\<close>

lemma find_run_distinct:
  assumes "distinct (map re_id (sg_runs g))" and "ri < length (sg_runs g)"
  shows "turbo_state_graph_find_run g (Some (re_id (sg_runs g ! ri))) = Some ri"
proof (cases "turbo_state_graph_find_run g (Some (re_id (sg_runs g ! ri)))")
  case None
  then show ?thesis using assms(2) by (auto simp: turbo_state_graph_find_run_def find_index_None)
next
  case (Some j)
  then have "j < length (sg_runs g)" "re_id (sg_runs g ! j) = re_id (sg_runs g ! ri)" using find_run_Some [OF Some] by auto
  then show ?thesis using assms Some by (metis length_map nth_eq_iff_index_eq nth_map)
qed

text \<open>A run that has ended cannot be resumed: when starting or resuming a run returned a state without an interrupt,
  resuming the run its result names is refused as completed and changes nothing, unless run ids have been reused after
  a wrap-around of the counter.\<close>

lemma state_graph_ended_not_resumed:
  assumes "records_inv g"
    and "turbo_state_graph_start J thread_id input options g w = Some c \<or>
      turbo_state_graph_resume J run_id options g w = Some c"
    and "sk_state c = Some st" and "sk_status c \<noteq> TURBO_STATE_GRAPH_INTERRUPTED"
    and "distinct (map re_id (sg_runs (sk_graph c)))"
  shows "\<exists>r. sk_result c = Some r \<and>
    turbo_state_graph_resume J (sr_run_id r) options' (sk_graph c) w' =
      Some (sg_fail TURBO_STATE_GRAPH_RUN_COMPLETED (sk_graph c) w')"
proof -
  have "ran J options (Some c)"
    using assms(2) start_ran [OF assms(1), of J options thread_id input w] resume_ran [OF assms(1), of J options run_id w]
    by auto
  then obtain ri g' w1 where ri: "ri < length (sg_runs g')" "turbo_state_graph_execute_run J ri options g' w1 = Some c"
    using assms(3) by (auto simp: ran_def)
  have rec: "recorded_end ri c" using execute_run_recorded [OF ri] assms(3,4) by simp
  have "ri < length (sg_runs (sk_graph c))" using execute_run_frame [OF ri(2)] ri(1) by (simp add: run_frame_def)
  with find_run_distinct [OF assms(5) this] rec show ?thesis
    by (auto simp: recorded_end_def Let_def turbo_state_graph_resume_def)
qed

lemma state_graph_ended_not_resumed_witness:
  "turbo_state_graph_resume ref_json (Some ''run-1'') None (sk_graph work_run) quiet_world =
     Some (sg_fail TURBO_STATE_GRAPH_RUN_COMPLETED (sk_graph work_run) quiet_world)"
proof -
  have "sk_state work_run = Some (JObj [(''log'', JArr [JStr ''work'', JStr ''report'']), (''total'', JDouble 4)])"
    "map re_id (sg_runs (sk_graph work_run)) = [''run-1'']"
    "map_option sr_run_id (sk_result work_run) = Some (Some ''run-1'')" by code_simp+
  moreover have "sk_status work_run \<noteq> TURBO_STATE_GRAPH_INTERRUPTED" by (simp add: work_run_values)
  ultimately show ?thesis
    using state_graph_ended_not_resumed [OF work_graph_records disjI1 [OF work_run_start], of _ None quiet_world] by fastforce
qed

text \<open>Ids of threads, unlike those of runs, are partly chosen by the caller, and a generated one is not compared with
  them: starting in a thread called like the next generated id, then without a thread, makes two threads of that id.\<close>

lemma generated_thread_id_collides:
  "map_option (\<lambda>c. map th_id (sg_threads (sk_graph c)))
     (turbo_state_graph_start ref_json None None (Some five_steps) (sk_graph work_run) quiet_world) =
   Some [''thread-1'', ''thread-1'']"
  by code_simp

end
