(* ===== verification/State_Graph_Roundtrip.thy ===== *)
theory State_Graph_Roundtrip
  imports State_Graph_Snapshot State_Graph_Promises
begin

section \<open>State graphs: loading a snapshot restores the records\<close>

text \<open>
  What a written snapshot holds, what is read back from its text, and from both the round trip; and that loading,
  when it fails, leaves either the graph it found or one without records.
\<close>

subsection \<open>Objects made by a chain of settings\<close>

definition adds :: "('j, 'd) json_lib \<Rightarrow> ('j \<Rightarrow> alloc \<Rightarrow> bool \<times> 'j \<times> alloc) \<Rightarrow> string \<times> 'j \<Rightarrow> bool" where
  "adds J f kv \<longleftrightarrow> (\<forall>obj a obj' a'. jl_type J obj = JSON_OBJECT \<longrightarrow> f obj a = (True, obj', a') \<longrightarrow>
     obj' = jl_object_add J obj (fst kv) (snd kv))"

definition null_or :: "('j, 'd) json_lib \<Rightarrow> cstr \<Rightarrow> 'j" where
  "null_or J s = (case s of Some t \<Rightarrow> jl_string_of J t | None \<Rightarrow> jl_null J)"

lemma adds_settings:
  "adds J (f_string J k s) (k, jl_string_of J s)" "adds J (f_int64 J k i) (k, jl_int64_of J i)"
  "adds J (f_clone J k v) (k, v)" "adds J (f_value J k v) (k, v)"
  "adds J (turbo_state_graph_json_value_object_set_nullable_string J k t) (k, null_or J t)"
  "adds J (turbo_state_graph_set_nullable_string_field J k t) (k, null_or J t)"
  by (auto simp: adds_def f_string_def f_int64_def f_clone_def f_value_def status_ok_def null_or_def
      turbo_runtime_json_object_set_string_def turbo_runtime_json_object_set_int64_def
      turbo_runtime_json_object_set_clone_def turbo_runtime_json_object_set_owned_def turbo_runtime_json_object_set_def
      turbo_state_graph_json_value_object_set_nullable_string_def turbo_state_graph_set_nullable_string_field_def
      json_create_def Let_def split: prod.splits if_splits option.splits)

definition members :: "('j, 'd) json_lib \<Rightarrow> (string \<times> 'j) list \<Rightarrow> 'j \<Rightarrow> bool" where
  "members J kvs v \<longleftrightarrow> jl_type J v = JSON_OBJECT \<and> (\<forall>k x. map_of kvs k = Some x \<longrightarrow> jl_object_get J v k = Some x)"

lemma set_fields_members:
  assumes "json_laws J"
  shows "list_all2 (adds J) fs kvs \<Longrightarrow> distinct (map fst kvs) \<Longrightarrow> jl_type J obj = JSON_OBJECT \<Longrightarrow>
    set_fields fs obj a = (Some obj', a') \<Longrightarrow>
    members J kvs obj' \<and> (\<forall>k. k \<notin> fst ` set kvs \<longrightarrow> jl_object_get J obj' k = jl_object_get J obj k)"
proof (induction fs kvs arbitrary: obj a rule: list_all2_induct)
  case Nil
  then show ?case by (simp add: members_def)
next
  case (Cons f fs kv kvs)
  obtain obj1 a1 where f: "f obj a = (True, obj1, a1)" "set_fields fs obj1 a1 = (Some obj', a')"
    using Cons.prems(3) by (auto split: prod.splits if_splits)
  have obj1: "obj1 = jl_object_add J obj (fst kv) (snd kv)" using Cons.hyps(1) f(1) Cons.prems(2) by (auto simp: adds_def)
  then have "jl_type J obj1 = JSON_OBJECT" using json_obj(3) [OF assms Cons.prems(2)] by simp
  with Cons.IH f(2) Cons.prems(1)
  have ih: "members J kvs obj'" "\<And>k. k \<notin> fst ` set kvs \<Longrightarrow> jl_object_get J obj' k = jl_object_get J obj1 k" by auto
  have "jl_object_get J obj' (fst kv) = Some (snd kv)"
    using ih(2) [of "fst kv"] Cons.prems(1) json_obj(4) [OF assms Cons.prems(2)] by (simp add: obj1)
  then show ?case using ih json_obj(4) [OF assms Cons.prems(2)] Cons.prems(1)
    by (cases kv) (auto simp: members_def obj1)
qed

lemma build_object_members:
  assumes "json_laws J" and "build_object J fs a = (s, Some v, a')" and "list_all2 (adds J) fs kvs" and "distinct (map fst kvs)"
  shows "members J kvs v"
proof -
  obtain a1 where "set_fields fs (jl_object J) a1 = (Some v, a')"
    using assms(2) by (auto simp: build_object_def json_create_def Let_def split: prod.splits if_splits option.splits)
  from set_fields_members [OF assms(1,3,4) json_obj(1) [OF assms(1)] this] show ?thesis by blast
qed

definition run_members :: "('j, 'd) json_lib \<Rightarrow> 'j turbo_state_graph_run_entry \<Rightarrow> (string \<times> 'j) list" where
  "run_members J r =
     [(''run_id'', jl_string_of J (re_id r)), (''thread_id'', jl_string_of J (re_thread_id r)),
      (''parent_run_id'', null_or J (re_parent_run_id r)),
      (''forked_from_history_id'', null_or J (re_forked_from_history_id r)),
      (''latest_history_entry_id'', null_or J (re_latest_history_entry_id r)),
      (''next_node'', null_or J (re_current_node r)),
      (''status'', jl_string_of J (turbo_state_graph_run_status_text r)),
      (''steps'', jl_int64_of J (int64_of_size (re_steps r))), (''state'', re_state r)]"

lemma run_object_members:
  assumes "json_laws J" and "turbo_state_graph_run_object J r a = (s, Some v, a')"
  shows "members J (run_members J r) v"
  by (rule build_object_members [OF assms [unfolded turbo_state_graph_run_object_def]])
    (simp_all add: adds_settings run_members_def run_fields_def)

definition thread_members :: "('j, 'd) json_lib \<Rightarrow> turbo_state_graph_thread_entry \<Rightarrow> (string \<times> 'j) list" where
  "thread_members J t =
     [(''thread_id'', jl_string_of J (th_id t)), (''current_run_id'', null_or J (th_current_run_id t))]"

lemma members_append: "members J (kvs @ kvs') v \<Longrightarrow> members J kvs v"
  by (auto simp: members_def map_add_def split: option.splits)

lemma thread_snapshot_members:
  assumes "json_laws J" and "thread_snapshot J g t a = (s, Some v, a')"
  shows "members J (thread_members J t) v"
proof -
  obtain st where st: "turbo_state_graph_thread_object J t st a = (s, Some v, a')" using assms(2) by (simp add: thread_snapshot_def)
  have "members J (thread_members J t @ (case st of None \<Rightarrow> [] | Some x \<Rightarrow> [(''current_state'', x)])) v"
    using st unfolding turbo_state_graph_thread_object_def thread_members_def
    by (rule build_object_members [OF assms(1)]) (simp_all add: adds_settings split: option.split)
  then show ?thesis by (rule members_append)
qed

definition history_members :: "('j, 'd) json_lib \<Rightarrow> 'j turbo_state_graph_history_entry \<Rightarrow> (string \<times> 'j) list" where
  "history_members J h =
     [(''history_entry_id'', jl_string_of J (he_id h)), (''checkpoint_id'', jl_string_of J (he_checkpoint_id h)),
      (''thread_id'', jl_string_of J (he_thread_id h)), (''run_id'', jl_string_of J (he_run_id h)),
      (''source_kind'', jl_string_of J (turbo_state_graph_source_kind_text (he_source_kind h))),
      (''source_name'', null_or J (he_source_name h)), (''reason'', null_or J (he_reason h)),
      (''last_node'', null_or J (he_last_node h)), (''next_node'', null_or J (he_next_node h)),
      (''step'', jl_int64_of J (int64_of_size (he_step h))), (''update'', he_update h), (''state'', he_state h)]"

lemma history_object_members:
  assumes J: "json_laws J" and h: "turbo_state_graph_history_object J h a = (s, Some v, a')"
  shows "members J (history_members J h) v"
proof -
  let ?fs = "[f_string J ''history_entry_id'' (he_id h),
         f_string J ''checkpoint_id'' (he_checkpoint_id h),
         f_string J ''thread_id'' (he_thread_id h),
         f_string J ''run_id'' (he_run_id h),
         f_string J ''source_kind'' (turbo_state_graph_source_kind_text (he_source_kind h)),
         turbo_state_graph_json_value_object_set_nullable_string J ''source_name'' (he_source_name h),
         turbo_state_graph_json_value_object_set_nullable_string J ''reason'' (he_reason h),
         turbo_state_graph_json_value_object_set_nullable_string J ''last_node'' (he_last_node h),
         turbo_state_graph_json_value_object_set_nullable_string J ''next_node'' (he_next_node h),
         f_int64 J ''step'' (int64_of_size (he_step h)),
         f_clone J ''update'' (he_update h),
         f_clone J ''state'' (he_state h)]"
  obtain s1 v1 a1 a2 where b: "build_object J ?fs a = (s1, Some v1, a1)"
    and c: "f_value J ''checkpointable'' (jl_bool_of J True) v1 a2 = (True, v, a')"
    using h unfolding turbo_state_graph_history_object_def
    by (auto simp: json_create_def Let_def split: prod.splits if_splits option.splits)
  have m: "members J (history_members J h) v1"
    by (rule build_object_members [OF J b]) (simp_all add: history_members_def adds_settings)
  then have "v = jl_object_add J v1 ''checkpointable'' (jl_bool_of J True)"
    using c adds_settings(4) [of J "''checkpointable''" "jl_bool_of J True"] by (auto simp: adds_def members_def)
  then show ?thesis using m json_obj(3,4) [OF J]
    by (auto simp: members_def history_members_def split: if_splits)
qed


subsection \<open>What comes back from the text\<close>

lemma get_back:
  assumes "json_laws J" and "json_text_laws J E" and "members J kvs v" and "E v w"
  shows "map_of kvs k = Some (jl_string_of J s) \<Longrightarrow> get_str J (Some w) k = Some s"
    and "map_of kvs k = Some (null_or J t) \<Longrightarrow> get_str J (Some w) k = t"
    and "map_of kvs k = Some (jl_int64_of J i) \<Longrightarrow> INT64_MIN \<le> i \<Longrightarrow> i \<le> INT64_MAX \<Longrightarrow> get_int J (Some w) k d = i"
    and "map_of kvs k = Some x \<Longrightarrow> \<exists>y. json_get J (Some w) k = Some y \<and> E x y"
proof -
  have x: "\<exists>y. jl_object_get J w k = Some y \<and> E x y" if "map_of kvs k = Some x" for k x
    using text_member_value [OF assms(2,4)] assms(3) that by (auto simp: members_def)
  have null: "jl_type J (jl_null J) = JSON_NULL" using assms(1) by (simp add: json_laws_def json_type_laws_def)
  have str: "get_str J (Some w) k = Some s" if k: "map_of kvs k = Some (jl_string_of J s)" for k s
    using x [OF k] text_equiv(1,2) [OF assms(2), of "jl_string_of J s"] json_str [OF assms(1), of s]
    by (auto simp: get_str_def json_get_def turbo_runtime_json_value_as_string_def)
  then show "map_of kvs k = Some (jl_string_of J s) \<Longrightarrow> get_str J (Some w) k = Some s" .
  show "get_str J (Some w) k = t" if k: "map_of kvs k = Some (null_or J t)"
  proof (cases t)
    case None
    then show ?thesis using x [OF k] text_equiv(1) [OF assms(2), of "jl_null J"] null
      by (auto simp: get_str_def json_get_def turbo_runtime_json_value_as_string_def null_or_def)
  qed (use str k in \<open>simp add: null_or_def\<close>)
  show "get_int J (Some w) k d = i"
    if k: "map_of kvs k = Some (jl_int64_of J i)" and i: "INT64_MIN \<le> i" "i \<le> INT64_MAX"
    using x [OF k] text_equiv(3) [OF assms(2), of "jl_int64_of J i"] as_int64_int64 [OF _ _ i, of J d] assms(1)
    by (auto simp: get_int_def json_get_def json_laws_def)
  show "map_of kvs k = Some x \<Longrightarrow> \<exists>y. json_get J (Some w) k = Some y \<and> E x y" using x by (simp add: json_get_def)
qed

lemma size_back: "INT64_MIN \<le> int64_of_size n \<and> int64_of_size n \<le> INT64_MAX \<and> of_int (int64_of_size n) = n"
  using sint_greater_eq [of n] sint_less [of n] by (simp add: int64_of_size_def INT64_MIN_def INT64_MAX_def)

text \<open>An array that was filled in a loop, read back element by element.\<close>

definition makes :: "('x \<Rightarrow> alloc \<Rightarrow> 'j query) \<Rightarrow> ('x \<Rightarrow> 'j \<Rightarrow> bool) \<Rightarrow> bool" where
  "makes build Q \<longleftrightarrow> (\<forall>x a s v a'. build x a = (s, Some v, a') \<longrightarrow> Q x v)"

lemma fill_array_elements:
  assumes "fill_array J build xs arr a = (s, Some arr', a')" and "makes build Q"
  shows "\<exists>vs. arr' = foldl (jl_array_add J) arr vs \<and> list_all2 Q xs vs"
  using assms(1)
proof (induction xs arbitrary: arr a)
  case (Cons x xs)
  obtain s1 v a1 a2 where b: "build x a = (s1, Some v, a1)"
    "fill_array J build xs (jl_array_add J arr v) a2 = (s, Some arr', a')"
    using Cons.prems by (auto simp: turbo_runtime_json_array_append_def Let_def split: prod.splits option.splits if_splits)
  then obtain vs where "arr' = foldl (jl_array_add J) (jl_array_add J arr v) vs" "list_all2 Q xs vs" using Cons.IH by blast
  moreover have "Q x v" using assms(2) b(1) unfolding makes_def by blast
  ultimately show ?case by (intro exI [of _ "v # vs"]) simp
qed simp

lemma array_back:
  assumes "json_laws J" and "json_text_laws J E" and "fill_array J build xs (jl_array J) a = (s, Some arr, a')"
    and "makes build Q" and "E arr w"
  shows "jl_type J w = JSON_ARRAY" and "\<exists>vs. json_elements J w = map Some vs \<and> list_all2 (\<lambda>x v. \<exists>v0. Q x v0 \<and> E v0 v) xs vs"
proof -
  obtain us where us: "arr = foldl (jl_array_add J) (jl_array J) us" "list_all2 Q xs us"
    using fill_array_elements [OF assms(3,4)] by blast
  note arr = json_arr [OF assms(1), of us, folded us(1)]
  have size: "jl_type J w = JSON_ARRAY" "jl_array_size J w = length us"
    using assms(2,5) arr by (auto simp: json_text_laws_def)
  have el: "\<exists>v. jl_array_get J w i = Some v \<and> E (us ! i) v" if "i < length us" for i
  proof -
    have "rel_option E (jl_array_get J arr i) (jl_array_get J w i)" using assms(2,5) by (simp add: json_text_laws_def)
    then show ?thesis using that arr(3) [of i] by (auto simp: option_rel_Some1)
  qed
  define vs where "vs = map (\<lambda>i. the (jl_array_get J w i)) [0..<length us]"
  have "json_elements J w = map Some vs"
    using el size by (force simp: json_elements_def turbo_runtime_json_value_size_def vs_def)
  moreover have "list_all2 (\<lambda>x v. \<exists>v0. Q x v0 \<and> E v0 v) xs vs"
    using us(2) el by (fastforce simp: list_all2_conv_all_nth vs_def)
  ultimately show "\<exists>vs. json_elements J w = map Some vs \<and> list_all2 (\<lambda>x v. \<exists>v0. Q x v0 \<and> E v0 v) xs vs" by blast
  show "jl_type J w = JSON_ARRAY" by (fact size(1))
qed


subsection \<open>Importing the records\<close>

definition run_equiv :: "('j \<Rightarrow> 'j \<Rightarrow> bool) \<Rightarrow> 'j turbo_state_graph_run_entry \<Rightarrow> 'j turbo_state_graph_run_entry \<Rightarrow> bool" where
  "run_equiv E r r' \<longleftrightarrow> (\<exists>v. E (re_state r) v \<and> r' = r\<lparr>re_state := v\<rparr>)"

definition history_equiv ::
    "('j \<Rightarrow> 'j \<Rightarrow> bool) \<Rightarrow> 'j turbo_state_graph_history_entry \<Rightarrow> 'j turbo_state_graph_history_entry \<Rightarrow> bool" where
  "history_equiv E h h' \<longleftrightarrow> (\<exists>u v. E (he_update h) u \<and> E (he_state h) v \<and> h' = h\<lparr>he_update := u, he_state := v\<rparr>)"

lemma run_back:
  assumes "json_laws J" and "json_text_laws J E" and "members J (run_members J r) v0" and "E v0 v"
    and "\<not> (re_interrupted r \<and> re_completed r)"
  obtains st where "E (re_state r) st" "json_get J (Some v) ''state'' = Some st"
    "get_str J (Some v) ''run_id'' = Some (re_id r)" "get_str J (Some v) ''thread_id'' = Some (re_thread_id r)"
    "get_str J (Some v) ''parent_run_id'' = re_parent_run_id r"
    "get_str J (Some v) ''forked_from_history_id'' = re_forked_from_history_id r"
    "get_str J (Some v) ''latest_history_entry_id'' = re_latest_history_entry_id r"
    "get_str J (Some v) ''next_node'' = re_current_node r" "of_int (get_int J (Some v) ''steps'' 0) = re_steps r"
    "get_str J (Some v) ''status'' = Some (turbo_state_graph_run_status_text r)"
proof -
  note b = get_back [OF assms(1-4)]
  have "\<exists>st. json_get J (Some v) ''state'' = Some st \<and> E (re_state r) st" by (rule b(4)) (simp add: run_members_def)
  then obtain st where st: "json_get J (Some v) ''state'' = Some st" "E (re_state r) st" by blast
  have steps: "get_int J (Some v) ''steps'' 0 = int64_of_size (re_steps r)"
    by (rule b(3)) (simp_all add: run_members_def size_back)
  show thesis
    by (rule that [OF st(2,1)]) (rule b(1) b(2) | simp add: run_members_def steps size_back)+
qed

text \<open>The three import loops share a contract: from the text of a record they take one record, appended with a new
  capacity, unless memory runs out.\<close>

locale importer =
  fixes loop :: "'v option list \<Rightarrow> 'g \<Rightarrow> alloc \<Rightarrow> turbo_state_graph_status_t \<times> 'g \<times> alloc"
    and put :: "nat \<Rightarrow> 'y list \<Rightarrow> 'g \<Rightarrow> 'g"
    and text_of :: "'x \<Rightarrow> 'v \<Rightarrow> bool"
    and same :: "'x \<Rightarrow> 'y \<Rightarrow> bool"
  assumes loop_Nil: "loop [] g a = (TURBO_STATE_GRAPH_OK, g, a)"
    and loop_Cons: "text_of x v \<Longrightarrow> \<exists>y ok c g1 a1. same x y \<and> (a = [] \<longrightarrow> ok \<and> a1 = []) \<and>
      loop (Some v # vs) g a = (if ok then loop vs (put c [y] g) a1 else (TURBO_STATE_GRAPH_OUT_OF_MEMORY, g1, a1))"
    and put_put: "put c' ys' (put c ys g) = put c' (ys @ ys') g"
    and put_none: "\<exists>c. put c [] g = g"
begin

lemma import_back:
  "list_all2 text_of xs vs \<Longrightarrow> loop (map Some vs) g a = (s, g', a') \<Longrightarrow>
    (s = TURBO_STATE_GRAPH_OUT_OF_MEMORY \<and> a \<noteq> []) \<or>
    (s = TURBO_STATE_GRAPH_OK \<and> (a = [] \<longrightarrow> a' = []) \<and> (\<exists>c ys. list_all2 same xs ys \<and> g' = put c ys g))"
proof (induction xs vs arbitrary: g a rule: list_all2_induct)
  case Nil
  obtain c where "put c [] g = g" using put_none by blast
  with Nil show ?case by (auto simp: loop_Nil intro!: exI [of _ c] exI [of _ "[]"])
next
  case (Cons x xs v vs)
  obtain y ok c g1 a1 where y: "same x y" "a = [] \<longrightarrow> ok \<and> a1 = []"
    "loop (Some v # map Some vs) g a = (if ok then loop (map Some vs) (put c [y] g) a1 else (TURBO_STATE_GRAPH_OUT_OF_MEMORY, g1, a1))"
    using loop_Cons [OF Cons.hyps(1), where a = a and vs = "map Some vs" and g = g] by (elim exE conjE)
  show ?case
  proof (cases ok)
    case True
    then have "loop (map Some vs) (put c [y] g) a1 = (s, g', a')" using Cons.prems y(3) by simp
    from Cons.IH [OF this] show ?thesis
    proof (elim disjE conjE exE)
      fix c' ys assume ok: "s = TURBO_STATE_GRAPH_OK" "a1 = [] \<longrightarrow> a' = []"
        and ys: "list_all2 same xs ys" "g' = put c' ys (put c [y] g)"
      have "list_all2 same (x # xs) (y # ys) \<and> g' = put c' (y # ys) g" using ys y(1) by (simp add: put_put)
      then have "\<exists>c ys. list_all2 same (x # xs) ys \<and> g' = put c ys g" by (intro exI)
      then show ?thesis using ok y(2) by simp
    qed (use y(2) in simp)
  next
    case False
    then show ?thesis using Cons.prems y(2,3) by simp
  qed
qed

end

definition text_of :: "('j, 'd) json_lib \<Rightarrow> ('j \<Rightarrow> 'j \<Rightarrow> bool) \<Rightarrow> ('x \<Rightarrow> (string \<times> 'j) list) \<Rightarrow> 'x \<Rightarrow> 'j \<Rightarrow> bool" where
  "text_of J E ms x v \<longleftrightarrow> json_laws J \<and> json_text_laws J E \<and> (\<exists>v0. members J (ms x) v0 \<and> E v0 v)"

definition run_text :: "('j, 'd) json_lib \<Rightarrow> ('j \<Rightarrow> 'j \<Rightarrow> bool) \<Rightarrow> 'j turbo_state_graph_run_entry \<Rightarrow> 'j \<Rightarrow> bool" where
  "run_text J E r v \<longleftrightarrow> text_of J E (run_members J) r v \<and> \<not> (re_interrupted r \<and> re_completed r)"

lemma no_failure [simp]:
  "strdups [] ss = (True, [])" "fst (turbo_state_graph_reserve [] c n)" "snd (snd (turbo_state_graph_reserve [] c n)) = []"
  by (simp_all add: strdups_def turbo_state_graph_reserve_def Let_def)

lemma run_import:
  assumes "run_text J E r v"
  shows "\<exists>r' ok c g1 a1. run_equiv E r r' \<and> (a = [] \<longrightarrow> ok \<and> a1 = []) \<and>
    import_runs_loop J (Some v # vs) g a =
      (if ok then import_runs_loop J vs (g\<lparr>sg_run_capacity := c, sg_runs := sg_runs g @ [r']\<rparr>) a1
       else (TURBO_STATE_GRAPH_OUT_OF_MEMORY, g1, a1))"
proof -
  obtain v0 where v0: "json_laws J" "json_text_laws J E" "members J (run_members J r) v0" "E v0 v"
    and flags: "\<not> (re_interrupted r \<and> re_completed r)" using assms by (auto simp: run_text_def text_of_def)
  obtain st where st: "E (re_state r) st" and read: "json_get J (Some v) ''state'' = Some st"
    "get_str J (Some v) ''run_id'' = Some (re_id r)" "get_str J (Some v) ''thread_id'' = Some (re_thread_id r)"
    "get_str J (Some v) ''parent_run_id'' = re_parent_run_id r"
    "get_str J (Some v) ''forked_from_history_id'' = re_forked_from_history_id r"
    "get_str J (Some v) ''latest_history_entry_id'' = re_latest_history_entry_id r"
    "get_str J (Some v) ''next_node'' = re_current_node r" "of_int (get_int J (Some v) ''steps'' 0) = re_steps r"
    "get_str J (Some v) ''status'' = Some (turbo_state_graph_run_status_text r)"
    by (rule run_back [OF v0 flags])
  have flag: "(turbo_state_graph_run_status_text r = ''interrupted'') = re_interrupted r"
    "(turbo_state_graph_run_status_text r = ''completed'') = re_completed r"
    using flags by (auto simp: turbo_state_graph_run_status_text_def)
  have entry: "\<lparr>re_id = re_id r, re_thread_id = re_thread_id r, re_parent_run_id = re_parent_run_id r,
      re_forked_from_history_id = re_forked_from_history_id r, re_latest_history_entry_id = re_latest_history_entry_id r,
      re_current_node = re_current_node r, re_steps = re_steps r, re_interrupted = re_interrupted r,
      re_completed = re_completed r, re_state = st\<rparr> = r\<lparr>re_state := st\<rparr>" by (cases r) simp
  obtain ok c a1 where rv: "turbo_state_graph_reserve a (sg_run_capacity g) (Suc (length (sg_runs g))) = (ok, c, a1)"
    by (metis prod_cases3)
  obtain ok2 a2 where sd: "strdups a1 [Some (re_id r), Some (re_thread_id r), re_parent_run_id r,
      re_forked_from_history_id r, re_latest_history_entry_id r, re_current_node r, Some []] = (ok2, a2)" by fastforce
  have empty: "a = [] \<Longrightarrow> ok \<and> ok2 \<and> a2 = []"
    using rv sd no_failure(2,3) [of "sg_run_capacity g" "Suc (length (sg_runs g))"] by auto
  have "import_runs_loop J (Some v # vs) g a =
      (if ok \<and> ok2 then import_runs_loop J vs (g\<lparr>sg_run_capacity := c, sg_runs := sg_runs g @ [r\<lparr>re_state := st\<rparr>]\<rparr>) a2
       else (TURBO_STATE_GRAPH_OUT_OF_MEMORY, g\<lparr>sg_run_capacity := c\<rparr>, if ok then a2 else a1))"
    by (simp add: read flag rv sd Let_def entry)
  moreover have "run_equiv E r (r\<lparr>re_state := st\<rparr>)" using st by (auto simp: run_equiv_def)
  ultimately show ?thesis using empty
    by - (rule exI [of _ "r\<lparr>re_state := st\<rparr>"], rule exI [of _ "ok \<and> ok2"], rule exI [of _ c],
      rule exI [of _ "g\<lparr>sg_run_capacity := c\<rparr>"], rule exI [of _ "if ok then a2 else a1"], simp)
qed

interpretation runs: importer "import_runs_loop J" "\<lambda>c rs g. g\<lparr>sg_run_capacity := c, sg_runs := sg_runs g @ rs\<rparr>"
    "run_text J E" "run_equiv E" for J E
proof unfold_locales
  fix g :: "('a, 'c) turbo_state_graph"
  show "\<exists>c. g\<lparr>sg_run_capacity := c, sg_runs := sg_runs g @ []\<rparr> = g" by (rule exI [of _ "sg_run_capacity g"]) simp
qed (rule import_runs_loop.simps(1) run_import | assumption | simp)+

lemma thread_import:
  assumes "text_of J E (thread_members J) t v"
  shows "\<exists>t' ok c g1 a1. t = t' \<and> (a = [] \<longrightarrow> ok \<and> a1 = []) \<and>
    import_threads_loop J (Some v # vs) g a =
      (if ok then import_threads_loop J vs (g\<lparr>sg_thread_capacity := c, sg_threads := sg_threads g @ [t']\<rparr>) a1
       else (TURBO_STATE_GRAPH_OUT_OF_MEMORY, g1, a1))"
proof -
  obtain v0 where v0: "json_laws J" "json_text_laws J E" "members J (thread_members J t) v0" "E v0 v"
    using assms by (auto simp: text_of_def)
  note b = get_back [OF v0]
  have read: "get_str J (Some v) ''thread_id'' = Some (th_id t)" "get_str J (Some v) ''current_run_id'' = th_current_run_id t"
    by (rule b(1), simp add: thread_members_def) (rule b(2), simp add: thread_members_def)
  obtain ok c a1 where rv: "turbo_state_graph_reserve a (sg_thread_capacity g) (Suc (length (sg_threads g))) = (ok, c, a1)"
    by (metis prod_cases3)
  obtain ok2 a2 where sd: "strdups a1 [Some (th_id t), th_current_run_id t] = (ok2, a2)" by fastforce
  have empty: "a = [] \<Longrightarrow> ok \<and> ok2 \<and> a2 = []"
    using rv sd no_failure(2,3) [of "sg_thread_capacity g" "Suc (length (sg_threads g))"] by auto
  have "import_threads_loop J (Some v # vs) g a =
      (if ok \<and> ok2 then import_threads_loop J vs (g\<lparr>sg_thread_capacity := c, sg_threads := sg_threads g @ [t]\<rparr>) a2
       else (TURBO_STATE_GRAPH_OUT_OF_MEMORY, g\<lparr>sg_thread_capacity := c\<rparr>, if ok then a2 else a1))"
    by (cases t) (use read rv sd in \<open>simp add: Let_def\<close>)
  then show ?thesis using empty
    by - (rule exI [of _ t], rule exI [of _ "ok \<and> ok2"], rule exI [of _ c],
      rule exI [of _ "g\<lparr>sg_thread_capacity := c\<rparr>"], rule exI [of _ "if ok then a2 else a1"], simp)
qed

interpretation threads: importer "import_threads_loop J" "\<lambda>c ts g. g\<lparr>sg_thread_capacity := c, sg_threads := sg_threads g @ ts\<rparr>"
    "text_of J E (thread_members J)" "(=)" for J E
proof unfold_locales
  fix g :: "('a, 'c) turbo_state_graph"
  show "\<exists>c. g\<lparr>sg_thread_capacity := c, sg_threads := sg_threads g @ []\<rparr> = g" by (rule exI [of _ "sg_thread_capacity g"]) simp
qed (rule import_threads_loop.simps(1) thread_import | assumption | simp)+

lemma source_kind_back: "source_kind_of_text (turbo_state_graph_source_kind_text k) = k"
  by (cases k) (simp_all add: source_kind_of_text_def turbo_state_graph_source_kind_text_def)

lemma history_import:
  assumes "text_of J E (history_members J) h v"
  shows "\<exists>h' ok c g1 a1. history_equiv E h h' \<and> (a = [] \<longrightarrow> ok \<and> a1 = []) \<and>
    import_history_loop J (Some v # vs) g a =
      (if ok then import_history_loop J vs (g\<lparr>sg_history_capacity := c, sg_history := sg_history g @ [h']\<rparr>) a1
       else (TURBO_STATE_GRAPH_OUT_OF_MEMORY, g1, a1))"
proof -
  obtain v0 where v0: "json_laws J" "json_text_laws J E" "members J (history_members J h) v0" "E v0 v"
    using assms by (auto simp: text_of_def)
  note b = get_back [OF v0]
  have "\<exists>st. json_get J (Some v) ''state'' = Some st \<and> E (he_state h) st"
    "\<exists>u. json_get J (Some v) ''update'' = Some u \<and> E (he_update h) u" by (rule b(4), simp add: history_members_def)+
  then obtain st u where st: "json_get J (Some v) ''state'' = Some st" "E (he_state h) st"
    and u: "json_get J (Some v) ''update'' = Some u" "E (he_update h) u" by blast
  have read: "get_str J (Some v) ''history_entry_id'' = Some (he_id h)" "get_str J (Some v) ''checkpoint_id'' = Some (he_checkpoint_id h)"
    "get_str J (Some v) ''thread_id'' = Some (he_thread_id h)" "get_str J (Some v) ''run_id'' = Some (he_run_id h)"
    "get_str J (Some v) ''source_kind'' = Some (turbo_state_graph_source_kind_text (he_source_kind h))"
    by (rule b(1), simp add: history_members_def)+
  have opt: "get_str J (Some v) ''source_name'' = he_source_name h" "get_str J (Some v) ''reason'' = he_reason h"
    "get_str J (Some v) ''last_node'' = he_last_node h" "get_str J (Some v) ''next_node'' = he_next_node h"
    by (rule b(2), simp add: history_members_def)+
  have step: "get_int J (Some v) ''step'' 0 = int64_of_size (he_step h)"
    by (rule b(3)) (simp_all add: history_members_def size_back)
  define h' where "h' = h\<lparr>he_update := u, he_state := st\<rparr>"
  have entry: "\<lparr>he_id = he_id h, he_checkpoint_id = he_checkpoint_id h, he_thread_id = he_thread_id h, he_run_id = he_run_id h,
      he_source_name = he_source_name h, he_reason = he_reason h, he_last_node = he_last_node h, he_next_node = he_next_node h,
      he_source_kind = he_source_kind h, he_step = he_step h, he_update = u, he_state = st\<rparr> = h'" by (cases h) (simp add: h'_def)
  obtain ok c a1 where rv: "turbo_state_graph_reserve a (sg_history_capacity g) (Suc (length (sg_history g))) = (ok, c, a1)"
    by (metis prod_cases3)
  obtain ok2 a2 where sd: "strdups a1 [Some (he_id h), Some (he_checkpoint_id h), Some (he_thread_id h), Some (he_run_id h),
      he_source_name h, he_reason h, he_last_node h, he_next_node h, Some [], Some []] = (ok2, a2)" by fastforce
  have empty: "a = [] \<Longrightarrow> ok \<and> ok2 \<and> a2 = []"
    using rv sd no_failure(2,3) [of "sg_history_capacity g" "Suc (length (sg_history g))"] by auto
  have "import_history_loop J (Some v # vs) g a =
      (if ok \<and> ok2 then import_history_loop J vs (g\<lparr>sg_history_capacity := c, sg_history := sg_history g @ [h']\<rparr>) a2
       else (TURBO_STATE_GRAPH_OUT_OF_MEMORY, g\<lparr>sg_history_capacity := c\<rparr>, if ok then a2 else a1))"
    by (simp add: read opt step st u rv sd Let_def source_kind_back size_back entry) (simp add: h'_def sd)
  moreover have "history_equiv E h h'" using st u by (auto simp: history_equiv_def h'_def)
  ultimately show ?thesis using empty
    by - (rule exI [of _ h'], rule exI [of _ "ok \<and> ok2"], rule exI [of _ c],
      rule exI [of _ "g\<lparr>sg_history_capacity := c\<rparr>"], rule exI [of _ "if ok then a2 else a1"], simp)
qed

interpretation history: importer "import_history_loop J" "\<lambda>c hs g. g\<lparr>sg_history_capacity := c, sg_history := sg_history g @ hs\<rparr>"
    "text_of J E (history_members J)" "history_equiv E" for J E
proof unfold_locales
  fix g :: "('a, 'c) turbo_state_graph"
  show "\<exists>c. g\<lparr>sg_history_capacity := c, sg_history := sg_history g @ []\<rparr> = g" by (rule exI [of _ "sg_history_capacity g"]) simp
qed (rule import_history_loop.simps(1) history_import | assumption | simp)+

subsection \<open>The topology check\<close>

text \<open>Enumerators of the library are 64-bit integers.\<close>

definition json_code_laws :: "('j, 'd) json_lib \<Rightarrow> bool" where
  "json_code_laws J \<longleftrightarrow> (\<forall>t. INT64_MIN \<le> jl_type_code J t \<and> jl_type_code J t \<le> INT64_MAX)"

text \<open>What a snapshot says of the structure: names, reducers and kinds, no callbacks and no defaults.\<close>

definition snapshot_topology where
  "snapshot_topology g =
     (map (\<lambda>c. (sc_name c, sc_reducer c, sc_value_kind c)) (sg_channels g), map sn_name (sg_nodes g),
      map (\<lambda>e. (sn_name (sg_nodes g ! se_from_index e), sn_name (sg_nodes g ! se_to_index e))) (sg_edges g))"

definition channel_text :: "('j, 'd) json_lib \<Rightarrow> 'j turbo_state_graph_channel_entry \<Rightarrow> (string \<times> 'j) list" where
  "channel_text J c =
     [(''name'', jl_string_of J (sc_name c)), (''reducer'', jl_int64_of J (reducer_code (sc_reducer c))),
      (''value_kind'', jl_int64_of J (jl_type_code J (sc_value_kind c)))]"

lemma channel_object_members:
  assumes "json_laws J" and "turbo_state_graph_channel_object J c a = (s, Some v, a')"
  shows "members J (channel_text J c) v"
proof (rule members_append)
  show "members J (channel_text J c @ [(''description'', null_or J (sc_description c)),
      (''default_value'', sc_default_value c)]) v"
    by (rule build_object_members [OF assms [unfolded turbo_state_graph_channel_object_def]])
      (simp_all add: adds_settings channel_text_def)
qed

lemma channel_back:
  assumes "json_laws J" "json_text_laws J E" "members J (channel_text J c) v0" "E v0 v" and "json_code_laws J"
    and "sc_name c' = sc_name c" "sc_reducer c' = sc_reducer c" "sc_value_kind c' = sc_value_kind c"
  shows "channel_matches J (Some v) c'"
proof -
  note b = get_back [OF assms(1-4)]
  have "INT64_MIN \<le> reducer_code (sc_reducer c) \<and> reducer_code (sc_reducer c) \<le> INT64_MAX"
    by (cases "sc_reducer c") (simp_all add: INT64_MIN_def INT64_MAX_def)
  then have "get_int J (Some v) ''reducer'' (- 1) = reducer_code (sc_reducer c)"
    by - (rule b(3), simp_all add: channel_text_def)
  moreover have "get_int J (Some v) ''value_kind'' (- 1) = jl_type_code J (sc_value_kind c)"
    by (rule b(3)) (use assms(5) in \<open>simp_all add: channel_text_def json_code_laws_def\<close>)
  moreover have "get_str J (Some v) ''name'' = Some (sc_name c)" by (rule b(1)) (simp add: channel_text_def)
  ultimately show ?thesis by (simp add: channel_matches_def assms(6-8))
qed


lemma node_value_text: "node_value J n a = (s, Some v, a') \<Longrightarrow> v = jl_string_of J (sn_name n)"
  by (auto simp: node_value_def json_create_def Let_def split: prod.splits if_splits)

definition edge_text :: "('j, 'd) json_lib \<Rightarrow> ('j, 'u) turbo_state_graph \<Rightarrow> ('j, 'u) turbo_state_graph_edge_entry \<Rightarrow> (string \<times> 'j) list" where
  "edge_text J g e =
     [(''from'', jl_string_of J (sn_name (sg_nodes g ! se_from_index e))),
      (''to'', jl_string_of J (sn_name (sg_nodes g ! se_to_index e)))]"

lemma edge_object_members:
  assumes "json_laws J" and "edge_object J g e a = (s, Some v, a')"
  shows "members J (edge_text J g e) v"
  by (rule build_object_members [OF assms [unfolded edge_object_def]]) (simp_all add: adds_settings edge_text_def)

lemma edge_back:
  assumes "json_laws J" "json_text_laws J E" "members J (edge_text J g e) v0" "E v0 v"
    and "sn_name (sg_nodes g' ! se_from_index e') = sn_name (sg_nodes g ! se_from_index e)"
    and "sn_name (sg_nodes g' ! se_to_index e') = sn_name (sg_nodes g ! se_to_index e)"
  shows "edge_matches J g' (Some v) e'"
proof -
  note b = get_back [OF assms(1-4)]
  have "get_str J (Some v) ''from'' = Some (sn_name (sg_nodes g ! se_from_index e))"
    "get_str J (Some v) ''to'' = Some (sn_name (sg_nodes g ! se_to_index e))" by (rule b(1), simp add: edge_text_def)+
  then show ?thesis by (simp add: edge_matches_def assms(5,6))
qed

text \<open>The text of the elements of an array, by index.\<close>

lemma array_nth:
  assumes "json_laws J" "json_text_laws J E" "fill_array J build xs (jl_array J) a = (s, Some arr, a')" "E arr w"
    and "makes build Q"
  shows "jl_type J w = JSON_ARRAY \<and> turbo_runtime_json_value_size J (Some w) = length xs \<and>
    (\<forall>i < length xs. \<exists>v0 v. jl_array_get J w i = Some v \<and> Q (xs ! i) v0 \<and> E v0 v)"
proof -
  note arr = array_back [OF assms(1-3) assms(5,4)]
  obtain vs where vs: "json_elements J w = map Some vs" "list_all2 (\<lambda>x v. \<exists>v0. Q x v0 \<and> E v0 v) xs vs" using arr(2) by blast
  have size: "turbo_runtime_json_value_size J (Some w) = length xs"
    using vs list_all2_lengthD [OF vs(2)] by (metis json_elements_def length_map diff_zero length_upt)
  have "jl_array_get J w i = Some (vs ! i)" if "i < length xs" for i
    using arg_cong [OF vs(1), of "\<lambda>l. l ! i"] that size list_all2_lengthD [OF vs(2)] by (simp add: json_elements_def)
  then show ?thesis using arr(1) size vs(2) unfolding list_all2_conv_all_nth by blast
qed

lemma topology_back:
  assumes J: "json_laws J" "json_text_laws J E" "json_code_laws J"
    and ser: "turbo_state_graph_topology_snapshot J g a = (s, Some v, a')" and "E v w"
    and same: "snapshot_topology g' = snapshot_topology g"
  shows "turbo_state_graph_validate_topology_snapshot J g' w = TURBO_STATE_GRAPH_OK"
proof -
  obtain root channels nodes edges s1 s2 s3 a1 a2 a3 a4 a5 a6 a7 a8 b b' where
    ch: "fill_array J (turbo_state_graph_channel_object J) (sg_channels g) (jl_array J) a1 = (s1, Some channels, a2)"
    and no: "fill_array J (node_value J) (sg_nodes g) (jl_array J) a3 = (s2, Some nodes, a4)"
    and ed: "fill_array J (edge_object J g) (sg_edges g) (jl_array J) a5 = (s3, Some edges, a6)"
    and sf: "set_fields [f_value J ''channels'' channels, f_value J ''nodes'' nodes, f_value J ''edges'' edges] root a7 = (Some v, a8)"
    and root: "set_fields [turbo_state_graph_set_nullable_string_field J ''graph_name'' (sg_name g),
      turbo_state_graph_set_nullable_string_field J ''entry_node'' (sg_entry_node g)] (jl_object J) b = (Some root, b')"
    using ser unfolding turbo_state_graph_topology_snapshot_def
    by (auto simp del: set_fields.simps split: prod.splits if_splits option.splits)
  have "jl_type J root = JSON_OBJECT"
    using set_fields_members [OF J(1) _ _ json_obj(1) [OF J(1)] root, of "[(''graph_name'', null_or J (sg_name g)),
      (''entry_node'', null_or J (sg_entry_node g))]"] by (auto simp: adds_settings members_def)
  then have m: "members J [(''channels'', channels), (''nodes'', nodes), (''edges'', edges)] v"
    using set_fields_members [OF J(1) _ _ _ sf, of "[(''channels'', channels), (''nodes'', nodes), (''edges'', edges)]"]
    by (auto simp: adds_settings)
  have "\<exists>y. json_get J (Some w) ''channels'' = Some y \<and> E channels y"
    "\<exists>y. json_get J (Some w) ''nodes'' = Some y \<and> E nodes y" "\<exists>y. json_get J (Some w) ''edges'' = Some y \<and> E edges y"
    by (rule get_back(4) [OF J(1,2) m \<open>E v w\<close>], simp)+
  then obtain cw nw ew where w: "jl_object_get J w ''channels'' = Some cw" "E channels cw"
    "jl_object_get J w ''nodes'' = Some nw" "E nodes nw" "jl_object_get J w ''edges'' = Some ew" "E edges ew"
    by (auto simp: json_get_def)
  have "makes (turbo_state_graph_channel_object J) (\<lambda>c. members J (channel_text J c))"
    "makes (node_value J) (\<lambda>n v. v = jl_string_of J (sn_name n))" "makes (edge_object J g) (\<lambda>e. members J (edge_text J g e))"
    by (simp_all add: makes_def channel_object_members [OF J(1)] node_value_text edge_object_members [OF J(1)])
  note c = array_nth [OF J(1,2) ch w(2) this(1)] and n = array_nth [OF J(1,2) no w(4) this(2)]
    and e = array_nth [OF J(1,2) ed w(6) this(3)]
  have len: "length (sg_channels g') = length (sg_channels g)" "length (sg_nodes g') = length (sg_nodes g)"
    "length (sg_edges g') = length (sg_edges g)"
    using same by (auto simp: snapshot_topology_def dest: map_eq_imp_length_eq)
  have names: "map (\<lambda>c. (sc_name c, sc_reducer c, sc_value_kind c)) (sg_channels g') =
      map (\<lambda>c. (sc_name c, sc_reducer c, sc_value_kind c)) (sg_channels g)"
    "map sn_name (sg_nodes g') = map sn_name (sg_nodes g)"
    "map (\<lambda>e. (sn_name (sg_nodes g' ! se_from_index e), sn_name (sg_nodes g' ! se_to_index e))) (sg_edges g') =
      map (\<lambda>e. (sn_name (sg_nodes g ! se_from_index e), sn_name (sg_nodes g ! se_to_index e))) (sg_edges g)"
    using same by (simp_all add: snapshot_topology_def)
  have "channel_matches J (jl_array_get J cw i) (sg_channels g' ! i)" if i: "i < length (sg_channels g')" for i
  proof -
    have "\<exists>v0 v. jl_array_get J cw i = Some v \<and> members J (channel_text J (sg_channels g ! i)) v0 \<and> E v0 v"
      using conjunct2 [OF conjunct2 [OF c]] i len(1) by simp
    then obtain v0 v where v: "jl_array_get J cw i = Some v" "members J (channel_text J (sg_channels g ! i)) v0" "E v0 v"
      by (elim exE conjE)
    show ?thesis unfolding v(1)
      by (rule channel_back [OF J(1,2) v(2,3) J(3)]) (use arg_cong [OF names(1), of "\<lambda>l. l ! i"] i len(1) in simp_all)
  qed
  moreover have "node_matches J (jl_array_get J nw i) (sg_nodes g' ! i)" if i: "i < length (sg_nodes g')" for i
  proof -
    have "\<exists>v. jl_array_get J nw i = Some v \<and> E (jl_string_of J (sn_name (sg_nodes g ! i))) v"
      using conjunct2 [OF conjunct2 [OF n]] i len(2) by simp
    then obtain v where v: "jl_array_get J nw i = Some v" "E (jl_string_of J (sn_name (sg_nodes g ! i))) v"
      by (elim exE conjE)
    show ?thesis using v text_equiv(1,2) [OF J(2) v(2)] json_str [OF J(1)] arg_cong [OF names(2), of "\<lambda>l. l ! i"] i len(2)
      by (simp add: node_matches_def turbo_runtime_json_value_as_string_def)
  qed
  moreover have "edge_matches J g' (jl_array_get J ew i) (sg_edges g' ! i)" if i: "i < length (sg_edges g')" for i
  proof -
    have "\<exists>v0 v. jl_array_get J ew i = Some v \<and> members J (edge_text J g (sg_edges g ! i)) v0 \<and> E v0 v"
      using conjunct2 [OF conjunct2 [OF e]] i len(3) by simp
    then obtain v0 v where v: "jl_array_get J ew i = Some v" "members J (edge_text J g (sg_edges g ! i)) v0" "E v0 v"
      by (elim exE conjE)
    show ?thesis unfolding v(1)
      by (rule edge_back [OF J(1,2) v(2,3)]) (use arg_cong [OF names(3), of "\<lambda>l. l ! i"] i len(3) in simp_all)
  qed
  ultimately show ?thesis using c n e len
    by (simp add: turbo_state_graph_validate_topology_snapshot_def w)
qed


subsection \<open>The round trip\<close>

text \<open>What a written snapshot holds.\<close>

lemma serialize_parts:
  assumes J: "json_laws J" and ser: "turbo_state_graph_serialize_snapshot J g a = (Some json, a')"
  obtains root topology runtime threads runs history s1 s2 s3 s4 b1 b2 b3 b4 b5 b6 b7 b8 where
    "json = jl_serialize J root"
    "members J [(''snapshot_version'', jl_int64_of J TURBO_STATE_GRAPH_SNAPSHOT_SCHEMA_VERSION), (''topology'', topology),
       (''runtime'', runtime)] root"
    "turbo_state_graph_topology_snapshot J g b1 = (s1, Some topology, b2)"
    "members J [(''next_thread_id'', jl_int64_of J (int64_of_size (sg_next_thread_id g))),
       (''next_run_id'', jl_int64_of J (int64_of_size (sg_next_run_id g))),
       (''next_history_id'', jl_int64_of J (int64_of_size (sg_next_history_id g))),
       (''next_checkpoint_id'', jl_int64_of J (int64_of_size (sg_next_checkpoint_id g))),
       (''threads'', threads), (''runs'', runs), (''history'', history)] runtime"
    "fill_array J (thread_snapshot J g) (sg_threads g) (jl_array J) b3 = (s2, Some threads, b4)"
    "fill_array J (turbo_state_graph_run_object J) (sg_runs g) (jl_array J) b5 = (s3, Some runs, b6)"
    "fill_array J (turbo_state_graph_history_object J) (sg_history g) (jl_array J) b7 = (s4, Some history, b8)"
proof -
  obtain root0 topology threads runs history s1 s2 s3 s4 b1 b2 b3 b4 b5 b6 b7 b8 c1 c2 c3 where
    p: "turbo_state_graph_topology_snapshot J g b1 = (s1, Some topology, b2)"
    "fill_array J (thread_snapshot J g) (sg_threads g) (jl_array J) b3 = (s2, Some threads, b4)"
    "fill_array J (turbo_state_graph_run_object J) (sg_runs g) (jl_array J) b5 = (s3, Some runs, b6)"
    "fill_array J (turbo_state_graph_history_object J) (sg_history g) (jl_array J) b7 = (s4, Some history, b8)"
    and r0: "set_fields [f_int64 J ''snapshot_version'' TURBO_STATE_GRAPH_SNAPSHOT_SCHEMA_VERSION,
       f_value J ''topology'' topology] (jl_object J) c1 = (Some root0, c2)"
    and fin: "serialize_runtime J g root0 threads runs history c3 = (Some json, a')"
    using ser unfolding turbo_state_graph_serialize_snapshot_def
    by (auto simp del: set_fields.simps split: prod.splits if_splits option.splits)
  obtain runtime root c4 c5 where rt: "set_fields
      [f_int64 J ''next_thread_id'' (int64_of_size (sg_next_thread_id g)),
       f_int64 J ''next_run_id'' (int64_of_size (sg_next_run_id g)),
       f_int64 J ''next_history_id'' (int64_of_size (sg_next_history_id g)),
       f_int64 J ''next_checkpoint_id'' (int64_of_size (sg_next_checkpoint_id g)),
       f_value J ''threads'' threads, f_value J ''runs'' runs, f_value J ''history'' history] (jl_object J) c3 = (Some runtime, c4)"
    and root: "f_value J ''runtime'' runtime root0 c4 = (True, root, c5)" and json: "json = jl_serialize J root"
    using fin unfolding serialize_runtime_def
    by (auto simp: json_create_def Let_def simp del: set_fields.simps split: prod.splits if_splits option.splits)
  have m0: "members J [(''snapshot_version'', jl_int64_of J TURBO_STATE_GRAPH_SNAPSHOT_SCHEMA_VERSION), (''topology'', topology)] root0"
    using set_fields_members [OF J _ _ json_obj(1) [OF J] r0, of "[(''snapshot_version'', jl_int64_of J
      TURBO_STATE_GRAPH_SNAPSHOT_SCHEMA_VERSION), (''topology'', topology)]"] by (simp add: adds_settings)
  then have "root = jl_object_add J root0 ''runtime'' runtime"
    using root adds_settings(4) [of J "''runtime''" runtime] by (auto simp: adds_def members_def)
  then have "members J [(''snapshot_version'', jl_int64_of J TURBO_STATE_GRAPH_SNAPSHOT_SCHEMA_VERSION), (''topology'', topology),
       (''runtime'', runtime)] root"
    using m0 json_obj(3,4) [OF J] by (auto simp: members_def split: if_splits)
  moreover have "members J [(''next_thread_id'', jl_int64_of J (int64_of_size (sg_next_thread_id g))),
       (''next_run_id'', jl_int64_of J (int64_of_size (sg_next_run_id g))),
       (''next_history_id'', jl_int64_of J (int64_of_size (sg_next_history_id g))),
       (''next_checkpoint_id'', jl_int64_of J (int64_of_size (sg_next_checkpoint_id g))),
       (''threads'', threads), (''runs'', runs), (''history'', history)] runtime"
    by (rule conjunct1 [OF set_fields_members [OF J _ _ json_obj(1) [OF J] rt]]) (simp_all add: adds_settings)
  ultimately show thesis using that [OF json _ p(1) _ p(2-4)] by blast
qed

text \<open>Importing what was read back.\<close>

lemma imports_back:
  assumes J: "json_laws J" "json_text_laws J E"
    and flags: "\<forall>r \<in> set (sg_runs g). \<not> (re_interrupted r \<and> re_completed r)"
    and ts: "fill_array J (thread_snapshot J g) (sg_threads g) (jl_array J) b3 = (s2, Some threads, b4)" "E threads tw"
    and rs: "fill_array J (turbo_state_graph_run_object J) (sg_runs g) (jl_array J) b5 = (s3, Some runs, b6)" "E runs rw"
    and hs: "fill_array J (turbo_state_graph_history_object J) (sg_history g) (jl_array J) b7 = (s4, Some history, b8)" "E history hw"
    and load: "load_imports J tw rw hw h a = (s, h', a')"
  shows "(s = TURBO_STATE_GRAPH_OUT_OF_MEMORY \<and> a \<noteq> []) \<or>
    (s = TURBO_STATE_GRAPH_OK \<and> (\<exists>ct cr ch rs' hs'. list_all2 (run_equiv E) (sg_runs g) rs' \<and>
      list_all2 (history_equiv E) (sg_history g) hs' \<and>
      h' = h\<lparr>sg_thread_capacity := ct, sg_threads := sg_threads h @ sg_threads g, sg_run_capacity := cr,
        sg_runs := sg_runs h @ rs', sg_history_capacity := ch, sg_history := sg_history h @ hs'\<rparr>))"
proof -
  have mk: "makes (thread_snapshot J g) (\<lambda>t. members J (thread_members J t))"
    "makes (turbo_state_graph_run_object J) (\<lambda>r. members J (run_members J r))"
    "makes (turbo_state_graph_history_object J) (\<lambda>h. members J (history_members J h))"
    by (simp_all add: makes_def thread_snapshot_members [OF J(1)] run_object_members [OF J(1)] history_object_members [OF J(1)])
  note t = array_back [OF J ts(1) mk(1) ts(2)] and r = array_back [OF J rs(1) mk(2) rs(2)] and h = array_back [OF J hs(1) mk(3) hs(2)]
  obtain tv where tv: "json_elements J tw = map Some tv" "list_all2 (text_of J E (thread_members J)) (sg_threads g) tv"
    using t(2) J by (auto simp: text_of_def [abs_def])
  obtain rv where rv: "json_elements J rw = map Some rv" "list_all2 (run_text J E) (sg_runs g) rv"
    using r(2) J flags by (auto simp: run_text_def text_of_def list_all2_conv_all_nth)
  obtain hv where hv: "json_elements J hw = map Some hv" "list_all2 (text_of J E (history_members J)) (sg_history g) hv"
    using h(2) J by (auto simp: text_of_def [abs_def])
  obtain st ht at where ti: "import_threads_loop J (map Some tv) h a = (st, ht, at)" by (metis prod_cases3)
  obtain sr hr ar where ri: "import_runs_loop J (map Some rv) ht at = (sr, hr, ar)" by (metis prod_cases3)
  obtain sh hh ah where hi: "import_history_loop J (map Some hv) hr ar = (sh, hh, ah)" by (metis prod_cases3)
  have eval: "load_imports J tw rw hw h a = (if st \<noteq> TURBO_STATE_GRAPH_OK then (st, ht, at)
      else if sr \<noteq> TURBO_STATE_GRAPH_OK then (sr, hr, ar) else (sh, hh, ah))"
    by (simp add: load_imports_def turbo_state_graph_import_threads_def turbo_state_graph_import_runs_def
        turbo_state_graph_import_history_def t(1) r(1) h(1) tv(1) rv(1) hv(1) ti ri hi)
  note t' = threads.import_back [OF tv(2) ti] and r' = runs.import_back [OF rv(2) ri] and h' = history.import_back [OF hv(2) hi]
  show ?thesis
  proof (cases "st = TURBO_STATE_GRAPH_OK \<and> sr = TURBO_STATE_GRAPH_OK \<and> sh = TURBO_STATE_GRAPH_OK")
    case True
    then have "s = TURBO_STATE_GRAPH_OK" "h' = hh" using load eval by simp_all
    moreover obtain ct where "ht = h\<lparr>sg_thread_capacity := ct, sg_threads := sg_threads h @ sg_threads g\<rparr>"
      using t' True by (auto simp: list.rel_eq)
    moreover obtain cr rs' where "list_all2 (run_equiv E) (sg_runs g) rs'" "hr = ht\<lparr>sg_run_capacity := cr, sg_runs := sg_runs ht @ rs'\<rparr>"
      using r' True by auto
    moreover obtain ch hs' where "list_all2 (history_equiv E) (sg_history g) hs'"
      "hh = hr\<lparr>sg_history_capacity := ch, sg_history := sg_history hr @ hs'\<rparr>" using h' True by auto
    ultimately show ?thesis
      by - (intro disjI2 conjI, assumption, rule exI [of _ ct], rule exI [of _ cr], rule exI [of _ ch],
        rule exI [of _ rs'], rule exI [of _ hs'], simp)
  next
    case False
    then have "s = TURBO_STATE_GRAPH_OUT_OF_MEMORY \<and> a \<noteq> []" using load eval t' r' h' by auto
    then show ?thesis by blast
  qed
qed

text \<open>What loading restores.\<close>

definition restored :: "('j \<Rightarrow> 'j \<Rightarrow> bool) \<Rightarrow> ('j, 'u) turbo_state_graph \<Rightarrow> ('j, 'v) turbo_state_graph \<Rightarrow> bool" where
  "restored E g g' \<longleftrightarrow>
     sg_threads g' = sg_threads g \<and> list_all2 (run_equiv E) (sg_runs g) (sg_runs g') \<and>
     list_all2 (history_equiv E) (sg_history g) (sg_history g') \<and>
     sg_next_thread_id g' = sg_next_thread_id g \<and> sg_next_run_id g' = sg_next_run_id g \<and>
     sg_next_history_id g' = sg_next_history_id g \<and> sg_next_checkpoint_id g' = sg_next_checkpoint_id g"

definition loadable :: "('j, 'd) json_lib \<Rightarrow> ('j \<Rightarrow> 'j \<Rightarrow> bool) \<Rightarrow> ('j, 'u) turbo_state_graph \<Rightarrow> bool" where
  "loadable J E g \<longleftrightarrow> json_laws J \<and> json_text_laws J E \<and> json_code_laws J \<and>
     (\<forall>r \<in> set (sg_runs g). \<not> (re_interrupted r \<and> re_completed r))"

lemma load_written:
  assumes "loadable J E g"
    and "turbo_state_graph_serialize_snapshot J g a = (Some json, a1)"
    and "snapshot_topology g' = snapshot_topology g"
    and "turbo_state_graph_load_snapshot J (Some json) g' a2 = (s, g'', a3)"
  shows "(s = TURBO_STATE_GRAPH_OUT_OF_MEMORY \<and> a2 \<noteq> []) \<or>
    (s = TURBO_STATE_GRAPH_OK \<and> state_graph_structure g'' = state_graph_structure g' \<and> restored E g g'')"
proof -
  have J: "json_laws J" "json_text_laws J E" and code: "json_code_laws J"
    and flags: "\<forall>r \<in> set (sg_runs g). \<not> (re_interrupted r \<and> re_completed r)" using assms(1) by (auto simp: loadable_def)
  obtain root topology runtime threads runs history s1 s2 s3 s4 b1 b2 b3 b4 b5 b6 b7 b8 where
    json: "json = jl_serialize J root"
    and root: "members J [(''snapshot_version'', jl_int64_of J TURBO_STATE_GRAPH_SNAPSHOT_SCHEMA_VERSION),
      (''topology'', topology), (''runtime'', runtime)] root"
    and topology: "turbo_state_graph_topology_snapshot J g b1 = (s1, Some topology, b2)"
    and runtime: "members J [(''next_thread_id'', jl_int64_of J (int64_of_size (sg_next_thread_id g))),
       (''next_run_id'', jl_int64_of J (int64_of_size (sg_next_run_id g))),
       (''next_history_id'', jl_int64_of J (int64_of_size (sg_next_history_id g))),
       (''next_checkpoint_id'', jl_int64_of J (int64_of_size (sg_next_checkpoint_id g))),
       (''threads'', threads), (''runs'', runs), (''history'', history)] runtime"
    and ts: "fill_array J (thread_snapshot J g) (sg_threads g) (jl_array J) b3 = (s2, Some threads, b4)"
    and rs: "fill_array J (turbo_state_graph_run_object J) (sg_runs g) (jl_array J) b5 = (s3, Some runs, b6)"
    and hs: "fill_array J (turbo_state_graph_history_object J) (sg_history g) (jl_array J) b7 = (s4, Some history, b8)"
    by (rule serialize_parts [OF J(1) assms(2)])
  obtain w where w: "jl_parse J json = Some w" "E root w" using J(2) unfolding json json_text_laws_def by blast
  have version: "get_int J (Some w) ''snapshot_version'' 0 = TURBO_STATE_GRAPH_SNAPSHOT_SCHEMA_VERSION"
    by (rule get_back(3) [OF J root w(2)]) (simp_all add: TURBO_STATE_GRAPH_SNAPSHOT_SCHEMA_VERSION_def INT64_MIN_def INT64_MAX_def)
  have "\<exists>y. json_get J (Some w) ''topology'' = Some y \<and> E topology y" "\<exists>y. json_get J (Some w) ''runtime'' = Some y \<and> E runtime y"
    by (rule get_back(4) [OF J root w(2)], simp)+
  then obtain tw rw where tw: "jl_object_get J w ''topology'' = Some tw" "E topology tw"
    and rw: "jl_object_get J w ''runtime'' = Some rw" "E runtime rw" by (auto simp: json_get_def)
  note valid = topology_back [OF J code topology tw(2) assms(3)]
  note g = get_back [OF J runtime rw(2)]
  have "\<exists>y. json_get J (Some rw) ''threads'' = Some y \<and> E threads y" "\<exists>y. json_get J (Some rw) ''runs'' = Some y \<and> E runs y"
    "\<exists>y. json_get J (Some rw) ''history'' = Some y \<and> E history y" by (rule g(4), simp)+
  then obtain thw ruw hiw where arrays: "jl_object_get J rw ''threads'' = Some thw" "jl_object_get J rw ''runs'' = Some ruw"
    "jl_object_get J rw ''history'' = Some hiw" and eq: "E threads thw" "E runs ruw" "E history hiw"
    by (auto simp: json_get_def)
  have next_: "of_int (get_int J (Some rw) ''next_thread_id'' 0) = sg_next_thread_id g"
    "of_int (get_int J (Some rw) ''next_run_id'' 0) = sg_next_run_id g"
    "of_int (get_int J (Some rw) ''next_history_id'' 0) = sg_next_history_id g"
    "of_int (get_int J (Some rw) ''next_checkpoint_id'' 0) = sg_next_checkpoint_id g"
    by (simp_all add: g(3) size_back)
  obtain ok b where al: "alloc1 a2 = (ok, b)" by fastforce
  obtain sl gl bl where load: "load_imports J thw ruw hiw (load_counters J rw (turbo_state_graph_clear_runtime_state g')) b = (sl, gl, bl)"
    by (metis prod_cases3)
  have res: "(s, g'', a3) = (if \<not> ok then (TURBO_STATE_GRAPH_OUT_OF_MEMORY, g', b)
      else if sl \<noteq> TURBO_STATE_GRAPH_OK then (sl, turbo_state_graph_clear_runtime_state gl, bl) else (TURBO_STATE_GRAPH_OK, gl, bl))"
    using assms(4) by (auto simp: turbo_state_graph_load_snapshot_def w(1) json_create_def al tw(1) rw(1) version valid arrays load)
  have "b = [] \<and> ok" if "a2 = []" using al that by simp
  then show ?thesis
    using res imports_back [OF J flags ts eq(1) rs eq(2) hs eq(3) load]
    by (auto simp: restored_def load_counters_def turbo_state_graph_clear_runtime_state_def state_graph_structure_def next_ split: if_splits)
qed


text \<open>C3. Loading the snapshot of a state graph into a graph of the same channels, nodes and edges restores it: the same
  threads, counters, runs and history, in order and field by field, with states and updates equivalent to those
  written. It can only fail by running out of memory, which does not happen when every allocation succeeds; the
  structure of the loading graph is kept.\<close>

theorem snapshot_roundtrip:
  assumes "json_laws J" and "json_text_laws J E" and "json_code_laws J"
    and "\<forall>r \<in> set (sg_runs g). \<not> (re_interrupted r \<and> re_completed r)"
    and "turbo_state_graph_serialize_snapshot J g a = (Some json, a1)"
    and "snapshot_topology g' = snapshot_topology g"
    and "turbo_state_graph_load_snapshot J (Some json) g' a2 = (s, g'', a3)"
  shows "(s = TURBO_STATE_GRAPH_OUT_OF_MEMORY \<and> a2 \<noteq> []) \<or>
    (s = TURBO_STATE_GRAPH_OK \<and> state_graph_structure g'' = state_graph_structure g' \<and>
     sg_threads g'' = sg_threads g \<and> list_all2 (run_equiv E) (sg_runs g) (sg_runs g'') \<and>
     list_all2 (history_equiv E) (sg_history g) (sg_history g'') \<and>
     sg_next_thread_id g'' = sg_next_thread_id g \<and> sg_next_run_id g'' = sg_next_run_id g \<and>
     sg_next_history_id g'' = sg_next_history_id g \<and> sg_next_checkpoint_id g'' = sg_next_checkpoint_id g)"
  using load_written [of J E g a json a1 g' a2 s g'' a3] assms by (auto simp: loadable_def restored_def)

definition work_json :: string where
  "work_json = the (fst (turbo_state_graph_serialize_snapshot ref_json (sk_graph work_run) []))"

lemma work_json_written: "\<exists>a. turbo_state_graph_serialize_snapshot ref_json (sk_graph work_run) [] = (Some work_json, a)"
proof -
  have "fst (turbo_state_graph_serialize_snapshot ref_json (sk_graph work_run) []) \<noteq> None" by code_simp
  then show ?thesis unfolding work_json_def by (metis option.collapse prod.collapse)
qed

lemma snapshot_roundtrip_witness:
  "\<exists>g a. turbo_state_graph_load_snapshot ref_json (Some work_json) work_graph [] = (TURBO_STATE_GRAPH_OK, g, a) \<and>
     sg_threads g = sg_threads (sk_graph work_run) \<and> sg_next_run_id g = sg_next_run_id (sk_graph work_run)"
proof -
  obtain a where ser: "turbo_state_graph_serialize_snapshot ref_json (sk_graph work_run) [] = (Some work_json, a)"
    using work_json_written by blast
  obtain s g a' where load: "turbo_state_graph_load_snapshot ref_json (Some work_json) work_graph [] = (s, g, a')" by (metis prod_cases3)
  have "json_code_laws ref_json"
    unfolding json_code_laws_def
  proof
    fix t show "INT64_MIN \<le> jl_type_code ref_json t \<and> jl_type_code ref_json t \<le> INT64_MAX"
      by (cases t) (simp_all add: ref_json_def INT64_MIN_def INT64_MAX_def)
  qed
  moreover have "\<forall>r \<in> set (sg_runs (sk_graph work_run)). \<not> (re_interrupted r \<and> re_completed r)" by code_simp
  moreover have "snapshot_topology work_graph = snapshot_topology (sk_graph work_run)" by code_simp
  ultimately show ?thesis using snapshot_roundtrip [OF ref_json_laws ref_text_laws _ _ ser _ load] load by auto
qed

subsection \<open>Loading that fails\<close>

lemma clear_fields [simp]:
  "turbo_state_graph_clear_runtime_state (g\<lparr>sg_thread_capacity := c\<rparr>) = turbo_state_graph_clear_runtime_state g"
  "turbo_state_graph_clear_runtime_state (g\<lparr>sg_run_capacity := c\<rparr>) = turbo_state_graph_clear_runtime_state g"
  "turbo_state_graph_clear_runtime_state (g\<lparr>sg_history_capacity := c\<rparr>) = turbo_state_graph_clear_runtime_state g"
  "turbo_state_graph_clear_runtime_state (g\<lparr>sg_threads := ts\<rparr>) = turbo_state_graph_clear_runtime_state g"
  "turbo_state_graph_clear_runtime_state (g\<lparr>sg_runs := rs\<rparr>) = turbo_state_graph_clear_runtime_state g"
  "turbo_state_graph_clear_runtime_state (g\<lparr>sg_history := hs\<rparr>) = turbo_state_graph_clear_runtime_state g"
  "turbo_state_graph_clear_runtime_state (load_counters J r g) = turbo_state_graph_clear_runtime_state g"
  "turbo_state_graph_clear_runtime_state (turbo_state_graph_clear_runtime_state g) = turbo_state_graph_clear_runtime_state g"
  by (simp_all add: turbo_state_graph_clear_runtime_state_def load_counters_def)

definition clears where
  "clears g r \<longleftrightarrow> turbo_state_graph_clear_runtime_state (fst (snd r)) = turbo_state_graph_clear_runtime_state g"

lemma clears_triple [simp]:
  "clears g (s, g', a) \<longleftrightarrow> turbo_state_graph_clear_runtime_state g' = turbo_state_graph_clear_runtime_state g"
  by (simp add: clears_def)

lemma clears_trans:
  "clears g' r \<Longrightarrow> turbo_state_graph_clear_runtime_state g' = turbo_state_graph_clear_runtime_state g \<Longrightarrow> clears g r"
  by (simp add: clears_def)

lemma import_threads_clear: "clears g (import_threads_loop J vs g a)"
proof (induction vs arbitrary: g a)
  case (Cons v vs)
  show ?case by (auto simp: Let_def intro!: clears_trans [OF Cons.IH] split: prod.split option.split)
qed simp

lemma import_runs_clear: "clears g (import_runs_loop J vs g a)"
proof (induction vs arbitrary: g a)
  case (Cons v vs)
  show ?case by (auto simp: Let_def intro!: clears_trans [OF Cons.IH] split: prod.split option.split)
qed simp

lemma import_history_clear: "clears g (import_history_loop J vs g a)"
proof (induction vs arbitrary: g a)
  case (Cons v vs)
  show ?case by (auto simp: Let_def intro!: clears_trans [OF Cons.IH] split: prod.split option.split)
qed simp

lemma load_imports_clear: "clears g (load_imports J ts rs hs g a)"
proof -
  note t = import_threads_clear [of _ J] and r = import_runs_clear [of _ J] and h = import_history_clear [of _ J]
  obtain s1 g1 a1 where 1: "turbo_state_graph_import_threads J ts g a = (s1, g1, a1)" by (metis prod_cases3)
  obtain s2 g2 a2 where 2: "turbo_state_graph_import_runs J rs g1 a1 = (s2, g2, a2)" by (metis prod_cases3)
  have c1: "turbo_state_graph_clear_runtime_state g1 = turbo_state_graph_clear_runtime_state g"
    using 1 t [of g "json_elements J ts" a] by (auto simp: turbo_state_graph_import_threads_def split: if_splits)
  have c2: "turbo_state_graph_clear_runtime_state g2 = turbo_state_graph_clear_runtime_state g1"
    using 2 r [of g1 "json_elements J rs" a1] by (auto simp: turbo_state_graph_import_runs_def split: if_splits)
  have "clears g2 (turbo_state_graph_import_history J hs g2 a2)"
    using h [of g2 "json_elements J hs" a2] by (simp add: turbo_state_graph_import_history_def)
  then show ?thesis using c1 c2 by (simp add: load_imports_def 1 2 clears_trans [of g2])
qed

text \<open>C22. Loading a snapshot is all or nothing up to the records: when it does not return OK the graph is either exactly
  what it was, or the same graph with no threads, runs and history and all counters zero; part of a snapshot never
  stays. Channels, nodes, edges and the entry are kept in every case.\<close>

theorem load_snapshot_failed:
  assumes "turbo_state_graph_load_snapshot J json g a = (s, g', a')" and "s \<noteq> TURBO_STATE_GRAPH_OK"
  shows "g' = g \<or> g' = turbo_state_graph_clear_runtime_state g"
proof -
  have clear: "turbo_state_graph_clear_runtime_state gl = turbo_state_graph_clear_runtime_state g"
    if "load_imports J ts rs hs (load_counters J r (turbo_state_graph_clear_runtime_state g)) b = (sl, gl, bl)" for ts rs hs r b sl gl bl
    using that load_imports_clear [of "load_counters J r (turbo_state_graph_clear_runtime_state g)" J ts rs hs b] by simp
  show ?thesis using assms
    by (auto simp: turbo_state_graph_load_snapshot_def Let_def dest!: clear split: option.splits prod.splits if_splits)
qed

lemma load_snapshot_failed_witness:
  "fst (snd (turbo_state_graph_load_snapshot ref_json (Some ''x'') (sk_graph work_run) [])) = sk_graph work_run \<or>
   fst (snd (turbo_state_graph_load_snapshot ref_json (Some ''x'') (sk_graph work_run) [])) =
     turbo_state_graph_clear_runtime_state (sk_graph work_run)"
proof -
  obtain s g a where load: "turbo_state_graph_load_snapshot ref_json (Some ''x'') (sk_graph work_run) [] = (s, g, a)"
    by (metis prod_cases3)
  have "fst (turbo_state_graph_load_snapshot ref_json (Some ''x'') (sk_graph work_run) []) = TURBO_STATE_GRAPH_ERROR" by code_simp
  then show ?thesis using load_snapshot_failed [OF load] load by simp
qed

end
