(* ===== verification/Store_Contract.thy ===== *)
theory Store_Contract
  imports Snapshot_Store State_Graph_Roundtrip
begin

section \<open>The state graph store: what both stores promise\<close>

text \<open>
  The contract of a store as the locale \<open>snapshot_store\<close>: it implements a finite map from ids to texts. The store in
  memory and the store in files are interpretations of it. What its clients rely on (saving and loading a graph) is
  proved once from the contract.
\<close>

subsection \<open>Hexadecimal names\<close>

definition hex_text :: "string \<Rightarrow> string" where
  "hex_text t = concat (map (\<lambda>ch. [turbo_state_graph_store_hex_digit (of_char ch div 16),
     turbo_state_graph_store_hex_digit (of_char ch mod 16)]) t)"

lemma hex_value_digit: "n < 16 \<Longrightarrow> turbo_state_graph_store_hex_value (turbo_state_graph_store_hex_digit n) = int n"
proof -
  have of_int: "(of_char (char_of m :: char) :: int) = int m" if "m < 256" for m :: nat
    by (metis that of_char_of of_nat_of_char mod_less)
  show "n < 16 \<Longrightarrow> ?thesis"
    by (auto simp: turbo_state_graph_store_hex_value_def turbo_state_graph_store_hex_digit_def of_int)
qed

lemma char_halves: "char_of (nat (int (of_char c div 16) * 16 + int (of_char c mod 16))) = (c :: char)"
proof -
  have "nat (int (of_char c div 16) * 16 + int (of_char c mod 16)) = (of_char c :: nat)"
    by (metis div_mult_mod_eq nat_int of_nat_add of_nat_mult of_nat_numeral)
  then show ?thesis by simp
qed

lemma hex_pairs_text: "hex_pairs (hex_text t) = Some t"
proof (induction t)
  case (Cons c t)
  have "(of_char c :: nat) div 16 < 16" "(of_char c :: nat) mod 16 < 16" by (simp_all add: less_mult_imp_div_less)
  then show ?case using Cons char_halves [of c] by (simp add: hex_text_def hex_value_digit Let_def)
qed (simp add: hex_text_def)

lemma length_hex_text [simp]: "length (hex_text t) = 2 * length t"
  by (induction t) (simp_all add: hex_text_def)

lemma hex_text_inj: "hex_text t = hex_text t' \<longleftrightarrow> t = t'"
  using hex_pairs_text by (metis option.inject)

definition no_zero :: "string \<Rightarrow> bool" where
  "no_zero t \<longleftrightarrow> char_of (0 :: nat) \<notin> set t"

lemma c_string_same: "no_zero t \<Longrightarrow> c_string t = t"
  by (auto simp: c_string_def no_zero_def takeWhile_eq_all_conv)

text \<open>The hexadecimal file name of a snapshot id decodes to that id again, for every id the C code can hold (one
  without zero bytes), whenever both allocations succeed; different ids have different names.\<close>

lemma hex_name_roundtrip:
  assumes "no_zero t" and "turbo_state_graph_store_hex_encode t a = (Some e, a1)"
    and "turbo_state_graph_store_hex_decode e a2 = (r, a3)"
  shows "(r = Some t \<or> (r = None \<and> a2 \<noteq> [])) \<and>
    (\<forall>t' b b'. turbo_state_graph_store_hex_encode t' b = (Some e, b') \<longrightarrow> t' = t)"
proof -
  have e: "e = hex_text t" using assms(2) by (auto simp: turbo_state_graph_store_hex_encode_def hex_text_def Let_def split: prod.splits if_splits)
  have "r = Some t \<or> (r = None \<and> a2 \<noteq> [])"
    using assms(1,3) by (auto simp: e turbo_state_graph_store_hex_decode_def Let_def hex_pairs_text c_string_same split: prod.splits if_splits)
  moreover have "t' = t" if "turbo_state_graph_store_hex_encode t' b = (Some e, b')" for t' b b'
    using that e hex_text_inj by (auto simp: turbo_state_graph_store_hex_encode_def hex_text_def Let_def split: prod.splits if_splits)
  ultimately show ?thesis by blast
qed

lemma hex_name_roundtrip_witness:
  "turbo_state_graph_store_hex_encode ''A/z'' [] = (Some ''412f7a'', []) \<and>
   turbo_state_graph_store_hex_decode ''412f7a'' [] = (Some ''A/z'', [])"
proof -
  have e: "turbo_state_graph_store_hex_encode ''A/z'' [] = (Some ''412f7a'', [])" by code_simp
  have "no_zero ''A/z''" by code_simp
  then show ?thesis using hex_name_roundtrip [OF _ e, of "[]"] e
    by (auto simp: turbo_state_graph_store_hex_decode_def)
qed

subsection \<open>The contract\<close>

definition ids_json :: "('j, 'd) json_lib \<Rightarrow> string list \<Rightarrow> 'j" where
  "ids_json J ids = foldl (jl_array_add J) (jl_array J) (map (jl_string_of J) ids)"

locale snapshot_store =
  fixes J :: "('j, 'd) json_lib"
    and load :: "string \<Rightarrow> 's \<Rightarrow> alloc \<Rightarrow> int \<times> cstr \<times> alloc"
    and save :: "string \<Rightarrow> string \<Rightarrow> 's \<Rightarrow> alloc \<Rightarrow> int \<times> 's \<times> alloc"
    and lister :: "'s \<Rightarrow> alloc \<Rightarrow> int \<times> cstr \<times> alloc"
    and remove :: "string \<Rightarrow> 's \<Rightarrow> alloc \<Rightarrow> int \<times> 's \<times> alloc"
    and inv :: "'s \<Rightarrow> bool"
    and abs :: "'s \<Rightarrow> string \<Rightarrow> cstr"
    and ok_id :: "string \<Rightarrow> bool"
  assumes load_law: "inv s \<Longrightarrow> ok_id i \<Longrightarrow> load i s a = (rc, out, a') \<Longrightarrow>
      (a = [] \<longrightarrow> a' = []) \<and> ((rc = 0 \<and> out \<noteq> None \<and> out = abs s i) \<or> (rc \<noteq> 0 \<and> out = None \<and> (abs s i = None \<or> a \<noteq> [])))"
    and save_law: "inv s \<Longrightarrow> ok_id i \<Longrightarrow> save i t s a = (rc, s', a') \<Longrightarrow>
      inv s' \<and> (a = [] \<longrightarrow> a' = []) \<and> (\<forall>k. k \<noteq> i \<longrightarrow> abs s' k = abs s k) \<and>
      ((rc = 0 \<and> abs s' i = Some t) \<or> (rc \<noteq> 0 \<and> a \<noteq> [] \<and> (abs s' i = abs s i \<or> (\<exists>n. abs s' i = Some (take n t)))))"
    and remove_law: "inv s \<Longrightarrow> ok_id i \<Longrightarrow> remove i s a = (rc, s', a') \<Longrightarrow>
      inv s' \<and> (a = [] \<longrightarrow> a' = []) \<and> ((rc = 0 \<and> abs s i \<noteq> None \<and> abs s' = (abs s)(i := None)) \<or> (rc \<noteq> 0 \<and> s' = s \<and> (abs s i = None \<or> a \<noteq> [])))"
    and list_law: "inv s \<Longrightarrow> lister s a = (rc, out, a') \<Longrightarrow>
      (a = [] \<longrightarrow> a' = []) \<and> ((rc = 0 \<and> (\<exists>ids. distinct ids \<and> set ids = dom (abs s) \<and> out = Some (jl_serialize J (ids_json J ids)))) \<or>
      (rc \<noteq> 0 \<and> out = None \<and> a \<noteq> []))"
    and stored_ok: "inv s \<Longrightarrow> abs s i \<noteq> None \<Longrightarrow> ok_id i"

text \<open>A store whose save does all or nothing.\<close>

locale atomic_snapshot_store = snapshot_store +
  assumes save_atomic: "inv s \<Longrightarrow> ok_id i \<Longrightarrow> save i t s a = (rc, s', a') \<Longrightarrow> rc \<noteq> 0 \<Longrightarrow> s' = s"


subsection \<open>The store in memory keeps the contract\<close>

definition memory_inv :: "turbo_state_graph_store_memory_backend \<Rightarrow> bool" where
  "memory_inv records \<longleftrightarrow> distinct (map mr_snapshot_id records)"

definition memory_abs :: "turbo_state_graph_store_memory_backend \<Rightarrow> string \<Rightarrow> cstr" where
  "memory_abs records i = map_of (map (\<lambda>r. (mr_snapshot_id r, mr_snapshot_json r)) records) i"

lemma memory_find_abs: "map_option mr_snapshot_json (turbo_state_graph_store_memory_find records i) = memory_abs records i"
  by (induction records) (auto simp: memory_abs_def)

lemma memory_find_None: "turbo_state_graph_store_memory_find records i = None \<longleftrightarrow> i \<notin> mr_snapshot_id ` set records"
  by (induction records) auto

lemma memory_replace_ids: "map mr_snapshot_id (memory_replace records i t) = map mr_snapshot_id records"
  by (induction records) auto

lemma memory_replace_abs:
  "i \<in> mr_snapshot_id ` set records \<Longrightarrow> memory_abs (memory_replace records i t) = (memory_abs records)(i \<mapsto> t)"
  by (induction records) (auto simp: memory_abs_def fun_eq_iff)

lemma memory_dom: "dom (memory_abs records) = mr_snapshot_id ` set records"
  by (induction records) (auto simp: memory_abs_def dom_def)

lemma memory_delete_result:
  "turbo_state_graph_store_memory_delete i records a = (rc, records', a') \<Longrightarrow> distinct (map mr_snapshot_id records) \<Longrightarrow>
    a' = a \<and> set records' \<subseteq> set records \<and> distinct (map mr_snapshot_id records') \<and>
    ((rc = 0 \<and> i \<in> mr_snapshot_id ` set records \<and> memory_abs records' = (memory_abs records)(i := None)) \<or>
     (rc \<noteq> 0 \<and> i \<notin> mr_snapshot_id ` set records \<and> records' = records))"
proof (induction records arbitrary: records')
  case (Cons r records)
  show ?case
  proof (cases "mr_snapshot_id r = i")
    case True
    then have "rc = 0" "records' = records" "a' = a" using Cons.prems(1) by simp_all
    moreover have "memory_abs records i = None" using True Cons.prems(2) memory_dom [of records] by force
    then have "memory_abs records = (memory_abs (r # records))(i := None)" using True by (auto simp: memory_abs_def fun_eq_iff)
    ultimately show ?thesis using True Cons.prems(2) by auto
  next
    case False
    then obtain rest where "turbo_state_graph_store_memory_delete i records a = (rc, rest, a')" "records' = r # rest"
      using Cons.prems(1) by (auto split: prod.splits)
    then show ?thesis using Cons.IH [of rest] Cons.prems(2) False by (auto simp: memory_abs_def fun_eq_iff)
  qed
qed simp

lemma memory_ids: "foldl (\<lambda>array record. jl_array_add J array (jl_string_of J (mr_snapshot_id record))) arr records =
    foldl (jl_array_add J) arr (map (jl_string_of J) (map mr_snapshot_id records))"
  by (induction records arbitrary: arr) simp_all

interpretation memory_store: atomic_snapshot_store J turbo_state_graph_store_memory_load turbo_state_graph_store_memory_save
    "turbo_state_graph_store_memory_list J" turbo_state_graph_store_memory_delete memory_inv memory_abs "\<lambda>i. True" for J
proof unfold_locales
  fix s i a rc out a' assume "turbo_state_graph_store_memory_load i s a = (rc, out, a')"
  then show "(a = [] \<longrightarrow> a' = []) \<and> ((rc = 0 \<and> out \<noteq> None \<and> out = memory_abs s i) \<or> (rc \<noteq> 0 \<and> out = None \<and> (memory_abs s i = None \<or> a \<noteq> [])))"
    by (auto simp: turbo_state_graph_store_memory_load_def turbo_state_graph_store_strdup_def Let_def
        simp flip: memory_find_abs split: option.splits prod.splits if_splits)
next
  fix s i t a rc s' a' assume inv: "memory_inv s" and save: "turbo_state_graph_store_memory_save i t s a = (rc, s', a')"
  show "memory_inv s' \<and> (a = [] \<longrightarrow> a' = []) \<and> (\<forall>k. k \<noteq> i \<longrightarrow> memory_abs s' k = memory_abs s k) \<and>
      ((rc = 0 \<and> memory_abs s' i = Some t) \<or> (rc \<noteq> 0 \<and> a \<noteq> [] \<and> (memory_abs s' i = memory_abs s i \<or> (\<exists>n. memory_abs s' i = Some (take n t)))))"
  proof (cases "turbo_state_graph_store_memory_find s i")
    case None
    then show ?thesis using save inv memory_find_None [of s i]
      by (auto simp: turbo_state_graph_store_memory_save_def turbo_state_graph_store_strdup_def Let_def memory_inv_def
          memory_abs_def split: prod.splits if_splits)
  next
    case (Some r)
    then have "i \<in> mr_snapshot_id ` set s" using memory_find_None by (metis option.distinct(1))
    then show ?thesis using save inv Some memory_replace_abs [of i s t]
      by (auto simp: turbo_state_graph_store_memory_save_def turbo_state_graph_store_strdup_def Let_def memory_inv_def
          memory_replace_ids split: prod.splits if_splits)
  qed
next
  fix s i a rc s' a' assume "memory_inv s" and "turbo_state_graph_store_memory_delete i s a = (rc, s', a')"
  then show "memory_inv s' \<and> (a = [] \<longrightarrow> a' = []) \<and> ((rc = 0 \<and> memory_abs s i \<noteq> None \<and> memory_abs s' = (memory_abs s)(i := None)) \<or>
      (rc \<noteq> 0 \<and> s' = s \<and> (memory_abs s i = None \<or> a \<noteq> [])))"
    using memory_delete_result [of i s a rc s' a'] memory_dom [of s] by (auto simp: memory_inv_def)
next
  fix s a rc out a' assume "memory_inv s" and "turbo_state_graph_store_memory_list J s a = (rc, out, a')"
  then show "(a = [] \<longrightarrow> a' = []) \<and> ((rc = 0 \<and> (\<exists>ids. distinct ids \<and> set ids = dom (memory_abs s) \<and> out = Some (jl_serialize J (ids_json J ids)))) \<or>
      (rc \<noteq> 0 \<and> out = None \<and> a \<noteq> []))"
    by (auto simp: turbo_state_graph_store_memory_list_def Let_def memory_inv_def memory_dom memory_ids ids_json_def
        intro!: exI [of _ "map mr_snapshot_id s"] split: prod.splits if_splits)
next
  fix s i t a rc s' a' assume "turbo_state_graph_store_memory_save i t s a = (rc, s', a')" and "rc \<noteq> 0"
  then show "s' = s" by (auto simp: turbo_state_graph_store_memory_save_def split: option.splits prod.splits if_splits)
qed simp


subsection \<open>The store in files keeps the contract\<close>

definition file_id :: "string \<Rightarrow> bool" where
  "file_id i \<longleftrightarrow> i \<noteq> [] \<and> no_zero i"

definition file_dir :: "turbo_state_graph_store_file_backend \<Rightarrow> string" where
  "file_dir b = fb_root_dir b @ ''/snapshots''"

definition file_name :: "string \<Rightarrow> string" where
  "file_name i = hex_text i @ ''.json''"

definition file_path :: "turbo_state_graph_store_file_backend \<Rightarrow> string \<Rightarrow> string" where
  "file_path b i = file_dir b @ ''/'' @ file_name i"

text \<open>The directory of the store exists and holds nothing but files of snapshots with nonempty ids.\<close>

definition file_inv :: "turbo_state_graph_store_file_backend \<times> file_system \<Rightarrow> bool" where
  "file_inv s \<longleftrightarrow> file_dir (fst s) \<in> set (fs_dirs (snd s)) \<and> distinct (map fst (fs_files (snd s))) \<and>
     (\<forall>d \<in> set (fs_dirs (snd s)). path_dir d \<noteq> file_dir (fst s)) \<and>
     (\<forall>p \<in> fst ` set (fs_files (snd s)). path_dir p = file_dir (fst s) \<longrightarrow> (\<exists>i. file_id i \<and> p = file_path (fst s) i))"

definition file_abs :: "turbo_state_graph_store_file_backend \<times> file_system \<Rightarrow> string \<Rightarrow> cstr" where
  "file_abs s i = (if file_id i then map_of (fs_files (snd s)) (file_path (fst s) i) else None)"

lemma hex_text_plain: "CHR ''/'' \<notin> set (hex_text t)"
proof -
  have "\<forall>n \<in> set [0..<16]. turbo_state_graph_store_hex_digit n \<noteq> CHR ''/''" by code_simp
  then have digit: "turbo_state_graph_store_hex_digit n \<noteq> CHR ''/''" if "n < 16" for n using that by simp
  have "(of_char c :: nat) div 16 < 16" for c :: char by (simp add: less_mult_imp_div_less)
  then have "CHR ''/'' \<noteq> turbo_state_graph_store_hex_digit (of_char c div 16)"
    "CHR ''/'' \<noteq> turbo_state_graph_store_hex_digit (of_char c mod 16)" for c :: char
    using digit by (metis mod_less_divisor zero_less_numeral)+
  then show ?thesis by (auto simp: hex_text_def)
qed

lemma split_path:
  assumes "CHR ''/'' \<notin> set n"
  shows "path_base (d @ ''/'' @ n) = n \<and> path_dir (d @ ''/'' @ n) = d"
proof -
  have "c \<noteq> CHR ''/''" if "c \<in> set (rev n)" for c using assms that by auto
  then show ?thesis
    using takeWhile_append2 [of "rev n" "\<lambda>c. c \<noteq> CHR ''/''"] dropWhile_append2 [of "rev n" "\<lambda>c. c \<noteq> CHR ''/''"]
    by (simp add: path_base_def path_dir_def)
qed

lemma file_path_split: "path_base (file_path b i) = file_name i" "path_dir (file_path b i) = file_dir b"
  using split_path [of "file_name i" "file_dir b"] hex_text_plain by (simp_all add: file_path_def file_name_def)

lemma file_path_inj: "file_path b i = file_path b j \<longleftrightarrow> i = j"
  by (simp add: file_path_def file_name_def hex_text_inj)

lemma snapshot_path_result:
  assumes "turbo_state_graph_store_file_snapshot_path (fb_root_dir b) i a = (p, a')"
  shows "(p = Some (file_path b i) \<or> (p = None \<and> a \<noteq> [])) \<and> (a = [] \<longrightarrow> a' = [])"
  using assms
  by (auto simp: turbo_state_graph_store_file_snapshot_path_def turbo_state_graph_store_file_snapshot_dir_def
      turbo_state_graph_store_join_path_def turbo_state_graph_store_hex_encode_def Let_def file_path_def file_dir_def
      file_name_def hex_text_def split: prod.splits if_splits option.splits)

lemma fs_put_lookup: "map_of (fs_put p c files) q = (if q = p then Some c else map_of files q)"
  by (induction files) auto

lemma fs_put_paths: "fst ` set (fs_put p c files) = insert p (fst ` set files)"
  by (induction p c files rule: fs_put.induct) auto

lemma fs_put_distinct: "distinct (map fst files) \<Longrightarrow> distinct (map fst (fs_put p c files))"
  by (induction files) (auto simp: fs_put_paths [simplified image_set [symmetric]] simp flip: image_set)


lemma file_list_append_snapshot:
  assumes "file_id i"
  shows "\<exists>rc arr' a'. turbo_state_graph_store_file_list_append J (file_name i) arr a = (rc, arr', a') \<and> (a = [] \<longrightarrow> a' = []) \<and>
    ((rc = 0 \<and> arr' = jl_array_add J arr (jl_string_of J i)) \<or> (rc \<noteq> 0 \<and> a \<noteq> []))"
proof -
  have len: "\<not> length (file_name i) < 6" "drop (length (file_name i) - 5) (file_name i) = ''.json''"
    "take (length (file_name i) - 5) (file_name i) = hex_text i"
    using assms by (cases i; simp add: file_name_def file_id_def)+
  obtain ok a1 where a1: "alloc1 a = (ok, a1)" by fastforce
  obtain ok2 a2 where a2: "alloc1 a1 = (ok2, a2)" by fastforce
  have "a = [] \<Longrightarrow> ok \<and> ok2 \<and> a2 = []" using a1 a2 by auto
  moreover have "c_string i = i" using assms c_string_same by (simp add: file_id_def)
  ultimately show ?thesis using a1 a2
    by (auto simp: turbo_state_graph_store_file_list_append_def Let_def len turbo_state_graph_store_hex_decode_def hex_pairs_text)
qed

lemma file_list_loop_snapshots:
  "\<forall>i \<in> set ids. file_id i \<Longrightarrow> file_list_loop J (map file_name ids) arr a = (rc, arr', a') \<Longrightarrow>
    (a = [] \<longrightarrow> a' = []) \<and> ((rc = 0 \<and> arr' = foldl (jl_array_add J) arr (map (jl_string_of J) ids)) \<or> (rc \<noteq> 0 \<and> a \<noteq> []))"
proof (induction ids arbitrary: arr a)
  case (Cons i ids)
  obtain rc1 arr1 a1 where 1: "turbo_state_graph_store_file_list_append J (file_name i) arr a = (rc1, arr1, a1)"
    "a = [] \<longrightarrow> a1 = []" "(rc1 = 0 \<and> arr1 = jl_array_add J arr (jl_string_of J i)) \<or> (rc1 \<noteq> 0 \<and> a \<noteq> [])"
    using file_list_append_snapshot [of i J arr a] Cons.prems(1) by auto
  then show ?case using Cons.prems Cons.IH [of arr1 a1] by (auto split: if_splits)
qed simp

lemma file_list_dots: "file_list_loop J ([''.'', ''..''] @ names) arr a = file_list_loop J names arr a"
  by (simp add: turbo_state_graph_store_file_list_append_def)

lemma file_dir_entries:
  assumes "file_inv s"
  obtains ids where "distinct ids" "set ids = dom (file_abs s)" "dir_entries (snd s) (file_dir (fst s)) = [''.'', ''..''] @ map file_name ids"
proof -
  let ?ps = "filter (\<lambda>p. path_dir p = file_dir (fst s)) (map fst (fs_files (snd s)))"
  have dirs: "filter (\<lambda>p. path_dir p = file_dir (fst s)) (fs_dirs (snd s)) = []"
    using assms by (auto simp: file_inv_def filter_empty_conv)
  have "\<forall>p \<in> set ?ps. \<exists>i. file_id i \<and> p = file_path (fst s) i" using assms by (auto simp: file_inv_def)
  then obtain f where f: "\<forall>p \<in> set ?ps. file_id (f p) \<and> p = file_path (fst s) (f p)" by metis
  define ids where "ids = map f ?ps"
  have paths: "map (file_path (fst s)) ids = ?ps" unfolding ids_def map_map using f by (intro map_idI) auto
  have "distinct ?ps" using assms by (simp add: file_inv_def)
  then have "distinct ids" using paths by (metis distinct_map)
  moreover have "set ids = dom (file_abs s)"
  proof (intro set_eqI iffI)
    fix i assume "i \<in> set ids"
    then obtain p where p: "p \<in> set ?ps" "i = f p" unfolding ids_def by auto
    then have "file_id i" "file_path (fst s) i \<in> fst ` set (fs_files (snd s))" using f by auto
    then show "i \<in> dom (file_abs s)" using map_of_eq_None_iff [of "fs_files (snd s)" "file_path (fst s) i"]
      by (auto simp: file_abs_def dom_def)
  next
    fix i assume "i \<in> dom (file_abs s)"
    then have i: "file_id i" "file_path (fst s) i \<in> fst ` set (fs_files (snd s))"
      by (auto simp: file_abs_def dom_def split: if_splits) (force dest: map_of_SomeD)
    then have "file_path (fst s) i \<in> set ?ps" using file_path_split by auto
    then have "file_path (fst s) i \<in> set (map (file_path (fst s)) ids)" by (simp only: paths)
    then show "i \<in> set ids" by (auto simp: file_path_inj)
  qed
  moreover have "dir_entries (snd s) (file_dir (fst s)) = [''.'', ''..''] @ map file_name ids"
  proof -
    have "map path_base ?ps = map file_name ids"
      unfolding paths [symmetric] map_map by (simp add: comp_def file_path_split)
    then show ?thesis by (simp add: dir_entries_def dirs)
  qed
  ultimately show thesis using that by blast
qed


lemma file_store_put:
  assumes "file_inv (b, fs)" and "file_id i"
  shows "file_inv (b, fs\<lparr>fs_files := fs_put (file_path b i) t (fs_files fs)\<rparr>) \<and>
    file_abs (b, fs\<lparr>fs_files := fs_put (file_path b i) t (fs_files fs)\<rparr>) = (file_abs (b, fs))(i \<mapsto> t)"
  using assms by (auto simp: file_inv_def file_abs_def fs_put_paths fs_put_distinct fs_put_lookup file_path_inj fun_eq_iff)

lemma file_load_law:
  assumes "file_id i" and "turbo_state_graph_store_file_load i s a = (rc, out, a')"
  shows "(a = [] \<longrightarrow> a' = []) \<and> ((rc = 0 \<and> out \<noteq> None \<and> out = file_abs s i) \<or> (rc \<noteq> 0 \<and> out = None \<and> (file_abs s i = None \<or> a \<noteq> [])))"
proof -
  obtain p a1 where p: "turbo_state_graph_store_file_snapshot_path (fb_root_dir (fst s)) i a = (p, a1)" by fastforce
  show ?thesis
  proof (cases "map_of (fs_files (snd s)) (file_path (fst s) i)")
    case None
    then show ?thesis using assms snapshot_path_result [OF p]
      by (auto simp: p turbo_state_graph_store_file_load_def turbo_state_graph_store_read_text_file_def Let_def file_abs_def
          split: prod.splits if_splits)
  next
    case (Some t)
    show ?thesis using assms snapshot_path_result [OF p]
      by (auto simp: p Some turbo_state_graph_store_file_load_def turbo_state_graph_store_read_text_file_def Let_def file_abs_def
          split: prod.splits if_splits)
  qed
qed

lemma file_save_law:
  assumes "file_inv s" and "file_id i" and "turbo_state_graph_store_file_save i t s a = (rc, s', a')"
  shows "file_inv s' \<and> (a = [] \<longrightarrow> a' = []) \<and> (\<forall>k. k \<noteq> i \<longrightarrow> file_abs s' k = file_abs s k) \<and>
    ((rc = 0 \<and> file_abs s' i = Some t) \<or>
      (rc \<noteq> 0 \<and> a \<noteq> [] \<and> (file_abs s' i = file_abs s i \<or> (\<exists>n. file_abs s' i = Some (take n t)))))"
proof -
  obtain b fs where s: "s = (b, fs)" by (cases s)
  obtain p a1 where p: "turbo_state_graph_store_file_snapshot_path (fb_root_dir b) i a = (p, a1)" by fastforce
  have dir: "path_dir (file_path b i) \<in> set (fs_dirs fs)" "file_path b i \<notin> set (fs_dirs fs)"
    using assms(1) file_path_split(2) [of b i] by (auto simp: file_inv_def s)
  show ?thesis
    using assms(3) snapshot_path_result [OF p] dir assms(1) file_store_put [OF assms(1,2) [unfolded s]]
    by (auto simp: s p turbo_state_graph_store_file_save_def turbo_state_graph_store_write_text_file_def Let_def
        split: prod.splits if_splits) blast+
qed

lemma file_remove_law:
  assumes "file_inv s" and "file_id i" and "turbo_state_graph_store_file_delete i s a = (rc, s', a')"
  shows "file_inv s' \<and> (a = [] \<longrightarrow> a' = []) \<and> ((rc = 0 \<and> file_abs s i \<noteq> None \<and> file_abs s' = (file_abs s)(i := None)) \<or>
    (rc \<noteq> 0 \<and> s' = s \<and> (file_abs s i = None \<or> a \<noteq> [])))"
proof -
  obtain b fs where s: "s = (b, fs)" by (cases s)
  obtain p a1 where p: "turbo_state_graph_store_file_snapshot_path (fb_root_dir b) i a = (p, a1)" by fastforce
  let ?fs = "fs\<lparr>fs_files := filter (\<lambda>(q, c). q \<noteq> file_path b i) (fs_files fs)\<rparr>"
  have lookup: "map_of (filter (\<lambda>(q, c). q \<noteq> p) files) r = (if r = p then None else map_of files r)" for p r and files :: "(string \<times> string) list"
    by (induction files) auto
  have paths: "distinct (map fst files) \<Longrightarrow> distinct (map fst (filter P files))" for P and files :: "(string \<times> string) list"
    by (rule distinct_map_filter)
  have gone: "file_inv (b, ?fs) \<and> file_abs (b, ?fs) = (file_abs (b, fs))(i := None)"
    using assms(1,2) paths by (auto simp: file_inv_def file_abs_def lookup file_path_inj fun_eq_iff s)
  show ?thesis
    using assms snapshot_path_result [OF p] gone
    by (auto simp: s p turbo_state_graph_store_file_delete_def Let_def file_abs_def split: prod.splits if_splits)
qed

lemma file_list_law:
  assumes "file_inv s" and "turbo_state_graph_store_file_list J s a = (rc, out, a')"
  shows "(a = [] \<longrightarrow> a' = []) \<and> ((rc = 0 \<and> (\<exists>ids. distinct ids \<and> set ids = dom (file_abs s) \<and>
      out = Some (jl_serialize J (ids_json J ids)))) \<or> (rc \<noteq> 0 \<and> out = None \<and> a \<noteq> []))"
proof -
  obtain ids where ids: "distinct ids" "set ids = dom (file_abs s)"
    "dir_entries (snd s) (file_dir (fst s)) = [''.'', ''..''] @ map file_name ids" by (rule file_dir_entries [OF assms(1)])
  have ok: "\<forall>i \<in> set ids. file_id i" unfolding ids(2) by (auto simp: file_abs_def split: if_splits)
  have dir: "file_dir (fst s) \<in> set (fs_dirs (snd s))" using assms(1) by (simp add: file_inv_def)
  obtain d a1 where d: "turbo_state_graph_store_file_snapshot_dir (fb_root_dir (fst s)) a = (d, a1)" by fastforce
  have d': "(d = Some (file_dir (fst s)) \<or> (d = None \<and> a \<noteq> [])) \<and> (a = [] \<longrightarrow> a1 = [])"
    using d by (auto simp: turbo_state_graph_store_file_snapshot_dir_def turbo_state_graph_store_join_path_def Let_def
        file_dir_def split: prod.splits if_splits)
  obtain ok2 a2 where a2: "alloc1 a1 = (ok2, a2)" by fastforce
  obtain ok3 a3 where a3: "alloc1 a2 = (ok3, a3)" by fastforce
  obtain rc4 arr a4 where a4: "file_list_loop J (map file_name ids) (jl_array J) a3 = (rc4, arr, a4)" by (metis prod_cases3)
  obtain ok5 a5 where a5: "alloc1 a4 = (ok5, a5)" by fastforce
  note loop = file_list_loop_snapshots [OF ok a4]
  have "a = [] \<Longrightarrow> ok2 \<and> ok3 \<and> ok5 \<and> rc4 = 0 \<and> a1 = [] \<and> a2 = [] \<and> a3 = [] \<and> a4 = [] \<and> a5 = []" using d' a2 a3 a5 loop by auto
  then show ?thesis
    using assms(2) d' loop ids(1,2) dir
    by (auto simp: turbo_state_graph_store_file_list_def d a2 a3 a4 a5 ids(3) file_list_dots ids_json_def Let_def
        simp del: append_Cons append_Nil split: if_splits option.splits)
qed

interpretation file_store: snapshot_store J turbo_state_graph_store_file_load turbo_state_graph_store_file_save
    "turbo_state_graph_store_file_list J" turbo_state_graph_store_file_delete file_inv file_abs file_id for J
proof unfold_locales
  fix s i assume "file_abs s i \<noteq> None"
  then show "file_id i" by (simp add: file_abs_def split: if_splits)
qed (rule file_load_law file_save_law file_remove_law file_list_law; assumption)+


subsection \<open>Sequences of changes\<close>

datatype store_op = Store_Save string string | Store_Remove string

fun store_op_id :: "store_op \<Rightarrow> string" where
  "store_op_id (Store_Save i t) = i"
| "store_op_id (Store_Remove i) = i"

fun apply_store_op ::
    "(string \<Rightarrow> string \<Rightarrow> 's \<Rightarrow> alloc \<Rightarrow> int \<times> 's \<times> alloc) \<Rightarrow> (string \<Rightarrow> 's \<Rightarrow> alloc \<Rightarrow> int \<times> 's \<times> alloc) \<Rightarrow>
     store_op \<Rightarrow> alloc \<Rightarrow> 's \<Rightarrow> int \<times> 's \<times> alloc" where
  "apply_store_op save remove (Store_Save i t) a s = save i t s a"
| "apply_store_op save remove (Store_Remove i) a s = remove i s a"

text \<open>What the changes mean for the map, whether or not they are told of.\<close>

fun store_spec :: "store_op \<Rightarrow> (string \<Rightarrow> cstr) \<Rightarrow> string \<Rightarrow> cstr" where
  "store_spec (Store_Save i t) m = m(i \<mapsto> t)"
| "store_spec (Store_Remove i) m = m(i := None)"

definition callbacks where
  "callbacks load save lister remove =
     \<lparr>sv_load = Some load, sv_save = Some save, sv_list = Some lister, sv_remove = Some remove\<rparr>"

text \<open>What can be observed of a store that holds the map \<open>m\<close>: every lookup, and the listing, when nothing fails.\<close>

definition shows_map where
  "shows_map J load lister ok_id s m \<longleftrightarrow>
     (\<forall>i. ok_id i \<longrightarrow> fst (snd (load i s [])) = m i) \<and>
     (\<exists>ids. distinct ids \<and> set ids = dom m \<and> fst (snd (lister s [])) = Some (jl_serialize J (ids_json J ids)))"

text \<open>The operations that succeeded; when all took effect (no save failed, and what failed made no difference); and the
  ids that a failed save left open: those of which no later save or removal succeeded.\<close>

fun saved_id :: "store_op \<Rightarrow> string set" where
  "saved_id (Store_Save i t) = {i}"
| "saved_id (Store_Remove i) = {}"

definition done_ops :: "store_op list \<Rightarrow> int list \<Rightarrow> store_op list" where
  "done_ops ops rcs = map fst (filter (\<lambda>(op, rc). rc = 0) (zip ops rcs))"

definition all_effective :: "store_op list \<Rightarrow> int list \<Rightarrow> (string \<Rightarrow> cstr) \<Rightarrow> bool" where
  "all_effective ops rcs m \<longleftrightarrow> (\<forall>(op, rc) \<in> set (zip ops rcs). saved_id op \<noteq> {} \<longrightarrow> rc = 0) \<and>
     fold store_spec (done_ops ops rcs) m = fold store_spec ops m"

definition settle :: "store_op \<times> int \<Rightarrow> string set \<Rightarrow> string set" where
  "settle e ids = (case e of (op, rc) \<Rightarrow> if rc = 0 then ids - {store_op_id op} else ids \<union> saved_id op)"

definition open_ids :: "store_op list \<Rightarrow> int list \<Rightarrow> string set" where
  "open_ids ops rcs = fold settle (zip ops rcs) {}"

text \<open>The map \<open>m\<close> is the wanted one, but an open id may hold a piece of a text that a save was given for it.\<close>

definition map_but_open :: "store_op set \<Rightarrow> string set \<Rightarrow> (string \<Rightarrow> cstr) \<Rightarrow> (string \<Rightarrow> cstr) \<Rightarrow> bool" where
  "map_but_open ops ids wanted m \<longleftrightarrow>
     (\<forall>k. m k = wanted k \<or> (k \<in> ids \<and> (\<exists>t n. Store_Save k t \<in> ops \<and> m k = Some (take n t))))"

context snapshot_store
begin

lemma shows_abs: "inv s \<Longrightarrow> shows_map J load lister ok_id s (abs s)"
proof -
  assume inv: "inv s"
  have "fst (snd (load i s [])) = abs s i" if "ok_id i" for i
  proof -
    obtain rc out a' where l: "load i s [] = (rc, out, a')" by (metis prod_cases3)
    show ?thesis using load_law [OF inv that l] by (auto simp: l)
  qed
  moreover obtain rc out a' where l: "lister s [] = (rc, out, a')" by (metis prod_cases3)
  then have "\<exists>ids. distinct ids \<and> set ids = dom (abs s) \<and> fst (snd (lister s [])) = Some (jl_serialize J (ids_json J ids))"
    using list_law [OF inv l] by auto
  ultimately show ?thesis by (simp add: shows_map_def)
qed

lemma apply_refines:
  assumes "inv s" and "ok_id (store_op_id op)" and "apply_store_op save remove op a s = (rc, s', a')"
    and "map_but_open ops ids m (abs s)"
  shows "inv s' \<and> (a = [] \<longrightarrow> a' = [] \<and> (rc = 0 \<or> (saved_id op = {} \<and> store_spec op (abs s) = abs s))) \<and>
    map_but_open (insert op ops) (settle (op, rc) ids) (if rc = 0 then store_spec op m else m) (abs s')"
proof (cases op)
  case (Store_Save i t)
  then have law: "inv s' \<and> (a = [] \<longrightarrow> a' = []) \<and> (\<forall>k. k \<noteq> i \<longrightarrow> abs s' k = abs s k) \<and>
      ((rc = 0 \<and> abs s' i = Some t) \<or> (rc \<noteq> 0 \<and> a \<noteq> [] \<and> (abs s' i = abs s i \<or> (\<exists>n. abs s' i = Some (take n t)))))"
    using save_law [of s i t a rc s' a'] assms by simp
  have "map_but_open (insert op ops) (settle (op, rc) ids) (if rc = 0 then store_spec op m else m) (abs s')"
    unfolding map_but_open_def
  proof
    fix k
    show "abs s' k = (if rc = 0 then store_spec op m else m) k \<or> (k \<in> settle (op, rc) ids \<and>
        (\<exists>t n. Store_Save k t \<in> insert op ops \<and> abs s' k = Some (take n t)))"
      using law assms(4) unfolding map_but_open_def Store_Save settle_def
      by (cases "k = i"; cases "rc = 0") (simp; metis)+
  qed
  with law Store_Save show ?thesis by auto
next
  case (Store_Remove i)
  then have law: "inv s' \<and> (a = [] \<longrightarrow> a' = []) \<and> ((rc = 0 \<and> abs s' = (abs s)(i := None)) \<or>
      (rc \<noteq> 0 \<and> s' = s \<and> (abs s i = None \<or> a \<noteq> [])))"
    using remove_law [of s i a rc s' a'] assms by auto
  then have "map_but_open (insert op ops) (settle (op, rc) ids) (if rc = 0 then store_spec op m else m) (abs s')"
    using assms(4) by (auto simp: map_but_open_def Store_Remove settle_def)
  with law Store_Remove show ?thesis by auto
qed

lemma run_refines_from:
  "inv s \<Longrightarrow> \<forall>op \<in> set ops. ok_id (store_op_id op) \<Longrightarrow> run_ops (apply_store_op save remove) ops a s = (rcs, s', a') \<Longrightarrow>
    map_but_open before ids m (abs s) \<Longrightarrow>
    inv s' \<and> map_but_open (before \<union> set ops) (fold settle (zip ops rcs) ids) (fold store_spec (done_ops ops rcs) m) (abs s') \<and>
    (a = [] \<longrightarrow> ids = {} \<longrightarrow> fold settle (zip ops rcs) ids = {} \<and> all_effective ops rcs m)"
proof (induction ops arbitrary: s a rcs before ids m)
  case (Cons op ops)
  obtain rc s1 a1 where 1: "apply_store_op save remove op a s = (rc, s1, a1)" by (metis prod_cases3)
  obtain rcs1 where 2: "run_ops (apply_store_op save remove) ops a1 s1 = (rcs1, s', a')" "rcs = rc # rcs1"
    using Cons.prems(3) 1 by (auto split: prod.splits)
  have step: "inv s1" "a = [] \<Longrightarrow> a1 = [] \<and> (rc = 0 \<or> (saved_id op = {} \<and> store_spec op (abs s) = abs s))"
    "map_but_open (insert op before) (settle (op, rc) ids) (if rc = 0 then store_spec op m else m) (abs s1)"
    using apply_refines [OF Cons.prems(1) _ 1 Cons.prems(4)] Cons.prems(2) by auto
  note ih = Cons.IH [OF step(1) _ 2(1) step(3)]
  have "fold settle (zip (op # ops) rcs) ids = {} \<and> all_effective (op # ops) rcs m" if a: "a = []" "ids = {}"
  proof -
    have "abs s = m" using Cons.prems(4) a(2) by (auto simp: map_but_open_def)
    moreover have "settle (op, rc) ids = {}" using a step(2) by (auto simp: settle_def)
    ultimately show ?thesis using a step(2) ih Cons.prems(2)
      by (cases "rc = 0") (auto simp: 2(2) all_effective_def done_ops_def)
  qed
  then show ?case using ih Cons.prems(2) by (cases "rc = 0") (auto simp: 2(2) done_ops_def)
qed (simp add: done_ops_def all_effective_def)

lemma run_refines:
  assumes "inv s" and "\<forall>op \<in> set ops. ok_id (store_op_id op)" and "run_ops (apply_store_op save remove) ops a s = (rcs, s', a')"
  shows "inv s' \<and> map_but_open (set ops) (open_ids ops rcs) (fold store_spec (done_ops ops rcs) (abs s)) (abs s') \<and>
    (a = [] \<longrightarrow> open_ids ops rcs = {} \<and> all_effective ops rcs (abs s))"
  using run_refines_from [OF assms, of "{}" "{}" "abs s"] by (simp add: open_ids_def map_but_open_def)

end

context atomic_snapshot_store
begin

lemma run_refines_all:
  "inv s \<Longrightarrow> \<forall>op \<in> set ops. ok_id (store_op_id op) \<Longrightarrow> run_ops (apply_store_op save remove) ops a s = (rcs, s', a') \<Longrightarrow>
    inv s' \<and> abs s' = fold store_spec (done_ops ops rcs) (abs s)"
proof (induction ops arbitrary: s a rcs)
  case (Cons op ops)
  obtain rc s1 a1 where 1: "apply_store_op save remove op a s = (rc, s1, a1)" by (metis prod_cases3)
  obtain rcs1 where 2: "run_ops (apply_store_op save remove) ops a1 s1 = (rcs1, s', a')" "rcs = rc # rcs1"
    using Cons.prems(3) 1 by (auto split: prod.splits)
  have "inv s1 \<and> abs s1 = (if rc = 0 then store_spec op (abs s) else abs s)"
  proof (cases op)
    case (Store_Save i t)
    then have "save i t s a = (rc, s1, a1)" "ok_id i" using 1 Cons.prems(2) by auto
    then show ?thesis using save_law [OF Cons.prems(1)] save_atomic [OF Cons.prems(1)]
      by (cases "rc = 0") (fastforce simp: Store_Save)+
  next
    case (Store_Remove i)
    then have "remove i s a = (rc, s1, a1)" "ok_id i" using 1 Cons.prems(2) by auto
    then show ?thesis using remove_law [OF Cons.prems(1)] by (cases "rc = 0") (fastforce simp: Store_Remove)+
  qed
  then show ?case using Cons.IH [OF _ _ 2(1)] Cons.prems(2) by (auto simp: 2(2) done_ops_def)
qed (simp add: done_ops_def)

end


text \<open>C8. The store in memory implements a finite map: after any sequence of saves and removals on a new store, with any
  allocation failures, loading an id gives the text of the last successful change of that id, and listing gives exactly
  the ids that have one, each once: the store shows the map that the successful changes make, for every id, and a save
  or removal that failed left no trace. Without allocation failures every save succeeds, and the map is the one that
  all the operations make.\<close>

theorem memory_store_refines_map:
  assumes "run_ops (apply_store_op turbo_state_graph_store_memory_save turbo_state_graph_store_memory_delete) ops a [] = (rcs, s, a')"
  shows "shows_map J turbo_state_graph_store_memory_load (turbo_state_graph_store_memory_list J) (\<lambda>i. True) s
      (fold store_spec (done_ops ops rcs) Map.empty) \<and>
    (a = [] \<longrightarrow> all_effective ops rcs Map.empty)"
proof -
  have inv: "memory_inv []" and abs: "memory_abs [] = Map.empty" by (simp_all add: memory_inv_def memory_abs_def fun_eq_iff)
  have "memory_inv s \<and> memory_abs s = fold store_spec (done_ops ops rcs) Map.empty"
    using memory_store.run_refines_all [OF inv _ assms] by (simp add: abs)
  moreover have "a = [] \<longrightarrow> all_effective ops rcs Map.empty" using memory_store.run_refines [OF inv _ assms] by (simp add: abs)
  ultimately show ?thesis using memory_store.shows_abs [of s J] by metis
qed

definition three_ops :: "store_op list" where
  "three_ops = [Store_Save ''a'' ''x'', Store_Save ''b'' ''y'', Store_Remove ''a'']"

lemma memory_store_refines_map_witness:
  "shows_map ref_json turbo_state_graph_store_memory_load (turbo_state_graph_store_memory_list ref_json) (\<lambda>i. True)
     [\<lparr>mr_snapshot_id = ''b'', mr_snapshot_json = ''y''\<rparr>] [''b'' \<mapsto> ''y''] \<and>
   shows_map ref_json turbo_state_graph_store_memory_load (turbo_state_graph_store_memory_list ref_json) (\<lambda>i. True)
     [\<lparr>mr_snapshot_id = ''a'', mr_snapshot_json = ''x''\<rparr>] [''a'' \<mapsto> ''x'']"
proof -
  let ?run = "run_ops (apply_store_op turbo_state_graph_store_memory_save turbo_state_graph_store_memory_delete)"
  let ?again = "[Store_Save ''a'' ''x'', Store_Save ''a'' ''y'']"
  have run: "?run three_ops [] [] = ([0, 0, 0], [\<lparr>mr_snapshot_id = ''b'', mr_snapshot_json = ''y''\<rparr>], [])"
    and again: "?run ?again [True, True, True, False] [] = ([0, - 1], [\<lparr>mr_snapshot_id = ''a'', mr_snapshot_json = ''x''\<rparr>], [])"
    by code_simp+
  have "fold store_spec (done_ops three_ops [0, 0, 0]) Map.empty = [''b'' \<mapsto> ''y'']"
    "fold store_spec (done_ops ?again [0, - 1]) Map.empty = [''a'' \<mapsto> ''x'']"
    by (auto simp: done_ops_def three_ops_def)
  then show ?thesis using memory_store_refines_map [OF run, of ref_json] memory_store_refines_map [OF again, of ref_json] by simp
qed

text \<open>C9. The store in files implements the same finite map, in a directory that holds only its own files, for ids that
  are not empty and have no zero bytes: after any sequence of saves and removals with any failures, loads and listings
  show for every id the text of its last successful change. The exception is an id of which a save failed and no later save
  or removal succeeded: a save that fails may have put a piece of its text in place of what was there. When no call
  of the C library fails, every save succeeds and the map is the one that all the operations make.\<close>

theorem file_store_refines_map:
  assumes "file_inv s" and "\<forall>op \<in> set ops. file_id (store_op_id op)"
    and "run_ops (apply_store_op turbo_state_graph_store_file_save turbo_state_graph_store_file_delete) ops a s = (rcs, s', a')"
  shows "file_inv s' \<and>
    (\<exists>m. shows_map J turbo_state_graph_store_file_load (turbo_state_graph_store_file_list J) file_id s' m \<and>
      map_but_open (set ops) (open_ids ops rcs) (fold store_spec (done_ops ops rcs) (file_abs s)) m) \<and>
    (a = [] \<longrightarrow> open_ids ops rcs = {} \<and> all_effective ops rcs (file_abs s))"
  using file_store.run_refines [OF assms] file_store.shows_abs [of s' J] by blast

definition work_files :: "turbo_state_graph_store_file_backend \<times> file_system" where
  "work_files = (\<lparr>fb_root_dir = ''r''\<rparr>, \<lparr>fs_files = [(''r/other'', ''z'')], fs_dirs = [''r'', ''r/snapshots''], fs_cut = 0\<rparr>)"

lemma work_files_inv: "file_inv work_files"
  by (simp add: file_inv_def work_files_def file_dir_def path_dir_def)

lemma file_store_refines_map_witness:
  "\<exists>s m. shows_map ref_json turbo_state_graph_store_file_load (turbo_state_graph_store_file_list ref_json) file_id s m \<and>
     m ''b'' = Some ''y'' \<and> m ''a'' = None"
proof -
  let ?run = "run_ops (apply_store_op turbo_state_graph_store_file_save turbo_state_graph_store_file_delete) three_ops [] work_files"
  obtain rcs s a where run: "?run = (rcs, s, a)" by (metis prod_cases3)
  have "fst ?run = [0, 0, 0]" by code_simp
  then have rcs: "rcs = [0, 0, 0]" using run by simp
  have ids: "\<forall>op \<in> set three_ops. file_id (store_op_id op)" by code_simp
  have "done_ops three_ops [0, 0, 0] = three_ops" "open_ids three_ops [0, 0, 0] = {}"
    by (auto simp: done_ops_def open_ids_def settle_def three_ops_def)
  then obtain m where "shows_map ref_json turbo_state_graph_store_file_load (turbo_state_graph_store_file_list ref_json) file_id s m"
    and m: "\<And>k. m k = fold store_spec three_ops (file_abs work_files) k"
    using file_store_refines_map [OF work_files_inv ids run [unfolded rcs], of ref_json] by (auto simp: map_but_open_def)
  moreover have "m ''b'' = Some ''y''" "m ''a'' = None" by (simp_all add: m three_ops_def)
  ultimately show ?thesis by (intro exI [of _ s] exI [of _ m] conjI)
qed


subsection \<open>Saving a graph and loading it again\<close>

lemma store_spec_other: "\<forall>op \<in> set ops. store_op_id op \<noteq> k \<Longrightarrow> fold store_spec ops m k = m k"
proof (induction ops arbitrary: m)
  case (Cons op ops)
  have "store_spec op m k = m k" using Cons.prems by (cases op) auto
  then show ?case using Cons by simp
qed simp

lemma settle_other: "\<forall>e \<in> set es. store_op_id (fst e) \<noteq> k \<Longrightarrow> k \<in> fold settle es ids \<longleftrightarrow> k \<in> ids"
proof (induction es arbitrary: ids)
  case (Cons e es)
  have "k \<in> settle e ids \<longleftrightarrow> k \<in> ids" using Cons.prems by (cases e; cases "fst e") (auto simp: settle_def)
  then show ?case using Cons by simp
qed simp

context snapshot_store
begin

lemma run_other_ids:
  assumes "inv s" and "\<forall>op \<in> set ops. ok_id (store_op_id op) \<and> store_op_id op \<noteq> k"
    and "run_ops (apply_store_op save remove) ops a s = (rcs, s', a')"
  shows "inv s' \<and> abs s' k = abs s k"
proof -
  have "k \<notin> open_ids ops rcs"
    unfolding open_ids_def using assms(2) by (subst settle_other) (auto dest: set_zip_leftD)
  moreover have "\<forall>op \<in> set (done_ops ops rcs). store_op_id op \<noteq> k"
    using assms(2) by (auto simp: done_ops_def dest: set_zip_leftD)
  then have "fold store_spec (done_ops ops rcs) (abs s) k = abs s k" by (rule store_spec_other)
  ultimately show ?thesis using run_refines [OF assms(1) _ assms(3)] assms(2) unfolding map_but_open_def by metis
qed

lemma save_then_load:
  assumes "loadable J E g" and "inv s" and "ok_id i"
    and "turbo_state_graph_store_save_snapshot J (callbacks load save lister remove) (Some i) g s a = (TURBO_STATE_GRAPH_OK, s1, a1)"
    and "\<forall>op \<in> set ops. ok_id (store_op_id op) \<and> store_op_id op \<noteq> i"
    and "run_ops (apply_store_op save remove) ops a2 s1 = (rcs, s2, a3)"
    and "snapshot_topology g' = snapshot_topology g"
    and "turbo_state_graph_store_load_snapshot J (callbacks load save lister remove) (Some i) g' s2 b = (st, g'', b')"
  shows "(st \<noteq> TURBO_STATE_GRAPH_OK \<and> b \<noteq> []) \<or>
    (st = TURBO_STATE_GRAPH_OK \<and> state_graph_structure g'' = state_graph_structure g' \<and> restored E g g'')"
proof -
  obtain json c where json: "turbo_state_graph_serialize_snapshot J g a = (Some json, c)" and sv: "save i json s c = (0, s1, a1)"
    using assms(4) by (auto simp: turbo_state_graph_store_save_snapshot_def callbacks_def split: option.splits prod.splits if_splits)
  have s1: "inv s1" "abs s1 i = Some json" using save_law [OF assms(2,3) sv] by auto
  have s2: "inv s2" "abs s2 i = Some json" using run_other_ids [OF s1(1) assms(5,6)] s1(2) by auto
  obtain rc out b1 where ld: "load i s2 b = (rc, out, b1)" by (metis prod_cases3)
  note law = load_law [OF s2(1) assms(3) ld]
  show ?thesis
  proof (cases "rc = 0")
    case True
    then have out: "out = Some json" using law s2(2) by auto
    then have l: "turbo_state_graph_load_snapshot J (Some json) g' b1 = (st, g'', b')"
      using assms(8) True by (simp add: turbo_state_graph_store_load_snapshot_def callbacks_def ld)
    from load_written [OF assms(1) json assms(7) l] law show ?thesis by auto
  next
    case False
    then have "st = TURBO_STATE_GRAPH_ERROR" "b \<noteq> []"
      using assms(8) law s2(2) by (auto simp: turbo_state_graph_store_load_snapshot_def callbacks_def ld)
    then show ?thesis by simp
  qed
qed

end

text \<open>C7. A state graph saved in the file store under an id loads back: after the save succeeded, and whatever is then
  saved or removed under other ids, loading that id into a graph of the same channels, nodes and edges restores the
  threads, runs, history and counters; it can only fail when a call of the C library does.\<close>

theorem file_store_save_then_load:
  assumes "json_laws J" and "json_text_laws J E" and "json_code_laws J"
    and "\<forall>r \<in> set (sg_runs g). \<not> (re_interrupted r \<and> re_completed r)"
    and "file_inv s" and "file_id i"
    and "turbo_state_graph_store_save_snapshot J (callbacks turbo_state_graph_store_file_load turbo_state_graph_store_file_save
      (turbo_state_graph_store_file_list J) turbo_state_graph_store_file_delete) (Some i) g s a = (TURBO_STATE_GRAPH_OK, s1, a1)"
    and "\<forall>op \<in> set ops. file_id (store_op_id op) \<and> store_op_id op \<noteq> i"
    and "run_ops (apply_store_op turbo_state_graph_store_file_save turbo_state_graph_store_file_delete) ops a2 s1 = (rcs, s2, a3)"
    and "snapshot_topology g' = snapshot_topology g"
    and "turbo_state_graph_store_load_snapshot J (callbacks turbo_state_graph_store_file_load turbo_state_graph_store_file_save
      (turbo_state_graph_store_file_list J) turbo_state_graph_store_file_delete) (Some i) g' s2 b = (st, g'', b')"
  shows "(st \<noteq> TURBO_STATE_GRAPH_OK \<and> b \<noteq> []) \<or>
    (st = TURBO_STATE_GRAPH_OK \<and> state_graph_structure g'' = state_graph_structure g' \<and> restored E g g'')"
proof -
  have "loadable J E g" using assms(1-4) by (simp add: loadable_def)
  from file_store.save_then_load [OF this assms(5-11)] show ?thesis .
qed


abbreviation file_callbacks where
  "file_callbacks J \<equiv> callbacks turbo_state_graph_store_file_load turbo_state_graph_store_file_save
     (turbo_state_graph_store_file_list J) turbo_state_graph_store_file_delete"

lemma ref_code_laws: "json_code_laws ref_json"
  unfolding json_code_laws_def
proof
  fix t show "INT64_MIN \<le> jl_type_code ref_json t \<and> jl_type_code ref_json t \<le> INT64_MAX"
    by (cases t) (simp_all add: ref_json_def INT64_MIN_def INT64_MAX_def)
qed

lemma file_store_save_then_load_witness:
  "\<exists>s1 a1 g'' b'. turbo_state_graph_store_save_snapshot ref_json (file_callbacks ref_json) (Some ''s1'') (sk_graph work_run)
      work_files [] = (TURBO_STATE_GRAPH_OK, s1, a1) \<and>
    turbo_state_graph_store_load_snapshot ref_json (file_callbacks ref_json) (Some ''s1'') work_graph s1 [] =
      (TURBO_STATE_GRAPH_OK, g'', b') \<and> restored (=) (sk_graph work_run) g''"
proof -
  let ?save = "turbo_state_graph_store_save_snapshot ref_json (file_callbacks ref_json) (Some ''s1'') (sk_graph work_run) work_files []"
  obtain st s1 a1 where save: "?save = (st, s1, a1)" by (metis prod_cases3)
  have "fst ?save = TURBO_STATE_GRAPH_OK" by code_simp
  then have ok: "?save = (TURBO_STATE_GRAPH_OK, s1, a1)" using save by simp
  obtain st' g'' b' where load: "turbo_state_graph_store_load_snapshot ref_json (file_callbacks ref_json) (Some ''s1'') work_graph
      s1 [] = (st', g'', b')" by (metis prod_cases3)
  have "\<forall>r \<in> set (sg_runs (sk_graph work_run)). \<not> (re_interrupted r \<and> re_completed r)" by code_simp
  moreover have "file_id ''s1''" by code_simp
  moreover have "\<forall>op \<in> set []. file_id (store_op_id op) \<and> store_op_id op \<noteq> ''s1''" by simp
  moreover have "run_ops (apply_store_op turbo_state_graph_store_file_save turbo_state_graph_store_file_delete) [] [] s1 = ([], s1, [])" by simp
  moreover have "snapshot_topology work_graph = snapshot_topology (sk_graph work_run)" by code_simp
  ultimately have "st' = TURBO_STATE_GRAPH_OK \<and> restored (=) (sk_graph work_run) g''"
    using file_store_save_then_load [OF ref_json_laws ref_text_laws ref_code_laws _ work_files_inv _ ok _ _ _ load] by blast
  then show ?thesis using ok load by blast
qed

text \<open>The empty id is one the file store does not keep its word for: a snapshot saved under it loads, but its file
  \<open>.json\<close> is too short a name for the listing.\<close>

lemma empty_id_not_listed:
  "case turbo_state_graph_store_file_save [] ''x'' work_files [] of (rc, s, a) \<Rightarrow>
     rc = 0 \<and> turbo_state_graph_store_file_load [] s [] = (0, Some ''x'', []) \<and>
     turbo_state_graph_store_file_list ref_json s [] = (0, Some (jl_serialize ref_json (ids_json ref_json [])), [])"
  by code_simp

text \<open>A file whose name ends in \<open>.json\<close> and is not a hexadecimal text makes every listing of the directory fail.\<close>

lemma foreign_file_breaks_listing:
  "fst (turbo_state_graph_store_file_list ref_json
     (fst work_files, (snd work_files)\<lparr>fs_files := [(''r/snapshots/notes.json'', ''x'')]\<rparr>) []) = - 1"
  by code_simp

text \<open>A save that fails half way leaves the new text cut short in place of the old one.\<close>

lemma failed_save_loses_old_text:
  "case turbo_state_graph_store_file_save ''a'' ''old'' work_files [] of (rc, s, a) \<Rightarrow>
     (case turbo_state_graph_store_file_save ''a'' ''new'' s [True, True, True, True, True, False] of (rc', s', a') \<Rightarrow>
        rc = 0 \<and> rc' = - 1 \<and> turbo_state_graph_store_file_load ''a'' s' [] = (0, Some [], []))"
  by code_simp

end
