(* ===== verification/Latest_Snapshot.thy ===== *)
theory Latest_Snapshot
  imports Store_Contract "HOL-Library.Product_Lexorder"
begin

section \<open>The state graph store: the latest snapshot\<close>

text \<open>
  The search for the latest snapshot compares descriptors pairwise and keeps the better one. Here it is related to its
  specification: the snapshots are ranked lexicographically by their four counters and the id, and the search finds the
  greatest of those that match the options. The result is proved of every store with the contract \<open>snapshot_store\<close>.
\<close>

text \<open>What is used of doubles: \<open>json_get_double\<close> reads a number that was set, and the two comparisons are those of a
  linear order (JSON has no NaN), given by \<open>val\<close>.\<close>

definition json_double_laws :: "('j, 'd) json_lib \<Rightarrow> ('j, 'd) json_doubles \<Rightarrow> ('d \<Rightarrow> 'o::linorder) \<Rightarrow> bool" where
  "json_double_laws J D val \<longleftrightarrow>
     (\<forall>obj k d default. jl_type J obj = JSON_OBJECT \<longrightarrow> jl_object_get J obj k = Some (jl_number_of J d) \<longrightarrow>
        jd_get_double D obj k default = d) \<and>
     (\<forall>x y. jd_ne D x y \<longleftrightarrow> val x \<noteq> val y) \<and> (\<forall>x y. jd_gt D x y \<longleftrightarrow> val x > val y)"

definition counter_rank ::
    "('j, 'd) json_lib \<Rightarrow> ('j, 'd) json_doubles \<Rightarrow> ('d \<Rightarrow> 'o::linorder) \<Rightarrow> string \<Rightarrow> 'j \<Rightarrow> 'o \<times> 'o \<times> 'o \<times> 'o \<times> string" where
  "counter_rank J D val i counters =
     (let get = (\<lambda>k. val (jd_get_double D counters k (jl_double_zero J)))
      in (get ''next_history_id'', get ''next_checkpoint_id'', get ''next_run_id'', get ''next_thread_id'', i))"

definition snapshot_rank ::
    "('j, 'd) json_lib \<Rightarrow> ('j, 'd) json_doubles \<Rightarrow> ('d \<Rightarrow> 'o::linorder) \<Rightarrow> string \<times> 'j \<Rightarrow> 'o \<times> 'o \<times> 'o \<times> 'o \<times> string" where
  "snapshot_rank J D val p = counter_rank J D val (fst p) (the (jl_object_get J (snd p) ''runtime''))"

definition descriptor :: "('j, 'd) json_lib \<Rightarrow> ('j, 'd) json_doubles \<Rightarrow> string \<times> 'j \<Rightarrow> 'j option" where
  "descriptor J D p = fst (snd (turbo_state_graph_store_make_snapshot_descriptor J D (fst p) (snd p) []))"

subsection \<open>One descriptor\<close>

lemma make_descriptor_cases:
  assumes "turbo_state_graph_store_make_snapshot_descriptor J D i v a = (rc, out, a')"
  shows "(a = [] \<longrightarrow> a' = []) \<and> ((rc = 0 \<and> out \<noteq> None \<and> out = descriptor J D (i, v)) \<or>
    (rc \<noteq> 0 \<and> out = None \<and> (a \<noteq> [] \<or> descriptor J D (i, v) = None)))"
proof -
  obtain ok b where "alloc1 a = (ok, b)" by fastforce
  then show ?thesis
    using assms by (cases ok) (auto simp: turbo_state_graph_store_make_snapshot_descriptor_def descriptor_def split: option.splits if_splits)
qed

lemma object_adds:
  assumes "json_laws J"
  shows "jl_type J obj = JSON_OBJECT \<Longrightarrow> jl_type J (fold (\<lambda>kv obj. jl_object_add J obj (fst kv) (snd kv)) kvs obj) = JSON_OBJECT \<and>
    jl_object_get J (fold (\<lambda>kv obj. jl_object_add J obj (fst kv) (snd kv)) kvs obj) k =
      (case map_of (rev kvs) k of None \<Rightarrow> jl_object_get J obj k | Some v \<Rightarrow> Some v)"
proof (induction kvs arbitrary: obj)
  case (Cons kv kvs)
  then show ?case using json_obj(3,4) [OF assms Cons.prems] by (simp add: map_add_def split: option.split)
qed simp

lemma descriptor_made:
  assumes "descriptor J D p = Some d"
  obtains runtime topology channels nodes edges threads runs history where
    "jl_object_get J (snd p) ''runtime'' = Some runtime"
    "d = descriptor_of J D (fst p) (snd p) topology runtime channels nodes edges threads runs history"
proof -
  let ?ex = "\<exists>topology runtime channels nodes edges threads runs history. jl_object_get J (snd p) ''runtime'' = Some runtime \<and>
    d = descriptor_of J D (fst p) (snd p) topology runtime channels nodes edges threads runs history"
  have ?ex
  proof (cases "jl_object_get J (snd p) ''runtime''")
    case (Some runtime)
    then show ?thesis using assms unfolding descriptor_def turbo_state_graph_store_make_snapshot_descriptor_def
      by (simp split: option.splits if_splits) blast
  next
    case None
    then show ?thesis using assms unfolding descriptor_def turbo_state_graph_store_make_snapshot_descriptor_def
      by (simp split: option.splits if_splits)
  qed
  then show ?thesis using that by (elim exE conjE)
qed

lemma descriptor_members:
  assumes "json_laws J" and "json_double_laws J D val" and "descriptor J D p = Some d"
  shows "jl_type J d = JSON_OBJECT \<and> jl_get_string J d ''snapshot_id'' = Some (fst p) \<and>
    counter_rank J D val (fst p) d = snapshot_rank J D val p"
proof -
  obtain runtime topology channels nodes edges threads runs history where
    r: "jl_object_get J (snd p) ''runtime'' = Some runtime"
    and d: "d = descriptor_of J D (fst p) (snd p) topology runtime channels nodes edges threads runs history"
    by (rule descriptor_made [OF assms(3)])
  let ?num = "\<lambda>k x. (k, jl_number_of J x)"
  let ?get = "\<lambda>k. (k, jl_number_of J (jd_get_double D runtime k (jl_double_zero J)))"
  let ?size = "\<lambda>k x. (k, jl_number_of J (jl_double_of_int J (int x)))"
  let ?kvs = "[(''snapshot_id'', jl_string_of J (fst p)),
    ?num ''snapshot_version'' (jd_get_double D (snd p) ''snapshot_version'' (jl_double_zero J)),
    (''graph_name'', null_or J (jl_get_string J topology ''graph_name'')), (''entry_node'', null_or J (jl_get_string J topology ''entry_node'')),
    ?size ''channel_count'' (jl_array_size J channels), ?size ''node_count'' (jl_array_size J nodes),
    ?size ''edge_count'' (jl_array_size J edges), ?size ''thread_count'' (jl_array_size J threads),
    ?size ''run_count'' (jl_array_size J runs), ?size ''history_count'' (jl_array_size J history),
    ?size ''checkpoint_count'' (jl_array_size J history), ?get ''next_thread_id'', ?get ''next_run_id'', ?get ''next_history_id'',
    ?get ''next_checkpoint_id'',
    ?size ''interrupted_run_count'' (turbo_state_graph_store_count_runs_by_status J runs ''interrupted''),
    ?size ''completed_run_count'' (turbo_state_graph_store_count_runs_by_status J runs ''completed'')]"
  have "d = fold (\<lambda>kv obj. jl_object_add J obj (fst kv) (snd kv)) ?kvs (jl_object J)"
    unfolding d descriptor_of_def turbo_state_graph_store_descriptor_set_nullable_string_def Let_def
    by (simp only: fold_simps prod.sel json_obj(5,6) [OF assms(1)] null_or_def)
  then have d: "jl_type J d = JSON_OBJECT" "\<And>k. jl_object_get J d k = (case map_of (rev ?kvs) k of None \<Rightarrow> None | Some v \<Rightarrow> Some v)"
    using object_adds [OF assms(1) json_obj(1) [OF assms(1)], of ?kvs] by (simp_all only: json_obj(2) [OF assms(1)])
  have get: "jd_get_double D d k e = x" if "jl_object_get J d k = Some (jl_number_of J x)" for k e x
    using assms(2) d(1) that by (simp add: json_double_laws_def)
  have "counter_rank J D val (fst p) d = snapshot_rank J D val p"
    unfolding counter_rank_def snapshot_rank_def r Let_def prod.inject by (intro conjI arg_cong [of _ _ val] get refl) (simp_all add: d(2))
  moreover have "jl_object_get J d ''snapshot_id'' = Some (jl_string_of J (fst p))" by (simp add: d(2))
  ultimately show ?thesis
    using d(1) by (simp add: json_obj(7) [OF assms(1)] json_str [OF assms(1)] turbo_runtime_json_value_as_string_def)
qed

lemma strcmp_greater_0: "strcmp a b > 0 \<longleftrightarrow> b < a"
  by (auto simp: strcmp_def)

lemma lexicographic_greater:
  fixes a1 a2 a3 a4 b1 b2 b3 b4 :: "'o::linorder" and i j :: "'i::linorder"
  shows "(if a1 \<noteq> b1 then Some (a1 > b1) else if a2 \<noteq> b2 then Some (a2 > b2) else if a3 \<noteq> b3 then Some (a3 > b3)
    else if a4 \<noteq> b4 then Some (a4 > b4) else Some (i > j)) = Some ((a1, a2, a3, a4, i) > (b1, b2, b3, b4, j))"
  by auto

lemma newer_iff_greater:
  assumes "json_laws J" and "json_double_laws J D val" and "descriptor J D p = Some d" and "descriptor J D q = Some e"
  shows "turbo_state_graph_store_descriptor_is_newer J D d (Some e) = Some (snapshot_rank J D val p > snapshot_rank J D val q)"
proof -
  note p = descriptor_members [OF assms(1-3)] and q = descriptor_members [OF assms(1,2,4)]
  have "turbo_state_graph_store_descriptor_is_newer J D d (Some e) =
      Some (counter_rank J D val (fst p) d > counter_rank J D val (fst q) e)"
    using p q assms(2) unfolding json_double_laws_def turbo_state_graph_store_descriptor_is_newer_def counter_rank_def Let_def
    by (simp only: option.case prod.case strcmp_greater_0 lexicographic_greater simp_thms)
  then show ?thesis using p q by simp
qed

subsection \<open>The two loops\<close>

lemma latest_loop_greatest:
  assumes "json_laws J" and "json_double_laws J D val"
  shows "\<forall>p \<in> set ps. descriptor J D p = Some (f p) \<Longrightarrow> \<forall>p \<in> set_option b. descriptor J D p = Some (f p) \<Longrightarrow>
    \<exists>rc out a'. latest_loop J D (map (\<lambda>p. Some (f p)) ps) (map_option f b) a = Some (rc, out, a') \<and>
      ((out = None \<and> rc \<noteq> 0 \<and> (a \<noteq> [] \<or> (ps = [] \<and> b = None))) \<or>
       (\<exists>p \<in> set ps \<union> set_option b. out = Some (f p) \<and> rc = 0 \<and>
          (\<forall>q \<in> set ps \<union> set_option b. snapshot_rank J D val q \<le> snapshot_rank J D val p)))"
proof (induction ps arbitrary: b a)
  case Nil
  then show ?case by (cases b) auto
next
  case (Cons p ps)
  have obj: "jl_type J (f p) = JSON_OBJECT" using descriptor_members [OF assms, of p "f p"] Cons.prems(1) by simp
  obtain ok a1 where a1: "alloc1 a = (ok, a1)" by fastforce
  have newer: "turbo_state_graph_store_descriptor_is_newer J D (f p) (map_option f b) =
      Some (case b of None \<Rightarrow> True | Some q \<Rightarrow> snapshot_rank J D val p > snapshot_rank J D val q)"
    using newer_iff_greater [OF assms, of p "f p"] Cons.prems
    by (cases b) (auto simp: turbo_state_graph_store_descriptor_is_newer_def)
  show ?case
  proof (cases "case b of None \<Rightarrow> True | Some q \<Rightarrow> snapshot_rank J D val p > snapshot_rank J D val q")
    case True
    obtain rc out a' where 1: "latest_loop J D (map (\<lambda>p. Some (f p)) ps) (Some (f p)) a1 = Some (rc, out, a')"
      "(out = None \<and> rc \<noteq> 0 \<and> a1 \<noteq> []) \<or> (\<exists>q \<in> set (p # ps). out = Some (f q) \<and> rc = 0 \<and>
         (\<forall>r \<in> set (p # ps). snapshot_rank J D val r \<le> snapshot_rank J D val q))"
      using Cons.IH [of "Some p" a1] Cons.prems by auto
    have less: "\<forall>r \<in> set_option b. snapshot_rank J D val r \<le> snapshot_rank J D val p" using True by auto
    have loop: "latest_loop J D (map (\<lambda>p. Some (f p)) (p # ps)) (map_option f b) a =
        (if ok then Some (rc, out, a') else Some (- 1, None, a1))"
      using 1(1) a1 True obj newer by (simp add: Let_def)
    show ?thesis
    proof (cases ok)
      case False
      then have "a \<noteq> []" using a1 by auto
      then show ?thesis using loop False by auto
    next
      case True
      note loop = loop [unfolded if_P [OF True]]
      have less: "\<forall>r \<in> set (p # ps) \<union> set_option b. snapshot_rank J D val r \<le> snapshot_rank J D val q"
        if q: "\<forall>r \<in> set (p # ps). snapshot_rank J D val r \<le> snapshot_rank J D val q" for q
      proof (intro ballI, elim UnE)
        fix r assume "r \<in> set_option b"
        then have "snapshot_rank J D val r \<le> snapshot_rank J D val p" using less by blast
        also have "\<dots> \<le> snapshot_rank J D val q" using q by simp
        finally show "snapshot_rank J D val r \<le> snapshot_rank J D val q" .
      qed (rule bspec [OF q])
      from 1(2) show ?thesis
      proof (elim disjE bexE conjE)
        assume "out = None" "rc \<noteq> 0" "a1 \<noteq> []"
        then show ?thesis using loop a1 by auto
      next
        fix q assume "q \<in> set (p # ps)" "out = Some (f q)" "rc = 0" and q: "\<forall>r \<in> set (p # ps). snapshot_rank J D val r \<le> snapshot_rank J D val q"
        then show ?thesis using loop less [OF q]
          by (intro exI [of _ rc] exI [of _ out] exI [of _ a'] conjI disjI2 bexI [of _ q] UnI1)
      qed
    qed
  next
    case False
    then obtain q where b: "b = Some q" "snapshot_rank J D val p \<le> snapshot_rank J D val q" by (auto split: option.splits)
    obtain rc out a' where 1: "latest_loop J D (map (\<lambda>p. Some (f p)) ps) (Some (f q)) a = Some (rc, out, a')"
      "(out = None \<and> rc \<noteq> 0 \<and> a \<noteq> []) \<or> (\<exists>p \<in> set (q # ps). out = Some (f p) \<and> rc = 0 \<and>
         (\<forall>r \<in> set (q # ps). snapshot_rank J D val r \<le> snapshot_rank J D val p))"
      using Cons.IH [of b a] Cons.prems b by auto
    have loop: "latest_loop J D (map (\<lambda>p. Some (f p)) (p # ps)) (map_option f b) a = Some (rc, out, a')"
      using 1(1) obj newer False b(1) by simp
    from 1(2) show ?thesis
    proof (elim disjE bexE conjE)
      assume "out = None" "rc \<noteq> 0" "a \<noteq> []"
      then show ?thesis using loop by auto
    next
      fix r assume r: "r \<in> set (q # ps)" "out = Some (f r)" "rc = 0" "\<forall>x \<in> set (q # ps). snapshot_rank J D val x \<le> snapshot_rank J D val r"
      then have "\<forall>x \<in> set (p # ps) \<union> set_option b. snapshot_rank J D val x \<le> snapshot_rank J D val r"
        using order.trans [OF b(2)] by (simp add: b(1))
      moreover have "r \<in> set (p # ps) \<union> set_option b" using r(1) by (auto simp: b(1))
      ultimately show ?thesis using loop r
        by (intro exI [of _ rc] exI [of _ out] exI [of _ a'] conjI disjI2 bexI [of _ r])
    qed
  qed
qed

text \<open>The snapshots of a map that match the options, in the order of the ids.\<close>

definition stored_match ::
    "('j, 'd) json_lib \<Rightarrow> turbo_state_graph_store_list_options option \<Rightarrow> (string \<Rightarrow> cstr) \<Rightarrow> string \<times> 'j \<Rightarrow> bool" where
  "stored_match J options m p \<longleftrightarrow> (\<exists>t. m (fst p) = Some t \<and> jl_parse J t = Some (snd p)) \<and>
     turbo_state_graph_store_snapshot_matches_options J (snd p) options"

definition all_readable ::
    "('j, 'd) json_lib \<Rightarrow> ('j, 'd) json_doubles \<Rightarrow> turbo_state_graph_store_list_options option \<Rightarrow> (string \<Rightarrow> cstr) \<Rightarrow> bool" where
  "all_readable J D options m \<longleftrightarrow> (\<forall>t \<in> Map.ran m. jl_parse J t \<noteq> None) \<and> (\<forall>p. stored_match J options m p \<longrightarrow> descriptor J D p \<noteq> None)"

definition no_limit :: "turbo_state_graph_store_list_options option \<Rightarrow> bool" where
  "no_limit options \<longleftrightarrow> (case options of None \<Rightarrow> True | Some o' \<Rightarrow> lo_limit o' = 0)"

context snapshot_store
begin

lemma filtered_loop_matches:
  assumes "inv s" and "no_limit options"
  shows "set ids \<subseteq> dom (abs s) \<Longrightarrow> map (value_string J) entries = map Some ids \<Longrightarrow>
    \<exists>rc out a'. filtered_loop J D (callbacks load save lister remove) options s entries n descriptors a = Some (rc, out, a') \<and>
      (a = [] \<longrightarrow> a' = []) \<and>
      ((out = None \<and> (a \<noteq> [] \<or> \<not> all_readable J D options (abs s))) \<or>
       (\<exists>ps ds. out = Some (foldl (jl_array_add J) descriptors ds) \<and> map (descriptor J D) ps = map Some ds \<and>
          set ps = {p. stored_match J options (abs s) p \<and> fst p \<in> set ids}))"
proof (induction ids arbitrary: entries n descriptors a)
  case Nil
  then show ?case by (auto intro: exI [of _ "[]"])
next
  case (Cons i ids)
  obtain e es where entries: "entries = e # es" "value_string J e = Some i" "map (value_string J) es = map Some ids"
    using Cons.prems(2) by (cases entries) auto
  obtain t where t: "abs s i = Some t" using Cons.prems(1) by auto
  obtain rc out a1 where l: "load i s a = (rc, out, a1)" by (metis prod_cases3)
  have law: "(a = [] \<longrightarrow> a1 = []) \<and> ((rc = 0 \<and> out = Some t) \<or> (rc \<noteq> 0 \<and> out = None \<and> a \<noteq> []))"
    using load_law [OF assms(1) stored_ok [OF assms(1)] l] t by auto
  have ran: "t \<in> Map.ran (abs s)" using t by (rule ranI)
  have lim: "\<not> (case options of None \<Rightarrow> False | Some o' \<Rightarrow> lo_limit o' > 0 \<and> n \<ge> unat (lo_limit o'))" for n
    using assms(2) by (auto simp: no_limit_def split: option.splits)
  note step = entries(1,2) lim callbacks_def load_parsed_def l turbo_state_graph_store_parse_json_def
  show ?case
  proof (cases "rc = 0 \<and> jl_parse J t \<noteq> None")
    case False
    then show ?thesis using law ran by (auto simp: step all_readable_def)
  next
    case True
    then obtain v where v: "jl_parse J t = Some v" and rc: "rc = 0" "out = Some t" "a = [] \<longrightarrow> a1 = []" using law by auto
    have here: "stored_match J options (abs s) (i, w) \<longleftrightarrow> w = v \<and> turbo_state_graph_store_snapshot_matches_options J v options" for w
      using t v by (auto simp: stored_match_def)
    have "set ids \<subseteq> dom (abs s)" using Cons.prems(1) by simp
    note ih = Cons.IH [OF this entries(3)]
    show ?thesis
    proof (cases "turbo_state_graph_store_snapshot_matches_options J v options")
      case no: False
      have "{p. stored_match J options (abs s) p \<and> fst p \<in> set (i # ids)} = {p. stored_match J options (abs s) p \<and> fst p \<in> set ids}"
        using here no by (auto simp: fst_def split: prod.splits)
      moreover have "filtered_loop J D (callbacks load save lister remove) options s entries n descriptors a =
          filtered_loop J D (callbacks load save lister remove) options s es n descriptors a1"
        using rc v no by (simp add: step)
      ultimately show ?thesis using ih [of n descriptors a1] rc(3) by auto metis+
    next
      case yes: True
      obtain rc2 d a2 where d: "turbo_state_graph_store_make_snapshot_descriptor J D i v a1 = (rc2, d, a2)" by (metis prod_cases3)
      note make = make_descriptor_cases [OF d]
      show ?thesis
      proof (cases d)
        case None
        have "stored_match J options (abs s) (i, v)" using here yes by simp
        then show ?thesis using None make rc v yes by (auto simp: step d all_readable_def)
      next
        case (Some x)
        have set: "{p. stored_match J options (abs s) p \<and> fst p \<in> set (i # ids)} =
            insert (i, v) {p. stored_match J options (abs s) p \<and> fst p \<in> set ids}"
          using here yes by (auto simp: fst_def split: prod.splits)
        obtain rc' out' a' where ih': "filtered_loop J D (callbacks load save lister remove) options s es (n + 1) (jl_array_add J descriptors x) a2 =
            Some (rc', out', a')" "a2 = [] \<longrightarrow> a' = []"
          "(out' = None \<and> (a2 \<noteq> [] \<or> \<not> all_readable J D options (abs s))) \<or>
           (\<exists>ps ds. out' = Some (foldl (jl_array_add J) (jl_array_add J descriptors x) ds) \<and> map (descriptor J D) ps = map Some ds \<and>
             set ps = {p. stored_match J options (abs s) p \<and> fst p \<in> set ids})"
          using ih [of "n + 1" "jl_array_add J descriptors x" a2] by blast
        have loop: "filtered_loop J D (callbacks load save lister remove) options s entries n descriptors a = Some (rc', out', a')"
          using ih'(1) Some rc v yes by (simp add: step d)
        from ih'(3) show ?thesis
        proof (elim disjE exE conjE)
          fix ps ds assume "out' = Some (foldl (jl_array_add J) (jl_array_add J descriptors x) ds)"
            "map (descriptor J D) ps = map Some ds" "set ps = {p. stored_match J options (abs s) p \<and> fst p \<in> set ids}"
          then have "out' = Some (foldl (jl_array_add J) descriptors (x # ds))" "map (descriptor J D) ((i, v) # ps) = map Some (x # ds)"
            "set ((i, v) # ps) = {p. stored_match J options (abs s) p \<and> fst p \<in> set (i # ids)}"
            using make Some set by auto
          then show ?thesis using loop ih'(2) make rc(3) by blast
        qed (use loop ih'(2) make rc(3) in auto)
      qed
    qed
  qed
qed

lemma listed_ids:
  assumes "json_laws J" and "json_text_laws J E" and "inv s"
    and "turbo_state_graph_store_list J (callbacks load save lister remove) s a = (rc, out, a')"
  shows "(a = [] \<longrightarrow> a' = []) \<and> ((out = None \<and> a \<noteq> []) \<or> (\<exists>v ids. out = Some v \<and> set ids = dom (abs s) \<and>
    map (value_string J) (map (jl_array_get J v) [0..<jl_array_size J v]) = map Some ids))"
proof -
  obtain rc1 out1 a1 where l: "lister s a = (rc1, out1, a1)" by (metis prod_cases3)
  note law = list_law [OF assms(3) l]
  show ?thesis
  proof (cases "rc1 = 0")
    case False
    then show ?thesis using law assms(4) by (auto simp: turbo_state_graph_store_list_def callbacks_def l)
  next
    case True
    then obtain ids where ids: "set ids = dom (abs s)" "out1 = Some (jl_serialize J (ids_json J ids))" using law by auto
    obtain v where v: "jl_parse J (jl_serialize J (ids_json J ids)) = Some v" "E (ids_json J ids) v"
      using assms(2) unfolding json_text_laws_def by blast
    have out: "out = Some v" "a' = a1"
      using assms(4) True by (simp_all add: turbo_state_graph_store_list_def callbacks_def l ids(2) turbo_state_graph_store_parse_json_def v(1))
    have size: "jl_array_size J v = length ids"
      using assms(2) v(2) json_arr(2) [OF assms(1)] unfolding json_text_laws_def ids_json_def by (metis length_map)
    have "value_string J (jl_array_get J v i) = Some (ids ! i)" if i: "i < length ids" for i
    proof -
      have "rel_option E (jl_array_get J (ids_json J ids) i) (jl_array_get J v i)"
        using assms(2) v(2) unfolding json_text_laws_def by blast
      then obtain w where w: "jl_array_get J v i = Some w" "E (jl_string_of J (ids ! i)) w"
        using i by (auto simp: json_arr(3) [OF assms(1)] ids_json_def option_rel_Some1)
      then have "jl_type J w = JSON_STRING" "jl_string J w = ids ! i"
        using assms(2) json_str [OF assms(1)] unfolding json_text_laws_def by metis+
      then show ?thesis by (simp add: value_string_def w(1))
    qed
    then have "map (value_string J) (map (jl_array_get J v) [0..<jl_array_size J v]) = map Some ids"
      by (intro nth_equalityI) (simp_all add: size)
    then show ?thesis using law ids(1) out by auto
  qed
qed

lemma latest_found:
  assumes "json_laws J" and "json_text_laws J E" and "json_double_laws J D val" and "inv s" and "no_limit options"
  shows "\<exists>rc out a'. turbo_state_graph_store_get_latest_snapshot_descriptor J D (callbacks load save lister remove) options s a =
      Some (rc, out, a') \<and>
    ((out = None \<and> rc \<noteq> 0 \<and> (a \<noteq> [] \<or> \<not> all_readable J D options (abs s) \<or> \<not> (\<exists>p. stored_match J options (abs s) p))) \<or>
     (\<exists>p. stored_match J options (abs s) p \<and> out \<noteq> None \<and> out = descriptor J D p \<and> rc = 0 \<and>
        (\<forall>q. stored_match J options (abs s) q \<longrightarrow> snapshot_rank J D val q \<le> snapshot_rank J D val p)))"
proof -
  let ?cb = "callbacks load save lister remove"
  obtain rc1 out1 a1 where 1: "turbo_state_graph_store_list J ?cb s a = (rc1, out1, a1)" by (metis prod_cases3)
  note listed = listed_ids [OF assms(1,2,4) 1]
  obtain ok a2 where 2: "alloc1 a1 = (ok, a2)" by fastforce
  show ?thesis
  proof (cases "out1 = None \<or> \<not> ok")
    case True
    then have "a \<noteq> []" using listed 2 by auto
    moreover obtain c where "turbo_state_graph_store_get_latest_snapshot_descriptor J D ?cb options s a = Some (- 1, None, c)"
      using True by (cases out1) (simp_all add: 1 2 turbo_state_graph_store_get_latest_snapshot_descriptor_def
          turbo_state_graph_store_list_snapshot_descriptors_filtered_def)
    ultimately show ?thesis by simp
  next
    case False
    then obtain v ids where v: "out1 = Some v" "ok" "set ids = dom (abs s)"
      "map (value_string J) (map (jl_array_get J v) [0..<jl_array_size J v]) = map Some ids" using listed by auto
    have a2: "a = [] \<longrightarrow> a2 = []" using listed 2 by auto
    have all: "stored_match J options (abs s) p \<and> fst p \<in> set ids \<longleftrightarrow> stored_match J options (abs s) p" for p
      by (auto simp: v(3) stored_match_def)
    obtain rc3 out3 a3 where 3: "filtered_loop J D ?cb options s (map (jl_array_get J v) [0..<jl_array_size J v]) 0 (jl_array J) a2 =
        Some (rc3, out3, a3)" "a2 = [] \<longrightarrow> a3 = []"
      "(out3 = None \<and> (a2 \<noteq> [] \<or> \<not> all_readable J D options (abs s))) \<or>
       (\<exists>ps ds. out3 = Some (foldl (jl_array_add J) (jl_array J) ds) \<and> map (descriptor J D) ps = map Some ds \<and>
          set ps = {p. stored_match J options (abs s) p})"
      using filtered_loop_matches [OF assms(4,5) equalityD1 [OF v(3)] v(4), of D 0 "jl_array J" a2, unfolded all]
      by (elim exE conjE) (rule that)
    have latest: "turbo_state_graph_store_get_latest_snapshot_descriptor J D ?cb options s a =
        (case out3 of None \<Rightarrow> Some (- 1, None, a3)
         | Some descriptors \<Rightarrow> latest_loop J D (map (jl_array_get J descriptors) [0..<jl_array_size J descriptors]) None a3)"
      using v(2) by (cases out3) (simp_all add: 1 2 v(1) 3(1) turbo_state_graph_store_get_latest_snapshot_descriptor_def
          turbo_state_graph_store_list_snapshot_descriptors_filtered_def)
    from 3(3) show ?thesis
    proof (elim disjE exE conjE)
      fix ps ds
      assume out3: "out3 = Some (foldl (jl_array_add J) (jl_array J) ds)" and ds: "map (descriptor J D) ps = map Some ds"
        and ps: "set ps = {p. stored_match J options (abs s) p}"
      let ?f = "\<lambda>p. the (descriptor J D p)"
      have f: "\<forall>p \<in> set ps. descriptor J D p = Some (?f p)"
      proof
        fix p assume "p \<in> set ps"
        then have "descriptor J D p \<in> set (map (descriptor J D) ps)" by simp
        then show "descriptor J D p = Some (?f p)" unfolding ds by auto
      qed
      have "map Some ds = map (\<lambda>p. Some (?f p)) ps" unfolding ds [symmetric] using f by (intro map_cong refl) simp
      moreover have "map (jl_array_get J (the out3)) [0..<jl_array_size J (the out3)] = map Some ds"
        by (intro nth_equalityI) (simp_all add: out3 json_arr [OF assms(1)])
      ultimately have loop: "turbo_state_graph_store_get_latest_snapshot_descriptor J D ?cb options s a =
          latest_loop J D (map (\<lambda>p. Some (?f p)) ps) (map_option ?f None) a3"
        unfolding latest by (simp add: out3)
      have a3: "a3 \<noteq> [] \<longrightarrow> a \<noteq> []" using a2 3(2) by blast
      have no_match: "ps = [] \<longleftrightarrow> \<not> (\<exists>p. stored_match J options (abs s) p)" unfolding set_empty [symmetric] ps by blast
      have none: "\<forall>p \<in> set_option None. descriptor J D p = Some (?f p)" by simp
      from latest_loop_greatest [OF assms(1,3) f none, of a3, folded loop, unfolded option.set Un_empty_right] show ?thesis
      proof (elim exE conjE disjE bexE)
        fix rc out a' p
        assume "turbo_state_graph_store_get_latest_snapshot_descriptor J D ?cb options s a = Some (rc, out, a')" and p: "p \<in> set ps"
          and out: "out = Some (?f p)" and "rc = 0" and "\<forall>q \<in> set ps. snapshot_rank J D val q \<le> snapshot_rank J D val p"
        moreover have "out = descriptor J D p" using f p out by simp
        moreover have "out \<noteq> None" using out by simp
        ultimately show ?thesis unfolding ps
          by (intro exI [of _ rc] exI [of _ out] exI [of _ a'] exI [of _ p] conjI disjI2) simp_all
      next
        fix rc out a'
        assume "turbo_state_graph_store_get_latest_snapshot_descriptor J D ?cb options s a = Some (rc, out, a')" "out = None" "rc \<noteq> 0"
          "a3 \<noteq> []"
        then show ?thesis using a3 by (intro exI [of _ rc] exI [of _ out] exI [of _ a'] conjI disjI1) simp_all
      next
        fix rc out a'
        assume "turbo_state_graph_store_get_latest_snapshot_descriptor J D ?cb options s a = Some (rc, out, a')" "out = None" "rc \<noteq> 0"
          "ps = []"
        then show ?thesis using no_match by blast
      qed
    qed (use latest a2 in auto)
  qed
qed

end

text \<open>C31. The latest snapshot of a file store whose directory holds only its own files is the greatest: among the stored
  snapshots that match the options, which set no limit, the search returns the descriptor of the one whose counters of history entries, checkpoints, runs and threads,
  then id, are lexicographically greatest. It fails only when a call of the C library fails, when no snapshot matches, or
  when some stored text is not a snapshot.\<close>

theorem file_store_latest_is_greatest:
  assumes "json_laws J" and "json_text_laws J E" and "json_double_laws J D val" and "file_inv s" and "no_limit options"
  shows "\<exists>rc out a'. turbo_state_graph_store_get_latest_snapshot_descriptor J D (file_callbacks J) options s a = Some (rc, out, a') \<and>
    ((out = None \<and> rc \<noteq> 0 \<and> (a \<noteq> [] \<or> \<not> all_readable J D options (file_abs s) \<or> \<not> (\<exists>p. stored_match J options (file_abs s) p))) \<or>
     (\<exists>p. stored_match J options (file_abs s) p \<and> out \<noteq> None \<and> out = descriptor J D p \<and> rc = 0 \<and>
        (\<forall>q. stored_match J options (file_abs s) q \<longrightarrow> snapshot_rank J D val q \<le> snapshot_rank J D val p)))"
  by (rule file_store.latest_found [OF assms])

subsection \<open>Evaluation on the reference library\<close>

text \<open>Doubles of the reference library are integers.\<close>

definition ref_doubles :: "(jv, int) json_doubles" where
  "ref_doubles = \<lparr>jd_get_double = (\<lambda>v k default. case jl_object_get ref_json v k of
       Some w \<Rightarrow> if jl_type ref_json w = JSON_NUMBER then jl_number ref_json w else default | None \<Rightarrow> default),
     jd_ne = (\<noteq>), jd_gt = (>)\<rparr>"

lemma ref_double_laws: "json_double_laws ref_json ref_doubles id"
  using ref_json_laws by (simp add: json_double_laws_def ref_doubles_def json_laws_def json_type_laws_def)

text \<open>Two snapshots, the one saved later under the lower id with the higher counter.\<close>

definition small_snapshot :: "int \<Rightarrow> jv" where
  "small_snapshot n = JObj [(''topology'', JObj [(''channels'', JArr []), (''nodes'', JArr []), (''edges'', JArr [])]),
     (''runtime'', JObj [(''threads'', JArr []), (''runs'', JArr []), (''history'', JArr []), (''next_history_id'', JDouble n)])]"

definition two_saves :: "store_op list" where
  "two_saves = [Store_Save ''z'' (jl_serialize ref_json (small_snapshot 1)), Store_Save ''b'' (jl_serialize ref_json (small_snapshot 2))]"

definition two_snapshots :: "turbo_state_graph_store_file_backend \<times> file_system" where
  "two_snapshots = fst (snd (run_ops (apply_store_op turbo_state_graph_store_file_save turbo_state_graph_store_file_delete) two_saves [] work_files))"

lemma two_snapshots_map:
  "file_inv two_snapshots \<and> file_abs two_snapshots k = (if k = ''b'' then Some (jl_serialize ref_json (small_snapshot 2))
     else if k = ''z'' then Some (jl_serialize ref_json (small_snapshot 1)) else None)"
proof -
  obtain rcs s a where r: "run_ops (apply_store_op turbo_state_graph_store_file_save turbo_state_graph_store_file_delete) two_saves [] work_files = (rcs, s, a)"
    by (metis prod_cases3)
  have ids: "file_id ''z''" "file_id ''b''" by code_simp+
  obtain rc1 s1 a1 where 1: "turbo_state_graph_store_file_save ''z'' (jl_serialize ref_json (small_snapshot 1)) work_files [] = (rc1, s1, a1)"
    by (metis prod_cases3)
  note law1 = file_store.save_law [OF work_files_inv ids(1) 1]
  obtain rc2 s2 a2 where 2: "turbo_state_graph_store_file_save ''b'' (jl_serialize ref_json (small_snapshot 2)) s1 a1 = (rc2, s2, a2)"
    by (metis prod_cases3)
  note law2 = file_store.save_law [OF conjunct1 [OF law1] ids(2) 2]
  have two: "two_snapshots = s2" by (simp add: two_snapshots_def two_saves_def 1 2)
  have "file_abs work_files k = None" by (simp add: file_abs_def work_files_def file_path_def file_dir_def)
  then show ?thesis using law1 law2 unfolding two by auto
qed

lemma two_snapshots_match:
  "stored_match ref_json None (file_abs two_snapshots) p \<longleftrightarrow> p = (''b'', small_snapshot 2) \<or> p = (''z'', small_snapshot 1)"
proof -
  have parse: "jl_parse ref_json (jl_serialize ref_json v) = Some v" for v using ref_text_laws unfolding json_text_laws_def by metis
  show ?thesis
    by (cases p) (auto simp: stored_match_def two_snapshots_map parse turbo_state_graph_store_snapshot_matches_options_def split: if_splits)
qed

lemma small_snapshot_descriptor: "descriptor ref_json ref_doubles (''b'', small_snapshot 2) \<noteq> None"
  "descriptor ref_json ref_doubles (''z'', small_snapshot 1) \<noteq> None"
  by code_simp+

lemma two_snapshots_readable: "all_readable ref_json ref_doubles None (file_abs two_snapshots)"
proof -
  have "jl_parse ref_json (jl_serialize ref_json v) \<noteq> None" for v using ref_text_laws unfolding json_text_laws_def by (metis option.distinct(1))
  then have "\<forall>t \<in> Map.ran (file_abs two_snapshots). jl_parse ref_json t \<noteq> None"
    by (auto simp: Map.ran_def two_snapshots_map split: if_splits)
  then show ?thesis unfolding all_readable_def two_snapshots_match using small_snapshot_descriptor by blast
qed

lemma file_store_latest_is_greatest_witness:
  "\<exists>d a'. turbo_state_graph_store_get_latest_snapshot_descriptor ref_json ref_doubles (file_callbacks ref_json) None two_snapshots [] =
     Some (0, Some d, a') \<and> jl_get_string ref_json d ''snapshot_id'' = Some ''b''"
proof -
  have "no_limit None" by (simp add: no_limit_def)
  from file_store_latest_is_greatest [OF ref_json_laws ref_text_laws ref_double_laws conjunct1 [OF two_snapshots_map] this, of "[]"]
    two_snapshots_readable
  obtain rc out a' p where r: "turbo_state_graph_store_get_latest_snapshot_descriptor ref_json ref_doubles (file_callbacks ref_json) None
      two_snapshots [] = Some (0, out, a')" "out \<noteq> None" "out = descriptor ref_json ref_doubles p"
    and p: "stored_match ref_json None (file_abs two_snapshots) p" "\<forall>q. stored_match ref_json None (file_abs two_snapshots) q \<longrightarrow>
      snapshot_rank ref_json ref_doubles id q \<le> snapshot_rank ref_json ref_doubles id p"
    unfolding two_snapshots_match by blast
  have "\<not> snapshot_rank ref_json ref_doubles id (''b'', small_snapshot 2) \<le> snapshot_rank ref_json ref_doubles id (''z'', small_snapshot 1)"
    by code_simp
  then have "p = (''b'', small_snapshot 2)" using p unfolding two_snapshots_match by blast
  moreover obtain d where "out = Some d" using r(2) by blast
  ultimately show ?thesis using r(1,3) descriptor_members [OF ref_json_laws ref_double_laws, of p d] by auto
qed

end
