(* ===== verification/Event_Model.thy ===== *)
theory Event_Model
  imports Graph_Run
begin

section \<open>Events: runtime\_data/src/turbo\_event.c\<close>

text \<open>
  The four kinds of event (model output, trace, tool result, handoff between agents) as JSON objects: how they are
  created, what the validators accept, the schemas that describe them, and the filter of an event stream. The function
  that creates trace events is in \<open>Graph_Run\<close>, which emits them.

  A validator returns \<open>None\<close> where the C code calls \<open>strcmp\<close> with a null pointer. A schema is built bottom-up: the C
  code puts the empty objects \<open>properties\<close> and \<open>required\<close> into the schema first and fills them through its pointers,
  with the results of these calls ignored (taken to succeed); the value it returns is the same.
\<close>

subsection \<open>Fields\<close>

definition turbo_event_set_optional_string_or_null_field ::
    "('j, 'd) json_lib \<Rightarrow> alloc \<Rightarrow> 'j \<Rightarrow> string \<Rightarrow> cstr \<Rightarrow> bool \<Rightarrow> bool \<times> 'j \<times> alloc" where
  "turbo_event_set_optional_string_or_null_field J a object key value set_null =
     (if value = None \<and> \<not> set_null then (True, object, a)
      else
        (case json_create a (case value of Some s \<Rightarrow> jl_string_of J s | None \<Rightarrow> jl_null J) of
           (None, a) \<Rightarrow> (False, object, a)
         | (Some field_value, a) \<Rightarrow>
            (case turbo_runtime_json_object_set J a object (Some key) (Some field_value) of
               (status, object, a) \<Rightarrow> (status = TURBO_RUNTIME_JSON_OK, object, a))))"

text \<open>The type \<open>["string", "null"]\<close>.\<close>

definition schema_types :: "('j, 'd) json_lib \<Rightarrow> alloc \<Rightarrow> 'j option \<times> alloc" where
  "schema_types J a =
     (case json_create a (jl_array J) of
        (None, a) \<Rightarrow> (None, a)
      | (Some types, a) \<Rightarrow>
         (case json_create a (jl_string_of J ''string'') of (s, a) \<Rightarrow>
            (case turbo_runtime_json_array_append J a types s of (status, types, a) \<Rightarrow>
               if status \<noteq> TURBO_RUNTIME_JSON_OK then (None, a)
               else
                 (case json_create a (jl_string_of J ''null'') of (s, a) \<Rightarrow>
                    (case turbo_runtime_json_array_append J a types s of (status, types, a) \<Rightarrow>
                       (if status \<noteq> TURBO_RUNTIME_JSON_OK then None else Some types, a))))))"

definition turbo_event_string_or_null_schema_field ::
    "('j, 'd) json_lib \<Rightarrow> string \<Rightarrow> bool \<Rightarrow> 'j \<Rightarrow> alloc \<Rightarrow> bool \<times> 'j \<times> alloc" where
  "turbo_event_string_or_null_schema_field J key allow_null properties a =
     (case json_create a (jl_object J) of
        (None, a) \<Rightarrow> (False, properties, a)
      | (Some field, a) \<Rightarrow>
         (case (if allow_null then schema_types J a else json_create a (jl_string_of J ''string'')) of
            (None, a) \<Rightarrow> (False, properties, a)
          | (Some type_value, a) \<Rightarrow>
             (case turbo_runtime_json_object_set J a field (Some ''type'') (Some type_value) of (status, field, a) \<Rightarrow>
                if status \<noteq> TURBO_RUNTIME_JSON_OK then (False, properties, a)
                else
                  (case turbo_runtime_json_object_set J a properties (Some key) (Some field) of
                     (status, properties, a) \<Rightarrow> (status = TURBO_RUNTIME_JSON_OK, properties, a)))))"

definition turbo_event_tool_result_optional_field_valid :: "('j, 'd) json_lib \<Rightarrow> 'j \<Rightarrow> string \<Rightarrow> bool \<Rightarrow> bool" where
  "turbo_event_tool_result_optional_field_valid J event key allow_null =
     (case jl_object_get J event key of
        None \<Rightarrow> True
      | Some value \<Rightarrow> jl_type J value = JSON_STRING \<or> (allow_null \<and> jl_type J value = JSON_NULL))"

definition turbo_event_required_string_or_null_field_valid :: "('j, 'd) json_lib \<Rightarrow> 'j \<Rightarrow> string \<Rightarrow> bool \<Rightarrow> bool" where
  "turbo_event_required_string_or_null_field_valid J event key allow_null =
     (case jl_object_get J event key of
        None \<Rightarrow> False
      | Some value \<Rightarrow> jl_type J value = JSON_STRING \<or> (allow_null \<and> jl_type J value = JSON_NULL))"

subsection \<open>Fields that link a tool result to the run it started\<close>

definition field_map :: "(string \<times> bool) list" where
  "field_map =
     [(''child_thread_id'', False), (''child_run_id'', False), (''child_checkpoint_id'', True), (''child_status'', False),
      (''parent_agent_run_id'', False), (''parent_tool_call_id'', False), (''parent_tool_name'', False),
      (''parent_graph_run_id'', False), (''call_frame_id'', False)]"

text \<open>The loop over the table; \<open>text_of object key value\<close> is how the two functions read a string.\<close>

fun attach_fields ::
    "('j, 'd) json_lib \<Rightarrow> ('j \<Rightarrow> string \<Rightarrow> 'j \<Rightarrow> cstr) \<Rightarrow> 'j \<Rightarrow> (string \<times> bool) list \<Rightarrow> 'j \<Rightarrow> alloc \<Rightarrow> bool \<times> 'j \<times> alloc" where
  "attach_fields J text_of object [] event a = (True, event, a)"
| "attach_fields J text_of object ((key, allow) # others) event a =
     (if jl_object_get J event key \<noteq> None then attach_fields J text_of object others event a
      else
        (case jl_object_get J object key of
           None \<Rightarrow> attach_fields J text_of object others event a
         | Some value \<Rightarrow>
            (let allow_null = allow \<and> jl_type J value = JSON_NULL;
                 json_text = text_of object key value
             in if json_text = None \<and> \<not> allow_null then attach_fields J text_of object others event a
                else
                  (case turbo_event_set_optional_string_or_null_field J a event key json_text allow_null of
                     (ok, event, a) \<Rightarrow>
                       if ok then attach_fields J text_of object others event a else (False, event, a)))))"

definition turbo_event_tool_result_attach_child_fields_from_json_value_object ::
    "('j, 'd) json_lib \<Rightarrow> 'j option \<Rightarrow> 'j \<Rightarrow> alloc \<Rightarrow> bool \<times> 'j \<times> alloc" where
  "turbo_event_tool_result_attach_child_fields_from_json_value_object J object event a =
     (case object of
        None \<Rightarrow> (True, event, a)
      | Some obj \<Rightarrow>
         if jl_type J obj \<noteq> JSON_OBJECT then (True, event, a)
         else attach_fields J (\<lambda>_ _ value. turbo_runtime_json_value_as_string J (Some value)) obj field_map event a)"

definition turbo_event_tool_result_attach_child_fields_from_output_json ::
    "('j, 'd) json_lib \<Rightarrow> cstr \<Rightarrow> 'j \<Rightarrow> alloc \<Rightarrow> bool \<times> 'j \<times> alloc" where
  "turbo_event_tool_result_attach_child_fields_from_output_json J output event a =
     (case output of
        Some (CHR ''{'' # rest) \<Rightarrow>
          (case jl_parse J (CHR ''{'' # rest) of
             None \<Rightarrow> (True, event, a)
           | Some output_json \<Rightarrow>
              if jl_type J output_json \<noteq> JSON_OBJECT then (True, event, a)
              else attach_fields J (\<lambda>object key value. if jl_type J value = JSON_STRING then jl_get_string J object key else None)
                     output_json field_map event a)
      | _ \<Rightarrow> (True, event, a))"

subsection \<open>Kinds and stream modes\<close>

definition turbo_event_kind_json_value :: "('j, 'd) json_lib \<Rightarrow> 'j option \<Rightarrow> cstr" where
  "turbo_event_kind_json_value J event =
     (case event of
        None \<Rightarrow> None
      | Some e \<Rightarrow>
         if jl_type J e \<noteq> JSON_OBJECT then None
         else
           (case jl_object_get J e ''kind'' of
              None \<Rightarrow> None
            | Some kind \<Rightarrow> if jl_type J kind \<noteq> JSON_STRING then None else turbo_runtime_json_value_as_string J (Some kind)))"

datatype turbo_event_stream_mode_t =
    TURBO_EVENT_STREAM_ALL | TURBO_EVENT_STREAM_MESSAGES | TURBO_EVENT_STREAM_UPDATES
  | TURBO_EVENT_STREAM_TOOLS | TURBO_EVENT_STREAM_DEBUG

record ('j, 'u) turbo_event_stream_filter =
  sf_mode :: turbo_event_stream_mode_t
  sf_sink :: "('j, 'u) event_sink"

definition turbo_event_stream_mode_accepts_json_value ::
    "('j, 'd) json_lib \<Rightarrow> turbo_event_stream_mode_t \<Rightarrow> 'j option \<Rightarrow> bool" where
  "turbo_event_stream_mode_accepts_json_value J mode event =
     (case turbo_event_kind_json_value J event of
        None \<Rightarrow> False
      | Some kind \<Rightarrow>
         (case mode of
            TURBO_EVENT_STREAM_ALL \<Rightarrow> True
          | TURBO_EVENT_STREAM_MESSAGES \<Rightarrow> strcmp kind ''model'' = 0
          | TURBO_EVENT_STREAM_UPDATES \<Rightarrow> strcmp kind ''model'' \<noteq> 0
          | TURBO_EVENT_STREAM_TOOLS \<Rightarrow> strcmp kind ''tool_result'' = 0
          | TURBO_EVENT_STREAM_DEBUG \<Rightarrow> strcmp kind ''trace'' = 0))"

definition turbo_event_stream_filter_sink_json_value ::
    "('j, 'd) json_lib \<Rightarrow> ('j, 'u) turbo_event_stream_filter option \<Rightarrow> 'j \<Rightarrow> 'u world \<Rightarrow> 'u world" where
  "turbo_event_stream_filter_sink_json_value J filter' event w =
     (case filter' of
        None \<Rightarrow> w
      | Some f \<Rightarrow>
         (case sf_sink f of
            None \<Rightarrow> w
          | Some sink \<Rightarrow>
             if turbo_event_stream_mode_accepts_json_value J (sf_mode f) (Some event) then sink event w else w))"

subsection \<open>Validators\<close>

text \<open>\<open>strcmp(turbo_runtime_json_value_as_string(kind), name) != 0\<close>\<close>

definition kind_differs :: "('j, 'd) json_lib \<Rightarrow> 'j \<Rightarrow> string \<Rightarrow> bool option" where
  "kind_differs J kind name = map_option (\<lambda>s. strcmp s name \<noteq> 0) (turbo_runtime_json_value_as_string J (Some kind))"

text \<open>\<open>return -1\<close> when the kind differs, else the rest of the validation.\<close>

definition with_kind :: "('j, 'd) json_lib \<Rightarrow> 'j \<Rightarrow> string \<Rightarrow> bool \<Rightarrow> int option" where
  "with_kind J kind name valid =
     (case kind_differs J kind name of
        None \<Rightarrow> None
      | Some differs \<Rightarrow> if differs then Some (- 1) else if valid then Some 0 else Some (- 1))"

definition tool_call_valid :: "('j, 'd) json_lib \<Rightarrow> 'j option \<Rightarrow> bool" where
  "tool_call_valid J call =
     (case call of
        None \<Rightarrow> False
      | Some c \<Rightarrow> jl_type J c = JSON_OBJECT \<and> jl_object_get J c ''call_id'' \<noteq> None \<and>
                 jl_object_get J c ''name'' \<noteq> None \<and> jl_object_get J c ''arguments'' \<noteq> None)"

definition turbo_event_model_validate_json_value :: "('j, 'd) json_lib \<Rightarrow> 'j option \<Rightarrow> int option" where
  "turbo_event_model_validate_json_value J event =
     (case event of
        None \<Rightarrow> Some (- 1)
      | Some e \<Rightarrow>
         if jl_type J e \<noteq> JSON_OBJECT then Some (- 1)
         else
           (case (jl_object_get J e ''kind'', jl_object_get J e ''response_id'', jl_object_get J e ''output_text'',
                  jl_object_get J e ''tool_calls'') of
              (Some kind, Some response_id, Some output_text, Some tool_calls) \<Rightarrow>
                with_kind J kind ''model''
                  (jl_type J response_id = JSON_STRING \<and> jl_type J output_text = JSON_STRING \<and>
                   jl_type J tool_calls = JSON_ARRAY \<and>
                   (\<forall>i \<in> set [0..<turbo_runtime_json_value_size J (Some tool_calls)].
                      tool_call_valid J (jl_array_get J tool_calls i)))
            | _ \<Rightarrow> Some (- 1)))"

definition turbo_event_trace_validate_json_value :: "('j, 'd) json_lib \<Rightarrow> 'j option \<Rightarrow> int option" where
  "turbo_event_trace_validate_json_value J event =
     (case event of
        None \<Rightarrow> Some (- 1)
      | Some e \<Rightarrow>
         if jl_type J e \<noteq> JSON_OBJECT then Some (- 1)
         else
           (case (jl_object_get J e ''kind'', jl_object_get J e ''name'', jl_object_get J e ''detail'',
                  jl_object_get J e ''payload'', jl_object_get J e ''status'') of
              (Some kind, Some name, Some detail, Some payload, Some status) \<Rightarrow>
                with_kind J kind ''trace''
                  (jl_type J name = JSON_STRING \<and> jl_type J detail = JSON_STRING \<and> jl_type J payload = JSON_STRING \<and>
                   jl_type J status = JSON_NUMBER)
            | _ \<Rightarrow> Some (- 1)))"

definition turbo_event_tool_result_validate_json_value :: "('j, 'd) json_lib \<Rightarrow> 'j option \<Rightarrow> int option" where
  "turbo_event_tool_result_validate_json_value J event =
     (case event of
        None \<Rightarrow> Some (- 1)
      | Some e \<Rightarrow>
         if jl_type J e \<noteq> JSON_OBJECT then Some (- 1)
         else
           (case (jl_object_get J e ''kind'', jl_object_get J e ''name'', jl_object_get J e ''arguments_json'',
                  jl_object_get J e ''output'', jl_object_get J e ''status'') of
              (Some kind, Some name, Some arguments_json, Some output, Some status) \<Rightarrow>
                with_kind J kind ''tool_result''
                  (jl_type J name = JSON_STRING \<and> jl_type J arguments_json = JSON_STRING \<and>
                   jl_type J output = JSON_STRING \<and> jl_type J status = JSON_NUMBER \<and>
                   (\<forall>(key, allow_null) \<in> set field_map. turbo_event_tool_result_optional_field_valid J e key allow_null))
            | _ \<Rightarrow> Some (- 1)))"

definition turbo_event_handoff_validate_json_value :: "('j, 'd) json_lib \<Rightarrow> 'j option \<Rightarrow> int option" where
  "turbo_event_handoff_validate_json_value J event =
     (case event of
        None \<Rightarrow> Some (- 1)
      | Some e \<Rightarrow>
         if jl_type J e \<noteq> JSON_OBJECT then Some (- 1)
         else
           (case (jl_object_get J e ''kind'', jl_object_get J e ''phase'', jl_object_get J e ''status'') of
              (Some kind, Some phase, Some status) \<Rightarrow>
                with_kind J kind ''handoff''
                  (jl_type J phase = JSON_STRING \<and> jl_type J status = JSON_NUMBER \<and>
                   turbo_event_required_string_or_null_field_valid J e ''from_agent'' True \<and>
                   turbo_event_required_string_or_null_field_valid J e ''target_agent'' True \<and>
                   turbo_event_required_string_or_null_field_valid J e ''reason'' True \<and>
                   turbo_event_required_string_or_null_field_valid J e ''active_agent'' True)
            | _ \<Rightarrow> Some (- 1)))"

definition turbo_event_validate_json_value :: "('j, 'd) json_lib \<Rightarrow> 'j option \<Rightarrow> int option" where
  "turbo_event_validate_json_value J event =
     (case turbo_event_kind_json_value J event of
        None \<Rightarrow> Some (- 1)
      | Some kind \<Rightarrow>
         if strcmp kind ''model'' = 0 then turbo_event_model_validate_json_value J event
         else if strcmp kind ''trace'' = 0 then turbo_event_trace_validate_json_value J event
         else if strcmp kind ''tool_result'' = 0 then turbo_event_tool_result_validate_json_value J event
         else if strcmp kind ''handoff'' = 0 then turbo_event_handoff_validate_json_value J event
         else Some (- 1))"

subsection \<open>Schemas\<close>

text \<open>\<open>{"type": ...}\<close>, and an object schema with its properties and required keys. The three containers are created first,
  all of them before the test.\<close>

definition type_field :: "('j, 'd) json_lib \<Rightarrow> string \<Rightarrow> 'j" where
  "type_field J name = jl_object_add J (jl_object J) ''type'' (jl_string_of J name)"

definition typed_properties :: "('j, 'd) json_lib \<Rightarrow> (string \<times> string) list \<Rightarrow> 'j" where
  "typed_properties J kts = foldl (\<lambda>properties (key, name). jl_object_add J properties key (type_field J name)) (jl_object J) kts"

definition required_keys :: "('j, 'd) json_lib \<Rightarrow> string list \<Rightarrow> 'j" where
  "required_keys J keys = foldl (\<lambda>required key. jl_array_add J required (jl_string_of J key)) (jl_array J) keys"

definition object_schema :: "('j, 'd) json_lib \<Rightarrow> 'j \<Rightarrow> 'j \<Rightarrow> 'j" where
  "object_schema J properties required =
     jl_object_add J (jl_object_add J (type_field J ''object'') ''properties'' properties) ''required'' required"

definition schema_containers :: "alloc \<Rightarrow> bool \<times> alloc" where
  "schema_containers a =
     (case alloc1 a of (ok1, a) \<Rightarrow> case alloc1 a of (ok2, a) \<Rightarrow> case alloc1 a of (ok3, a) \<Rightarrow> (ok1 \<and> ok2 \<and> ok3, a))"

definition turbo_event_tool_call_schema_json_value :: "('j, 'd) json_lib \<Rightarrow> alloc \<Rightarrow> 'j option \<times> alloc" where
  "turbo_event_tool_call_schema_json_value J a =
     (case schema_containers a of (ok, a) \<Rightarrow>
        if \<not> ok then (None, a)
        else (Some (object_schema J
                (typed_properties J [(''call_id'', ''string''), (''name'', ''string''), (''arguments'', ''string'')])
                (required_keys J [''call_id'', ''name'', ''arguments''])), a))"

definition turbo_event_model_schema_json_value :: "('j, 'd) json_lib \<Rightarrow> alloc \<Rightarrow> 'j option \<times> alloc" where
  "turbo_event_model_schema_json_value J a =
     (case schema_containers a of (ok, a) \<Rightarrow>
        if \<not> ok then (None, a)
        else
          (case alloc1 a of (field_ok, a) \<Rightarrow>
             (case turbo_event_tool_call_schema_json_value J a of (items, a) \<Rightarrow>
                (case items of
                   None \<Rightarrow> (None, a)
                 | Some i \<Rightarrow>
                    if \<not> field_ok then (None, a)
                    else (Some (object_schema J
                            (jl_object_add J (typed_properties J [(''kind'', ''string''), (''response_id'', ''string''),
                                                                  (''output_text'', ''string'')])
                               ''tool_calls'' (jl_object_add J (type_field J ''array'') ''items'' i))
                            (required_keys J [''kind'', ''response_id'', ''output_text'', ''tool_calls''])), a)))))"

definition turbo_event_trace_schema_json_value :: "('j, 'd) json_lib \<Rightarrow> alloc \<Rightarrow> 'j option \<times> alloc" where
  "turbo_event_trace_schema_json_value J a =
     (case schema_containers a of (ok, a) \<Rightarrow>
        if \<not> ok then (None, a)
        else (Some (object_schema J
                (typed_properties J [(''kind'', ''string''), (''name'', ''string''), (''detail'', ''string''),
                                     (''payload'', ''string''), (''status'', ''integer'')])
                (required_keys J [''kind'', ''name'', ''detail'', ''payload'', ''status''])), a))"

definition turbo_event_tool_result_schema_json_value :: "('j, 'd) json_lib \<Rightarrow> alloc \<Rightarrow> 'j option \<times> alloc" where
  "turbo_event_tool_result_schema_json_value J a =
     (case schema_containers a of (ok, a) \<Rightarrow>
        if \<not> ok then (None, a)
        else
          (case set_fields (map (\<lambda>(key, allow_null). turbo_event_string_or_null_schema_field J key allow_null) field_map)
                  (typed_properties J [(''kind'', ''string''), (''name'', ''string''), (''arguments_json'', ''string''),
                                       (''output'', ''string''), (''status'', ''integer'')]) a of
             (None, a) \<Rightarrow> (None, a)
           | (Some properties, a) \<Rightarrow>
              (Some (object_schema J properties
                 (required_keys J [''kind'', ''name'', ''arguments_json'', ''output'', ''status''])), a)))"

definition turbo_event_handoff_schema_json_value :: "('j, 'd) json_lib \<Rightarrow> alloc \<Rightarrow> 'j option \<times> alloc" where
  "turbo_event_handoff_schema_json_value J a =
     (case schema_containers a of (ok, a) \<Rightarrow>
        if \<not> ok then (None, a)
        else
          (case set_fields [turbo_event_string_or_null_schema_field J ''from_agent'' True,
                            turbo_event_string_or_null_schema_field J ''target_agent'' True,
                            turbo_event_string_or_null_schema_field J ''reason'' True,
                            turbo_event_string_or_null_schema_field J ''active_agent'' True]
                  (typed_properties J [(''kind'', ''string''), (''phase'', ''string'')]) a of
             (None, a) \<Rightarrow> (None, a)
           | (Some properties, a) \<Rightarrow>
              (Some (object_schema J (jl_object_add J properties ''status'' (type_field J ''integer''))
                 (required_keys J [''kind'', ''phase'', ''from_agent'', ''target_agent'', ''reason'', ''active_agent'', ''status''])), a)))"

subsection \<open>Creating events\<close>

text \<open>A string member, \<open>turbo_event_set_string_field(...) != 0 || ...\<close>.\<close>

abbreviation e_string :: "('j, 'd) json_lib \<Rightarrow> string \<Rightarrow> cstr \<Rightarrow> 'j \<Rightarrow> alloc \<Rightarrow> bool \<times> 'j \<times> alloc" where
  "e_string J key value \<equiv> \<lambda>event a. turbo_event_set_string_field J a event key value"

abbreviation e_nullable :: "('j, 'd) json_lib \<Rightarrow> string \<Rightarrow> cstr \<Rightarrow> 'j \<Rightarrow> alloc \<Rightarrow> bool \<times> 'j \<times> alloc" where
  "e_nullable J key value \<equiv> \<lambda>event a. turbo_event_set_optional_string_or_null_field J a event key value True"

definition turbo_event_model_create_json_value ::
    "('j, 'd) json_lib \<Rightarrow> alloc \<Rightarrow> cstr \<Rightarrow> cstr \<Rightarrow> 'j option \<Rightarrow> 'j option \<times> alloc" where
  "turbo_event_model_create_json_value J a response_id output_text tool_calls =
     (case json_create a (jl_object J) of
        (None, a) \<Rightarrow> (None, a)
      | (Some event, a) \<Rightarrow>
         (case set_fields [e_string J ''kind'' (Some ''model''), e_string J ''response_id'' response_id,
                           e_string J ''output_text'' output_text] event a of
            (None, a) \<Rightarrow> (None, a)
          | (Some event, a) \<Rightarrow>
             (case json_create a (case tool_calls of Some v \<Rightarrow> v | None \<Rightarrow> jl_array J) of
                (None, a) \<Rightarrow> (None, a)
              | (Some tool_calls_copy, a) \<Rightarrow> set_fields [f_value J ''tool_calls'' tool_calls_copy] event a)))"

text \<open>The copy of the output value, then the link fields of the value and of the output text.\<close>

definition output_settings ::
    "('j, 'd) json_lib \<Rightarrow> cstr \<Rightarrow> 'j option \<Rightarrow> ('j \<Rightarrow> alloc \<Rightarrow> bool \<times> 'j \<times> alloc) list" where
  "output_settings J output output_value =
     (case output_value of
        None \<Rightarrow> []
      | Some v \<Rightarrow>
         [\<lambda>event a. case json_create a v of
                      (None, a) \<Rightarrow> (False, event, a)
                    | (Some output_value_copy, a) \<Rightarrow> f_value J ''output_value'' output_value_copy event a,
          turbo_event_tool_result_attach_child_fields_from_json_value_object J output_value]) @
     [turbo_event_tool_result_attach_child_fields_from_output_json J output]"

definition turbo_event_tool_result_create_json_value ::
    "('j, 'd) json_lib \<Rightarrow> alloc \<Rightarrow> cstr \<Rightarrow> cstr \<Rightarrow> cstr \<Rightarrow> 'j option \<Rightarrow> int \<Rightarrow> 'j option \<times> alloc" where
  "turbo_event_tool_result_create_json_value J a name arguments_json output output_value status =
     (case json_create a (jl_object J) of
        (None, a) \<Rightarrow> (None, a)
      | (Some event, a) \<Rightarrow>
         (case json_create a (jl_int64_of J status) of
            (None, a) \<Rightarrow> (None, a)
          | (Some status_value, a) \<Rightarrow>
             (case set_fields
                     [e_string J ''kind'' (Some ''tool_result''), e_string J ''name'' name,
                      e_string J ''arguments_json'' (Some (case arguments_json of Some s \<Rightarrow> s | None \<Rightarrow> ''{}'')),
                      e_string J ''output'' output, f_value J ''status'' status_value] event a of
                (None, a) \<Rightarrow> (None, a)
              | (Some event, a) \<Rightarrow>
                 set_fields (output_settings J output output_value) event a)))"

definition turbo_event_handoff_create_json_value ::
    "('j, 'd) json_lib \<Rightarrow> alloc \<Rightarrow> cstr \<Rightarrow> cstr \<Rightarrow> cstr \<Rightarrow> cstr \<Rightarrow> cstr \<Rightarrow> int \<Rightarrow> 'j option \<times> alloc" where
  "turbo_event_handoff_create_json_value J a phase from_agent target_agent reason active_agent status =
     (case json_create a (jl_object J) of
        (None, a) \<Rightarrow> (None, a)
      | (Some event, a) \<Rightarrow>
         (case json_create a (jl_int64_of J status) of
            (None, a) \<Rightarrow> (None, a)
          | (Some status_value, a) \<Rightarrow>
             set_fields
               [e_string J ''kind'' (Some ''handoff''), e_string J ''phase'' phase, e_nullable J ''from_agent'' from_agent,
                e_nullable J ''target_agent'' target_agent, e_nullable J ''reason'' reason,
                e_nullable J ''active_agent'' active_agent, f_value J ''status'' status_value] event a))"

end
