(* ===== verification/Event_Log.thy ===== *)
theory Event_Log
  imports Event_Model
begin

section \<open>Event logs: runtime/src/turbo\_event\_log.c and runtime/src/turbo\_graph\_run\_log.c\<close>

text \<open>
  An event log owns copies of validated events. A graph run log is an event log with the last checkpoint of a run; the
  functions \<open>..._log\<close> run a graph with the log as the sink of its events and the receiver of its checkpoints. The log a
  run writes to lives in the client's memory (\<open>logged\<close>), where the callbacks of the run find it.
\<close>

subsection \<open>The event log\<close>

datatype turbo_event_log_status_t =
    TURBO_EVENT_LOG_OK | TURBO_EVENT_LOG_INVALID_ARGUMENT | TURBO_EVENT_LOG_OUT_OF_MEMORY | TURBO_EVENT_LOG_INVALID_EVENT

record 'j turbo_event_log =
  el_events :: "'j list"
  el_capacity :: nat
  el_last_status :: turbo_event_log_status_t

text \<open>\<open>while (capacity < count) capacity *= 2;\<close> from a capacity that is not 0.\<close>

function reserve_loop :: "nat \<Rightarrow> nat \<Rightarrow> nat" where
  "reserve_loop capacity needed =
     (if capacity = 0 \<or> needed \<le> capacity then capacity else reserve_loop (capacity * 2) needed)"
  by pat_completeness auto
termination
  by (relation "measure (\<lambda>(capacity, needed). needed - capacity)") auto

declare reserve_loop.simps [simp del]

definition turbo_event_log_reserve ::
    "'j turbo_event_log \<Rightarrow> nat \<Rightarrow> alloc \<Rightarrow> turbo_event_log_status_t \<times> 'j turbo_event_log \<times> alloc" where
  "turbo_event_log_reserve log needed a =
     (if needed \<le> el_capacity log then (TURBO_EVENT_LOG_OK, log, a)
      else
        (let capacity = reserve_loop (if el_capacity log \<noteq> 0 then el_capacity log * 2 else 8) needed
         in case alloc1 a of (ok, a) \<Rightarrow>
              if \<not> ok then (TURBO_EVENT_LOG_OUT_OF_MEMORY, log, a)
              else (TURBO_EVENT_LOG_OK, log\<lparr>el_capacity := capacity\<rparr>, a)))"

definition turbo_event_log_create :: "alloc \<Rightarrow> 'j turbo_event_log option \<times> alloc" where
  "turbo_event_log_create a =
     (case alloc1 a of (ok, a) \<Rightarrow>
        (if ok then Some \<lparr>el_events = [], el_capacity = 0, el_last_status = TURBO_EVENT_LOG_OK\<rparr> else None, a))"

text \<open>\<open>log->last_status = status; return log->last_status;\<close>\<close>

definition log_return ::
    "turbo_event_log_status_t \<Rightarrow> 'j turbo_event_log \<Rightarrow> alloc \<Rightarrow> turbo_event_log_status_t \<times> 'j turbo_event_log \<times> alloc" where
  "log_return status log a = (status, log\<lparr>el_last_status := status\<rparr>, a)"

definition turbo_event_log_append_json_value ::
    "('j, 'd) json_lib \<Rightarrow> 'j option \<Rightarrow> 'j turbo_event_log \<Rightarrow> alloc \<Rightarrow> turbo_event_log_status_t \<times> 'j turbo_event_log \<times> alloc" where
  "turbo_event_log_append_json_value J event log a =
     (case event of
        None \<Rightarrow> (TURBO_EVENT_LOG_INVALID_ARGUMENT, log, a)
      | Some e \<Rightarrow>
         if turbo_event_validate_json_value J event \<noteq> Some 0 then log_return TURBO_EVENT_LOG_INVALID_EVENT log a
         else
           (case turbo_event_log_reserve log (length (el_events log) + 1) a of (status, log, a) \<Rightarrow>
              if status \<noteq> TURBO_EVENT_LOG_OK then log_return status log a
              else
                (case json_create a e of
                   (None, a) \<Rightarrow> log_return TURBO_EVENT_LOG_OUT_OF_MEMORY log a
                 | (Some copy, a) \<Rightarrow>
                    log_return TURBO_EVENT_LOG_OK (log\<lparr>el_events := el_events log @ [copy]\<rparr>) a)))"

text \<open>The loop that clones, all or none.\<close>

fun clone_events :: "'j list \<Rightarrow> alloc \<Rightarrow> 'j list option \<times> alloc" where
  "clone_events [] a = (Some [], a)"
| "clone_events (e # es) a =
     (case json_create a e of
        (None, a) \<Rightarrow> (None, a)
      | (Some copy, a) \<Rightarrow> (case clone_events es a of (copies, a) \<Rightarrow> (map_option ((#) copy) copies, a)))"

definition turbo_event_log_append_events_json_value ::
    "('j, 'd) json_lib \<Rightarrow> 'j option \<Rightarrow> 'j turbo_event_log \<Rightarrow> alloc \<Rightarrow> turbo_event_log_status_t \<times> 'j turbo_event_log \<times> alloc" where
  "turbo_event_log_append_events_json_value J events log a =
     (case events of
        None \<Rightarrow> (TURBO_EVENT_LOG_INVALID_ARGUMENT, log, a)
      | Some es \<Rightarrow>
         if jl_type J es \<noteq> JSON_ARRAY then (TURBO_EVENT_LOG_INVALID_ARGUMENT, log, a)
         else
           (let needed = turbo_runtime_json_value_size J events;
                entries = map (jl_array_get J es) [0..<needed]
            in if \<exists>event \<in> set entries. event = None \<or> turbo_event_validate_json_value J event \<noteq> Some 0
               then log_return TURBO_EVENT_LOG_INVALID_EVENT log a
               else
                 (case turbo_event_log_reserve log (length (el_events log) + needed) a of (status, log, a) \<Rightarrow>
                    if status \<noteq> TURBO_EVENT_LOG_OK then log_return status log a
                    else
                      (case (if needed > 0 then alloc1 a else (True, a)) of (ok, a) \<Rightarrow>
                         if \<not> ok then log_return TURBO_EVENT_LOG_OUT_OF_MEMORY log a
                         else
                           (case clone_events (map the entries) a of
                              (None, a) \<Rightarrow> log_return TURBO_EVENT_LOG_OUT_OF_MEMORY log a
                            | (Some copies, a) \<Rightarrow>
                               log_return TURBO_EVENT_LOG_OK (log\<lparr>el_events := el_events log @ copies\<rparr>) a)))))"

definition turbo_event_log_capture_json_value ::
    "('j, 'd) json_lib \<Rightarrow> 'j \<Rightarrow> 'j turbo_event_log \<Rightarrow> alloc \<Rightarrow> 'j turbo_event_log \<times> alloc" where
  "turbo_event_log_capture_json_value J event log a =
     (case turbo_event_log_append_json_value J (Some event) log a of
        (status, log, a) \<Rightarrow> (log\<lparr>el_last_status := status\<rparr>, a))"

definition turbo_event_log_status :: "'j turbo_event_log \<Rightarrow> turbo_event_log_status_t" where
  "turbo_event_log_status log = el_last_status log"

definition turbo_event_log_reset :: "'j turbo_event_log \<Rightarrow> turbo_event_log_status_t \<times> 'j turbo_event_log" where
  "turbo_event_log_reset log =
     (TURBO_EVENT_LOG_OK, log\<lparr>el_events := [], el_last_status := TURBO_EVENT_LOG_OK\<rparr>)"

definition turbo_event_log_load_events_json_value ::
    "('j, 'd) json_lib \<Rightarrow> 'j option \<Rightarrow> 'j turbo_event_log \<Rightarrow> alloc \<Rightarrow> turbo_event_log_status_t \<times> 'j turbo_event_log \<times> alloc" where
  "turbo_event_log_load_events_json_value J events log a =
     (case turbo_event_log_reset log of (status, log) \<Rightarrow>
        if status \<noteq> TURBO_EVENT_LOG_OK then (status, log, a)
        else turbo_event_log_append_events_json_value J events log a)"

definition turbo_event_log_size :: "'j turbo_event_log \<Rightarrow> nat" where
  "turbo_event_log_size log = length (el_events log)"

definition turbo_event_log_get :: "'j turbo_event_log \<Rightarrow> nat \<Rightarrow> 'j option" where
  "turbo_event_log_get log index = (if index \<ge> length (el_events log) then None else Some (el_events log ! index))"

fun events_array :: "('j, 'd) json_lib \<Rightarrow> 'j list \<Rightarrow> 'j \<Rightarrow> alloc \<Rightarrow> 'j option \<times> alloc" where
  "events_array J [] events a = (Some events, a)"
| "events_array J (e # es) events a =
     (case json_create a e of
        (None, a) \<Rightarrow> (None, a)
      | (Some copy, a) \<Rightarrow>
         (case turbo_runtime_json_array_append J a events (Some copy) of (status, events, a) \<Rightarrow>
            if status \<noteq> TURBO_RUNTIME_JSON_OK then (None, a) else events_array J es events a))"

definition turbo_event_log_events_json_value :: "('j, 'd) json_lib \<Rightarrow> 'j turbo_event_log \<Rightarrow> alloc \<Rightarrow> 'j option \<times> alloc" where
  "turbo_event_log_events_json_value J log a =
     (case json_create a (jl_array J) of
        (None, a) \<Rightarrow> (None, a)
      | (Some events, a) \<Rightarrow> events_array J (el_events log) events a)"

definition turbo_event_log_replay_json_value ::
    "'j turbo_event_log \<Rightarrow> ('j, 'u) event_sink \<Rightarrow> 'u world \<Rightarrow> turbo_event_log_status_t \<times> 'u world" where
  "turbo_event_log_replay_json_value log event_sink w =
     (case event_sink of
        None \<Rightarrow> (TURBO_EVENT_LOG_INVALID_ARGUMENT, w)
      | Some sink \<Rightarrow> (TURBO_EVENT_LOG_OK, fold sink (el_events log) w))"

subsection \<open>The log of a graph run\<close>

record 'j turbo_graph_run_log =
  gl_events :: "'j turbo_event_log"
  gl_checkpoint :: "'j turbo_graph_checkpoint option"
  gl_capture_status :: turbo_graph_exec_status_t

text \<open>The client's memory: the log, and whatever else the callbacks use.\<close>

record ('j, 'v) logged =
  lg_log :: "'j turbo_graph_run_log"
  lg_client :: 'v

abbreviation world_log :: "('j, 'v) logged world \<Rightarrow> 'j turbo_graph_run_log" where
  "world_log w \<equiv> lg_log (cancel_heap.more w)"

abbreviation put_log :: "'j turbo_graph_run_log \<Rightarrow> ('j, 'v) logged world \<Rightarrow> ('j, 'v) logged world" where
  "put_log log w \<equiv> cancel_heap.more_update (lg_log_update (\<lambda>_. log)) w"

definition turbo_graph_run_log_clone_checkpoint ::
    "('j, 'd) json_lib \<Rightarrow> 'j turbo_graph_checkpoint \<Rightarrow> alloc \<Rightarrow>
     turbo_graph_exec_status_t \<times> 'j turbo_graph_checkpoint option \<times> alloc" where
  "turbo_graph_run_log_clone_checkpoint J checkpoint a =
     (case turbo_graph_checkpoint_serialize J a checkpoint of
        (None, a) \<Rightarrow> (TURBO_GRAPH_EXEC_OUT_OF_MEMORY, None, a)
      | (Some serialized, a) \<Rightarrow> turbo_graph_checkpoint_deserialize J a (Some serialized))"

definition turbo_graph_run_log_replace_checkpoint ::
    "('j, 'd) json_lib \<Rightarrow> 'j turbo_graph_checkpoint \<Rightarrow> 'j turbo_graph_run_log \<Rightarrow> alloc \<Rightarrow>
     turbo_graph_exec_status_t \<times> 'j turbo_graph_run_log \<times> alloc" where
  "turbo_graph_run_log_replace_checkpoint J checkpoint log a =
     (case turbo_graph_run_log_clone_checkpoint J checkpoint a of (status, copy, a) \<Rightarrow>
        if status \<noteq> TURBO_GRAPH_EXEC_OK then (status, log, a)
        else (TURBO_GRAPH_EXEC_OK, log\<lparr>gl_checkpoint := copy\<rparr>, a))"

definition turbo_graph_run_log_capture_checkpoint ::
    "('j, 'd) json_lib \<Rightarrow> ('j turbo_graph_checkpoint \<Rightarrow> ('j, 'v) logged world \<Rightarrow> ('j, 'v) logged world) option \<Rightarrow>
     'j turbo_graph_checkpoint \<Rightarrow> ('j, 'v) logged world \<Rightarrow> ('j, 'v) logged world" where
  "turbo_graph_run_log_capture_checkpoint J user_checkpoint_cb checkpoint w =
     (if gl_capture_status (world_log w) \<noteq> TURBO_GRAPH_EXEC_OK then w
      else
        (case turbo_graph_run_log_replace_checkpoint J checkpoint (world_log w) (ch_alloc w) of (status, log, a) \<Rightarrow>
           (let w = put_log (log\<lparr>gl_capture_status := status\<rparr>) (w\<lparr>ch_alloc := a\<rparr>)
            in (case user_checkpoint_cb of None \<Rightarrow> w | Some cb \<Rightarrow> cb checkpoint w))))"

text \<open>The sink the run gets: \<open>turbo_event_log_capture_json_value\<close> with the events of the log as its data.\<close>

definition log_sink :: "('j, 'd) json_lib \<Rightarrow> 'j \<Rightarrow> ('j, 'v) logged world \<Rightarrow> ('j, 'v) logged world" where
  "log_sink J event w =
     (case turbo_event_log_capture_json_value J event (gl_events (world_log w)) (ch_alloc w) of (events, a) \<Rightarrow>
        put_log ((world_log w)\<lparr>gl_events := events\<rparr>) (w\<lparr>ch_alloc := a\<rparr>))"

definition turbo_graph_run_log_create :: "alloc \<Rightarrow> 'j turbo_graph_run_log option \<times> alloc" where
  "turbo_graph_run_log_create a =
     (case alloc1 a of (ok, a) \<Rightarrow>
        if \<not> ok then (None, a)
        else
          (case turbo_event_log_create a of
             (None, a) \<Rightarrow> (None, a)
           | (Some events, a) \<Rightarrow>
              (Some \<lparr>gl_events = events, gl_checkpoint = None, gl_capture_status = TURBO_GRAPH_EXEC_OK\<rparr>, a)))"

definition turbo_graph_run_log_reset ::
    "'j turbo_graph_run_log \<Rightarrow> alloc \<Rightarrow> turbo_graph_exec_status_t \<times> 'j turbo_graph_run_log \<times> alloc" where
  "turbo_graph_run_log_reset log a =
     (case turbo_event_log_create a of
        (None, a) \<Rightarrow> (TURBO_GRAPH_EXEC_OUT_OF_MEMORY, log, a)
      | (Some events, a) \<Rightarrow>
         (TURBO_GRAPH_EXEC_OK,
          log\<lparr>gl_events := events, gl_checkpoint := None, gl_capture_status := TURBO_GRAPH_EXEC_OK\<rparr>, a))"

definition turbo_graph_run_log_events :: "'j turbo_graph_run_log \<Rightarrow> 'j turbo_event_log" where
  "turbo_graph_run_log_events log = gl_events log"

definition turbo_graph_run_log_checkpoint :: "'j turbo_graph_run_log \<Rightarrow> 'j turbo_graph_checkpoint option" where
  "turbo_graph_run_log_checkpoint log = gl_checkpoint log"

definition turbo_graph_run_log_finalize ::
    "'j turbo_graph_run_log \<Rightarrow> turbo_graph_exec_status_t \<Rightarrow> 'j option \<Rightarrow> turbo_graph_exec_status_t \<times> 'j option" where
  "turbo_graph_run_log_finalize log status out_state =
     (if gl_capture_status log \<noteq> TURBO_GRAPH_EXEC_OK then (gl_capture_status log, None)
      else if turbo_event_log_status (gl_events log) \<noteq> TURBO_EVENT_LOG_OK then (TURBO_GRAPH_EXEC_OUT_OF_MEMORY, None)
      else (status, out_state))"

text \<open>The options with the checkpoint callback replaced; without options, all zero.\<close>

definition effective_options ::
    "('j, 'd) json_lib \<Rightarrow> ('j, ('j, 'v) logged) turbo_graph_run_options option \<Rightarrow> ('j, ('j, 'v) logged) turbo_graph_run_options" where
  "effective_options J options =
     (let base = (case options of Some o' \<Rightarrow> o'
                  | None \<Rightarrow> \<lparr>ro_max_steps = 0, ro_start_node = None, ro_interrupt_before_nodes = [],
                            ro_skip_initial_interrupt = False, ro_checkpoint_cb = None\<rparr>)
      in base\<lparr>ro_checkpoint_cb := Some (turbo_graph_run_log_capture_checkpoint J (ro_checkpoint_cb base))\<rparr>)"

text \<open>A call that returned before the run: the result and the state are not written.\<close>

definition log_refused ::
    "turbo_graph_exec_status_t \<Rightarrow> ('j, 'u) turbo_graph \<Rightarrow> 'u world \<Rightarrow> ('j, 'u) run_call" where
  "log_refused status graph w =
     \<lparr>rc_status = status, rc_result = None, rc_state = None, rc_graph = graph, rc_world = w\<rparr>"

definition log_finish :: "('j, ('j, 'v) logged) run_call \<Rightarrow> ('j, ('j, 'v) logged) run_call" where
  "log_finish call =
     (case turbo_graph_run_log_finalize (world_log (rc_world call)) (rc_status call) (rc_state call) of (status, out_state) \<Rightarrow>
        call\<lparr>rc_status := status, rc_state := out_state\<rparr>)"

definition turbo_graph_run_json_value_log ::
    "('j, 'd) json_lib \<Rightarrow> ('j, ('j, 'v) logged) turbo_graph \<Rightarrow> 'j option \<Rightarrow>
     ('j, ('j, 'v) logged) turbo_graph_run_options option \<Rightarrow> ('j, 'v) logged world \<Rightarrow> ('j, ('j, 'v) logged) run_call option" where
  "turbo_graph_run_json_value_log J graph state options w =
     (case turbo_graph_run_log_reset (world_log w) (ch_alloc w) of (status, log, a) \<Rightarrow>
        let w = put_log log (w\<lparr>ch_alloc := a\<rparr>)
        in if status \<noteq> TURBO_GRAPH_EXEC_OK then Some (log_refused status graph w)
           else map_option log_finish
                  (turbo_graph_run_json_value_stream J graph state (Some (effective_options J options)) (Some (log_sink J)) w))"

text \<open>A clone that succeeds has a copy.\<close>

definition turbo_graph_run_checkpoint_json_value_log ::
    "('j, 'd) json_lib \<Rightarrow> ('j, ('j, 'v) logged) turbo_graph \<Rightarrow> 'j turbo_graph_checkpoint \<Rightarrow>
     ('j, ('j, 'v) logged) turbo_graph_run_options option \<Rightarrow> ('j, 'v) logged world \<Rightarrow> ('j, ('j, 'v) logged) run_call option" where
  "turbo_graph_run_checkpoint_json_value_log J graph checkpoint options w =
     (case turbo_graph_run_log_clone_checkpoint J checkpoint (ch_alloc w) of
        (status, copy, a) \<Rightarrow>
          if status \<noteq> TURBO_GRAPH_EXEC_OK then Some (log_refused status graph (w\<lparr>ch_alloc := a\<rparr>))
          else
            (case turbo_graph_run_log_reset (world_log w) a of (status, log, a) \<Rightarrow>
               let w = put_log log (w\<lparr>ch_alloc := a\<rparr>)
               in if status \<noteq> TURBO_GRAPH_EXEC_OK then Some (log_refused status graph w)
                  else map_option log_finish
                         (turbo_graph_run_checkpoint_json_value_stream J graph (the copy)
                            (Some (effective_options J options)) (Some (log_sink J)) w)))"

end
