(* ===== verification/Event_Promises.thy ===== *)
theory Event_Promises
  imports Event_Log State_Graph_Roundtrip
begin

section \<open>Events and event logs: what they promise\<close>

text \<open>
  Every event the library creates is one its validators accept; the validators accept what the schemas allow; an event
  log implements a list of valid events, and its exported form loads and replays to the same list.
\<close>

subsection \<open>Created events\<close>

lemma adds_event_settings:
  "adds J (e_string J k t) (k, jl_string_of J (case t of Some s \<Rightarrow> s | None \<Rightarrow> []))"
  "adds J (e_nullable J k t) (k, null_or J t)"
  by (auto simp: adds_def null_or_def turbo_event_set_string_field_def turbo_event_set_optional_string_or_null_field_def
      turbo_runtime_json_object_set_def json_create_def Let_def split: prod.splits if_splits option.splits)

lemmas event_adds = adds_event_settings adds_settings(4)

lemma created_members:
  assumes "json_laws J" and "set_fields fs (jl_object J) a = (Some e, a')" and "list_all2 (adds J) fs kvs" and "distinct (map fst kvs)"
  shows "members J kvs e"
  using set_fields_members [OF assms(1,3,4) json_obj(1) [OF assms(1)] assms(2)] by simp

text \<open>A member that is a string, a number, or a string or null.\<close>

lemma json_kinds:
  assumes "json_laws J"
  shows "jl_type J (jl_string_of J s) = JSON_STRING" "jl_type J (jl_int64_of J i) = JSON_NUMBER"
    "jl_type J (jl_array J) = JSON_ARRAY" "jl_array_size J (jl_array J) = 0"
    "jl_type J (null_or J t) = JSON_STRING \<or> jl_type J (null_or J t) = JSON_NULL"
    "kind_differs J (jl_string_of J s) name = Some (s \<noteq> name)"
  using assms by (auto simp: json_laws_def json_type_laws_def json_array_laws_def null_or_def kind_differs_def
      turbo_runtime_json_value_as_string_def split: option.split)

lemma members_get: "members J kvs e \<Longrightarrow> map_of kvs k = Some x \<Longrightarrow> jl_object_get J e k = Some x"
  by (simp add: members_def)

lemma members_object: "members J kvs e \<Longrightarrow> jl_type J e = JSON_OBJECT"
  by (simp add: members_def)

text \<open>The kind of an event decides which validator is asked.\<close>

lemma validate_of_kind:
  assumes "json_laws J" and "jl_type J e = JSON_OBJECT" and "jl_object_get J e ''kind'' = Some (jl_string_of J kind)"
  shows "turbo_event_kind_json_value J (Some e) = Some kind"
    "turbo_event_validate_json_value J (Some e) =
       (if kind = ''model'' then turbo_event_model_validate_json_value J (Some e)
        else if kind = ''trace'' then turbo_event_trace_validate_json_value J (Some e)
        else if kind = ''tool_result'' then turbo_event_tool_result_validate_json_value J (Some e)
        else if kind = ''handoff'' then turbo_event_handoff_validate_json_value J (Some e) else Some (- 1))"
proof -
  show kind: "turbo_event_kind_json_value J (Some e) = Some kind"
    using assms by (simp add: turbo_event_kind_json_value_def json_str [OF assms(1)] turbo_runtime_json_value_as_string_def)
  show "turbo_event_validate_json_value J (Some e) =
       (if kind = ''model'' then turbo_event_model_validate_json_value J (Some e)
        else if kind = ''trace'' then turbo_event_trace_validate_json_value J (Some e)
        else if kind = ''tool_result'' then turbo_event_tool_result_validate_json_value J (Some e)
        else if kind = ''handoff'' then turbo_event_handoff_validate_json_value J (Some e) else Some (- 1))"
    unfolding turbo_event_validate_json_value_def kind by simp
qed

definition accepted :: "('j, 'd) json_lib \<Rightarrow> string \<Rightarrow> 'j \<Rightarrow> bool" where
  "accepted J kind e \<longleftrightarrow> turbo_event_kind_json_value J (Some e) = Some kind \<and> turbo_event_validate_json_value J (Some e) = Some 0"

lemma trace_accepted:
  assumes "json_laws J" and "turbo_event_trace_create_json_value J a name detail payload status = (Some e, a')"
  shows "accepted J ''trace'' e"
proof -
  let ?s = "\<lambda>t. jl_string_of J (case t of Some s \<Rightarrow> s | None \<Rightarrow> [])"
  let ?kvs = "[(''kind'', ?s (Some ''trace'')), (''name'', ?s name), (''detail'', ?s detail), (''payload'', ?s payload),
    (''status'', jl_int64_of J status)]"
  obtain b where fields: "set_fields [e_string J ''kind'' (Some ''trace''), e_string J ''name'' name, e_string J ''detail'' detail,
      e_string J ''payload'' payload, f_value J ''status'' (jl_int64_of J status)] (jl_object J) b = (Some e, a')"
    using assms(2) unfolding turbo_event_trace_create_json_value_def
    by (auto simp: json_create_def Let_def simp del: set_fields.simps split: option.splits prod.splits if_splits)
  have m: "members J ?kvs e"
    by (rule created_members [OF assms(1) fields]) (intro list.rel_intros event_adds, simp)
  note get = members_get [OF m]
  have kind: "jl_object_get J e ''kind'' = Some (jl_string_of J ''trace'')" by (rule get) simp
  have "turbo_event_trace_validate_json_value J (Some e) = Some 0"
    unfolding turbo_event_trace_validate_json_value_def with_kind_def
    by (simp add: members_object [OF m] get json_kinds [OF assms(1)])
  then show ?thesis using validate_of_kind [OF assms(1) members_object [OF m] kind] by (simp add: accepted_def)
qed

lemma handoff_accepted:
  assumes "json_laws J" and "turbo_event_handoff_create_json_value J a phase from_agent target_agent reason active_agent status = (Some e, a')"
  shows "accepted J ''handoff'' e"
proof -
  let ?s = "\<lambda>t. jl_string_of J (case t of Some s \<Rightarrow> s | None \<Rightarrow> [])"
  let ?kvs = "[(''kind'', ?s (Some ''handoff'')), (''phase'', ?s phase), (''from_agent'', null_or J from_agent),
    (''target_agent'', null_or J target_agent), (''reason'', null_or J reason), (''active_agent'', null_or J active_agent),
    (''status'', jl_int64_of J status)]"
  obtain b where fields: "set_fields [e_string J ''kind'' (Some ''handoff''), e_string J ''phase'' phase, e_nullable J ''from_agent'' from_agent,
      e_nullable J ''target_agent'' target_agent, e_nullable J ''reason'' reason, e_nullable J ''active_agent'' active_agent,
      f_value J ''status'' (jl_int64_of J status)] (jl_object J) b = (Some e, a')"
    using assms(2) unfolding turbo_event_handoff_create_json_value_def
    by (auto simp: json_create_def Let_def simp del: set_fields.simps split: option.splits prod.splits if_splits)
  have m: "members J ?kvs e"
    by (rule created_members [OF assms(1) fields]) (intro list.rel_intros event_adds, simp)
  note get = members_get [OF m]
  have kind: "jl_object_get J e ''kind'' = Some (jl_string_of J ''handoff'')" by (rule get) simp
  have "turbo_event_handoff_validate_json_value J (Some e) = Some 0"
    unfolding turbo_event_handoff_validate_json_value_def with_kind_def turbo_event_required_string_or_null_field_valid_def
    by (simp add: members_object [OF m] get json_kinds [OF assms(1)])
  then show ?thesis using validate_of_kind [OF assms(1) members_object [OF m] kind] by (simp add: accepted_def)
qed

definition tool_calls_valid :: "('j, 'd) json_lib \<Rightarrow> 'j option \<Rightarrow> bool" where
  "tool_calls_valid J tool_calls \<longleftrightarrow>
     (case tool_calls of None \<Rightarrow> True
      | Some v \<Rightarrow> jl_type J v = JSON_ARRAY \<and> (\<forall>i < jl_array_size J v. tool_call_valid J (jl_array_get J v i)))"

lemma model_accepted:
  assumes "json_laws J" and "tool_calls_valid J tool_calls"
    and "turbo_event_model_create_json_value J a response_id output_text tool_calls = (Some e, a')"
  shows "accepted J ''model'' e"
proof -
  let ?s = "\<lambda>t. jl_string_of J (case t of Some s \<Rightarrow> s | None \<Rightarrow> [])"
  let ?calls = "case tool_calls of Some v \<Rightarrow> v | None \<Rightarrow> jl_array J"
  let ?kvs = "[(''kind'', ?s (Some ''model'')), (''response_id'', ?s response_id), (''output_text'', ?s output_text)]"
  obtain b e1 b1 b2 where f1: "set_fields [e_string J ''kind'' (Some ''model''), e_string J ''response_id'' response_id,
      e_string J ''output_text'' output_text] (jl_object J) b = (Some e1, b1)"
    and f2: "set_fields [f_value J ''tool_calls'' ?calls] e1 b2 = (Some e, a')"
    using assms(3) unfolding turbo_event_model_create_json_value_def
    by (auto simp: json_create_def Let_def simp del: set_fields.simps split: option.splits prod.splits if_splits)
  have m1: "members J ?kvs e1"
    by (rule created_members [OF assms(1) f1]) (intro list.rel_intros event_adds, simp)
  have m2: "members J [(''tool_calls'', ?calls)] e" "k \<noteq> ''tool_calls'' \<Longrightarrow> jl_object_get J e k = jl_object_get J e1 k" for k
    using set_fields_members [OF assms(1) _ _ members_object [OF m1] f2, of "[(''tool_calls'', ?calls)]"] event_adds(3) [of J "''tool_calls''" ?calls] by simp_all
  note get = members_get [OF m1] members_get [OF m2(1)] m2(2)
  have kind: "jl_object_get J e ''kind'' = Some (jl_string_of J ''model'')" by (simp add: get)
  have "turbo_event_model_validate_json_value J (Some e) = Some 0"
    using assms(2) unfolding turbo_event_model_validate_json_value_def with_kind_def tool_calls_valid_def
    by (cases tool_calls) (auto simp: members_object [OF m2(1)] get json_kinds [OF assms(1)] turbo_runtime_json_value_size_def)
  then show ?thesis using validate_of_kind [OF assms(1) members_object [OF m2(1)] kind] by (simp add: accepted_def)
qed

text \<open>Attaching the link fields leaves the members that are there, and what it adds is of the right type.\<close>

definition attached :: "('j, 'd) json_lib \<Rightarrow> (string \<times> bool) list \<Rightarrow> 'j \<Rightarrow> 'j \<Rightarrow> bool" where
  "attached J fs e e' \<longleftrightarrow> jl_type J e' = JSON_OBJECT \<and>
     (\<forall>k. jl_object_get J e' k = jl_object_get J e k \<or>
          (jl_object_get J e k = None \<and> k \<in> fst ` set fs \<and>
           (\<forall>allow. (k, allow) \<in> set fs \<longrightarrow> turbo_event_tool_result_optional_field_valid J e' k allow)))"

lemma attached_refl: "jl_type J e = JSON_OBJECT \<Longrightarrow> attached J fs e e"
  by (simp add: attached_def)

lemma attached_trans:
  "attached J fs e e1 \<Longrightarrow> attached J fs e1 e2 \<Longrightarrow> attached J fs e e2"
proof -
  assume 1: "attached J fs e e1" and 2: "attached J fs e1 e2"
  have "jl_object_get J e2 k = jl_object_get J e k \<or> (jl_object_get J e k = None \<and> k \<in> fst ` set fs \<and>
      (\<forall>allow. (k, allow) \<in> set fs \<longrightarrow> turbo_event_tool_result_optional_field_valid J e2 k allow))" for k
  proof (cases "jl_object_get J e2 k = jl_object_get J e1 k")
    case True
    then have "turbo_event_tool_result_optional_field_valid J e2 k allow = turbo_event_tool_result_optional_field_valid J e1 k allow" for allow
      by (simp add: turbo_event_tool_result_optional_field_valid_def)
    then show ?thesis using 1 True by (simp add: attached_def)
  next
    case False
    then have none: "jl_object_get J e1 k = None" and rest: "k \<in> fst ` set fs"
      "\<forall>allow. (k, allow) \<in> set fs \<longrightarrow> turbo_event_tool_result_optional_field_valid J e2 k allow"
      using 2 unfolding attached_def by blast+
    have "jl_object_get J e k = None" using 1 none unfolding attached_def by metis
    then show ?thesis using rest by blast
  qed
  then show ?thesis using 2 by (simp add: attached_def)
qed

lemma attached_add:
  assumes "json_laws J" and "distinct (map fst fs)" and "(key, allow) \<in> set fs" and "jl_type J e = JSON_OBJECT"
    and "jl_object_get J e key = None" and "jl_type J v = JSON_STRING \<or> (allow \<and> jl_type J v = JSON_NULL)"
  shows "attached J fs e (jl_object_add J e key v)"
proof -
  have "allow' = allow" if "(key, allow') \<in> set fs" for allow'
    using assms(2,3) that by (metis eq_key_imp_eq_value)
  then have "turbo_event_tool_result_optional_field_valid J (jl_object_add J e key v) key allow'" if "(key, allow') \<in> set fs" for allow'
    using that assms(6) by (simp add: turbo_event_tool_result_optional_field_valid_def json_obj(4) [OF assms(1,4)])
  moreover have "key \<in> fst ` set fs" using assms(3) by force
  ultimately show ?thesis
    using assms(5) by (simp add: attached_def json_obj(3,4) [OF assms(1,4)])
qed

lemma attach_fields_attached:
  assumes "json_laws J" and "distinct (map fst all)"
  shows "set fs \<subseteq> set all \<Longrightarrow> jl_type J e = JSON_OBJECT \<Longrightarrow> attach_fields J rd obj fs e a = (True, e', a') \<Longrightarrow> attached J all e e'"
proof (induction fs arbitrary: e a)
  case Nil
  then show ?case by (simp add: attached_refl)
next
  case (Cons f fs)
  obtain key allow where f: "f = (key, allow)" by (cases f)
  have here: "(key, allow) \<in> set all" "set fs \<subseteq> set all" using Cons.prems(1) f by simp_all
  show ?case
  proof (cases "attach_fields J rd obj fs e a = (True, e', a')")
    case True
    then show ?thesis using Cons.IH [OF here(2) Cons.prems(2)] by simp
  next
    case False
    then obtain v ok1 e1 a1 where v: "jl_object_get J e key = None" "jl_object_get J obj key = Some v"
        "rd obj key v \<noteq> None \<or> (allow \<and> jl_type J v = JSON_NULL)"
      and set: "turbo_event_set_optional_string_or_null_field J a e key (rd obj key v) (allow \<and> jl_type J v = JSON_NULL) = (True, e1, a1)"
      and rest: "attach_fields J rd obj fs e1 a1 = (True, e', a')"
      using Cons.prems(3) by (auto simp: f Let_def split: option.splits prod.splits if_splits)
    let ?x = "case rd obj key v of Some s \<Rightarrow> jl_string_of J s | None \<Rightarrow> jl_null J"
    have "e1 = jl_object_add J e key ?x"
      using set v(3) Cons.prems(2)
      by (auto simp: turbo_event_set_optional_string_or_null_field_def turbo_runtime_json_object_set_def json_create_def Let_def
          split: prod.splits if_splits option.splits)
    moreover have "jl_type J ?x = JSON_STRING \<or> (allow \<and> jl_type J ?x = JSON_NULL)"
      using v(3) assms(1) by (auto simp: json_laws_def json_type_laws_def split: option.split)
    ultimately have 1: "attached J all e e1" using attached_add [OF assms here(1) Cons.prems(2) v(1)] by simp
    then have "jl_type J e1 = JSON_OBJECT" by (simp add: attached_def)
    from attached_trans [OF 1 Cons.IH [OF here(2) this rest]] show ?thesis .
  qed
qed

lemma child_fields_attached:
  assumes "json_laws J" and "jl_type J e = JSON_OBJECT"
  shows "turbo_event_tool_result_attach_child_fields_from_json_value_object J obj e a = (True, e', a') \<Longrightarrow> attached J field_map e e'"
    "turbo_event_tool_result_attach_child_fields_from_output_json J output e a = (True, e', a') \<Longrightarrow> attached J field_map e e'"
proof -
  have d: "distinct (map fst field_map)" by (simp add: field_map_def)
  note attach = attach_fields_attached [OF assms(1) d subset_refl assms(2)]
  show "turbo_event_tool_result_attach_child_fields_from_json_value_object J obj e a = (True, e', a') \<Longrightarrow> attached J field_map e e'"
    using attach attached_refl [OF assms(2)]
    by (auto simp: turbo_event_tool_result_attach_child_fields_from_json_value_object_def split: option.splits if_splits)
  show "turbo_event_tool_result_attach_child_fields_from_output_json J output e a = (True, e', a') \<Longrightarrow> attached J field_map e e'"
    using attach attached_refl [OF assms(2)]
    by (auto simp: turbo_event_tool_result_attach_child_fields_from_output_json_def split: option.splits if_splits list.splits char.splits bool.splits)
qed

lemma tool_result_attached:
  assumes "json_laws J" and "jl_type J e = JSON_OBJECT"
    and "set_fields (output_settings J output output_value) e a = (Some e', a')"
  shows "\<exists>e1. jl_type J e1 = JSON_OBJECT \<and> (\<forall>k. k \<noteq> ''output_value'' \<longrightarrow> jl_object_get J e1 k = jl_object_get J e k) \<and> attached J field_map e1 e'"
proof (cases output_value)
  case None
  then have "attached J field_map e e'"
    using assms(3) child_fields_attached(2) [OF assms(1,2)] by (auto simp: output_settings_def split: prod.splits if_splits)
  then show ?thesis using assms(2) by blast
next
  case (Some v)
  then obtain b e1 b1 e2 b2 where 1: "f_value J ''output_value'' v e b = (True, e1, b1)"
    and 2: "turbo_event_tool_result_attach_child_fields_from_json_value_object J output_value e1 b1 = (True, e2, b2)"
    and 3: "turbo_event_tool_result_attach_child_fields_from_output_json J output e2 b2 = (True, e', a')"
    using assms(3) by (auto simp: output_settings_def json_create_def Let_def split: prod.splits if_splits option.splits)
  have e1: "e1 = jl_object_add J e ''output_value'' v"
    using adds_settings(4) [of J "''output_value''" v] 1 assms(2) unfolding adds_def fst_conv snd_conv by blast
  then have o1: "jl_type J e1 = JSON_OBJECT" using json_obj(3) [OF assms(1,2)] by simp
  have 12: "attached J field_map e1 e2" by (rule child_fields_attached(1) [OF assms(1) o1 2])
  then have "attached J field_map e2 e'" using child_fields_attached(2) [OF assms(1) _ 3] by (simp add: attached_def)
  with 12 have "attached J field_map e1 e'" by (rule attached_trans)
  then show ?thesis using o1 e1 json_obj(4) [OF assms(1,2)] by auto
qed

lemma tool_result_accepted:
  assumes "json_laws J" and "turbo_event_tool_result_create_json_value J a name arguments_json output output_value status = (Some e, a')"
  shows "accepted J ''tool_result'' e"
proof -
  let ?s = "\<lambda>t. jl_string_of J (case t of Some s \<Rightarrow> s | None \<Rightarrow> [])"
  let ?args = "case arguments_json of Some s \<Rightarrow> s | None \<Rightarrow> ''{}''"
  let ?kvs = "[(''kind'', ?s (Some ''tool_result'')), (''name'', ?s name), (''arguments_json'', ?s (Some ?args)), (''output'', ?s output),
    (''status'', jl_int64_of J status)]"
  obtain b e0 b0 where fields: "set_fields [e_string J ''kind'' (Some ''tool_result''), e_string J ''name'' name,
      e_string J ''arguments_json'' (Some ?args), e_string J ''output'' output, f_value J ''status'' (jl_int64_of J status)]
      (jl_object J) b = (Some e0, b0)"
    and attach: "set_fields (output_settings J output output_value) e0 b0 = (Some e, a')"
    using assms(2) unfolding turbo_event_tool_result_create_json_value_def
    by (auto simp: json_create_def Let_def simp del: set_fields.simps split: option.splits prod.splits if_splits)
  have adds: "list_all2 (adds J) [e_string J ''kind'' (Some ''tool_result''), e_string J ''name'' name,
      e_string J ''arguments_json'' (Some ?args), e_string J ''output'' output, f_value J ''status'' (jl_int64_of J status)] ?kvs"
    by (intro list.rel_intros event_adds)
  have dist: "distinct (map fst ?kvs)" by simp
  have m: "members J ?kvs e0" and other: "\<And>k. k \<notin> fst ` set ?kvs \<Longrightarrow> jl_object_get J e0 k = None"
    using set_fields_members [OF assms(1) adds dist json_obj(1) [OF assms(1)] fields] json_obj(2) [OF assms(1)] by auto
  obtain e1 where e1: "\<And>k. k \<noteq> ''output_value'' \<Longrightarrow> jl_object_get J e1 k = jl_object_get J e0 k" and att: "attached J field_map e1 e"
    using tool_result_attached [OF assms(1) members_object [OF m] attach] by blast
  have get: "jl_object_get J e k = Some x" if "map_of ?kvs k = Some x" for k x
  proof -
    have "k \<noteq> ''output_value''" using that by auto
    then have "jl_object_get J e1 k = Some x" using e1 members_get [OF m that] by simp
    then show ?thesis using att unfolding attached_def by (metis option.distinct(1))
  qed
  have links: "turbo_event_tool_result_optional_field_valid J e k allow" if k: "(k, allow) \<in> set field_map" for k allow
  proof (cases "jl_object_get J e k")
    case (Some x)
    have "k \<noteq> ''output_value''" "k \<notin> fst ` set ?kvs" using k by (auto simp: field_map_def)
    then have "jl_object_get J e1 k = None" using e1 other by simp
    then show ?thesis using Some att k unfolding attached_def by (metis option.distinct(1))
  qed (simp add: turbo_event_tool_result_optional_field_valid_def)
  have obj: "jl_type J e = JSON_OBJECT" using att by (simp add: attached_def)
  have kind: "jl_object_get J e ''kind'' = Some (jl_string_of J ''tool_result'')" by (rule get) simp
  have "turbo_event_tool_result_validate_json_value J (Some e) = Some 0"
    unfolding turbo_event_tool_result_validate_json_value_def with_kind_def
    using links by (simp add: obj get json_kinds [OF assms(1)] case_prod_beta)
  then show ?thesis using validate_of_kind [OF assms(1) obj kind] by (simp add: accepted_def)
qed

text \<open>C32. Every event the library creates is a valid event of its kind, whatever strings, status and output it is given and
  whatever allocations fail on the way: an event that a creating function returns is accepted by the validator (for a
  model event only when the tool calls given are an array of objects with the three members of a call; the function copies
  whatever it is given).\<close>

theorem created_events_valid:
  assumes "json_laws J" and "tool_calls_valid J tool_calls"
  shows "(\<forall>e a'. turbo_event_model_create_json_value J a response_id output_text tool_calls = (Some e, a') \<longrightarrow> accepted J ''model'' e) \<and>
    (\<forall>e a'. turbo_event_trace_create_json_value J a name detail payload status = (Some e, a') \<longrightarrow> accepted J ''trace'' e) \<and>
    (\<forall>e a'. turbo_event_tool_result_create_json_value J a name arguments_json output output_value status = (Some e, a') \<longrightarrow>
       accepted J ''tool_result'' e) \<and>
    (\<forall>e a'. turbo_event_handoff_create_json_value J a phase from_agent target_agent reason active_agent status = (Some e, a') \<longrightarrow>
       accepted J ''handoff'' e)"
  by (intro conjI allI impI; (erule model_accepted [OF assms] trace_accepted [OF assms(1)] tool_result_accepted [OF assms(1)]
      handoff_accepted [OF assms(1)]))

definition link_output :: jv where
  "link_output = JObj [(''child_run_id'', JStr ''run-1''), (''child_checkpoint_id'', JNull), (''call_frame_id'', JInt 4)]"

lemma created_events_valid_witness:
  "\<exists>e a'. turbo_event_tool_result_create_json_value ref_json [] (Some ''t'') None (Some ''{'') (Some link_output) 0 = (Some e, a') \<and>
     accepted ref_json ''tool_result'' e \<and> jl_get_string ref_json e ''child_run_id'' = Some ''run-1'' \<and>
     jl_object_get ref_json e ''call_frame_id'' = None"
proof -
  let ?r = "turbo_event_tool_result_create_json_value ref_json [] (Some ''t'') None (Some ''{'') (Some link_output) 0"
  have "map_option (\<lambda>e. (jl_get_string ref_json e ''child_run_id'', jl_object_get ref_json e ''call_frame_id'')) (fst ?r) =
    Some (Some ''run-1'', None)" by code_simp
  then obtain e a' where e: "?r = (Some e, a')" "jl_get_string ref_json e ''child_run_id'' = Some ''run-1''"
      "jl_object_get ref_json e ''call_frame_id'' = None" by (cases ?r) auto
  have "tool_calls_valid ref_json None" by (simp add: tool_calls_valid_def)
  with created_events_valid [OF ref_json_laws this] e show ?thesis by blast
qed

subsection \<open>Schemas\<close>

text \<open>What it means that a value conforms to a schema, for the keywords the schemas use.\<close>

definition has_type :: "('j, 'd) json_lib \<Rightarrow> string \<Rightarrow> 'j \<Rightarrow> bool" where
  "has_type J name v \<longleftrightarrow>
     (name = ''string'' \<and> jl_type J v = JSON_STRING) \<or> (name = ''null'' \<and> jl_type J v = JSON_NULL) \<or>
     (name = ''object'' \<and> jl_type J v = JSON_OBJECT) \<or> (name = ''array'' \<and> jl_type J v = JSON_ARRAY) \<or>
     (name = ''integer'' \<and> jl_type J v = JSON_NUMBER \<and> jl_double_int64 J (jl_number J v) \<noteq> None)"

definition type_names :: "('j, 'd) json_lib \<Rightarrow> 'j \<Rightarrow> string set" where
  "type_names J t =
     (if jl_type J t = JSON_STRING then {jl_string J t}
      else {jl_string J x |x. \<exists>i. jl_array_get J t i = Some x \<and> jl_type J x = JSON_STRING})"

definition schema_property :: "('j, 'd) json_lib \<Rightarrow> 'j \<Rightarrow> string \<Rightarrow> 'j option" where
  "schema_property J schema k = (case jl_object_get J schema ''properties'' of None \<Rightarrow> None | Some p \<Rightarrow> jl_object_get J p k)"

definition schema_requires :: "('j, 'd) json_lib \<Rightarrow> 'j \<Rightarrow> string set" where
  "schema_requires J schema =
     (case jl_object_get J schema ''required'' of None \<Rightarrow> {} | Some r \<Rightarrow> {jl_string J x |x. \<exists>i. jl_array_get J r i = Some x})"

inductive conforms :: "('j, 'd) json_lib \<Rightarrow> 'j \<Rightarrow> 'j \<Rightarrow> bool" for J where
  conforms_intro: "conforms J schema v"
    if "\<forall>t. jl_object_get J schema ''type'' = Some t \<longrightarrow> (\<exists>name \<in> type_names J t. has_type J name v)"
      and "\<forall>k s x. schema_property J schema k = Some s \<longrightarrow> jl_object_get J v k = Some x \<longrightarrow> conforms J s x"
      and "\<forall>k \<in> schema_requires J schema. jl_object_get J v k \<noteq> None"
      and "\<forall>s i x. jl_object_get J schema ''items'' = Some s \<longrightarrow> jl_array_get J v i = Some x \<longrightarrow> conforms J s x"

inductive_cases conforms_elim: "conforms J schema v"

lemma conforms_type:
  assumes "json_laws J" and "conforms J schema v" and "jl_object_get J schema ''type'' = Some (jl_string_of J name)"
  shows "has_type J name v"
  using assms(2,3) by (auto elim!: conforms_elim simp: type_names_def json_str [OF assms(1)])

lemma conforms_requires: "conforms J schema v \<Longrightarrow> k \<in> schema_requires J schema \<Longrightarrow> \<exists>x. jl_object_get J v k = Some x"
  by (auto elim!: conforms_elim)

lemma conforms_property:
  "conforms J schema v \<Longrightarrow> schema_property J schema k = Some s \<Longrightarrow> jl_object_get J v k = Some x \<Longrightarrow> conforms J s x"
  by (auto elim!: conforms_elim)

lemma conforms_items:
  "conforms J schema v \<Longrightarrow> jl_object_get J schema ''items'' = Some s \<Longrightarrow> jl_array_get J v i = Some x \<Longrightarrow> conforms J s x"
  by (auto elim!: conforms_elim)

text \<open>The parts of a schema that the code builds.\<close>

lemma type_field_get:
  assumes "json_laws J"
  shows "jl_type J (type_field J name) = JSON_OBJECT" "jl_object_get J (type_field J name) ''type'' = Some (jl_string_of J name)"
    "k \<noteq> ''type'' \<Longrightarrow> jl_object_get J (type_field J name) k = None"
  using json_obj(1-4) [OF assms] by (simp_all add: type_field_def)

lemma typed_properties_get:
  assumes "json_laws J"
  shows "distinct (map fst kts) \<Longrightarrow> jl_type J (typed_properties J kts) = JSON_OBJECT \<and>
    jl_object_get J (typed_properties J kts) k = map_option (type_field J) (map_of kts k)"
proof (induction kts rule: rev_induct)
  case (snoc kt kts)
  obtain key name where kt: "kt = (key, name)" by (cases kt)
  have "typed_properties J (kts @ [kt]) = jl_object_add J (typed_properties J kts) key (type_field J name)"
    by (simp add: typed_properties_def kt)
  moreover have "map_of kts key = None" using snoc.prems by (force simp: kt map_of_eq_None_iff)
  ultimately show ?case using snoc json_obj(3,4) [OF assms] by (auto simp: kt map_add_def split: option.split)
qed (simp add: typed_properties_def json_obj [OF assms])

lemma required_keys_get:
  assumes "json_laws J"
  shows "{jl_string J x |x. \<exists>i. jl_array_get J (required_keys J keys) i = Some x} = set keys"
proof -
  have "required_keys J keys = foldl (jl_array_add J) (jl_array J) (map (jl_string_of J) keys)"
    unfolding required_keys_def by (simp add: foldl_map)
  then have get: "jl_array_get J (required_keys J keys) i = (if i < length keys then Some (jl_string_of J (keys ! i)) else None)" for i
    using json_arr(3) [OF assms, of "map (jl_string_of J) keys" i] by simp
  then show ?thesis using json_str [OF assms] by (auto simp: in_set_conv_nth split: if_splits) (metis option.inject)
qed

lemma object_schema_get:
  assumes "json_laws J"
  shows "jl_object_get J (object_schema J p r) ''type'' = Some (jl_string_of J ''object'')"
    "schema_property J (object_schema J p r) k = jl_object_get J p k"
    "schema_requires J (object_schema J p (required_keys J keys)) = set keys"
  using json_obj(3,4) [OF assms] type_field_get [OF assms] required_keys_get [OF assms]
  by (simp_all add: object_schema_def schema_property_def schema_requires_def)

text \<open>A required member of a plain type.\<close>

lemma conforms_plain:
  assumes "json_laws J" and "conforms J (object_schema J p (required_keys J keys)) v" and "k \<in> set keys"
    and "jl_object_get J p k = Some (type_field J name)"
  obtains x where "jl_object_get J v k = Some x" "has_type J name x"
proof -
  obtain x where x: "jl_object_get J v k = Some x"
    using conforms_requires [OF assms(2)] assms(3) by (auto simp: object_schema_get(3) [OF assms(1)])
  have "conforms J (type_field J name) x"
    using conforms_property [OF assms(2) _ x] assms(4) by (simp add: object_schema_get(2) [OF assms(1)])
  from conforms_type [OF assms(1) this type_field_get(2) [OF assms(1)]] x show ?thesis by (rule that [rotated])
qed

lemma conforms_object:
  "json_laws J \<Longrightarrow> conforms J (object_schema J p r) v \<Longrightarrow> jl_type J v = JSON_OBJECT"
  using conforms_type [of J "object_schema J p r" v "''object''"] by (simp add: object_schema_get has_type_def)

lemma has_type_string: "has_type J ''string'' v \<longleftrightarrow> jl_type J v = JSON_STRING"
  and has_type_integer: "has_type J ''integer'' v \<Longrightarrow> jl_type J v = JSON_NUMBER"
  and has_type_array: "has_type J ''array'' v \<Longrightarrow> jl_type J v = JSON_ARRAY"
  by (simp_all add: has_type_def)

lemma string_kind:
  assumes "jl_type J e = JSON_OBJECT" and "jl_object_get J e ''kind'' = Some k" and "jl_type J k = JSON_STRING" and "jl_string J k = name"
  shows "turbo_event_kind_json_value J (Some e) = Some name" "kind_differs J k name = Some False"
  using assms by (simp_all add: turbo_event_kind_json_value_def turbo_runtime_json_value_as_string_def kind_differs_def)

definition event_kind :: "('j, 'd) json_lib \<Rightarrow> 'j \<Rightarrow> string \<Rightarrow> bool" where
  "event_kind J e name \<longleftrightarrow> (\<exists>k. jl_object_get J e ''kind'' = Some k \<and> jl_string J k = name)"

lemma conforms_plain_all:
  assumes "json_laws J" and "conforms J (object_schema J p (required_keys J keys)) v"
    and "\<forall>(k, name) \<in> set kts. k \<in> set keys \<and> jl_object_get J p k = Some (type_field J name)"
  shows "\<forall>(k, name) \<in> set kts. \<exists>x. jl_object_get J v k = Some x \<and> has_type J name x"
  using conforms_plain [OF assms(1,2)] assms(3) by (metis (mono_tags, lifting) case_prodD case_prodI2)

text \<open>The dispatch on a kind that is a string.\<close>

lemma validate_dispatch:
  assumes "jl_type J e = JSON_OBJECT" and "jl_object_get J e ''kind'' = Some k" and "jl_type J k = JSON_STRING" and "event_kind J e name"
  shows "kind_differs J k name = Some False" "turbo_event_validate_json_value J (Some e) =
       (if name = ''model'' then turbo_event_model_validate_json_value J (Some e)
        else if name = ''trace'' then turbo_event_trace_validate_json_value J (Some e)
        else if name = ''tool_result'' then turbo_event_tool_result_validate_json_value J (Some e)
        else if name = ''handoff'' then turbo_event_handoff_validate_json_value J (Some e) else Some (- 1))"
proof -
  have name: "jl_string J k = name" using assms(2,4) by (simp add: event_kind_def)
  note kind = string_kind [OF assms(1-3) name]
  show "kind_differs J k name = Some False" by (rule kind(2))
  show "turbo_event_validate_json_value J (Some e) =
       (if name = ''model'' then turbo_event_model_validate_json_value J (Some e)
        else if name = ''trace'' then turbo_event_trace_validate_json_value J (Some e)
        else if name = ''tool_result'' then turbo_event_tool_result_validate_json_value J (Some e)
        else if name = ''handoff'' then turbo_event_handoff_validate_json_value J (Some e) else Some (- 1))"
    unfolding turbo_event_validate_json_value_def kind(1) by simp
qed

lemma trace_conforms:
  assumes "json_laws J" and "turbo_event_trace_schema_json_value J a = (Some schema, a')" and "conforms J schema e"
    and "event_kind J e ''trace''"
  shows "turbo_event_validate_json_value J (Some e) = Some 0"
proof -
  let ?kts = "[(''kind'', ''string''), (''name'', ''string''), (''detail'', ''string''), (''payload'', ''string''), (''status'', ''integer'')]"
  have schema: "schema = object_schema J (typed_properties J ?kts) (required_keys J (map fst ?kts))"
    using assms(2) by (auto simp: turbo_event_trace_schema_json_value_def split: prod.splits if_splits)
  note c = assms(3) [unfolded schema]
  have "\<forall>(k, name) \<in> set ?kts. \<exists>x. jl_object_get J e k = Some x \<and> has_type J name x"
    by (rule conforms_plain_all [OF assms(1) c]) (simp add: conjunct2 [OF typed_properties_get [OF assms(1)]])
  then obtain k n d y s where get: "jl_object_get J e ''kind'' = Some k" "jl_object_get J e ''name'' = Some n"
      "jl_object_get J e ''detail'' = Some d" "jl_object_get J e ''payload'' = Some y" "jl_object_get J e ''status'' = Some s"
    and types: "jl_type J k = JSON_STRING" "jl_type J n = JSON_STRING" "jl_type J d = JSON_STRING" "jl_type J y = JSON_STRING"
      "jl_type J s = JSON_NUMBER" by (auto simp: has_type_string dest: has_type_integer)
  note obj = conforms_object [OF assms(1) c]
  note dispatch = validate_dispatch [OF obj get(1) types(1) assms(4)]
  show ?thesis by (simp add: dispatch turbo_event_trace_validate_json_value_def with_kind_def obj get types)
qed

text \<open>The schema of a string that may be null.\<close>

definition null_field :: "('j, 'd) json_lib \<Rightarrow> bool \<Rightarrow> 'j" where
  "null_field J allow_null =
     jl_object_add J (jl_object J) ''type''
       (if allow_null then jl_array_add J (jl_array_add J (jl_array J) (jl_string_of J ''string'')) (jl_string_of J ''null'')
        else jl_string_of J ''string'')"

lemma adds_schema_field: "json_laws J \<Longrightarrow> adds J (turbo_event_string_or_null_schema_field J key allow_null) (key, null_field J allow_null)"
  using json_obj(1) [of J]
  by (auto simp: adds_def null_field_def turbo_event_string_or_null_schema_field_def schema_types_def turbo_runtime_json_object_set_def
      turbo_runtime_json_array_append_def json_create_def Let_def split: prod.splits if_splits option.splits)

lemma conforms_null_field:
  assumes "json_laws J" and "conforms J (null_field J allow_null) v"
  shows "jl_type J v = JSON_STRING \<or> (allow_null \<and> jl_type J v = JSON_NULL)"
proof -
  let ?t = "jl_array_add J (jl_array_add J (jl_array J) (jl_string_of J ''string'')) (jl_string_of J ''null'')"
  have get: "jl_array_get J ?t i = (if i < 2 then Some ([jl_string_of J ''string'', jl_string_of J ''null''] ! i) else None)" for i
    using json_arr(3) [OF assms(1), of "[jl_string_of J ''string'', jl_string_of J ''null'']" i] by simp
  have "jl_type J ?t = JSON_ARRAY" using json_arr(1) [OF assms(1), of "[jl_string_of J ''string'', jl_string_of J ''null'']"] by simp
  then have "type_names J ?t \<subseteq> {''string'', ''null''}"
    by (auto simp: type_names_def get json_str [OF assms(1)] less_2_cases_iff split: if_splits)
  moreover have "type_names J (jl_string_of J ''string'') = {''string''}" by (simp add: type_names_def json_str [OF assms(1)])
  moreover have "\<exists>name \<in> type_names J (if allow_null then ?t else jl_string_of J ''string''). has_type J name v"
    using assms(2) by (elim conforms_elim) (simp add: null_field_def json_obj(1-4) [OF assms(1)])
  ultimately show ?thesis by (auto simp: has_type_def split: if_splits)
qed

lemma nullable_properties:
  assumes "json_laws J"
    and "set_fields (map (\<lambda>(key, allow_null). turbo_event_string_or_null_schema_field J key allow_null) fs) (typed_properties J kts) a = (Some p, a')"
    and "distinct (map fst kts @ map fst fs)"
  shows "jl_type J p = JSON_OBJECT \<and> (\<forall>(k, name) \<in> set kts. jl_object_get J p k = Some (type_field J name)) \<and>
    (\<forall>(k, allow) \<in> set fs. jl_object_get J p k = Some (null_field J allow))"
proof -
  let ?kvs = "map (\<lambda>(k, allow). (k, null_field J allow)) fs"
  have keys: "map fst ?kvs = map fst fs" by (simp add: case_prod_beta comp_def)
  have "list_all2 (adds J) (map (\<lambda>(key, allow_null). turbo_event_string_or_null_schema_field J key allow_null) fs) ?kvs"
    by (simp add: list_all2_conv_all_nth adds_schema_field [OF assms(1)] case_prod_beta)
  moreover have "jl_type J (typed_properties J kts) = JSON_OBJECT"
    and typed: "jl_object_get J (typed_properties J kts) k = map_option (type_field J) (map_of kts k)" for k
    using typed_properties_get [OF assms(1), of kts] assms(3) by auto
  moreover have dist: "distinct (map fst ?kvs)" unfolding keys using assms(3) by simp
  ultimately have m: "members J ?kvs p"
    and other: "\<And>k. k \<notin> fst ` set ?kvs \<Longrightarrow> jl_object_get J p k = map_option (type_field J) (map_of kts k)"
    using set_fields_members [OF assms(1) _ _ _ assms(2), of ?kvs] by simp_all
  have "jl_object_get J p k = Some (type_field J name)" if "(k, name) \<in> set kts" for k name
  proof -
    have "fst ` set ?kvs = fst ` set fs" using arg_cong [OF keys, of set] unfolding set_map .
    then have "k \<notin> fst ` set ?kvs" using assms(3) that by (auto simp: rev_image_eqI)
    then show ?thesis using other that assms(3) by simp
  qed
  moreover have "jl_object_get J p k = Some (null_field J allow)" if "(k, allow) \<in> set fs" for k allow
  proof (rule members_get [OF m])
    have "(k, null_field J allow) \<in> set ?kvs" using that by force
    then show "map_of ?kvs k = Some (null_field J allow)" by (rule map_of_is_SomeI [OF dist])
  qed
  ultimately show ?thesis using members_object [OF m] by auto
qed

lemma nullable_member:
  assumes "json_laws J" and "conforms J (object_schema J p r) v" and "jl_object_get J p k = Some (null_field J allow)"
  shows "turbo_event_tool_result_optional_field_valid J v k allow"
  using conforms_null_field [OF assms(1) conforms_property [OF assms(2)]] assms(3)
  by (auto simp: turbo_event_tool_result_optional_field_valid_def object_schema_get(2) [OF assms(1)] split: option.split)

lemma tool_result_conforms:
  assumes "json_laws J" and "turbo_event_tool_result_schema_json_value J a = (Some schema, a')" and "conforms J schema e"
    and "event_kind J e ''tool_result''"
  shows "turbo_event_validate_json_value J (Some e) = Some 0"
proof -
  let ?kts = "[(''kind'', ''string''), (''name'', ''string''), (''arguments_json'', ''string''), (''output'', ''string''), (''status'', ''integer'')]"
  obtain b p b' where p: "set_fields (map (\<lambda>(key, allow_null). turbo_event_string_or_null_schema_field J key allow_null) field_map)
      (typed_properties J ?kts) b = (Some p, b')" and schema: "schema = object_schema J p (required_keys J (map fst ?kts))"
    using assms(2) by (auto simp: turbo_event_tool_result_schema_json_value_def simp del: set_fields.simps split: prod.splits if_splits option.splits)
  have props: "\<forall>(k, name) \<in> set ?kts. jl_object_get J p k = Some (type_field J name)"
    "\<forall>(k, allow) \<in> set field_map. jl_object_get J p k = Some (null_field J allow)"
    using nullable_properties [OF assms(1) p] by (simp_all add: field_map_def)
  note c = assms(3) [unfolded schema]
  have "\<forall>(k, name) \<in> set ?kts. \<exists>x. jl_object_get J e k = Some x \<and> has_type J name x"
    by (rule conforms_plain_all [OF assms(1) c]) (use props(1) in simp)
  then obtain k n d y s where get: "jl_object_get J e ''kind'' = Some k" "jl_object_get J e ''name'' = Some n"
      "jl_object_get J e ''arguments_json'' = Some d" "jl_object_get J e ''output'' = Some y" "jl_object_get J e ''status'' = Some s"
    and types: "jl_type J k = JSON_STRING" "jl_type J n = JSON_STRING" "jl_type J d = JSON_STRING" "jl_type J y = JSON_STRING"
      "jl_type J s = JSON_NUMBER" by (auto simp: has_type_string dest: has_type_integer)
  note obj = conforms_object [OF assms(1) c]
  note dispatch = validate_dispatch [OF obj get(1) types(1) assms(4)]
  have links: "\<forall>(k, allow) \<in> set field_map. turbo_event_tool_result_optional_field_valid J e k allow"
    using props(2) nullable_member [OF assms(1) c] by blast
  show ?thesis using links by (simp add: dispatch turbo_event_tool_result_validate_json_value_def with_kind_def obj get types)
qed

lemma handoff_conforms:
  assumes "json_laws J" and "turbo_event_handoff_schema_json_value J a = (Some schema, a')" and "conforms J schema e"
    and "event_kind J e ''handoff''"
  shows "turbo_event_validate_json_value J (Some e) = Some 0"
proof -
  let ?kts = "[(''kind'', ''string''), (''phase'', ''string'')]"
  let ?fs = "[(''from_agent'', True), (''target_agent'', True), (''reason'', True), (''active_agent'', True)]"
  let ?req = "[''kind'', ''phase'', ''from_agent'', ''target_agent'', ''reason'', ''active_agent'', ''status'']"
  obtain b p b' where "set_fields (map (\<lambda>(key, allow_null). turbo_event_string_or_null_schema_field J key allow_null) ?fs)
      (typed_properties J ?kts) b = (Some p, b')"
    and schema: "schema = object_schema J (jl_object_add J p ''status'' (type_field J ''integer'')) (required_keys J ?req)"
    using assms(2) by (auto simp: turbo_event_handoff_schema_json_value_def simp del: set_fields.simps split: prod.splits if_splits option.splits)
  from nullable_properties [OF assms(1) this(1)]
  have pobj: "jl_type J p = JSON_OBJECT" and props: "\<forall>(k, name) \<in> set ?kts. jl_object_get J p k = Some (type_field J name)"
    "\<forall>(k, allow) \<in> set ?fs. jl_object_get J p k = Some (null_field J allow)" by simp_all
  note add = json_obj(4) [OF assms(1) pobj]
  note c = assms(3) [unfolded schema]
  have "\<forall>(k, name) \<in> set (?kts @ [(''status'', ''integer'')]). \<exists>x. jl_object_get J e k = Some x \<and> has_type J name x"
    by (rule conforms_plain_all [OF assms(1) c]) (use props(1) in \<open>simp add: add\<close>)
  then obtain k n s where get: "jl_object_get J e ''kind'' = Some k" "jl_object_get J e ''phase'' = Some n" "jl_object_get J e ''status'' = Some s"
    and types: "jl_type J k = JSON_STRING" "jl_type J n = JSON_STRING" "jl_type J s = JSON_NUMBER"
    by (auto simp: has_type_string dest: has_type_integer)
  note obj = conforms_object [OF assms(1) c]
  note dispatch = validate_dispatch [OF obj get(1) types(1) assms(4)]
  have "turbo_event_required_string_or_null_field_valid J e key True" if "key \<in> fst ` set ?fs" for key
  proof -
    have "turbo_event_tool_result_optional_field_valid J e key True"
      by (rule nullable_member [OF assms(1) c]) (use that props(2) in \<open>auto simp: add\<close>)
    moreover have "\<exists>x. jl_object_get J e key = Some x"
      by (rule conforms_requires [OF c]) (use that in \<open>auto simp: object_schema_get(3) [OF assms(1)]\<close>)
    ultimately show ?thesis
      by (auto simp: turbo_event_required_string_or_null_field_valid_def turbo_event_tool_result_optional_field_valid_def)
  qed
  then show ?thesis by (simp add: dispatch turbo_event_handoff_validate_json_value_def with_kind_def obj get types)
qed

lemma tool_call_conforms:
  assumes "json_laws J" and "turbo_event_tool_call_schema_json_value J a = (Some schema, a')" and "conforms J schema v"
  shows "tool_call_valid J (Some v)"
proof -
  let ?kts = "[(''call_id'', ''string''), (''name'', ''string''), (''arguments'', ''string'')]"
  have schema: "schema = object_schema J (typed_properties J ?kts) (required_keys J (map fst ?kts))"
    using assms(2) by (auto simp: turbo_event_tool_call_schema_json_value_def split: prod.splits if_splits)
  note c = assms(3) [unfolded schema]
  have "\<exists>x. jl_object_get J v k = Some x" if "k \<in> set (map fst ?kts)" for k
    by (rule conforms_requires [OF c]) (simp only: object_schema_get(3) [OF assms(1)] that)
  then show ?thesis using conforms_object [OF assms(1) c] by (simp add: tool_call_valid_def)
qed

lemma model_conforms:
  assumes "json_laws J" and "turbo_event_model_schema_json_value J a = (Some schema, a')" and "conforms J schema e"
    and "event_kind J e ''model''"
  shows "turbo_event_validate_json_value J (Some e) = Some 0"
proof -
  let ?kts = "[(''kind'', ''string''), (''response_id'', ''string''), (''output_text'', ''string'')]"
  obtain b items b' where items: "turbo_event_tool_call_schema_json_value J b = (Some items, b')"
    and schema: "schema = object_schema J (jl_object_add J (typed_properties J ?kts) ''tool_calls''
      (jl_object_add J (type_field J ''array'') ''items'' items)) (required_keys J (map fst ?kts @ [''tool_calls'']))"
    using assms(2) by (auto simp: turbo_event_model_schema_json_value_def split: prod.splits if_splits option.splits)
  have pobj: "jl_type J (typed_properties J ?kts) = JSON_OBJECT"
    and pget: "jl_object_get J (typed_properties J ?kts) k = map_option (type_field J) (map_of ?kts k)" for k
    using typed_properties_get [OF assms(1), of ?kts k] by simp_all
  note add = json_obj(4) [OF assms(1) pobj] and add' = json_obj(4) [OF assms(1) type_field_get(1) [OF assms(1)]]
  note c = assms(3) [unfolded schema]
  have "\<forall>(k, name) \<in> set ?kts. \<exists>x. jl_object_get J e k = Some x \<and> has_type J name x"
    by (rule conforms_plain_all [OF assms(1) c]) (simp add: add pget)
  then obtain k n d where get: "jl_object_get J e ''kind'' = Some k" "jl_object_get J e ''response_id'' = Some n"
      "jl_object_get J e ''output_text'' = Some d"
    and types: "jl_type J k = JSON_STRING" "jl_type J n = JSON_STRING" "jl_type J d = JSON_STRING" by (auto simp: has_type_string)
  obtain calls where calls: "jl_object_get J e ''tool_calls'' = Some calls"
    using conforms_requires [OF c, of "''tool_calls''"] by (auto simp: object_schema_get(3) [OF assms(1)])
  have cc: "conforms J (jl_object_add J (type_field J ''array'') ''items'' items) calls"
    by (rule conforms_property [OF c _ calls]) (simp add: object_schema_get(2) [OF assms(1)] add)
  have arr: "jl_type J calls = JSON_ARRAY"
    using conforms_type [OF assms(1) cc, of "''array''"] by (simp add: add' type_field_get [OF assms(1)] has_type_array)
  have "tool_call_valid J (jl_array_get J calls i)" if i: "i < jl_array_size J calls" for i
  proof -
    obtain x where x: "jl_array_get J calls i = Some x"
      using i arr assms(1) unfolding json_laws_def json_array_laws_def by (metis not_None_eq)
    then show ?thesis using tool_call_conforms [OF assms(1) items conforms_items [OF cc _ x]] by (simp add: add')
  qed
  note obj = conforms_object [OF assms(1) c]
  note dispatch = validate_dispatch [OF obj get(1) types(1) assms(4)]
  show ?thesis using \<open>\<And>i. i < jl_array_size J calls \<Longrightarrow> tool_call_valid J (jl_array_get J calls i)\<close>
    by (simp add: dispatch turbo_event_model_validate_json_value_def with_kind_def obj get types calls arr turbo_runtime_json_value_size_def)
qed

text \<open>C33. The validators accept what the schemas allow: an event that conforms to the schema of its kind, as the library
  builds it when the calls that fill it (whose results it ignores) succeed, is accepted by the validator.\<close>

theorem conforming_events_valid:
  assumes "json_laws J" and "conforms J schema e" and "event_kind J e kind"
    and "(kind = ''model'' \<and> turbo_event_model_schema_json_value J a = (Some schema, a')) \<or>
      (kind = ''trace'' \<and> turbo_event_trace_schema_json_value J a = (Some schema, a')) \<or>
      (kind = ''tool_result'' \<and> turbo_event_tool_result_schema_json_value J a = (Some schema, a')) \<or>
      (kind = ''handoff'' \<and> turbo_event_handoff_schema_json_value J a = (Some schema, a'))"
  shows "turbo_event_validate_json_value J (Some e) = Some 0"
  using assms(4,3) model_conforms [OF assms(1) _ assms(2)] trace_conforms [OF assms(1) _ assms(2)]
    tool_result_conforms [OF assms(1) _ assms(2)] handoff_conforms [OF assms(1) _ assms(2)]
  by (elim disjE conjE) simp_all

definition small_trace :: jv where
  "small_trace = JObj [(''kind'', JStr ''trace''), (''name'', JStr ''n''), (''detail'', JStr ''d''), (''payload'', JStr []), (''status'', JInt 0)]"

lemma type_field_conforms:
  assumes "json_laws J" and "has_type J name x"
  shows "conforms J (type_field J name) x"
  using assms by (intro conforms_intro)
    (simp_all add: type_field_get [OF assms(1)] type_names_def json_str [OF assms(1)] schema_property_def schema_requires_def)

lemma plain_schema_conforms:
  assumes "json_laws J" and "distinct (map fst kts)" and "jl_type J v = JSON_OBJECT"
    and "\<forall>(k, name) \<in> set kts. \<exists>x. jl_object_get J v k = Some x \<and> has_type J name x"
  shows "conforms J (object_schema J (typed_properties J kts) (required_keys J (map fst kts))) v"
proof (rule conforms_intro)
  note schema = object_schema_get [OF assms(1)]
  show "\<forall>t. jl_object_get J (object_schema J (typed_properties J kts) (required_keys J (map fst kts))) ''type'' = Some t \<longrightarrow>
      (\<exists>name \<in> type_names J t. has_type J name v)"
    using assms(3) by (simp add: schema type_names_def json_str [OF assms(1)] has_type_def)
  show "\<forall>k s x. schema_property J (object_schema J (typed_properties J kts) (required_keys J (map fst kts))) k = Some s \<longrightarrow>
      jl_object_get J v k = Some x \<longrightarrow> conforms J s x"
    using assms(4) type_field_conforms [OF assms(1)]
    by (auto simp: schema conjunct2 [OF typed_properties_get [OF assms(1,2)]] dest!: map_of_SomeD)
  show "\<forall>k \<in> schema_requires J (object_schema J (typed_properties J kts) (required_keys J (map fst kts))). jl_object_get J v k \<noteq> None"
    using assms(4) by (auto simp: schema)
  show "\<forall>s i x. jl_object_get J (object_schema J (typed_properties J kts) (required_keys J (map fst kts))) ''items'' = Some s \<longrightarrow>
      jl_array_get J v i = Some x \<longrightarrow> conforms J s x"
    using json_obj(3,4) [OF assms(1)] type_field_get [OF assms(1)] by (simp add: object_schema_def)
qed

lemma small_trace_conforms:
  "conforms ref_json (object_schema ref_json (typed_properties ref_json [(''kind'', ''string''), (''name'', ''string''), (''detail'', ''string''),
     (''payload'', ''string''), (''status'', ''integer'')]) (required_keys ref_json [''kind'', ''name'', ''detail'', ''payload'', ''status''])) small_trace"
  using plain_schema_conforms [OF ref_json_laws, of "[(''kind'', ''string''), (''name'', ''string''), (''detail'', ''string''),
     (''payload'', ''string''), (''status'', ''integer'')]" small_trace]
  by (simp add: small_trace_def ref_json_def has_type_def)

lemma conforming_events_valid_witness:
  "\<exists>schema a'. turbo_event_trace_schema_json_value ref_json [] = (Some schema, a') \<and> conforms ref_json schema small_trace \<and>
     turbo_event_validate_json_value ref_json (Some small_trace) = Some 0"
proof -
  obtain schema a' where s: "turbo_event_trace_schema_json_value ref_json [] = (Some schema, a')"
    and c: "conforms ref_json schema small_trace"
    using small_trace_conforms by (simp add: turbo_event_trace_schema_json_value_def schema_containers_def)
  have "event_kind ref_json small_trace ''trace''" by (simp add: event_kind_def small_trace_def ref_json_def)
  from conforming_events_valid [OF ref_json_laws c this] s c show ?thesis by blast
qed

text \<open>The converse does not hold: a tool call whose name is a number is accepted by the validator.\<close>

definition odd_model :: jv where
  "odd_model = JObj [(''kind'', JStr ''model''), (''response_id'', JStr []), (''output_text'', JStr []),
     (''tool_calls'', JArr [JObj [(''call_id'', JInt 1), (''name'', JInt 2), (''arguments'', JNull)]])]"

lemma validator_accepts_numbers: "turbo_event_validate_json_value ref_json (Some odd_model) = Some 0"
  by code_simp

text \<open>A validator called for a value whose kind is not a string reads through a null pointer.\<close>

lemma validator_reads_null:
  "turbo_event_trace_validate_json_value ref_json (Some (JObj [(''kind'', JInt 1), (''name'', JStr []), (''detail'', JStr []),
     (''payload'', JStr []), (''status'', JInt 0)])) = None"
  by code_simp

end
