(* ===== verification/Event_Log_Promises.thy ===== *)
theory Event_Log_Promises
  imports Event_Promises
begin

section \<open>Event logs implement lists of valid events\<close>

text \<open>
  The abstract specification of an event log is the list of its events, and \<open>log_spec\<close> says what each operation makes of
  it, by its status. The log keeps valid events only, in a buffer that is large enough. A log that was exported loads
  and replays to the same events.
\<close>

definition array_elements :: "('j, 'd) json_lib \<Rightarrow> 'j \<Rightarrow> 'j list" where
  "array_elements J v = map (\<lambda>i. the (jl_array_get J v i)) [0..<jl_array_size J v]"

definition event_valid :: "('j, 'd) json_lib \<Rightarrow> 'j \<Rightarrow> bool" where
  "event_valid J e \<longleftrightarrow> turbo_event_validate_json_value J (Some e) = Some 0"

definition log_inv :: "('j, 'd) json_lib \<Rightarrow> 'j turbo_event_log \<Rightarrow> bool" where
  "log_inv J log \<longleftrightarrow> (\<forall>e \<in> set (el_events log). event_valid J e) \<and> length (el_events log) \<le> el_capacity log"

datatype 'j log_op = Log_Append 'j | Log_Append_Events 'j | Log_Load 'j | Log_Reset

fun apply_log_op ::
    "('j, 'd) json_lib \<Rightarrow> 'j log_op \<Rightarrow> alloc \<Rightarrow> 'j turbo_event_log \<Rightarrow> turbo_event_log_status_t \<times> 'j turbo_event_log \<times> alloc" where
  "apply_log_op J (Log_Append e) a log = turbo_event_log_append_json_value J (Some e) log a"
| "apply_log_op J (Log_Append_Events v) a log = turbo_event_log_append_events_json_value J (Some v) log a"
| "apply_log_op J (Log_Load v) a log = turbo_event_log_load_events_json_value J (Some v) log a"
| "apply_log_op J Log_Reset a log = (case turbo_event_log_reset log of (status, log) \<Rightarrow> (status, log, a))"

text \<open>The events an operation brings, whether it is refused, and the list it makes of the list before.\<close>

fun op_events :: "('j, 'd) json_lib \<Rightarrow> 'j log_op \<Rightarrow> 'j list" where
  "op_events J (Log_Append e) = [e]"
| "op_events J (Log_Append_Events v) = array_elements J v"
| "op_events J (Log_Load v) = array_elements J v"
| "op_events J Log_Reset = []"

fun op_array :: "('j, 'd) json_lib \<Rightarrow> 'j log_op \<Rightarrow> bool" where
  "op_array J (Log_Append_Events v) = (jl_type J v = JSON_ARRAY)"
| "op_array J (Log_Load v) = (jl_type J v = JSON_ARRAY)"
| "op_array J _ = True"

definition op_accepted :: "('j, 'd) json_lib \<Rightarrow> 'j log_op \<Rightarrow> bool" where
  "op_accepted J op \<longleftrightarrow> op_array J op \<and> (\<forall>e \<in> set (op_events J op). event_valid J e)"

fun op_base :: "'j log_op \<Rightarrow> 'j list \<Rightarrow> 'j list" where
  "op_base (Log_Load v) es = []"
| "op_base Log_Reset es = []"
| "op_base _ es = es"

definition log_spec :: "('j, 'd) json_lib \<Rightarrow> 'j log_op \<times> turbo_event_log_status_t \<Rightarrow> 'j list \<Rightarrow> 'j list" where
  "log_spec J r es = op_base (fst r) es @ (if snd r = TURBO_EVENT_LOG_OK then op_events J (fst r) else [])"

subsection \<open>One operation\<close>

lemma reserve_loop_enough: "0 < capacity \<Longrightarrow> needed \<le> reserve_loop capacity needed"
  by (induction capacity needed rule: reserve_loop.induct) (subst reserve_loop.simps, auto)

lemma reserve_result:
  assumes "turbo_event_log_reserve log needed a = (status, log', a')"
  shows "el_events log' = el_events log \<and> el_capacity log \<le> el_capacity log' \<and> (a = [] \<longrightarrow> a' = []) \<and>
    ((status = TURBO_EVENT_LOG_OK \<and> needed \<le> el_capacity log') \<or> (status = TURBO_EVENT_LOG_OUT_OF_MEMORY \<and> a \<noteq> []))"
proof (cases "needed \<le> el_capacity log")
  case False
  have enough: "needed \<le> reserve_loop (if el_capacity log \<noteq> 0 then el_capacity log * 2 else 8) needed"
    by (rule reserve_loop_enough) simp
  obtain ok b where "alloc1 a = (ok, b)" by fastforce
  then show ?thesis using assms False enough
    by (cases ok) (auto simp: turbo_event_log_reserve_def Let_def)
qed (use assms in \<open>simp add: turbo_event_log_reserve_def\<close>)

lemma clone_events_result:
  "clone_events es a = (r, a') \<Longrightarrow> (a = [] \<longrightarrow> a' = []) \<and> (r = Some es \<or> (r = None \<and> a \<noteq> []))"
proof (induction es arbitrary: a r a')
  case (Cons e es)
  obtain ok b where b: "alloc1 a = (ok, b)" by fastforce
  obtain r1 a1 where 1: "clone_events es b = (r1, a1)" by fastforce
  show ?case using Cons.prems Cons.IH [OF 1] b 1 by (cases ok) (auto simp: json_create_def)
qed simp

lemma append_result:
  assumes "turbo_event_log_append_json_value J (Some e) log a = (status, log', a')" and "log_inv J log"
  shows "log_inv J log' \<and> el_last_status log' = status \<and> (a = [] \<longrightarrow> a' = []) \<and>
    el_events log' = el_events log @ (if status = TURBO_EVENT_LOG_OK then [e] else []) \<and>
    (status = TURBO_EVENT_LOG_OK \<longrightarrow> event_valid J e) \<and> (a = [] \<longrightarrow> event_valid J e \<longrightarrow> status = TURBO_EVENT_LOG_OK)"
proof (cases "event_valid J e")
  case False
  then have "(status, log', a') = log_return TURBO_EVENT_LOG_INVALID_EVENT log a"
    using assms(1) by (simp add: turbo_event_log_append_json_value_def event_valid_def)
  then show ?thesis using assms(2) False by (simp add: log_return_def log_inv_def)
next
  case True
  obtain st1 log1 a1 where 1: "turbo_event_log_reserve log (length (el_events log) + 1) a = (st1, log1, a1)" by (metis prod_cases3)
  obtain ok b where b: "alloc1 a1 = (ok, b)" by fastforce
  have "(status, log', a') = (if st1 \<noteq> TURBO_EVENT_LOG_OK then log_return st1 log1 a1
      else if \<not> ok then log_return TURBO_EVENT_LOG_OUT_OF_MEMORY log1 b
      else log_return TURBO_EVENT_LOG_OK (log1\<lparr>el_events := el_events log1 @ [e]\<rparr>) b)"
    using assms(1) True 1 b by (simp add: turbo_event_log_append_json_value_def event_valid_def json_create_def split: if_splits)
  then show ?thesis using reserve_result [OF 1] assms(2) True b
    by (cases ok; cases "st1 = TURBO_EVENT_LOG_OK") (auto simp: log_return_def log_inv_def)
qed

lemma json_array_entries:
  assumes "json_laws J" and "jl_type J v = JSON_ARRAY"
  shows "map (jl_array_get J v) [0..<jl_array_size J v] = map Some (array_elements J v)"
proof -
  have "jl_array_get J v i = Some (the (jl_array_get J v i))" if "i < jl_array_size J v" for i
    using that assms unfolding json_laws_def json_array_laws_def by (metis option.collapse)
  then show ?thesis by (simp add: array_elements_def)
qed

lemma append_events_array:
  assumes "json_laws J" and "jl_type J v = JSON_ARRAY"
  shows "turbo_event_log_append_events_json_value J (Some v) log a =
    (if \<exists>e \<in> set (array_elements J v). \<not> event_valid J e then log_return TURBO_EVENT_LOG_INVALID_EVENT log a
     else case turbo_event_log_reserve log (length (el_events log) + length (array_elements J v)) a of (status, log, a) \<Rightarrow>
       if status \<noteq> TURBO_EVENT_LOG_OK then log_return status log a
       else case (if length (array_elements J v) > 0 then alloc1 a else (True, a)) of (ok, a) \<Rightarrow>
         if \<not> ok then log_return TURBO_EVENT_LOG_OUT_OF_MEMORY log a
         else case clone_events (array_elements J v) a of
             (None, a) \<Rightarrow> log_return TURBO_EVENT_LOG_OUT_OF_MEMORY log a
           | (Some copies, a) \<Rightarrow> log_return TURBO_EVENT_LOG_OK (log\<lparr>el_events := el_events log @ copies\<rparr>) a)"
proof -
  note entries = json_array_entries [OF assms]
  have size: "turbo_runtime_json_value_size J (Some v) = length (array_elements J v)" "jl_array_size J v = length (array_elements J v)"
    by (simp_all add: turbo_runtime_json_value_size_def assms(2) array_elements_def)
  have bad: "(\<exists>event \<in> set (map Some (array_elements J v)). event = None \<or> turbo_event_validate_json_value J event \<noteq> Some 0) \<longleftrightarrow>
      (\<exists>e \<in> set (array_elements J v). \<not> event_valid J e)" by (auto simp: event_valid_def)
  have the: "map the (map Some (array_elements J v)) = array_elements J v" by (simp add: comp_def)
  show ?thesis
    unfolding turbo_event_log_append_events_json_value_def Let_def option.case size(1) entries [unfolded size(2)] bad the
    using assms(2) by simp
qed

lemma append_events_result:
  assumes "json_laws J" and "turbo_event_log_append_events_json_value J (Some v) log a = (status, log', a')" and "log_inv J log"
  shows "log_inv J log' \<and> (a = [] \<longrightarrow> a' = []) \<and>
    el_events log' = el_events log @ (if status = TURBO_EVENT_LOG_OK then array_elements J v else []) \<and>
    (status = TURBO_EVENT_LOG_OK \<longrightarrow> op_accepted J (Log_Append_Events v)) \<and>
    (a = [] \<longrightarrow> op_accepted J (Log_Append_Events v) \<longrightarrow> status = TURBO_EVENT_LOG_OK)"
proof (cases "jl_type J v = JSON_ARRAY")
  case False
  then show ?thesis using assms(2,3) by (auto simp: turbo_event_log_append_events_json_value_def op_accepted_def)
next
  case arr: True
  let ?es = "array_elements J v"
  note eq = assms(2) [unfolded append_events_array [OF assms(1) arr]]
  show ?thesis
  proof (cases "\<forall>e \<in> set ?es. event_valid J e")
    case False
    then have "log_return TURBO_EVENT_LOG_INVALID_EVENT log a = (status, log', a')" using eq by (auto split: if_splits)
    then show ?thesis using assms(3) False by (auto simp: log_return_def log_inv_def op_accepted_def)
  next
    case valid: True
    obtain st1 log1 a1 where 1: "turbo_event_log_reserve log (length (el_events log) + length ?es) a = (st1, log1, a1)" by (metis prod_cases3)
    obtain ok a2 where 2: "(if length ?es > 0 then alloc1 a1 else (True, a1)) = (ok, a2)" by fastforce
    obtain r a3 where 3: "clone_events ?es a2 = (r, a3)" by fastforce
    have "(if st1 \<noteq> TURBO_EVENT_LOG_OK then log_return st1 log1 a1
        else if \<not> ok then log_return TURBO_EVENT_LOG_OUT_OF_MEMORY log1 a2
        else case r of None \<Rightarrow> log_return TURBO_EVENT_LOG_OUT_OF_MEMORY log1 a3
             | Some copies \<Rightarrow> log_return TURBO_EVENT_LOG_OK (log1\<lparr>el_events := el_events log1 @ copies\<rparr>) a3) = (status, log', a')"
      using eq valid unfolding 1 prod.case 2 3 by (auto split: if_splits option.splits)
    moreover have "a1 = [] \<longrightarrow> ok \<and> a2 = []" using 2 by (auto split: if_splits)
    ultimately show ?thesis
      using reserve_result [OF 1] clone_events_result [OF 3] assms(3) valid arr
      by (cases ok; cases "st1 = TURBO_EVENT_LOG_OK"; cases r) (auto simp: log_return_def log_inv_def op_accepted_def)
  qed
qed

lemma log_op_result:
  assumes "json_laws J" and "apply_log_op J op a log = (status, log', a')" and "log_inv J log"
  shows "log_inv J log' \<and> (a = [] \<longrightarrow> a' = []) \<and> el_events log' = log_spec J (op, status) (el_events log) \<and>
    (status = TURBO_EVENT_LOG_OK \<longrightarrow> op_accepted J op) \<and> (a = [] \<longrightarrow> op_accepted J op \<longrightarrow> status = TURBO_EVENT_LOG_OK)"
proof (cases op)
  case (Log_Append e)
  have "turbo_event_log_append_json_value J (Some e) log a = (status, log', a')" using assms(2) by (simp only: Log_Append apply_log_op.simps)
  from append_result [OF this assms(3)] show ?thesis
    unfolding Log_Append log_spec_def op_accepted_def fst_conv snd_conv op_base.simps op_events.simps op_array.simps by simp
next
  case (Log_Append_Events v)
  have "turbo_event_log_append_events_json_value J (Some v) log a = (status, log', a')"
    using assms(2) by (simp only: Log_Append_Events apply_log_op.simps)
  from append_events_result [OF assms(1) this assms(3)] show ?thesis
    unfolding Log_Append_Events log_spec_def fst_conv snd_conv op_base.simps op_events.simps by simp
next
  case (Log_Load v)
  let ?log = "log\<lparr>el_events := [], el_last_status := TURBO_EVENT_LOG_OK\<rparr>"
  have inv: "log_inv J ?log" by (simp add: log_inv_def)
  have "turbo_event_log_append_events_json_value J (Some v) ?log a = (status, log', a')"
    using assms(2) by (simp add: Log_Load turbo_event_log_load_events_json_value_def turbo_event_log_reset_def)
  note append_events_result [OF assms(1) this inv]
  moreover have "op_accepted J (Log_Append_Events v) = op_accepted J (Log_Load v)" by (simp add: op_accepted_def)
  ultimately show ?thesis unfolding Log_Load log_spec_def fst_conv snd_conv op_base.simps op_events.simps by simp
next
  case Log_Reset
  then show ?thesis using assms(2) by (auto simp: turbo_event_log_reset_def log_inv_def log_spec_def op_accepted_def)
qed

subsection \<open>Sequences of operations\<close>

lemma log_ops_result:
  assumes "json_laws J"
  shows "log_inv J log \<Longrightarrow> run_ops (apply_log_op J) ops a log = (sts, log', a') \<Longrightarrow>
    log_inv J log' \<and> el_events log' = fold (log_spec J) (zip ops sts) (el_events log) \<and>
    (a = [] \<longrightarrow> map (\<lambda>st. st = TURBO_EVENT_LOG_OK) sts = map (op_accepted J) ops)"
proof (induction ops arbitrary: log a sts)
  case (Cons op ops)
  obtain st log1 a1 where 1: "apply_log_op J op a log = (st, log1, a1)" by (metis prod_cases3)
  obtain sts1 where 2: "run_ops (apply_log_op J) ops a1 log1 = (sts1, log', a')" "sts = st # sts1"
    using Cons.prems(2) 1 by (auto split: prod.splits)
  note step = log_op_result [OF assms 1 Cons.prems(1)]
  then have "log_inv J log1" by simp
  from Cons.IH [OF this 2(1)] step show ?case by (auto simp: 2(2))
qed simp

text \<open>C10. An event log implements a list of valid events: after any sequence of operations on a new log, with any allocation
  failures, the log holds exactly the events that the successful operations appended since it was last cleared, in
  order, each of them valid, in a buffer that is large enough. An operation adds all of its events or none (a load that
  fails leaves the log empty), and without allocation failures it succeeds exactly when all its events are valid.\<close>

theorem event_log_refines_list:
  assumes "json_laws J" and "turbo_event_log_create c = (Some log, c')" and "run_ops (apply_log_op J) ops a log = (sts, log', a')"
  shows "el_events log' = fold (log_spec J) (zip ops sts) [] \<and> (\<forall>e \<in> set (el_events log'). event_valid J e) \<and>
    length (el_events log') \<le> el_capacity log' \<and>
    (a = [] \<longrightarrow> map (\<lambda>st. st = TURBO_EVENT_LOG_OK) sts = map (op_accepted J) ops)"
proof -
  have new: "log_inv J log" "el_events log = []" using assms(2) by (auto simp: turbo_event_log_create_def log_inv_def split: prod.splits if_splits)
  note log_ops_result [OF assms(1) new(1) assms(3), unfolded new(2) log_inv_def]
  then show ?thesis by (elim conjE, intro conjI)
qed

definition new_log :: "jv turbo_event_log" where
  "new_log = \<lparr>el_events = [], el_capacity = 0, el_last_status = TURBO_EVENT_LOG_OK\<rparr>"

definition four_log_ops :: "jv log_op list" where
  "four_log_ops = [Log_Append small_trace, Log_Append JNull, Log_Append_Events (JArr [small_trace, odd_model]), Log_Append_Events (JArr [small_trace, JNull])]"

lemma event_log_refines_list_witness:
  "\<exists>sts log' a'. run_ops (apply_log_op ref_json) four_log_ops [] new_log = (sts, log', a') \<and>
     el_events log' = fold (log_spec ref_json) (zip four_log_ops sts) [] \<and> length (el_events log') = 3"
proof -
  obtain sts log' a' where run: "run_ops (apply_log_op ref_json) four_log_ops [] new_log = (sts, log', a')" by (metis prod_cases3)
  have "length (el_events (fst (snd (run_ops (apply_log_op ref_json) four_log_ops [] new_log)))) = 3" by code_simp
  then have "length (el_events log') = 3" by (simp add: run)
  moreover have "turbo_event_log_create [] = (Some new_log, [])" by (simp add: turbo_event_log_create_def new_log_def)
  ultimately show ?thesis using event_log_refines_list [OF ref_json_laws _ run] run by blast
qed

subsection \<open>Exporting and replaying\<close>

lemma events_array_result:
  assumes "json_laws J"
  shows "jl_type J arr = JSON_ARRAY \<Longrightarrow> events_array J es arr a = (r, a') \<Longrightarrow>
    (a = [] \<longrightarrow> a' = []) \<and> (r = Some (foldl (jl_array_add J) arr es) \<or> (r = None \<and> a \<noteq> []))"
proof (induction es arbitrary: arr a r a')
  case (Cons e es)
  obtain ok b where b: "alloc1 a = (ok, b)" by fastforce
  obtain ok1 b1 where b1: "alloc1 b = (ok1, b1)" by fastforce
  obtain r1 a1 where 1: "events_array J es (jl_array_add J arr e) b1 = (r1, a1)" by fastforce
  have "jl_type J (jl_array_add J arr e) = JSON_ARRAY" using Cons.prems(1) assms by (simp add: json_laws_def json_array_laws_def)
  from Cons.IH [OF this 1] show ?case using Cons.prems b b1 1
    by (cases ok; cases ok1) (auto simp: json_create_def turbo_runtime_json_array_append_def)
qed simp

lemma exported_elements:
  assumes "json_laws J" and "turbo_event_log_events_json_value J log a = (Some v, a')"
  shows "jl_type J v = JSON_ARRAY" "array_elements J v = el_events log"
proof -
  obtain b where "events_array J (el_events log) (jl_array J) b = (Some v, a')"
    using assms(2) by (auto simp: turbo_event_log_events_json_value_def json_create_def split: prod.splits option.splits if_splits)
  from events_array_result [OF assms(1) json_arr(1) [OF assms(1), of "[]", simplified] this]
  have v: "v = foldl (jl_array_add J) (jl_array J) (el_events log)" by simp
  show "jl_type J v = JSON_ARRAY" unfolding v by (rule json_arr(1) [OF assms(1)])
  show "array_elements J v = el_events log"
    unfolding array_elements_def v by (intro nth_equalityI) (simp_all add: json_arr(2,3) [OF assms(1)])
qed

lemma log_sink_appends:
  assumes "log_inv J (gl_events (world_log w))" and "ch_alloc w = []" and "event_valid J e"
  shows "log_inv J (gl_events (world_log (log_sink J e w))) \<and> ch_alloc (log_sink J e w) = [] \<and>
    el_events (gl_events (world_log (log_sink J e w))) = el_events (gl_events (world_log w)) @ [e]"
proof -
  obtain st log' a' where 1: "turbo_event_log_append_json_value J (Some e) (gl_events (world_log w)) (ch_alloc w) = (st, log', a')"
    by (metis prod_cases3)
  from append_result [OF 1 assms(1)] assms(2,3) show ?thesis
    by (auto simp: log_sink_def turbo_event_log_capture_json_value_def 1 [unfolded assms(2)] log_inv_def)
qed

lemma replay_appends:
  "log_inv J (gl_events (world_log w)) \<Longrightarrow> ch_alloc w = [] \<Longrightarrow> \<forall>e \<in> set es. event_valid J e \<Longrightarrow>
    el_events (gl_events (world_log (fold (log_sink J) es w))) = el_events (gl_events (world_log w)) @ es"
proof (induction es arbitrary: w)
  case (Cons e es)
  then have 1: "event_valid J e" by simp
  note step = log_sink_appends [OF Cons.prems(1,2) 1]
  show ?case using Cons.IH [of "log_sink J e w"] step Cons.prems(3) by simp
qed simp

text \<open>A log that is exported and loaded, or replayed, gives the same events: the exported array of a log loads into any
  log as exactly the events of the first, and replaying the log into the capture callback of another log appends them
  to it in order, when no allocation fails there.\<close>

lemma event_log_roundtrip:
  assumes "json_laws J" and "log_inv J log" and "turbo_event_log_events_json_value J log a = (Some v, a')"
    and "log_inv J log1" and "log_inv J (gl_events (world_log w))" and "ch_alloc w = []"
  shows "(\<exists>log2. turbo_event_log_load_events_json_value J (Some v) log1 [] = (TURBO_EVENT_LOG_OK, log2, []) \<and>
      el_events log2 = el_events log) \<and>
    (\<exists>w'. turbo_event_log_replay_json_value log (Some (log_sink J)) w = (TURBO_EVENT_LOG_OK, w') \<and>
      el_events (gl_events (world_log w')) = el_events (gl_events (world_log w)) @ el_events log)"
proof
  have valid: "\<forall>e \<in> set (el_events log). event_valid J e" using assms(2) by (simp add: log_inv_def)
  obtain st log2 b where 1: "apply_log_op J (Log_Load v) [] log1 = (st, log2, b)" by (metis prod_cases3)
  have "op_accepted J (Log_Load v)" using exported_elements [OF assms(1,3)] valid by (simp add: op_accepted_def)
  with log_op_result [OF assms(1) 1 assms(4)] exported_elements(2) [OF assms(1,3)]
  show "\<exists>log2. turbo_event_log_load_events_json_value J (Some v) log1 [] = (TURBO_EVENT_LOG_OK, log2, []) \<and>
      el_events log2 = el_events log" using 1 by (auto simp: log_spec_def)
  show "\<exists>w'. turbo_event_log_replay_json_value log (Some (log_sink J)) w = (TURBO_EVENT_LOG_OK, w') \<and>
      el_events (gl_events (world_log w')) = el_events (gl_events (world_log w)) @ el_events log"
    using replay_appends [OF assms(5,6) valid] by (simp add: turbo_event_log_replay_json_value_def)
qed

text \<open>A world whose memory holds an empty log.\<close>

definition log_world :: "(jv, unit) logged world" where
  "log_world = \<lparr>ch_alloc = [], ch_states = Map.empty, ch_sources = Map.empty, ch_tokens = Map.empty, ch_next = 1,
     ch_sys_clock = [], ch_user_clock = [],
     \<dots> = \<lparr>lg_log = \<lparr>gl_events = new_log, gl_checkpoint = None, gl_capture_status = TURBO_GRAPH_EXEC_OK\<rparr>, lg_client = ()\<rparr>\<rparr>"

definition two_event_log :: "jv turbo_event_log" where
  "two_event_log = \<lparr>el_events = [small_trace, odd_model], el_capacity = 8, el_last_status = TURBO_EVENT_LOG_OK\<rparr>"

lemma event_log_roundtrip_witness:
  "\<exists>v log2. turbo_event_log_events_json_value ref_json two_event_log [] = (Some v, []) \<and>
     turbo_event_log_load_events_json_value ref_json (Some v) new_log [] = (TURBO_EVENT_LOG_OK, log2, []) \<and>
     el_events log2 = [small_trace, odd_model]"
proof -
  have v: "turbo_event_log_events_json_value ref_json two_event_log [] = (Some (JArr [small_trace, odd_model]), [])" by code_simp
  have "turbo_event_validate_json_value ref_json (Some small_trace) = Some 0" "turbo_event_validate_json_value ref_json (Some odd_model) = Some 0"
    by code_simp+
  then have inv: "log_inv ref_json two_event_log" by (simp add: log_inv_def event_valid_def two_event_log_def)
  have new: "log_inv ref_json new_log" by (simp add: log_inv_def new_log_def)
  have w: "log_inv ref_json (gl_events (world_log log_world))" "ch_alloc log_world = []" using new by (simp_all add: log_world_def)
  show ?thesis using event_log_roundtrip [OF ref_json_laws inv v new w] v by (auto simp: two_event_log_def)
qed

end
