(* ===== verification/Run_Log_Promises.thy ===== *)
theory Run_Log_Promises
  imports Event_Log_Promises Graph_Exec
begin

section \<open>The log of a graph run\<close>

text \<open>
  What a run does to the client's memory is what its callbacks do: the locale \<open>client_keeper\<close> has a relation that every
  callback respects and shows that the run respects it. For a run with a log the relation is that the log only grows, by
  valid trace events.
\<close>

subsection \<open>Relations that callbacks respect\<close>

definition node_keeps :: "('u \<Rightarrow> 'u \<Rightarrow> bool) \<Rightarrow> ('j, 'u) node_fn option \<Rightarrow> bool" where
  "node_keeps keep f \<longleftrightarrow> (\<forall>g ctx w. f = Some g \<longrightarrow> keep (cancel_heap.more w) (cancel_heap.more (snd (snd (g ctx w)))))"

definition predicate_keeps :: "('u \<Rightarrow> 'u \<Rightarrow> bool) \<Rightarrow> ('j, 'u) edge_predicate_fn option \<Rightarrow> bool" where
  "predicate_keeps keep f \<longleftrightarrow> (\<forall>g ctx w. f = Some g \<longrightarrow> keep (cancel_heap.more w) (cancel_heap.more (snd (g ctx w))))"

definition callbacks_keep :: "('u \<Rightarrow> 'u \<Rightarrow> bool) \<Rightarrow> ('j, 'u) turbo_graph \<Rightarrow> bool" where
  "callbacks_keep keep g \<longleftrightarrow>
     (\<forall>n \<in> set (g_nodes g). node_keeps keep (gn_json_fn n) \<and> node_keeps keep (gn_json_value_fn n)) \<and>
     (\<forall>e \<in> set (g_edges g). predicate_keeps keep (ge_json_predicate e) \<and> predicate_keeps keep (ge_json_value_predicate e))"

text \<open>A loop state reached from client memory \<open>u\<close>, and the outcome of a pass.\<close>

definition held :: "('u \<Rightarrow> 'u \<Rightarrow> bool) \<Rightarrow> 'u \<Rightarrow> ('j, 'u) run_state \<Rightarrow> bool" where
  "held keep u s \<longleftrightarrow> keep u (cancel_heap.more (rs_world s)) \<and> callbacks_keep keep (rs_graph s)"

definition moved :: "('u \<Rightarrow> 'u \<Rightarrow> bool) \<Rightarrow> 'u \<Rightarrow> ('j, 'u) run_step \<Rightarrow> bool" where
  "moved keep u out \<longleftrightarrow> (case out of Inl (r, s') \<Rightarrow> held keep u s' | Inr s' \<Rightarrow> held keep u s')"

named_theorems moved_intros \<open>a construct of the loop respects the relation when its parts do\<close>

lemma run_return_moved [moved_intros]: "held keep u s \<Longrightarrow> moved keep u (run_return status next s)"
  by (simp add: moved_def run_return_def)

lemma Inr_moved [moved_intros]: "held keep u s \<Longrightarrow> moved keep u (Inr s)"
  by (simp add: moved_def)

lemma held_frame [moved_intros]:
  "held keep u s \<Longrightarrow> held keep u (s\<lparr>rs_current := c\<rparr>)" "held keep u s \<Longrightarrow> held keep u (s\<lparr>rs_skip := b\<rparr>)"
  "held keep u s \<Longrightarrow> held keep u (s\<lparr>rs_steps := n, rs_last := l\<rparr>)" "held keep u s \<Longrightarrow> held keep u (s\<lparr>rs_tree := t\<rparr>)"
  by (simp_all add: held_def)

lemma set_topology_callbacks:
  "turbo_graph_checkpoint_set_topology J a cp g = (status, cp', g', a') \<Longrightarrow> g_nodes g' = g_nodes g \<and> g_edges g' = g_edges g"
  by (auto simp: turbo_graph_checkpoint_set_topology_def turbo_graph_topology_id_def Let_def split: option.splits prod.splits if_splits)

locale client_keeper =
  fixes J :: "('j, 'd) json_lib"
    and keep :: "'u \<Rightarrow> 'u \<Rightarrow> bool"
    and sink :: "'j \<Rightarrow> 'u world \<Rightarrow> 'u world"
    and cb :: "'j turbo_graph_checkpoint \<Rightarrow> 'u world \<Rightarrow> 'u world"
  assumes keep_refl: "keep u u"
    and keep_trans: "keep u v \<Longrightarrow> keep v x \<Longrightarrow> keep u x"
    and sink_keeps: "turbo_event_trace_create_json_value J a name detail payload status = (Some e, a') \<Longrightarrow>
      keep (cancel_heap.more w) (cancel_heap.more (sink e w))"
    and cb_keeps: "keep (cancel_heap.more w) (cancel_heap.more (cb cp w))"
begin

lemma trace_event_keeps:
  "turbo_graph_emit_trace_event J (Some sink) name detail payload code w = (status, w') \<Longrightarrow> keep (cancel_heap.more w) (cancel_heap.more w')"
  using sink_keeps [of "ch_alloc w" "Some name" "Some detail" payload code] keep_refl
  by (auto simp: turbo_graph_emit_trace_event_def split: option.splits prod.splits) (metis cancel_heap.select_convs(8) cancel_heap.surjective cancel_heap.update_convs(1))

lemma trace_moved [moved_intros]:
  assumes "held keep u s" and "\<And>s'. held keep u s' \<Longrightarrow> moved keep u (k s')"
  shows "moved keep u (trace_or_fail J (Some sink) name detail payload code next s k)"
proof -
  obtain status w where e: "turbo_graph_emit_trace_event J (Some sink) name detail payload code (rs_world s) = (status, w)" by fastforce
  have "held keep u (s\<lparr>rs_world := w\<rparr>)"
    using assms(1) trace_event_keeps [OF e] keep_trans by (auto simp: held_def)
  then show ?thesis using assms(2) by (simp add: trace_or_fail_def e Let_def run_return_moved)
qed

lemma emit_keeps:
  assumes "turbo_graph_emit_checkpoint_json_value J (Some (options\<lparr>ro_checkpoint_cb := Some cb\<rparr>)) g n st v w = (status, g', w')"
  shows "keep (cancel_heap.more w) (cancel_heap.more w') \<and> g_nodes g' = g_nodes g \<and> g_edges g' = g_edges g"
proof -
  have cb: "keep (cancel_heap.more w) (cancel_heap.more (cb cp (w\<lparr>ch_alloc := a\<rparr>)))" for cp a
    using cb_keeps [of "w\<lparr>ch_alloc := a\<rparr>" cp] by simp
  show ?thesis using assms cb keep_refl
    by (auto simp: turbo_graph_emit_checkpoint_json_value_def stamp_and_emit_def split: option.splits prod.splits if_splits
        dest!: set_topology_callbacks)
qed

lemma emit_moved [moved_intros]:
  assumes "held keep u s" and "\<And>s'. held keep u s' \<Longrightarrow> moved keep u (k s')"
  shows "moved keep u (emit_or_fail (turbo_graph_emit_checkpoint_json_value J (Some (options\<lparr>ro_checkpoint_cb := Some cb\<rparr>))) next s k)"
proof -
  obtain status g w where e: "turbo_graph_emit_checkpoint_json_value J (Some (options\<lparr>ro_checkpoint_cb := Some cb\<rparr>)) (rs_graph s) next
      (rs_steps s) (rs_tree s) (rs_world s) = (status, g, w)" by (metis prod_cases3)
  have "held keep u (s\<lparr>rs_graph := g, rs_world := w\<rparr>)"
    using assms(1) emit_keeps [OF e] keep_trans by (auto simp: held_def callbacks_keep_def)
  then show ?thesis using assms(2) by (simp add: emit_or_fail_def e Let_def run_return_moved)
qed

lemma route_keeps:
  "callbacks_keep keep g \<Longrightarrow> set edges \<subseteq> set (g_edges g) \<Longrightarrow> json_value_route g i ctx edges c w = (r, w') \<Longrightarrow>
    keep (cancel_heap.more w) (cancel_heap.more w')"
proof (induction edges arbitrary: c w)
  case Nil
  then show ?case by (simp add: keep_refl)
next
  case (Cons edge edges)
  have pk: "predicate_keeps keep (ge_json_predicate edge)" "predicate_keeps keep (ge_json_value_predicate edge)"
    using Cons.prems(1,2) by (auto simp: callbacks_keep_def)
  have decided: "keep (cancel_heap.more w) (cancel_heap.more w')"
    if p: "p ctx w1 = (ps, w2)" "cancel_heap.more w1 = cancel_heap.more w" "predicate_keeps keep (Some p)"
      and d: "(if ps < 0 then (Inl TURBO_GRAPH_EXEC_ERROR, w2) else if ps > 0 then (Inr (Some t, c'), w2)
        else json_value_route g i ctx edges c' w2) = (r, w')" for p w1 ps w2 t c'
  proof -
    have 1: "keep (cancel_heap.more w) (cancel_heap.more w2)" using p unfolding predicate_keeps_def by (metis snd_conv)
    show ?thesis
    proof (cases "ps = 0")
      case True
      then show ?thesis using d keep_trans [OF 1] Cons.IH [OF Cons.prems(1)] Cons.prems(2) by simp
    next
      case False
      then show ?thesis using d 1 by (auto split: if_splits)
    qed
  qed
  obtain ok w0 where w0: "ch_draw w = (ok, w0)" by fastforce
  then have m0: "cancel_heap.more w0 = cancel_heap.more w" by (auto simp: ch_draw_def split: prod.splits)
  show ?case
  proof (cases "ge_from_index edge = i")
    case False
    then show ?thesis using Cons.IH [OF Cons.prems(1)] Cons.prems(2,3) by simp
  next
    case True
    show ?thesis
    proof (cases "ge_json_value_predicate edge")
      case (Some p)
      obtain ps w2 where "p ctx w = (ps, w2)" by fastforce
      then show ?thesis using Cons.prems(3) True Some decided [of p w ps w2 "gn_name (g_nodes g ! ge_to_index edge)" "Suc c"] pk(2) by (simp add: Let_def)
    next
      case None
      show ?thesis
      proof (cases "ge_json_predicate edge")
        case (Some p)
        obtain ps w2 where "p ctx w0 = (ps, w2)" by fastforce
        then show ?thesis using Cons.prems(3) True None Some w0 m0 keep_refl decided [of p w0 ps w2 "gn_name (g_nodes g ! ge_to_index edge)" "Suc c"] pk(1)
          by (cases ok) (auto simp: Let_def)
      next
        case n: None
        then show ?thesis using Cons.prems(3) True None keep_refl by (simp add: Let_def)
      qed
    qed
  qed
qed

abbreviation opts :: "('j, 'u) turbo_graph_run_options \<Rightarrow> ('j, 'u) turbo_graph_run_options option" where
  "opts options \<equiv> Some (options\<lparr>ro_checkpoint_cb := Some cb\<rparr>)"

lemma advance_moved [moved_intros]:
  "held keep u s \<Longrightarrow> moved keep u (json_value_advance J (opts options) None (Some sink) next c s)"
  by (auto simp: json_value_advance_def turbo_graph_cancel_status_def Let_def split: option.splits intro!: moved_intros)

lemma after_node_moved [moved_intros]:
  assumes "held keep u s"
  shows "moved keep u (json_value_after_node J (opts options) None (Some sink) i st ctx s)"
proof -
  have err: "held keep u (s\<lparr>rs_world := w\<rparr>)"
    if "turbo_graph_emit_trace_event J (Some sink) name detail payload code (rs_world s) = (status, w)" for name detail payload code status w
    using assms trace_event_keeps [OF that] keep_trans by (auto simp: held_def)
  have routed: "held keep u (s'\<lparr>rs_world := w\<rparr>)"
    if "held keep u s'" "json_value_route (rs_graph s') i ctx (g_edges (rs_graph s')) 0 (rs_world s') = (r, w)" for s' r w
    using that route_keeps [OF _ subset_refl that(2)] keep_trans by (auto simp: held_def)
  show ?thesis
    unfolding json_value_after_node_def Let_def using assms
    by (auto split: option.splits sum.splits prod.splits intro!: moved_intros dest: err routed)
qed

lemma call_node_moved:
  assumes "json_value_call_node node ctx s = x" and "held keep u s" and "node \<in> set (g_nodes (rs_graph s))"
  shows "case x of Inl out \<Rightarrow> moved keep u out | Inr (node_status, ctx, s') \<Rightarrow> held keep u s'"
proof -
  have nk: "node_keeps keep (gn_json_fn node)" "node_keeps keep (gn_json_value_fn node)"
    using assms(2,3) by (auto simp: held_def callbacks_keep_def)
  have draw: "cancel_heap.more w' = cancel_heap.more w" if "ch_draw w = (ok, w')" for w w' :: "'u world" and ok
    using that by (auto simp: ch_draw_def split: prod.splits)
  have called: "keep u (cancel_heap.more w')" if "f ctx w = (st, ctx', w')" "node_keeps keep (Some f)" "keep u (cancel_heap.more w)"
    for f w st ctx' w' using that keep_trans unfolding node_keeps_def by (metis snd_conv)
  have u: "keep u (cancel_heap.more (rs_world s))" using assms(2) by (simp add: held_def)
  show ?thesis using assms(1,2) nk called u
    by (auto simp: json_value_call_node_def json_value_take_update_def Let_def held_def dest!: draw
        split: option.splits prod.splits if_splits intro!: moved_intros)
qed

lemma node_index_mem: "turbo_graph_find_node_index g (Some n) = Some i \<Longrightarrow> g_nodes g ! i \<in> set (g_nodes g)"
  by (auto simp: turbo_graph_find_node_index_def find_Some_iff)

lemma run_node_moved [moved_intros]:
  assumes "held keep u s"
  shows "moved keep u (json_value_run_node J (opts options) None (Some sink) s)"
proof (cases "turbo_graph_find_node_index (rs_graph s) (Some (rs_current s))")
  case None
  then show ?thesis using assms by (auto simp: json_value_run_node_def intro!: moved_intros)
next
  case (Some i)
  let ?node = "g_nodes (rs_graph s) ! i"
  obtain status w where e: "turbo_graph_emit_trace_event J (Some sink) ''graph.node'' ''start'' (Some (gn_name ?node)) 0 (rs_world s) = (status, w)"
    by fastforce
  let ?s = "s\<lparr>rs_world := w\<rparr>"
  have held: "held keep u ?s" using assms trace_event_keeps [OF e] keep_trans by (auto simp: held_def)
  define call where "call = json_value_call_node ?node \<lparr>cx_tree = rs_tree s, cx_current_node = gn_name ?node, cx_next_node = None,
    cx_step = rs_steps s, cx_stop = False\<rparr> ?s"
  have mem: "?node \<in> set (g_nodes (rs_graph ?s))" using node_index_mem [OF Some] by simp
  note c = call_node_moved [OF call_def [symmetric] held mem]
  have run: "json_value_run_node J (opts options) None (Some sink) s =
     (if status \<noteq> TURBO_GRAPH_EXEC_OK then run_return status (Some (rs_current s)) ?s
      else (case call of Inl returned \<Rightarrow> returned
            | Inr (node_status, ctx, s) \<Rightarrow> json_value_after_node J (opts options) None (Some sink) i node_status ctx
                (s\<lparr>rs_steps := rs_steps s + 1, rs_last := Some (gn_name ?node)\<rparr>)))"
    by (simp add: json_value_run_node_def Some trace_or_fail_def e call_def Let_def)
  show ?thesis unfolding run using held c
    by (auto split: sum.splits intro!: moved_intros)
qed

lemma step_moved:
  "held keep u s \<Longrightarrow> moved keep u (run_internal_json_value_step J (opts options) None (Some sink) s)"
  unfolding run_internal_json_value_step_def turbo_graph_cancel_status_def Let_def
  by (auto intro!: moved_intros)

lemma run_keeps_client:
  assumes "callbacks_keep keep g"
    and "turbo_graph_run_json_value_stream J g state (opts options) (Some sink) w = Some call"
  shows "keep (cancel_heap.more w) (cancel_heap.more (rc_world call))"
proof -
  obtain st bs a where c: "turbo_graph_clone_json_value_state J (ch_alloc w) state = (st, bs, a)" by (metis prod_cases3)
  show ?thesis
  proof (cases "bs = None \<or> options_start_node (opts options) g = None")
    case True
    then show ?thesis using assms(2) keep_refl
      by (auto simp: turbo_graph_run_json_value_stream_def turbo_graph_run_json_value_stream_controlled_def c
          turbo_graph_run_internal_json_value_def run_call_of_def split: option.splits)
  next
    case False
    then obtain v n r s' where s': "run_loop (run_internal_json_value_step J (opts options) None (Some sink))
        (run_start (opts options) g v n 0 (w\<lparr>ch_alloc := a\<rparr>)) = Some (r, s')" and w': "rc_world call = rs_world s'"
      using assms(2) by (auto simp: turbo_graph_run_json_value_stream_def turbo_graph_run_json_value_stream_controlled_def c
          turbo_graph_run_internal_json_value_def run_call_of_def run_end_of_def)
    have "case (r, s') of (r, s') \<Rightarrow> held keep (cancel_heap.more w) s'"
    proof (rule run_loop_inv [OF s', of "held keep (cancel_heap.more w)"])
      show "held keep (cancel_heap.more w) (run_start (opts options) g v n 0 (w\<lparr>ch_alloc := a\<rparr>))"
        using assms(1) keep_refl by (simp add: held_def run_start_def)
    next
      fix x x' assume "held keep (cancel_heap.more w) x" "run_internal_json_value_step J (opts options) None (Some sink) x = Inr x'"
      then show "held keep (cancel_heap.more w) x'" using step_moved [of "cancel_heap.more w" x options] by (simp add: moved_def)
    next
      fix x y assume "held keep (cancel_heap.more w) x" "run_internal_json_value_step J (opts options) None (Some sink) x = Inl y"
      then show "case y of (r, s') \<Rightarrow> held keep (cancel_heap.more w) s'"
        using step_moved [of "cancel_heap.more w" x options] by (simp add: moved_def)
    qed
    then show ?thesis by (simp add: w' held_def)
  qed
qed

end

subsection \<open>The log of a run only grows, by valid trace events\<close>

definition log_grows :: "('j, 'd) json_lib \<Rightarrow> 'j turbo_event_log \<Rightarrow> 'j turbo_event_log \<Rightarrow> bool" where
  "log_grows J l l' \<longleftrightarrow> (log_inv J l \<longrightarrow> log_inv J l') \<and>
     (\<exists>new. el_events l' = el_events l @ new \<and> (\<forall>e \<in> set new. accepted J ''trace'' e))"

definition logs_grow :: "('j, 'd) json_lib \<Rightarrow> ('j, 'v) logged \<Rightarrow> ('j, 'v) logged \<Rightarrow> bool" where
  "logs_grow J u v \<longleftrightarrow> log_grows J (gl_events (lg_log u)) (gl_events (lg_log v)) \<and>
     (gl_capture_status (lg_log u) \<noteq> TURBO_GRAPH_EXEC_OK \<longrightarrow> gl_capture_status (lg_log v) = gl_capture_status (lg_log u))"

text \<open>A callback of the client leaves the log alone.\<close>

definition leaves_log :: "('j turbo_graph_checkpoint \<Rightarrow> ('j, 'v) logged world \<Rightarrow> ('j, 'v) logged world) option \<Rightarrow> bool" where
  "leaves_log cb \<longleftrightarrow> (\<forall>f cp w. cb = Some f \<longrightarrow> world_log (f cp w) = world_log w)"

lemma log_grows_refl: "log_grows J l l"
  by (simp add: log_grows_def)

lemma log_grows_trans: "log_grows J l1 l2 \<Longrightarrow> log_grows J l2 l3 \<Longrightarrow> log_grows J l1 l3"
  unfolding log_grows_def by (elim conjE exE) auto

lemma append_any_result:
  assumes "turbo_event_log_append_json_value J (Some e) log a = (status, log', a')"
  shows "(log_inv J log \<longrightarrow> log_inv J log') \<and> (el_events log' = el_events log \<or> el_events log' = el_events log @ [e])"
proof -
  obtain st1 log1 a1 where 1: "turbo_event_log_reserve log (length (el_events log) + 1) a = (st1, log1, a1)" by (metis prod_cases3)
  have "el_events log' = el_events log \<or> el_events log' = el_events log @ [e]"
    using assms reserve_result [OF 1] by (auto simp: turbo_event_log_append_json_value_def 1 [simplified] json_create_def log_return_def split: if_splits option.splits prod.splits)
  then show ?thesis using append_result [OF assms] by blast
qed

lemma log_sink_grows:
  assumes "accepted J ''trace'' e"
  shows "logs_grow J (cancel_heap.more w) (cancel_heap.more (log_sink J e w))"
proof -
  obtain status log' a where 1: "turbo_event_log_append_json_value J (Some e) (gl_events (world_log w)) (ch_alloc w) = (status, log', a)"
    by (metis prod_cases3)
  from append_any_result [OF 1] assms show ?thesis
    by (auto simp: log_sink_def turbo_event_log_capture_json_value_def 1 logs_grow_def log_grows_def log_inv_def)
qed

lemma capture_checkpoint_grows:
  assumes "leaves_log cb"
  shows "logs_grow J (cancel_heap.more w) (cancel_heap.more (turbo_graph_run_log_capture_checkpoint J cb cp w))"
  using assms
  by (auto simp: turbo_graph_run_log_capture_checkpoint_def turbo_graph_run_log_replace_checkpoint_def leaves_log_def logs_grow_def
      log_grows_refl Let_def split: prod.split option.split)

lemma log_keeper:
  assumes "json_laws J" and "leaves_log cb"
  shows "client_keeper J (logs_grow J) (log_sink J) (turbo_graph_run_log_capture_checkpoint J cb)"
proof
  show "logs_grow J u u" for u by (simp add: logs_grow_def log_grows_refl)
  show "logs_grow J u x" if "logs_grow J u v" "logs_grow J v x" for u v x
    using that by (auto simp: logs_grow_def intro: log_grows_trans)
  show "logs_grow J (cancel_heap.more w) (cancel_heap.more (log_sink J e w))"
    if "turbo_event_trace_create_json_value J a name detail payload status = (Some e, a')" for a name detail payload status e a' w
    by (rule log_sink_grows [OF trace_accepted [OF assms(1) that]])
qed (rule capture_checkpoint_grows [OF assms(2)])

interpretation logged_run: client_keeper ref_json "logs_grow ref_json" "log_sink ref_json" "turbo_graph_run_log_capture_checkpoint ref_json None"
  by (rule log_keeper [OF ref_json_laws]) (simp add: leaves_log_def)

definition same_log :: "('j, 'v) logged \<Rightarrow> ('j, 'v) logged \<Rightarrow> bool" where
  "same_log u v \<longleftrightarrow> lg_log v = lg_log u"

lemma same_log_grows: "same_log u v \<Longrightarrow> logs_grow J u v"
  by (simp add: same_log_def logs_grow_def log_grows_refl)

lemma callbacks_keep_mono:
  "callbacks_keep keep g \<Longrightarrow> (\<And>u v. keep u v \<Longrightarrow> keep' u v) \<Longrightarrow> callbacks_keep keep' g"
  unfolding callbacks_keep_def node_keeps_def predicate_keeps_def by blast

subsection \<open>A run with a log\<close>

lemma stream_returns:
  assumes "graph_inv J g" and "0 < options_max_steps options"
  shows "\<exists>call. turbo_graph_run_json_value_stream J g state options sink w = Some call \<and> graph_view (rc_graph call) = graph_view g"
proof -
  obtain st bs a where c: "turbo_graph_clone_json_value_state J (ch_alloc w) state = (st, bs, a)" by (rule prod_cases3)
  have run: "\<exists>r v' g' w'. turbo_graph_run_internal_json_value J g v (options_start_node options g) 0 options None sink (w\<lparr>ch_alloc := a\<rparr>)
      = Some (r, v', g', w') \<and> graph_kept J g g'" for v
    using owned_internal_returns [OF assms, of 0 v "options_start_node options g" None sink "w\<lparr>ch_alloc := a\<rparr>"] by auto
  show ?thesis
  proof (cases bs)
    case (Some v)
    obtain r v' g' w' where "turbo_graph_run_internal_json_value J g v (options_start_node options g) 0 options None sink
        (w\<lparr>ch_alloc := a\<rparr>) = Some (r, v', g', w')" "graph_kept J g g'" using run [of v] by blast
    then show ?thesis using Some
      by (simp add: turbo_graph_run_json_value_stream_def turbo_graph_run_json_value_stream_controlled_def c run_call_of_def graph_kept_def)
  qed (simp add: turbo_graph_run_json_value_stream_def turbo_graph_run_json_value_stream_controlled_def c)
qed

definition user_checkpoint_cb ::
    "('j, 'u) turbo_graph_run_options option \<Rightarrow> ('j turbo_graph_checkpoint \<Rightarrow> 'u world \<Rightarrow> 'u world) option" where
  "user_checkpoint_cb options = Option.bind options ro_checkpoint_cb"

lemma effective_options_shape:
  "\<exists>base. effective_options J options = base\<lparr>ro_checkpoint_cb := Some (turbo_graph_run_log_capture_checkpoint J (user_checkpoint_cb options))\<rparr>"
  by (rule exI [of _ "effective_options J options"])
    (cases options, simp_all add: effective_options_def user_checkpoint_cb_def Let_def)

lemma effective_max_steps: "options_max_steps (Some (effective_options J options)) = options_max_steps options"
  by (cases options) (simp_all add: effective_options_def options_max_steps_def Let_def)

text \<open>A run with a log, under a step limit and with callbacks of the client that leave the log alone, returns; whatever
  the allocator and the callbacks do, the log then holds only valid trace events, and no state is returned when the
  status of the log or of the checkpoint capture is not OK. When the log cannot be reset the run does not take place
  and the old log is kept.\<close>

lemma run_log_valid:
  assumes "json_laws J" and "graph_inv J g" and "0 < options_max_steps options"
    and "callbacks_keep same_log g" and "leaves_log (user_checkpoint_cb options)"
  shows "\<exists>call. turbo_graph_run_json_value_log J g state options w = Some call \<and> graph_view (rc_graph call) = graph_view g \<and>
    (let log = world_log (rc_world call) in
     if fst (alloc1 (ch_alloc w))
     then (\<forall>e \<in> set (el_events (gl_events log)). accepted J ''trace'' e) \<and> log_inv J (gl_events log) \<and>
       (rc_state call \<noteq> None \<longrightarrow> gl_capture_status log = TURBO_GRAPH_EXEC_OK \<and> turbo_event_log_status (gl_events log) = TURBO_EVENT_LOG_OK)
     else log = world_log w \<and> rc_status call = TURBO_GRAPH_EXEC_OUT_OF_MEMORY \<and> rc_state call = None)"
proof -
  obtain ok a where a: "alloc1 (ch_alloc w) = (ok, a)" by fastforce
  show ?thesis
  proof (cases ok)
    case False
    then show ?thesis using a
      by (simp add: turbo_graph_run_json_value_log_def turbo_graph_run_log_reset_def turbo_event_log_create_def log_refused_def Let_def)
  next
    case True
    let ?empty = "\<lparr>el_events = [], el_capacity = 0, el_last_status = TURBO_EVENT_LOG_OK\<rparr>"
    let ?log = "(world_log w)\<lparr>gl_events := ?empty, gl_checkpoint := None, gl_capture_status := TURBO_GRAPH_EXEC_OK\<rparr>"
    let ?w = "put_log ?log (w\<lparr>ch_alloc := a\<rparr>)"
    let ?call = "turbo_graph_run_json_value_stream J g state (Some (effective_options J options)) (Some (log_sink J)) ?w"
    have log: "turbo_graph_run_json_value_log J g state options w = map_option log_finish ?call"
      using a True by (simp add: turbo_graph_run_json_value_log_def turbo_graph_run_log_reset_def turbo_event_log_create_def Let_def)
    obtain call where call: "?call = Some call" "graph_view (rc_graph call) = graph_view g"
      using stream_returns [OF assms(2), of "Some (effective_options J options)"] assms(3) unfolding effective_max_steps by blast
    have keeps: "callbacks_keep (logs_grow J) g" by (rule callbacks_keep_mono [OF assms(4) same_log_grows])
    have "logs_grow J (cancel_heap.more ?w) (cancel_heap.more (rc_world call))"
      using client_keeper.run_keeps_client [OF log_keeper [OF assms(1,5)] keeps] call(1) effective_options_shape [of J options] by metis
    then have grown: "log_inv J (gl_events (world_log (rc_world call)))"
      "\<forall>e \<in> set (el_events (gl_events (world_log (rc_world call)))). accepted J ''trace'' e"
      by (auto simp: logs_grow_def log_grows_def log_inv_def)
    have fin: "rc_graph (log_finish call) = rc_graph call" "rc_world (log_finish call) = rc_world call"
      "rc_state (log_finish call) \<noteq> None \<Longrightarrow> gl_capture_status (world_log (rc_world call)) = TURBO_GRAPH_EXEC_OK \<and>
        turbo_event_log_status (gl_events (world_log (rc_world call))) = TURBO_EVENT_LOG_OK"
      by (auto simp: log_finish_def turbo_graph_run_log_finalize_def split: prod.splits if_splits)
    show ?thesis using True a call grown fin
      by (intro exI [of _ "log_finish call"]) (simp add: log Let_def)
  qed
qed

definition plain_node :: "(jv, (jv, unit) logged) node_fn" where
  "plain_node ctx w = (0, ctx, w)"

definition logged_loop :: "(jv, (jv, unit) logged) turbo_graph" where
  "logged_loop = \<lparr>g_name = Some ''g'', g_entry_node = Some ''a'',
     g_nodes = [\<lparr>gn_name = ''a'', gn_semantic_id = ''a'', gn_json_fn = None, gn_json_value_fn = Some plain_node\<rparr>],
     g_node_capacity = 4,
     g_edges = [\<lparr>ge_from_index = 0, ge_to_index = 0, ge_semantic_id = ''a->a'', ge_json_predicate = None,
       ge_json_value_predicate = None\<rparr>],
     g_edge_capacity = 8, g_topology_id = None\<rparr>"

definition two_steps :: "(jv, (jv, unit) logged) turbo_graph_run_options option" where
  "two_steps = Some \<lparr>ro_max_steps = 2, ro_start_node = None, ro_interrupt_before_nodes = [],
     ro_skip_initial_interrupt = False, ro_checkpoint_cb = None\<rparr>"

subsection \<open>A failure that a later event hides\<close>

text \<open>The log keeps the status of the last capture only: an event whose clone fails is lost, and the next event that is
  stored sets the status to success again.\<close>

lemma lost_event_not_reported:
  "let w = fold (log_sink ref_json) [small_trace, small_trace] (log_world\<lparr>ch_alloc := [True, False]\<rparr>)
   in length (el_events (gl_events (world_log w))) = 1 \<and>
      turbo_graph_run_log_finalize (world_log w) TURBO_GRAPH_EXEC_OK (Some JNull) = (TURBO_GRAPH_EXEC_OK, Some JNull)"
  by code_simp

end
