(* ===== verification/Run_Log_Trace.thy ===== *)
theory Run_Log_Trace
  imports Run_Log_Promises
begin

section \<open>The log of a graph run is its trace\<close>

text \<open>
  What a run writes into its log, event by event, when no allocation fails: for every pass that goes on to another node
  the start of the node, its finish and the route taken, then the events of the last pass, which tell how the run
  ended. The passes form a chain from the start node, and there are as many as the result counts steps.
\<close>

subsection \<open>What the log should say\<close>

definition trace_event :: "('j, 'd) json_lib \<Rightarrow> string \<Rightarrow> string \<Rightarrow> string \<Rightarrow> int \<Rightarrow> 'j" where
  "trace_event J name detail payload code =
     the (fst (turbo_event_trace_create_json_value J [] (Some name) (Some detail) (Some payload) code))"

abbreviation node_event :: "('j, 'd) json_lib \<Rightarrow> string \<Rightarrow> string \<Rightarrow> int \<Rightarrow> 'j" where
  "node_event J \<equiv> trace_event J ''graph.node''"

abbreviation route_event :: "('j, 'd) json_lib \<Rightarrow> string \<Rightarrow> string \<Rightarrow> 'j" where
  "route_event J detail node \<equiv> trace_event J ''graph.route'' detail node 0"

text \<open>\<open>m\<close> passes from \<open>first\<close> to \<open>x\<close>.\<close>

inductive passes :: "('j, 'd) json_lib \<Rightarrow> string \<Rightarrow> nat \<Rightarrow> 'j list \<Rightarrow> string \<Rightarrow> bool" for J first where
  none: "passes J first 0 [] first"
| pass: "passes J first m es x \<Longrightarrow>
    passes J first (Suc m) (es @ [node_event J ''start'' x 0, node_event J ''finish'' x 0, route_event J ''next'' y]) y"

text \<open>The last pass, at node \<open>x\<close>: whether it counts as a step, and what it leaves, by how the run ended.\<close>

inductive trace_end :: "('j, 'd) json_lib \<Rightarrow> turbo_graph_exec_status_t \<Rightarrow> cstr \<Rightarrow> string \<Rightarrow> nat \<Rightarrow> 'j list \<Rightarrow> bool" for J where
  in_front: "status \<in> {TURBO_GRAPH_EXEC_STEP_LIMIT, TURBO_GRAPH_EXEC_INTERRUPTED, TURBO_GRAPH_EXEC_NODE_NOT_FOUND} \<Longrightarrow>
    trace_end J status (Some x) x 0 []"
| unusable: "status \<in> {TURBO_GRAPH_EXEC_NODE_NOT_FOUND, TURBO_GRAPH_EXEC_INVALID_ARGUMENT} \<Longrightarrow>
    trace_end J status next x 0 [node_event J ''start'' x 0]"
| node_failed: "code < 0 \<Longrightarrow>
    trace_end J TURBO_GRAPH_EXEC_ERROR None x 1 [node_event J ''start'' x 0, node_event J ''error'' x code]"
| stopped: "0 \<le> code \<Longrightarrow> status = TURBO_GRAPH_EXEC_STOP \<and> next = None \<or>
      status \<in> {TURBO_GRAPH_EXEC_NODE_NOT_FOUND, TURBO_GRAPH_EXEC_INTERRUPTED} \<and> next \<noteq> None \<Longrightarrow>
    trace_end J status next x 1 [node_event J ''start'' x 0, node_event J ''stop'' x code]"
| not_routed: "status \<in> {TURBO_GRAPH_EXEC_ERROR, TURBO_GRAPH_EXEC_ROUTE_NOT_FOUND, TURBO_GRAPH_EXEC_NODE_NOT_FOUND} \<Longrightarrow>
    trace_end J status next x 1 [node_event J ''start'' x 0, node_event J ''finish'' x 0]"
| complete: "trace_end J TURBO_GRAPH_EXEC_OK None x 1
    [node_event J ''start'' x 0, node_event J ''finish'' x 0, route_event J ''complete'' x]"
| interrupted: "trace_end J TURBO_GRAPH_EXEC_INTERRUPTED (Some y) x 1
    [node_event J ''start'' x 0, node_event J ''finish'' x 0, route_event J ''next'' y]"

inductive_simps trace_end_OK: "trace_end J TURBO_GRAPH_EXEC_OK next x d tail"

subsection \<open>Callbacks that leave allocator and log alone\<close>

definition undisturbed :: "('j, 'v) logged world \<Rightarrow> ('j, 'v) logged world \<Rightarrow> bool" where
  "undisturbed w w' \<longleftrightarrow> (ch_alloc w = [] \<longrightarrow> ch_alloc w' = []) \<and> world_log w' = world_log w"

definition callbacks_quiet :: "('j, ('j, 'v) logged) turbo_graph \<Rightarrow> bool" where
  "callbacks_quiet g \<longleftrightarrow>
     (\<forall>n \<in> set (g_nodes g). \<forall>f ctx w. (gn_json_fn n = Some f \<or> gn_json_value_fn n = Some f) \<longrightarrow> undisturbed w (snd (snd (f ctx w)))) \<and>
     (\<forall>e \<in> set (g_edges g). \<forall>f ctx w. (ge_json_predicate e = Some f \<or> ge_json_value_predicate e = Some f) \<longrightarrow> undisturbed w (snd (f ctx w)))"

definition checkpoint_cb_quiet :: "('j turbo_graph_checkpoint \<Rightarrow> ('j, 'v) logged world \<Rightarrow> ('j, 'v) logged world) option \<Rightarrow> bool" where
  "checkpoint_cb_quiet cb \<longleftrightarrow> (\<forall>f cp w. cb = Some f \<longrightarrow> undisturbed w (f cp w))"

lemma undisturbed_refl [simp]: "undisturbed w w"
  by (simp add: undisturbed_def)

lemma undisturbed_trans: "undisturbed w w1 \<Longrightarrow> undisturbed w1 w2 \<Longrightarrow> undisturbed w w2"
  by (simp add: undisturbed_def)

lemma draw_undisturbed: "ch_draw w = (ok, w') \<Longrightarrow> undisturbed w w' \<and> (ch_alloc w = [] \<longrightarrow> ok)"
  by (auto simp: ch_draw_def undisturbed_def split: prod.splits)

lemma callback_undisturbed:
  assumes "callbacks_quiet g"
  shows "n \<in> set (g_nodes g) \<Longrightarrow> gn_json_fn n = Some f \<or> gn_json_value_fn n = Some f \<Longrightarrow> f ctx w = (st, ctx', w') \<Longrightarrow> undisturbed w w'"
    and "e \<in> set (g_edges g) \<Longrightarrow> ge_json_predicate e = Some p \<or> ge_json_value_predicate e = Some p \<Longrightarrow> p ctx w = (ps, w') \<Longrightarrow> undisturbed w w'"
  using assms unfolding callbacks_quiet_def by (metis snd_conv)+

subsection \<open>Events are written\<close>

text \<open>The log holds exactly \<open>es\<close>, and nothing has failed.\<close>

definition log_is :: "('j, 'd) json_lib \<Rightarrow> 'j list \<Rightarrow> ('j, 'v) logged world \<Rightarrow> bool" where
  "log_is J es w \<longleftrightarrow> ch_alloc w = [] \<and> log_inv J (gl_events (world_log w)) \<and> el_events (gl_events (world_log w)) = es \<and>
     el_last_status (gl_events (world_log w)) = TURBO_EVENT_LOG_OK"

lemma log_is_undisturbed: "log_is J es w \<Longrightarrow> undisturbed w w' \<Longrightarrow> log_is J es w'"
  by (simp add: log_is_def undisturbed_def)

lemma trace_event_created:
  assumes "json_laws J"
  shows "turbo_event_trace_create_json_value J [] (Some name) (Some detail) (Some payload) code =
    (Some (trace_event J name detail payload code), [])"
proof -
  have "\<exists>e. turbo_event_trace_create_json_value J [] (Some name) (Some detail) (Some payload) code = (Some e, [])"
    using json_obj [OF assms]
    by (simp add: turbo_event_trace_create_json_value_def json_create_def turbo_event_set_string_field_def f_value_def status_ok_def
        turbo_runtime_json_object_set_def)
  then show ?thesis by (auto simp: trace_event_def)
qed

lemma log_inv_status [simp]: "log_inv J (log\<lparr>el_last_status := st\<rparr>) = log_inv J log"
  by (simp add: log_inv_def)

lemma event_logged:
  assumes "json_laws J" and "log_is J es w"
  shows "\<exists>w'. turbo_graph_emit_trace_event J (Some (log_sink J)) name detail (Some payload) code w = (TURBO_GRAPH_EXEC_OK, w') \<and>
    log_is J (es @ [trace_event J name detail payload code]) w'"
proof -
  let ?e = "trace_event J name detail payload code"
  have alloc: "ch_alloc w = []" using assms(2) by (simp add: log_is_def)
  obtain st log' a where add: "turbo_event_log_append_json_value J (Some ?e) (gl_events (world_log w)) [] = (st, log', a)"
    by (metis prod_cases3)
  have "event_valid J ?e" using trace_accepted [OF assms(1) trace_event_created [OF assms(1)]] by (auto simp: accepted_def event_valid_def)
  with append_result [OF add] assms(2) have "log_inv J log' \<and> st = TURBO_EVENT_LOG_OK \<and> a = [] \<and> el_events log' = es @ [?e]"
    by (simp add: log_is_def)
  then show ?thesis using alloc add
    by (simp add: turbo_graph_emit_trace_event_def trace_event_created [OF assms(1)] log_sink_def turbo_event_log_capture_json_value_def log_is_def)
qed

text \<open>A checkpoint is captured, or its capture fails, without touching the events.\<close>

lemma deserialize_quiet: "turbo_graph_checkpoint_deserialize J [] text = (st, cp, a) \<Longrightarrow> a = []"
  by (auto simp: turbo_graph_checkpoint_deserialize_def turbo_graph_checkpoint_create_def turbo_graph_clone_json_def json_create_def
      Let_def split: option.splits prod.splits if_splits)

lemma capture_logged:
  assumes "checkpoint_cb_quiet cb" and "log_is J es w"
  shows "log_is J es (turbo_graph_run_log_capture_checkpoint J cb cp w)"
proof -
  obtain st log a where r: "turbo_graph_run_log_replace_checkpoint J cp (world_log w) (ch_alloc w) = (st, log, a)" by (metis prod_cases3)
  then have "a = [] \<and> gl_events log = gl_events (world_log w)"
    using assms(2) by (auto simp: turbo_graph_run_log_replace_checkpoint_def turbo_graph_run_log_clone_checkpoint_def log_is_def
        turbo_graph_checkpoint_serialize_def turbo_graph_clone_json_def json_create_def dest: deserialize_quiet
        split: prod.splits if_splits)
  then have w: "log_is J es (put_log (log\<lparr>gl_capture_status := st\<rparr>) (w\<lparr>ch_alloc := a\<rparr>))"
    using assms(2) by (simp add: log_is_def)
  have user: "log_is J es (f cp w1)" if "cb = Some f" "log_is J es w1" for f w1
    using assms(1) that by (auto simp: checkpoint_cb_quiet_def intro: log_is_undisturbed)
  show ?thesis using assms(2) w user [OF _ w]
    by (auto simp: turbo_graph_run_log_capture_checkpoint_def r Let_def split: option.split)
qed

lemma topology_quiet:
  "\<exists>t g1. turbo_graph_topology_id J [] g = (Some t, g1, []) \<and> g_nodes g1 = g_nodes g \<and> g_edges g1 = g_edges g"
  by (cases "g_topology_id g")
    (simp_all add: turbo_graph_topology_id_def turbo_graph_topology_id_build_def turbo_graph_topology_json_create_def)

lemma emission_logged:
  assumes "checkpoint_cb_quiet cb" and "log_is J es w" and "callbacks_quiet g"
  shows "\<exists>g' w'. turbo_graph_emit_checkpoint_json_value J
      (Some (options\<lparr>ro_checkpoint_cb := Some (turbo_graph_run_log_capture_checkpoint J cb)\<rparr>)) g nx steps state w =
      (TURBO_GRAPH_EXEC_OK, g', w') \<and> log_is J es w' \<and> callbacks_quiet g'"
proof -
  obtain t g1 where t: "turbo_graph_topology_id J [] g = (Some t, g1, [])" "g_nodes g1 = g_nodes g" "g_edges g1 = g_edges g"
    using topology_quiet by metis
  have alloc: "ch_alloc w = []" using assms(2) by (simp add: log_is_def)
  have same: "w\<lparr>ch_alloc := []\<rparr> = w" using alloc by (cases w) simp
  have "callbacks_quiet g1" using assms(3) t by (simp add: callbacks_quiet_def)
  then show ?thesis using alloc capture_logged [OF assms(1,2)]
    by (auto simp: turbo_graph_emit_checkpoint_json_value_def turbo_graph_json_value_state_to_json_def json_create_def
        turbo_graph_checkpoint_create_def turbo_graph_clone_json_def stamp_and_emit_def turbo_graph_checkpoint_set_topology_def t(1) same)
qed

subsection \<open>One pass of the loop\<close>

definition traced :: "('j, 'd) json_lib \<Rightarrow> 'j list \<Rightarrow> ('j, ('j, 'v) logged) run_state \<Rightarrow> bool" where
  "traced J es s \<longleftrightarrow> log_is J es (rs_world s) \<and> callbacks_quiet (rs_graph s)"

text \<open>A pass at node \<open>x\<close> that began with \<open>n\<close> steps and the events \<open>es\<close>.\<close>

definition pass_traced ::
    "('j, 'd) json_lib \<Rightarrow> 'j list \<Rightarrow> string \<Rightarrow> size_t \<Rightarrow> ('j, ('j, 'v) logged) run_step \<Rightarrow> bool" where
  "pass_traced J es x n out \<longleftrightarrow>
     (case out of
        Inl (r, s) \<Rightarrow> (\<exists>d tail. trace_end J (rr_status r) (rr_next_node r) x d tail \<and> traced J (es @ tail) s \<and> rr_steps r = n + of_nat d)
      | Inr s \<Rightarrow> (\<exists>y. traced J (es @ [node_event J ''start'' x 0, node_event J ''finish'' x 0, route_event J ''next'' y]) s \<and>
          rs_current s = y \<and> rs_steps s = n + 1))"

lemma pass_return:
  assumes "trace_end J status nx x d tail" and "traced J (es @ tail) s" and "rs_steps s = n + of_nat d"
  shows "pass_traced J es x n (run_return status nx s)"
  using assms by (auto simp: pass_traced_def run_return_def turbo_graph_result_init_def)

lemmas pass_return0 = pass_return [where d = 0, unfolded of_nat_0 add_0_right]
lemmas pass_return1 = pass_return [where d = 1, unfolded of_nat_1]

lemma trace_traced:
  assumes "json_laws J" and "traced J es s"
  shows "\<exists>w. trace_or_fail J (Some (log_sink J)) name detail (Some payload) code nx s k = k (s\<lparr>rs_world := w\<rparr>) \<and>
    traced J (es @ [trace_event J name detail payload code]) (s\<lparr>rs_world := w\<rparr>)"
  using event_logged [OF assms(1), of es "rs_world s" name detail payload code] assms(2)
  by (auto simp: trace_or_fail_def traced_def)

lemma rs_world_same [simp]: "s\<lparr>rs_world := rs_world s\<rparr> = s"
  by (cases s) simp

abbreviation captured_options where
  "captured_options J cb options \<equiv> Some (options\<lparr>ro_checkpoint_cb := Some (turbo_graph_run_log_capture_checkpoint J cb)\<rparr>)"

lemma emit_traced:
  assumes "checkpoint_cb_quiet cb" and "traced J es s"
  shows "\<exists>g w. emit_or_fail (turbo_graph_emit_checkpoint_json_value J (captured_options J cb options)) nx s k =
      k (s\<lparr>rs_graph := g, rs_world := w\<rparr>) \<and> traced J es (s\<lparr>rs_graph := g, rs_world := w\<rparr>)"
  using emission_logged [OF assms(1), of J es "rs_world s" "rs_graph s" options nx "rs_steps s" "rs_tree s"] assms(2)
  by (fastforce simp: emit_or_fail_def traced_def)

lemma advance_traced:
  assumes "json_laws J" and "checkpoint_cb_quiet cb"
    and "traced J (es @ [node_event J ''start'' x 0, node_event J ''finish'' x 0]) s" and "rs_steps s = n + 1" and "rs_last s = Some x"
  shows "pass_traced J es x n (json_value_advance J (captured_options J cb options) None (Some (log_sink J)) nxt c s)"
proof (cases nxt)
  case None
  show ?thesis
  proof (cases "c > 0")
    case True
    then show ?thesis using assms(3,4) None by (auto simp: json_value_advance_def intro!: pass_return1 trace_end.not_routed)
  next
    case False
    obtain w where "trace_or_fail J (Some (log_sink J)) ''graph.route'' ''complete'' (Some x) 0 None s
        (run_return TURBO_GRAPH_EXEC_OK None) = run_return TURBO_GRAPH_EXEC_OK None (s\<lparr>rs_world := w\<rparr>)"
      "traced J (es @ [node_event J ''start'' x 0, node_event J ''finish'' x 0, route_event J ''complete'' x]) (s\<lparr>rs_world := w\<rparr>)"
      using trace_traced [OF assms(1,3), of "''graph.route''" "''complete''" x 0 None "run_return TURBO_GRAPH_EXEC_OK None"] by auto
    then show ?thesis using assms(4,5) None False by (auto simp: json_value_advance_def intro!: pass_return1 trace_end.complete)
  qed
next
  case (Some y)
  let ?es = "es @ [node_event J ''start'' x 0, node_event J ''finish'' x 0, route_event J ''next'' y]"
  define k2 where "k2 = (\<lambda>s :: ('a, ('a, 'c) logged) run_state. if turbo_graph_should_interrupt_before (captured_options J cb options) y
    then run_return TURBO_GRAPH_EXEC_INTERRUPTED (Some y) s else Inr (s\<lparr>rs_current := y\<rparr>))"
  define k where "k = (\<lambda>s. emit_or_fail (turbo_graph_emit_checkpoint_json_value J (captured_options J cb options)) y s k2)"
  obtain w where w: "trace_or_fail J (Some (log_sink J)) ''graph.route'' ''next'' (Some y) 0 (Some y) s k = k (s\<lparr>rs_world := w\<rparr>)"
    and tr: "traced J ?es (s\<lparr>rs_world := w\<rparr>)"
    using trace_traced [OF assms(1,3), of "''graph.route''" "''next''" y 0 "Some y" k] by auto
  obtain g w' where e: "traced J ?es (s\<lparr>rs_graph := g, rs_world := w'\<rparr>)" and k: "k (s\<lparr>rs_world := w\<rparr>) = k2 (s\<lparr>rs_graph := g, rs_world := w'\<rparr>)"
    using emit_traced [OF assms(2) tr, of options y k2] by (auto simp: k_def)
  have "json_value_advance J (captured_options J cb options) None (Some (log_sink J)) nxt c s = k (s\<lparr>rs_world := w\<rparr>)"
    unfolding w [symmetric] by (simp add: json_value_advance_def Some k_def k2_def [abs_def] turbo_graph_cancel_status_def Let_def cong: if_cong)
  then show ?thesis unfolding k k2_def using e assms(4)
    by (auto intro!: pass_return1 trace_end.interrupted) (simp add: pass_traced_def traced_def)
qed

lemma route_undisturbed:
  assumes "callbacks_quiet g"
  shows "set edges \<subseteq> set (g_edges g) \<Longrightarrow> ch_alloc w = [] \<Longrightarrow> json_value_route g i ctx edges c w = (r, w') \<Longrightarrow>
    undisturbed w w' \<and> (\<forall>status. r = Inl status \<longrightarrow> status = TURBO_GRAPH_EXEC_ERROR)"
proof (induction edges arbitrary: c w)
  case (Cons edge edges)
  have decided: "undisturbed w w' \<and> (\<forall>status. r = Inl status \<longrightarrow> status = TURBO_GRAPH_EXEC_ERROR)"
    if p: "p ctx w1 = (ps, w2)" "undisturbed w w1" "ge_json_predicate edge = Some p \<or> ge_json_value_predicate edge = Some p"
      and d: "(if ps < 0 then (Inl TURBO_GRAPH_EXEC_ERROR, w2) else if ps > 0 then (Inr (Some t, c'), w2)
        else json_value_route g i ctx edges c' w2) = (r, w')" for p w1 ps w2 t c'
  proof -
    have 1: "undisturbed w w2" using undisturbed_trans [OF p(2)] callback_undisturbed(2) [OF assms _ p(3,1)] Cons.prems(1) by simp
    then have "ch_alloc w2 = []" using Cons.prems(2) by (simp add: undisturbed_def)
    then show ?thesis using d 1 Cons.IH [of w2 c'] Cons.prems(1) undisturbed_trans [OF 1] by (auto split: if_splits)
  qed
  obtain ok w0 where w0: "ch_draw w = (ok, w0)" by fastforce
  then have ok: ok "undisturbed w w0" using draw_undisturbed [OF w0] Cons.prems(2) by auto
  show ?case
  proof (cases "ge_from_index edge = i")
    case False
    then show ?thesis using Cons.IH [of w c] Cons.prems by auto
  next
    case True
    show ?thesis
    proof (cases "ge_json_value_predicate edge")
      case (Some p)
      obtain ps w2 where "p ctx w = (ps, w2)" by fastforce
      then show ?thesis using Cons.prems(3) True Some decided [of p w ps w2 "gn_name (g_nodes g ! ge_to_index edge)" "Suc c"] by (simp add: Let_def)
    next
      case None
      show ?thesis
      proof (cases "ge_json_predicate edge")
        case (Some p)
        obtain ps w2 where "p ctx w0 = (ps, w2)" by fastforce
        then show ?thesis using Cons.prems(3) True None Some w0 ok decided [of p w0 ps w2 "gn_name (g_nodes g ! ge_to_index edge)" "Suc c"]
          by (simp add: Let_def)
      next
        case n: None
        then show ?thesis using Cons.prems(3) True None by (auto simp: Let_def)
      qed
    qed
  qed
qed auto

lemma traced_world: "traced J es s \<Longrightarrow> undisturbed (rs_world s) w \<Longrightarrow> traced J es (s\<lparr>rs_world := w\<rparr>)"
  using log_is_undisturbed by (auto simp: traced_def)

lemma finish_traced:
  assumes "json_laws J" and "checkpoint_cb_quiet cb" and "callbacks_quiet (rs_graph s)"
    and "traced J (es @ [node_event J ''start'' x 0, node_event J ''finish'' x 0]) s" and "rs_steps s = n + 1" and "rs_last s = Some x"
  shows "pass_traced J es x n
    (case cx_next_node ctx of
       Some y \<Rightarrow> if turbo_graph_find_node_index (rs_graph s) (Some y) = None
         then run_return TURBO_GRAPH_EXEC_NODE_NOT_FOUND (Some y) s
         else json_value_advance J (captured_options J cb options) None (Some (log_sink J)) (Some y) 0 s
     | None \<Rightarrow> (case json_value_route (rs_graph s) i ctx (g_edges (rs_graph s)) 0 (rs_world s) of
           (Inl status, w) \<Rightarrow> run_return status None (s\<lparr>rs_world := w\<rparr>)
         | (Inr (y, c), w) \<Rightarrow>
             json_value_advance J (captured_options J cb options) None (Some (log_sink J)) y c (s\<lparr>rs_world := w\<rparr>)))"
proof (cases "cx_next_node ctx")
  case (Some y)
  then show ?thesis using assms by (auto intro!: pass_return1 trace_end.not_routed advance_traced)
next
  case None
  obtain r w where r: "json_value_route (rs_graph s) i ctx (g_edges (rs_graph s)) 0 (rs_world s) = (r, w)" by fastforce
  have alloc: "ch_alloc (rs_world s) = []" using assms(4) by (simp add: traced_def log_is_def)
  note q = route_undisturbed [OF assms(3) subset_refl alloc r]
  have tr: "traced J (es @ [node_event J ''start'' x 0, node_event J ''finish'' x 0]) (s\<lparr>rs_world := w\<rparr>)"
    using traced_world [OF assms(4)] q by simp
  show ?thesis
  proof (cases r)
    case (Inl status)
    then have "status = TURBO_GRAPH_EXEC_ERROR" using q by simp
    then show ?thesis using None r Inl tr assms(5) by (auto intro!: pass_return1 trace_end.not_routed)
  next
    case (Inr yc)
    obtain y c where "yc = (y, c)" by fastforce
    then show ?thesis using None r Inr advance_traced [OF assms(1,2) tr] assms(5,6) by simp
  qed
qed

lemma stop_traced:
  assumes "checkpoint_cb_quiet cb" and "0 \<le> code"
    and "traced J (es @ [node_event J ''start'' x 0, node_event J ''stop'' x code]) s" and "rs_steps s = n + 1"
  shows "pass_traced J es x n
    (case cx_next_node ctx of
       None \<Rightarrow> run_return TURBO_GRAPH_EXEC_STOP None s
     | Some y \<Rightarrow>
        (case turbo_graph_find_node_index (rs_graph s) (Some y) of
           None \<Rightarrow> run_return TURBO_GRAPH_EXEC_NODE_NOT_FOUND (Some y) s
         | Some next_index \<Rightarrow>
            (let resolved_next = gn_name (g_nodes (rs_graph s) ! next_index)
             in emit_or_fail (turbo_graph_emit_checkpoint_json_value J (captured_options J cb options)) resolved_next s
                  (\<lambda>s. run_return TURBO_GRAPH_EXEC_INTERRUPTED (Some resolved_next) s))))"
proof -
  have "pass_traced J es x n (emit_or_fail (turbo_graph_emit_checkpoint_json_value J (captured_options J cb options)) z s
      (\<lambda>s. run_return TURBO_GRAPH_EXEC_INTERRUPTED (Some z) s))" for z
    using emit_traced [OF assms(1,3), of options z "run_return TURBO_GRAPH_EXEC_INTERRUPTED (Some z)"] assms(2,4)
    by (auto intro!: pass_return1 [OF trace_end.stopped])
  then show ?thesis using assms by (auto simp: Let_def intro!: pass_return1 trace_end.stopped split: option.split)
qed

lemma after_node_traced:
  assumes "json_laws J" and "checkpoint_cb_quiet cb"
    and "traced J (es @ [node_event J ''start'' x 0]) s" and "rs_steps s = n + 1" and "rs_last s = Some x"
  shows "pass_traced J es x n (json_value_after_node J (captured_options J cb options) None (Some (log_sink J)) i code ctx s)"
proof -
  have log: "log_is J (es @ [node_event J ''start'' x 0]) (rs_world s)" and cb: "callbacks_quiet (rs_graph s)"
    using assms(3) by (simp_all add: traced_def)
  have append: "(es @ [node_event J ''start'' x 0]) @ [e] = es @ [node_event J ''start'' x 0, e]" for e by simp
  consider "code < 0" | "0 \<le> code" "cx_stop ctx \<or> code > 0" | "code = 0" "\<not> cx_stop ctx" by linarith
  then show ?thesis
  proof cases
    case 1
    then show ?thesis using event_logged [OF assms(1) log, of "''graph.node''" "''error''" x code] assms(4,5) cb
      by (auto simp: json_value_after_node_def traced_def intro!: pass_return1 trace_end.node_failed)
  next
    case 2
    let ?k = "\<lambda>s. case cx_next_node ctx of
       None \<Rightarrow> run_return TURBO_GRAPH_EXEC_STOP None s
     | Some y \<Rightarrow>
        (case turbo_graph_find_node_index (rs_graph s) (Some y) of
           None \<Rightarrow> run_return TURBO_GRAPH_EXEC_NODE_NOT_FOUND (Some y) s
         | Some next_index \<Rightarrow>
            (let resolved_next = gn_name (g_nodes (rs_graph s) ! next_index)
             in emit_or_fail (turbo_graph_emit_checkpoint_json_value J (captured_options J cb options)) resolved_next s
                  (\<lambda>s. run_return TURBO_GRAPH_EXEC_INTERRUPTED (Some resolved_next) s)))"
    obtain w where w: "trace_or_fail J (Some (log_sink J)) ''graph.node'' ''stop'' (Some x) code None s ?k = ?k (s\<lparr>rs_world := w\<rparr>)"
      and tr: "traced J (es @ [node_event J ''start'' x 0, node_event J ''stop'' x code]) (s\<lparr>rs_world := w\<rparr>)"
      using trace_traced [OF assms(1,3), of "''graph.node''" "''stop''" x code None ?k] unfolding append by blast
    have "json_value_after_node J (captured_options J cb options) None (Some (log_sink J)) i code ctx s = ?k (s\<lparr>rs_world := w\<rparr>)"
      using 2 w assms(5) by (simp add: json_value_after_node_def)
    then show ?thesis using stop_traced [OF assms(2) 2(1) tr, of n options ctx] assms(4) by simp
  next
    case 3
    let ?k = "\<lambda>s. case cx_next_node ctx of
       Some y \<Rightarrow> if turbo_graph_find_node_index (rs_graph s) (Some y) = None
         then run_return TURBO_GRAPH_EXEC_NODE_NOT_FOUND (Some y) s
         else json_value_advance J (captured_options J cb options) None (Some (log_sink J)) (Some y) 0 s
     | None \<Rightarrow> (case json_value_route (rs_graph s) i ctx (g_edges (rs_graph s)) 0 (rs_world s) of
           (Inl status, w) \<Rightarrow> run_return status None (s\<lparr>rs_world := w\<rparr>)
         | (Inr (y, c), w) \<Rightarrow>
             json_value_advance J (captured_options J cb options) None (Some (log_sink J)) y c (s\<lparr>rs_world := w\<rparr>))"
    obtain w where w: "trace_or_fail J (Some (log_sink J)) ''graph.node'' ''finish'' (Some x) 0 None s ?k = ?k (s\<lparr>rs_world := w\<rparr>)"
      and tr: "traced J (es @ [node_event J ''start'' x 0, node_event J ''finish'' x 0]) (s\<lparr>rs_world := w\<rparr>)"
      using trace_traced [OF assms(1,3), of "''graph.node''" "''finish''" x 0 None ?k] unfolding append by blast
    have "json_value_after_node J (captured_options J cb options) None (Some (log_sink J)) i code ctx s = ?k (s\<lparr>rs_world := w\<rparr>)"
      using 3 w assms(5) by (simp add: json_value_after_node_def)
    then show ?thesis using finish_traced [OF assms(1,2) _ tr, where ctx = ctx and options = options and i = i] cb assms(4,5) by simp
  qed
qed

lemma call_node_traced:
  assumes "json_value_call_node node ctx s = out" and "traced J (es @ [node_event J ''start'' x 0]) s"
    and "node \<in> set (g_nodes (rs_graph s))" and "rs_steps s = n"
  shows "case out of Inl returned \<Rightarrow> pass_traced J es x n returned
    | Inr (code, ctx', s') \<Rightarrow> traced J (es @ [node_event J ''start'' x 0]) s' \<and> rs_steps s' = n"
proof -
  let ?es = "es @ [node_event J ''start'' x 0]"
  have cb: "callbacks_quiet (rs_graph s)" and alloc: "ch_alloc (rs_world s) = []" using assms(2) by (simp_all add: traced_def log_is_def)
  have end_: "pass_traced J es x n (run_return status nx (s\<lparr>rs_world := w\<rparr>))"
    if "undisturbed (rs_world s) w" "status \<in> {TURBO_GRAPH_EXEC_NODE_NOT_FOUND, TURBO_GRAPH_EXEC_INVALID_ARGUMENT}" for status nx w
    using that assms(4) traced_world [OF assms(2)] by (intro pass_return0 [OF trace_end.unusable]) auto
  have called: "undisturbed w w'" if "f ctx w = (code, ctx', w')" "gn_json_fn node = Some f \<or> gn_json_value_fn node = Some f" for f w code ctx' w'
    using callback_undisturbed(1) [OF cb assms(3) that(2,1)] .
  have go: "case json_value_take_update code ctx' (s\<lparr>rs_world := w\<rparr>) of Inl returned \<Rightarrow> pass_traced J es x n returned
      | Inr (code, ctx', s') \<Rightarrow> traced J ?es s' \<and> rs_steps s' = n"
    if "undisturbed (rs_world s) w" for code ctx' w
  proof -
    obtain ok w' where d: "ch_draw w = (ok, w')" by fastforce
    have "ch_alloc w = []" using that alloc by (simp add: undisturbed_def)
    then have "ok" "undisturbed (rs_world s) w'" using draw_undisturbed [OF d] undisturbed_trans [OF that] by auto
    then show ?thesis using traced_world [OF assms(2)] assms(4) by (simp add: json_value_take_update_def d traced_def)
  qed
  show ?thesis
  proof (cases "gn_json_value_fn node")
    case (Some f)
    obtain code ctx' w where f: "f ctx (rs_world s) = (code, ctx', w)" by (metis prod_cases3)
    have "traced J ?es (s\<lparr>rs_world := w\<rparr>)" using traced_world [OF assms(2)] called [of f "rs_world s"] f Some by simp
    then show ?thesis using assms(1,4) Some f by (auto simp: json_value_call_node_def traced_def)
  next
    case None
    show ?thesis
    proof (cases "gn_json_fn node")
      case n: None
      then show ?thesis using assms(1) None end_ [of "rs_world s"] by (auto simp: json_value_call_node_def)
    next
      case (Some f)
      obtain ok w where d: "ch_draw (rs_world s) = (ok, w)" by fastforce
      then have ok: ok "undisturbed (rs_world s) w" using draw_undisturbed [OF d] alloc by auto
      obtain code ctx' w' where f: "f ctx w = (code, ctx', w')" by (metis prod_cases3)
      have w': "undisturbed (rs_world s) w'" using undisturbed_trans [OF ok(2)] called [of f w] f Some by simp
      then show ?thesis using assms(1) None Some d ok f end_ [OF w'] go [OF w']
        by (cases "cx_next_node ctx'"; cases "turbo_graph_find_node_index (rs_graph s) (cx_next_node ctx')")
          (auto simp: json_value_call_node_def Let_def)
    qed
  qed
qed

lemma found_node:
  assumes "turbo_graph_find_node_index g (Some x) = Some i"
  shows "g_nodes g ! i \<in> set (g_nodes g)" and "gn_name (g_nodes g ! i) = x"
  using assms by (auto simp: turbo_graph_find_node_index_def find_Some_iff)

lemma run_node_traced:
  assumes "json_laws J" and "checkpoint_cb_quiet cb" and "traced J es s"
  shows "pass_traced J es (rs_current s) (rs_steps s) (json_value_run_node J (captured_options J cb options) None (Some (log_sink J)) s)"
proof (cases "turbo_graph_find_node_index (rs_graph s) (Some (rs_current s))")
  case None
  then show ?thesis using assms(3) by (auto simp: json_value_run_node_def intro!: pass_return0 trace_end.in_front)
next
  case (Some i)
  let ?x = "rs_current s" and ?node = "g_nodes (rs_graph s) ! i"
  note node = found_node [OF Some]
  define k where "k = (\<lambda>s. case json_value_call_node ?node
      \<lparr>cx_tree = rs_tree s, cx_current_node = gn_name ?node, cx_next_node = None, cx_step = rs_steps s, cx_stop = False\<rparr> s of
      Inl returned \<Rightarrow> returned
    | Inr (node_status, ctx, s) \<Rightarrow> json_value_after_node J (captured_options J cb options) None (Some (log_sink J)) i node_status ctx
        (s\<lparr>rs_steps := rs_steps s + 1, rs_last := Some (gn_name ?node)\<rparr>))"
  obtain w where w: "trace_or_fail J (Some (log_sink J)) ''graph.node'' ''start'' (Some (gn_name ?node)) 0 (Some ?x) s k = k (s\<lparr>rs_world := w\<rparr>)"
    and tr: "traced J (es @ [node_event J ''start'' ?x 0]) (s\<lparr>rs_world := w\<rparr>)"
    using trace_traced [OF assms(1,3), of "''graph.node''" "''start''" "gn_name ?node" 0 "Some ?x" k] unfolding node(2) by blast
  have mem: "?node \<in> set (g_nodes (rs_graph (s\<lparr>rs_world := w\<rparr>)))" using node by simp
  define call where "call = json_value_call_node ?node
      \<lparr>cx_tree = rs_tree s, cx_current_node = gn_name ?node, cx_next_node = None, cx_step = rs_steps s, cx_stop = False\<rparr> (s\<lparr>rs_world := w\<rparr>)"
  note c = call_node_traced [OF call_def [symmetric] tr mem, of "rs_steps s"]
  have run: "json_value_run_node J (captured_options J cb options) None (Some (log_sink J)) s =
     (case call of Inl returned \<Rightarrow> returned
      | Inr (code, ctx, s) \<Rightarrow> json_value_after_node J (captured_options J cb options) None (Some (log_sink J)) i code ctx
          (s\<lparr>rs_steps := rs_steps s + 1, rs_last := Some (gn_name ?node)\<rparr>))"
    using w by (simp add: json_value_run_node_def Some k_def call_def Let_def)
  show ?thesis unfolding run
  proof (cases call)
    case (Inl returned)
    then show "pass_traced J es ?x (rs_steps s) (case call of Inl returned \<Rightarrow> returned
      | Inr (code, ctx, s) \<Rightarrow> json_value_after_node J (captured_options J cb options) None (Some (log_sink J)) i code ctx
          (s\<lparr>rs_steps := rs_steps s + 1, rs_last := Some (gn_name ?node)\<rparr>))" using c by simp
  next
    case (Inr y)
    then obtain code ctx s' where y: "call = Inr (code, ctx, s')" by (metis prod_cases3)
    then have s': "traced J (es @ [node_event J ''start'' ?x 0]) s'" "rs_steps s' = rs_steps s" using c by simp_all
    then have "traced J (es @ [node_event J ''start'' ?x 0]) (s'\<lparr>rs_steps := rs_steps s' + 1, rs_last := Some (gn_name ?node)\<rparr>)" by (simp add: traced_def)
    from after_node_traced [OF assms(1,2) this, of "rs_steps s" options i code ctx] s'(2) node(2)
    show "pass_traced J es ?x (rs_steps s) (case call of Inl returned \<Rightarrow> returned
      | Inr (code, ctx, s) \<Rightarrow> json_value_after_node J (captured_options J cb options) None (Some (log_sink J)) i code ctx
          (s\<lparr>rs_steps := rs_steps s + 1, rs_last := Some (gn_name ?node)\<rparr>))" by (simp add: y)
  qed
qed

lemma step_traced:
  assumes "json_laws J" and "checkpoint_cb_quiet cb" and "traced J es s"
  shows "pass_traced J es (rs_current s) (rs_steps s)
    (run_internal_json_value_step J (captured_options J cb options) None (Some (log_sink J)) s)"
proof -
  have interrupted: "pass_traced J es (rs_current s) (rs_steps s)
      (emit_or_fail (turbo_graph_emit_checkpoint_json_value J (captured_options J cb options)) (rs_current s) s
        (\<lambda>s. run_return TURBO_GRAPH_EXEC_INTERRUPTED (Some (rs_current s)) s))"
    using emit_traced [OF assms(2,3), of options "rs_current s" "\<lambda>s. run_return TURBO_GRAPH_EXEC_INTERRUPTED (Some (rs_current s)) s"]
    by (auto intro!: pass_return0 trace_end.in_front)
  have "traced J es (s\<lparr>rs_skip := False\<rparr>)" using assms(3) by (simp add: traced_def)
  from run_node_traced [OF assms(1,2) this, of options] show ?thesis
    using interrupted assms(3)
    by (auto simp: run_internal_json_value_step_def turbo_graph_cancel_status_def Let_def intro!: pass_return0 trace_end.in_front)
qed

subsection \<open>The whole run\<close>

lemma internal_traced:
  assumes "json_laws J" and "checkpoint_cb_quiet cb" and "callbacks_quiet g" and "log_is J [] w"
    and "turbo_graph_run_internal_json_value J g v (Some first) n (captured_options J cb options) None (Some (log_sink J)) w =
      Some (r, v', g', w')"
  shows "\<exists>m es x d tail. passes J first m es x \<and> trace_end J (rr_status r) (rr_next_node r) x d tail \<and> log_is J (es @ tail) w' \<and>
    rr_steps r = n + of_nat (m + d)"
proof -
  let ?step = "run_internal_json_value_step J (captured_options J cb options) None (Some (log_sink J))"
  let ?I = "\<lambda>s. \<exists>m es. passes J first m es (rs_current s) \<and> traced J es s \<and> rs_steps s = n + of_nat m"
  obtain s' where s': "run_loop ?step (run_start (captured_options J cb options) g v first n w) = Some (r, s')" and w': "w' = rs_world s'"
    using assms(5) by (auto simp: turbo_graph_run_internal_json_value_def run_end_of_def)
  have "case (r, s') of (r, s') \<Rightarrow> \<exists>m es x d tail. passes J first m es x \<and> trace_end J (rr_status r) (rr_next_node r) x d tail \<and>
      traced J (es @ tail) s' \<and> rr_steps r = n + of_nat (m + d)"
  proof (rule run_loop_inv [OF s', of ?I])
    show "?I (run_start (captured_options J cb options) g v first n w)"
      using passes.none assms(3,4) by (fastforce simp: run_start_def traced_def)
  next
    fix s s1 assume "?I s" and step: "?step s = Inr s1"
    then obtain m es where p: "passes J first m es (rs_current s)" "traced J es s" "rs_steps s = n + of_nat m" by blast
    from step_traced [OF assms(1,2) p(2), of options] step obtain y where
      "traced J (es @ [node_event J ''start'' (rs_current s) 0, node_event J ''finish'' (rs_current s) 0, route_event J ''next'' y]) s1"
      "rs_current s1 = y" "rs_steps s1 = rs_steps s + 1" by (auto simp: pass_traced_def)
    with passes.pass [OF p(1), of y] p(3) show "?I s1" by (intro exI conjI) (assumption | simp)+
  next
    fix s out assume "?I s" and step: "?step s = Inl out"
    then obtain m es where p: "passes J first m es (rs_current s)" "traced J es s" "rs_steps s = n + of_nat m" by blast
    obtain r1 s1 where out: "out = (r1, s1)" by fastforce
    from step_traced [OF assms(1,2) p(2), of options] step p(1,3)
    show "case out of (r, s') \<Rightarrow> \<exists>m es x d tail. passes J first m es x \<and> trace_end J (rr_status r) (rr_next_node r) x d tail \<and>
        traced J (es @ tail) s' \<and> rr_steps r = n + of_nat (m + d)"
      by (fastforce simp: pass_traced_def out)
  qed
  then show ?thesis unfolding w' traced_def prod.case by blast
qed

lemma effective_options_captured: "\<exists>base. Some (effective_options J options) = captured_options J (user_checkpoint_cb options) base"
  using effective_options_shape [of J options] by metis

lemma effective_start_node: "options_start_node (Some (effective_options J options)) g = options_start_node options g"
  by (cases options) (simp_all add: effective_options_def options_start_node_def Let_def)

text \<open>C11. A run with a log tells its whole story. Let no allocation fail and let the callbacks of the client leave the log
  and the allocator alone. Then a run with a step limit and a start node returns, with a result, and the log (which was
  emptied first) holds exactly: for each of \<open>m\<close> passes, one after the other from the start node, the start of the node,
  its finish and the route to the next node; then the events of the last pass, which agree with the status of the result:
  the completed route of the last node when it is OK, the stop or error event of the node with its code, the route to the
  node in front of which the run was interrupted, and so on. The steps of the result are the \<open>m\<close> passes and the last
  one, if it called its node. The status is the one of the result unless the last checkpoint could not be copied.\<close>

theorem run_log_is_trace:
  assumes "json_laws J" and "graph_inv J g" and "0 < options_max_steps options" and "options_start_node options g = Some first"
    and "callbacks_quiet g" and "checkpoint_cb_quiet (user_checkpoint_cb options)" and "ch_alloc w = []"
  shows "\<exists>call r m es x d tail. turbo_graph_run_json_value_log J g state options w = Some call \<and> rc_result call = Some r \<and>
    graph_view (rc_graph call) = graph_view g \<and> passes J first m es x \<and> trace_end J (rr_status r) (rr_next_node r) x d tail \<and>
    el_events (gl_events (world_log (rc_world call))) = es @ tail \<and> rr_steps r = of_nat (m + d) \<and>
    rc_status call = (if gl_capture_status (world_log (rc_world call)) = TURBO_GRAPH_EXEC_OK then rr_status r
      else gl_capture_status (world_log (rc_world call)))"
proof -
  let ?empty = "\<lparr>el_events = [], el_capacity = 0, el_last_status = TURBO_EVENT_LOG_OK\<rparr>"
  let ?log = "(world_log w)\<lparr>gl_events := ?empty, gl_checkpoint := None, gl_capture_status := TURBO_GRAPH_EXEC_OK\<rparr>"
  let ?w = "put_log ?log w"
  have w: "w\<lparr>ch_alloc := []\<rparr> = w" using assms(7) by (cases w) simp
  let ?call = "turbo_graph_run_json_value_stream J g state (Some (effective_options J options)) (Some (log_sink J)) ?w"
  have log: "turbo_graph_run_json_value_log J g state options w = map_option log_finish ?call"
    using assms(7) w by (simp add: turbo_graph_run_json_value_log_def turbo_graph_run_log_reset_def turbo_event_log_create_def Let_def)
  obtain call where call: "?call = Some call" "graph_view (rc_graph call) = graph_view g"
    using stream_returns [OF assms(2), of "Some (effective_options J options)"] assms(3) unfolding effective_max_steps by blast
  obtain base where base: "Some (effective_options J options) = captured_options J (user_checkpoint_cb options) base"
    using effective_options_captured by blast
  have alloc: "ch_alloc ?w = []" and same: "?w\<lparr>ch_alloc := []\<rparr> = ?w" using assms(7) by (cases w; simp)+
  obtain v where v: "turbo_graph_clone_json_value_state J [] state = (TURBO_GRAPH_EXEC_OK, Some v, [])"
    by (simp add: turbo_graph_clone_json_value_state_def json_create_def)
  have start: "options_start_node (captured_options J (user_checkpoint_cb options) base) g = Some first"
    using effective_start_node [of J options g] base assms(4) by simp
  obtain r v' g' w' where run: "turbo_graph_run_internal_json_value J g v (Some first) 0 (captured_options J (user_checkpoint_cb options) base)
      None (Some (log_sink J)) ?w = Some (r, v', g', w')" and c: "call = run_call_of (r, v', g', w')"
    using call(1) unfolding turbo_graph_run_json_value_stream_def turbo_graph_run_json_value_stream_controlled_def base start alloc v
    by (auto simp: same)
  have "log_is J [] ?w" using alloc by (simp add: log_is_def log_inv_def)
  from internal_traced [OF assms(1,6,5) this run] obtain m es x d tail where
    p: "passes J first m es x" "trace_end J (rr_status r) (rr_next_node r) x d tail" "rr_steps r = of_nat (m + d)"
    and l: "log_is J (es @ tail) w'" by auto
  have fin: "rc_result (log_finish call) = Some r" "rc_graph (log_finish call) = rc_graph call" "rc_world (log_finish call) = w'"
    "rc_status (log_finish call) = (if gl_capture_status (world_log w') = TURBO_GRAPH_EXEC_OK then rr_status r else gl_capture_status (world_log w'))"
    using l by (simp_all add: c run_call_of_def log_finish_def turbo_graph_run_log_finalize_def turbo_event_log_status_def log_is_def)
  show ?thesis using p l call(2) fin
    by (intro exI [of _ "log_finish call"] exI [of _ r] exI [of _ m] exI [of _ es] exI [of _ x] exI [of _ d] exI [of _ tail])
      (simp add: log call(1) log_is_def)
qed

text \<open>A graph of one node that goes round, and one that ends after its only node.\<close>

definition logged_end :: "(jv, (jv, unit) logged) turbo_graph" where
  "logged_end = logged_loop\<lparr>g_edges := []\<rparr>"

lemma run_log_is_trace_witness:
  "\<exists>call. turbo_graph_run_json_value_log ref_json logged_end (Some JNull) two_steps log_world = Some call \<and>
     rc_status call = TURBO_GRAPH_EXEC_OK \<and> el_events (gl_events (world_log (rc_world call))) =
       [node_event ref_json ''start'' ''a'' 0, node_event ref_json ''finish'' ''a'' 0, route_event ref_json ''complete'' ''a'']"
proof -
  let ?run = "turbo_graph_run_json_value_log ref_json logged_end (Some JNull) two_steps log_world"
  have inv: "graph_inv ref_json logged_end"
    by (simp add: logged_end_def logged_loop_def graph_inv_def graph_shape_def graph_names_def topology_cache_ok_def)
  have quiet: "callbacks_quiet logged_end" by (auto simp: callbacks_quiet_def logged_end_def logged_loop_def plain_node_def)
  have cb: "checkpoint_cb_quiet (user_checkpoint_cb two_steps)" by (simp add: checkpoint_cb_quiet_def user_checkpoint_cb_def two_steps_def)
  have steps: "0 < options_max_steps two_steps" "options_start_node two_steps logged_end = Some ''a''"
    by (simp_all add: options_max_steps_def options_start_node_def two_steps_def logged_end_def logged_loop_def)
  have alloc: "ch_alloc log_world = []" by (simp add: log_world_def)
  obtain call r m es x d tail where c: "?run = Some call" "rc_result call = Some r" "passes ref_json ''a'' m es x"
    "trace_end ref_json (rr_status r) (rr_next_node r) x d tail" "el_events (gl_events (world_log (rc_world call))) = es @ tail"
    "rr_steps r = of_nat (m + d)"
    using run_log_is_trace [OF ref_json_laws inv steps quiet cb alloc] by blast
  have "map_option (\<lambda>c. (rc_status c, map_option rr_status (rc_result c), length (el_events (gl_events (world_log (rc_world c)))))) ?run =
      Some (TURBO_GRAPH_EXEC_OK, Some TURBO_GRAPH_EXEC_OK, 3)" by code_simp
  then have ok: "rc_status call = TURBO_GRAPH_EXEC_OK" "rr_status r = TURBO_GRAPH_EXEC_OK" "length (es @ tail) = 3" using c by auto
  have tail: "tail = [node_event ref_json ''start'' x 0, node_event ref_json ''finish'' x 0, route_event ref_json ''complete'' x]"
    using c(4) unfolding ok(2) trace_end_OK by simp
  then have "es = []" using ok(3) by simp
  then have "x = ''a''" using c(3) by (auto elim: passes.cases)
  then show ?thesis using c(1,5) ok(1) tail \<open>es = []\<close> by auto
qed

end
