(* ===== verification/Tool_Registry.thy ===== *)
theory Tool_Registry
  imports Graph_Core
begin

section \<open>Tool registries: runtime\_tools/src/turbo\_tool\_registry.c\<close>

text \<open>
  A registry is an array of tools, each with its schema, its handlers and the metadata of its execution. It is
  built by adding and removing tools, and by attaching capabilities, metadata and a native projection to one;
  tools are found by their exact name or by the one that stands for it on the wire of a model provider. Registries
  are projected to some of their tools and composed of several registries, and execute the handler of a tool.

  A handler is the C callback together with its \<open>user_data\<close>, a function of the arguments and the world. The size of
  a structure is that of the LP64 data model. A pointer into the array of entries is an index. The descriptors of
  native functions belong to the package CMeta: they are values of the type \<open>'c\<close>, and what the code asks of
  them is the record \<open>cmeta_lib\<close>. Parsing a text is taken not to run out of memory.
\<close>

unbundle bit_operations_syntax

subsection \<open>turbo\_tool.h\<close>

datatype turbo_tool_status_t =
    TURBO_TOOL_OK | TURBO_TOOL_ERROR | TURBO_TOOL_INVALID_ARGUMENT | TURBO_TOOL_DUPLICATE | TURBO_TOOL_NOT_FOUND
  | TURBO_TOOL_OUT_OF_MEMORY | TURBO_TOOL_CANCELLED | TURBO_TOOL_DEADLINE_EXCEEDED | TURBO_TOOL_OUTPUT_LIMIT
  | TURBO_TOOL_UNKNOWN_SIDE_EFFECT | TURBO_TOOL_BACKPRESSURE | TURBO_TOOL_FUEL_EXHAUSTED | TURBO_TOOL_TRAPPED

text \<open>The two enumerations of a policy are integers, which a caller may set out of range.\<close>

definition TURBO_TOOL_EXECUTION_SEQUENTIAL :: int where "TURBO_TOOL_EXECUTION_SEQUENTIAL = 0"

definition TURBO_TOOL_EXECUTION_EXCLUSIVE :: int where "TURBO_TOOL_EXECUTION_EXCLUSIVE = 2"

definition TURBO_TOOL_IDEMPOTENCY_NONE :: int where "TURBO_TOOL_IDEMPOTENCY_NONE = 0"

definition TURBO_TOOL_IDEMPOTENCY_READ_ONLY :: int where "TURBO_TOOL_IDEMPOTENCY_READ_ONLY = 2"

lemmas tool_policy_constants [turbo_simps] = TURBO_TOOL_EXECUTION_SEQUENTIAL_def TURBO_TOOL_EXECUTION_EXCLUSIVE_def
  TURBO_TOOL_IDEMPOTENCY_NONE_def TURBO_TOOL_IDEMPOTENCY_READ_ONLY_def

record turbo_tool_execution_policy =
  ep_mode :: int
  ep_idempotency :: int

record ('j, 'u) turbo_tool_execution_context =
  ec_struct_size :: "32 word"
  ec_abi_version :: "32 word"
  ec_cancel_token :: "nat option"
  ec_deadline_mono_ms :: u64
  ec_thread_id :: cstr
  ec_run_id :: cstr
  ec_turn_id :: cstr
  ec_tool_call_id :: cstr
  ec_event_sink :: "('j \<Rightarrow> 'u world \<Rightarrow> 'u world) option"
  ec_detail_sink :: "('j \<Rightarrow> 'u world \<Rightarrow> 'u world) option"

text \<open>The size of the first version ends before \<open>event_sink\<close>.\<close>

definition TURBO_TOOL_EXECUTION_CONTEXT_V1_SIZE :: "32 word" where "TURBO_TOOL_EXECUTION_CONTEXT_V1_SIZE = 56"

definition sizeof_execution_context :: "32 word" where "sizeof_execution_context = 88"

type_synonym 'u tool_handler = "string \<Rightarrow> 'u world \<Rightarrow> int \<times> cstr \<times> 'u world"
type_synonym ('j, 'u) tool_json_value_handler = "'j option \<Rightarrow> 'u world \<Rightarrow> int \<times> 'j option \<times> 'u world"
type_synonym ('j, 'u) tool_context_handler =
  "string \<Rightarrow> ('j, 'u) turbo_tool_execution_context option \<Rightarrow> 'u world \<Rightarrow> turbo_tool_status_t \<times> cstr \<times> 'u world"
type_synonym ('j, 'u) tool_json_value_context_handler =
  "'j option \<Rightarrow> ('j, 'u) turbo_tool_execution_context option \<Rightarrow> 'u world \<Rightarrow> turbo_tool_status_t \<times> 'j option \<times> 'u world"

record ('j, 'u) turbo_tool_definition =
  td_name :: cstr
  td_description :: cstr
  td_parameters_json :: cstr
  td_parameters_schema :: "'j option"
  td_strict :: int
  td_handler :: "'u tool_handler option"
  td_json_value_handler :: "('j, 'u) tool_json_value_handler option"
  td_user_data_free :: "('u world \<Rightarrow> 'u world) option"

text \<open>Each version of a definition has the fields of the version before first.\<close>

record ('j, 'u) turbo_tool_definition_v2 =
  tv_struct_size :: size_t
  tv_abi_version :: "32 word"
  tv_definition :: "('j, 'u) turbo_tool_definition"
  tv_execution_policy :: turbo_tool_execution_policy

record ('j, 'u) turbo_tool_definition_v3 = "('j, 'u) turbo_tool_definition_v2" +
  tv_required_capabilities :: "cstr list option"
  tv_required_capability_count :: nat

record ('j, 'u) turbo_tool_definition_v4 = "('j, 'u) turbo_tool_definition_v3" +
  tv_context_handler :: "('j, 'u) tool_context_handler option"
  tv_json_value_context_handler :: "('j, 'u) tool_json_value_context_handler option"

record ('j, 'u) turbo_tool_definition_v5 = "('j, 'u) turbo_tool_definition_v4" +
  tv_result_schema_json :: cstr
  tv_strict_result :: int

record ('j, 'u) turbo_tool_definition_v6 = "('j, 'u) turbo_tool_definition_v5" +
  tv_effect_flags :: u64

text \<open>\<open>sizeof\<close> of the five versions, by version number.\<close>

definition sizeof_definition :: "32 word \<Rightarrow> size_t" where
  "sizeof_definition v = (if v = 2 then 96 else if v = 3 then 112 else if v = 4 then 128 else if v = 5 then 144 else 152)"

definition TURBO_TOOL_EFFECT_UNKNOWN :: u64 where "TURBO_TOOL_EFFECT_UNKNOWN = push_bit 0 1"

definition TURBO_TOOL_EFFECT_PURE :: u64 where "TURBO_TOOL_EFFECT_PURE = push_bit 1 1"

definition TURBO_TOOL_EFFECT_KNOWN_MASK :: u64 where
  "TURBO_TOOL_EFFECT_KNOWN_MASK =
     TURBO_TOOL_EFFECT_UNKNOWN OR TURBO_TOOL_EFFECT_PURE OR push_bit 2 1 OR push_bit 3 1 OR push_bit 4 1 OR
     push_bit 5 1 OR push_bit 6 1"

record 'c turbo_tool_native_projection =
  np_struct_size :: size_t
  np_abi_version :: "32 word"
  np_function :: 'c
  np_abi :: 'c
  np_callable :: 'c

record 'c cmeta_lib =
  cm_callable_size :: size_t                              \<comment> \<open>sizeof(cmeta_callable)\<close>
  cm_function_desc_valid :: "'c \<Rightarrow> bool"
  cm_function_abi_desc_valid :: "'c \<Rightarrow> bool"
  cm_abi_function :: "'c \<Rightarrow> 'c"                            \<comment> \<open>abi->function\<close>
  cm_function_desc_equal :: "'c \<Rightarrow> 'c \<Rightarrow> bool"
  cm_callable_bind :: "'c \<Rightarrow> 'c option"
  cm_fn_signature :: "'c \<Rightarrow> 'c option"                     \<comment> \<open>cmeta_fn_signature(bound.meta)\<close>
  cm_signature_by_value :: "'c \<Rightarrow> bool"                    \<comment> \<open>protocol == CMETA_FN_PROTOCOL_VALUE\<close>
  cm_signature_params :: "'c \<Rightarrow> 'c list"
  cm_signature_return_type :: "'c \<Rightarrow> 'c"
  cm_function_param_count :: "'c \<Rightarrow> nat"
  cm_function_param :: "'c \<Rightarrow> nat \<Rightarrow> 'c option"            \<comment> \<open>the type of the parameter\<close>
  cm_function_return_type :: "'c \<Rightarrow> 'c"
  cm_type_equal :: "'c \<Rightarrow> 'c \<Rightarrow> bool"
  cm_meta_effects :: "'c \<Rightarrow> u64"                           \<comment> \<open>bound.meta.effects\<close>
  cm_meta_properties :: "'c \<Rightarrow> u64"
  cm_function_effects :: "'c \<Rightarrow> u64"
  cm_function_properties :: "'c \<Rightarrow> u64"
  cm_effects_are_pure :: "u64 \<Rightarrow> bool"

subsection \<open>Names\<close>

definition turbo_tool_strdup :: "string \<Rightarrow> alloc \<Rightarrow> cstr \<times> alloc" where
  "turbo_tool_strdup src a = (case alloc1 a of (ok, a) \<Rightarrow> (if ok then Some src else None, a))"

definition turbo_tool_openai_name_char_valid :: "char \<Rightarrow> bool" where
  "turbo_tool_openai_name_char_valid ch \<longleftrightarrow>
     (ch \<ge> CHR ''a'' \<and> ch \<le> CHR ''z'') \<or> (ch \<ge> CHR ''A'' \<and> ch \<le> CHR ''Z'') \<or> (ch \<ge> CHR ''0'' \<and> ch \<le> CHR ''9'') \<or>
     ch = CHR ''_'' \<or> ch = CHR ''-''"

fun turbo_tool_openai_compatible_name_equals :: "string \<Rightarrow> string \<Rightarrow> bool" where
  "turbo_tool_openai_compatible_name_equals (orig # original) (c # compatible) =
     (let ch = (if turbo_tool_openai_name_char_valid orig then orig else CHR ''_'')
      in if ch \<noteq> c then False else turbo_tool_openai_compatible_name_equals original compatible)"
| "turbo_tool_openai_compatible_name_equals original compatible = (original = [] \<and> compatible = [])"

subsection \<open>Registries\<close>

record ('j, 'u, 'c) turbo_tool_entry =
  te_name :: string
  te_description :: string
  te_parameters_json :: string
  te_parameters_json_serialized :: bool
  te_parameters_schema :: "'j option"
  te_strict :: int
  te_handler :: "'u tool_handler option"
  te_json_value_handler :: "('j, 'u) tool_json_value_handler option"
  te_context_handler :: "('j, 'u) tool_context_handler option"
  te_json_value_context_handler :: "('j, 'u) tool_json_value_context_handler option"
  te_user_data_free :: "('u world \<Rightarrow> 'u world) option"
  te_execution_policy :: turbo_tool_execution_policy
  te_required_capabilities :: "string list"
  te_result_schema_json :: cstr
  te_result_schema :: "'j option"
  te_strict_result :: int
  te_effect_flags :: u64
  te_native_projection :: "'c turbo_tool_native_projection option"
  te_execution_metadata :: "'j option"

record ('j, 'u, 'c) turbo_tool_registry =
  tr_entries :: "('j, 'u, 'c) turbo_tool_entry list"
  tr_capacity :: nat

text \<open>Cloned, then cloned or serialized.\<close>

definition turbo_tool_registry_clone_json_value :: "'j \<Rightarrow> alloc \<Rightarrow> 'j option \<times> alloc" where
  "turbo_tool_registry_clone_json_value value a =
     (case json_create a value of
        (None, a) \<Rightarrow> (None, a)
      | (Some json_value, a) \<Rightarrow> json_create a json_value)"

definition turbo_tool_registry_serialize_json_value :: "('j, 'd) json_lib \<Rightarrow> 'j \<Rightarrow> alloc \<Rightarrow> cstr \<times> alloc" where
  "turbo_tool_registry_serialize_json_value J value a =
     (case json_create a value of
        (None, a) \<Rightarrow> (None, a)
      | (Some json_value, a) \<Rightarrow>
         (case alloc1 a of (ok, a) \<Rightarrow> (if ok then Some (jl_serialize J json_value) else None, a)))"

definition turbo_tool_registry_find :: "('j, 'u, 'c) turbo_tool_registry \<Rightarrow> string \<Rightarrow> nat option" where
  "turbo_tool_registry_find registry name =
     (let entries = tr_entries registry
      in case find (\<lambda>i. strcmp (te_name (entries ! i)) name = 0) [0..<length entries] of
           Some i \<Rightarrow> Some i
         | None \<Rightarrow>
            (let matches = filter (\<lambda>i. turbo_tool_openai_compatible_name_equals (te_name (entries ! i)) name) [0..<length entries]
             in if length matches = 1 then Some (last matches) else None))"

definition turbo_tool_registry_reserve ::
    "('j, 'u, 'c) turbo_tool_registry \<Rightarrow> alloc \<Rightarrow> turbo_tool_status_t \<times> ('j, 'u, 'c) turbo_tool_registry \<times> alloc" where
  "turbo_tool_registry_reserve registry a =
     (if length (tr_entries registry) < tr_capacity registry then (TURBO_TOOL_OK, registry, a)
      else
        (let new_capacity = (if tr_capacity registry = 0 then 4 else tr_capacity registry * 2)
         in case alloc1 a of (ok, a) \<Rightarrow>
              if \<not> ok then (TURBO_TOOL_OUT_OF_MEMORY, registry, a)
              else (TURBO_TOOL_OK, registry\<lparr>tr_capacity := new_capacity\<rparr>, a)))"

text \<open>Of what the function releases, only the callback is visible.\<close>

definition turbo_tool_registry_free_entry :: "('j, 'u, 'c) turbo_tool_entry \<Rightarrow> 'u world \<Rightarrow> 'u world" where
  "turbo_tool_registry_free_entry entry w = (case te_user_data_free entry of None \<Rightarrow> w | Some free \<Rightarrow> free w)"

definition turbo_tool_registry_create :: "alloc \<Rightarrow> ('j, 'u, 'c) turbo_tool_registry option \<times> alloc" where
  "turbo_tool_registry_create a =
     (case alloc1 a of (ok, a) \<Rightarrow> (if ok then Some \<lparr>tr_entries = [], tr_capacity = 0\<rparr> else None, a))"

definition turbo_tool_registry_destroy :: "('j, 'u, 'c) turbo_tool_registry \<Rightarrow> 'u world \<Rightarrow> 'u world" where
  "turbo_tool_registry_destroy registry w = fold turbo_tool_registry_free_entry (tr_entries registry) w"

definition turbo_tool_execution_policy_valid :: "turbo_tool_execution_policy \<Rightarrow> bool" where
  "turbo_tool_execution_policy_valid policy \<longleftrightarrow>
     \<not> (ep_mode policy < TURBO_TOOL_EXECUTION_SEQUENTIAL \<or> ep_mode policy > TURBO_TOOL_EXECUTION_EXCLUSIVE) \<and>
     ep_idempotency policy \<ge> TURBO_TOOL_IDEMPOTENCY_NONE \<and> ep_idempotency policy \<le> TURBO_TOOL_IDEMPOTENCY_READ_ONLY"

definition turbo_tool_effect_flags_valid :: "u64 \<Rightarrow> bool" where
  "turbo_tool_effect_flags_valid flags =
     (if flags AND NOT TURBO_TOOL_EFFECT_KNOWN_MASK \<noteq> 0 then False
      else if flags = 0 then True
      else if flags AND TURBO_TOOL_EFFECT_UNKNOWN \<noteq> 0 \<and> flags \<noteq> TURBO_TOOL_EFFECT_UNKNOWN then False
      else if flags AND TURBO_TOOL_EFFECT_PURE \<noteq> 0 \<and> flags \<noteq> TURBO_TOOL_EFFECT_PURE then False
      else True)"

definition turbo_tool_effect_flags_normalize :: "u64 \<Rightarrow> u64" where
  "turbo_tool_effect_flags_normalize flags = (if flags = 0 then TURBO_TOOL_EFFECT_UNKNOWN else flags)"

definition sizeof_native_projection :: "'c cmeta_lib \<Rightarrow> size_t" where
  "sizeof_native_projection M = 32 + cm_callable_size M"

definition turbo_tool_native_projection_bind ::
    "'c cmeta_lib \<Rightarrow> 'c turbo_tool_native_projection \<Rightarrow> 'c turbo_tool_native_projection option" where
  "turbo_tool_native_projection_bind M projection =
     (if np_struct_size projection < sizeof_native_projection M \<or> np_abi_version projection \<noteq> 1 \<or>
         \<not> cm_function_desc_valid M (np_function projection) \<or> \<not> cm_function_abi_desc_valid M (np_abi projection) \<or>
         \<not> cm_function_desc_equal M (np_function projection) (cm_abi_function M (np_abi projection))
      then None
      else
        (case cm_callable_bind M (np_callable projection) of
           None \<Rightarrow> None
         | Some bound \<Rightarrow>
            (case cm_fn_signature M bound of
               None \<Rightarrow> None
             | Some signature \<Rightarrow>
                (let function' = np_function projection
                 in if \<not> cm_signature_by_value M signature \<or>
                       length (cm_signature_params M signature) \<noteq> cm_function_param_count M function' \<or>
                       \<not> cm_type_equal M (cm_signature_return_type M signature) (cm_function_return_type M function') \<or>
                       cm_meta_effects M bound \<noteq> cm_function_effects M function' \<or>
                       cm_meta_properties M bound \<noteq> cm_function_properties M function'
                    then None
                    else if \<exists>parameter \<in> set [0..<cm_function_param_count M function'].
                              case cm_function_param M function' parameter of
                                None \<Rightarrow> True
                              | Some param \<Rightarrow> \<not> cm_type_equal M (cm_signature_params M signature ! parameter) param
                    then None
                    else Some (projection\<lparr>np_struct_size := sizeof_native_projection M, np_abi_version := 1,
                                          np_callable := bound\<rparr>)))))"

text \<open>An operation that only allocates, in the world.\<close>

definition in_world :: "(alloc \<Rightarrow> 's \<times> 'g \<times> alloc) \<Rightarrow> 'u world \<Rightarrow> 's \<times> 'g \<times> 'u world" where
  "in_world f w = (case f (ch_alloc w) of (s, g, a) \<Rightarrow> (s, g, w\<lparr>ch_alloc := a\<rparr>))"

subsection \<open>Adding and removing tools\<close>

text \<open>The parsed result schema: \<open>None\<close> when the text is refused, \<open>Some None\<close> when there is none.\<close>

definition parse_result_schema :: "('j, 'd) json_lib \<Rightarrow> cstr \<Rightarrow> 'j option option" where
  "parse_result_schema J result_schema_json =
     (case result_schema_json of
        None \<Rightarrow> Some None
      | Some json \<Rightarrow>
         (case jl_parse J json of
            None \<Rightarrow> None
          | Some parsed \<Rightarrow> if jl_type J parsed \<noteq> JSON_OBJECT then None else Some (Some parsed)))"

text \<open>The loop over the required capabilities: none is null or empty, or equal to one before.\<close>

fun capabilities_valid :: "string list \<Rightarrow> cstr list \<Rightarrow> bool" where
  "capabilities_valid previous [] = True"
| "capabilities_valid previous (capability # others) =
     (case capability of
        None \<Rightarrow> False
      | Some c \<Rightarrow>
         if c = [] then False
         else if \<exists>p \<in> set previous. strcmp p c = 0 then False
         else capabilities_valid (previous @ [c]) others)"

text \<open>The loop that copies them, as far as memory lasts.\<close>

fun copy_capabilities :: "string list \<Rightarrow> alloc \<Rightarrow> string list \<times> alloc" where
  "copy_capabilities [] a = ([], a)"
| "copy_capabilities (c # cs) a =
     (case turbo_tool_strdup c a of
        (None, a) \<Rightarrow> ([], a)
      | (Some copy, a) \<Rightarrow> (case copy_capabilities cs a of (copies, a) \<Rightarrow> (copy # copies, a)))"

text \<open>The copies a new entry owns: all are made before they are tested together.\<close>

definition entry_copies ::
    "('j, 'd) json_lib \<Rightarrow> ('j, 'u) turbo_tool_definition \<Rightarrow> string \<Rightarrow> string \<Rightarrow> string list \<Rightarrow> cstr \<Rightarrow> alloc \<Rightarrow>
     (string \<times> string list) option \<times> alloc" where
  "entry_copies J definition' name description required result_schema_json a =
     (case turbo_tool_strdup name a of (name_copy, a) \<Rightarrow>
      case turbo_tool_strdup description a of (description_copy, a) \<Rightarrow>
      case (case (td_parameters_json definition', td_parameters_schema definition') of
              (Some json, _) \<Rightarrow> turbo_tool_strdup json a
            | (None, Some schema) \<Rightarrow> turbo_tool_registry_serialize_json_value J schema a
            | (None, None) \<Rightarrow> (None, a)) of (parameters_json, a) \<Rightarrow>
      case (case td_parameters_schema definition' of
              Some schema \<Rightarrow> turbo_tool_registry_clone_json_value schema a
            | None \<Rightarrow> (None, a)) of (parameters_schema, a) \<Rightarrow>
      case (case result_schema_json of Some json \<Rightarrow> turbo_tool_strdup json a | None \<Rightarrow> (None, a)) of (result_copy, a) \<Rightarrow>
      case (if required = [] then ([], a)
            else (case alloc1 a of (ok, a) \<Rightarrow> if ok then copy_capabilities required a else ([], a))) of (capabilities, a) \<Rightarrow>
        (case (name_copy, description_copy, parameters_json) of
           (Some _, Some _, Some json) \<Rightarrow>
             if (td_parameters_schema definition' \<noteq> None \<and> parameters_schema = None) \<or>
                (result_schema_json \<noteq> None \<and> result_copy = None) \<or> length capabilities \<noteq> length required
             then (None, a)
             else (Some (json, capabilities), a)
         | _ \<Rightarrow> (None, a)))"

definition tool_entry_of ::
    "('j, 'u) turbo_tool_definition \<Rightarrow> turbo_tool_execution_policy \<Rightarrow> ('j, 'u) tool_context_handler option \<Rightarrow>
     ('j, 'u) tool_json_value_context_handler option \<Rightarrow> cstr \<Rightarrow> 'j option \<Rightarrow> int \<Rightarrow> u64 \<Rightarrow> string \<Rightarrow> string \<Rightarrow> string \<Rightarrow>
     string list \<Rightarrow> ('j, 'u, 'c) turbo_tool_entry" where
  "tool_entry_of definition' execution_policy context_handler json_value_context_handler result_schema_json parsed_result_schema
     strict_result effect_flags name description parameters_json capabilities =
     \<lparr>te_name = name, te_description = description, te_parameters_json = parameters_json,
      te_parameters_json_serialized = (td_parameters_json definition' = None),
      te_parameters_schema = td_parameters_schema definition', te_strict = td_strict definition',
      te_handler = td_handler definition', te_json_value_handler = td_json_value_handler definition',
      te_context_handler = context_handler, te_json_value_context_handler = json_value_context_handler,
      te_user_data_free = td_user_data_free definition', te_execution_policy = execution_policy,
      te_required_capabilities = capabilities, te_result_schema_json = result_schema_json,
      te_result_schema = parsed_result_schema,
      te_strict_result = (if result_schema_json \<noteq> None then strict_result else 0),
      te_effect_flags = turbo_tool_effect_flags_normalize effect_flags, te_native_projection = None,
      te_execution_metadata = None\<rparr>"

definition turbo_tool_registry_add_with_policy ::
    "('j, 'd) json_lib \<Rightarrow> ('j, 'u, 'c) turbo_tool_registry \<Rightarrow> ('j, 'u) turbo_tool_definition \<Rightarrow> turbo_tool_execution_policy \<Rightarrow>
     cstr list option \<Rightarrow> nat \<Rightarrow> ('j, 'u) tool_context_handler option \<Rightarrow> ('j, 'u) tool_json_value_context_handler option \<Rightarrow>
     cstr \<Rightarrow> int \<Rightarrow> u64 \<Rightarrow> alloc \<Rightarrow> turbo_tool_status_t \<times> ('j, 'u, 'c) turbo_tool_registry \<times> alloc" where
  "turbo_tool_registry_add_with_policy J registry definition' execution_policy required_capabilities required_capability_count
     context_handler json_value_context_handler result_schema_json strict_result effect_flags a =
     (case (td_name definition', td_description definition') of
        (Some name, Some description) \<Rightarrow>
          if (td_parameters_json definition' = None \<and> td_parameters_schema definition' = None) \<or>
             (Option.is_none (td_handler definition') \<and> Option.is_none (td_json_value_handler definition') \<and>
              Option.is_none context_handler \<and> Option.is_none json_value_context_handler) \<or>
             \<not> turbo_tool_execution_policy_valid execution_policy \<or>
             (required_capability_count > 0 \<and> required_capabilities = None) \<or>
             (strict_result \<noteq> 0 \<and> strict_result \<noteq> 1) \<or> (strict_result \<noteq> 0 \<and> result_schema_json = None) \<or>
             \<not> turbo_tool_effect_flags_valid effect_flags
          then (TURBO_TOOL_INVALID_ARGUMENT, registry, a)
          else
            (case parse_result_schema J result_schema_json of
               None \<Rightarrow> (TURBO_TOOL_INVALID_ARGUMENT, registry, a)
             | Some parsed_result_schema \<Rightarrow>
                (let required = take required_capability_count (case required_capabilities of None \<Rightarrow> [] | Some cs \<Rightarrow> cs)
                 in if \<not> capabilities_valid [] required then (TURBO_TOOL_INVALID_ARGUMENT, registry, a)
                    else if turbo_tool_registry_find registry name \<noteq> None then (TURBO_TOOL_DUPLICATE, registry, a)
                    else
                      (case turbo_tool_registry_reserve registry a of (status, registry, a) \<Rightarrow>
                         if status \<noteq> TURBO_TOOL_OK then (status, registry, a)
                         else
                           (case entry_copies J definition' name description (map the required) result_schema_json a of
                              (None, a) \<Rightarrow> (TURBO_TOOL_OUT_OF_MEMORY, registry, a)
                            | (Some (parameters_json, capabilities), a) \<Rightarrow>
                               (TURBO_TOOL_OK,
                                registry\<lparr>tr_entries := tr_entries registry @
                                  [tool_entry_of definition' execution_policy context_handler json_value_context_handler
                                     result_schema_json parsed_result_schema strict_result effect_flags name description
                                     parameters_json capabilities]\<rparr>,
                                a)))))
      | _ \<Rightarrow> (TURBO_TOOL_INVALID_ARGUMENT, registry, a))"

definition legacy_policy :: turbo_tool_execution_policy where
  "legacy_policy = \<lparr>ep_mode = TURBO_TOOL_EXECUTION_SEQUENTIAL, ep_idempotency = TURBO_TOOL_IDEMPOTENCY_NONE\<rparr>"

definition turbo_tool_registry_add ::
    "('j, 'd) json_lib \<Rightarrow> ('j, 'u, 'c) turbo_tool_registry \<Rightarrow> ('j, 'u) turbo_tool_definition \<Rightarrow> alloc \<Rightarrow>
     turbo_tool_status_t \<times> ('j, 'u, 'c) turbo_tool_registry \<times> alloc" where
  "turbo_tool_registry_add J registry definition' a =
     turbo_tool_registry_add_with_policy J registry definition' legacy_policy None 0 None None None 0 TURBO_TOOL_EFFECT_UNKNOWN a"

text \<open>The test of size and version that each versioned definition goes through.\<close>

definition definition_refused :: "32 word \<Rightarrow> ('j, 'u, 'z) turbo_tool_definition_v2_scheme \<Rightarrow> bool" where
  "definition_refused version definition' \<longleftrightarrow>
     tv_struct_size definition' < sizeof_definition version \<or> tv_abi_version definition' \<noteq> version"

definition turbo_tool_registry_add_v2 ::
    "('j, 'd) json_lib \<Rightarrow> ('j, 'u, 'c) turbo_tool_registry \<Rightarrow> ('j, 'u) turbo_tool_definition_v2 \<Rightarrow> alloc \<Rightarrow>
     turbo_tool_status_t \<times> ('j, 'u, 'c) turbo_tool_registry \<times> alloc" where
  "turbo_tool_registry_add_v2 J registry definition' a =
     (if definition_refused 2 definition' then (TURBO_TOOL_INVALID_ARGUMENT, registry, a)
      else turbo_tool_registry_add_with_policy J registry (tv_definition definition') (tv_execution_policy definition')
             None 0 None None None 0 TURBO_TOOL_EFFECT_UNKNOWN a)"

definition turbo_tool_registry_add_v3 ::
    "('j, 'd) json_lib \<Rightarrow> ('j, 'u, 'c) turbo_tool_registry \<Rightarrow> ('j, 'u) turbo_tool_definition_v3 \<Rightarrow> alloc \<Rightarrow>
     turbo_tool_status_t \<times> ('j, 'u, 'c) turbo_tool_registry \<times> alloc" where
  "turbo_tool_registry_add_v3 J registry definition' a =
     (if definition_refused 3 definition' then (TURBO_TOOL_INVALID_ARGUMENT, registry, a)
      else turbo_tool_registry_add_with_policy J registry (tv_definition definition') (tv_execution_policy definition')
             (tv_required_capabilities definition') (tv_required_capability_count definition') None None None 0
             TURBO_TOOL_EFFECT_UNKNOWN a)"

definition turbo_tool_registry_add_v4 ::
    "('j, 'd) json_lib \<Rightarrow> ('j, 'u, 'c) turbo_tool_registry \<Rightarrow> ('j, 'u) turbo_tool_definition_v4 \<Rightarrow> alloc \<Rightarrow>
     turbo_tool_status_t \<times> ('j, 'u, 'c) turbo_tool_registry \<times> alloc" where
  "turbo_tool_registry_add_v4 J registry definition' a =
     (if definition_refused 4 definition' then (TURBO_TOOL_INVALID_ARGUMENT, registry, a)
      else turbo_tool_registry_add_with_policy J registry (tv_definition definition') (tv_execution_policy definition')
             (tv_required_capabilities definition') (tv_required_capability_count definition')
             (tv_context_handler definition') (tv_json_value_context_handler definition') None 0
             TURBO_TOOL_EFFECT_UNKNOWN a)"

definition turbo_tool_registry_add_v5 ::
    "('j, 'd) json_lib \<Rightarrow> ('j, 'u, 'c) turbo_tool_registry \<Rightarrow> ('j, 'u) turbo_tool_definition_v5 \<Rightarrow> alloc \<Rightarrow>
     turbo_tool_status_t \<times> ('j, 'u, 'c) turbo_tool_registry \<times> alloc" where
  "turbo_tool_registry_add_v5 J registry definition' a =
     (if definition_refused 5 definition' then (TURBO_TOOL_INVALID_ARGUMENT, registry, a)
      else turbo_tool_registry_add_with_policy J registry (tv_definition definition') (tv_execution_policy definition')
             (tv_required_capabilities definition') (tv_required_capability_count definition')
             (tv_context_handler definition') (tv_json_value_context_handler definition')
             (tv_result_schema_json definition') (tv_strict_result definition') TURBO_TOOL_EFFECT_UNKNOWN a)"

definition turbo_tool_registry_add_v6 ::
    "('j, 'd) json_lib \<Rightarrow> ('j, 'u, 'c) turbo_tool_registry \<Rightarrow> ('j, 'u) turbo_tool_definition_v6 \<Rightarrow> alloc \<Rightarrow>
     turbo_tool_status_t \<times> ('j, 'u, 'c) turbo_tool_registry \<times> alloc" where
  "turbo_tool_registry_add_v6 J registry definition' a =
     (if definition_refused 6 definition' then (TURBO_TOOL_INVALID_ARGUMENT, registry, a)
      else turbo_tool_registry_add_with_policy J registry (tv_definition definition') (tv_execution_policy definition')
             (tv_required_capabilities definition') (tv_required_capability_count definition')
             (tv_context_handler definition') (tv_json_value_context_handler definition')
             (tv_result_schema_json definition') (tv_strict_result definition') (tv_effect_flags definition') a)"

definition turbo_tool_registry_remove ::
    "('j, 'u, 'c) turbo_tool_registry \<Rightarrow> string \<Rightarrow> 'u world \<Rightarrow> turbo_tool_status_t \<times> ('j, 'u, 'c) turbo_tool_registry \<times> 'u world" where
  "turbo_tool_registry_remove registry name w =
     (let entries = tr_entries registry
      in case find (\<lambda>i. strcmp (te_name (entries ! i)) name = 0) [0..<length entries] of
           None \<Rightarrow> (TURBO_TOOL_NOT_FOUND, registry, w)
         | Some index \<Rightarrow>
            (TURBO_TOOL_OK, registry\<lparr>tr_entries := take index entries @ drop (Suc index) entries\<rparr>,
             turbo_tool_registry_free_entry (entries ! index) w))"

subsection \<open>Reading\<close>

definition turbo_tool_registry_count :: "('j, 'u, 'c) turbo_tool_registry \<Rightarrow> nat" where
  "turbo_tool_registry_count registry = length (tr_entries registry)"

definition turbo_tool_registry_resolve_name ::
    "('j, 'u, 'c) turbo_tool_registry \<Rightarrow> string \<Rightarrow> turbo_tool_status_t \<times> cstr" where
  "turbo_tool_registry_resolve_name registry name =
     (if name = [] then (TURBO_TOOL_INVALID_ARGUMENT, None)
      else
        (case turbo_tool_registry_find registry name of
           None \<Rightarrow> (TURBO_TOOL_NOT_FOUND, None)
         | Some i \<Rightarrow> (TURBO_TOOL_OK, Some (te_name (tr_entries registry ! i)))))"

definition turbo_tool_registry_get_definition ::
    "('j, 'u, 'c) turbo_tool_registry \<Rightarrow> nat \<Rightarrow> turbo_tool_status_t \<times> ('j, 'u) turbo_tool_definition option" where
  "turbo_tool_registry_get_definition registry index =
     (if index \<ge> length (tr_entries registry) then (TURBO_TOOL_NOT_FOUND, None)
      else
        (let entry = tr_entries registry ! index
         in (TURBO_TOOL_OK,
             Some \<lparr>td_name = Some (te_name entry), td_description = Some (te_description entry),
                   td_parameters_json = Some (te_parameters_json entry), td_parameters_schema = te_parameters_schema entry,
                   td_strict = te_strict entry, td_handler = te_handler entry,
                   td_json_value_handler = te_json_value_handler entry, td_user_data_free = te_user_data_free entry\<rparr>)))"

text \<open>What the getters share: a field of the entry found, or \<open>TURBO_TOOL_NOT_FOUND\<close> and the value written before.\<close>

definition entry_field ::
    "('j, 'u, 'c) turbo_tool_registry \<Rightarrow> string \<Rightarrow> (('j, 'u, 'c) turbo_tool_entry \<Rightarrow> 'x) \<Rightarrow> 'x \<Rightarrow> turbo_tool_status_t \<times> 'x" where
  "entry_field registry name field before =
     (case turbo_tool_registry_find registry name of
        None \<Rightarrow> (TURBO_TOOL_NOT_FOUND, before)
      | Some i \<Rightarrow> (TURBO_TOOL_OK, field (tr_entries registry ! i)))"

definition turbo_tool_registry_get_execution_policy ::
    "('j, 'u, 'c) turbo_tool_registry \<Rightarrow> string \<Rightarrow> turbo_tool_status_t \<times> turbo_tool_execution_policy option" where
  "turbo_tool_registry_get_execution_policy registry name = entry_field registry name (\<lambda>e. Some (te_execution_policy e)) None"

definition turbo_tool_registry_get_required_capabilities ::
    "('j, 'u, 'c) turbo_tool_registry \<Rightarrow> string \<Rightarrow> turbo_tool_status_t \<times> string list" where
  "turbo_tool_registry_get_required_capabilities registry name = entry_field registry name te_required_capabilities []"

definition turbo_tool_registry_get_result_contract ::
    "('j, 'u, 'c) turbo_tool_registry \<Rightarrow> string \<Rightarrow> turbo_tool_status_t \<times> cstr \<times> 'j option \<times> int" where
  "turbo_tool_registry_get_result_contract registry name =
     entry_field registry name (\<lambda>e. (te_result_schema_json e, te_result_schema e, te_strict_result e)) (None, None, 0)"

definition turbo_tool_registry_get_effects :: "('j, 'u, 'c) turbo_tool_registry \<Rightarrow> string \<Rightarrow> turbo_tool_status_t \<times> u64" where
  "turbo_tool_registry_get_effects registry name = entry_field registry name te_effect_flags TURBO_TOOL_EFFECT_UNKNOWN"

subsection \<open>Changing one tool\<close>

definition update_entry ::
    "nat \<Rightarrow> (('j, 'u, 'c) turbo_tool_entry \<Rightarrow> ('j, 'u, 'c) turbo_tool_entry) \<Rightarrow> ('j, 'u, 'c) turbo_tool_registry \<Rightarrow>
     ('j, 'u, 'c) turbo_tool_registry" where
  "update_entry i f registry = registry\<lparr>tr_entries := (tr_entries registry)[i := f (tr_entries registry ! i)]\<rparr>"

definition turbo_tool_registry_publish_native_projection ::
    "'c cmeta_lib \<Rightarrow> ('j, 'u, 'c) turbo_tool_registry \<Rightarrow> string \<Rightarrow> 'c turbo_tool_native_projection \<Rightarrow>
     turbo_tool_status_t \<times> ('j, 'u, 'c) turbo_tool_registry" where
  "turbo_tool_registry_publish_native_projection M registry name projection =
     (if name = [] then (TURBO_TOOL_INVALID_ARGUMENT, registry)
      else
        (case turbo_tool_registry_find registry name of
           None \<Rightarrow> (TURBO_TOOL_NOT_FOUND, registry)
         | Some i \<Rightarrow>
            (let entry = tr_entries registry ! i
             in if te_native_projection entry \<noteq> None then (TURBO_TOOL_DUPLICATE, registry)
                else
                  (case turbo_tool_native_projection_bind M projection of
                     None \<Rightarrow> (TURBO_TOOL_INVALID_ARGUMENT, registry)
                   | Some bound \<Rightarrow>
                      if te_effect_flags entry = TURBO_TOOL_EFFECT_PURE \<and>
                         \<not> cm_effects_are_pure M (cm_function_effects M (np_function bound))
                      then (TURBO_TOOL_INVALID_ARGUMENT, registry)
                      else (TURBO_TOOL_OK, update_entry i (te_native_projection_update (\<lambda>_. Some bound)) registry)))))"

definition turbo_tool_registry_get_native_projection ::
    "('j, 'u, 'c) turbo_tool_registry \<Rightarrow> string \<Rightarrow> turbo_tool_status_t \<times> 'c turbo_tool_native_projection option" where
  "turbo_tool_registry_get_native_projection registry name =
     (case turbo_tool_registry_find registry name of
        None \<Rightarrow> (TURBO_TOOL_NOT_FOUND, None)
      | Some i \<Rightarrow>
         (case te_native_projection (tr_entries registry ! i) of
            None \<Rightarrow> (TURBO_TOOL_NOT_FOUND, None)
          | Some projection \<Rightarrow> (TURBO_TOOL_OK, Some projection)))"

definition turbo_tool_registry_require_capability ::
    "('j, 'u, 'c) turbo_tool_registry \<Rightarrow> string \<Rightarrow> string \<Rightarrow> alloc \<Rightarrow>
     turbo_tool_status_t \<times> ('j, 'u, 'c) turbo_tool_registry \<times> alloc" where
  "turbo_tool_registry_require_capability registry name capability a =
     (if capability = [] then (TURBO_TOOL_INVALID_ARGUMENT, registry, a)
      else
        (case turbo_tool_registry_find registry name of
           None \<Rightarrow> (TURBO_TOOL_NOT_FOUND, registry, a)
         | Some i \<Rightarrow>
            if \<exists>c \<in> set (te_required_capabilities (tr_entries registry ! i)). strcmp c capability = 0
            then (TURBO_TOOL_OK, registry, a)
            else
              (case turbo_tool_strdup capability a of
                 (None, a) \<Rightarrow> (TURBO_TOOL_OUT_OF_MEMORY, registry, a)
               | (Some copy, a) \<Rightarrow>
                  (case alloc1 a of (ok, a) \<Rightarrow>
                     if \<not> ok then (TURBO_TOOL_OUT_OF_MEMORY, registry, a)
                     else (TURBO_TOOL_OK, update_entry i (te_required_capabilities_update (\<lambda>cs. cs @ [copy])) registry, a)))))"

definition turbo_tool_registry_set_execution_metadata ::
    "('j, 'd) json_lib \<Rightarrow> ('j, 'u, 'c) turbo_tool_registry \<Rightarrow> string \<Rightarrow> 'j option \<Rightarrow> alloc \<Rightarrow>
     turbo_tool_status_t \<times> ('j, 'u, 'c) turbo_tool_registry \<times> alloc" where
  "turbo_tool_registry_set_execution_metadata J registry name metadata a =
     (if name = [] \<or> (case metadata of None \<Rightarrow> False | Some m \<Rightarrow> jl_type J m \<noteq> JSON_OBJECT)
      then (TURBO_TOOL_INVALID_ARGUMENT, registry, a)
      else
        (case turbo_tool_registry_find registry name of
           None \<Rightarrow> (TURBO_TOOL_NOT_FOUND, registry, a)
         | Some i \<Rightarrow>
            (case metadata of
               None \<Rightarrow> (TURBO_TOOL_OK, update_entry i (te_execution_metadata_update (\<lambda>_. None)) registry, a)
             | Some m \<Rightarrow>
                (case turbo_tool_registry_clone_json_value m a of
                   (None, a) \<Rightarrow> (TURBO_TOOL_OUT_OF_MEMORY, registry, a)
                 | (Some copy, a) \<Rightarrow>
                    (TURBO_TOOL_OK, update_entry i (te_execution_metadata_update (\<lambda>_. Some copy)) registry, a)))))"

definition turbo_tool_registry_get_execution_metadata ::
    "('j, 'u, 'c) turbo_tool_registry \<Rightarrow> string \<Rightarrow> turbo_tool_status_t \<times> 'j option" where
  "turbo_tool_registry_get_execution_metadata registry name =
     (if name = [] then (TURBO_TOOL_INVALID_ARGUMENT, None) else entry_field registry name te_execution_metadata None)"

subsection \<open>Projection and composition\<close>

text \<open>The definition of an entry that is copied, without its destructor.\<close>

definition entry_definition :: "('j, 'u, 'c) turbo_tool_entry \<Rightarrow> ('j, 'u) turbo_tool_definition_v6" where
  "entry_definition entry =
     \<lparr>tv_struct_size = sizeof_definition 6, tv_abi_version = 6,
      tv_definition = \<lparr>td_name = Some (te_name entry), td_description = Some (te_description entry),
        td_parameters_json = Some (te_parameters_json entry), td_parameters_schema = te_parameters_schema entry,
        td_strict = te_strict entry, td_handler = te_handler entry, td_json_value_handler = te_json_value_handler entry,
        td_user_data_free = None\<rparr>,
      tv_execution_policy = te_execution_policy entry,
      tv_required_capabilities = Some (map Some (te_required_capabilities entry)),
      tv_required_capability_count = length (te_required_capabilities entry),
      tv_context_handler = te_context_handler entry,
      tv_json_value_context_handler = te_json_value_context_handler entry,
      tv_result_schema_json = te_result_schema_json entry, tv_strict_result = te_strict_result entry,
      tv_effect_flags = te_effect_flags entry\<rparr>"

definition copy_entry ::
    "('j, 'd) json_lib \<Rightarrow> 'c cmeta_lib \<Rightarrow> ('j, 'u, 'c) turbo_tool_entry \<Rightarrow> ('j, 'u, 'c) turbo_tool_registry \<Rightarrow> alloc \<Rightarrow>
     turbo_tool_status_t \<times> ('j, 'u, 'c) turbo_tool_registry \<times> alloc" where
  "copy_entry J M entry registry a =
     (case turbo_tool_registry_add_v6 J registry (entry_definition entry) a of (status, registry, a) \<Rightarrow>
      case (if status = TURBO_TOOL_OK \<and> te_execution_metadata entry \<noteq> None
            then turbo_tool_registry_set_execution_metadata J registry (te_name entry) (te_execution_metadata entry) a
            else (status, registry, a)) of (status, registry, a) \<Rightarrow>
        (case te_native_projection entry of
           Some projection \<Rightarrow>
             if status = TURBO_TOOL_OK
             then (case turbo_tool_registry_publish_native_projection M registry (te_name entry) projection of
                     (status, registry) \<Rightarrow> (status, registry, a))
             else (status, registry, a)
         | None \<Rightarrow> (status, registry, a)))"

text \<open>The loop over the names; \<open>previous\<close> are the names before. A projection that is given up owns nothing.\<close>

fun project_loop ::
    "('j, 'd) json_lib \<Rightarrow> 'c cmeta_lib \<Rightarrow> ('j, 'u, 'c) turbo_tool_registry \<Rightarrow> string list \<Rightarrow> cstr list \<Rightarrow>
     ('j, 'u, 'c) turbo_tool_registry \<Rightarrow> alloc \<Rightarrow> turbo_tool_status_t \<times> ('j, 'u, 'c) turbo_tool_registry option \<times> alloc" where
  "project_loop J M source previous [] projection a = (TURBO_TOOL_OK, Some projection, a)"
| "project_loop J M source previous (name # names) projection a =
     (case name of
        None \<Rightarrow> (TURBO_TOOL_INVALID_ARGUMENT, None, a)
      | Some n \<Rightarrow>
         if n = [] then (TURBO_TOOL_INVALID_ARGUMENT, None, a)
         else if \<exists>p \<in> set previous. strcmp p n = 0 then (TURBO_TOOL_DUPLICATE, None, a)
         else
           (case find (\<lambda>entry. strcmp (te_name entry) n = 0) (tr_entries source) of
              None \<Rightarrow> (TURBO_TOOL_NOT_FOUND, None, a)
            | Some entry \<Rightarrow>
               (case copy_entry J M entry projection a of (status, projection, a) \<Rightarrow>
                  if status \<noteq> TURBO_TOOL_OK then (status, None, a)
                  else project_loop J M source (previous @ [n]) names projection a)))"

definition turbo_tool_registry_project ::
    "('j, 'd) json_lib \<Rightarrow> 'c cmeta_lib \<Rightarrow> ('j, 'u, 'c) turbo_tool_registry \<Rightarrow> cstr list \<Rightarrow> alloc \<Rightarrow>
     turbo_tool_status_t \<times> ('j, 'u, 'c) turbo_tool_registry option \<times> alloc" where
  "turbo_tool_registry_project J M source names a =
     (case turbo_tool_registry_create a of
        (None, a) \<Rightarrow> (TURBO_TOOL_OUT_OF_MEMORY, None, a)
      | (Some projection, a) \<Rightarrow> project_loop J M source [] names projection a)"

fun copy_entries ::
    "('j, 'd) json_lib \<Rightarrow> 'c cmeta_lib \<Rightarrow> ('j, 'u, 'c) turbo_tool_entry list \<Rightarrow> ('j, 'u, 'c) turbo_tool_registry \<Rightarrow> alloc \<Rightarrow>
     turbo_tool_status_t \<times> ('j, 'u, 'c) turbo_tool_registry \<times> alloc" where
  "copy_entries J M [] composite a = (TURBO_TOOL_OK, composite, a)"
| "copy_entries J M (entry # entries) composite a =
     (case copy_entry J M entry composite a of (status, composite, a) \<Rightarrow>
        if status \<noteq> TURBO_TOOL_OK then (status, composite, a) else copy_entries J M entries composite a)"

fun compose_loop ::
    "('j, 'd) json_lib \<Rightarrow> 'c cmeta_lib \<Rightarrow> ('j, 'u, 'c) turbo_tool_registry option list \<Rightarrow> ('j, 'u, 'c) turbo_tool_registry \<Rightarrow>
     alloc \<Rightarrow> turbo_tool_status_t \<times> ('j, 'u, 'c) turbo_tool_registry option \<times> alloc" where
  "compose_loop J M [] composite a = (TURBO_TOOL_OK, Some composite, a)"
| "compose_loop J M (source # sources) composite a =
     (case source of
        None \<Rightarrow> (TURBO_TOOL_INVALID_ARGUMENT, None, a)
      | Some s \<Rightarrow>
         (case copy_entries J M (tr_entries s) composite a of (status, composite, a) \<Rightarrow>
            if status \<noteq> TURBO_TOOL_OK then (status, None, a) else compose_loop J M sources composite a))"

definition turbo_tool_registry_compose ::
    "('j, 'd) json_lib \<Rightarrow> 'c cmeta_lib \<Rightarrow> ('j, 'u, 'c) turbo_tool_registry option list \<Rightarrow> alloc \<Rightarrow>
     turbo_tool_status_t \<times> ('j, 'u, 'c) turbo_tool_registry option \<times> alloc" where
  "turbo_tool_registry_compose J M sources a =
     (case turbo_tool_registry_create a of
        (None, a) \<Rightarrow> (TURBO_TOOL_OUT_OF_MEMORY, None, a)
      | (Some composite, a) \<Rightarrow> compose_loop J M sources composite a)"

subsection \<open>Execution\<close>

definition turbo_tool_execution_context_valid :: "('j, 'u) turbo_tool_execution_context option \<Rightarrow> bool" where
  "turbo_tool_execution_context_valid context =
     (case context of
        None \<Rightarrow> True
      | Some c \<Rightarrow>
         if ec_abi_version c = 1 then ec_struct_size c \<ge> TURBO_TOOL_EXECUTION_CONTEXT_V1_SIZE
         else ec_abi_version c = 2 \<and> ec_struct_size c \<ge> sizeof_execution_context)"

text \<open>How the two kinds of handler are called: an output that comes with a failure is discarded.\<close>

definition call_handler :: "('in \<Rightarrow> 'u world \<Rightarrow> int \<times> 'out option \<times> 'u world) \<Rightarrow> 'in \<Rightarrow> 'u world \<Rightarrow>
    turbo_tool_status_t \<times> 'out option \<times> 'u world" where
  "call_handler handler arguments w =
     (case handler arguments w of (rc, out_output, w) \<Rightarrow>
        if rc = 0 then (TURBO_TOOL_OK, out_output, w) else (TURBO_TOOL_ERROR, None, w))"

definition call_context_handler ::
    "('in \<Rightarrow> ('j, 'u) turbo_tool_execution_context option \<Rightarrow> 'u world \<Rightarrow> turbo_tool_status_t \<times> 'out option \<times> 'u world) \<Rightarrow> 'in \<Rightarrow>
     ('j, 'u) turbo_tool_execution_context option \<Rightarrow> 'u world \<Rightarrow> turbo_tool_status_t \<times> 'out option \<times> 'u world" where
  "call_context_handler handler arguments context w =
     (case handler arguments context w of (status, out_output, w) \<Rightarrow>
        (status, if status \<noteq> TURBO_TOOL_OK then None else out_output, w))"

definition arguments_or_empty :: "cstr \<Rightarrow> string" where
  "arguments_or_empty arguments_json = (case arguments_json of Some s \<Rightarrow> s | None \<Rightarrow> ''{}'')"

definition turbo_tool_registry_execute ::
    "('j, 'u, 'c) turbo_tool_registry \<Rightarrow> string \<Rightarrow> cstr \<Rightarrow> 'u world \<Rightarrow> turbo_tool_status_t \<times> cstr \<times> 'u world" where
  "turbo_tool_registry_execute registry name arguments_json w =
     (case turbo_tool_registry_find registry name of
        None \<Rightarrow> (TURBO_TOOL_NOT_FOUND, None, w)
      | Some i \<Rightarrow>
         (let entry = tr_entries registry ! i
          in case te_handler entry of
               Some handler \<Rightarrow> call_handler handler (arguments_or_empty arguments_json) w
             | None \<Rightarrow>
                (case te_context_handler entry of
                   Some handler \<Rightarrow> call_context_handler handler (arguments_or_empty arguments_json) None w
                 | None \<Rightarrow> (TURBO_TOOL_ERROR, None, w))))"

definition turbo_tool_registry_execute_with_context ::
    "('j, 'u, 'c) turbo_tool_registry \<Rightarrow> string \<Rightarrow> cstr \<Rightarrow> ('j, 'u) turbo_tool_execution_context option \<Rightarrow> 'u world \<Rightarrow>
     turbo_tool_status_t \<times> cstr \<times> 'u world" where
  "turbo_tool_registry_execute_with_context registry name arguments_json context w =
     (if \<not> turbo_tool_execution_context_valid context then (TURBO_TOOL_INVALID_ARGUMENT, None, w)
      else
        (case turbo_tool_registry_find registry name of
           None \<Rightarrow> (TURBO_TOOL_NOT_FOUND, None, w)
         | Some i \<Rightarrow>
            (let entry = tr_entries registry ! i
             in case te_context_handler entry of
                  Some handler \<Rightarrow> call_context_handler handler (arguments_or_empty arguments_json) context w
                | None \<Rightarrow>
                   (case te_handler entry of
                      None \<Rightarrow> (TURBO_TOOL_ERROR, None, w)
                    | Some handler \<Rightarrow> call_handler handler (arguments_or_empty arguments_json) w))))"

definition turbo_tool_registry_execute_json_value ::
    "('j, 'u, 'c) turbo_tool_registry \<Rightarrow> string \<Rightarrow> 'j option \<Rightarrow> 'u world \<Rightarrow> turbo_tool_status_t \<times> 'j option \<times> 'u world" where
  "turbo_tool_registry_execute_json_value registry name arguments w =
     (case turbo_tool_registry_find registry name of
        None \<Rightarrow> (TURBO_TOOL_NOT_FOUND, None, w)
      | Some i \<Rightarrow>
         (let entry = tr_entries registry ! i
          in case te_json_value_handler entry of
               Some handler \<Rightarrow> call_handler handler arguments w
             | None \<Rightarrow>
                (case te_json_value_context_handler entry of
                   Some handler \<Rightarrow> call_context_handler handler arguments None w
                 | None \<Rightarrow> (TURBO_TOOL_ERROR, None, w))))"

definition turbo_tool_registry_execute_json_value_with_context ::
    "('j, 'u, 'c) turbo_tool_registry \<Rightarrow> string \<Rightarrow> 'j option \<Rightarrow> ('j, 'u) turbo_tool_execution_context option \<Rightarrow> 'u world \<Rightarrow>
     turbo_tool_status_t \<times> 'j option \<times> 'u world" where
  "turbo_tool_registry_execute_json_value_with_context registry name arguments context w =
     (if \<not> turbo_tool_execution_context_valid context then (TURBO_TOOL_INVALID_ARGUMENT, None, w)
      else
        (case turbo_tool_registry_find registry name of
           None \<Rightarrow> (TURBO_TOOL_NOT_FOUND, None, w)
         | Some i \<Rightarrow>
            (let entry = tr_entries registry ! i
             in case te_json_value_context_handler entry of
                  Some handler \<Rightarrow> call_context_handler handler arguments context w
                | None \<Rightarrow>
                   (case te_json_value_handler entry of
                      None \<Rightarrow> (TURBO_TOOL_ERROR, None, w)
                    | Some handler \<Rightarrow> call_handler handler arguments w))))"

end
