(* ===== verification/Tool_Schema.thy ===== *)
theory Tool_Schema
  imports Tool_Registry
begin

section \<open>Schemas of tools: runtime\_tools/src/turbo\_tool\_schema.c\<close>

text \<open>
  The validator of tool arguments and results against the supported part of JSON Schema, and the lists of tools that are
  sent to model providers.

  A check of the validator is \<open>None\<close> when it passes, and otherwise the status it returns with the diagnostic it writes;
  \<open>first_failed\<close> runs checks in order up to the first that fails. The recursion ends because it goes one level deeper with
  every call and stops below level 64. What the code does with numbers (C doubles) is the record \<open>c_doubles\<close>. In
  comparisons the pointers of the two values are different unless both are null: one value is the caller's, the other a
  part of a schema that was cloned or parsed for the validation. \<open>json_object_value\<close> is the member of the key at an index.
\<close>

record 'd c_doubles =
  cd_isfinite :: "'d \<Rightarrow> bool"
  cd_integral :: "'d \<Rightarrow> bool"                \<comment> \<open>modf(x, \&integral) == 0.0\<close>
  cd_eq :: "'d \<Rightarrow> 'd \<Rightarrow> bool"
  cd_less :: "'d \<Rightarrow> 'd \<Rightarrow> bool"              \<comment> \<open>x < y, and y > x\<close>
  cd_less_eq :: "'d \<Rightarrow> 'd \<Rightarrow> bool"
  cd_max_safe_integer :: 'd                  \<comment> \<open>TURBO\_TOOL\_SCHEMA\_MAX\_SAFE\_INTEGER\<close>
  cd_size_max :: 'd                          \<comment> \<open>(double)SIZE\_MAX\<close>
  cd_size_of :: "'d \<Rightarrow> nat"                  \<comment> \<open>(size\_t)x\<close>

datatype turbo_tool_schema_validation_status_t =
    TURBO_TOOL_SCHEMA_VALID | TURBO_TOOL_SCHEMA_VALUE_INVALID | TURBO_TOOL_SCHEMA_INVALID_ARGUMENT
  | TURBO_TOOL_SCHEMA_INVALID_SCHEMA | TURBO_TOOL_SCHEMA_UNSUPPORTED

definition TURBO_TOOL_SCHEMA_MAX_DEPTH :: nat where "TURBO_TOOL_SCHEMA_MAX_DEPTH = 64"

subsection \<open>Parameter schemas\<close>

definition turbo_tool_schema_clone_json_value :: "'j \<Rightarrow> alloc \<Rightarrow> 'j option \<times> alloc" where
  "turbo_tool_schema_clone_json_value value a =
     (case json_create a value of
        (None, a) \<Rightarrow> (None, a)
      | (Some json_value, a) \<Rightarrow> json_create a json_value)"

text \<open>A strict object schema that does not say so allows no further properties. The result of \<open>json_object_set_bool\<close> is
  ignored by the code and taken to succeed here.\<close>

definition close_strict :: "('j, 'd) json_lib \<Rightarrow> int \<Rightarrow> 'j \<Rightarrow> 'j" where
  "close_strict J strict parameters =
     (if strict \<noteq> 0 \<and> jl_type J parameters = JSON_OBJECT \<and> jl_object_get J parameters ''additionalProperties'' = None
      then jl_object_add J parameters ''additionalProperties'' (jl_bool_of J False)
      else parameters)"

definition turbo_tool_schema_parse_parameters_json :: "('j, 'd) json_lib \<Rightarrow> cstr \<Rightarrow> int \<Rightarrow> 'j option" where
  "turbo_tool_schema_parse_parameters_json J parameters_json strict =
     (case parameters_json of
        None \<Rightarrow> None
      | Some json \<Rightarrow> map_option (close_strict J strict) (jl_parse J json))"

definition turbo_tool_schema_parse_parameters_json_value ::
    "('j, 'd) json_lib \<Rightarrow> cstr \<Rightarrow> int \<Rightarrow> alloc \<Rightarrow> 'j option \<times> alloc" where
  "turbo_tool_schema_parse_parameters_json_value J parameters_json strict a =
     (case turbo_tool_schema_parse_parameters_json J parameters_json strict of
        None \<Rightarrow> (None, a)
      | Some parameters \<Rightarrow> json_create a parameters)"

definition turbo_tool_schema_parse_parameters ::
    "('j, 'd) json_lib \<Rightarrow> ('j, 'u) turbo_tool_definition \<Rightarrow> alloc \<Rightarrow> 'j option \<times> alloc" where
  "turbo_tool_schema_parse_parameters J definition' a =
     (case td_parameters_schema definition' of
        Some schema \<Rightarrow>
          (case json_create a schema of
             (None, a) \<Rightarrow> (None, a)
           | (Some parameters, a) \<Rightarrow> (Some (close_strict J (td_strict definition') parameters), a))
      | None \<Rightarrow>
         (turbo_tool_schema_parse_parameters_json J (td_parameters_json definition') (td_strict definition'), a))"

subsection \<open>Parts of the validator\<close>

definition turbo_tool_schema_diagnostic :: "string \<Rightarrow> cstr \<Rightarrow> string" where
  "turbo_tool_schema_diagnostic message detail =
     (case detail of Some (c # cs) \<Rightarrow> message @ '': '' @ c # cs | _ \<Rightarrow> message)"

type_synonym check = "(turbo_tool_schema_validation_status_t \<times> string) option"

fun first_failed :: "check list \<Rightarrow> check" where
  "first_failed [] = None"
| "first_failed (c # cs) = (case c of Some failure \<Rightarrow> Some failure | None \<Rightarrow> first_failed cs)"

abbreviation refuse :: "turbo_tool_schema_validation_status_t \<Rightarrow> string \<Rightarrow> cstr \<Rightarrow> check" where
  "refuse status message detail \<equiv> Some (status, turbo_tool_schema_diagnostic message detail)"

definition turbo_tool_schema_annotation_keyword :: "string \<Rightarrow> bool" where
  "turbo_tool_schema_annotation_keyword key \<longleftrightarrow>
     (\<exists>k \<in> set [''$id'', ''$schema'', ''title'', ''description'', ''default'', ''examples'', ''deprecated'', ''readOnly'',
                ''writeOnly'']. strcmp key k = 0)"

definition turbo_tool_schema_supported_keyword :: "string \<Rightarrow> bool" where
  "turbo_tool_schema_supported_keyword key \<longleftrightarrow>
     turbo_tool_schema_annotation_keyword key \<or>
     (\<exists>k \<in> set [''type'', ''properties'', ''required'', ''additionalProperties'', ''items'', ''enum'', ''const'', ''minimum'',
                ''maximum'', ''exclusiveMinimum'', ''exclusiveMaximum'', ''minLength'', ''maxLength'', ''minItems'',
                ''maxItems'', ''minProperties'', ''maxProperties'']. strcmp key k = 0)"

definition turbo_tool_schema_check_keywords :: "('j, 'd) json_lib \<Rightarrow> 'j \<Rightarrow> check" where
  "turbo_tool_schema_check_keywords J schema =
     (if jl_type J schema \<noteq> JSON_OBJECT
      then refuse TURBO_TOOL_SCHEMA_INVALID_SCHEMA ''parameter schema must be an object'' None
      else
        first_failed (map (\<lambda>i. case jl_object_key J schema i of
            None \<Rightarrow> refuse TURBO_TOOL_SCHEMA_UNSUPPORTED ''unsupported parameter-schema keyword'' (Some ''<null>'')
          | Some key \<Rightarrow>
             if turbo_tool_schema_supported_keyword key then None
             else refuse TURBO_TOOL_SCHEMA_UNSUPPORTED ''unsupported parameter-schema keyword'' (Some key))
          [0..<jl_object_size J schema]))"

definition json_object_value :: "('j, 'd) json_lib \<Rightarrow> 'j \<Rightarrow> nat \<Rightarrow> 'j option" where
  "json_object_value J object i = Option.bind (jl_object_key J object i) (jl_object_get J object)"

function turbo_tool_schema_json_equal ::
    "('j, 'd) json_lib \<Rightarrow> 'd c_doubles \<Rightarrow> 'j option \<Rightarrow> 'j option \<Rightarrow> nat \<Rightarrow> bool" where
  "turbo_tool_schema_json_equal J D lhs rhs depth =
     (if depth > TURBO_TOOL_SCHEMA_MAX_DEPTH then False
      else
        (case (lhs, rhs) of
           (None, None) \<Rightarrow> True
         | (Some l, Some r) \<Rightarrow>
            if jl_type J l \<noteq> jl_type J r then False
            else
              (case jl_type J l of
                 JSON_NULL \<Rightarrow> True
               | JSON_BOOL \<Rightarrow> jl_bool J l = jl_bool J r
               | JSON_NUMBER \<Rightarrow> cd_eq D (jl_number J l) (jl_number J r)
               | JSON_STRING \<Rightarrow> strcmp (jl_string J l) (jl_string J r) = 0
               | JSON_ARRAY \<Rightarrow>
                  jl_array_size J l = jl_array_size J r \<and>
                  list_all (\<lambda>i. turbo_tool_schema_json_equal J D (jl_array_get J l i) (jl_array_get J r i) (depth + 1))
                    [0..<jl_array_size J l]
               | JSON_OBJECT \<Rightarrow>
                  jl_object_size J l = jl_object_size J r \<and>
                  list_all (\<lambda>i. case jl_object_key J l i of
                      None \<Rightarrow> False
                    | Some key \<Rightarrow>
                       (case jl_object_get J r key of
                          None \<Rightarrow> False
                        | Some right_value \<Rightarrow>
                           turbo_tool_schema_json_equal J D (json_object_value J l i) (Some right_value) (depth + 1)))
                    [0..<jl_object_size J l])
         | _ \<Rightarrow> False))"
  by pat_completeness auto
termination
  by (relation "measure (\<lambda>(J, D, l, r, depth). 65 - depth)") (auto simp: TURBO_TOOL_SCHEMA_MAX_DEPTH_def)

declare turbo_tool_schema_json_equal.simps [simp del]

definition turbo_tool_schema_utf8_codepoint_count :: "string \<Rightarrow> nat" where
  "turbo_tool_schema_utf8_codepoint_count text' = length (filter (\<lambda>c. (of_char c :: 8 word) AND 0xC0 \<noteq> 0x80) text')"

definition turbo_tool_schema_nonnegative_size :: "('j, 'd) json_lib \<Rightarrow> 'd c_doubles \<Rightarrow> 'j \<Rightarrow> nat option" where
  "turbo_tool_schema_nonnegative_size J D value =
     (if jl_type J value \<noteq> JSON_NUMBER then None
      else
        (let number = jl_number J value
         in if \<not> cd_isfinite D number \<or> cd_less D number (jl_double_zero J) \<or> \<not> cd_integral D number \<or>
               cd_less D (cd_max_safe_integer D) number \<or> cd_less D (cd_size_max D) number
            then None
            else Some (cd_size_of D number)))"

text \<open>\<open>None\<close> for a type that is not supported.\<close>

definition turbo_tool_schema_type_matches :: "('j, 'd) json_lib \<Rightarrow> 'd c_doubles \<Rightarrow> 'j \<Rightarrow> string \<Rightarrow> bool option" where
  "turbo_tool_schema_type_matches J D value type_name =
     (if strcmp type_name ''object'' = 0 then Some (jl_type J value = JSON_OBJECT)
      else if strcmp type_name ''array'' = 0 then Some (jl_type J value = JSON_ARRAY)
      else if strcmp type_name ''string'' = 0 then Some (jl_type J value = JSON_STRING)
      else if strcmp type_name ''number'' = 0 then Some (jl_type J value = JSON_NUMBER \<and> cd_isfinite D (jl_number J value))
      else if strcmp type_name ''integer'' = 0
           then Some (jl_type J value = JSON_NUMBER \<and> cd_isfinite D (jl_number J value) \<and> cd_integral D (jl_number J value))
      else if strcmp type_name ''boolean'' = 0 then Some (jl_type J value = JSON_BOOL)
      else if strcmp type_name ''null'' = 0 then Some (jl_type J value = JSON_NULL)
      else None)"

subsection \<open>The checks of one node\<close>

text \<open>The loop over an array of types: the first that matches ends it.\<close>

fun type_matches_any :: "('j, 'd) json_lib \<Rightarrow> 'd c_doubles \<Rightarrow> 'j \<Rightarrow> 'j option list \<Rightarrow> check" where
  "type_matches_any J D value [] = refuse TURBO_TOOL_SCHEMA_VALUE_INVALID ''parameter type mismatch'' None"
| "type_matches_any J D value (entry # entries) =
     (case entry of
        None \<Rightarrow> refuse TURBO_TOOL_SCHEMA_INVALID_SCHEMA ''type array must contain strings'' None
      | Some e \<Rightarrow>
         if jl_type J e \<noteq> JSON_STRING then refuse TURBO_TOOL_SCHEMA_INVALID_SCHEMA ''type array must contain strings'' None
         else
           (case turbo_tool_schema_type_matches J D value (jl_string J e) of
              None \<Rightarrow> refuse TURBO_TOOL_SCHEMA_UNSUPPORTED ''unsupported parameter type'' (Some (jl_string J e))
            | Some entry_matches \<Rightarrow> if entry_matches then None else type_matches_any J D value entries))"

definition check_type :: "('j, 'd) json_lib \<Rightarrow> 'd c_doubles \<Rightarrow> 'j \<Rightarrow> 'j \<Rightarrow> check" where
  "check_type J D value schema =
     (case jl_object_get J schema ''type'' of
        None \<Rightarrow> None
      | Some type_schema \<Rightarrow>
         if jl_type J type_schema = JSON_STRING
         then (case turbo_tool_schema_type_matches J D value (jl_string J type_schema) of
                 None \<Rightarrow> refuse TURBO_TOOL_SCHEMA_UNSUPPORTED ''unsupported parameter type'' (Some (jl_string J type_schema))
               | Some matched \<Rightarrow>
                  if matched then None else refuse TURBO_TOOL_SCHEMA_VALUE_INVALID ''parameter type mismatch'' None)
         else if jl_type J type_schema = JSON_ARRAY
         then type_matches_any J D value (map (jl_array_get J type_schema) [0..<jl_array_size J type_schema])
         else refuse TURBO_TOOL_SCHEMA_INVALID_SCHEMA ''type must be a string or string array'' None)"

definition check_enum :: "('j, 'd) json_lib \<Rightarrow> 'd c_doubles \<Rightarrow> 'j \<Rightarrow> 'j \<Rightarrow> check" where
  "check_enum J D value schema =
     (case jl_object_get J schema ''enum'' of
        None \<Rightarrow> None
      | Some enum_values \<Rightarrow>
         if jl_type J enum_values \<noteq> JSON_ARRAY \<or> jl_array_size J enum_values = 0
         then refuse TURBO_TOOL_SCHEMA_INVALID_SCHEMA ''enum must be a non-empty array'' None
         else if list_ex (\<lambda>i. turbo_tool_schema_json_equal J D (Some value) (jl_array_get J enum_values i) 0)
                   [0..<jl_array_size J enum_values]
         then None
         else refuse TURBO_TOOL_SCHEMA_VALUE_INVALID ''parameter is not an admitted enum value'' None)"

definition check_const :: "('j, 'd) json_lib \<Rightarrow> 'd c_doubles \<Rightarrow> 'j \<Rightarrow> 'j \<Rightarrow> check" where
  "check_const J D value schema =
     (case jl_object_get J schema ''const'' of
        None \<Rightarrow> None
      | Some const_value \<Rightarrow>
         if turbo_tool_schema_json_equal J D (Some value) (Some const_value) 0 then None
         else refuse TURBO_TOOL_SCHEMA_VALUE_INVALID ''parameter does not match const'' None)"

text \<open>One row of the table of numeric bounds: its key, whether it is exclusive, whether it is a lower bound.\<close>

definition numeric_bounds :: "(string \<times> bool \<times> bool) list" where
  "numeric_bounds =
     [(''minimum'', False, True), (''maximum'', False, False), (''exclusiveMinimum'', True, True),
      (''exclusiveMaximum'', True, False)]"

definition violates_bound :: "'d c_doubles \<Rightarrow> bool \<Rightarrow> bool \<Rightarrow> 'd \<Rightarrow> 'd \<Rightarrow> bool" where
  "violates_bound D exclusive lower number bound \<longleftrightarrow>
     (lower \<and> (if exclusive then cd_less_eq D number bound else cd_less D number bound)) \<or>
     (\<not> lower \<and> (if exclusive then cd_less_eq D bound number else cd_less D bound number))"

definition check_numeric :: "('j, 'd) json_lib \<Rightarrow> 'd c_doubles \<Rightarrow> 'j \<Rightarrow> 'j \<Rightarrow> check" where
  "check_numeric J D value schema =
     (if jl_type J value \<noteq> JSON_NUMBER then None
      else
        first_failed (map (\<lambda>(key, exclusive, lower).
            case jl_object_get J schema key of
              None \<Rightarrow> None
            | Some bound \<Rightarrow>
               if jl_type J bound \<noteq> JSON_NUMBER \<or> \<not> cd_isfinite D (jl_number J bound)
               then refuse TURBO_TOOL_SCHEMA_INVALID_SCHEMA ''numeric bound must be a finite number'' (Some key)
               else if violates_bound D exclusive lower (jl_number J value) (jl_number J bound)
               then refuse TURBO_TOOL_SCHEMA_VALUE_INVALID ''parameter violates numeric bound'' (Some key)
               else None)
          numeric_bounds))"

text \<open>The three tables of size bounds have the same loop: a lower and an upper bound of a size.\<close>

definition check_size ::
    "('j, 'd) json_lib \<Rightarrow> 'd c_doubles \<Rightarrow> string \<Rightarrow> string \<Rightarrow> (string \<times> bool) list \<Rightarrow> nat \<Rightarrow> 'j \<Rightarrow> check" where
  "check_size J D ill violated bounds n schema =
     first_failed (map (\<lambda>(key, minimum).
         case jl_object_get J schema key of
           None \<Rightarrow> None
         | Some bound \<Rightarrow>
            (case turbo_tool_schema_nonnegative_size J D bound of
               None \<Rightarrow> refuse TURBO_TOOL_SCHEMA_INVALID_SCHEMA ill (Some key)
             | Some limit \<Rightarrow>
                if (minimum \<and> n < limit) \<or> (\<not> minimum \<and> n > limit)
                then refuse TURBO_TOOL_SCHEMA_VALUE_INVALID violated (Some key)
                else None))
       bounds)"

definition check_string :: "('j, 'd) json_lib \<Rightarrow> 'd c_doubles \<Rightarrow> 'j \<Rightarrow> 'j \<Rightarrow> check" where
  "check_string J D value schema =
     (if jl_type J value \<noteq> JSON_STRING then None
      else check_size J D ''string length bound must be a non-negative integer'' ''parameter violates string length bound''
             [(''minLength'', True), (''maxLength'', False)]
             (turbo_tool_schema_utf8_codepoint_count (jl_string J value)) schema)"

definition check_required :: "('j, 'd) json_lib \<Rightarrow> 'j \<Rightarrow> 'j \<Rightarrow> check" where
  "check_required J value schema =
     (case jl_object_get J schema ''required'' of
        None \<Rightarrow> None
      | Some required \<Rightarrow>
         if jl_type J required \<noteq> JSON_ARRAY then refuse TURBO_TOOL_SCHEMA_INVALID_SCHEMA ''required must be an array'' None
         else
           first_failed (map (\<lambda>i. case jl_array_get J required i of
               None \<Rightarrow> refuse TURBO_TOOL_SCHEMA_INVALID_SCHEMA ''required entries must be strings'' None
             | Some entry \<Rightarrow>
                if jl_type J entry \<noteq> JSON_STRING
                then refuse TURBO_TOOL_SCHEMA_INVALID_SCHEMA ''required entries must be strings'' None
                else if jl_object_get J value (jl_string J entry) = None
                then refuse TURBO_TOOL_SCHEMA_VALUE_INVALID ''missing required property'' (Some (jl_string J entry))
                else None)
             [0..<jl_array_size J required]))"

text \<open>The members of the value that \<open>properties\<close> does not mention, with the result of \<open>additionalProperties\<close> on each.\<close>

definition check_additional ::
    "('j, 'd) json_lib \<Rightarrow> 'j \<Rightarrow> 'j option \<Rightarrow> 'j option \<Rightarrow> ('j \<Rightarrow> 'j \<Rightarrow> check) \<Rightarrow> nat \<Rightarrow> check" where
  "check_additional J value properties additional node i =
     (case jl_object_key J value i of
        None \<Rightarrow> None
      | Some key \<Rightarrow>
         if (case properties of None \<Rightarrow> False | Some ps \<Rightarrow> jl_object_get J ps key \<noteq> None) then None
         else
           (case additional of
              None \<Rightarrow> None
            | Some schema \<Rightarrow>
               if jl_type J schema = JSON_BOOL
               then (if jl_bool J schema then None
                     else refuse TURBO_TOOL_SCHEMA_VALUE_INVALID ''unexpected property'' (Some key))
               else node (the (json_object_value J value i)) schema))"

function turbo_tool_schema_validate_node ::
    "('j, 'd) json_lib \<Rightarrow> 'd c_doubles \<Rightarrow> 'j \<Rightarrow> 'j \<Rightarrow> nat \<Rightarrow> check" where
  "turbo_tool_schema_validate_node J D value schema depth =
     (if depth > TURBO_TOOL_SCHEMA_MAX_DEPTH
      then refuse TURBO_TOOL_SCHEMA_UNSUPPORTED ''parameter schema exceeds maximum depth'' None
      else
        (case first_failed [turbo_tool_schema_check_keywords J schema, check_type J D value schema, check_enum J D value schema,
                            check_const J D value schema, check_numeric J D value schema, check_string J D value schema] of
           Some failure \<Rightarrow> Some failure
         | None \<Rightarrow>
            if jl_type J value = JSON_ARRAY
            then (case check_size J D ''array bound must be a non-negative integer'' ''parameter violates array bound''
                         [(''minItems'', True), (''maxItems'', False)] (jl_array_size J value) schema of
                    Some failure \<Rightarrow> Some failure
                  | None \<Rightarrow>
                     (case jl_object_get J schema ''items'' of
                        None \<Rightarrow> None
                      | Some items \<Rightarrow>
                         if jl_type J items \<noteq> JSON_OBJECT
                         then refuse TURBO_TOOL_SCHEMA_UNSUPPORTED ''items must be an object schema'' None
                         else first_failed (map (\<lambda>i. turbo_tool_schema_validate_node J D (the (jl_array_get J value i)) items (depth + 1))
                                [0..<jl_array_size J value])))
            else if jl_type J value = JSON_OBJECT
            then (case first_failed
                         [check_size J D ''object bound must be a non-negative integer'' ''parameter violates object bound''
                            [(''minProperties'', True), (''maxProperties'', False)] (jl_object_size J value) schema,
                          check_required J value schema] of
                    Some failure \<Rightarrow> Some failure
                  | None \<Rightarrow>
                     (let properties = jl_object_get J schema ''properties'';
                          additional = jl_object_get J schema ''additionalProperties''
                      in case (case properties of
                                 None \<Rightarrow> None
                               | Some ps \<Rightarrow>
                                  if jl_type J ps \<noteq> JSON_OBJECT
                                  then refuse TURBO_TOOL_SCHEMA_INVALID_SCHEMA ''properties must be an object'' None
                                  else first_failed (map (\<lambda>i. case jl_object_key J ps i of
                                      None \<Rightarrow> refuse TURBO_TOOL_SCHEMA_INVALID_SCHEMA ''property schema must be an object'' (Some ''<null>'')
                                    | Some key \<Rightarrow>
                                       (case json_object_value J ps i of
                                          None \<Rightarrow> refuse TURBO_TOOL_SCHEMA_INVALID_SCHEMA ''property schema must be an object'' (Some key)
                                        | Some property_schema \<Rightarrow>
                                           if jl_type J property_schema \<noteq> JSON_OBJECT
                                           then refuse TURBO_TOOL_SCHEMA_INVALID_SCHEMA ''property schema must be an object'' (Some key)
                                           else
                                             (case jl_object_get J value key of
                                                None \<Rightarrow> None
                                              | Some property_value \<Rightarrow>
                                                 turbo_tool_schema_validate_node J D property_value property_schema (depth + 1))))
                                    [0..<jl_object_size J ps])) of
                           Some failure \<Rightarrow> Some failure
                         | None \<Rightarrow>
                            if (case additional of None \<Rightarrow> False | Some ad \<Rightarrow> jl_type J ad \<noteq> JSON_BOOL \<and> jl_type J ad \<noteq> JSON_OBJECT)
                            then refuse TURBO_TOOL_SCHEMA_INVALID_SCHEMA ''additionalProperties must be boolean or schema'' None
                            else first_failed (map (check_additional J value properties additional
                                   (\<lambda>v s. turbo_tool_schema_validate_node J D v s (depth + 1))) [0..<jl_object_size J value])))
            else None))"
  by pat_completeness auto
termination
  by (relation "measure (\<lambda>(J, D, v, s, depth). 65 - depth)") (auto simp: TURBO_TOOL_SCHEMA_MAX_DEPTH_def)

declare turbo_tool_schema_validate_node.simps [simp del]

subsection \<open>Validation of arguments and results\<close>

text \<open>The diagnostic buffer: cleared, then written as far as it has room. Without a buffer the capacity is 0.\<close>

definition diagnostic_text :: "nat \<Rightarrow> cstr \<Rightarrow> string" where
  "diagnostic_text capacity written = (case written of None \<Rightarrow> [] | Some message \<Rightarrow> take (capacity - 1) message)"

definition status_of_check :: "nat \<Rightarrow> check \<Rightarrow> turbo_tool_schema_validation_status_t \<times> string" where
  "status_of_check capacity check' =
     (case check' of
        None \<Rightarrow> (TURBO_TOOL_SCHEMA_VALID, diagnostic_text capacity None)
      | Some (status, message) \<Rightarrow> (status, diagnostic_text capacity (Some message)))"

definition turbo_tool_schema_validate_arguments_json_value ::
    "('j, 'd) json_lib \<Rightarrow> 'd c_doubles \<Rightarrow> ('j, 'u) turbo_tool_definition \<Rightarrow> 'j option \<Rightarrow> nat \<Rightarrow> alloc \<Rightarrow>
     turbo_tool_schema_validation_status_t \<times> string \<times> alloc" where
  "turbo_tool_schema_validate_arguments_json_value J D definition' arguments capacity a =
     (case arguments of
        None \<Rightarrow>
          (case status_of_check capacity (refuse TURBO_TOOL_SCHEMA_INVALID_ARGUMENT ''invalid tool-schema validation arguments'' None) of
             (status, diagnostic) \<Rightarrow> (status, diagnostic, a))
      | Some args \<Rightarrow>
         if td_parameters_json definition' = None \<and> td_parameters_schema definition' = None
         then (case status_of_check capacity (refuse TURBO_TOOL_SCHEMA_INVALID_ARGUMENT ''invalid tool-schema validation arguments'' None) of
                 (status, diagnostic) \<Rightarrow> (status, diagnostic, a))
         else
           (case turbo_tool_schema_parse_parameters J definition' a of
              (None, a) \<Rightarrow>
                (case status_of_check capacity (refuse TURBO_TOOL_SCHEMA_INVALID_SCHEMA ''could not materialize parameter schema'' None) of
                   (status, diagnostic) \<Rightarrow> (status, diagnostic, a))
            | (Some schema, a) \<Rightarrow>
               (case status_of_check capacity (turbo_tool_schema_validate_node J D args schema 0) of
                  (status, diagnostic) \<Rightarrow> (status, diagnostic, a))))"

definition turbo_tool_schema_validate_result_json_value ::
    "('j, 'd) json_lib \<Rightarrow> 'd c_doubles \<Rightarrow> ('j, 'u, 'c) turbo_tool_registry \<Rightarrow> string \<Rightarrow> 'j option \<Rightarrow> nat \<Rightarrow> alloc \<Rightarrow>
     turbo_tool_schema_validation_status_t \<times> string \<times> alloc" where
  "turbo_tool_schema_validate_result_json_value J D registry tool_name result capacity a =
     (let refused = (case status_of_check capacity (refuse TURBO_TOOL_SCHEMA_INVALID_ARGUMENT ''no registered result schema for tool'' None) of
                       (status, diagnostic) \<Rightarrow> (status, diagnostic, a))
      in case result of
           None \<Rightarrow> refused
         | Some r \<Rightarrow>
            (case turbo_tool_registry_resolve_name registry tool_name of
               (TURBO_TOOL_OK, Some canonical_name) \<Rightarrow>
                 (case turbo_tool_registry_get_result_contract registry canonical_name of
                    (TURBO_TOOL_OK, result_schema_json, Some result_schema, strict) \<Rightarrow>
                      turbo_tool_schema_validate_arguments_json_value J D
                        \<lparr>td_name = None, td_description = None, td_parameters_json = None,
                          td_parameters_schema = Some result_schema, td_strict = strict, td_handler = (None :: 'u tool_handler option),
                          td_json_value_handler = None, td_user_data_free = None\<rparr> (Some r) capacity a
                  | _ \<Rightarrow> refused)
             | _ \<Rightarrow> refused))"

subsection \<open>Names on the wire\<close>

definition turbo_tool_schema_openai_name_char_valid :: "char \<Rightarrow> bool" where
  "turbo_tool_schema_openai_name_char_valid ch \<longleftrightarrow>
     (ch \<ge> CHR ''a'' \<and> ch \<le> CHR ''z'') \<or> (ch \<ge> CHR ''A'' \<and> ch \<le> CHR ''Z'') \<or> (ch \<ge> CHR ''0'' \<and> ch \<le> CHR ''9'') \<or>
     ch = CHR ''_'' \<or> ch = CHR ''-''"

definition turbo_tool_schema_openai_compatible_name :: "cstr \<Rightarrow> alloc \<Rightarrow> cstr \<times> alloc" where
  "turbo_tool_schema_openai_compatible_name name a =
     (case name of
        Some (c # cs) \<Rightarrow>
          (case alloc1 a of (ok, a) \<Rightarrow>
             (if \<not> ok then None
              else Some (map (\<lambda>ch. if turbo_tool_schema_openai_name_char_valid ch then ch else CHR ''_'') (c # cs)), a))
      | _ \<Rightarrow> (None, a))"

text \<open>The loop over the definitions before \<open>end_index\<close>; what cannot be read or copied counts as seen.\<close>

fun name_seen_loop :: "('j, 'u, 'c) turbo_tool_registry \<Rightarrow> nat list \<Rightarrow> string \<Rightarrow> alloc \<Rightarrow> bool \<times> alloc" where
  "name_seen_loop registry [] name a = (False, a)"
| "name_seen_loop registry (i # is) name a =
     (case turbo_tool_registry_get_definition registry i of
        (TURBO_TOOL_OK, Some previous) \<Rightarrow>
          (case turbo_tool_schema_openai_compatible_name (td_name previous) a of
             (None, a) \<Rightarrow> (True, a)
           | (Some previous_name, a) \<Rightarrow>
              if strcmp previous_name name = 0 then (True, a) else name_seen_loop registry is name a)
      | _ \<Rightarrow> (True, a))"

definition turbo_tool_schema_openai_compatible_name_seen ::
    "('j, 'u, 'c) turbo_tool_registry \<Rightarrow> nat \<Rightarrow> string \<Rightarrow> alloc \<Rightarrow> bool \<times> alloc" where
  "turbo_tool_schema_openai_compatible_name_seen registry end_index name a = name_seen_loop registry [0..<end_index] name a"

subsection \<open>Lists of tools\<close>

abbreviation set_bool :: "('j, 'd) json_lib \<Rightarrow> 'j \<Rightarrow> string \<Rightarrow> bool \<Rightarrow> 'j" where
  "set_bool J object key b \<equiv> jl_object_add J object key (jl_bool_of J b)"

text \<open>The function object inside a tool of the chat interface. The results of the setters are ignored by the code and taken to
  succeed here, as in the other lists of tools.\<close>

definition chat_tool :: "('j, 'd) json_lib \<Rightarrow> string \<Rightarrow> string \<Rightarrow> 'j \<Rightarrow> int \<Rightarrow> bool \<Rightarrow> 'j" where
  "chat_tool J name description parameters strict compatible_mode =
     (let function_object = jl_set_string J (jl_set_string J (jl_object J) ''name'' name) ''description'' description;
          function_object = (if compatible_mode then function_object else set_bool J function_object ''strict'' (strict \<noteq> 0));
          function_object = jl_object_add J function_object ''parameters'' parameters
      in jl_object_add J (jl_set_string J (jl_object J) ''type'' ''function'') ''function'' function_object)"

definition turbo_tool_schema_build_openai_chat_tool_definition ::
    "('j, 'd) json_lib \<Rightarrow> cstr \<Rightarrow> cstr \<Rightarrow> cstr \<Rightarrow> int \<Rightarrow> bool \<Rightarrow> alloc \<Rightarrow> 'j option \<times> alloc" where
  "turbo_tool_schema_build_openai_chat_tool_definition J name description parameters_json strict compatible_mode a =
     (case (name, description, parameters_json) of
        (Some n, Some d, Some p) \<Rightarrow>
          (case turbo_tool_schema_parse_parameters_json J parameters_json strict of
             None \<Rightarrow> (None, a)
           | Some parameters \<Rightarrow>
              (case alloc_all 2 a of (ok, a) \<Rightarrow>
                 (if \<not> ok then None else Some (chat_tool J n d parameters strict compatible_mode), a)))
      | _ \<Rightarrow> (None, a))"

definition turbo_tool_schema_build_openai_chat_tool_with_parameters ::
    "('j, 'd) json_lib \<Rightarrow> cstr \<Rightarrow> cstr \<Rightarrow> 'j \<Rightarrow> int \<Rightarrow> bool \<Rightarrow> alloc \<Rightarrow> 'j option \<times> alloc" where
  "turbo_tool_schema_build_openai_chat_tool_with_parameters J name description parameters strict compatible_mode a =
     (case (name, description) of
        (Some n, Some d) \<Rightarrow>
          (case alloc_all 2 a of (ok, a) \<Rightarrow>
             (if \<not> ok then None else Some (chat_tool J n d parameters strict compatible_mode), a))
      | _ \<Rightarrow> (None, a))"

text \<open>The loop of the builders: every definition in order, given up at the first that fails.\<close>

fun build_tools ::
    "('j, 'd) json_lib \<Rightarrow> (nat \<Rightarrow> ('j, 'u) turbo_tool_definition \<Rightarrow> alloc \<Rightarrow> 'j option \<times> alloc) \<Rightarrow> ('j, 'u, 'c) turbo_tool_registry \<Rightarrow>
     nat list \<Rightarrow> 'j \<Rightarrow> alloc \<Rightarrow> 'j option \<times> alloc" where
  "build_tools J build registry [] tools a = (Some tools, a)"
| "build_tools J build registry (i # is) tools a =
     (case turbo_tool_registry_get_definition registry i of
        (TURBO_TOOL_OK, Some definition') \<Rightarrow>
          (case build i definition' a of
             (None, a) \<Rightarrow> (None, a)
           | (Some tool, a) \<Rightarrow> build_tools J build registry is (jl_array_add J tools tool) a)
      | _ \<Rightarrow> (None, a))"

definition build_tool_array ::
    "('j, 'd) json_lib \<Rightarrow> (nat \<Rightarrow> ('j, 'u) turbo_tool_definition \<Rightarrow> alloc \<Rightarrow> 'j option \<times> alloc) \<Rightarrow> ('j, 'u, 'c) turbo_tool_registry \<Rightarrow>
     alloc \<Rightarrow> 'j option \<times> alloc" where
  "build_tool_array J build registry a =
     (case json_create a (jl_array J) of
        (None, a) \<Rightarrow> (None, a)
      | (Some tools, a) \<Rightarrow> build_tools J build registry [0..<turbo_tool_registry_count registry] tools a)"

text \<open>A tool under its name on the wire, which no tool before it may have.\<close>

definition with_wire_name ::
    "('j, 'd) json_lib \<Rightarrow> ('j, 'u, 'c) turbo_tool_registry \<Rightarrow> (string \<Rightarrow> 'j \<Rightarrow> ('j, 'u) turbo_tool_definition \<Rightarrow> alloc \<Rightarrow> 'j option \<times> alloc) \<Rightarrow>
     nat \<Rightarrow> ('j, 'u) turbo_tool_definition \<Rightarrow> alloc \<Rightarrow> 'j option \<times> alloc" where
  "with_wire_name J registry build i definition' a =
     (case turbo_tool_schema_openai_compatible_name (td_name definition') a of
        (None, a) \<Rightarrow> (None, a)
      | (Some compatible_name, a) \<Rightarrow>
         (case turbo_tool_schema_openai_compatible_name_seen registry i compatible_name a of
            (seen, a) \<Rightarrow>
              if seen then (None, a)
              else
                (case turbo_tool_schema_parse_parameters J definition' a of
                   (None, a) \<Rightarrow> (None, a)
                 | (Some parameters, a) \<Rightarrow> build compatible_name parameters definition' a)))"

definition openai_tool :: "('j, 'd) json_lib \<Rightarrow> string \<Rightarrow> 'j \<Rightarrow> ('j, 'u) turbo_tool_definition \<Rightarrow> alloc \<Rightarrow> 'j option \<times> alloc" where
  "openai_tool J compatible_name parameters definition' a =
     (case json_create a (jl_object J) of
        (None, a) \<Rightarrow> (None, a)
      | (Some tool, a) \<Rightarrow>
         (let tool = jl_set_string J tool ''type'' ''function'';
              tool = jl_set_string J tool ''name'' compatible_name;
              tool = (case td_description definition' of Some d \<Rightarrow> jl_set_string J tool ''description'' d | None \<Rightarrow> tool);
              tool = set_bool J tool ''strict'' (td_strict definition' \<noteq> 0)
          in (Some (jl_object_add J tool ''parameters'' parameters), a)))"

definition turbo_tool_schema_build_openai_tools ::
    "('j, 'd) json_lib \<Rightarrow> ('j, 'u, 'c) turbo_tool_registry \<Rightarrow> alloc \<Rightarrow> 'j option \<times> alloc" where
  "turbo_tool_schema_build_openai_tools J registry = build_tool_array J (with_wire_name J registry (openai_tool J)) registry"

definition turbo_tool_schema_build_openai_compatible_chat_tools ::
    "('j, 'd) json_lib \<Rightarrow> ('j, 'u, 'c) turbo_tool_registry \<Rightarrow> alloc \<Rightarrow> 'j option \<times> alloc" where
  "turbo_tool_schema_build_openai_compatible_chat_tools J registry =
     build_tool_array J (with_wire_name J registry (\<lambda>compatible_name parameters definition' a.
       turbo_tool_schema_build_openai_chat_tool_with_parameters J (Some compatible_name) (td_description definition')
         parameters (td_strict definition') True a)) registry"

definition turbo_tool_schema_build_openai_chat_tools ::
    "('j, 'd) json_lib \<Rightarrow> ('j, 'u, 'c) turbo_tool_registry \<Rightarrow> alloc \<Rightarrow> 'j option \<times> alloc" where
  "turbo_tool_schema_build_openai_chat_tools J registry =
     build_tool_array J (\<lambda>i definition' a.
       case turbo_tool_schema_parse_parameters J definition' a of
         (None, a) \<Rightarrow> (None, a)
       | (Some parameters, a) \<Rightarrow>
          turbo_tool_schema_build_openai_chat_tool_with_parameters J (td_name definition') (td_description definition')
            parameters (td_strict definition') False a) registry"

definition turbo_tool_schema_build_anthropic_tools ::
    "('j, 'd) json_lib \<Rightarrow> ('j, 'u, 'c) turbo_tool_registry \<Rightarrow> alloc \<Rightarrow> 'j option \<times> alloc" where
  "turbo_tool_schema_build_anthropic_tools J registry =
     build_tool_array J (\<lambda>i definition' a.
       case turbo_tool_schema_parse_parameters J definition' a of
         (None, a) \<Rightarrow> (None, a)
       | (Some input_schema, a) \<Rightarrow>
          (case json_create a (jl_object J) of
             (None, a) \<Rightarrow> (None, a)
           | (Some tool, a) \<Rightarrow>
              (let tool = (case td_name definition' of Some n \<Rightarrow> jl_set_string J tool ''name'' n | None \<Rightarrow> tool);
                   tool = (case td_description definition' of Some d \<Rightarrow> jl_set_string J tool ''description'' d | None \<Rightarrow> tool)
               in (Some (jl_object_add J tool ''input_schema'' input_schema), a)))) registry"

text \<open>The description of a registry: here every result is checked.\<close>

definition registry_tool ::
    "('j, 'd) json_lib \<Rightarrow> ('j, 'u) turbo_tool_definition \<Rightarrow> alloc \<Rightarrow> 'j option \<times> alloc" where
  "registry_tool J definition' a =
     (case alloc_all 4 a of (ok, a) \<Rightarrow>
      case (case td_parameters_schema definition' of
              Some schema \<Rightarrow> turbo_tool_schema_clone_json_value schema a
            | None \<Rightarrow> turbo_tool_schema_parse_parameters_json_value J (td_parameters_json definition') (td_strict definition') a) of
        (parameters, a) \<Rightarrow>
        (case (td_name definition', td_description definition', parameters) of
           (Some name, Some description, Some p) \<Rightarrow>
             if \<not> ok then (None, a)
             else set_fields [f_value J ''name'' (jl_string_of J name), f_value J ''description'' (jl_string_of J description),
                              f_value J ''strict'' (jl_bool_of J (td_strict definition' \<noteq> 0)), f_value J ''parameters'' p]
                    (jl_object J) a
         | _ \<Rightarrow> (None, a)))"

fun registry_json_loop ::
    "('j, 'd) json_lib \<Rightarrow> ('j, 'u, 'c) turbo_tool_registry \<Rightarrow> nat list \<Rightarrow> 'j \<Rightarrow> alloc \<Rightarrow> 'j option \<times> alloc" where
  "registry_json_loop J registry [] tools a = (Some tools, a)"
| "registry_json_loop J registry (i # is) tools a =
     (case turbo_tool_registry_get_definition registry i of
        (TURBO_TOOL_OK, Some definition') \<Rightarrow>
          (case registry_tool J definition' a of
             (None, a) \<Rightarrow> (None, a)
           | (Some tool, a) \<Rightarrow>
              (case turbo_runtime_json_array_append J a tools (Some tool) of (status, tools, a) \<Rightarrow>
                 if status \<noteq> TURBO_RUNTIME_JSON_OK then (None, a) else registry_json_loop J registry is tools a))
      | _ \<Rightarrow> (None, a))"

definition turbo_tool_schema_build_registry_json_value ::
    "('j, 'd) json_lib \<Rightarrow> ('j, 'u, 'c) turbo_tool_registry \<Rightarrow> alloc \<Rightarrow> 'j option \<times> alloc" where
  "turbo_tool_schema_build_registry_json_value J registry a =
     (case json_create a (jl_array J) of
        (None, a) \<Rightarrow> (None, a)
      | (Some tools, a) \<Rightarrow> registry_json_loop J registry [0..<turbo_tool_registry_count registry] tools a)"

text \<open>The four builders under the names of the registry.\<close>

definition turbo_tool_registry_build_openai_tools ::
    "('j, 'd) json_lib \<Rightarrow> ('j, 'u, 'c) turbo_tool_registry \<Rightarrow> alloc \<Rightarrow> 'j option \<times> alloc" where
  "turbo_tool_registry_build_openai_tools J registry a = turbo_tool_schema_build_openai_tools J registry a"

definition turbo_tool_registry_build_openai_compatible_chat_tools ::
    "('j, 'd) json_lib \<Rightarrow> ('j, 'u, 'c) turbo_tool_registry \<Rightarrow> alloc \<Rightarrow> 'j option \<times> alloc" where
  "turbo_tool_registry_build_openai_compatible_chat_tools J registry a = turbo_tool_schema_build_openai_compatible_chat_tools J registry a"

definition turbo_tool_registry_build_openai_chat_tools ::
    "('j, 'd) json_lib \<Rightarrow> ('j, 'u, 'c) turbo_tool_registry \<Rightarrow> alloc \<Rightarrow> 'j option \<times> alloc" where
  "turbo_tool_registry_build_openai_chat_tools J registry a = turbo_tool_schema_build_openai_chat_tools J registry a"

definition turbo_tool_registry_build_anthropic_tools ::
    "('j, 'd) json_lib \<Rightarrow> ('j, 'u, 'c) turbo_tool_registry \<Rightarrow> alloc \<Rightarrow> 'j option \<times> alloc" where
  "turbo_tool_registry_build_anthropic_tools J registry a = turbo_tool_schema_build_anthropic_tools J registry a"

end
