(* ===== verification/Tool_Promises.thy ===== *)
theory Tool_Promises
  imports Tool_Schema Event_Promises
begin

section \<open>Tool registries keep their promises\<close>

text \<open>
  Names in a registry are distinct and every entry is well formed, whatever operations build it and whatever allocations
  fail; an operation that fails changes nothing. A tool is found by its name or by its name on the wire when that is
  unambiguous; the names a registry is exported under lead back to the tools. Projections and compositions execute the
  tools of their sources.
\<close>

subsection \<open>Finding a tool\<close>

definition wire_name :: "string \<Rightarrow> string" where
  "wire_name name = map (\<lambda>ch. if turbo_tool_openai_name_char_valid ch then ch else CHR ''_'') name"

lemma compatible_name_equals: "turbo_tool_openai_compatible_name_equals original compatible \<longleftrightarrow> wire_name original = compatible"
  by (induction original compatible rule: turbo_tool_openai_compatible_name_equals.induct) (auto simp: wire_name_def)

lemma schema_name_char_valid [simp]: "turbo_tool_schema_openai_name_char_valid = turbo_tool_openai_name_char_valid"
  by (auto simp: turbo_tool_schema_openai_name_char_valid_def turbo_tool_openai_name_char_valid_def)

lemma only_match:
  "distinct xs \<Longrightarrow> (length (filter P xs) = 1 \<and> last (filter P xs) = i) \<longleftrightarrow> (i \<in> set xs \<and> P i \<and> (\<forall>j \<in> set xs. P j \<longrightarrow> j = i))"
proof (induction xs)
  case (Cons x xs)
  have none: "filter P xs = [] \<longleftrightarrow> (\<forall>j \<in> set xs. \<not> P j)" by (simp add: filter_empty_conv)
  show ?case
  proof (cases "P x")
    case True
    then show ?thesis using none Cons.prems by (cases "filter P xs") auto
  next
    case False
    then show ?thesis using Cons by auto
  qed
qed simp

abbreviation name_at :: "('j, 'u, 'c) turbo_tool_registry \<Rightarrow> nat \<Rightarrow> string" where
  "name_at r i \<equiv> te_name (tr_entries r ! i)"

abbreviation tool_names :: "('j, 'u, 'c) turbo_tool_registry \<Rightarrow> string list" where
  "tool_names r \<equiv> map te_name (tr_entries r)"

lemma find_name:
  "find (\<lambda>i. name_at r i = n) [0..<length (tr_entries r)] = None \<longleftrightarrow> n \<notin> set (tool_names r)"
  using find_index_mem [of te_name "tr_entries r" n] by auto

lemma registry_find_Some:
  assumes "distinct (tool_names r)"
  shows "turbo_tool_registry_find r n = Some i \<longleftrightarrow> i < length (tr_entries r) \<and>
    (name_at r i = n \<or> (n \<notin> set (tool_names r) \<and> wire_name (name_at r i) = n \<and>
      (\<forall>j < length (tr_entries r). wire_name (name_at r j) = n \<longrightarrow> j = i)))"
proof (cases "find (\<lambda>i. name_at r i = n) [0..<length (tr_entries r)]")
  case (Some k)
  then have k: "k < length (tr_entries r)" "name_at r k = n" unfolding find_index_Some by blast+
  then have mem: "n \<in> set (tool_names r)" using find_name [of r n] Some by simp
  have f: "turbo_tool_registry_find r n = Some k" unfolding turbo_tool_registry_find_def by (simp add: Some)
  have "(i < length (tr_entries r) \<and> name_at r i = n) = (i = k)" using nth_eq_iff_index_eq [OF assms, of i k] k by auto
  with mem show ?thesis unfolding f option.inject by blast
next
  case None
  then have n: "n \<notin> set (tool_names r)" using find_name by blast
  have neq: "i < length (tr_entries r) \<Longrightarrow> name_at r i \<noteq> n" using None unfolding find_index_None by blast
  have "turbo_tool_registry_find r n = Some i \<longleftrightarrow>
      (length (filter (\<lambda>i. wire_name (name_at r i) = n) [0..<length (tr_entries r)]) = 1 \<and>
       last (filter (\<lambda>i. wire_name (name_at r i) = n) [0..<length (tr_entries r)]) = i)"
    unfolding turbo_tool_registry_find_def by (simp add: None Let_def compatible_name_equals)
  also have "\<dots> \<longleftrightarrow> i \<in> set [0..<length (tr_entries r)] \<and> wire_name (name_at r i) = n \<and>
      (\<forall>j \<in> set [0..<length (tr_entries r)]. wire_name (name_at r j) = n \<longrightarrow> j = i)"
    by (rule only_match) simp
  finally have found: "turbo_tool_registry_find r n = Some i \<longleftrightarrow> \<dots>" .
  show ?thesis
  proof (cases "i < length (tr_entries r)")
    case True
    then show ?thesis using neq n by (simp add: found Ball_def)
  qed (simp add: found)
qed

lemma registry_find_name:
  assumes "distinct (tool_names r)" and "i < length (tr_entries r)"
  shows "turbo_tool_registry_find r (name_at r i) = Some i"
  using assms by (simp add: registry_find_Some)

lemma registry_find_None_name:
  assumes "turbo_tool_registry_find r n = None"
  shows "n \<notin> set (tool_names r)"
proof -
  have "find (\<lambda>i. name_at r i = n) [0..<length (tr_entries r)] = None"
    using assms by (cases "find (\<lambda>i. name_at r i = n) [0..<length (tr_entries r)]") (simp_all add: turbo_tool_registry_find_def)
  then show ?thesis using find_name by blast
qed

subsection \<open>What holds of every entry\<close>

definition entry_ok :: "('j, 'd) json_lib \<Rightarrow> 'c cmeta_lib \<Rightarrow> ('j, 'u, 'c) turbo_tool_entry \<Rightarrow> bool" where
  "entry_ok J M e \<longleftrightarrow>
     distinct (te_required_capabilities e) \<and> [] \<notin> set (te_required_capabilities e) \<and>
     (te_handler e \<noteq> None \<or> te_json_value_handler e \<noteq> None \<or> te_context_handler e \<noteq> None \<or> te_json_value_context_handler e \<noteq> None) \<and>
     turbo_tool_execution_policy_valid (te_execution_policy e) \<and>
     turbo_tool_effect_flags_valid (te_effect_flags e) \<and> te_effect_flags e \<noteq> 0 \<and>
     parse_result_schema J (te_result_schema_json e) = Some (te_result_schema e) \<and>
     te_strict_result e \<in> {0, 1} \<and> (te_strict_result e = 1 \<longrightarrow> te_result_schema e \<noteq> None) \<and>
     (\<forall>m. te_execution_metadata e = Some m \<longrightarrow> jl_type J m = JSON_OBJECT) \<and>
     (\<forall>p. te_native_projection e = Some p \<longrightarrow> te_effect_flags e = TURBO_TOOL_EFFECT_PURE \<longrightarrow>
        cm_effects_are_pure M (cm_function_effects M (np_function p)))"

definition registry_inv :: "('j, 'd) json_lib \<Rightarrow> 'c cmeta_lib \<Rightarrow> ('j, 'u, 'c) turbo_tool_registry \<Rightarrow> bool" where
  "registry_inv J M r \<longleftrightarrow> distinct (tool_names r) \<and> length (tr_entries r) \<le> tr_capacity r \<and> (\<forall>e \<in> set (tr_entries r). entry_ok J M e)"

lemma capabilities_valid_distinct:
  "capabilities_valid previous cs \<Longrightarrow> distinct previous \<Longrightarrow>
    None \<notin> set cs \<and> distinct (previous @ map the cs) \<and> [] \<notin> set (map the cs)"
proof (induction previous cs rule: capabilities_valid.induct)
  case (2 previous capability others)
  obtain c where c: "capability = Some c" using 2(2) by (cases capability) auto
  then have v: "c \<noteq> []" "c \<notin> set previous" "capabilities_valid (previous @ [c]) others"
    using 2(2) by (auto split: if_splits)
  then show ?case using 2(1) [OF c] 2(3) c by auto
qed simp

lemma copy_capabilities_prefix: "copy_capabilities cs a = (copies, a') \<Longrightarrow> length copies = length cs \<Longrightarrow> copies = cs"
  by (induction cs arbitrary: a copies) (auto simp: turbo_tool_strdup_def split: prod.splits if_splits)

lemma entry_copies_result:
  assumes "entry_copies J d name description required result_schema_json a = (Some (json, capabilities), a')"
  shows "capabilities = required \<and> (\<forall>s. td_parameters_json d = Some s \<longrightarrow> json = s)"
  using assms
  by (auto simp: entry_copies_def turbo_tool_strdup_def turbo_tool_registry_serialize_json_value_def
      dest: copy_capabilities_prefix split: prod.splits option.splits if_splits)

lemma flags_normalize [simp]:
  "turbo_tool_effect_flags_normalize flags \<noteq> 0"
  "turbo_tool_effect_flags_valid flags \<Longrightarrow> turbo_tool_effect_flags_valid (turbo_tool_effect_flags_normalize flags)"
proof -
  have "turbo_tool_effect_flags_valid TURBO_TOOL_EFFECT_UNKNOWN" "TURBO_TOOL_EFFECT_UNKNOWN \<noteq> 0"
    by (simp_all add: turbo_tool_effect_flags_valid_def TURBO_TOOL_EFFECT_UNKNOWN_def TURBO_TOOL_EFFECT_KNOWN_MASK_def
        TURBO_TOOL_EFFECT_PURE_def)
  then show "turbo_tool_effect_flags_normalize flags \<noteq> 0"
    "turbo_tool_effect_flags_valid flags \<Longrightarrow> turbo_tool_effect_flags_valid (turbo_tool_effect_flags_normalize flags)"
    by (simp_all add: turbo_tool_effect_flags_normalize_def)
qed

subsection \<open>Building a registry\<close>

datatype ('j, 'u, 'c) registry_op =
    Add_Tool "('j, 'u) turbo_tool_definition" | Add_Tool_V2 "('j, 'u) turbo_tool_definition_v2"
  | Add_Tool_V3 "('j, 'u) turbo_tool_definition_v3" | Add_Tool_V4 "('j, 'u) turbo_tool_definition_v4"
  | Add_Tool_V5 "('j, 'u) turbo_tool_definition_v5" | Add_Tool_V6 "('j, 'u) turbo_tool_definition_v6"
  | Remove_Tool string | Require_Capability string string | Set_Metadata string "'j option"
  | Publish_Projection string "'c turbo_tool_native_projection"

fun apply_registry_op ::
    "('j, 'd) json_lib \<Rightarrow> 'c cmeta_lib \<Rightarrow> ('j, 'u, 'c) registry_op \<Rightarrow> 'u world \<Rightarrow> ('j, 'u, 'c) turbo_tool_registry \<Rightarrow>
     turbo_tool_status_t \<times> ('j, 'u, 'c) turbo_tool_registry \<times> 'u world" where
  "apply_registry_op J M (Add_Tool d) w r = in_world (turbo_tool_registry_add J r d) w"
| "apply_registry_op J M (Add_Tool_V2 d) w r = in_world (turbo_tool_registry_add_v2 J r d) w"
| "apply_registry_op J M (Add_Tool_V3 d) w r = in_world (turbo_tool_registry_add_v3 J r d) w"
| "apply_registry_op J M (Add_Tool_V4 d) w r = in_world (turbo_tool_registry_add_v4 J r d) w"
| "apply_registry_op J M (Add_Tool_V5 d) w r = in_world (turbo_tool_registry_add_v5 J r d) w"
| "apply_registry_op J M (Add_Tool_V6 d) w r = in_world (turbo_tool_registry_add_v6 J r d) w"
| "apply_registry_op J M (Remove_Tool n) w r = turbo_tool_registry_remove r n w"
| "apply_registry_op J M (Require_Capability n c) w r = in_world (turbo_tool_registry_require_capability r n c) w"
| "apply_registry_op J M (Set_Metadata n m) w r = in_world (turbo_tool_registry_set_execution_metadata J r n m) w"
| "apply_registry_op J M (Publish_Projection n p) w r =
     (case turbo_tool_registry_publish_native_projection M r n p of (s, r) \<Rightarrow> (s, r, w))"

text \<open>What an operation does to the list of entries: it adds one at the end, removes one, or changes one that keeps
  its name.\<close>

inductive entries_step :: "(('j, 'u, 'c) turbo_tool_entry \<Rightarrow> bool) \<Rightarrow> ('j, 'u, 'c) turbo_tool_entry list \<Rightarrow>
    ('j, 'u, 'c) turbo_tool_entry list \<Rightarrow> bool" for ok where
  entry_added: "te_name e \<notin> te_name ` set es \<Longrightarrow> ok e \<Longrightarrow> entries_step ok es (es @ [e])"
| entry_removed: "i < length es \<Longrightarrow> entries_step ok es (take i es @ drop (Suc i) es)"
| entry_changed: "i < length es \<Longrightarrow> (ok (es ! i) \<Longrightarrow> ok e) \<Longrightarrow> te_name e = te_name (es ! i) \<Longrightarrow> entries_step ok es (es[i := e])"
| entries_kept: "entries_step ok es es"

lemma entries_step_keeps:
  "entries_step ok es es' \<Longrightarrow> distinct (map te_name es) \<and> (\<forall>e \<in> set es. ok e) \<Longrightarrow>
    distinct (map te_name es') \<and> (\<forall>e \<in> set es'. ok e)"
proof (induction rule: entries_step.induct)
  case (entry_removed i es)
  have "set (take i es @ drop (Suc i) es) \<subseteq> set es" by (auto dest: in_set_takeD in_set_dropD)
  moreover have "distinct (map te_name (take i es @ drop (Suc i) es))"
    using entry_removed by (subst (asm) id_take_nth_drop [OF entry_removed(1)]) auto
  ultimately show ?case using entry_removed by blast
next
  case (entry_changed i es e)
  then have "map te_name (es[i := e]) = map te_name es" by (simp add: map_update list_update_same_conv)
  then show ?case using entry_changed by (auto dest!: set_update_subset_insert [THEN subsetD])
qed auto

lemma reserve_registry:
  assumes "turbo_tool_registry_reserve r a = (s, r', a')"
  shows "tr_entries r' = tr_entries r \<and> tr_capacity r \<le> tr_capacity r' \<and> (a = [] \<longrightarrow> s = TURBO_TOOL_OK \<and> a' = []) \<and>
    (s = TURBO_TOOL_OK \<longrightarrow> length (tr_entries r) \<le> tr_capacity r \<longrightarrow> length (tr_entries r) < tr_capacity r')"
  using assms by (cases "alloc1 a") (auto simp: turbo_tool_registry_reserve_def Let_def split: if_splits)

text \<open>The arguments of \<open>turbo_tool_registry_add_with_policy\<close> that it accepts.\<close>

definition add_accepts ::
    "('j, 'd) json_lib \<Rightarrow> ('j, 'u) turbo_tool_definition \<Rightarrow> turbo_tool_execution_policy \<Rightarrow> cstr list option \<Rightarrow> nat \<Rightarrow>
     ('j, 'u) tool_context_handler option \<Rightarrow> ('j, 'u) tool_json_value_context_handler option \<Rightarrow> cstr \<Rightarrow> int \<Rightarrow> u64 \<Rightarrow> bool" where
  "add_accepts J d policy caps n ctx jctx result strict flags \<longleftrightarrow>
     td_name d \<noteq> None \<and> td_description d \<noteq> None \<and> (td_parameters_json d \<noteq> None \<or> td_parameters_schema d \<noteq> None) \<and>
     (td_handler d \<noteq> None \<or> td_json_value_handler d \<noteq> None \<or> ctx \<noteq> None \<or> jctx \<noteq> None) \<and>
     turbo_tool_execution_policy_valid policy \<and> (0 < n \<longrightarrow> caps \<noteq> None) \<and> strict \<in> {0, 1} \<and> (strict = 1 \<longrightarrow> result \<noteq> None) \<and>
     turbo_tool_effect_flags_valid flags \<and> parse_result_schema J result \<noteq> None \<and>
     capabilities_valid [] (take n (case caps of None \<Rightarrow> [] | Some cs \<Rightarrow> cs))"

lemma is_none_iff: "Option.is_none x \<longleftrightarrow> x = None"
  by (cases x) auto

lemma add_refused:
  assumes "\<not> add_accepts J d policy caps n ctx jctx result strict flags"
  shows "turbo_tool_registry_add_with_policy J r d policy caps n ctx jctx result strict flags a = (TURBO_TOOL_INVALID_ARGUMENT, r, a)"
proof (cases "td_name d = None \<or> td_description d = None")
  case True
  then show ?thesis by (cases "td_name d") (simp_all add: turbo_tool_registry_add_with_policy_def)
next
  case False
  then obtain name description where v: "td_name d = Some name" "td_description d = Some description" by auto
  let ?guard = "(td_parameters_json d = None \<and> td_parameters_schema d = None) \<or>
    (Option.is_none (td_handler d) \<and> Option.is_none (td_json_value_handler d) \<and> Option.is_none ctx \<and> Option.is_none jctx) \<or>
    \<not> turbo_tool_execution_policy_valid policy \<or> (0 < n \<and> caps = None) \<or> (strict \<noteq> 0 \<and> strict \<noteq> 1) \<or>
    (strict \<noteq> 0 \<and> result = None) \<or> \<not> turbo_tool_effect_flags_valid flags"
  have "?guard \<or> parse_result_schema J result = None \<or> \<not> capabilities_valid [] (take n (case caps of None \<Rightarrow> [] | Some cs \<Rightarrow> cs))"
    using assms v unfolding add_accepts_def is_none_iff by auto
  then show ?thesis unfolding turbo_tool_registry_add_with_policy_def v option.case prod.case
    by (cases ?guard; cases "parse_result_schema J result") (simp_all only: if_True if_False option.case Let_def simp_thms option.distinct)
qed

lemma add_accepted:
  assumes "add_accepts J d policy caps n ctx jctx result strict flags"
  shows "turbo_tool_registry_add_with_policy J r d policy caps n ctx jctx result strict flags a =
    (let required = map the (take n (case caps of None \<Rightarrow> [] | Some cs \<Rightarrow> cs)); name = the (td_name d); description = the (td_description d) in
     if turbo_tool_registry_find r name \<noteq> None then (TURBO_TOOL_DUPLICATE, r, a)
     else case turbo_tool_registry_reserve r a of (s, r, a) \<Rightarrow>
       if s \<noteq> TURBO_TOOL_OK then (s, r, a)
       else case entry_copies J d name description required result a of
         (None, a) \<Rightarrow> (TURBO_TOOL_OUT_OF_MEMORY, r, a)
       | (Some (json, capabilities), a) \<Rightarrow> (TURBO_TOOL_OK, r\<lparr>tr_entries := tr_entries r @
           [tool_entry_of d policy ctx jctx result (the (parse_result_schema J result)) strict flags name description json capabilities]\<rparr>, a))"
proof -
  obtain name description parsed where v: "td_name d = Some name" "td_description d = Some description" "parse_result_schema J result = Some parsed"
    using assms by (auto simp: add_accepts_def)
  have guards: "(td_parameters_json d = None \<and> td_parameters_schema d = None) = False"
    "(Option.is_none (td_handler d) \<and> Option.is_none (td_json_value_handler d) \<and> Option.is_none ctx \<and> Option.is_none jctx) = False"
    "turbo_tool_execution_policy_valid policy" "(0 < n \<and> caps = None) = False" "(strict \<noteq> 0 \<and> strict \<noteq> 1) = False"
    "(strict \<noteq> 0 \<and> result = None) = False" "turbo_tool_effect_flags_valid flags"
    "capabilities_valid [] (take n (case caps of None \<Rightarrow> [] | Some cs \<Rightarrow> cs))"
    using assms by (auto simp: add_accepts_def is_none_iff)
  show ?thesis unfolding turbo_tool_registry_add_with_policy_def v guards(1,2,4-6) option.sel by (simp add: guards(3,7,8) Let_def)
qed

lemma add_result:
  assumes "turbo_tool_registry_add_with_policy J r d policy caps n ctx jctx result strict flags a = (s, r', a')"
  shows "(s \<noteq> TURBO_TOOL_OK \<and> tr_entries r' = tr_entries r \<and> tr_capacity r \<le> tr_capacity r') \<or>
    (s = TURBO_TOOL_OK \<and> add_accepts J d policy caps n ctx jctx result strict flags \<and> the (td_name d) \<notin> set (tool_names r) \<and>
     (\<exists>json. (\<forall>t. td_parameters_json d = Some t \<longrightarrow> json = t) \<and> tr_entries r' = tr_entries r @
       [tool_entry_of d policy ctx jctx result (the (parse_result_schema J result)) strict flags (the (td_name d)) (the (td_description d)) json
          (map the (take n (case caps of None \<Rightarrow> [] | Some cs \<Rightarrow> cs)))]) \<and>
     (length (tr_entries r) \<le> tr_capacity r \<longrightarrow> length (tr_entries r') \<le> tr_capacity r'))"
proof (cases "add_accepts J d policy caps n ctx jctx result strict flags")
  case False
  then show ?thesis using assms unfolding add_refused [OF False] by simp
next
  case True
  let ?req = "map the (take n (case caps of None \<Rightarrow> [] | Some cs \<Rightarrow> cs))"
  obtain s1 r1 a1 where 1: "turbo_tool_registry_reserve r a = (s1, r1, a1)" by (metis prod_cases3)
  obtain c a2 where 2: "entry_copies J d (the (td_name d)) (the (td_description d)) ?req result a1 = (c, a2)" by fastforce
  note eq = assms [unfolded add_accepted [OF True] Let_def 1 prod.case 2]
  note 3 = reserve_registry [OF 1]
  show ?thesis
  proof (cases "turbo_tool_registry_find r (the (td_name d)) \<noteq> None \<or> s1 \<noteq> TURBO_TOOL_OK \<or> c = None")
    case True
    then show ?thesis using eq 2 3 by (auto split: if_splits)
  next
    case False
    then obtain json capabilities where c: "c = Some (json, capabilities)" by auto
    have name: "the (td_name d) \<notin> set (tool_names r)" using registry_find_None_name False by blast
    show ?thesis using eq 3 name True False c entry_copies_result [OF 2 [unfolded c]] by (auto simp: Let_def)
  qed
qed

lemma tool_entry_ok:
  assumes "add_accepts J d policy caps n ctx jctx result strict flags"
  shows "entry_ok J M (tool_entry_of d policy ctx jctx result (the (parse_result_schema J result)) strict flags name description json
    (map the (take n (case caps of None \<Rightarrow> [] | Some cs \<Rightarrow> cs))))"
proof -
  have caps: "distinct (map the (take n (case caps of None \<Rightarrow> [] | Some cs \<Rightarrow> cs)))" "[] \<notin> set (map the (take n (case caps of None \<Rightarrow> [] | Some cs \<Rightarrow> cs)))"
    using assms capabilities_valid_distinct [of "[]"] by (simp_all add: add_accepts_def)
  obtain parsed where parsed: "parse_result_schema J result = Some parsed" using assms by (auto simp: add_accepts_def)
  moreover have "result \<noteq> None \<longrightarrow> parsed \<noteq> None"
    using parsed by (cases result; cases "jl_parse J (the result)") (auto simp: parse_result_schema_def split: if_splits, metis)
  ultimately show ?thesis using assms caps by (auto simp: entry_ok_def tool_entry_of_def add_accepts_def)
qed

definition registry_step :: "('j, 'd) json_lib \<Rightarrow> 'c cmeta_lib \<Rightarrow> turbo_tool_status_t \<Rightarrow> ('j, 'u, 'c) turbo_tool_registry \<Rightarrow>
    ('j, 'u, 'c) turbo_tool_registry \<Rightarrow> bool" where
  "registry_step J M s r r' \<longleftrightarrow>
     entries_step (entry_ok J M) (tr_entries r) (tr_entries r') \<and> (s \<noteq> TURBO_TOOL_OK \<longrightarrow> tr_entries r' = tr_entries r) \<and>
     (length (tr_entries r) \<le> tr_capacity r \<longrightarrow> length (tr_entries r') \<le> tr_capacity r')"

lemma registry_step_refl [simp]: "registry_step J M s r r"
  by (simp add: registry_step_def entries_kept)

lemma add_step:
  assumes "turbo_tool_registry_add_with_policy J r d policy caps n ctx jctx result strict flags a = (s, r', a')"
  shows "registry_step J M s r r'"
proof -
  have "entries_step (entry_ok J M) (tr_entries r) (tr_entries r @ [tool_entry_of d policy ctx jctx result (the (parse_result_schema J result)) strict flags
      (the (td_name d)) (the (td_description d)) json (map the (take n (case caps of None \<Rightarrow> [] | Some cs \<Rightarrow> cs)))])"
    if "add_accepts J d policy caps n ctx jctx result strict flags" "the (td_name d) \<notin> set (tool_names r)" for json
    using that by (intro entry_added tool_entry_ok) (simp_all add: tool_entry_of_def)
  then show ?thesis using add_result [OF assms] by (auto simp: registry_step_def intro: entries_kept)
qed

lemma update_step:
  assumes "i < length (tr_entries r)" and "entry_ok J M (tr_entries r ! i) \<Longrightarrow> entry_ok J M (f (tr_entries r ! i))"
    and "te_name (f (tr_entries r ! i)) = name_at r i"
  shows "registry_step J M TURBO_TOOL_OK r (update_entry i f r)"
  unfolding registry_step_def update_entry_def
  using entry_changed [of i "tr_entries r" "entry_ok J M" "f (tr_entries r ! i)"] assms by simp

lemma registry_find_less:
  "turbo_tool_registry_find r n = Some i \<Longrightarrow> i < length (tr_entries r)"
proof (cases "find (\<lambda>i. name_at r i = n) [0..<length (tr_entries r)]")
  case None
  assume "turbo_tool_registry_find r n = Some i"
  then have "i \<in> set [0..<length (tr_entries r)]"
    using only_match [of "[0..<length (tr_entries r)]" "\<lambda>i. turbo_tool_openai_compatible_name_equals (name_at r i) n" i] None
    by (simp add: turbo_tool_registry_find_def Let_def split: if_splits)
  then show ?thesis by simp
qed (auto simp: turbo_tool_registry_find_def find_index_Some)

lemma remove_step:
  assumes "turbo_tool_registry_remove r n w = (s, r', w')"
  shows "registry_step J M s r r'"
proof (cases "find (\<lambda>i. name_at r i = n) [0..<length (tr_entries r)]")
  case None
  then show ?thesis using assms by (simp add: turbo_tool_registry_remove_def)
next
  case (Some i)
  then have "i < length (tr_entries r)" by (simp add: find_index_Some)
  moreover have "s = TURBO_TOOL_OK" "r' = r\<lparr>tr_entries := take i (tr_entries r) @ drop (Suc i) (tr_entries r)\<rparr>"
    using assms Some by (simp_all add: turbo_tool_registry_remove_def Let_def)
  ultimately show ?thesis by (auto simp: registry_step_def intro: entry_removed)
qed

lemma capability_step:
  assumes "turbo_tool_registry_require_capability r n c a = (s, r', a')"
  shows "registry_step J M s r r'"
proof (cases "turbo_tool_registry_find r n")
  case None
  then show ?thesis using assms by (auto simp: turbo_tool_registry_require_capability_def split: if_splits)
next
  case (Some i)
  have "registry_step J M TURBO_TOOL_OK r (update_entry i (te_required_capabilities_update (\<lambda>cs. cs @ [c])) r)"
    if "c \<noteq> []" "c \<notin> set (te_required_capabilities (tr_entries r ! i))"
    by (rule update_step) (use that registry_find_less [OF Some] in \<open>auto simp: entry_ok_def\<close>)
  then show ?thesis using assms Some
    by (auto simp: turbo_tool_registry_require_capability_def turbo_tool_strdup_def split: if_splits option.splits prod.splits)
qed

lemma clone_value: "turbo_tool_registry_clone_json_value v a = (r, a') \<Longrightarrow> (a = [] \<longrightarrow> a' = []) \<and> (r = Some v \<or> (r = None \<and> a \<noteq> []))"
  by (cases a; cases "tl a") (auto simp: turbo_tool_registry_clone_json_value_def json_create_def split: if_splits)

lemma metadata_step:
  assumes "turbo_tool_registry_set_execution_metadata J r n m a = (s, r', a')"
  shows "registry_step J M s r r'"
proof (cases "turbo_tool_registry_find r n")
  case None
  then show ?thesis using assms by (auto simp: turbo_tool_registry_set_execution_metadata_def split: if_splits)
next
  case (Some i)
  have "registry_step J M TURBO_TOOL_OK r (update_entry i (te_execution_metadata_update (\<lambda>_. x)) r)"
    if "\<forall>y. x = Some y \<longrightarrow> jl_type J y = JSON_OBJECT" for x
    by (rule update_step) (use that registry_find_less [OF Some] in \<open>auto simp: entry_ok_def\<close>)
  then show ?thesis using assms Some
    by (auto simp: turbo_tool_registry_set_execution_metadata_def dest!: clone_value split: if_splits option.splits prod.splits)
qed

lemma projection_step:
  assumes "turbo_tool_registry_publish_native_projection M r n p = (s, r')"
  shows "registry_step J M s r r'"
proof (cases "turbo_tool_registry_find r n")
  case None
  then show ?thesis using assms by (auto simp: turbo_tool_registry_publish_native_projection_def split: if_splits)
next
  case (Some i)
  have "registry_step J M TURBO_TOOL_OK r (update_entry i (te_native_projection_update (\<lambda>_. Some b)) r)"
    if "te_effect_flags (tr_entries r ! i) = TURBO_TOOL_EFFECT_PURE \<longrightarrow> cm_effects_are_pure M (cm_function_effects M (np_function b))" for b
    by (rule update_step) (use that registry_find_less [OF Some] in \<open>auto simp: entry_ok_def\<close>)
  then show ?thesis using assms Some
    by (auto simp: turbo_tool_registry_publish_native_projection_def Let_def split: if_splits option.splits)
qed

lemmas registry_steps = add_step remove_step capability_step metadata_step projection_step

lemma in_world_step: "in_world f w = (s, r', w') \<Longrightarrow> \<exists>a'. f (ch_alloc w) = (s, r', a')"
  by (auto simp: in_world_def split: prod.splits)

lemma registry_op_step:
  assumes "apply_registry_op J M op w r = (s, r', w')"
  shows "registry_step J M s r r'"
proof -
  note add_defs = turbo_tool_registry_add_def turbo_tool_registry_add_v2_def turbo_tool_registry_add_v3_def
    turbo_tool_registry_add_v4_def turbo_tool_registry_add_v5_def turbo_tool_registry_add_v6_def
  show ?thesis using assms
    by (cases op) (auto simp: add_defs dest!: in_world_step intro: registry_steps split: if_splits prod.splits)
qed

interpretation registry: builder "apply_registry_op J M" "registry_inv J M" "tr_entries" TURBO_TOOL_OK
proof
  show "registry_inv J M r'" if "registry_inv J M r" "apply_registry_op J M op w r = (s, r', w')" for op w r s r' w'
    using registry_op_step [OF that(2)] entries_step_keeps [of "entry_ok J M" "tr_entries r" "tr_entries r'"] that(1)
    by (simp add: registry_inv_def registry_step_def)
  show "tr_entries r' = tr_entries r" if "apply_registry_op J M op w r = (s, r', w')" "s \<noteq> TURBO_TOOL_OK" for op w r s r' w'
    using registry_op_step [OF that(1)] that(2) by (simp add: registry_step_def)
qed

lemma new_registry: "turbo_tool_registry_create a = (Some r, a') \<Longrightarrow> registry_inv J M r"
    "turbo_tool_registry_create a = (Some r, a') \<Longrightarrow> tr_entries r = []"
  by (auto simp: turbo_tool_registry_create_def registry_inv_def split: prod.splits if_splits)

text \<open>C23. Every sequence of operations on a new registry, with any allocation failures and whatever the destructors of
  removed tools do, leaves distinct names and well-formed entries: each has a handler, an execution policy in range, effect flags that are
  known and consistent, distinct required capabilities, a result schema that is the parsed text and is there when results
  are strict, metadata that is an object, and no impure native function behind a tool declared pure. If no operation
  succeeded, the registry is still empty.\<close>

theorem tool_registry_well_formed:
  assumes "turbo_tool_registry_create a = (Some r, a')" and "run_ops (apply_registry_op J M) ops w r = (sts, r', w')"
  shows "registry_inv J M r' \<and> (TURBO_TOOL_OK \<notin> set sts \<longrightarrow> tr_entries r' = [])"
  using registry.run_inv [OF _ assms(2)] registry.run_failed [OF _ assms(2)] new_registry [OF assms(1)] by auto

definition no_cmeta :: "unit cmeta_lib" where
  "no_cmeta = \<lparr>cm_callable_size = 8, cm_function_desc_valid = (\<lambda>_. False), cm_function_abi_desc_valid = (\<lambda>_. False),
     cm_abi_function = (\<lambda>f. f), cm_function_desc_equal = (\<lambda>_ _. True), cm_callable_bind = Some, cm_fn_signature = Some,
     cm_signature_by_value = (\<lambda>_. True), cm_signature_params = (\<lambda>_. []), cm_signature_return_type = (\<lambda>f. f),
     cm_function_param_count = (\<lambda>_. 0), cm_function_param = (\<lambda>_ _. None), cm_function_return_type = (\<lambda>f. f),
     cm_type_equal = (\<lambda>_ _. True), cm_meta_effects = (\<lambda>_. 0), cm_meta_properties = (\<lambda>_. 0), cm_function_effects = (\<lambda>_. 0),
     cm_function_properties = (\<lambda>_. 0), cm_effects_are_pure = (\<lambda>e. e = 0)\<rparr>"

definition echo_tool :: "string \<Rightarrow> (jv, unit) turbo_tool_definition" where
  "echo_tool name = \<lparr>td_name = Some name, td_description = Some ''echo'', td_parameters_json = Some ''{}'',
     td_parameters_schema = Some (JObj []), td_strict = 0, td_handler = Some (\<lambda>args w. (0, Some args, w)),
     td_json_value_handler = None, td_user_data_free = None\<rparr>"

definition echo_ops :: "(jv, unit, unit) registry_op list" where
  "echo_ops = [Add_Tool (echo_tool ''fs.read''), Add_Tool (echo_tool ''calc''), Add_Tool (echo_tool ''calc''),
     Require_Capability ''calc'' ''math'']"

definition no_tools :: "(jv, unit, unit) turbo_tool_registry" where
  "no_tools = \<lparr>tr_entries = [], tr_capacity = 0\<rparr>"

definition echo_registry :: "(jv, unit, unit) turbo_tool_registry" where
  "echo_registry = fst (snd (run_ops (apply_registry_op ref_json no_cmeta) echo_ops quiet_world no_tools))"

lemma echo_names: "tool_names echo_registry = [''fs.read'', ''calc'']"
  by code_simp

lemma tool_registry_well_formed_witness:
  "registry_inv ref_json no_cmeta echo_registry \<and> tool_names echo_registry = [''fs.read'', ''calc'']"
proof -
  obtain sts w' where "run_ops (apply_registry_op ref_json no_cmeta) echo_ops quiet_world no_tools = (sts, echo_registry, w')"
    unfolding echo_registry_def by (metis prod.collapse)
  moreover have "turbo_tool_registry_create [] = (Some no_tools, [])" by (simp add: turbo_tool_registry_create_def no_tools_def)
  ultimately show ?thesis using tool_registry_well_formed echo_names by blast
qed

lemma echo_registry_inv: "registry_inv ref_json no_cmeta echo_registry"
proof -
  obtain sts w' where "run_ops (apply_registry_op ref_json no_cmeta) echo_ops quiet_world no_tools = (sts, echo_registry, w')"
    unfolding echo_registry_def by (metis prod.collapse)
  then show ?thesis by (rule registry.run_inv [rotated]) (simp add: registry_inv_def no_tools_def)
qed

subsection \<open>Names that lead back to the tools\<close>

lemma wire_name_Nil [simp]: "wire_name n = [] \<longleftrightarrow> n = []"
  by (simp add: wire_name_def)

lemma wire_name_idem [simp]: "wire_name (wire_name n) = wire_name n"
  by (simp add: wire_name_def turbo_tool_openai_name_char_valid_def)

lemma registry_find_wire_name:
  assumes "distinct (tool_names r)" and "i < length (tr_entries r)"
    and "\<And>j. j < length (tr_entries r) \<Longrightarrow> wire_name (name_at r j) = wire_name (name_at r i) \<Longrightarrow> j = i"
  shows "turbo_tool_registry_find r (wire_name (name_at r i)) = Some i"
proof (cases "wire_name (name_at r i) \<in> set (tool_names r)")
  case True
  then obtain k where k: "k < length (tr_entries r)" "name_at r k = wire_name (name_at r i)" by (auto simp: in_set_conv_nth)
  then have "k = i" using assms(3) [of k] by simp
  then show ?thesis using registry_find_name [OF assms(1) k(1)] k(2) by simp
next
  case False
  then show ?thesis using assms by (simp add: registry_find_Some)
qed

lemma compatible_name_result:
  "turbo_tool_schema_openai_compatible_name (Some n) a = (Some w, a') \<Longrightarrow> w = wire_name n \<and> n \<noteq> []"
  by (auto simp: turbo_tool_schema_openai_compatible_name_def wire_name_def split: list.splits prod.splits if_splits)

lemma get_definition_result:
  "i < length (tr_entries r) \<Longrightarrow> \<exists>d. turbo_tool_registry_get_definition r i = (TURBO_TOOL_OK, Some d) \<and> td_name d = Some (name_at r i)"
  by (simp add: turbo_tool_registry_get_definition_def Let_def)

lemma name_not_seen:
  "name_seen_loop r is w a = (False, a') \<Longrightarrow> set is \<subseteq> {..<length (tr_entries r)} \<Longrightarrow> \<forall>j \<in> set is. wire_name (name_at r j) \<noteq> w"
proof (induction "is" arbitrary: a)
  case (Cons i "is")
  obtain d where d: "turbo_tool_registry_get_definition r i = (TURBO_TOOL_OK, Some d)" "td_name d = Some (name_at r i)"
    using get_definition_result [of i r] Cons.prems(2) by auto
  obtain n a1 where 1: "turbo_tool_schema_openai_compatible_name (Some (name_at r i)) a = (n, a1)" by fastforce
  then obtain p where p: "n = Some p" "p \<noteq> w" "name_seen_loop r is w a1 = (False, a')"
    using Cons.prems(1) d by (auto split: option.splits if_splits)
  then show ?case using Cons.IH [OF p(3)] Cons.prems(2) compatible_name_result [OF 1 [unfolded p(1)]] by simp
qed simp

lemma built_tools:
  "build_tools J build r is tools a = (Some v, a') \<Longrightarrow> set is \<subseteq> {..<length (tr_entries r)} \<Longrightarrow>
    \<exists>ts. v = foldl (jl_array_add J) tools ts \<and> list_all2 (\<lambda>i t. \<exists>d b b'. build i d b = (Some t, b') \<and> td_name d = Some (name_at r i)) is ts"
proof (induction "is" arbitrary: tools a)
  case (Cons i "is")
  obtain d where d: "turbo_tool_registry_get_definition r i = (TURBO_TOOL_OK, Some d)" "td_name d = Some (name_at r i)"
    using get_definition_result [of i r] Cons.prems(2) by auto
  obtain x a1 where 1: "build i d a = (x, a1)" by fastforce
  then obtain t where t: "x = Some t" "build_tools J build r is (jl_array_add J tools t) a1 = (Some v, a')"
    using Cons.prems(1) d by (auto split: option.splits)
  obtain ts where ts: "v = foldl (jl_array_add J) (jl_array_add J tools t) ts"
    "list_all2 (\<lambda>i t. \<exists>d b b'. build i d b = (Some t, b') \<and> td_name d = Some (name_at r i)) is ts"
    using Cons.IH [OF t(2)] Cons.prems(2) by auto
  then show ?case using 1 t d(2) by (intro exI [of _ "t # ts"]) auto
qed simp

lemma built_tool_array:
  assumes "json_laws J" and "build_tool_array J build r a = (Some v, a')"
  shows "jl_array_size J v = length (tr_entries r)"
    "i < length (tr_entries r) \<Longrightarrow> \<exists>t d b b'. jl_array_get J v i = Some t \<and> build i d b = (Some t, b') \<and> td_name d = Some (name_at r i)"
proof -
  obtain b where b: "build_tools J build r [0..<length (tr_entries r)] (jl_array J) b = (Some v, a')"
    using assms(2) by (auto simp: build_tool_array_def turbo_tool_registry_count_def json_create_def split: option.splits prod.splits if_splits)
  have sub: "set [0..<length (tr_entries r)] \<subseteq> {..<length (tr_entries r)}" by auto
  obtain ts where ts: "v = foldl (jl_array_add J) (jl_array J) ts"
    "list_all2 (\<lambda>i t. \<exists>d b b'. build i d b = (Some t, b') \<and> td_name d = Some (name_at r i)) [0..<length (tr_entries r)] ts"
    using built_tools [OF b sub] by blast
  then have len: "length ts = length (tr_entries r)" by (simp add: list_all2_conv_all_nth)
  show "jl_array_size J v = length (tr_entries r)" by (simp add: ts(1) json_arr [OF assms(1)] len)
  show "\<exists>t d b b'. jl_array_get J v i = Some t \<and> build i d b = (Some t, b') \<and> td_name d = Some (name_at r i)" if "i < length (tr_entries r)"
    using ts that len by (simp add: json_arr [OF assms(1)] list_all2_conv_all_nth)
qed

lemma wire_named:
  assumes "with_wire_name J r build i d b = (Some t, b')" and "td_name d = Some (name_at r i)" and "i < length (tr_entries r)"
  shows "(\<forall>j < i. wire_name (name_at r j) \<noteq> wire_name (name_at r i)) \<and> name_at r i \<noteq> [] \<and>
    (\<exists>parameters c c'. build (wire_name (name_at r i)) parameters d c = (Some t, c'))"
proof -
  obtain n b1 where 1: "turbo_tool_schema_openai_compatible_name (Some (name_at r i)) b = (n, b1)" by fastforce
  then obtain w where w: "n = Some w" using assms(1,2) by (auto simp: with_wire_name_def split: option.splits)
  obtain seen b2 where 2: "turbo_tool_schema_openai_compatible_name_seen r i w b1 = (seen, b2)" by fastforce
  note nm = compatible_name_result [OF 1 [unfolded w]]
  have "\<not> seen" using assms(1,2) 1 2 w by (auto simp: with_wire_name_def split: if_splits)
  moreover have "\<exists>parameters c c'. build w parameters d c = (Some t, c')"
    using assms(1,2) 1 2 w by (auto simp: with_wire_name_def split: if_splits option.splits prod.splits)
  moreover have "set [0..<i] \<subseteq> {..<length (tr_entries r)}" using assms(3) by auto
  ultimately show ?thesis
    using 2 nm name_not_seen [of r "[0..<i]" w b1 b2] by (auto simp: turbo_tool_schema_openai_compatible_name_seen_def)
qed

lemma wire_named_all:
  assumes "json_laws J" and "distinct (tool_names r)" and "build_tool_array J (with_wire_name J r build) r a = (Some v, a')"
    and "i < length (tr_entries r)"
  shows "\<exists>t parameters d c c'. jl_array_get J v i = Some t \<and> build (wire_name (name_at r i)) parameters d c = (Some t, c') \<and>
    turbo_tool_registry_resolve_name r (wire_name (name_at r i)) = (TURBO_TOOL_OK, Some (name_at r i))"
proof -
  have named: "\<exists>t parameters d c c'. jl_array_get J v i = Some t \<and> (\<forall>j < i. wire_name (name_at r j) \<noteq> wire_name (name_at r i)) \<and>
      name_at r i \<noteq> [] \<and> build (wire_name (name_at r i)) parameters d c = (Some t, c')" if i: "i < length (tr_entries r)" for i
  proof -
    obtain t d b b' where t: "jl_array_get J v i = Some t" "with_wire_name J r build i d b = (Some t, b')" "td_name d = Some (name_at r i)"
      using built_tool_array(2) [OF assms(1,3) i] by auto
    then show ?thesis using wire_named [OF t(2,3) i] by blast
  qed
  have "j = i" if "j < length (tr_entries r)" "wire_name (name_at r j) = wire_name (name_at r i)" for j
    using named [OF assms(4)] named [OF that(1)] that(2) by (metis linorder_less_linear)
  then have "turbo_tool_registry_find r (wire_name (name_at r i)) = Some i"
    by (rule registry_find_wire_name [OF assms(2,4)])
  moreover obtain t parameters d c c' where t: "jl_array_get J v i = Some t" "name_at r i \<noteq> []"
    "build (wire_name (name_at r i)) parameters d c = (Some t, c')" using named [OF assms(4)] by blast
  ultimately have "turbo_tool_registry_resolve_name r (wire_name (name_at r i)) = (TURBO_TOOL_OK, Some (name_at r i))"
    by (simp add: turbo_tool_registry_resolve_name_def)
  then show ?thesis using t by blast
qed

lemma openai_tool_name:
  assumes "json_laws J" and "openai_tool J w parameters d a = (Some t, a')"
  shows "jl_get_string J t ''name'' = Some w"
proof -
  let ?t = "jl_set_string J (jl_set_string J (jl_object J) ''type'' ''function'') ''name'' w"
  let ?u = "case td_description d of Some x \<Rightarrow> jl_set_string J ?t ''description'' x | None \<Rightarrow> ?t"
  have t: "t = jl_object_add J (set_bool J ?u ''strict'' (td_strict d \<noteq> 0)) ''parameters'' parameters"
    using assms(2) by (cases "alloc1 a"; cases "fst (alloc1 a)") (auto simp: openai_tool_def json_create_def Let_def)
  have u: "jl_type J ?u = JSON_OBJECT" "jl_object_get J ?u ''name'' = Some (jl_string_of J w)"
    by (cases "td_description d"; simp add: json_obj [OF assms(1)])+
  then show ?thesis
    by (simp add: t json_obj [OF assms(1)] json_str [OF assms(1)] turbo_runtime_json_value_as_string_def)
qed

lemma chat_tool_name:
  assumes "json_laws J" and "turbo_tool_schema_build_openai_chat_tool_with_parameters J (Some w) description parameters strict compatible a = (Some t, a')"
  shows "\<exists>f. jl_object_get J t ''function'' = Some f \<and> jl_get_string J f ''name'' = Some w"
proof -
  obtain x where t: "t = chat_tool J w x parameters strict compatible"
    using assms(2) by (auto simp: turbo_tool_schema_build_openai_chat_tool_with_parameters_def split: option.splits prod.splits if_splits)
  show ?thesis
    by (cases compatible) (simp_all add: t chat_tool_def Let_def json_obj [OF assms(1)] json_str [OF assms(1)] turbo_runtime_json_value_as_string_def)
qed

lemma anthropic_tool_name:
  assumes "json_laws J" and "td_name d = Some n"
    and "(case turbo_tool_schema_parse_parameters J d a of
         (None, a) \<Rightarrow> (None, a)
       | (Some input_schema, a) \<Rightarrow>
          (case json_create a (jl_object J) of
             (None, a) \<Rightarrow> (None, a)
           | (Some tool, a) \<Rightarrow>
              (let tool = (case td_name d of Some n \<Rightarrow> jl_set_string J tool ''name'' n | None \<Rightarrow> tool);
                   tool = (case td_description d of Some d \<Rightarrow> jl_set_string J tool ''description'' d | None \<Rightarrow> tool)
               in (Some (jl_object_add J tool ''input_schema'' input_schema), a)))) = (Some t, a')"
  shows "jl_get_string J t ''name'' = Some n"
proof -
  let ?t = "jl_set_string J (jl_object J) ''name'' n"
  let ?u = "case td_description d of Some x \<Rightarrow> jl_set_string J ?t ''description'' x | None \<Rightarrow> ?t"
  obtain schema where t: "t = jl_object_add J ?u ''input_schema'' schema"
    using assms(2,3) by (auto simp: json_create_def Let_def split: option.splits prod.splits if_splits)
  have u: "jl_type J ?u = JSON_OBJECT" "jl_object_get J ?u ''name'' = Some (jl_string_of J n)"
    by (cases "td_description d"; simp add: json_obj [OF assms(1)])+
  then show ?thesis
    by (simp add: t json_obj [OF assms(1)] json_str [OF assms(1)] turbo_runtime_json_value_as_string_def)
qed

text \<open>An exported list whose names lead back: one element per tool, in order, under distinct names that resolve to the
  tools.\<close>

definition leads_back where
  "leads_back J r v name_of \<longleftrightarrow> jl_array_size J v = length (tr_entries r) \<and>
     (\<exists>ws. length ws = length (tr_entries r) \<and> distinct ws \<and>
       (\<forall>i < length (tr_entries r). \<exists>tool. jl_array_get J v i = Some tool \<and> name_of tool = Some (ws ! i) \<and>
          turbo_tool_registry_resolve_name r (ws ! i) = (TURBO_TOOL_OK, Some (name_at r i))))"

lemma leads_backI:
  assumes "distinct (tool_names r)" and "jl_array_size J v = length (tr_entries r)"
    and "\<And>i. i < length (tr_entries r) \<Longrightarrow> \<exists>tool w. jl_array_get J v i = Some tool \<and> name_of tool = Some w \<and>
      turbo_tool_registry_resolve_name r w = (TURBO_TOOL_OK, Some (name_at r i))"
  shows "leads_back J r v name_of"
proof -
  obtain f where f: "\<And>i. i < length (tr_entries r) \<Longrightarrow> \<exists>tool. jl_array_get J v i = Some tool \<and> name_of tool = Some (f i) \<and>
      turbo_tool_registry_resolve_name r (f i) = (TURBO_TOOL_OK, Some (name_at r i))" using assms(3) by metis
  have "inj_on f {..<length (tr_entries r)}"
  proof (rule inj_onI)
    fix i j assume ij: "i \<in> {..<length (tr_entries r)}" "j \<in> {..<length (tr_entries r)}" and "f i = f j"
    then have "name_at r i = name_at r j" using f [of i] f [of j] by auto
    then show "i = j" using nth_eq_iff_index_eq [OF assms(1), of i j] ij by auto
  qed
  then have "distinct (map f [0..<length (tr_entries r)])" by (simp add: distinct_map lessThan_atLeast0)
  then show ?thesis unfolding leads_back_def using assms(2) f
    by (intro conjI exI [of _ "map f [0..<length (tr_entries r)]"]) simp_all
qed

lemma own_name_resolves:
  assumes "distinct (tool_names r)" and "i < length (tr_entries r)" and "name_at r i \<noteq> []"
  shows "turbo_tool_registry_resolve_name r (name_at r i) = (TURBO_TOOL_OK, Some (name_at r i))"
proof -
  have "turbo_tool_registry_find r (name_at r i) = Some i" using registry_find_Some [OF assms(1), of "name_at r i" i] assms(2) by simp
  then show ?thesis using assms(3) by (simp add: turbo_tool_registry_resolve_name_def)
qed

text \<open>C36. The names that a registry is exported under lead back to its tools, for all four lists of tools for providers. A
  list that is built has one element per tool, in order; the names in it are distinct, and each resolves in the registry to
  exactly the tool it stands for. For the Responses interface and the compatible Chat interface these are the names with
  the characters that the provider does not admit replaced. The plain Chat interface and the Anthropic interface use the
  names as they are; for them no tool may have the empty name, which the registry accepts and does not resolve. (The
  setters of the JSON library whose results the builders ignore are taken to succeed.)\<close>

theorem exported_names_resolve:
  assumes "json_laws J" and "registry_inv J M r"
  shows "(turbo_tool_schema_build_openai_tools J r a = (Some v, a') \<longrightarrow>
      leads_back J r v (\<lambda>tool. jl_get_string J tool ''name'')) \<and>
    (turbo_tool_schema_build_openai_compatible_chat_tools J r a = (Some v, a') \<longrightarrow>
      leads_back J r v (\<lambda>tool. Option.bind (jl_object_get J tool ''function'') (\<lambda>f. jl_get_string J f ''name''))) \<and>
    ([] \<notin> set (tool_names r) \<longrightarrow> turbo_tool_schema_build_openai_chat_tools J r a = (Some v, a') \<longrightarrow>
      leads_back J r v (\<lambda>tool. Option.bind (jl_object_get J tool ''function'') (\<lambda>f. jl_get_string J f ''name''))) \<and>
    ([] \<notin> set (tool_names r) \<longrightarrow> turbo_tool_schema_build_anthropic_tools J r a = (Some v, a') \<longrightarrow>
      leads_back J r v (\<lambda>tool. jl_get_string J tool ''name''))"
proof (intro conjI impI)
  have names: "distinct (tool_names r)" using assms(2) by (simp add: registry_inv_def)
  note chat = chat_tool_name [OF assms(1)]
  {
    assume "turbo_tool_schema_build_openai_tools J r a = (Some v, a')"
    note b = this [unfolded turbo_tool_schema_build_openai_tools_def]
    show "leads_back J r v (\<lambda>tool. jl_get_string J tool ''name'')"
      using wire_named_all [OF assms(1) names b] openai_tool_name [OF assms(1)]
      by (intro leads_backI [OF names built_tool_array(1) [OF assms(1) b]]) blast
  next
    assume "turbo_tool_schema_build_openai_compatible_chat_tools J r a = (Some v, a')"
    note b = this [unfolded turbo_tool_schema_build_openai_compatible_chat_tools_def]
    show "leads_back J r v (\<lambda>tool. Option.bind (jl_object_get J tool ''function'') (\<lambda>f. jl_get_string J f ''name''))"
      using wire_named_all [OF assms(1) names b] chat
      by (intro leads_backI [OF names built_tool_array(1) [OF assms(1) b]]) fastforce
  next
    assume full: "[] \<notin> set (tool_names r)" and "turbo_tool_schema_build_openai_chat_tools J r a = (Some v, a')"
    note b = this(2) [unfolded turbo_tool_schema_build_openai_chat_tools_def]
    show "leads_back J r v (\<lambda>tool. Option.bind (jl_object_get J tool ''function'') (\<lambda>f. jl_get_string J f ''name''))"
    proof (rule leads_backI [OF names built_tool_array(1) [OF assms(1) b]])
      fix i assume i: "i < length (tr_entries r)"
      then have "name_at r i \<in> set (tool_names r)" by simp
      then have res: "turbo_tool_registry_resolve_name r (name_at r i) = (TURBO_TOOL_OK, Some (name_at r i))"
        using full by (intro own_name_resolves [OF names i]) metis
      obtain tool where "jl_array_get J v i = Some tool"
        "\<exists>f. jl_object_get J tool ''function'' = Some f \<and> jl_get_string J f ''name'' = Some (name_at r i)"
        using built_tool_array(2) [OF assms(1) b i] chat by (fastforce split: option.splits prod.splits)
      with res show "\<exists>tool w. jl_array_get J v i = Some tool \<and>
          Option.bind (jl_object_get J tool ''function'') (\<lambda>f. jl_get_string J f ''name'') = Some w \<and>
          turbo_tool_registry_resolve_name r w = (TURBO_TOOL_OK, Some (name_at r i))" by auto
    qed
  next
    assume full: "[] \<notin> set (tool_names r)" and "turbo_tool_schema_build_anthropic_tools J r a = (Some v, a')"
    note b = this(2) [unfolded turbo_tool_schema_build_anthropic_tools_def]
    show "leads_back J r v (\<lambda>tool. jl_get_string J tool ''name'')"
    proof (rule leads_backI [OF names built_tool_array(1) [OF assms(1) b]])
      fix i assume i: "i < length (tr_entries r)"
      then have "name_at r i \<in> set (tool_names r)" by simp
      then have res: "turbo_tool_registry_resolve_name r (name_at r i) = (TURBO_TOOL_OK, Some (name_at r i))"
        using full by (intro own_name_resolves [OF names i]) metis
      then show "\<exists>tool w. jl_array_get J v i = Some tool \<and> jl_get_string J tool ''name'' = Some w \<and>
          turbo_tool_registry_resolve_name r w = (TURBO_TOOL_OK, Some (name_at r i))"
        using built_tool_array(2) [OF assms(1) b i] anthropic_tool_name [OF assms(1)] by blast
    qed
  }
qed

lemma exported_names_resolve_witness:
  "\<exists>v v'. turbo_tool_schema_build_openai_tools ref_json echo_registry [] = (Some v, []) \<and>
     leads_back ref_json echo_registry v (\<lambda>tool. jl_get_string ref_json tool ''name'') \<and>
     turbo_tool_schema_build_anthropic_tools ref_json echo_registry [] = (Some v', []) \<and>
     leads_back ref_json echo_registry v' (\<lambda>tool. jl_get_string ref_json tool ''name'')"
proof -
  have "case turbo_tool_schema_build_openai_tools ref_json echo_registry [] of (v, a) \<Rightarrow> v \<noteq> None \<and> a = []"
    "case turbo_tool_schema_build_anthropic_tools ref_json echo_registry [] of (v, a) \<Rightarrow> v \<noteq> None \<and> a = []" by code_simp+
  then obtain v v' where v: "turbo_tool_schema_build_openai_tools ref_json echo_registry [] = (Some v, [])"
    "turbo_tool_schema_build_anthropic_tools ref_json echo_registry [] = (Some v', [])" by auto
  moreover have "[] \<notin> set (tool_names echo_registry)" by code_simp
  ultimately show ?thesis
    using exported_names_resolve [OF ref_json_laws echo_registry_inv, of "[]" v "[]"]
      exported_names_resolve [OF ref_json_laws echo_registry_inv, of "[]" v' "[]"] by auto
qed

subsection \<open>Projections and compositions\<close>

text \<open>The copy of an entry: it does not own the data of the handlers, and its native projection is bound again.\<close>

definition copied_entry :: "'c cmeta_lib \<Rightarrow> ('j, 'u, 'c) turbo_tool_entry \<Rightarrow> ('j, 'u, 'c) turbo_tool_entry" where
  "copied_entry M e = e\<lparr>te_parameters_json_serialized := False, te_user_data_free := None,
     te_native_projection := Option.bind (te_native_projection e) (turbo_tool_native_projection_bind M)\<rparr>"

lemma copied_name [simp]: "te_name (copied_entry M e) = te_name e"
  by (simp add: copied_entry_def)

lemma copied_handlers:
  "te_handler (copied_entry M e) = te_handler e" "te_json_value_handler (copied_entry M e) = te_json_value_handler e"
  "te_context_handler (copied_entry M e) = te_context_handler e"
  "te_json_value_context_handler (copied_entry M e) = te_json_value_context_handler e"
  by (simp_all add: copied_entry_def)

lemma add_copy:
  assumes "turbo_tool_registry_add_v6 J r (entry_definition e) a = (TURBO_TOOL_OK, r', a')" and "entry_ok J M e"
  shows "tr_entries r' = tr_entries r @ [e\<lparr>te_parameters_json_serialized := False, te_user_data_free := None,
      te_native_projection := None, te_execution_metadata := None\<rparr>] \<and> te_name e \<notin> set (tool_names r)"
proof -
  let ?d = "entry_definition e"
  have "turbo_tool_registry_add_with_policy J r (tv_definition ?d) (te_execution_policy e)
      (Some (map Some (te_required_capabilities e))) (length (te_required_capabilities e)) (te_context_handler e)
      (te_json_value_context_handler e) (te_result_schema_json e) (te_strict_result e) (te_effect_flags e) a = (TURBO_TOOL_OK, r', a')"
    using assms(1) by (simp add: turbo_tool_registry_add_v6_def definition_refused_def entry_definition_def sizeof_definition_def)
  from add_result [OF this] have name: "te_name e \<notin> set (tool_names r)"
    and entries: "tr_entries r' = tr_entries r @ [tool_entry_of (tv_definition ?d) (te_execution_policy e) (te_context_handler e)
      (te_json_value_context_handler e) (te_result_schema_json e) (the (parse_result_schema J (te_result_schema_json e))) (te_strict_result e)
      (te_effect_flags e) (te_name e) (te_description e) (te_parameters_json e) (te_required_capabilities e)]"
    by (auto simp: entry_definition_def comp_def)
  have "te_result_schema_json e = None \<Longrightarrow> te_strict_result e = 0"
    using assms(2) by (auto simp: entry_ok_def parse_result_schema_def)
  then have "tool_entry_of (tv_definition ?d) (te_execution_policy e) (te_context_handler e) (te_json_value_context_handler e)
      (te_result_schema_json e) (the (parse_result_schema J (te_result_schema_json e))) (te_strict_result e)
      (te_effect_flags e) (te_name e) (te_description e) (te_parameters_json e) (te_required_capabilities e) =
      e\<lparr>te_parameters_json_serialized := False, te_user_data_free := None, te_native_projection := None, te_execution_metadata := None\<rparr>"
    using assms(2)
    by (cases "te_result_schema_json e") (auto simp: tool_entry_of_def entry_definition_def entry_ok_def turbo_tool_effect_flags_normalize_def)
  then show ?thesis using entries name by simp
qed

lemma find_last:
  assumes "tr_entries r = es @ [e]" and "distinct (tool_names r)"
  shows "turbo_tool_registry_find r (te_name e) = Some (length es)"
  using registry_find_name [OF assms(2), of "length es"] assms(1) by simp

lemma metadata_copy:
  assumes "tr_entries r = es @ [e]" and "distinct (tool_names r)"
    and "turbo_tool_registry_set_execution_metadata J r (te_name e) (Some m) a = (TURBO_TOOL_OK, r', a')"
  shows "tr_entries r' = es @ [e\<lparr>te_execution_metadata := Some m\<rparr>]"
  using assms(3) find_last [OF assms(1,2)] assms(1)
  by (auto simp: turbo_tool_registry_set_execution_metadata_def update_entry_def dest!: clone_value split: if_splits prod.splits option.splits)

lemma projection_copy:
  assumes "tr_entries r = es @ [e]" and "distinct (tool_names r)"
    and "turbo_tool_registry_publish_native_projection M r (te_name e) p = (TURBO_TOOL_OK, r')"
  shows "\<exists>b. turbo_tool_native_projection_bind M p = Some b \<and> tr_entries r' = es @ [e\<lparr>te_native_projection := Some b\<rparr>]"
  using assms(3) find_last [OF assms(1,2)] assms(1)
  by (auto simp: turbo_tool_registry_publish_native_projection_def update_entry_def Let_def split: if_splits option.splits)

lemma copy_entry_result:
  assumes "copy_entry J M e r a = (TURBO_TOOL_OK, r', a')" and "entry_ok J M e" and "distinct (tool_names r)"
  shows "tr_entries r' = tr_entries r @ [copied_entry M e] \<and> te_name e \<notin> set (tool_names r)"
proof -
  let ?e0 = "e\<lparr>te_parameters_json_serialized := False, te_user_data_free := None, te_native_projection := None, te_execution_metadata := None\<rparr>"
  obtain s1 r1 a1 where 1: "turbo_tool_registry_add_v6 J r (entry_definition e) a = (s1, r1, a1)" by (metis prod_cases3)
  obtain s2 r2 a2 where 2: "(if s1 = TURBO_TOOL_OK \<and> te_execution_metadata e \<noteq> None
      then turbo_tool_registry_set_execution_metadata J r1 (te_name e) (te_execution_metadata e) a1 else (s1, r1, a1)) = (s2, r2, a2)"
    by (metis prod_cases3)
  have s2: "s2 = TURBO_TOOL_OK" using assms(1) 1 2 by (auto simp: copy_entry_def split: option.splits if_splits prod.splits)
  then have s1: "s1 = TURBO_TOOL_OK" using 2 by (auto split: if_splits)
  note added = add_copy [OF 1 [unfolded s1] assms(2)]
  then have d1: "distinct (tool_names r1)" using assms(3) by simp
  have e2: "tr_entries r2 = tr_entries r @ [?e0\<lparr>te_execution_metadata := te_execution_metadata e\<rparr>]"
  proof (cases "te_execution_metadata e")
    case (Some m)
    have "turbo_tool_registry_set_execution_metadata J r1 (te_name ?e0) (Some m) a1 = (TURBO_TOOL_OK, r2, a2)"
      using 2 Some s1 s2 by simp
    then show ?thesis using metadata_copy [OF conjunct1 [OF added] d1] Some by simp
  qed (use 2 added s1 in simp)
  then have d2: "distinct (tool_names r2)" using assms(3) added by simp
  show ?thesis
  proof (cases "te_native_projection e")
    case None
    then have "r' = r2" using assms(1) 1 2 by (simp add: copy_entry_def)
    then show ?thesis using e2 added None by (simp add: copied_entry_def)
  next
    case (Some p)
    let ?e2 = "?e0\<lparr>te_execution_metadata := te_execution_metadata e\<rparr>"
    have pub: "turbo_tool_registry_publish_native_projection M r2 (te_name ?e2) p = (TURBO_TOOL_OK, r')"
      using assms(1) 1 2 Some s2 by (simp add: copy_entry_def split: prod.splits)
    show ?thesis using projection_copy [OF e2 d2 pub] added Some by (auto simp: copied_entry_def)
  qed
qed

lemma project_loop_result:
  "project_loop J M source previous names p a = (s, out, a') \<Longrightarrow> \<forall>e \<in> set (tr_entries source). entry_ok J M e \<Longrightarrow>
    distinct (tool_names p) \<Longrightarrow>
    case out of None \<Rightarrow> s \<noteq> TURBO_TOOL_OK
    | Some p' \<Rightarrow> s = TURBO_TOOL_OK \<and> distinct (tool_names p') \<and>
        (\<exists>es. set es \<subseteq> set (tr_entries source) \<and> map (Some \<circ> te_name) es = names \<and> tr_entries p' = tr_entries p @ map (copied_entry M) es)"
proof (induction names arbitrary: previous p a)
  case (Cons name names)
  show ?case
  proof (cases "(case name of None \<Rightarrow> True | Some n \<Rightarrow> n = [] \<or> n \<in> set previous \<or> find (\<lambda>e. te_name e = n) (tr_entries source) = None)")
    case True
    then show ?thesis using Cons.prems(1) by (auto split: option.splits if_splits)
  next
    case False
    then obtain n e where n: "name = Some n" "n \<noteq> []" "n \<notin> set previous" "find (\<lambda>e. te_name e = n) (tr_entries source) = Some e"
      by (auto split: option.splits)
    then have e: "e \<in> set (tr_entries source)" "te_name e = n" by (auto simp: find_Some_iff)
    obtain s1 p1 a1 where 1: "copy_entry J M e p a = (s1, p1, a1)" by (metis prod_cases3)
    show ?thesis
    proof (cases "s1 = TURBO_TOOL_OK")
      case False
      then show ?thesis using Cons.prems(1) n 1 by auto
    next
      case True
      note copied = copy_entry_result [OF 1 [unfolded True] _ Cons.prems(3)]
      have "entry_ok J M e" using Cons.prems(2) e(1) by blast
      then have p1: "tr_entries p1 = tr_entries p @ [copied_entry M e]" "distinct (tool_names p1)"
        using copied Cons.prems(3) by auto
      have "project_loop J M source (previous @ [n]) names p1 a1 = (s, out, a')"
        using Cons.prems(1) n 1 True by simp
      note ih = Cons.IH [OF this Cons.prems(2) p1(2)]
      show ?thesis
      proof (cases out)
        case None
        then show ?thesis using ih by simp
      next
        case (Some p')
        then obtain es where es: "s = TURBO_TOOL_OK" "distinct (tool_names p')" "set es \<subseteq> set (tr_entries source)"
          "map (Some \<circ> te_name) es = names" "tr_entries p' = tr_entries p1 @ map (copied_entry M) es" using ih by auto
        have "map (Some \<circ> te_name) (e # es) = name # names" "set (e # es) \<subseteq> set (tr_entries source)"
          "tr_entries p' = tr_entries p @ map (copied_entry M) (e # es)" using es(3-5) e n(1) p1(1) by simp_all
        with es(1,2) show ?thesis unfolding Some option.case by (intro conjI exI [of _ "e # es"])
      qed
    qed
  qed
qed (auto split: option.splits)

lemma copy_entries_result:
  "copy_entries J M es r a = (s, r', a') \<Longrightarrow> \<forall>e \<in> set es. entry_ok J M e \<Longrightarrow> distinct (tool_names r) \<Longrightarrow> s = TURBO_TOOL_OK \<Longrightarrow>
    distinct (tool_names r') \<and> tr_entries r' = tr_entries r @ map (copied_entry M) es"
proof (induction es arbitrary: r a)
  case (Cons e es)
  obtain s1 r1 a1 where 1: "copy_entry J M e r a = (s1, r1, a1)" by (metis prod_cases3)
  have s1: "s1 = TURBO_TOOL_OK" using Cons.prems(1,4) 1 by (auto split: if_splits)
  have "tr_entries r1 = tr_entries r @ [copied_entry M e]" "distinct (tool_names r1)"
    using copy_entry_result [OF 1 [unfolded s1] _ Cons.prems(3)] Cons.prems(2,3) by auto
  moreover have "copy_entries J M es r1 a1 = (s, r', a')" "\<forall>e \<in> set es. entry_ok J M e" using Cons.prems(1,2) 1 s1 by simp_all
  ultimately have "distinct (tool_names r')" "tr_entries r' = tr_entries r1 @ map (copied_entry M) es"
    using Cons.IH Cons.prems(4) by blast+
  then show ?case using \<open>tr_entries r1 = tr_entries r @ [copied_entry M e]\<close> by (intro conjI) simp_all
qed simp

lemma compose_loop_result:
  "compose_loop J M sources r a = (s, out, a') \<Longrightarrow> \<forall>x \<in> set sources. \<forall>src. x = Some src \<longrightarrow> registry_inv J M src \<Longrightarrow> distinct (tool_names r) \<Longrightarrow>
    case out of None \<Rightarrow> s \<noteq> TURBO_TOOL_OK
    | Some r' \<Rightarrow> s = TURBO_TOOL_OK \<and> distinct (tool_names r') \<and> None \<notin> set sources \<and>
        tr_entries r' = tr_entries r @ map (copied_entry M) (concat (map (tr_entries \<circ> the) sources))"
proof (induction sources arbitrary: r a)
  case (Cons x sources)
  show ?case
  proof (cases x)
    case None
    then show ?thesis using Cons.prems(1) by auto
  next
    case (Some src)
    obtain s1 r1 a1 where 1: "copy_entries J M (tr_entries src) r a = (s1, r1, a1)" by (metis prod_cases3)
    show ?thesis
    proof (cases "s1 = TURBO_TOOL_OK")
      case False
      then show ?thesis using Cons.prems(1) Some 1 by auto
    next
      case True
      have "\<forall>e \<in> set (tr_entries src). entry_ok J M e" using Cons.prems(2) Some by (simp add: registry_inv_def)
      note r1 = copy_entries_result [OF 1 this Cons.prems(3) True]
      have "compose_loop J M sources r1 a1 = (s, out, a')" using Cons.prems(1) Some 1 True by simp
      moreover have "\<forall>x \<in> set sources. \<forall>src. x = Some src \<longrightarrow> registry_inv J M src" using Cons.prems(2) by simp
      ultimately have ih: "case out of None \<Rightarrow> s \<noteq> TURBO_TOOL_OK
        | Some r' \<Rightarrow> s = TURBO_TOOL_OK \<and> distinct (tool_names r') \<and> None \<notin> set sources \<and>
            tr_entries r' = tr_entries r1 @ map (copied_entry M) (concat (map (tr_entries \<circ> the) sources))"
        using Cons.IH conjunct1 [OF r1] by blast
      show ?thesis
      proof (cases out)
        case None
        then show ?thesis using ih by simp
      next
        case out: (Some r')
        note ih' = ih [unfolded out option.case]
        have "tr_entries r' = tr_entries r @ map (copied_entry M) (concat (map (tr_entries \<circ> the) (x # sources)))" "None \<notin> set (x # sources)"
          using ih' r1 Some by simp_all
        with ih' show ?thesis unfolding out option.case by blast
      qed
    qed
  qed
qed auto

text \<open>Two registries execute a tool the same way, through each of the four interfaces.\<close>

definition same_execution :: "string \<Rightarrow> ('j, 'u, 'c) turbo_tool_registry \<Rightarrow> ('j, 'u, 'c) turbo_tool_registry \<Rightarrow> bool" where
  "same_execution n r r' \<longleftrightarrow>
     (\<forall>args w. turbo_tool_registry_execute r n args w = turbo_tool_registry_execute r' n args w) \<and>
     (\<forall>args ctx w. turbo_tool_registry_execute_with_context r n args ctx w = turbo_tool_registry_execute_with_context r' n args ctx w) \<and>
     (\<forall>args w. turbo_tool_registry_execute_json_value r n args w = turbo_tool_registry_execute_json_value r' n args w) \<and>
     (\<forall>args ctx w. turbo_tool_registry_execute_json_value_with_context r n args ctx w =
        turbo_tool_registry_execute_json_value_with_context r' n args ctx w)"

lemma found_entry:
  assumes "distinct (tool_names r)" and "e \<in> set (tr_entries r)"
  shows "\<exists>i. turbo_tool_registry_find r (te_name e) = Some i \<and> tr_entries r ! i = e"
  using registry_find_name [OF assms(1)] assms(2) by (auto simp: in_set_conv_nth)

lemma copied_executes:
  assumes "distinct (tool_names r)" and "distinct (tool_names r')" and "e \<in> set (tr_entries r)" and "copied_entry M e \<in> set (tr_entries r')"
  shows "same_execution (te_name e) r' r"
proof -
  obtain i where i: "turbo_tool_registry_find r (te_name e) = Some i" "tr_entries r ! i = e" using found_entry [OF assms(1,3)] by auto
  obtain k where k: "turbo_tool_registry_find r' (te_name e) = Some k" "tr_entries r' ! k = copied_entry M e"
    using found_entry [OF assms(2,4)] by auto
  show ?thesis
    by (simp add: same_execution_def turbo_tool_registry_execute_def turbo_tool_registry_execute_with_context_def
        turbo_tool_registry_execute_json_value_def turbo_tool_registry_execute_json_value_with_context_def i k copied_handlers cong: option.case_cong)
qed

text \<open>C24. A projection has exactly the tools that were named, in that order, and a composition exactly those of its sources,
  in order; each of them is executed, through any of the four interfaces, as in the registry it comes from. A call
  that does not return a registry reports a failure.\<close>

theorem copied_registries_execute_same:
  assumes "registry_inv J M source" and "\<forall>x \<in> set sources. \<forall>src. x = Some src \<longrightarrow> registry_inv J M src"
  shows "(case turbo_tool_registry_project J M source names a of
      (s, None, a') \<Rightarrow> s \<noteq> TURBO_TOOL_OK
    | (s, Some r, a') \<Rightarrow> s = TURBO_TOOL_OK \<and> distinct names \<and> map Some (tool_names r) = names \<and>
        (\<forall>n \<in> set (tool_names r). n \<in> set (tool_names source) \<and> same_execution n r source)) \<and>
    (case turbo_tool_registry_compose J M sources a of
      (s, None, a') \<Rightarrow> s \<noteq> TURBO_TOOL_OK
    | (s, Some r, a') \<Rightarrow> s = TURBO_TOOL_OK \<and> None \<notin> set sources \<and> tool_names r = concat (map (tool_names \<circ> the) sources) \<and>
        (\<forall>src \<in> the ` set sources. \<forall>n \<in> set (tool_names src). same_execution n r src))"
proof
  have src: "distinct (tool_names source)" "\<forall>e \<in> set (tr_entries source). entry_ok J M e" using assms(1) by (simp_all add: registry_inv_def)
  obtain s out a' where p: "turbo_tool_registry_project J M source names a = (s, out, a')" by (metis prod_cases3)
  show "case turbo_tool_registry_project J M source names a of
      (s, None, a') \<Rightarrow> s \<noteq> TURBO_TOOL_OK
    | (s, Some r, a') \<Rightarrow> s = TURBO_TOOL_OK \<and> distinct names \<and> map Some (tool_names r) = names \<and>
        (\<forall>n \<in> set (tool_names r). n \<in> set (tool_names source) \<and> same_execution n r source)"
  proof (cases out)
    case None
    have "s = TURBO_TOOL_OUT_OF_MEMORY \<or> (\<exists>x b. turbo_tool_registry_create a = (Some x, b) \<and> project_loop J M source [] names x b = (s, None, a'))"
      using p None by (auto simp: turbo_tool_registry_project_def split: option.splits prod.splits)
    then have "s \<noteq> TURBO_TOOL_OK"
      using project_loop_result [OF _ src(2), of "[]" names _ _ s None] new_registry(2) by fastforce
    then show ?thesis by (simp add: p None)
  next
    case (Some r)
    obtain x b where new: "turbo_tool_registry_create a = (Some x, b)" "project_loop J M source [] names x b = (s, Some r, a')"
      using p Some by (auto simp: turbo_tool_registry_project_def split: option.splits prod.splits)
    have e: "tr_entries x = []" by (rule new_registry(2) [OF new(1)])
    obtain es where es: "s = TURBO_TOOL_OK" "distinct (tool_names r)" "set es \<subseteq> set (tr_entries source)"
      "map (Some \<circ> te_name) es = names" "tr_entries r = map (copied_entry M) es"
      using project_loop_result [OF new(2) src(2)] e by auto
    have names: "tool_names r = map te_name es" by (simp add: es(5))
    have "same_execution (te_name e) r source \<and> te_name e \<in> set (tool_names source)" if "e \<in> set es" for e
      using copied_executes [OF src(1) es(2), of e] that es(3,5) by auto
    moreover have "distinct names" using es(2,4) names by (simp add: distinct_map inj_on_def comp_def flip: es(4))
    ultimately show ?thesis using es(1,4) names by (auto simp: p Some)
  qed
  obtain s out a' where p: "turbo_tool_registry_compose J M sources a = (s, out, a')" by (metis prod_cases3)
  show "case turbo_tool_registry_compose J M sources a of
      (s, None, a') \<Rightarrow> s \<noteq> TURBO_TOOL_OK
    | (s, Some r, a') \<Rightarrow> s = TURBO_TOOL_OK \<and> None \<notin> set sources \<and> tool_names r = concat (map (tool_names \<circ> the) sources) \<and>
        (\<forall>src \<in> the ` set sources. \<forall>n \<in> set (tool_names src). same_execution n r src)"
  proof -
    consider "s = TURBO_TOOL_OUT_OF_MEMORY" "out = None"
      | r0 b where "turbo_tool_registry_create a = (Some r0, b)" "compose_loop J M sources r0 b = (s, out, a')"
      using p by (auto simp: turbo_tool_registry_compose_def split: option.splits prod.splits)
    then show ?thesis
    proof cases
      case 1
      then show ?thesis by (simp add: p)
    next
      case (2 r0 b)
      have r0: "tr_entries r0 = []" by (rule new_registry(2) [OF 2(1)])
      note loop = 2(2)
      have d0: "distinct (tool_names r0)" by (simp add: r0)
      note res = compose_loop_result [OF loop assms(2) d0]
      show ?thesis
      proof (cases out)
        case None
        then show ?thesis using res by (simp add: p)
      next
        case out: (Some r)
        then have r: "s = TURBO_TOOL_OK" "distinct (tool_names r)" "None \<notin> set sources"
          "tr_entries r = map (copied_entry M) (concat (map (tr_entries \<circ> the) sources))" using res r0 by auto
        have "same_execution (te_name e) r src" if "Some src \<in> set sources" "e \<in> set (tr_entries src)" for src e
        proof (rule copied_executes [OF _ r(2) that(2)])
          show "distinct (tool_names src)" using assms(2) that(1) by (auto simp: registry_inv_def)
          show "copied_entry M e \<in> set (tr_entries r)" using that r(4) by force
        qed
        moreover have "\<exists>src. x = Some src" if "x \<in> set sources" for x using that r(3) by (metis not_None_eq)
        ultimately have "\<forall>src \<in> the ` set sources. \<forall>n \<in> set (tool_names src). same_execution n r src" by fastforce
        moreover have "tool_names r = concat (map (tool_names \<circ> the) sources)" by (simp add: r(4) map_concat comp_def)
        ultimately show ?thesis using r(1,3) by (simp add: p out)
      qed
    qed
  qed
qed

lemma copied_registries_execute_same_witness:
  "\<exists>r a'. turbo_tool_registry_project ref_json no_cmeta echo_registry [Some ''calc''] [] = (TURBO_TOOL_OK, Some r, a') \<and>
     same_execution ''calc'' r echo_registry"
proof -
  have "case turbo_tool_registry_project ref_json no_cmeta echo_registry [Some ''calc''] [] of (s, out, a) \<Rightarrow> s = TURBO_TOOL_OK \<and> \<not> Option.is_none out"
    by code_simp
  then obtain r a' where r: "turbo_tool_registry_project ref_json no_cmeta echo_registry [Some ''calc''] [] = (TURBO_TOOL_OK, Some r, a')"
    by (auto simp: Option.is_none_def split: option.splits)
  then show ?thesis
    using copied_registries_execute_same [OF echo_registry_inv, of "[]" "[Some ''calc'']" "[]"] by auto
qed

subsection \<open>Names that differ only on the wire\<close>

text \<open>Whether two tools whose names agree on the wire can be registered depends on the order, and a registry that has both cannot
  be exported, nor projected in the other order.\<close>

definition clash_registry :: "(jv, unit, unit) turbo_tool_registry" where
  "clash_registry = fst (snd (run_ops (apply_registry_op ref_json no_cmeta)
     [Add_Tool (echo_tool ''a_b''), Add_Tool (echo_tool ''a.b'')] quiet_world no_tools))"

lemma wire_names_clash:
  "fst (run_ops (apply_registry_op ref_json no_cmeta) [Add_Tool (echo_tool ''a.b''), Add_Tool (echo_tool ''a_b'')] quiet_world no_tools) =
     [TURBO_TOOL_OK, TURBO_TOOL_DUPLICATE]"
  "fst (run_ops (apply_registry_op ref_json no_cmeta) [Add_Tool (echo_tool ''a_b''), Add_Tool (echo_tool ''a.b'')] quiet_world no_tools) =
     [TURBO_TOOL_OK, TURBO_TOOL_OK]"
  "fst (turbo_tool_schema_build_openai_tools ref_json clash_registry []) = None"
  "fst (turbo_tool_registry_project ref_json no_cmeta clash_registry [Some ''a.b'', Some ''a_b''] []) = TURBO_TOOL_DUPLICATE"
  by code_simp+

text \<open>A strict tool whose parameters are given as a value is closed in the lists for providers, but not in the description of the
  registry; given as a text, it is closed in both.\<close>

definition strict_definition :: "(jv, unit) turbo_tool_definition" where
  "strict_definition = (echo_tool ''s'')\<lparr>td_strict := 1\<rparr>"

lemma registry_description_not_closed:
  "map_option (\<lambda>p. jl_object_get ref_json p ''additionalProperties'') (fst (turbo_tool_schema_parse_parameters ref_json strict_definition [])) = Some (Some (JBool False))"
  "map_option (\<lambda>t. map_option (\<lambda>p. jl_object_get ref_json p ''additionalProperties'') (jl_object_get ref_json t ''parameters''))
     (fst (registry_tool ref_json strict_definition [])) = Some (Some None)"
  by code_simp+

end
