(* ===== verification/Schema_Promises.thy ===== *)
theory Schema_Promises
  imports Tool_Promises
begin

section \<open>The schema validator decides the supported part of JSON Schema\<close>

text \<open>
  \<open>matches_schema\<close> says what the supported keywords demand of a value, keyword by keyword and without an order; \<open>schema_ok\<close> says when a
  schema is well formed, within a number of levels. The validator accepts only values that conform, and on a well-formed
  schema it accepts exactly these and calls every other value invalid. A check \<open>settles\<close> a demand when passing it implies the
  demand, and \<open>decides\<close> it when it also passes every value that meets it and refuses the rest as invalid values.
\<close>

subsection \<open>Checks and demands\<close>

definition settles :: "check \<Rightarrow> bool \<Rightarrow> bool" where
  "settles c P \<longleftrightarrow> (c = None \<longrightarrow> P)"

definition decides :: "check \<Rightarrow> bool \<Rightarrow> bool" where
  "decides c P \<longleftrightarrow> c = None \<and> P \<or> (\<exists>m. c = Some (TURBO_TOOL_SCHEMA_VALUE_INVALID, m)) \<and> \<not> P"

lemma first_failed_None: "first_failed cs = None \<longleftrightarrow> (\<forall>c \<in> set cs. c = None)"
  by (induction cs) (auto split: option.split)

lemma settles_all: "list_all2 settles cs Ps \<Longrightarrow> settles (first_failed cs) (\<forall>P \<in> set Ps. P)"
  by (induction cs Ps rule: list_all2_induct) (auto simp: settles_def split: option.splits)

lemma decides_all: "list_all2 decides cs Ps \<Longrightarrow> decides (first_failed cs) (\<forall>P \<in> set Ps. P)"
  by (induction cs Ps rule: list_all2_induct) (auto simp: decides_def split: option.splits)

lemma settles_map: "(\<And>x. x \<in> set xs \<Longrightarrow> settles (f x) (P x)) \<Longrightarrow> settles (first_failed (map f xs)) (\<forall>x \<in> set xs. P x)"
  using settles_all [of "map f xs" "map P xs"] by (simp add: list.rel_map list_all2_same)

lemma decides_map: "(\<And>x. x \<in> set xs \<Longrightarrow> decides (f x) (P x)) \<Longrightarrow> decides (first_failed (map f xs)) (\<forall>x \<in> set xs. P x)"
  using decides_all [of "map f xs" "map P xs"] by (simp add: list.rel_map list_all2_same)

subsection \<open>What keywords demand\<close>

definition element :: "('j, 'd) json_lib \<Rightarrow> 'j \<Rightarrow> 'j \<Rightarrow> bool" where
  "element J arr x \<longleftrightarrow> (\<exists>i. i < jl_array_size J arr \<and> jl_array_get J arr i = Some x)"

definition of_type :: "('j, 'd) json_lib \<Rightarrow> 'd c_doubles \<Rightarrow> 'j \<Rightarrow> string \<Rightarrow> bool" where
  "of_type J D v name \<longleftrightarrow>
     (name, jl_type J v) \<in> {(''object'', JSON_OBJECT), (''array'', JSON_ARRAY), (''string'', JSON_STRING), (''boolean'', JSON_BOOL),
                            (''null'', JSON_NULL)} \<or>
     name = ''number'' \<and> jl_type J v = JSON_NUMBER \<and> cd_isfinite D (jl_number J v) \<or>
     name = ''integer'' \<and> jl_type J v = JSON_NUMBER \<and> cd_isfinite D (jl_number J v) \<and> cd_integral D (jl_number J v)"

definition known_types :: "string set" where
  "known_types = {''object'', ''array'', ''string'', ''number'', ''integer'', ''boolean'', ''null''}"

definition type_admits :: "('j, 'd) json_lib \<Rightarrow> 'd c_doubles \<Rightarrow> 'j \<Rightarrow> 'j \<Rightarrow> bool" where
  "type_admits J D v s \<longleftrightarrow>
     (\<forall>t. jl_object_get J s ''type'' = Some t \<longrightarrow>
        (if jl_type J t = JSON_STRING then of_type J D v (jl_string J t)
         else \<exists>e. element J t e \<and> jl_type J e = JSON_STRING \<and> of_type J D v (jl_string J e)))"

text \<open>Two values are the same when they have the same tree, whatever the order of members.\<close>

inductive json_same for J D where
  "\<lbrakk>jl_type J l = jl_type J r;
    jl_type J l = JSON_BOOL \<Longrightarrow> jl_bool J l = jl_bool J r;
    jl_type J l = JSON_NUMBER \<Longrightarrow> cd_eq D (jl_number J l) (jl_number J r);
    jl_type J l = JSON_STRING \<Longrightarrow> jl_string J l = jl_string J r;
    jl_type J l = JSON_ARRAY \<Longrightarrow> jl_array_size J l = jl_array_size J r;
    \<And>i x y. jl_type J l = JSON_ARRAY \<Longrightarrow> jl_array_get J l i = Some x \<Longrightarrow> jl_array_get J r i = Some y \<Longrightarrow> json_same J D x y;
    jl_type J l = JSON_OBJECT \<Longrightarrow> dom (jl_object_get J l) = dom (jl_object_get J r);
    \<And>k x y. jl_type J l = JSON_OBJECT \<Longrightarrow> jl_object_get J l k = Some x \<Longrightarrow> jl_object_get J r k = Some y \<Longrightarrow> json_same J D x y\<rbrakk>
   \<Longrightarrow> json_same J D l r"

text \<open>A value of at most \<open>n\<close> levels.\<close>

inductive levels for J where
  "\<lbrakk>\<And>i x. jl_type J v = JSON_ARRAY \<Longrightarrow> jl_array_get J v i = Some x \<Longrightarrow> levels J n x;
    \<And>k x. jl_type J v = JSON_OBJECT \<Longrightarrow> jl_object_get J v k = Some x \<Longrightarrow> levels J n x\<rbrakk> \<Longrightarrow> levels J (Suc n) v"

definition enum_admits :: "('j, 'd) json_lib \<Rightarrow> 'd c_doubles \<Rightarrow> 'j \<Rightarrow> 'j \<Rightarrow> bool" where
  "enum_admits J D v s \<longleftrightarrow> (\<forall>vs. jl_object_get J s ''enum'' = Some vs \<longrightarrow> (\<exists>e. element J vs e \<and> json_same J D v e))"

definition const_admits :: "('j, 'd) json_lib \<Rightarrow> 'd c_doubles \<Rightarrow> 'j \<Rightarrow> 'j \<Rightarrow> bool" where
  "const_admits J D v s \<longleftrightarrow> (\<forall>c. jl_object_get J s ''const'' = Some c \<longrightarrow> json_same J D v c)"

definition number_admits :: "('j, 'd) json_lib \<Rightarrow> 'd c_doubles \<Rightarrow> 'j \<Rightarrow> 'j \<Rightarrow> bool" where
  "number_admits J D v s \<longleftrightarrow>
     (jl_type J v = JSON_NUMBER \<longrightarrow>
        (\<forall>b. jl_object_get J s ''minimum'' = Some b \<longrightarrow> \<not> cd_less D (jl_number J v) (jl_number J b)) \<and>
        (\<forall>b. jl_object_get J s ''maximum'' = Some b \<longrightarrow> \<not> cd_less D (jl_number J b) (jl_number J v)) \<and>
        (\<forall>b. jl_object_get J s ''exclusiveMinimum'' = Some b \<longrightarrow> \<not> cd_less_eq D (jl_number J v) (jl_number J b)) \<and>
        (\<forall>b. jl_object_get J s ''exclusiveMaximum'' = Some b \<longrightarrow> \<not> cd_less_eq D (jl_number J b) (jl_number J v)))"

definition size_admits :: "('j, 'd) json_lib \<Rightarrow> 'd c_doubles \<Rightarrow> 'j \<Rightarrow> string \<Rightarrow> string \<Rightarrow> nat \<Rightarrow> bool" where
  "size_admits J D s least most n \<longleftrightarrow>
     (\<forall>b. jl_object_get J s least = Some b \<longrightarrow> cd_size_of D (jl_number J b) \<le> n) \<and>
     (\<forall>b. jl_object_get J s most = Some b \<longrightarrow> n \<le> cd_size_of D (jl_number J b))"

definition required_admits :: "('j, 'd) json_lib \<Rightarrow> 'j \<Rightarrow> 'j \<Rightarrow> bool" where
  "required_admits J v s \<longleftrightarrow>
     (\<forall>r e. jl_object_get J s ''required'' = Some r \<longrightarrow> element J r e \<longrightarrow> jl_object_get J v (jl_string J e) \<noteq> None)"

definition listed :: "('j, 'd) json_lib \<Rightarrow> 'j \<Rightarrow> string \<Rightarrow> bool" where
  "listed J s k \<longleftrightarrow> (\<exists>ps. jl_object_get J s ''properties'' = Some ps \<and> jl_object_get J ps k \<noteq> None)"

inductive matches_schema for J D where
  "\<lbrakk>type_admits J D v s; enum_admits J D v s; const_admits J D v s; number_admits J D v s;
    jl_type J v = JSON_STRING \<Longrightarrow>
      size_admits J D s ''minLength'' ''maxLength'' (turbo_tool_schema_utf8_codepoint_count (jl_string J v));
    jl_type J v = JSON_ARRAY \<Longrightarrow> size_admits J D s ''minItems'' ''maxItems'' (jl_array_size J v);
    \<And>items x. jl_type J v = JSON_ARRAY \<Longrightarrow> jl_object_get J s ''items'' = Some items \<Longrightarrow> element J v x \<Longrightarrow> matches_schema J D x items;
    jl_type J v = JSON_OBJECT \<Longrightarrow> size_admits J D s ''minProperties'' ''maxProperties'' (jl_object_size J v);
    jl_type J v = JSON_OBJECT \<Longrightarrow> required_admits J v s;
    \<And>ps k sub x. jl_type J v = JSON_OBJECT \<Longrightarrow> jl_object_get J s ''properties'' = Some ps \<Longrightarrow> jl_object_get J ps k = Some sub \<Longrightarrow>
      jl_object_get J v k = Some x \<Longrightarrow> matches_schema J D x sub;
    \<And>ad k x. jl_type J v = JSON_OBJECT \<Longrightarrow> jl_object_get J s ''additionalProperties'' = Some ad \<Longrightarrow> jl_object_get J v k = Some x \<Longrightarrow>
      \<not> listed J s k \<Longrightarrow> jl_type J ad = JSON_BOOL \<and> jl_bool J ad \<or> jl_type J ad \<noteq> JSON_BOOL \<and> matches_schema J D x ad\<rbrakk>
   \<Longrightarrow> matches_schema J D v s"

inductive_simps matches_schema_iff: "matches_schema J D v s"

subsection \<open>Well-formed schemas\<close>

definition bound_keys :: "string set" where
  "bound_keys = {''minimum'', ''maximum'', ''exclusiveMinimum'', ''exclusiveMaximum''}"

definition size_keys :: "string set" where
  "size_keys = {''minLength'', ''maxLength'', ''minItems'', ''maxItems'', ''minProperties'', ''maxProperties''}"

definition type_name_ok :: "('j, 'd) json_lib \<Rightarrow> 'j \<Rightarrow> bool" where
  "type_name_ok J t \<longleftrightarrow> jl_type J t = JSON_STRING \<and> jl_string J t \<in> known_types"

definition type_ok :: "('j, 'd) json_lib \<Rightarrow> 'j \<Rightarrow> bool" where
  "type_ok J t \<longleftrightarrow> type_name_ok J t \<or> jl_type J t = JSON_ARRAY \<and> (\<forall>e. element J t e \<longrightarrow> type_name_ok J e)"

inductive schema_ok for J D where
  "\<lbrakk>jl_type J s = JSON_OBJECT;
    \<And>k v. jl_object_get J s k = Some v \<Longrightarrow> turbo_tool_schema_supported_keyword k;
    \<And>t. jl_object_get J s ''type'' = Some t \<Longrightarrow> type_ok J t;
    \<And>vs. jl_object_get J s ''enum'' = Some vs \<Longrightarrow>
      jl_type J vs = JSON_ARRAY \<and> jl_array_size J vs \<noteq> 0 \<and> (\<forall>e. element J vs e \<longrightarrow> levels J (Suc TURBO_TOOL_SCHEMA_MAX_DEPTH) e);
    \<And>c. jl_object_get J s ''const'' = Some c \<Longrightarrow> levels J (Suc TURBO_TOOL_SCHEMA_MAX_DEPTH) c;
    \<And>k b. k \<in> bound_keys \<Longrightarrow> jl_object_get J s k = Some b \<Longrightarrow> jl_type J b = JSON_NUMBER \<and> cd_isfinite D (jl_number J b);
    \<And>k b. k \<in> size_keys \<Longrightarrow> jl_object_get J s k = Some b \<Longrightarrow> turbo_tool_schema_nonnegative_size J D b \<noteq> None;
    \<And>r. jl_object_get J s ''required'' = Some r \<Longrightarrow>
      jl_type J r = JSON_ARRAY \<and> (\<forall>e. element J r e \<longrightarrow> jl_type J e = JSON_STRING);
    \<And>i. jl_object_get J s ''items'' = Some i \<Longrightarrow> schema_ok J D n i;
    \<And>ps. jl_object_get J s ''properties'' = Some ps \<Longrightarrow> jl_type J ps = JSON_OBJECT;
    \<And>ps k sub. jl_object_get J s ''properties'' = Some ps \<Longrightarrow> jl_object_get J ps k = Some sub \<Longrightarrow> schema_ok J D n sub;
    \<And>ad. jl_object_get J s ''additionalProperties'' = Some ad \<Longrightarrow> jl_type J ad = JSON_BOOL \<or> schema_ok J D n ad\<rbrakk>
   \<Longrightarrow> schema_ok J D (Suc n) s"

inductive_simps schema_ok_Suc: "schema_ok J D (Suc n) s"
inductive_cases schema_okE: "schema_ok J D n s"

lemma schema_ok_object: "schema_ok J D n s \<Longrightarrow> jl_type J s = JSON_OBJECT"
  by (erule schema_okE) simp


subsection \<open>Members and elements\<close>

lemma object_keys:
  assumes "json_object_laws J" and "jl_type J v = JSON_OBJECT"
  shows "i < jl_object_size J v \<Longrightarrow> \<exists>k x. jl_object_key J v i = Some k \<and> jl_object_get J v k = Some x"
    and "jl_object_get J v k = Some x \<Longrightarrow> \<exists>i < jl_object_size J v. jl_object_key J v i = Some k"
    and "i < jl_object_size J v \<Longrightarrow> j < jl_object_size J v \<Longrightarrow> jl_object_key J v i = jl_object_key J v j \<Longrightarrow> i = j"
  using assms by (auto simp: json_object_laws_def)

lemma all_members:
  assumes "json_object_laws J" and "jl_type J v = JSON_OBJECT"
  shows "(\<forall>i \<in> set [0..<jl_object_size J v]. \<forall>k x. jl_object_key J v i = Some k \<longrightarrow> jl_object_get J v k = Some x \<longrightarrow> P k x) \<longleftrightarrow>
     (\<forall>k x. jl_object_get J v k = Some x \<longrightarrow> P k x)"
  using object_keys(2) [OF assms] by (metis atLeastLessThan_upt atLeastLessThan_iff zero_le)

lemma key_image:
  assumes "json_object_laws J" and "jl_type J v = JSON_OBJECT"
  shows "(\<lambda>i. the (jl_object_key J v i)) ` {..<jl_object_size J v} = dom (jl_object_get J v)"
  using object_keys(1,2) [OF assms] by (auto simp: image_iff) (metis option.sel, metis lessThan_iff option.sel)

lemma size_is_card:
  assumes "json_object_laws J" and "jl_type J v = JSON_OBJECT"
  shows "finite (dom (jl_object_get J v)) \<and> card (dom (jl_object_get J v)) = jl_object_size J v"
proof -
  have "inj_on (\<lambda>i. the (jl_object_key J v i)) {..<jl_object_size J v}"
    using object_keys(1,3) [OF assms] by (intro inj_onI) (metis lessThan_iff option.sel)
  then show ?thesis using key_image [OF assms, symmetric] by (simp add: card_image)
qed

lemma same_keys:
  assumes "json_object_laws J" and "jl_type J l = JSON_OBJECT" and "jl_type J r = JSON_OBJECT"
  shows "dom (jl_object_get J l) = dom (jl_object_get J r) \<longleftrightarrow>
     jl_object_size J l = jl_object_size J r \<and> dom (jl_object_get J l) \<subseteq> dom (jl_object_get J r)"
  using size_is_card [OF assms(1,2)] size_is_card [OF assms(1,3)] by (metis card_subset_eq order_refl)

lemma elementI: "json_array_laws J \<Longrightarrow> jl_type J v = JSON_ARRAY \<Longrightarrow> jl_array_get J v i = Some x \<Longrightarrow> element J v x"
  by (auto simp: element_def json_array_laws_def)

lemma array_get: "json_array_laws J \<Longrightarrow> jl_type J v = JSON_ARRAY \<Longrightarrow> i < jl_array_size J v \<Longrightarrow> \<exists>x. jl_array_get J v i = Some x"
  by (auto simp: json_array_laws_def)

lemma all_elements:
  assumes "json_array_laws J" and "jl_type J v = JSON_ARRAY"
  shows "(\<forall>i \<in> set [0..<jl_array_size J v]. P (the (jl_array_get J v i))) \<longleftrightarrow> (\<forall>x. element J v x \<longrightarrow> P x)"
  using array_get [OF assms] by (force simp: element_def)

subsection \<open>Equality of values\<close>

lemma json_equal_objects:
  assumes "jl_type J l = JSON_OBJECT" and "jl_type J r = JSON_OBJECT" and "\<not> depth > TURBO_TOOL_SCHEMA_MAX_DEPTH"
  shows "turbo_tool_schema_json_equal J D (Some l) (Some r) depth \<longleftrightarrow>
     jl_object_size J l = jl_object_size J r \<and>
     (\<forall>i < jl_object_size J l. \<exists>k y. jl_object_key J l i = Some k \<and> jl_object_get J r k = Some y \<and>
        turbo_tool_schema_json_equal J D (json_object_value J l i) (Some y) (depth + 1))"
  using assms by (subst turbo_tool_schema_json_equal.simps) (force simp: list_all_iff split: option.split)

lemma json_equal_same:
  assumes J: "json_object_laws J" "json_array_laws J"
  shows "turbo_tool_schema_json_equal J D (Some x) (Some y) depth \<Longrightarrow> json_same J D x y"
proof (induction "65 - depth" arbitrary: depth x y rule: less_induct)
  case less
  let ?equal = "\<lambda>l r. turbo_tool_schema_json_equal J D l r (depth + 1)"
  have eq: "turbo_tool_schema_json_equal J D (Some x) (Some y) depth" by fact
  then have depth: "depth \<le> 64" and ty: "jl_type J x = jl_type J y"
    by (auto simp: turbo_tool_schema_json_equal.simps [of J D _ _ depth] TURBO_TOOL_SCHEMA_MAX_DEPTH_def split: if_splits)
  note objects = json_equal_objects [of J x y depth D] eq depth ty
  have IH: "json_same J D l r" if "?equal (Some l) (Some r)" for l r
    using less.hyps [OF _ that] depth by simp
  note unfolded = eq [unfolded turbo_tool_schema_json_equal.simps [of J D "Some x" "Some y" depth]]
  show ?case
  proof (rule json_same.intros)
    fix i l r
    assume "jl_type J x = JSON_ARRAY" and at: "jl_array_get J x i = Some l" "jl_array_get J y i = Some r"
    then have "i < jl_array_size J x" using J(2) by (simp add: json_array_laws_def)
    then have "?equal (jl_array_get J x i) (jl_array_get J y i)"
      using unfolded ty \<open>jl_type J x = JSON_ARRAY\<close> by (auto simp: list_all_iff split: if_splits)
    then show "json_same J D l r" using at IH by simp
  next
    assume obj: "jl_type J x = JSON_OBJECT"
    have "k \<in> dom (jl_object_get J y)" if k: "k \<in> dom (jl_object_get J x)" for k
    proof -
      obtain i where "i < jl_object_size J x" "jl_object_key J x i = Some k"
        using k object_keys(2) [OF J(1) obj] by blast
      then show ?thesis using objects obj by (auto simp: TURBO_TOOL_SCHEMA_MAX_DEPTH_def)
    qed
    then show "dom (jl_object_get J x) = dom (jl_object_get J y)"
      using objects obj same_keys [OF J(1) obj, of y] by (auto simp: TURBO_TOOL_SCHEMA_MAX_DEPTH_def)
  next
    fix k l r
    assume obj: "jl_type J x = JSON_OBJECT" and at: "jl_object_get J x k = Some l" "jl_object_get J y k = Some r"
    obtain i where "i < jl_object_size J x" "jl_object_key J x i = Some k"
      using at object_keys(2) [OF J(1) obj] by blast
    then have "?equal (json_object_value J x i) (Some r)"
      using objects obj at by (force simp: TURBO_TOOL_SCHEMA_MAX_DEPTH_def)
    then show "json_same J D l r" using at IH \<open>jl_object_key J x i = Some k\<close> by (simp add: json_object_value_def)
  qed (use unfolded ty in \<open>auto split: if_splits\<close>)
qed

lemma same_json_equal:
  assumes J: "json_object_laws J" "json_array_laws J"
  shows "json_same J D l r \<Longrightarrow> levels J n r \<Longrightarrow> depth + n \<le> Suc TURBO_TOOL_SCHEMA_MAX_DEPTH \<Longrightarrow>
    turbo_tool_schema_json_equal J D (Some l) (Some r) depth"
proof (induction l r arbitrary: n depth rule: json_same.induct)
  case (1 l r)
  obtain m where n: "n = Suc m" using "1.prems"(1) by (cases rule: levels.cases) simp
  have depth: "\<not> depth > TURBO_TOOL_SCHEMA_MAX_DEPTH" "depth + 1 + m \<le> Suc TURBO_TOOL_SCHEMA_MAX_DEPTH"
    using "1.prems"(2) n by auto
  have arr: "turbo_tool_schema_json_equal J D (jl_array_get J l i) (jl_array_get J r i) (depth + 1)"
    if i: "jl_type J l = JSON_ARRAY" "i < jl_array_size J l" for i
  proof -
    obtain x y where "jl_array_get J l i = Some x" "jl_array_get J r i = Some y"
      using i "1.hyps"(1,5) array_get [OF J(2)] by metis
    moreover have "levels J m y"
      using "1.prems"(1) n i "1.hyps"(1) \<open>jl_array_get J r i = Some y\<close> by (auto elim: levels.cases)
    ultimately show ?thesis using "1.IH"(1) i depth(2) by simp
  qed
  have obj: "\<exists>k y. jl_object_key J l i = Some k \<and> jl_object_get J r k = Some y \<and>
      turbo_tool_schema_json_equal J D (json_object_value J l i) (Some y) (depth + 1)"
    if i: "jl_type J l = JSON_OBJECT" "i < jl_object_size J l" for i
  proof -
    obtain k x where k: "jl_object_key J l i = Some k" "jl_object_get J l k = Some x"
      using object_keys(1) [OF J(1)] i by blast
    then obtain y where y: "jl_object_get J r k = Some y" using "1.hyps"(7) i by blast
    moreover have "levels J m y"
      using "1.prems"(1) n i "1.hyps"(1) y by (auto elim: levels.cases)
    ultimately show ?thesis using "1.IH"(2) i depth(2) k by (simp add: json_object_value_def)
  qed
  have size: "jl_type J l = JSON_OBJECT \<Longrightarrow> jl_object_size J l = jl_object_size J r"
    using same_keys [OF J(1), of l r] "1.hyps" by simp
  show ?case
  proof (cases "jl_type J l = JSON_OBJECT")
    case True
    then show ?thesis using json_equal_objects [of J l r depth D] depth(1) "1.hyps"(1) obj size by simp
  next
    case False
    then show ?thesis
      using depth(1) "1.hyps"(1-5) arr
      by (subst turbo_tool_schema_json_equal.simps) (auto simp: list_all_iff split: json_type_t.split)
  qed
qed

subsection \<open>The checks of single keywords\<close>

lemma type_matches:
  "turbo_tool_schema_type_matches J D v name = (if name \<in> known_types then Some (of_type J D v name) else None)"
  by (simp add: turbo_tool_schema_type_matches_def known_types_def of_type_def)

lemma type_matches_any_settles:
  "settles (type_matches_any J D v es) (\<exists>e \<in> set es. \<exists>t. e = Some t \<and> jl_type J t = JSON_STRING \<and> of_type J D v (jl_string J t))"
  by (induction J D v es rule: type_matches_any.induct)
    (auto simp: settles_def type_matches split: option.splits if_splits)

lemma type_matches_any_decides:
  "\<forall>e \<in> set es. \<exists>t. e = Some t \<and> type_name_ok J t \<Longrightarrow>
   decides (type_matches_any J D v es) (\<exists>e \<in> set es. \<exists>t. e = Some t \<and> jl_type J t = JSON_STRING \<and> of_type J D v (jl_string J t))"
  by (induction J D v es rule: type_matches_any.induct)
    (auto simp: decides_def type_matches type_name_ok_def split: option.splits if_splits)

lemma some_element:
  assumes "json_array_laws J" and "jl_type J t = JSON_ARRAY"
  shows "(\<exists>e \<in> set (map (jl_array_get J t) [0..<jl_array_size J t]). \<exists>x. e = Some x \<and> P x) \<longleftrightarrow> (\<exists>x. element J t x \<and> P x)"
  by (force simp: element_def image_iff)

lemma check_type_settles:
  assumes "json_array_laws J"
  shows "settles (check_type J D v s) (type_admits J D v s)"
proof (cases "jl_object_get J s ''type''")
  case (Some t)
  then show ?thesis
    using type_matches_any_settles [of J D v "map (jl_array_get J t) [0..<jl_array_size J t]"]
    by (auto simp: settles_def check_type_def type_admits_def type_matches dest: elementI [OF assms] split: if_splits)
qed (simp add: settles_def check_type_def type_admits_def)

lemma check_type_decides:
  assumes "json_array_laws J" and ok: "\<And>t. jl_object_get J s ''type'' = Some t \<Longrightarrow> type_ok J t"
  shows "decides (check_type J D v s) (type_admits J D v s)"
proof (cases "jl_object_get J s ''type''")
  case (Some t)
  then consider "type_name_ok J t" | "jl_type J t = JSON_ARRAY" "\<forall>e. element J t e \<longrightarrow> type_name_ok J e"
    using ok by (auto simp: type_ok_def)
  then show ?thesis
  proof cases
    case 1
    then show ?thesis using Some by (simp add: decides_def check_type_def type_admits_def type_matches type_name_ok_def)
  next
    case 2
    let ?es = "map (jl_array_get J t) [0..<jl_array_size J t]"
    have "\<forall>e \<in> set ?es. \<exists>x. e = Some x \<and> type_name_ok J x"
      using 2 array_get [OF assms(1) 2(1)] by (fastforce simp: element_def)
    then show ?thesis
      using Some 2(1) type_matches_any_decides [of ?es J D v] some_element [OF assms(1) 2(1)]
      by (simp add: check_type_def type_admits_def)
  qed
qed (simp add: decides_def check_type_def type_admits_def)

lemma check_keywords_ok:
  assumes "json_object_laws J" and "jl_type J s = JSON_OBJECT"
    and "\<And>k v. jl_object_get J s k = Some v \<Longrightarrow> turbo_tool_schema_supported_keyword k"
  shows "turbo_tool_schema_check_keywords J s = None"
  using assms(2,3) object_keys(1) [OF assms(1,2)]
  by (fastforce simp: turbo_tool_schema_check_keywords_def first_failed_None split: option.splits)

lemma some_index:
  assumes "json_array_laws J" and "jl_type J v = JSON_ARRAY"
  shows "(\<exists>i \<in> set [0..<jl_array_size J v]. Q (jl_array_get J v i)) \<longleftrightarrow> (\<exists>e. element J v e \<and> Q (Some e))"
proof
  assume "\<exists>i \<in> set [0..<jl_array_size J v]. Q (jl_array_get J v i)"
  then show "\<exists>e. element J v e \<and> Q (Some e)" using array_get [OF assms] by (force simp: element_def)
next
  assume "\<exists>e. element J v e \<and> Q (Some e)"
  then show "\<exists>i \<in> set [0..<jl_array_size J v]. Q (jl_array_get J v i)" by (force simp: element_def)
qed

lemma enum_equal:
  assumes "json_array_laws J" and "jl_type J vs = JSON_ARRAY"
  shows "list_ex (\<lambda>i. turbo_tool_schema_json_equal J D (Some v) (jl_array_get J vs i) 0) [0..<jl_array_size J vs] \<longleftrightarrow>
     (\<exists>e. element J vs e \<and> turbo_tool_schema_json_equal J D (Some v) (Some e) 0)"
  unfolding list_ex_iff by (rule some_index [OF assms])

lemma check_enum_settles:
  assumes "json_object_laws J" and "json_array_laws J"
  shows "settles (check_enum J D v s) (enum_admits J D v s)"
  using enum_equal [OF assms(2)] json_equal_same [OF assms]
  by (fastforce simp: settles_def check_enum_def enum_admits_def split: option.splits if_splits)

lemma same_iff_equal:
  assumes "json_object_laws J" and "json_array_laws J" and "levels J (Suc TURBO_TOOL_SCHEMA_MAX_DEPTH) e"
  shows "turbo_tool_schema_json_equal J D (Some v) (Some e) 0 \<longleftrightarrow> json_same J D v e"
  using json_equal_same [OF assms(1,2)] same_json_equal [OF assms(1,2) _ assms(3), of D v 0] by auto

lemma check_enum_decides:
  assumes "json_object_laws J" and "json_array_laws J"
    and ok: "\<And>vs. jl_object_get J s ''enum'' = Some vs \<Longrightarrow>
      jl_type J vs = JSON_ARRAY \<and> jl_array_size J vs \<noteq> 0 \<and> (\<forall>e. element J vs e \<longrightarrow> levels J (Suc TURBO_TOOL_SCHEMA_MAX_DEPTH) e)"
  shows "decides (check_enum J D v s) (enum_admits J D v s)"
proof (cases "jl_object_get J s ''enum''")
  case (Some vs)
  then show ?thesis
    using ok [OF Some] enum_equal [OF assms(2), of vs D v] same_iff_equal [OF assms(1,2), of _ D v]
    by (auto simp: decides_def check_enum_def enum_admits_def)
qed (simp add: decides_def check_enum_def enum_admits_def)

lemma check_const_settles:
  assumes "json_object_laws J" and "json_array_laws J"
  shows "settles (check_const J D v s) (const_admits J D v s)"
  using json_equal_same [OF assms]
  by (auto simp: settles_def check_const_def const_admits_def split: option.splits if_splits)

lemma check_const_decides:
  assumes "json_object_laws J" and "json_array_laws J"
    and "\<And>c. jl_object_get J s ''const'' = Some c \<Longrightarrow> levels J (Suc TURBO_TOOL_SCHEMA_MAX_DEPTH) c"
  shows "decides (check_const J D v s) (const_admits J D v s)"
  using same_iff_equal [OF assms(1,2), of _ D v] assms(3)
  by (auto simp: decides_def check_const_def const_admits_def split: option.split)

lemma check_numeric_settles: "settles (check_numeric J D v s) (number_admits J D v s)"
  by (auto simp: settles_def check_numeric_def number_admits_def first_failed_None numeric_bounds_def violates_bound_def
    split: if_splits option.splits)

lemma check_numeric_decides:
  assumes "\<And>k b. k \<in> bound_keys \<Longrightarrow> jl_object_get J s k = Some b \<Longrightarrow> jl_type J b = JSON_NUMBER \<and> cd_isfinite D (jl_number J b)"
  shows "decides (check_numeric J D v s) (number_admits J D v s)"
proof -
  let ?admits = "\<lambda>(key, exclusive, lower). \<forall>b. jl_object_get J s key = Some b \<longrightarrow>
    \<not> violates_bound D exclusive lower (jl_number J v) (jl_number J b)"
  have ok: "jl_type J b = JSON_NUMBER \<and> cd_isfinite D (jl_number J b)"
    if "(k, exclusive, lower) \<in> set numeric_bounds" "jl_object_get J s k = Some b" for k exclusive lower b
  proof -
    have "k \<in> bound_keys" using that(1) by (auto simp: numeric_bounds_def bound_keys_def)
    then show ?thesis using assms that(2) by blast
  qed
  have "decides (check_numeric J D v s) (\<forall>x \<in> set numeric_bounds. ?admits x)" if "jl_type J v = JSON_NUMBER"
    unfolding check_numeric_def using that
    by (simp, intro decides_map) (auto simp: decides_def dest: ok split: option.split)
  moreover have "number_admits J D v s \<longleftrightarrow> (\<forall>x \<in> set numeric_bounds. ?admits x)" if "jl_type J v = JSON_NUMBER"
    using that by (auto simp: number_admits_def numeric_bounds_def violates_bound_def)
  ultimately show ?thesis
    by (cases "jl_type J v = JSON_NUMBER") (auto simp: check_numeric_def number_admits_def decides_def)
qed

lemma nonnegative_size: "turbo_tool_schema_nonnegative_size J D b = Some n \<Longrightarrow> n = cd_size_of D (jl_number J b)"
  by (auto simp: turbo_tool_schema_nonnegative_size_def Let_def split: if_splits)

lemma check_size_settles:
  "settles (check_size J D ill violated [(least, True), (most, False)] n s) (size_admits J D s least most n)"
  by (auto simp: settles_def check_size_def size_admits_def dest: nonnegative_size split: option.splits if_splits)

lemma check_size_decides:
  assumes "\<And>k b. k \<in> {least, most} \<Longrightarrow> jl_object_get J s k = Some b \<Longrightarrow> turbo_tool_schema_nonnegative_size J D b \<noteq> None"
  shows "decides (check_size J D ill violated [(least, True), (most, False)] n s) (size_admits J D s least most n)"
  using assms [of least] assms [of most]
  by (auto simp: decides_def check_size_def size_admits_def dest: nonnegative_size split: option.splits if_splits)

definition required_entry :: "('j, 'd) json_lib \<Rightarrow> 'j \<Rightarrow> 'j \<Rightarrow> check" where
  "required_entry J v entry =
     (if jl_type J entry \<noteq> JSON_STRING then refuse TURBO_TOOL_SCHEMA_INVALID_SCHEMA ''required entries must be strings'' None
      else if jl_object_get J v (jl_string J entry) = None
      then refuse TURBO_TOOL_SCHEMA_VALUE_INVALID ''missing required property'' (Some (jl_string J entry))
      else None)"

lemma required_entries:
  assumes "json_array_laws J" and "jl_type J r = JSON_ARRAY" and "jl_object_get J s ''required'' = Some r"
  shows "check_required J v s = first_failed (map (\<lambda>i. required_entry J v (the (jl_array_get J r i))) [0..<jl_array_size J r])"
  unfolding check_required_def using assms(2,3) array_get [OF assms(1,2)]
  by (fastforce simp: required_entry_def intro!: arg_cong [where f = first_failed])

lemma check_required_settles:
  assumes "json_array_laws J"
  shows "settles (check_required J v s) (required_admits J v s)"
proof (cases "jl_object_get J s ''required''")
  case (Some r)
  show ?thesis
  proof (cases "jl_type J r = JSON_ARRAY")
    case True
    have "settles (required_entry J v e) (jl_object_get J v (jl_string J e) \<noteq> None)" for e
      by (auto simp: settles_def required_entry_def)
    then have "settles (check_required J v s)
        (\<forall>i \<in> set [0..<jl_array_size J r]. jl_object_get J v (jl_string J (the (jl_array_get J r i))) \<noteq> None)"
      unfolding required_entries [OF assms True Some] by (intro settles_map)
    then show ?thesis
      unfolding all_elements [OF assms True, of "\<lambda>e. jl_object_get J v (jl_string J e) \<noteq> None"]
      using Some by (simp add: required_admits_def)
  qed (use Some in \<open>simp add: settles_def check_required_def\<close>)
qed (simp add: settles_def check_required_def required_admits_def)

lemma check_required_decides:
  assumes "json_array_laws J"
    and "\<And>r. jl_object_get J s ''required'' = Some r \<Longrightarrow> jl_type J r = JSON_ARRAY \<and> (\<forall>e. element J r e \<longrightarrow> jl_type J e = JSON_STRING)"
  shows "decides (check_required J v s) (required_admits J v s)"
proof (cases "jl_object_get J s ''required''")
  case (Some r)
  then have r: "jl_type J r = JSON_ARRAY" "\<And>e. element J r e \<Longrightarrow> jl_type J e = JSON_STRING" using assms(2) by auto
  have "decides (required_entry J v e) (jl_object_get J v (jl_string J e) \<noteq> None)" if "element J r e" for e
    using r(2) [OF that] by (simp add: decides_def required_entry_def)
  then have "decides (required_entry J v (the (jl_array_get J r i))) (jl_object_get J v (jl_string J (the (jl_array_get J r i))) \<noteq> None)"
    if "i \<in> set [0..<jl_array_size J r]" for i
    using array_get [OF assms(1) r(1), of i] elementI [OF assms(1) r(1), of i] that by auto
  then have "decides (check_required J v s)
     (\<forall>i \<in> set [0..<jl_array_size J r]. jl_object_get J v (jl_string J (the (jl_array_get J r i))) \<noteq> None)"
    unfolding required_entries [OF assms(1) r(1) Some] by (intro decides_map)
  then show ?thesis
    unfolding all_elements [OF assms(1) r(1), of "\<lambda>e. jl_object_get J v (jl_string J e) \<noteq> None"]
    using Some by (simp add: required_admits_def)
qed (simp add: decides_def check_required_def required_admits_def)

subsection \<open>The checks that descend\<close>

type_synonym 'j descent = "'j \<Rightarrow> 'j \<Rightarrow> check"

definition array_bounds :: "('j, 'd) json_lib \<Rightarrow> 'd c_doubles \<Rightarrow> 'j \<Rightarrow> 'j \<Rightarrow> check" where
  "array_bounds J D v s =
     (if jl_type J v = JSON_ARRAY
      then check_size J D ''array bound must be a non-negative integer'' ''parameter violates array bound''
             [(''minItems'', True), (''maxItems'', False)] (jl_array_size J v) s
      else None)"

definition check_items :: "('j, 'd) json_lib \<Rightarrow> 'j descent \<Rightarrow> 'j \<Rightarrow> 'j \<Rightarrow> check" where
  "check_items J node v s =
     (if jl_type J v = JSON_ARRAY
      then (case jl_object_get J s ''items'' of
              None \<Rightarrow> None
            | Some items \<Rightarrow>
               if jl_type J items \<noteq> JSON_OBJECT then refuse TURBO_TOOL_SCHEMA_UNSUPPORTED ''items must be an object schema'' None
               else first_failed (map (\<lambda>i. node (the (jl_array_get J v i)) items) [0..<jl_array_size J v]))
      else None)"

definition object_bounds :: "('j, 'd) json_lib \<Rightarrow> 'd c_doubles \<Rightarrow> 'j \<Rightarrow> 'j \<Rightarrow> check" where
  "object_bounds J D v s =
     (if jl_type J v = JSON_OBJECT
      then check_size J D ''object bound must be a non-negative integer'' ''parameter violates object bound''
             [(''minProperties'', True), (''maxProperties'', False)] (jl_object_size J v) s
      else None)"

definition check_property :: "('j, 'd) json_lib \<Rightarrow> 'j descent \<Rightarrow> 'j \<Rightarrow> 'j \<Rightarrow> nat \<Rightarrow> check" where
  "check_property J node v ps i =
     (case jl_object_key J ps i of
        None \<Rightarrow> refuse TURBO_TOOL_SCHEMA_INVALID_SCHEMA ''property schema must be an object'' (Some ''<null>'')
      | Some key \<Rightarrow>
         (case json_object_value J ps i of
            None \<Rightarrow> refuse TURBO_TOOL_SCHEMA_INVALID_SCHEMA ''property schema must be an object'' (Some key)
          | Some property_schema \<Rightarrow>
             if jl_type J property_schema \<noteq> JSON_OBJECT
             then refuse TURBO_TOOL_SCHEMA_INVALID_SCHEMA ''property schema must be an object'' (Some key)
             else (case jl_object_get J v key of None \<Rightarrow> None | Some property_value \<Rightarrow> node property_value property_schema)))"

definition check_properties :: "('j, 'd) json_lib \<Rightarrow> 'j descent \<Rightarrow> 'j \<Rightarrow> 'j \<Rightarrow> check" where
  "check_properties J node v s =
     (if jl_type J v = JSON_OBJECT
      then (case jl_object_get J s ''properties'' of
              None \<Rightarrow> None
            | Some ps \<Rightarrow>
               if jl_type J ps \<noteq> JSON_OBJECT then refuse TURBO_TOOL_SCHEMA_INVALID_SCHEMA ''properties must be an object'' None
               else first_failed (map (check_property J node v ps) [0..<jl_object_size J ps]))
      else None)"

definition check_others :: "('j, 'd) json_lib \<Rightarrow> 'j descent \<Rightarrow> 'j \<Rightarrow> 'j \<Rightarrow> check" where
  "check_others J node v s =
     (if jl_type J v = JSON_OBJECT
      then let additional = jl_object_get J s ''additionalProperties''
           in if (case additional of None \<Rightarrow> False | Some ad \<Rightarrow> jl_type J ad \<noteq> JSON_BOOL \<and> jl_type J ad \<noteq> JSON_OBJECT)
              then refuse TURBO_TOOL_SCHEMA_INVALID_SCHEMA ''additionalProperties must be boolean or schema'' None
              else first_failed (map (check_additional J v (jl_object_get J s ''properties'') additional node) [0..<jl_object_size J v])
      else None)"

lemma chain_assoc:
  "(case (case a of None \<Rightarrow> b | Some failure \<Rightarrow> Some failure) of None \<Rightarrow> c | Some failure \<Rightarrow> Some failure) =
   (case a of None \<Rightarrow> (case b of None \<Rightarrow> c | Some failure \<Rightarrow> Some failure) | Some failure \<Rightarrow> Some failure)"
  by (cases a) simp_all

lemma chain_None: "(case a of None \<Rightarrow> None | Some failure \<Rightarrow> Some failure) = a"
  by (cases a) simp_all

text \<open>A node is one sequence of checks.\<close>

lemma validate_node_checks:
  assumes "depth \<le> TURBO_TOOL_SCHEMA_MAX_DEPTH" and "node = (\<lambda>v s. turbo_tool_schema_validate_node J D v s (depth + 1))"
  shows "turbo_tool_schema_validate_node J D v s depth = first_failed
    [turbo_tool_schema_check_keywords J s, check_type J D v s, check_enum J D v s, check_const J D v s, check_numeric J D v s,
     check_string J D v s, array_bounds J D v s, check_items J node v s, object_bounds J D v s,
     (if jl_type J v = JSON_OBJECT then check_required J v s else None), check_properties J node v s, check_others J node v s]"
proof -
  have "\<not> depth > TURBO_TOOL_SCHEMA_MAX_DEPTH" using assms(1) by simp
  then show ?thesis
    unfolding turbo_tool_schema_validate_node.simps [of J D v s depth] assms(2)
    by (cases "jl_type J v")
      (simp_all add: array_bounds_def object_bounds_def check_items_def check_properties_def check_others_def
        check_property_def [abs_def] Let_def chain_assoc chain_None del: upt_Suc set_upt cong: option.case_cong if_cong)
qed

lemma check_string_settles:
  "settles (check_string J D v s) (jl_type J v = JSON_STRING \<longrightarrow>
     size_admits J D s ''minLength'' ''maxLength'' (turbo_tool_schema_utf8_codepoint_count (jl_string J v)))"
  using check_size_settles by (cases "jl_type J v = JSON_STRING") (simp_all add: check_string_def settles_def)

lemma check_items_settles:
  assumes "json_array_laws J" and "\<And>x s. settles (node x s) (P x s)"
  shows "settles (check_items J node v s)
    (jl_type J v = JSON_ARRAY \<longrightarrow> (\<forall>items x. jl_object_get J s ''items'' = Some items \<longrightarrow> element J v x \<longrightarrow> P x items))"
proof (cases "jl_type J v = JSON_ARRAY")
  case True
  have "settles (first_failed (map (\<lambda>i. node (the (jl_array_get J v i)) items) [0..<jl_array_size J v]))
      (\<forall>x. element J v x \<longrightarrow> P x items)" for items
    unfolding all_elements [OF assms(1) True, symmetric] by (intro settles_map assms(2))
  then show ?thesis using True by (auto simp: check_items_def settles_def split: option.splits if_splits)
qed (simp add: check_items_def settles_def)

lemma check_items_decides:
  assumes "json_array_laws J"
    and "\<And>items x. jl_object_get J s ''items'' = Some items \<Longrightarrow> jl_type J items = JSON_OBJECT \<and> decides (node x items) (P x items)"
  shows "decides (check_items J node v s)
    (jl_type J v = JSON_ARRAY \<longrightarrow> (\<forall>items x. jl_object_get J s ''items'' = Some items \<longrightarrow> element J v x \<longrightarrow> P x items))"
proof (cases "jl_type J v = JSON_ARRAY")
  case True
  have "decides (first_failed (map (\<lambda>i. node (the (jl_array_get J v i)) items) [0..<jl_array_size J v]))
      (\<forall>x. element J v x \<longrightarrow> P x items)" if "jl_object_get J s ''items'' = Some items" for items
    unfolding all_elements [OF assms(1) True, symmetric] using assms(2) that by (intro decides_map) blast
  then show ?thesis
    using True assms(2) by (cases "jl_object_get J s ''items''") (simp_all add: check_items_def decides_def)
qed (simp add: check_items_def decides_def)

lemma check_property_value:
  assumes "json_object_laws J" and "jl_type J ps = JSON_OBJECT" and "i < jl_object_size J ps"
  obtains k sub where "jl_object_key J ps i = Some k" and "jl_object_get J ps k = Some sub" and
    "check_property J node v ps i =
       (if jl_type J sub \<noteq> JSON_OBJECT
        then refuse TURBO_TOOL_SCHEMA_INVALID_SCHEMA ''property schema must be an object'' (Some k)
        else case jl_object_get J v k of None \<Rightarrow> None | Some x \<Rightarrow> node x sub)"
  using object_keys(1) [OF assms] by (auto simp: check_property_def json_object_value_def)

lemma check_properties_settles:
  assumes "json_object_laws J" and "\<And>x s. settles (node x s) (P x s)"
  shows "settles (check_properties J node v s) (jl_type J v = JSON_OBJECT \<longrightarrow>
    (\<forall>ps k sub x. jl_object_get J s ''properties'' = Some ps \<longrightarrow> jl_object_get J ps k = Some sub \<longrightarrow> jl_object_get J v k = Some x \<longrightarrow>
       P x sub))"
proof (cases "jl_type J v = JSON_OBJECT \<and> jl_object_get J s ''properties'' \<noteq> None")
  case True
  then obtain ps where ps: "jl_object_get J s ''properties'' = Some ps" by blast
  let ?Q = "\<lambda>k sub. \<forall>x. jl_object_get J v k = Some x \<longrightarrow> P x sub"
  show ?thesis
  proof (cases "jl_type J ps = JSON_OBJECT")
    case obj: True
    have "settles (check_property J node v ps i)
        (\<forall>k sub. jl_object_key J ps i = Some k \<longrightarrow> jl_object_get J ps k = Some sub \<longrightarrow> ?Q k sub)"
      if "i \<in> set [0..<jl_object_size J ps]" for i
      using that assms(2)
      by (auto simp: settles_def elim!: check_property_value [OF assms(1) obj, of i node v] split: option.splits if_splits)
    then have "settles (first_failed (map (check_property J node v ps) [0..<jl_object_size J ps]))
        (\<forall>k sub. jl_object_get J ps k = Some sub \<longrightarrow> ?Q k sub)"
      unfolding all_members [OF assms(1) obj, symmetric] by (rule settles_map)
    then show ?thesis using True ps obj by (auto simp: check_properties_def settles_def)
  qed (use True ps in \<open>simp add: check_properties_def settles_def\<close>)
qed (auto simp: settles_def)

lemma check_properties_decides:
  assumes "json_object_laws J"
    and "\<And>ps. jl_object_get J s ''properties'' = Some ps \<Longrightarrow> jl_type J ps = JSON_OBJECT"
    and "\<And>ps k sub x. jl_object_get J s ''properties'' = Some ps \<Longrightarrow> jl_object_get J ps k = Some sub \<Longrightarrow>
      jl_type J sub = JSON_OBJECT \<and> decides (node x sub) (P x sub)"
  shows "decides (check_properties J node v s) (jl_type J v = JSON_OBJECT \<longrightarrow>
    (\<forall>ps k sub x. jl_object_get J s ''properties'' = Some ps \<longrightarrow> jl_object_get J ps k = Some sub \<longrightarrow> jl_object_get J v k = Some x \<longrightarrow>
       P x sub))"
proof (cases "jl_type J v = JSON_OBJECT \<and> jl_object_get J s ''properties'' \<noteq> None")
  case True
  then obtain ps where ps: "jl_object_get J s ''properties'' = Some ps" by blast
  note obj = assms(2) [OF ps]
  let ?Q = "\<lambda>k sub. \<forall>x. jl_object_get J v k = Some x \<longrightarrow> P x sub"
  have "decides (check_property J node v ps i)
      (\<forall>k sub. jl_object_key J ps i = Some k \<longrightarrow> jl_object_get J ps k = Some sub \<longrightarrow> ?Q k sub)"
    if i: "i \<in> set [0..<jl_object_size J ps]" for i
  proof -
    obtain k sub where k: "jl_object_key J ps i = Some k" "jl_object_get J ps k = Some sub" and
      eq: "check_property J node v ps i = (case jl_object_get J v k of None \<Rightarrow> None | Some x \<Rightarrow> node x sub)"
      using check_property_value [OF assms(1) obj, of i node v] i assms(3) [OF ps] by (metis atLeastLessThan_upt atLeastLessThan_iff)
    show ?thesis unfolding eq using assms(3) [OF ps k(2)] k by (cases "jl_object_get J v k") (auto simp: decides_def)
  qed
  then have "decides (first_failed (map (check_property J node v ps) [0..<jl_object_size J ps]))
      (\<forall>k sub. jl_object_get J ps k = Some sub \<longrightarrow> ?Q k sub)"
    unfolding all_members [OF assms(1) obj, symmetric] by (rule decides_map)
  moreover have "check_properties J node v s = first_failed (map (check_property J node v ps) [0..<jl_object_size J ps])"
    using True ps obj by (simp add: check_properties_def)
  ultimately show ?thesis using True ps by simp
qed (auto simp: decides_def check_properties_def)

text \<open>What \<open>additionalProperties\<close> demands of a member that is not listed.\<close>

definition other_admits :: "('j, 'd) json_lib \<Rightarrow> ('j \<Rightarrow> 'j \<Rightarrow> bool) \<Rightarrow> 'j \<Rightarrow> string \<Rightarrow> 'j \<Rightarrow> bool" where
  "other_admits J P s k x \<longleftrightarrow>
     (\<forall>ad. jl_object_get J s ''additionalProperties'' = Some ad \<longrightarrow> \<not> listed J s k \<longrightarrow>
        jl_type J ad = JSON_BOOL \<and> jl_bool J ad \<or> jl_type J ad \<noteq> JSON_BOOL \<and> P x ad)"

lemma check_additional_value:
  assumes "jl_object_key J v i = Some k" and "jl_object_get J v k = Some x"
  shows "check_additional J v (jl_object_get J s ''properties'') (jl_object_get J s ''additionalProperties'') node i =
    (if listed J s k then None
     else case jl_object_get J s ''additionalProperties'' of
       None \<Rightarrow> None
     | Some ad \<Rightarrow>
        if jl_type J ad = JSON_BOOL
        then (if jl_bool J ad then None else refuse TURBO_TOOL_SCHEMA_VALUE_INVALID ''unexpected property'' (Some k))
        else node x ad)"
  using assms by (auto simp: check_additional_def listed_def json_object_value_def split: option.split)

lemma check_additional_settles:
  assumes "json_object_laws J" and "jl_type J v = JSON_OBJECT" and "i < jl_object_size J v" and "\<And>x s. settles (node x s) (P x s)"
  shows "settles (check_additional J v (jl_object_get J s ''properties'') (jl_object_get J s ''additionalProperties'') node i)
    (\<forall>k x. jl_object_key J v i = Some k \<longrightarrow> jl_object_get J v k = Some x \<longrightarrow> other_admits J P s k x)"
proof -
  obtain k x where k: "jl_object_key J v i = Some k" "jl_object_get J v k = Some x"
    using object_keys(1) [OF assms(1-3)] by blast
  show ?thesis
    unfolding check_additional_value [OF k] using k assms(4)
    by (cases "jl_object_get J s ''additionalProperties''") (auto simp: settles_def other_admits_def)
qed

lemma check_additional_decides:
  assumes "json_object_laws J" and "jl_type J v = JSON_OBJECT" and "i < jl_object_size J v"
    and "\<And>ad x. jl_object_get J s ''additionalProperties'' = Some ad \<Longrightarrow> jl_type J ad = JSON_BOOL \<or> decides (node x ad) (P x ad)"
  shows "decides (check_additional J v (jl_object_get J s ''properties'') (jl_object_get J s ''additionalProperties'') node i)
    (\<forall>k x. jl_object_key J v i = Some k \<longrightarrow> jl_object_get J v k = Some x \<longrightarrow> other_admits J P s k x)"
proof -
  obtain k x where k: "jl_object_key J v i = Some k" "jl_object_get J v k = Some x"
    using object_keys(1) [OF assms(1-3)] by blast
  show ?thesis
    unfolding check_additional_value [OF k] using k assms(4) [of _ x]
    by (cases "jl_object_get J s ''additionalProperties''") (auto simp: decides_def other_admits_def)
qed

abbreviation others_admit :: "('j, 'd) json_lib \<Rightarrow> ('j \<Rightarrow> 'j \<Rightarrow> bool) \<Rightarrow> 'j \<Rightarrow> 'j \<Rightarrow> bool" where
  "others_admit J P v s \<equiv> jl_type J v = JSON_OBJECT \<longrightarrow> (\<forall>k x. jl_object_get J v k = Some x \<longrightarrow> other_admits J P s k x)"

lemma check_others_settles:
  assumes "json_object_laws J" and "\<And>x s. settles (node x s) (P x s)"
  shows "settles (check_others J node v s) (others_admit J P v s)"
proof (cases "jl_type J v = JSON_OBJECT")
  case True
  have "settles (first_failed (map (check_additional J v (jl_object_get J s ''properties'')
      (jl_object_get J s ''additionalProperties'') node) [0..<jl_object_size J v]))
    (\<forall>k x. jl_object_get J v k = Some x \<longrightarrow> other_admits J P s k x)"
    unfolding all_members [OF assms(1) True, symmetric]
    by (intro settles_map check_additional_settles assms True) simp
  then show ?thesis using True by (auto simp: check_others_def settles_def Let_def split: if_splits)
qed (simp add: settles_def)

lemma check_others_decides:
  assumes "json_object_laws J"
    and "\<And>ad x. jl_object_get J s ''additionalProperties'' = Some ad \<Longrightarrow>
      jl_type J ad = JSON_BOOL \<or> jl_type J ad = JSON_OBJECT \<and> decides (node x ad) (P x ad)"
  shows "decides (check_others J node v s) (others_admit J P v s)"
proof (cases "jl_type J v = JSON_OBJECT")
  case True
  have "decides (first_failed (map (check_additional J v (jl_object_get J s ''properties'')
      (jl_object_get J s ''additionalProperties'') node) [0..<jl_object_size J v]))
    (\<forall>k x. jl_object_get J v k = Some x \<longrightarrow> other_admits J P s k x)"
    unfolding all_members [OF assms(1) True, symmetric]
    using assms(2) by (intro decides_map check_additional_decides assms(1) True) auto
  moreover have "check_others J node v s = first_failed (map (check_additional J v (jl_object_get J s ''properties'')
      (jl_object_get J s ''additionalProperties'') node) [0..<jl_object_size J v])"
    using True assms(2) by (auto simp: check_others_def Let_def split: option.split)
  ultimately show ?thesis using True by simp
qed (simp add: decides_def check_others_def)

subsection \<open>A node\<close>

lemma matches_schema_demands:
  "matches_schema J D v s \<longleftrightarrow>
     (\<forall>P \<in> set [True, type_admits J D v s, enum_admits J D v s, const_admits J D v s, number_admits J D v s,
       jl_type J v = JSON_STRING \<longrightarrow>
         size_admits J D s ''minLength'' ''maxLength'' (turbo_tool_schema_utf8_codepoint_count (jl_string J v)),
       jl_type J v = JSON_ARRAY \<longrightarrow> size_admits J D s ''minItems'' ''maxItems'' (jl_array_size J v),
       jl_type J v = JSON_ARRAY \<longrightarrow>
         (\<forall>items x. jl_object_get J s ''items'' = Some items \<longrightarrow> element J v x \<longrightarrow> matches_schema J D x items),
       jl_type J v = JSON_OBJECT \<longrightarrow> size_admits J D s ''minProperties'' ''maxProperties'' (jl_object_size J v),
       jl_type J v = JSON_OBJECT \<longrightarrow> required_admits J v s,
       jl_type J v = JSON_OBJECT \<longrightarrow>
         (\<forall>ps k sub x. jl_object_get J s ''properties'' = Some ps \<longrightarrow> jl_object_get J ps k = Some sub \<longrightarrow>
            jl_object_get J v k = Some x \<longrightarrow> matches_schema J D x sub),
       others_admit J (matches_schema J D) v s]. P)"
  unfolding matches_schema_iff [of J D v s] other_admits_def by (simp, blast)

lemma settles_guard: "settles c P \<Longrightarrow> settles (if Q then c else None) (Q \<longrightarrow> P)"
  by (simp add: settles_def)

lemma decides_guard: "decides c P \<Longrightarrow> decides (if Q then c else None) (Q \<longrightarrow> P)"
  by (simp add: decides_def)

lemma settles_True: "settles c True"
  by (simp add: settles_def)

lemmas node_settles = settles_all list.rel_intros settles_True check_type_settles check_enum_settles check_const_settles
  check_numeric_settles check_string_settles settles_guard check_size_settles check_items_settles check_required_settles
  check_properties_settles check_others_settles

lemma validate_node_sound:
  assumes J: "json_object_laws J" "json_array_laws J"
  shows "settles (turbo_tool_schema_validate_node J D v s depth) (matches_schema J D v s)"
proof (induction "65 - depth" arbitrary: depth v s rule: less_induct)
  case less
  define node where "node = (\<lambda>v s. turbo_tool_schema_validate_node J D v s (depth + 1))"
  show ?case
  proof (cases "depth \<le> TURBO_TOOL_SCHEMA_MAX_DEPTH")
    case True
    then have IH: "settles (node x sub) (matches_schema J D x sub)" for x sub
      unfolding node_def by (intro less) (simp add: TURBO_TOOL_SCHEMA_MAX_DEPTH_def)
    show ?thesis
      unfolding validate_node_checks [OF True node_def] matches_schema_demands [of J D v s] array_bounds_def object_bounds_def
      by (intro node_settles J IH)
  next
    case False
    then show ?thesis by (subst turbo_tool_schema_validate_node.simps) (simp add: settles_def)
  qed
qed

lemma decides_True: "c = None \<Longrightarrow> decides c True"
  by (simp add: decides_def)

lemma check_string_decides:
  assumes "\<And>k b. k \<in> size_keys \<Longrightarrow> jl_object_get J s k = Some b \<Longrightarrow> turbo_tool_schema_nonnegative_size J D b \<noteq> None"
  shows "decides (check_string J D v s) (jl_type J v = JSON_STRING \<longrightarrow>
    size_admits J D s ''minLength'' ''maxLength'' (turbo_tool_schema_utf8_codepoint_count (jl_string J v)))"
proof (cases "jl_type J v = JSON_STRING")
  case True
  have "decides (check_size J D ill violated [(''minLength'', True), (''maxLength'', False)] m s)
    (size_admits J D s ''minLength'' ''maxLength'' m)" for ill violated m
    by (rule check_size_decides, rule assms) (auto simp: size_keys_def)
  then show ?thesis using True by (simp add: check_string_def)
qed (simp add: check_string_def decides_def)

lemmas node_decides = decides_all list.rel_intros decides_True check_keywords_ok check_type_decides check_enum_decides
  check_const_decides check_numeric_decides check_string_decides decides_guard check_size_decides check_items_decides
  check_required_decides check_properties_decides check_others_decides

lemma validate_node_complete:
  assumes J: "json_object_laws J" "json_array_laws J"
  shows "schema_ok J D n s \<Longrightarrow> depth + n \<le> Suc TURBO_TOOL_SCHEMA_MAX_DEPTH \<Longrightarrow>
    decides (turbo_tool_schema_validate_node J D v s depth) (matches_schema J D v s)"
proof (induction n s arbitrary: depth v rule: schema_ok.induct)
  case (1 s n)
  define node where "node = (\<lambda>v s. turbo_tool_schema_validate_node J D v s (depth + 1))"
  have depth: "depth \<le> TURBO_TOOL_SCHEMA_MAX_DEPTH" "depth + 1 + n \<le> Suc TURBO_TOOL_SCHEMA_MAX_DEPTH" using "1.prems" by auto
  have sizes: "turbo_tool_schema_nonnegative_size J D b \<noteq> None" if "k \<in> size_keys" "jl_object_get J s k = Some b" for k b
    using "1.hyps"(7) that by blast
  have items: "jl_type J items = JSON_OBJECT \<and> decides (node x items) (matches_schema J D x items)"
    if "jl_object_get J s ''items'' = Some items" for items x
    using schema_ok_object [OF "1.hyps"(9) [OF that]] "1.IH"(1) [OF that depth(2)] by (simp add: node_def)
  have props: "jl_type J sub = JSON_OBJECT \<and> decides (node x sub) (matches_schema J D x sub)"
    if "jl_object_get J s ''properties'' = Some ps" "jl_object_get J ps k = Some sub" for ps k sub x
    using schema_ok_object [OF "1.hyps"(11) [OF that]] "1.IH"(2) [OF that depth(2)] by (simp add: node_def)
  have others: "jl_type J ad = JSON_BOOL \<or> jl_type J ad = JSON_OBJECT \<and> decides (node x ad) (matches_schema J D x ad)"
    if "jl_object_get J s ''additionalProperties'' = Some ad" for ad x
    using "1.IH"(3) [OF that] schema_ok_object depth(2) by (auto simp: node_def)
  show ?case
    unfolding validate_node_checks [OF depth(1) node_def] matches_schema_demands [of J D v s] array_bounds_def object_bounds_def
    by (intro node_decides J items props others sizes "1.hyps"(1-6,8,10)) (auto simp: size_keys_def intro: "1.hyps"(2))
qed

subsection \<open>Arguments of tools\<close>

lemma status_of_settled: "settles c P \<Longrightarrow> fst (status_of_check capacity c) = TURBO_TOOL_SCHEMA_VALID \<Longrightarrow>
    (\<forall>m. c \<noteq> Some (TURBO_TOOL_SCHEMA_VALID, m)) \<Longrightarrow> P"
  by (auto simp: settles_def status_of_check_def split: option.splits)

lemma status_of_decided:
  "decides c P \<Longrightarrow> fst (status_of_check capacity c) = (if P then TURBO_TOOL_SCHEMA_VALID else TURBO_TOOL_SCHEMA_VALUE_INVALID)"
  by (auto simp: decides_def status_of_check_def)

text \<open>A check that fails never says that the value is valid.\<close>

definition refuses :: "check \<Rightarrow> bool" where
  "refuses c \<longleftrightarrow> (\<forall>m. c \<noteq> Some (TURBO_TOOL_SCHEMA_VALID, m))"

lemma first_failed_refuses: "\<forall>c \<in> set cs. refuses c \<Longrightarrow> refuses (first_failed cs)"
  by (induction cs) (auto simp: refuses_def split: option.split)

lemma map_refuses: "(\<And>x. x \<in> set xs \<Longrightarrow> refuses (f x)) \<Longrightarrow> refuses (first_failed (map f xs))"
  by (rule first_failed_refuses) auto

lemma type_matches_any_refuses: "refuses (type_matches_any J D v es)"
  by (induction J D v es rule: type_matches_any.induct) (auto simp: refuses_def split: option.split)

lemma keyword_checks_refuse:
  "refuses (turbo_tool_schema_check_keywords J s)" "refuses (check_type J D v s)" "refuses (check_enum J D v s)"
  "refuses (check_const J D v s)" "refuses (check_numeric J D v s)" "refuses (check_size J D ill violated bounds n s)"
  "refuses (check_required J v s)"
  using type_matches_any_refuses [of J D v]
  by (auto simp: turbo_tool_schema_check_keywords_def check_type_def check_enum_def check_const_def check_numeric_def check_size_def
      check_required_def refuses_def [of None] refuses_def [of "Some _"] intro!: map_refuses split: option.split)

lemma validate_node_refuses: "refuses (turbo_tool_schema_validate_node J D v s depth)"
proof (induction "65 - depth" arbitrary: depth v s rule: less_induct)
  case less
  define node where "node = (\<lambda>v s. turbo_tool_schema_validate_node J D v s (depth + 1))"
  note simple = refuses_def [of None] refuses_def [of "Some _"]
  show ?case
  proof (cases "depth \<le> TURBO_TOOL_SCHEMA_MAX_DEPTH")
    case True
    then have IH: "refuses (node x sub)" for x sub
      unfolding node_def by (intro less) (simp add: TURBO_TOOL_SCHEMA_MAX_DEPTH_def)
    have "refuses (check_items J node v s)"
      by (auto simp: check_items_def simple IH intro!: map_refuses split: option.split)
    moreover have "refuses (check_properties J node v s)"
      by (auto simp: check_properties_def check_property_def simple IH intro!: map_refuses split: option.split)
    moreover have "refuses (check_others J node v s)"
      by (auto simp: check_others_def check_additional_def Let_def simple IH intro!: map_refuses split: option.split)
    ultimately show ?thesis
      unfolding validate_node_checks [OF True node_def]
      by (intro first_failed_refuses)
        (auto simp: keyword_checks_refuse array_bounds_def object_bounds_def check_string_def simple)
  next
    case False
    then show ?thesis by (subst turbo_tool_schema_validate_node.simps) (simp add: simple)
  qed
qed

lemma validate_arguments_status:
  assumes "turbo_tool_schema_parse_parameters J d a = (Some schema, a')"
  shows "fst (turbo_tool_schema_validate_arguments_json_value J D d (Some args) capacity a) =
    fst (status_of_check capacity (turbo_tool_schema_validate_node J D args schema 0))"
proof -
  have "\<not> (td_parameters_json d = None \<and> td_parameters_schema d = None)"
    using assms by (auto simp: turbo_tool_schema_parse_parameters_def turbo_tool_schema_parse_parameters_json_def split: option.splits)
  then show ?thesis
    using assms by (auto simp: turbo_tool_schema_validate_arguments_json_value_def split: prod.split)
qed

text \<open>C12. The validator of tool arguments agrees with what the keywords of a schema demand. Whatever the schema, arguments that
  are called valid satisfy every supported keyword at every level: types, enumerations and constants compared as trees, numeric
  and size bounds, required, listed and additional properties, items. If the schema is well formed and at most 65 levels deep,
  the arguments are called valid exactly when they satisfy it, and every other value is called invalid, never unsupported.\<close>

theorem validator_decides_schema:
  assumes "json_object_laws J" and "json_array_laws J" and "turbo_tool_schema_parse_parameters J d a = (Some schema, a')"
    and "turbo_tool_schema_validate_arguments_json_value J D d (Some args) capacity a = (status, diagnostic, a'')"
  shows "(status = TURBO_TOOL_SCHEMA_VALID \<longrightarrow> matches_schema J D args schema) \<and>
    (schema_ok J D (Suc TURBO_TOOL_SCHEMA_MAX_DEPTH) schema \<longrightarrow>
       status = (if matches_schema J D args schema then TURBO_TOOL_SCHEMA_VALID else TURBO_TOOL_SCHEMA_VALUE_INVALID))"
proof -
  have status: "status = fst (status_of_check capacity (turbo_tool_schema_validate_node J D args schema 0))"
    using validate_arguments_status [OF assms(3), of D args capacity] assms(4) by simp
  show ?thesis
    using status_of_settled [OF validate_node_sound [OF assms(1,2)], of capacity D args schema 0]
      validate_node_refuses [of J D args schema 0] validate_node_complete [OF assms(1,2), of D _ schema 0 args] status_of_decided
    unfolding status refuses_def by auto
qed

definition int_doubles :: "int c_doubles" where
  "int_doubles = \<lparr>cd_isfinite = (\<lambda>_. True), cd_integral = (\<lambda>_. True), cd_eq = (=), cd_less = (<), cd_less_eq = (\<le>),
     cd_max_safe_integer = 2 ^ 53 - 1, cd_size_max = 2 ^ 64, cd_size_of = nat\<rparr>"

definition count_schema :: jv where
  "count_schema = JObj [(''type'', JStr ''integer''), (''minimum'', JInt 1)]"

definition request_schema :: jv where
  "request_schema = JObj [(''type'', JStr ''object''), (''properties'', JObj [(''n'', count_schema)]), (''required'', JArr [JStr ''n''])]"

definition request_tool :: "(jv, unit) turbo_tool_definition" where
  "request_tool = (echo_tool ''r'')\<lparr>td_parameters_schema := Some request_schema, td_strict := 1\<rparr>"

definition closed_request :: jv where
  "closed_request = close_strict ref_json 1 request_schema"

lemma count_schema_ok: "schema_ok ref_json int_doubles (Suc n) count_schema"
  by (rule schema_ok.intros)
    (auto simp: count_schema_def ref_json_def type_ok_def type_name_ok_def known_types_def int_doubles_def size_keys_def bound_keys_def
      turbo_tool_schema_supported_keyword_def turbo_tool_schema_annotation_keyword_def split: if_splits)

lemma closed_request_ok: "schema_ok ref_json int_doubles (Suc (Suc n)) closed_request"
proof -
  have get: "jl_object_get ref_json closed_request k =
      (if k = ''additionalProperties'' then Some (JBool False) else map_of (jv_members request_schema) k)" for k
    by (simp add: closed_request_def close_strict_def request_schema_def ref_json_def)
  show ?thesis
    by (rule schema_ok.intros)
      (auto simp: get request_schema_def ref_json_def type_ok_def type_name_ok_def known_types_def size_keys_def bound_keys_def element_def
        closed_request_def close_strict_def count_schema_ok [unfolded ref_json_def] turbo_tool_schema_supported_keyword_def
        turbo_tool_schema_annotation_keyword_def split: if_splits)
qed

lemma validator_decides_schema_witness:
  "matches_schema ref_json int_doubles (JObj [(''n'', JInt 3)]) closed_request \<and>
   \<not> matches_schema ref_json int_doubles (JObj [(''n'', JInt 0)]) closed_request"
proof -
  have parsed: "turbo_tool_schema_parse_parameters ref_json request_tool [] = (Some closed_request, [])"
    by (simp add: turbo_tool_schema_parse_parameters_def request_tool_def closed_request_def json_create_def Let_def)
  have valid: "turbo_tool_schema_validate_arguments_json_value ref_json int_doubles request_tool (Some (JObj [(''n'', JInt 3)])) 0 [] =
      (TURBO_TOOL_SCHEMA_VALID, [], [])"
    and invalid: "turbo_tool_schema_validate_arguments_json_value ref_json int_doubles request_tool (Some (JObj [(''n'', JInt 0)])) 0 [] =
      (TURBO_TOOL_SCHEMA_VALUE_INVALID, [], [])"
    by code_simp+
  have ok: "schema_ok ref_json int_doubles (Suc TURBO_TOOL_SCHEMA_MAX_DEPTH) closed_request"
    using closed_request_ok [of 63] by (simp add: TURBO_TOOL_SCHEMA_MAX_DEPTH_def)
  show ?thesis
    using validator_decides_schema [OF ref_object_laws ref_array_laws parsed valid]
      validator_decides_schema [OF ref_object_laws ref_array_laws parsed invalid] ok by auto
qed

end
