(* ===== verification/Tool_Runtime.thy ===== *)
theory Tool_Runtime
  imports Tool_Registry
begin

section \<open>Tool runtimes: runtime\_tools/src/turbo\_tool\_runtime.c\<close>

text \<open>
  A runtime is a catalog of tools behind a table of callbacks, shared by reference counting. Its tools are added to
  registries as bridges, which hold a reference to the runtime and forward calls to it. The native runtime is a
  runtime over a registry of its own.

  A table of callbacks is a record of functions that already know their \<open>impl\<close>; those that take it as \<open>const\<close> read the
  world, the others change it. The structure a callback fills in is its argument and its result. The reference counts are in
  the memory the callbacks see (\<open>runtimes\<close>), by the address of the runtime; the fields that never change are the record
  \<open>turbo_tool_runtime\<close>. The registry of a native runtime is in that memory too, behind the two accessors of the record
  \<open>native_impl\<close>: a comparison of \<open>vtable_v4\<close> with the native table is a test for them.
\<close>

record 'v runtimes =
  rs_refs :: "nat \<rightharpoonup> size_t"
  rs_rest :: 'v

type_synonym 'v rworld = "'v runtimes world"

subsection \<open>turbo\_tool\_runtime.h\<close>

record 'j turbo_tool_runtime_tool =
  rt_name :: cstr
  rt_description :: cstr
  rt_parameters_json :: cstr
  rt_parameters_schema :: "'j option"
  rt_strict :: int

record 'j turbo_tool_runtime_tool_v2 =
  r2_struct_size :: size_t
  r2_abi_version :: "32 word"
  r2_base :: "'j turbo_tool_runtime_tool"
  r2_result_schema_json :: cstr
  r2_strict_result :: int

record 'j turbo_tool_runtime_tool_v3 =
  r3_struct_size :: size_t
  r3_abi_version :: "32 word"
  r3_base :: "'j turbo_tool_runtime_tool_v2"
  r3_effect_flags :: u64

definition sizeof_runtime_tool_v2 :: size_t where "sizeof_runtime_tool_v2 = 72"

definition sizeof_runtime_tool_v3 :: size_t where "sizeof_runtime_tool_v3 = 96"

text \<open>The structures with every byte 0.\<close>

definition zero_tool :: "'j turbo_tool_runtime_tool" where
  "zero_tool = \<lparr>rt_name = None, rt_description = None, rt_parameters_json = None, rt_parameters_schema = None, rt_strict = 0\<rparr>"

definition zero_tool_v2 :: "'j turbo_tool_runtime_tool_v2" where
  "zero_tool_v2 = \<lparr>r2_struct_size = 0, r2_abi_version = 0, r2_base = zero_tool, r2_result_schema_json = None, r2_strict_result = 0\<rparr>"

definition zero_tool_v3 :: "'j turbo_tool_runtime_tool_v3" where
  "zero_tool_v3 = \<lparr>r3_struct_size = 0, r3_abi_version = 0, r3_base = zero_tool_v2, r3_effect_flags = 0\<rparr>"

type_synonym ('t, 'v) tool_reader = "nat \<Rightarrow> 't \<Rightarrow> 'v rworld \<Rightarrow> turbo_tool_status_t \<times> 't"

record ('j, 'v) turbo_tool_runtime_vtable =
  vt_destroy :: "('v rworld \<Rightarrow> 'v rworld) option"
  vt_tool_count :: "('v rworld \<Rightarrow> nat) option"
  vt_get_tool :: "('j turbo_tool_runtime_tool, 'v) tool_reader option"
  vt_invoke :: "(string \<Rightarrow> string \<Rightarrow> 'v rworld \<Rightarrow> turbo_tool_status_t \<times> cstr \<times> 'v rworld) option"
  vt_invoke_json_value :: "(string \<Rightarrow> 'j option \<Rightarrow> 'v rworld \<Rightarrow> turbo_tool_status_t \<times> 'j option \<times> 'v rworld) option"

record ('j, 'v) turbo_tool_runtime_vtable_v2 =
  v2_struct_size :: size_t
  v2_abi_version :: "32 word"
  v2_base :: "('j, 'v) turbo_tool_runtime_vtable"
  v2_invoke_with_context ::
    "(string \<Rightarrow> string \<Rightarrow> ('j, 'v runtimes) turbo_tool_execution_context option \<Rightarrow> 'v rworld \<Rightarrow>
      turbo_tool_status_t \<times> cstr \<times> 'v rworld) option"
  v2_invoke_json_value_with_context ::
    "(string \<Rightarrow> 'j option \<Rightarrow> ('j, 'v runtimes) turbo_tool_execution_context option \<Rightarrow> 'v rworld \<Rightarrow>
      turbo_tool_status_t \<times> 'j option \<times> 'v rworld) option"

record ('j, 'v) turbo_tool_runtime_vtable_v3 =
  v3_struct_size :: size_t
  v3_abi_version :: "32 word"
  v3_base :: "('j, 'v) turbo_tool_runtime_vtable_v2"
  v3_get_tool_v2 :: "('j turbo_tool_runtime_tool_v2, 'v) tool_reader option"

record ('j, 'v) turbo_tool_runtime_vtable_v4 =
  v4_struct_size :: size_t
  v4_abi_version :: "32 word"
  v4_base :: "('j, 'v) turbo_tool_runtime_vtable_v3"
  v4_get_tool_v3 :: "('j turbo_tool_runtime_tool_v3, 'v) tool_reader option"

definition sizeof_runtime_vtable :: "32 word \<Rightarrow> size_t" where
  "sizeof_runtime_vtable v = (if v = 2 then 72 else if v = 3 then 96 else 120)"

record ('j, 'v, 'c) native_impl =
  ni_registry :: "'v rworld \<Rightarrow> ('j, 'v runtimes, 'c) turbo_tool_registry"
  ni_set_registry :: "('j, 'v runtimes, 'c) turbo_tool_registry \<Rightarrow> 'v rworld \<Rightarrow> 'v rworld"

record ('j, 'v, 'c) turbo_tool_runtime =
  tm_address :: nat
  tm_vtable :: "('j, 'v) turbo_tool_runtime_vtable"
  tm_vtable_v2 :: "('j, 'v) turbo_tool_runtime_vtable_v2 option"
  tm_vtable_v3 :: "('j, 'v) turbo_tool_runtime_vtable_v3 option"
  tm_vtable_v4 :: "('j, 'v) turbo_tool_runtime_vtable_v4 option"
  tm_native :: "('j, 'v, 'c) native_impl option"

abbreviation ref_counts :: "'v rworld \<Rightarrow> nat \<rightharpoonup> size_t" where
  "ref_counts w \<equiv> rs_refs (cancel_heap.more w)"

abbreviation put_refs :: "(nat \<rightharpoonup> size_t) \<Rightarrow> 'v rworld \<Rightarrow> 'v rworld" where
  "put_refs refs w \<equiv> cancel_heap.more_update (rs_refs_update (\<lambda>_. refs)) w"

definition turbo_tool_runtime_effect_flags_valid :: "u64 \<Rightarrow> bool" where
  "turbo_tool_runtime_effect_flags_valid flags =
     (if flags AND NOT TURBO_TOOL_EFFECT_KNOWN_MASK \<noteq> 0 then False
      else if flags = 0 then True
      else if flags AND TURBO_TOOL_EFFECT_UNKNOWN \<noteq> 0 \<and> flags \<noteq> TURBO_TOOL_EFFECT_UNKNOWN then False
      else if flags AND TURBO_TOOL_EFFECT_PURE \<noteq> 0 \<and> flags \<noteq> TURBO_TOOL_EFFECT_PURE then False
      else True)"

definition turbo_tool_runtime_strdup :: "cstr \<Rightarrow> alloc \<Rightarrow> cstr \<times> alloc" where
  "turbo_tool_runtime_strdup src a =
     (case src of None \<Rightarrow> (None, a) | Some s \<Rightarrow> (case alloc1 a of (ok, a) \<Rightarrow> (if ok then Some s else None, a)))"

subsection \<open>Creation\<close>

definition vtable_complete :: "('j, 'v) turbo_tool_runtime_vtable \<Rightarrow> bool" where
  "vtable_complete vtable \<longleftrightarrow>
     \<not> (Option.is_none (vt_destroy vtable) \<or> Option.is_none (vt_tool_count vtable) \<or> Option.is_none (vt_get_tool vtable) \<or>
        Option.is_none (vt_invoke vtable) \<or> Option.is_none (vt_invoke_json_value vtable))"

definition vtable_v2_complete :: "('j, 'v) turbo_tool_runtime_vtable_v2 \<Rightarrow> bool" where
  "vtable_v2_complete vtable \<longleftrightarrow>
     \<not> (v2_struct_size vtable < sizeof_runtime_vtable 2 \<or> v2_abi_version vtable \<noteq> 2 \<or> \<not> vtable_complete (v2_base vtable) \<or>
        Option.is_none (v2_invoke_with_context vtable) \<or> Option.is_none (v2_invoke_json_value_with_context vtable))"

definition vtable_v3_complete :: "('j, 'v) turbo_tool_runtime_vtable_v3 \<Rightarrow> bool" where
  "vtable_v3_complete vtable \<longleftrightarrow>
     \<not> (v3_struct_size vtable < sizeof_runtime_vtable 3 \<or> v3_abi_version vtable \<noteq> 3 \<or> \<not> vtable_v2_complete (v3_base vtable) \<or>
        Option.is_none (v3_get_tool_v2 vtable))"

definition vtable_v4_complete :: "('j, 'v) turbo_tool_runtime_vtable_v4 \<Rightarrow> bool" where
  "vtable_v4_complete vtable \<longleftrightarrow>
     \<not> (v4_struct_size vtable < sizeof_runtime_vtable 4 \<or> v4_abi_version vtable \<noteq> 4 \<or> \<not> vtable_v3_complete (v4_base vtable) \<or>
        Option.is_none (v4_get_tool_v3 vtable))"

definition run_destroy :: "('j, 'v) turbo_tool_runtime_vtable \<Rightarrow> 'v rworld \<Rightarrow> 'v rworld" where
  "run_destroy vtable w = (case vt_destroy vtable of None \<Rightarrow> w | Some destroy \<Rightarrow> destroy w)"

text \<open>What follows the tests in every version: an \<open>impl\<close> that is not null is destroyed when there is no memory.\<close>

definition new_runtime ::
    "('j, 'v) turbo_tool_runtime_vtable \<Rightarrow> ('j, 'v) turbo_tool_runtime_vtable_v2 option \<Rightarrow> ('j, 'v) turbo_tool_runtime_vtable_v3 option \<Rightarrow>
     ('j, 'v) turbo_tool_runtime_vtable_v4 option \<Rightarrow> ('j, 'v, 'c) native_impl option \<Rightarrow> bool \<Rightarrow> 'v rworld \<Rightarrow>
     ('j, 'v, 'c) turbo_tool_runtime option \<times> 'v rworld" where
  "new_runtime vtable vtable_v2 vtable_v3 vtable_v4 native impl w =
     (case ch_draw w of (ok, w) \<Rightarrow>
        if \<not> ok then (None, if impl then run_destroy vtable w else w)
        else (Some \<lparr>tm_address = ch_next w, tm_vtable = vtable, tm_vtable_v2 = vtable_v2, tm_vtable_v3 = vtable_v3,
                    tm_vtable_v4 = vtable_v4, tm_native = native\<rparr>,
              put_refs ((ref_counts w)(ch_next w \<mapsto> 1)) (w\<lparr>ch_next := Suc (ch_next w)\<rparr>)))"

definition turbo_tool_runtime_create ::
    "('j, 'v) turbo_tool_runtime_vtable option \<Rightarrow> bool \<Rightarrow> 'v rworld \<Rightarrow> ('j, 'v, 'c) turbo_tool_runtime option \<times> 'v rworld" where
  "turbo_tool_runtime_create vtable impl w =
     (case vtable of
        None \<Rightarrow> (None, w)
      | Some vt \<Rightarrow> if \<not> vtable_complete vt then (None, w) else new_runtime vt None None None None impl w)"

definition turbo_tool_runtime_create_v2 ::
    "('j, 'v) turbo_tool_runtime_vtable_v2 option \<Rightarrow> bool \<Rightarrow> 'v rworld \<Rightarrow> ('j, 'v, 'c) turbo_tool_runtime option \<times> 'v rworld" where
  "turbo_tool_runtime_create_v2 vtable impl w =
     (case vtable of
        None \<Rightarrow> (None, w)
      | Some vt \<Rightarrow> if \<not> vtable_v2_complete vt then (None, w) else new_runtime (v2_base vt) (Some vt) None None None impl w)"

definition turbo_tool_runtime_create_v3 ::
    "('j, 'v) turbo_tool_runtime_vtable_v3 option \<Rightarrow> bool \<Rightarrow> 'v rworld \<Rightarrow> ('j, 'v, 'c) turbo_tool_runtime option \<times> 'v rworld" where
  "turbo_tool_runtime_create_v3 vtable impl w =
     (case vtable of
        None \<Rightarrow> (None, w)
      | Some vt \<Rightarrow>
         if \<not> vtable_v3_complete vt then (None, w)
         else new_runtime (v2_base (v3_base vt)) (Some (v3_base vt)) (Some vt) None None impl w)"

text \<open>\<open>native\<close> is given with the native table only.\<close>

definition turbo_tool_runtime_create_v4 ::
    "('j, 'v) turbo_tool_runtime_vtable_v4 option \<Rightarrow> ('j, 'v, 'c) native_impl option \<Rightarrow> bool \<Rightarrow> 'v rworld \<Rightarrow>
     ('j, 'v, 'c) turbo_tool_runtime option \<times> 'v rworld" where
  "turbo_tool_runtime_create_v4 vtable native impl w =
     (case vtable of
        None \<Rightarrow> (None, w)
      | Some vt \<Rightarrow>
         if \<not> vtable_v4_complete vt then (None, w)
         else new_runtime (v2_base (v3_base (v4_base vt))) (Some (v3_base (v4_base vt))) (Some (v4_base vt)) (Some vt) native impl w)"

subsection \<open>Sharing\<close>

definition turbo_tool_runtime_retain :: "('j, 'v, 'c) turbo_tool_runtime \<Rightarrow> 'v rworld \<Rightarrow> 'v rworld" where
  "turbo_tool_runtime_retain runtime w =
     (case ref_counts w (tm_address runtime) of
        None \<Rightarrow> w
      | Some ref_count \<Rightarrow> put_refs ((ref_counts w)(tm_address runtime \<mapsto> ref_count + 1)) w)"

definition turbo_tool_runtime_destroy :: "('j, 'v, 'c) turbo_tool_runtime \<Rightarrow> 'v rworld \<Rightarrow> 'v rworld" where
  "turbo_tool_runtime_destroy runtime w =
     (case ref_counts w (tm_address runtime) of
        None \<Rightarrow> w
      | Some ref_count \<Rightarrow>
         if ref_count > 1 then put_refs ((ref_counts w)(tm_address runtime \<mapsto> ref_count - 1)) w
         else (let w = run_destroy (tm_vtable runtime) w
               in put_refs ((ref_counts w)(tm_address runtime := None)) w))"

subsection \<open>Reading the catalog\<close>

definition turbo_tool_runtime_count :: "('j, 'v, 'c) turbo_tool_runtime \<Rightarrow> 'v rworld \<Rightarrow> nat" where
  "turbo_tool_runtime_count runtime w = (case vt_tool_count (tm_vtable runtime) of None \<Rightarrow> 0 | Some tool_count \<Rightarrow> tool_count w)"

text \<open>A callback that is missing cannot be called: creation refuses such a table.\<close>

definition read_tool :: "('t, 'v) tool_reader option \<Rightarrow> nat \<Rightarrow> 't \<Rightarrow> 'v rworld \<Rightarrow> turbo_tool_status_t \<times> 't" where
  "read_tool reader index out_tool w = (case reader of None \<Rightarrow> (TURBO_TOOL_ERROR, out_tool) | Some get_tool \<Rightarrow> get_tool index out_tool w)"

definition turbo_tool_runtime_get_tool ::
    "('j, 'v, 'c) turbo_tool_runtime \<Rightarrow> nat \<Rightarrow> 'j turbo_tool_runtime_tool \<Rightarrow> 'v rworld \<Rightarrow> turbo_tool_status_t \<times> 'j turbo_tool_runtime_tool" where
  "turbo_tool_runtime_get_tool runtime index out_tool w = read_tool (vt_get_tool (tm_vtable runtime)) index out_tool w"

definition turbo_tool_runtime_get_tool_v2 ::
    "('j, 'v, 'c) turbo_tool_runtime \<Rightarrow> nat \<Rightarrow> 'v rworld \<Rightarrow> turbo_tool_status_t \<times> 'j turbo_tool_runtime_tool_v2" where
  "turbo_tool_runtime_get_tool_v2 runtime index w =
     (let out_tool = zero_tool_v2\<lparr>r2_struct_size := sizeof_runtime_tool_v2, r2_abi_version := 2\<rparr>
      in case tm_vtable_v3 runtime of
           Some vt \<Rightarrow>
             (case read_tool (v3_get_tool_v2 vt) index out_tool w of (status, out_tool) \<Rightarrow>
                if status \<noteq> TURBO_TOOL_OK then (status, out_tool)
                else if r2_struct_size out_tool < sizeof_runtime_tool_v2 \<or> r2_abi_version out_tool \<noteq> 2
                then (TURBO_TOOL_ERROR, zero_tool_v2)
                else (TURBO_TOOL_OK, out_tool))
         | None \<Rightarrow>
            (case read_tool (vt_get_tool (tm_vtable runtime)) index (r2_base out_tool) w of (status, base) \<Rightarrow>
               if status \<noteq> TURBO_TOOL_OK then (status, out_tool\<lparr>r2_base := base\<rparr>)
               else (TURBO_TOOL_OK, out_tool\<lparr>r2_base := base, r2_result_schema_json := None, r2_strict_result := 0\<rparr>)))"

definition turbo_tool_runtime_get_tool_v3 ::
    "('j, 'v, 'c) turbo_tool_runtime \<Rightarrow> nat \<Rightarrow> 'v rworld \<Rightarrow> turbo_tool_status_t \<times> 'j turbo_tool_runtime_tool_v3" where
  "turbo_tool_runtime_get_tool_v3 runtime index w =
     (let out_tool = zero_tool_v3\<lparr>r3_struct_size := sizeof_runtime_tool_v3, r3_abi_version := 3\<rparr>
      in case tm_vtable_v4 runtime of
           Some vt \<Rightarrow>
             (case read_tool (v4_get_tool_v3 vt) index out_tool w of (status, out_tool) \<Rightarrow>
                if status \<noteq> TURBO_TOOL_OK then (status, out_tool)
                else if r3_struct_size out_tool < sizeof_runtime_tool_v3 \<or> r3_abi_version out_tool \<noteq> 3 \<or>
                        \<not> turbo_tool_runtime_effect_flags_valid (r3_effect_flags out_tool)
                then (TURBO_TOOL_ERROR, zero_tool_v3)
                else (TURBO_TOOL_OK,
                      if r3_effect_flags out_tool = 0 then out_tool\<lparr>r3_effect_flags := TURBO_TOOL_EFFECT_UNKNOWN\<rparr> else out_tool))
         | None \<Rightarrow>
            (case turbo_tool_runtime_get_tool_v2 runtime index w of (status, base) \<Rightarrow>
               if status \<noteq> TURBO_TOOL_OK then (status, out_tool\<lparr>r3_base := base\<rparr>)
               else (TURBO_TOOL_OK, out_tool\<lparr>r3_base := base, r3_effect_flags := TURBO_TOOL_EFFECT_UNKNOWN\<rparr>)))"

subsection \<open>Invocation\<close>

text \<open>As above, a callback that is missing cannot be called.\<close>

definition call_runtime :: "('v rworld \<Rightarrow> turbo_tool_status_t \<times> 'o option \<times> 'v rworld) option \<Rightarrow> 'v rworld \<Rightarrow>
    turbo_tool_status_t \<times> 'o option \<times> 'v rworld" where
  "call_runtime callback w = (case callback of None \<Rightarrow> (TURBO_TOOL_ERROR, None, w) | Some invoke \<Rightarrow> invoke w)"

definition turbo_tool_runtime_invoke ::
    "('j, 'v, 'c) turbo_tool_runtime \<Rightarrow> string \<Rightarrow> cstr \<Rightarrow> 'v rworld \<Rightarrow> turbo_tool_status_t \<times> cstr \<times> 'v rworld" where
  "turbo_tool_runtime_invoke runtime name arguments_json w =
     call_runtime (map_option (\<lambda>invoke. invoke name (arguments_or_empty arguments_json)) (vt_invoke (tm_vtable runtime))) w"

definition turbo_tool_runtime_invoke_with_context ::
    "('j, 'v, 'c) turbo_tool_runtime \<Rightarrow> string \<Rightarrow> cstr \<Rightarrow> ('j, 'v runtimes) turbo_tool_execution_context option \<Rightarrow> 'v rworld \<Rightarrow>
     turbo_tool_status_t \<times> cstr \<times> 'v rworld" where
  "turbo_tool_runtime_invoke_with_context runtime name arguments_json context w =
     (case tm_vtable_v2 runtime of
        Some vt \<Rightarrow>
          call_runtime (map_option (\<lambda>invoke. invoke name (arguments_or_empty arguments_json) context) (v2_invoke_with_context vt)) w
      | None \<Rightarrow>
          call_runtime (map_option (\<lambda>invoke. invoke name (arguments_or_empty arguments_json)) (vt_invoke (tm_vtable runtime))) w)"

definition turbo_tool_runtime_invoke_json_value ::
    "('j, 'v, 'c) turbo_tool_runtime \<Rightarrow> string \<Rightarrow> 'j option \<Rightarrow> 'v rworld \<Rightarrow> turbo_tool_status_t \<times> 'j option \<times> 'v rworld" where
  "turbo_tool_runtime_invoke_json_value runtime name arguments w =
     call_runtime (map_option (\<lambda>invoke. invoke name arguments) (vt_invoke_json_value (tm_vtable runtime))) w"

definition turbo_tool_runtime_invoke_json_value_with_context ::
    "('j, 'v, 'c) turbo_tool_runtime \<Rightarrow> string \<Rightarrow> 'j option \<Rightarrow> ('j, 'v runtimes) turbo_tool_execution_context option \<Rightarrow> 'v rworld \<Rightarrow>
     turbo_tool_status_t \<times> 'j option \<times> 'v rworld" where
  "turbo_tool_runtime_invoke_json_value_with_context runtime name arguments context w =
     (case tm_vtable_v2 runtime of
        Some vt \<Rightarrow> call_runtime (map_option (\<lambda>invoke. invoke name arguments context) (v2_invoke_json_value_with_context vt)) w
      | None \<Rightarrow> call_runtime (map_option (\<lambda>invoke. invoke name arguments) (vt_invoke_json_value (tm_vtable runtime))) w)"

subsection \<open>Native runtimes\<close>

definition turbo_tool_runtime_native_destroy_impl :: "('j, 'v, 'c) native_impl \<Rightarrow> 'v rworld \<Rightarrow> 'v rworld" where
  "turbo_tool_runtime_native_destroy_impl impl w = turbo_tool_registry_destroy (ni_registry impl w) w"

definition turbo_tool_runtime_native_tool_count :: "('j, 'v, 'c) native_impl \<Rightarrow> 'v rworld \<Rightarrow> nat" where
  "turbo_tool_runtime_native_tool_count impl w = turbo_tool_registry_count (ni_registry impl w)"

text \<open>The fields of a definition that the catalog shows.\<close>

definition tool_of_definition :: "('j, 'u) turbo_tool_definition \<Rightarrow> 'j turbo_tool_runtime_tool" where
  "tool_of_definition definition' =
     \<lparr>rt_name = td_name definition', rt_description = td_description definition', rt_parameters_json = td_parameters_json definition',
      rt_parameters_schema = td_parameters_schema definition', rt_strict = td_strict definition'\<rparr>"

definition turbo_tool_runtime_native_get_tool :: "('j, 'v, 'c) native_impl \<Rightarrow> ('j turbo_tool_runtime_tool, 'v) tool_reader" where
  "turbo_tool_runtime_native_get_tool impl index out_tool w =
     (case turbo_tool_registry_get_definition (ni_registry impl w) index of
        (TURBO_TOOL_OK, Some definition') \<Rightarrow> (TURBO_TOOL_OK, tool_of_definition definition')
      | (status, _) \<Rightarrow> (status, out_tool))"

definition turbo_tool_runtime_native_get_tool_v2 :: "('j, 'v, 'c) native_impl \<Rightarrow> ('j turbo_tool_runtime_tool_v2, 'v) tool_reader" where
  "turbo_tool_runtime_native_get_tool_v2 impl index out_tool w =
     (case turbo_tool_registry_get_definition (ni_registry impl w) index of
        (TURBO_TOOL_OK, Some definition') \<Rightarrow>
          (case turbo_tool_registry_get_result_contract (ni_registry impl w) (the (td_name definition')) of
             (status, result_schema_json, result_schema, strict_result) \<Rightarrow>
               if status \<noteq> TURBO_TOOL_OK then (status, out_tool)
               else (TURBO_TOOL_OK, \<lparr>r2_struct_size = sizeof_runtime_tool_v2, r2_abi_version = 2, r2_base = tool_of_definition definition',
                      r2_result_schema_json = result_schema_json, r2_strict_result = strict_result\<rparr>))
      | (status, _) \<Rightarrow> (status, out_tool))"

definition turbo_tool_runtime_native_get_tool_v3 :: "('j, 'v, 'c) native_impl \<Rightarrow> ('j turbo_tool_runtime_tool_v3, 'v) tool_reader" where
  "turbo_tool_runtime_native_get_tool_v3 impl index out_tool w =
     (let out_tool = zero_tool_v3\<lparr>r3_struct_size := sizeof_runtime_tool_v3, r3_abi_version := 3\<rparr>
      in case turbo_tool_runtime_native_get_tool_v2 impl index (r3_base out_tool) w of (status, base) \<Rightarrow>
           (let out_tool = out_tool\<lparr>r3_base := base\<rparr>
            in if status \<noteq> TURBO_TOOL_OK then (status, out_tool)
               else
                 (case turbo_tool_registry_get_effects (ni_registry impl w) (the (rt_name (r2_base base))) of (status, effects) \<Rightarrow>
                    if status \<noteq> TURBO_TOOL_OK then (status, out_tool)
                    else (TURBO_TOOL_OK, out_tool\<lparr>r3_effect_flags := effects\<rparr>))))"

definition turbo_tool_runtime_native_invoke ::
    "('j, 'v, 'c) native_impl \<Rightarrow> string \<Rightarrow> string \<Rightarrow> 'v rworld \<Rightarrow> turbo_tool_status_t \<times> cstr \<times> 'v rworld" where
  "turbo_tool_runtime_native_invoke impl name arguments_json w =
     turbo_tool_registry_execute (ni_registry impl w) name (Some arguments_json) w"

definition turbo_tool_runtime_native_invoke_json_value ::
    "('j, 'v, 'c) native_impl \<Rightarrow> string \<Rightarrow> 'j option \<Rightarrow> 'v rworld \<Rightarrow> turbo_tool_status_t \<times> 'j option \<times> 'v rworld" where
  "turbo_tool_runtime_native_invoke_json_value impl name arguments w =
     turbo_tool_registry_execute_json_value (ni_registry impl w) name arguments w"

definition turbo_tool_runtime_native_invoke_with_context ::
    "('j, 'v, 'c) native_impl \<Rightarrow> string \<Rightarrow> string \<Rightarrow> ('j, 'v runtimes) turbo_tool_execution_context option \<Rightarrow> 'v rworld \<Rightarrow>
     turbo_tool_status_t \<times> cstr \<times> 'v rworld" where
  "turbo_tool_runtime_native_invoke_with_context impl name arguments_json context w =
     turbo_tool_registry_execute_with_context (ni_registry impl w) name (Some arguments_json) context w"

definition turbo_tool_runtime_native_invoke_json_value_with_context ::
    "('j, 'v, 'c) native_impl \<Rightarrow> string \<Rightarrow> 'j option \<Rightarrow> ('j, 'v runtimes) turbo_tool_execution_context option \<Rightarrow> 'v rworld \<Rightarrow>
     turbo_tool_status_t \<times> 'j option \<times> 'v rworld" where
  "turbo_tool_runtime_native_invoke_json_value_with_context impl name arguments context w =
     turbo_tool_registry_execute_json_value_with_context (ni_registry impl w) name arguments context w"

definition turbo_tool_runtime_native_vtable :: "('j, 'v, 'c) native_impl \<Rightarrow> ('j, 'v) turbo_tool_runtime_vtable_v4" where
  "turbo_tool_runtime_native_vtable impl =
     \<lparr>v4_struct_size = sizeof_runtime_vtable 4, v4_abi_version = 4,
      v4_base = \<lparr>v3_struct_size = sizeof_runtime_vtable 3, v3_abi_version = 3,
        v3_base = \<lparr>v2_struct_size = sizeof_runtime_vtable 2, v2_abi_version = 2,
          v2_base = \<lparr>vt_destroy = Some (turbo_tool_runtime_native_destroy_impl impl),
            vt_tool_count = Some (turbo_tool_runtime_native_tool_count impl),
            vt_get_tool = Some (turbo_tool_runtime_native_get_tool impl), vt_invoke = Some (turbo_tool_runtime_native_invoke impl),
            vt_invoke_json_value = Some (turbo_tool_runtime_native_invoke_json_value impl)\<rparr>,
          v2_invoke_with_context = Some (turbo_tool_runtime_native_invoke_with_context impl),
          v2_invoke_json_value_with_context = Some (turbo_tool_runtime_native_invoke_json_value_with_context impl)\<rparr>,
        v3_get_tool_v2 = Some (turbo_tool_runtime_native_get_tool_v2 impl)\<rparr>,
      v4_get_tool_v3 = Some (turbo_tool_runtime_native_get_tool_v3 impl)\<rparr>"

text \<open>The accessors stand for the \<open>impl\<close> that is allocated here.\<close>

definition turbo_tool_runtime_native_create ::
    "('j, 'v, 'c) native_impl \<Rightarrow> 'v rworld \<Rightarrow> ('j, 'v, 'c) turbo_tool_runtime option \<times> 'v rworld" where
  "turbo_tool_runtime_native_create impl w =
     (case ch_draw w of (ok, w) \<Rightarrow>
        if \<not> ok then (None, w)
        else
          (case turbo_tool_registry_create (ch_alloc w) of
             (None, a) \<Rightarrow> (None, w\<lparr>ch_alloc := a\<rparr>)
           | (Some registry, a) \<Rightarrow>
              turbo_tool_runtime_create_v4 (Some (turbo_tool_runtime_native_vtable impl)) (Some impl) True
                (ni_set_registry impl registry (w\<lparr>ch_alloc := a\<rparr>))))"

text \<open>What the operations on a native runtime share: the registry is read, changed and written back.\<close>

definition change_native ::
    "('j, 'v, 'c) turbo_tool_runtime \<Rightarrow> (('j, 'v runtimes, 'c) turbo_tool_registry \<Rightarrow> alloc \<Rightarrow>
       turbo_tool_status_t \<times> ('j, 'v runtimes, 'c) turbo_tool_registry \<times> alloc) \<Rightarrow> 'v rworld \<Rightarrow> turbo_tool_status_t \<times> 'v rworld" where
  "change_native runtime change w =
     (case tm_native runtime of
        None \<Rightarrow> (TURBO_TOOL_INVALID_ARGUMENT, w)
      | Some impl \<Rightarrow>
         (case change (ni_registry impl w) (ch_alloc w) of (status, registry, a) \<Rightarrow>
            (status, ni_set_registry impl registry (w\<lparr>ch_alloc := a\<rparr>))))"

definition turbo_tool_runtime_native_add_tool ::
    "('j, 'd) json_lib \<Rightarrow> ('j, 'v, 'c) turbo_tool_runtime \<Rightarrow> ('j, 'v runtimes) turbo_tool_definition \<Rightarrow> 'v rworld \<Rightarrow>
     turbo_tool_status_t \<times> 'v rworld" where
  "turbo_tool_runtime_native_add_tool J runtime definition' w =
     change_native runtime (\<lambda>registry. turbo_tool_registry_add J registry definition') w"

definition turbo_tool_runtime_native_add_tool_v5 ::
    "('j, 'd) json_lib \<Rightarrow> ('j, 'v, 'c) turbo_tool_runtime \<Rightarrow> ('j, 'v runtimes) turbo_tool_definition_v5 \<Rightarrow> 'v rworld \<Rightarrow>
     turbo_tool_status_t \<times> 'v rworld" where
  "turbo_tool_runtime_native_add_tool_v5 J runtime definition' w =
     change_native runtime (\<lambda>registry. turbo_tool_registry_add_v5 J registry definition') w"

definition turbo_tool_runtime_native_add_tool_v6 ::
    "('j, 'd) json_lib \<Rightarrow> ('j, 'v, 'c) turbo_tool_runtime \<Rightarrow> ('j, 'v runtimes) turbo_tool_definition_v6 \<Rightarrow> 'v rworld \<Rightarrow>
     turbo_tool_status_t \<times> 'v rworld" where
  "turbo_tool_runtime_native_add_tool_v6 J runtime definition' w =
     change_native runtime (\<lambda>registry. turbo_tool_registry_add_v6 J registry definition') w"

definition turbo_tool_runtime_native_publish_native_projection ::
    "'c cmeta_lib \<Rightarrow> ('j, 'v, 'c) turbo_tool_runtime \<Rightarrow> string \<Rightarrow> 'c turbo_tool_native_projection \<Rightarrow> 'v rworld \<Rightarrow>
     turbo_tool_status_t \<times> 'v rworld" where
  "turbo_tool_runtime_native_publish_native_projection M runtime name projection w =
     change_native runtime (\<lambda>registry a.
       case turbo_tool_registry_publish_native_projection M registry name projection of (status, registry) \<Rightarrow> (status, registry, a)) w"

definition turbo_tool_runtime_native_get_native_projection ::
    "('j, 'v, 'c) turbo_tool_runtime \<Rightarrow> string \<Rightarrow> 'v rworld \<Rightarrow> turbo_tool_status_t \<times> 'c turbo_tool_native_projection option" where
  "turbo_tool_runtime_native_get_native_projection runtime name w =
     (case tm_native runtime of
        None \<Rightarrow> (TURBO_TOOL_INVALID_ARGUMENT, None)
      | Some impl \<Rightarrow> turbo_tool_registry_get_native_projection (ni_registry impl w) name)"

subsection \<open>Bridges\<close>

text \<open>The entry a bridge owns: the runtime and the name of the tool in it. Its handlers get it as their user data.\<close>

definition turbo_tool_runtime_bridge_handler :: "('j, 'v, 'c) turbo_tool_runtime \<Rightarrow> string \<Rightarrow> 'v runtimes tool_handler" where
  "turbo_tool_runtime_bridge_handler runtime name arguments_json w =
     (case turbo_tool_runtime_invoke runtime name (Some arguments_json) w of (status, output, w) \<Rightarrow>
        (if status = TURBO_TOOL_OK then 0 else - 1, output, w))"

definition turbo_tool_runtime_bridge_json_value_handler ::
    "('j, 'v, 'c) turbo_tool_runtime \<Rightarrow> string \<Rightarrow> ('j, 'v runtimes) tool_json_value_handler" where
  "turbo_tool_runtime_bridge_json_value_handler runtime name arguments w =
     (case turbo_tool_runtime_invoke_json_value runtime name arguments w of (status, result, w) \<Rightarrow>
        (if status = TURBO_TOOL_OK then 0 else - 1, result, w))"

definition turbo_tool_runtime_bridge_context_handler ::
    "('j, 'v, 'c) turbo_tool_runtime \<Rightarrow> string \<Rightarrow> ('j, 'v runtimes) tool_context_handler" where
  "turbo_tool_runtime_bridge_context_handler runtime name arguments_json context w =
     turbo_tool_runtime_invoke_with_context runtime name (Some arguments_json) context w"

definition turbo_tool_runtime_bridge_json_value_context_handler ::
    "('j, 'v, 'c) turbo_tool_runtime \<Rightarrow> string \<Rightarrow> ('j, 'v runtimes) tool_json_value_context_handler" where
  "turbo_tool_runtime_bridge_json_value_context_handler runtime name arguments context w =
     turbo_tool_runtime_invoke_json_value_with_context runtime name arguments context w"

definition turbo_tool_runtime_bridge_entry_destroy :: "('j, 'v, 'c) turbo_tool_runtime \<Rightarrow> 'v rworld \<Rightarrow> 'v rworld" where
  "turbo_tool_runtime_bridge_entry_destroy runtime w = turbo_tool_runtime_destroy runtime w"

definition turbo_tool_runtime_execution_policy_valid :: "turbo_tool_execution_policy option \<Rightarrow> bool" where
  "turbo_tool_runtime_execution_policy_valid policy =
     (case policy of
        None \<Rightarrow> False
      | Some p \<Rightarrow>
         \<not> (ep_mode p < TURBO_TOOL_EXECUTION_SEQUENTIAL \<or> ep_mode p > TURBO_TOOL_EXECUTION_EXCLUSIVE) \<and>
         ep_idempotency p \<ge> TURBO_TOOL_IDEMPOTENCY_NONE \<and> ep_idempotency p \<le> TURBO_TOOL_IDEMPOTENCY_READ_ONLY)"

text \<open>The loop that takes back the tools added so far.\<close>

fun rollback_loop ::
    "('j, 'v, 'c) turbo_tool_runtime \<Rightarrow> nat list \<Rightarrow> ('j, 'v runtimes, 'c) turbo_tool_registry \<Rightarrow> 'v rworld \<Rightarrow>
     ('j, 'v runtimes, 'c) turbo_tool_registry \<times> 'v rworld" where
  "rollback_loop runtime [] registry w = (registry, w)"
| "rollback_loop runtime (index # indices) registry w =
     (case turbo_tool_runtime_get_tool_v3 runtime index w of (status, tool) \<Rightarrow>
        (case rt_name (r2_base (r3_base tool)) of
           Some name \<Rightarrow>
             if status = TURBO_TOOL_OK
             then (case turbo_tool_registry_remove registry name w of (_, registry, w) \<Rightarrow> rollback_loop runtime indices registry w)
             else rollback_loop runtime indices registry w
         | None \<Rightarrow> rollback_loop runtime indices registry w))"

definition turbo_tool_runtime_rollback_registry ::
    "('j, 'v, 'c) turbo_tool_runtime \<Rightarrow> ('j, 'v runtimes, 'c) turbo_tool_registry \<Rightarrow> nat \<Rightarrow> 'v rworld \<Rightarrow>
     ('j, 'v runtimes, 'c) turbo_tool_registry \<times> 'v rworld" where
  "turbo_tool_runtime_rollback_registry runtime registry added_count w = rollback_loop runtime [0..<added_count] registry w"

text \<open>The first loop: whether a tool can be added, \<open>TURBO_TOOL_OK\<close> when every one can.\<close>

definition tool_addable ::
    "('j, 'v, 'c) turbo_tool_runtime \<Rightarrow> ('j, 'v runtimes, 'c) turbo_tool_registry \<Rightarrow> 'v rworld \<Rightarrow> nat \<Rightarrow> turbo_tool_status_t" where
  "tool_addable runtime registry w index =
     (case turbo_tool_runtime_get_tool_v3 runtime index w of (status, tool) \<Rightarrow>
        (let base = r2_base (r3_base tool)
         in if status \<noteq> TURBO_TOOL_OK \<or> rt_name base = None \<or> rt_description base = None \<or>
               (rt_parameters_json base = None \<and> rt_parameters_schema base = None)
            then (if status = TURBO_TOOL_OK then TURBO_TOOL_ERROR else status)
            else
              (case fst (turbo_tool_registry_get_execution_policy registry (the (rt_name base))) of
                 TURBO_TOOL_OK \<Rightarrow> TURBO_TOOL_DUPLICATE
               | TURBO_TOOL_NOT_FOUND \<Rightarrow> TURBO_TOOL_OK
               | status \<Rightarrow> status)))"

fun first_error :: "turbo_tool_status_t list \<Rightarrow> turbo_tool_status_t" where
  "first_error [] = TURBO_TOOL_OK"
| "first_error (status # statuses) = (if status \<noteq> TURBO_TOOL_OK then status else first_error statuses)"

definition turbo_tool_runtime_required_capabilities :: "cstr list" where
  "turbo_tool_runtime_required_capabilities = [Some ''runtime_tools'']"

definition bridge_definition ::
    "('j, 'v, 'c) turbo_tool_runtime \<Rightarrow> turbo_tool_execution_policy \<Rightarrow> 'j turbo_tool_runtime_tool_v3 \<Rightarrow> string \<Rightarrow>
     ('j, 'v runtimes) turbo_tool_definition_v6" where
  "bridge_definition runtime execution_policy tool name =
     (let base = r2_base (r3_base tool)
      in \<lparr>tv_struct_size = sizeof_definition 6, tv_abi_version = 6,
          tv_definition = \<lparr>td_name = rt_name base, td_description = rt_description base, td_parameters_json = rt_parameters_json base,
            td_parameters_schema = rt_parameters_schema base, td_strict = rt_strict base,
            td_handler = Some (turbo_tool_runtime_bridge_handler runtime name),
            td_json_value_handler = Some (turbo_tool_runtime_bridge_json_value_handler runtime name),
            td_user_data_free = Some (turbo_tool_runtime_bridge_entry_destroy runtime)\<rparr>,
          tv_execution_policy = execution_policy,
          tv_required_capabilities = Some turbo_tool_runtime_required_capabilities,
          tv_required_capability_count = length turbo_tool_runtime_required_capabilities,
          tv_context_handler = Some (turbo_tool_runtime_bridge_context_handler runtime name),
          tv_json_value_context_handler = Some (turbo_tool_runtime_bridge_json_value_context_handler runtime name),
          tv_result_schema_json = r2_result_schema_json (r3_base tool), tv_strict_result = r2_strict_result (r3_base tool),
          tv_effect_flags = r3_effect_flags tool\<rparr>)"

text \<open>The projection of a native tool goes with it: \<open>TURBO_TOOL_OK\<close>, or the error that undoes the addition.\<close>

definition publish_projection ::
    "'c cmeta_lib \<Rightarrow> ('j, 'v, 'c) turbo_tool_runtime \<Rightarrow> string \<Rightarrow> ('j, 'v runtimes, 'c) turbo_tool_registry \<Rightarrow> 'v rworld \<Rightarrow>
     turbo_tool_status_t \<times> ('j, 'v runtimes, 'c) turbo_tool_registry" where
  "publish_projection M runtime name registry w =
     (if tm_native runtime = None then (TURBO_TOOL_OK, registry)
      else
        (case (case turbo_tool_runtime_native_get_native_projection runtime name w of
                 (TURBO_TOOL_OK, Some projection) \<Rightarrow> turbo_tool_registry_publish_native_projection M registry name projection
               | (status, _) \<Rightarrow> (status, registry)) of
           (status, registry) \<Rightarrow> (if status = TURBO_TOOL_NOT_FOUND then TURBO_TOOL_OK else status, registry)))"

text \<open>One tool of the second loop. The new entry of the bridge is allocated with its name, and holds a reference.\<close>

definition add_tool ::
    "('j, 'd) json_lib \<Rightarrow> 'c cmeta_lib \<Rightarrow> ('j, 'v, 'c) turbo_tool_runtime \<Rightarrow> turbo_tool_execution_policy \<Rightarrow> nat \<Rightarrow>
     ('j, 'v runtimes, 'c) turbo_tool_registry \<Rightarrow> 'v rworld \<Rightarrow>
     turbo_tool_status_t \<times> ('j, 'v runtimes, 'c) turbo_tool_registry \<times> 'v rworld" where
  "add_tool J M runtime execution_policy index registry w =
     (let failed = (\<lambda>status registry w. case turbo_tool_runtime_rollback_registry runtime registry index w of
                      (registry, w) \<Rightarrow> (status, registry, w))
      in case turbo_tool_runtime_get_tool_v3 runtime index w of (status, tool) \<Rightarrow>
         if status \<noteq> TURBO_TOOL_OK then failed status registry w
         else
           (case ch_draw w of (ok, w) \<Rightarrow>
              if \<not> ok then failed TURBO_TOOL_OUT_OF_MEMORY registry w
              else
                (let w = turbo_tool_runtime_retain runtime w
                 in case turbo_tool_runtime_strdup (rt_name (r2_base (r3_base tool))) (ch_alloc w) of (name, a) \<Rightarrow>
                    (let w = w\<lparr>ch_alloc := a\<rparr>
                     in case name of
                          None \<Rightarrow> failed TURBO_TOOL_OUT_OF_MEMORY registry (turbo_tool_runtime_bridge_entry_destroy runtime w)
                        | Some name \<Rightarrow>
                           (case in_world (turbo_tool_registry_add_v6 J registry (bridge_definition runtime execution_policy tool name)) w of
                              (status, registry, w) \<Rightarrow>
                                if status \<noteq> TURBO_TOOL_OK
                                then failed status registry (turbo_tool_runtime_bridge_entry_destroy runtime w)
                                else
                                  (case publish_projection M runtime name registry w of (status, registry) \<Rightarrow>
                                     if status \<noteq> TURBO_TOOL_OK
                                     then (case turbo_tool_registry_remove registry name w of
                                             (_, registry, w) \<Rightarrow> failed status registry w)
                                     else (TURBO_TOOL_OK, registry, w)))))))"

fun add_tools ::
    "('j, 'd) json_lib \<Rightarrow> 'c cmeta_lib \<Rightarrow> ('j, 'v, 'c) turbo_tool_runtime \<Rightarrow> turbo_tool_execution_policy \<Rightarrow> nat list \<Rightarrow>
     ('j, 'v runtimes, 'c) turbo_tool_registry \<Rightarrow> 'v rworld \<Rightarrow>
     turbo_tool_status_t \<times> ('j, 'v runtimes, 'c) turbo_tool_registry \<times> 'v rworld" where
  "add_tools J M runtime execution_policy [] registry w = (TURBO_TOOL_OK, registry, w)"
| "add_tools J M runtime execution_policy (index # indices) registry w =
     (case add_tool J M runtime execution_policy index registry w of (status, registry, w) \<Rightarrow>
        if status \<noteq> TURBO_TOOL_OK then (status, registry, w)
        else add_tools J M runtime execution_policy indices registry w)"

definition turbo_tool_runtime_add_to_registry ::
    "('j, 'd) json_lib \<Rightarrow> 'c cmeta_lib \<Rightarrow> ('j, 'v, 'c) turbo_tool_runtime \<Rightarrow> ('j, 'v runtimes, 'c) turbo_tool_registry \<Rightarrow>
     turbo_tool_execution_policy option \<Rightarrow> 'v rworld \<Rightarrow>
     turbo_tool_status_t \<times> ('j, 'v runtimes, 'c) turbo_tool_registry \<times> 'v rworld" where
  "turbo_tool_runtime_add_to_registry J M runtime registry execution_policy w =
     (if \<not> turbo_tool_runtime_execution_policy_valid execution_policy then (TURBO_TOOL_INVALID_ARGUMENT, registry, w)
      else
        (let tool_count = turbo_tool_runtime_count runtime w;
             status = first_error (map (tool_addable runtime registry w) [0..<tool_count])
         in if status \<noteq> TURBO_TOOL_OK then (status, registry, w)
            else add_tools J M runtime (the execution_policy) [0..<tool_count] registry w))"

definition turbo_tool_runtime_build_registry_bridge ::
    "('j, 'd) json_lib \<Rightarrow> 'c cmeta_lib \<Rightarrow> ('j, 'v, 'c) turbo_tool_runtime \<Rightarrow> 'v rworld \<Rightarrow>
     ('j, 'v runtimes, 'c) turbo_tool_registry option \<times> 'v rworld" where
  "turbo_tool_runtime_build_registry_bridge J M runtime w =
     (case turbo_tool_registry_create (ch_alloc w) of
        (None, a) \<Rightarrow> (None, w\<lparr>ch_alloc := a\<rparr>)
      | (Some registry, a) \<Rightarrow>
         (case turbo_tool_runtime_add_to_registry J M runtime registry (Some legacy_policy) (w\<lparr>ch_alloc := a\<rparr>) of (status, registry, w) \<Rightarrow>
            if status \<noteq> TURBO_TOOL_OK then (None, turbo_tool_registry_destroy registry w) else (Some registry, w)))"

end
