(* ===== verification/Runtime_Promises.thy ===== *)
theory Runtime_Promises
  imports Tool_Runtime Tool_Promises
begin

section \<open>Tool runtimes keep their promises\<close>

text \<open>
  Adding a runtime to a registry adds all its tools, each with a reference to the runtime, or leaves the registry and the count of
  references as they were, whatever allocation fails and at whatever tool; a bridge forwards calls and gives the references back. All
  this rests on a catalog that stays the same while the call runs (\<open>steady\<close>), which the header of the runtime demands.
\<close>

subsection \<open>Worlds that differ in memory and counts\<close>

definition touched :: "alloc \<Rightarrow> (nat \<rightharpoonup> size_t) \<Rightarrow> 'v rworld \<Rightarrow> 'v rworld" where
  "touched a refs w = put_refs refs (w\<lparr>ch_alloc := a\<rparr>)"

lemma touched_simps [simp]:
  "ch_alloc (touched a refs w) = a" "ref_counts (touched a refs w) = refs"
  "(touched a refs w)\<lparr>ch_alloc := a'\<rparr> = touched a' refs w" "put_refs refs' (touched a refs w) = touched a refs' w"
  "touched a' refs' (touched a refs w) = touched a' refs' w"
  by (cases w; simp add: touched_def)+

lemma touched_same: "touched (ch_alloc w) (ref_counts w) w = w"
  by (cases w; cases "cancel_heap.more w") (simp add: touched_def)

definition steady :: "('j, 'v, 'c) turbo_tool_runtime \<Rightarrow> 'v rworld \<Rightarrow> bool" where
  "steady rt w \<longleftrightarrow> (\<forall>a refs. turbo_tool_runtime_count rt (touched a refs w) = turbo_tool_runtime_count rt w \<and>
     (\<forall>i. turbo_tool_runtime_get_tool_v3 rt i (touched a refs w) = turbo_tool_runtime_get_tool_v3 rt i w))"

definition catalog_name :: "('j, 'v, 'c) turbo_tool_runtime \<Rightarrow> 'v rworld \<Rightarrow> nat \<Rightarrow> string" where
  "catalog_name rt w i = the (rt_name (r2_base (r3_base (snd (turbo_tool_runtime_get_tool_v3 rt i w)))))"

lemma ch_draw_touched: "ch_draw (touched a refs w) = (case alloc1 a of (ok, a) \<Rightarrow> (ok, touched a refs w))"
  by (simp add: ch_draw_def split: prod.split)

subsection \<open>Counting references\<close>

lemma add_of_nat:
  fixes c :: size_t
  assumes "unat c + n < 2 ^ 64"
  shows "unat (c + of_nat n) = unat c + n"
  using assms by (simp add: unat_word_ariths unat_of_nat)

lemma count_above_one:
  fixes c :: size_t
  assumes "0 < c" and "unat c + Suc n < 2 ^ 64"
  shows "1 < c + of_nat (Suc n)"
proof -
  have "0 < unat c" using assms(1) by (simp add: unat_gt_0 word_gt_0)
  then have "unat (1 :: size_t) < unat (c + of_nat (Suc n))" using add_of_nat [OF assms(2)] by simp
  then show ?thesis by (simp only: word_less_nat_alt)
qed

lemma retain_touched:
  assumes "refs (tm_address rt) = Some c"
  shows "turbo_tool_runtime_retain rt (touched a refs w) = touched a (refs(tm_address rt \<mapsto> c + 1)) w"
  using assms by (simp add: turbo_tool_runtime_retain_def)

lemma release_touched:
  assumes "refs (tm_address rt) = Some (c + of_nat (Suc n))" and "0 < c" and "unat c + Suc n < 2 ^ 64"
  shows "turbo_tool_runtime_bridge_entry_destroy rt (touched a refs w) = touched a (refs(tm_address rt \<mapsto> c + of_nat n)) w"
  using assms(1) count_above_one [OF assms(2,3)]
  by (simp add: turbo_tool_runtime_bridge_entry_destroy_def turbo_tool_runtime_destroy_def)

subsection \<open>Bridges\<close>

definition bridges :: "('j, 'v, 'c) turbo_tool_runtime \<Rightarrow> ('j, 'v runtimes, 'c) turbo_tool_entry \<Rightarrow> bool" where
  "bridges rt e \<longleftrightarrow>
     te_handler e = Some (turbo_tool_runtime_bridge_handler rt (te_name e)) \<and>
     te_json_value_handler e = Some (turbo_tool_runtime_bridge_json_value_handler rt (te_name e)) \<and>
     te_context_handler e = Some (turbo_tool_runtime_bridge_context_handler rt (te_name e)) \<and>
     te_json_value_context_handler e = Some (turbo_tool_runtime_bridge_json_value_context_handler rt (te_name e)) \<and>
     te_user_data_free e = Some (turbo_tool_runtime_bridge_entry_destroy rt)"

lemma find_in_middle:
  assumes "distinct (map te_name (es @ e # es'))"
  shows "find (\<lambda>i. te_name ((es @ e # es') ! i) = te_name e) [0..<length (es @ e # es')] = Some (length es)"
proof -
  have "te_name (es ! j) \<noteq> te_name e" if "j < length es" for j
  proof
    assume "te_name (es ! j) = te_name e"
    then have "te_name e \<in> te_name ` set es" using nth_mem [OF that] by (metis imageI)
    then show False using assms by simp
  qed
  then show ?thesis unfolding find_index_Some by (simp add: nth_append)
qed

lemma remove_in_middle:
  assumes "tr_entries r = es @ e # es'" and "distinct (tool_names r)"
  shows "turbo_tool_registry_remove r (te_name e) w = (TURBO_TOOL_OK, r\<lparr>tr_entries := es @ es'\<rparr>, turbo_tool_registry_free_entry e w)"
  using find_in_middle [of es e es'] assms by (simp add: turbo_tool_registry_remove_def Let_def)

text \<open>Taking back the tools \<open>new\<close>, which are the last of the registry, gives back their references.\<close>

lemma rollback:
  assumes "steady rt w" and "0 < c"
  shows "\<lbrakk>tr_entries r = es @ new; distinct (tool_names r); map te_name new = map (catalog_name rt w) indices;
     \<forall>i \<in> set indices. fst (turbo_tool_runtime_get_tool_v3 rt i w) = TURBO_TOOL_OK \<and>
       rt_name (r2_base (r3_base (snd (turbo_tool_runtime_get_tool_v3 rt i w)))) \<noteq> None;
     \<forall>e \<in> set new. bridges rt e; refs (tm_address rt) = Some (c + of_nat (length new)); unat c + length new < 2 ^ 64\<rbrakk> \<Longrightarrow>
     \<exists>r'. rollback_loop rt indices r (touched a refs w) = (r', touched a (refs(tm_address rt \<mapsto> c)) w) \<and> tr_entries r' = es"
proof (induction indices arbitrary: r new refs)
  case Nil
  then show ?case by (auto simp: fun_upd_idem)
next
  case (Cons i indices)
  obtain e new' where new: "new = e # new'" "te_name e = catalog_name rt w i" using Cons.prems(3) by (cases new) auto
  let ?refs = "refs(tm_address rt \<mapsto> c + of_nat (length new'))"
  obtain tool where tool: "turbo_tool_runtime_get_tool_v3 rt i w = (TURBO_TOOL_OK, tool)" "rt_name (r2_base (r3_base tool)) = Some (te_name e)"
    using Cons.prems(4) new(2) by (cases "turbo_tool_runtime_get_tool_v3 rt i w") (auto simp: catalog_name_def)
  have "turbo_tool_registry_free_entry e (touched a refs w) = touched a ?refs w"
    using release_touched [of refs rt c "length new'" a w] Cons.prems(5,6,7) assms(2) new
    by (simp add: turbo_tool_registry_free_entry_def bridges_def)
  then have step: "rollback_loop rt (i # indices) r (touched a refs w) =
      rollback_loop rt indices (r\<lparr>tr_entries := es @ new'\<rparr>) (touched a ?refs w)"
    using assms(1) tool remove_in_middle [of r es e new' "touched a refs w"] Cons.prems(1,2) new(1) by (simp add: steady_def)
  have "\<exists>r'. rollback_loop rt indices (r\<lparr>tr_entries := es @ new'\<rparr>) (touched a ?refs w) =
      (r', touched a (?refs(tm_address rt \<mapsto> c)) w) \<and> tr_entries r' = es"
  proof (rule Cons.IH)
    have "distinct (map te_name (es @ e # new'))" using Cons.prems(1,2) new(1) by simp
    then show "distinct (tool_names (r\<lparr>tr_entries := es @ new'\<rparr>))" by simp
  qed (use Cons.prems new in auto)
  then show ?case unfolding step fun_upd_upd .
qed

subsection \<open>Adding the tools\<close>

text \<open>The state between two tools: the first \<open>i\<close> of the catalog are bridged at the end of the registry, and each holds a reference.\<close>

definition partly_added ::
    "('j, 'v, 'c) turbo_tool_runtime \<Rightarrow> 'v rworld \<Rightarrow> ('j, 'v runtimes, 'c) turbo_tool_entry list \<Rightarrow> size_t \<Rightarrow> nat \<Rightarrow>
     ('j, 'v runtimes, 'c) turbo_tool_registry \<Rightarrow> 'v rworld \<Rightarrow> bool" where
  "partly_added rt w es c i r v \<longleftrightarrow>
     v = touched (ch_alloc v) ((ref_counts w)(tm_address rt \<mapsto> c + of_nat i)) w \<and> distinct (tool_names r) \<and>
     (\<exists>new. tr_entries r = es @ new \<and> map te_name new = map (catalog_name rt w) [0..<i] \<and> (\<forall>e \<in> set new. bridges rt e))"

definition readable :: "('j, 'v, 'c) turbo_tool_runtime \<Rightarrow> 'v rworld \<Rightarrow> nat \<Rightarrow> bool" where
  "readable rt w i \<longleftrightarrow> fst (turbo_tool_runtime_get_tool_v3 rt i w) = TURBO_TOOL_OK \<and>
     rt_name (r2_base (r3_base (snd (turbo_tool_runtime_get_tool_v3 rt i w)))) \<noteq> None"

lemma rolled_back:
  assumes "steady rt w" and "0 < c" and "unat c + i < 2 ^ 64" and "\<forall>j < i. readable rt w j" and "partly_added rt w es c i r v"
    and "turbo_tool_runtime_rollback_registry rt r i v = (r', v')"
  shows "partly_added rt w es c 0 r' v'"
proof -
  let ?refs = "(ref_counts w)(tm_address rt \<mapsto> c + of_nat i)"
  obtain new where new: "tr_entries r = es @ new" "map te_name new = map (catalog_name rt w) [0..<i]" "\<forall>e \<in> set new. bridges rt e"
    and v: "v = touched (ch_alloc v) ?refs w" and names: "distinct (tool_names r)"
    using assms(5) unfolding partly_added_def by blast
  have len: "length new = i" using arg_cong [OF new(2), of length] by simp
  have "\<exists>r'. rollback_loop rt [0..<i] r (touched (ch_alloc v) ?refs w) =
      (r', touched (ch_alloc v) (?refs(tm_address rt \<mapsto> c)) w) \<and> tr_entries r' = es"
    using assms(3,4) new names len by (intro rollback [OF assms(1,2)]) (auto simp: readable_def)
  then have "v' = touched (ch_alloc v) ((ref_counts w)(tm_address rt \<mapsto> c)) w \<and> tr_entries r' = es"
    using assms(6) v unfolding turbo_tool_runtime_rollback_registry_def by force
  then show ?thesis using names new(1) unfolding partly_added_def by auto
qed

lemma publish_last:
  assumes "tr_entries r = es @ [e]" and "distinct (tool_names r)"
    and "turbo_tool_registry_publish_native_projection M r (te_name e) q = (s, r')"
  shows "\<exists>p. tr_entries r' = es @ [e\<lparr>te_native_projection := p\<rparr>]"
proof -
  have find: "turbo_tool_registry_find r (te_name e) = Some (length es)"
    using registry_find_name [OF assms(2), of "length es"] assms(1) by simp
  have "r' = r \<or> (\<exists>p. r' = update_entry (length es) (te_native_projection_update (\<lambda>_. p)) r)"
    using assms(3) unfolding turbo_tool_registry_publish_native_projection_def find option.case Let_def
    by (auto split: if_splits option.splits)
  then show ?thesis
  proof
    assume "r' = r"
    then show ?thesis using assms(1) by (intro exI [of _ "te_native_projection e"]) simp
  qed (use assms(1) in \<open>auto simp: update_entry_def\<close>)
qed

lemma publish_projection_result:
  assumes "tr_entries r = es @ [e]" and "distinct (tool_names r)" and "publish_projection M rt (te_name e) r w = (s, r')"
  shows "\<exists>p. tr_entries r' = es @ [e\<lparr>te_native_projection := p\<rparr>]"
proof -
  have "r' = r \<or> (\<exists>q s2. turbo_tool_registry_publish_native_projection M r (te_name e) q = (s2, r'))"
    using assms(3) unfolding publish_projection_def
    by (cases "turbo_tool_runtime_native_get_native_projection rt (te_name e) w")
      (auto split: if_splits prod.splits turbo_tool_status_t.splits option.splits)
  moreover have "tr_entries r = es @ [e\<lparr>te_native_projection := te_native_projection e\<rparr>]" using assms(1) by simp
  ultimately show ?thesis using publish_last [OF assms(1,2)] by blast
qed

lemma bridge_added:
  assumes "turbo_tool_registry_add_v6 J r (bridge_definition rt policy tool name) a = (s, r', a')"
    and "rt_name (r2_base (r3_base tool)) = Some name" and "distinct (tool_names r)"
  shows "s \<noteq> TURBO_TOOL_OK \<and> tr_entries r' = tr_entries r \<or>
    s = TURBO_TOOL_OK \<and> distinct (tool_names r') \<and> (\<exists>e. tr_entries r' = tr_entries r @ [e] \<and> te_name e = name \<and> bridges rt e)"
proof -
  have "\<not> definition_refused 6 (bridge_definition rt policy tool name)"
    by (simp add: definition_refused_def bridge_definition_def Let_def)
  from add_result [OF assms(1) [unfolded turbo_tool_registry_add_v6_def if_not_P [OF this]]] show ?thesis
    using assms(2,3)
    by (auto simp: bridge_definition_def Let_def tool_entry_of_def bridges_def)
qed

text \<open>One more tool, or none at all: what follows a failure, what follows the allocations, and the whole step.\<close>

abbreviation refs_with :: "('j, 'v, 'c) turbo_tool_runtime \<Rightarrow> 'v rworld \<Rightarrow> size_t \<Rightarrow> nat \<Rightarrow> nat \<rightharpoonup> size_t" where
  "refs_with rt w c n \<equiv> (ref_counts w)(tm_address rt \<mapsto> c + of_nat n)"

abbreviation give_up ::
    "('j, 'v, 'c) turbo_tool_runtime \<Rightarrow> nat \<Rightarrow> turbo_tool_status_t \<Rightarrow> ('j, 'v runtimes, 'c) turbo_tool_registry \<Rightarrow> 'v rworld \<Rightarrow>
     turbo_tool_status_t \<times> ('j, 'v runtimes, 'c) turbo_tool_registry \<times> 'v rworld" where
  "give_up rt i \<equiv> \<lambda>status registry w. case turbo_tool_runtime_rollback_registry rt registry i w of (registry, w) \<Rightarrow> (status, registry, w)"

definition one_more_or_none ::
    "('j, 'v, 'c) turbo_tool_runtime \<Rightarrow> 'v rworld \<Rightarrow> ('j, 'v runtimes, 'c) turbo_tool_entry list \<Rightarrow> size_t \<Rightarrow> nat \<Rightarrow>
     turbo_tool_status_t \<times> ('j, 'v runtimes, 'c) turbo_tool_registry \<times> 'v rworld \<Rightarrow> bool" where
  "one_more_or_none rt w es c n result \<longleftrightarrow>
     (case result of (s, r, v) \<Rightarrow> if s = TURBO_TOOL_OK then partly_added rt w es c n r v else partly_added rt w es c 0 r v)"

lemma given_up:
  assumes "steady rt w" and "0 < c" and "unat c + Suc i < 2 ^ 64" and "\<forall>j \<le> i. readable rt w j"
    and "partly_added rt w es c i r v" and "s \<noteq> TURBO_TOOL_OK"
  shows "one_more_or_none rt w es c n (give_up rt i s r v)"
  using rolled_back [OF assms(1,2) _ _ assms(5)] assms(3,4,6) by (auto simp: one_more_or_none_def split: prod.split)

lemma partly_added_touched:
  "partly_added rt w es c i r v \<Longrightarrow> tr_entries r1 = tr_entries r \<Longrightarrow> partly_added rt w es c i r1 (touched a (refs_with rt w c i) w)"
  unfolding partly_added_def by auto

lemma released:
  assumes "0 < c" and "unat c + Suc i < 2 ^ 64"
  shows "turbo_tool_runtime_bridge_entry_destroy rt (touched a (refs_with rt w c (Suc i)) w) = touched a (refs_with rt w c i) w"
  using release_touched [of "refs_with rt w c (Suc i)" rt c i a w] assms by simp

lemma publish_step:
  assumes step: "steady rt w" "0 < c" "unat c + Suc i < 2 ^ 64" "\<forall>j \<le> i. readable rt w j" "partly_added rt w es c i r v"
    and e: "tr_entries r1 = tr_entries r @ [e]" "distinct (tool_names r1)" "te_name e = catalog_name rt w i" "bridges rt e"
    and publish: "publish_projection M rt (te_name e) r1 (touched a (refs_with rt w c (Suc i)) w) = (s, r2)"
  shows "one_more_or_none rt w es c (Suc i)
    (if s \<noteq> TURBO_TOOL_OK
     then case turbo_tool_registry_remove r2 (te_name e) (touched a (refs_with rt w c (Suc i)) w) of (_, r, w) \<Rightarrow> give_up rt i s r w
     else (TURBO_TOOL_OK, r2, touched a (refs_with rt w c (Suc i)) w))"
proof -
  obtain new where new: "tr_entries r = es @ new" "map te_name new = map (catalog_name rt w) [0..<i]" "\<forall>e \<in> set new. bridges rt e"
    using step(5) unfolding partly_added_def by blast
  from publish_projection_result [OF e(1,2) publish]
  obtain p where r2: "tr_entries r2 = tr_entries r @ [e\<lparr>te_native_projection := p\<rparr>]" by blast
  then have names2: "distinct (tool_names r2)" using e(1,2) by simp
  have e2: "te_name (e\<lparr>te_native_projection := p\<rparr>) = te_name e" "bridges rt (e\<lparr>te_native_projection := p\<rparr>)"
    using e(4) by (simp_all add: bridges_def)
  show ?thesis
  proof (cases "s = TURBO_TOOL_OK")
    case True
    have "partly_added rt w es c (Suc i) r2 (touched a (refs_with rt w c (Suc i)) w)"
      unfolding partly_added_def using names2 r2 new e(3) e2 by (auto intro!: exI [of _ "new @ [e\<lparr>te_native_projection := p\<rparr>]"])
    then show ?thesis using True by (simp add: one_more_or_none_def)
  next
    case False
    have "turbo_tool_registry_remove r2 (te_name e) (touched a (refs_with rt w c (Suc i)) w) =
        (TURBO_TOOL_OK, r2\<lparr>tr_entries := tr_entries r\<rparr>, touched a (refs_with rt w c i) w)"
      using remove_in_middle [of r2 "tr_entries r" "e\<lparr>te_native_projection := p\<rparr>" "[]"] r2 names2 e2 released [OF step(2,3)]
      by (simp add: turbo_tool_registry_free_entry_def bridges_def)
    then show ?thesis
      using given_up [OF step(1-4) partly_added_touched [OF step(5)] False] False by simp
  qed
qed

lemma add_tool_step:
  assumes step: "steady rt w" "0 < c" "unat c + Suc i < 2 ^ 64" "\<forall>j \<le> i. readable rt w j" "partly_added rt w es c i r v"
  shows "one_more_or_none rt w es c (Suc i) (add_tool J M rt policy i r v)"
proof -
  let ?name = "catalog_name rt w i"
  let ?more = "refs_with rt w c (Suc i)"
  have v: "v = touched (ch_alloc v) (refs_with rt w c i) w" and names: "distinct (tool_names r)"
    using step(5) unfolding partly_added_def by blast+
  obtain tool where tool: "turbo_tool_runtime_get_tool_v3 rt i w = (TURBO_TOOL_OK, tool)" "rt_name (r2_base (r3_base tool)) = Some ?name"
    using step(4) by (cases "turbo_tool_runtime_get_tool_v3 rt i w") (auto simp: readable_def catalog_name_def)
  have get: "turbo_tool_runtime_get_tool_v3 rt i v = (TURBO_TOOL_OK, tool)"
    using step(1) tool(1) v unfolding steady_def by metis
  obtain ok a1 where "alloc1 (ch_alloc v) = (ok, a1)" by fastforce
  then have draw: "ch_draw v = (ok, touched a1 (refs_with rt w c i) w)" using v ch_draw_touched [of "ch_alloc v" "refs_with rt w c i" w] by simp
  have retained: "turbo_tool_runtime_retain rt (touched a1 (refs_with rt w c i) w) = touched a1 ?more w"
    by (simp add: retain_touched [of _ _ "c + of_nat i"] ac_simps)
  obtain copy a2 where a2: "turbo_tool_runtime_strdup (Some ?name) a1 = (copy, a2)" by fastforce
  obtain s1 r1 a3 where add: "turbo_tool_registry_add_v6 J r (bridge_definition rt policy tool ?name) a2 = (s1, r1, a3)"
    by (metis prod_cases3)
  then have world: "in_world (turbo_tool_registry_add_v6 J r (bridge_definition rt policy tool ?name)) (touched a2 ?more w) =
      (s1, r1, touched a3 ?more w)" by (simp add: in_world_def)
  note given_up' = given_up [OF step(1-4) partly_added_touched [OF step(5)]]
  note unfolded = add_tool_def get prod.case Let_def draw retained touched_simps tool(2) a2
  consider "\<not> ok" | "ok" "copy = None" | "ok" "copy = Some ?name"
    using a2 by (auto simp: turbo_tool_runtime_strdup_def split: prod.splits if_splits)
  then show ?thesis
  proof cases
    case 3
    obtain s2 r2 where publish: "publish_projection M rt ?name r1 (touched a3 ?more w) = (s2, r2)" by fastforce
    note cases = unfolded 3(2) option.case world publish
    from bridge_added [OF add tool(2) names] show ?thesis
    proof
      assume "s1 \<noteq> TURBO_TOOL_OK \<and> tr_entries r1 = tr_entries r"
      then show ?thesis unfolding cases using given_up' [of r1 s1 "Suc i" a3] released [OF step(2,3), of rt a3 w] 3(1) by (simp del: of_nat_Suc)
    next
      assume "s1 = TURBO_TOOL_OK \<and> distinct (tool_names r1) \<and> (\<exists>e. tr_entries r1 = tr_entries r @ [e] \<and> te_name e = ?name \<and> bridges rt e)"
      then show ?thesis unfolding cases using publish_step [OF step, of r1 _ M a3 s2 r2] publish 3(1) by (auto simp del: of_nat_Suc)
    qed
  qed (use given_up' [of r TURBO_TOOL_OUT_OF_MEMORY "Suc i"] in \<open>simp_all add: unfolded released [OF step(2,3)] del: of_nat_Suc\<close>)
qed

lemma add_tools_all:
  assumes "steady rt w" and "0 < c"
  shows "\<lbrakk>i \<le> n; unat c + n < 2 ^ 64; \<forall>j < n. readable rt w j; partly_added rt w es c i r v;
     add_tools J M rt policy [i..<n] r v = (s, r', v')\<rbrakk> \<Longrightarrow>
     s = TURBO_TOOL_OK \<and> partly_added rt w es c n r' v' \<or> s \<noteq> TURBO_TOOL_OK \<and> partly_added rt w es c 0 r' v'"
proof (induction "n - i" arbitrary: i r v)
  case 0
  then show ?case by simp
next
  case (Suc k)
  then have upt: "[i..<n] = i # [Suc i..<n]" by (simp add: upt_conv_Cons)
  obtain s1 r1 v1 where 1: "add_tool J M rt policy i r v = (s1, r1, v1)" by (metis prod_cases3)
  have "one_more_or_none rt w es c (Suc i) (s1, r1, v1)"
    unfolding 1 [symmetric] using Suc.hyps(2) Suc.prems by (intro add_tool_step [OF assms]) auto
  then show ?case using Suc.hyps(1) [of "Suc i" r1 v1] Suc.hyps(2) Suc.prems 1
    by (auto simp: upt one_more_or_none_def split: if_splits)
qed

lemma first_error_OK: "first_error ss = TURBO_TOOL_OK \<longleftrightarrow> (\<forall>s \<in> set ss. s = TURBO_TOOL_OK)"
  by (induction ss) auto

lemma addable_readable: "tool_addable rt r w i = TURBO_TOOL_OK \<Longrightarrow> readable rt w i"
  by (auto simp: tool_addable_def readable_def Let_def split: prod.splits if_splits)

lemma add_to_registry_result:
  assumes "distinct (tool_names r)" and "steady rt w" and "ref_counts w (tm_address rt) = Some c" and "0 < c"
    and "unat c + turbo_tool_runtime_count rt w < 2 ^ 64" and "turbo_tool_runtime_add_to_registry J M rt r policy w = (s, r', w')"
  shows "s = TURBO_TOOL_OK \<and> partly_added rt w (tr_entries r) c (turbo_tool_runtime_count rt w) r' w' \<or>
    s \<noteq> TURBO_TOOL_OK \<and> partly_added rt w (tr_entries r) c 0 r' w'"
proof -
  let ?n = "turbo_tool_runtime_count rt w"
  have "(ref_counts w)(tm_address rt \<mapsto> c) = ref_counts w" using assms(3) by (simp add: fun_upd_idem)
  then have start: "partly_added rt w (tr_entries r) c 0 r w"
    using assms(1) touched_same [of w] by (simp add: partly_added_def)
  show ?thesis
  proof (cases "turbo_tool_runtime_execution_policy_valid policy \<and> first_error (map (tool_addable rt r w) [0..<?n]) = TURBO_TOOL_OK")
    case True
    then have "\<forall>j < ?n. readable rt w j" using addable_readable by (fastforce simp: first_error_OK)
    then show ?thesis
      using add_tools_all [OF assms(2,4) _ assms(5) _ start, of J M "the policy" s r' w'] assms(6) True
      by (simp add: turbo_tool_runtime_add_to_registry_def Let_def)
  next
    case False
    then show ?thesis using start assms(6) by (auto simp: turbo_tool_runtime_add_to_registry_def Let_def split: if_splits)
  qed
qed

text \<open>C13. Adding a runtime to a registry is atomic. Whatever allocation fails, whatever tool the registry refuses and whatever a native
  projection does, a call that fails leaves the tools of the registry and every count of references as they were; a call
  that succeeds appends one tool for each of the catalog, in its order and with its names, each of which forwards to the runtime and
  holds one reference to it, and changes nothing else in memory. The counts do not wrap around.\<close>

theorem runtime_added_or_unchanged:
  assumes "distinct (tool_names r)" and "steady rt w" and "ref_counts w (tm_address rt) = Some c" and "0 < c"
    and "unat c + turbo_tool_runtime_count rt w < 2 ^ 64" and "turbo_tool_runtime_add_to_registry J M rt r policy w = (s, r', w')"
  shows "if s = TURBO_TOOL_OK
    then \<exists>new. tr_entries r' = tr_entries r @ new \<and> map te_name new = map (catalog_name rt w) [0..<turbo_tool_runtime_count rt w] \<and>
           (\<forall>e \<in> set new. bridges rt e) \<and> distinct (tool_names r') \<and>
           w' = touched (ch_alloc w') ((ref_counts w)(tm_address rt \<mapsto> c + of_nat (turbo_tool_runtime_count rt w))) w
    else tr_entries r' = tr_entries r \<and> w' = touched (ch_alloc w') (ref_counts w) w"
proof -
  have "(ref_counts w)(tm_address rt \<mapsto> c) = ref_counts w" using assms(3) by (simp add: fun_upd_idem)
  then show ?thesis using add_to_registry_result [OF assms] unfolding partly_added_def by auto
qed

subsection \<open>Calls through a bridge\<close>

text \<open>A handler without a status of its own turns every failure into \<open>TURBO_TOOL_ERROR\<close>.\<close>

definition flattened :: "turbo_tool_status_t \<times> 'o option \<times> 'w \<Rightarrow> turbo_tool_status_t \<times> 'o option \<times> 'w" where
  "flattened r = (case r of (s, out, w) \<Rightarrow> if s = TURBO_TOOL_OK then (s, out, w) else (TURBO_TOOL_ERROR, None, w))"

definition checked :: "turbo_tool_status_t \<times> 'o option \<times> 'w \<Rightarrow> turbo_tool_status_t \<times> 'o option \<times> 'w" where
  "checked r = (case r of (s, out, w) \<Rightarrow> (s, if s \<noteq> TURBO_TOOL_OK then None else out, w))"

lemma arguments_idem: "arguments_or_empty (Some (arguments_or_empty args)) = arguments_or_empty args"
  by (simp add: arguments_or_empty_def)

lemma bridge_calls:
  assumes "turbo_tool_registry_find r name = Some i" and "bridges rt (tr_entries r ! i)" and "name_at r i = name"
  shows "turbo_tool_registry_execute r name args v = flattened (turbo_tool_runtime_invoke rt name args v)"
    and "turbo_tool_registry_execute_json_value r name x v = flattened (turbo_tool_runtime_invoke_json_value rt name x v)"
    and "turbo_tool_execution_context_valid ctx \<Longrightarrow>
      turbo_tool_registry_execute_with_context r name args ctx v = checked (turbo_tool_runtime_invoke_with_context rt name args ctx v)"
    and "turbo_tool_execution_context_valid ctx \<Longrightarrow>
      turbo_tool_registry_execute_json_value_with_context r name x ctx v =
        checked (turbo_tool_runtime_invoke_json_value_with_context rt name x ctx v)"
proof -
  have args: "turbo_tool_runtime_invoke rt name (Some (arguments_or_empty args)) = turbo_tool_runtime_invoke rt name args"
    "turbo_tool_runtime_invoke_with_context rt name (Some (arguments_or_empty args)) = turbo_tool_runtime_invoke_with_context rt name args"
    by (intro ext; simp add: turbo_tool_runtime_invoke_def turbo_tool_runtime_invoke_with_context_def arguments_idem
        split: option.split)+
  note b = assms(2) [unfolded bridges_def assms(3)]
  show "turbo_tool_registry_execute r name args v = flattened (turbo_tool_runtime_invoke rt name args v)"
    using assms(1) b args(1) by (simp add: turbo_tool_registry_execute_def Let_def call_handler_def
        turbo_tool_runtime_bridge_handler_def flattened_def split: prod.split)
  show "turbo_tool_registry_execute_json_value r name x v = flattened (turbo_tool_runtime_invoke_json_value rt name x v)"
    using assms(1) b by (simp add: turbo_tool_registry_execute_json_value_def Let_def call_handler_def
        turbo_tool_runtime_bridge_json_value_handler_def flattened_def split: prod.split)
  show "turbo_tool_execution_context_valid ctx \<Longrightarrow>
      turbo_tool_registry_execute_with_context r name args ctx v = checked (turbo_tool_runtime_invoke_with_context rt name args ctx v)"
    using assms(1) b args(2) by (simp add: turbo_tool_registry_execute_with_context_def Let_def call_context_handler_def
        turbo_tool_runtime_bridge_context_handler_def checked_def split: prod.split)
  show "turbo_tool_execution_context_valid ctx \<Longrightarrow>
      turbo_tool_registry_execute_json_value_with_context r name x ctx v =
        checked (turbo_tool_runtime_invoke_json_value_with_context rt name x ctx v)"
    using assms(1) b by (simp add: turbo_tool_registry_execute_json_value_with_context_def Let_def call_context_handler_def
        turbo_tool_runtime_bridge_json_value_context_handler_def checked_def split: prod.split)
qed

lemma bridge_find:
  assumes "distinct (tool_names r)" and "\<forall>e \<in> set (tr_entries r). bridges rt e" and "name \<in> set (tool_names r)"
  shows "\<exists>i. turbo_tool_registry_find r name = Some i \<and> bridges rt (tr_entries r ! i) \<and> name_at r i = name"
proof -
  from assms(3) obtain i where "i < length (tr_entries r)" "name_at r i = name" by (auto simp: in_set_conv_nth)
  then show ?thesis using registry_find_name [OF assms(1), of i] assms(2) by auto
qed

text \<open>Destroying the tools of a bridge gives back their references.\<close>

lemma destroy_bridges:
  assumes "0 < c"
  shows "\<forall>e \<in> set es. bridges rt e \<Longrightarrow> unat c + length es < 2 ^ 64 \<Longrightarrow>
    fold turbo_tool_registry_free_entry es (touched a (refs_with rt w c (length es)) w) = touched a (refs_with rt w c 0) w"
proof (induction es)
  case (Cons e es)
  have step: "turbo_tool_registry_free_entry e (touched a (refs_with rt w c (length (e # es))) w) = touched a (refs_with rt w c (length es)) w"
    using released [OF assms, of "length es" rt a w] Cons.prems
    by (simp add: turbo_tool_registry_free_entry_def bridges_def del: of_nat_Suc)
  from Cons.prems have "\<forall>e \<in> set es. bridges rt e" "unat c + length es < 2 ^ 64" by auto
  then show ?case unfolding fold_simps step by (rule Cons.IH)
qed simp

lemma steady_touched: "steady rt w \<Longrightarrow> steady rt (touched a refs w)"
  by (simp add: steady_def)

lemma bridge_built:
  assumes "steady rt w" and "ref_counts w (tm_address rt) = Some c" and "0 < c" and "unat c + turbo_tool_runtime_count rt w < 2 ^ 64"
    and "turbo_tool_runtime_build_registry_bridge J M rt w = (Some b, w')"
  shows "distinct (tool_names b) \<and> tool_names b = map (catalog_name rt w) [0..<turbo_tool_runtime_count rt w] \<and>
    (\<forall>e \<in> set (tr_entries b). bridges rt e) \<and> w' = touched (ch_alloc w') (refs_with rt w c (turbo_tool_runtime_count rt w)) w"
proof -
  obtain r a where create: "turbo_tool_registry_create (ch_alloc w) = (Some r, a)" and
    add: "turbo_tool_runtime_add_to_registry J M rt r (Some legacy_policy) (w\<lparr>ch_alloc := a\<rparr>) = (TURBO_TOOL_OK, b, w')"
    using assms(5) unfolding turbo_tool_runtime_build_registry_bridge_def
    by (cases "turbo_tool_registry_create (ch_alloc w)" rule: prod.exhaust)
      (auto split: option.splits prod.splits if_splits)
  have w1: "w\<lparr>ch_alloc := a\<rparr> = touched a (ref_counts w) w" using touched_same [of w] by (metis touched_simps(3))
  have r: "tr_entries r = []" using new_registry(2) [OF create] .
  have same: "catalog_name rt (touched a (ref_counts w) w) = catalog_name rt w"
    "turbo_tool_runtime_count rt (touched a (ref_counts w) w) = turbo_tool_runtime_count rt w"
    using assms(1) by (simp_all add: catalog_name_def [abs_def] steady_def)
  show ?thesis
    using add_to_registry_result [OF _ steady_touched [OF assms(1)] _ assms(3) _ add [unfolded w1]] r assms(2,4) same
    by (auto simp: partly_added_def)
qed

text \<open>C34. The registry built over a runtime forwards to it and gives back what it holds. It has the tools of the catalog, in its order;
  executing one is invoking it in the runtime, with the same arguments, world and output, through each of the four ways to execute
  (those without a context report every failure as an error); and once the registry is destroyed the counts of
  references are those before it was built.\<close>

theorem bridge_forwards_and_releases:
  assumes "steady rt w" and "ref_counts w (tm_address rt) = Some c" and "0 < c" and "unat c + turbo_tool_runtime_count rt w < 2 ^ 64"
    and "turbo_tool_runtime_build_registry_bridge J M rt w = (Some b, w')"
  shows "tool_names b = map (catalog_name rt w) [0..<turbo_tool_runtime_count rt w] \<and>
    ref_counts (turbo_tool_registry_destroy b w') = ref_counts w \<and>
    (\<forall>name \<in> set (tool_names b). \<forall>args x ctx v.
      turbo_tool_registry_execute b name args v = flattened (turbo_tool_runtime_invoke rt name args v) \<and>
      turbo_tool_registry_execute_json_value b name x v = flattened (turbo_tool_runtime_invoke_json_value rt name x v) \<and>
      (turbo_tool_execution_context_valid ctx \<longrightarrow>
        turbo_tool_registry_execute_with_context b name args ctx v = checked (turbo_tool_runtime_invoke_with_context rt name args ctx v) \<and>
        turbo_tool_registry_execute_json_value_with_context b name x ctx v =
          checked (turbo_tool_runtime_invoke_json_value_with_context rt name x ctx v)))"
proof -
  let ?n = "turbo_tool_runtime_count rt w"
  note built = bridge_built [OF assms]
  then have len: "length (tr_entries b) = ?n" by (metis length_map length_upt minus_nat.diff_0)
  have "turbo_tool_registry_destroy b w' = touched (ch_alloc w') (refs_with rt w c 0) w"
    unfolding turbo_tool_registry_destroy_def
    using destroy_bridges [OF assms(3), of "tr_entries b" rt "ch_alloc w'" w] built len assms(4) by metis
  then have "ref_counts (turbo_tool_registry_destroy b w') = ref_counts w" using assms(2) by (simp add: fun_upd_idem)
  then show ?thesis using built bridge_find [of b rt] bridge_calls by metis
qed

subsection \<open>Native runtimes\<close>

definition native_over :: "('j, 'v, 'c) native_impl \<Rightarrow> ('j, 'v, 'c) turbo_tool_runtime \<Rightarrow> bool" where
  "native_over impl rt \<longleftrightarrow>
     (let vt = turbo_tool_runtime_native_vtable impl
      in tm_vtable rt = v2_base (v3_base (v4_base vt)) \<and> tm_vtable_v2 rt = Some (v3_base (v4_base vt)) \<and> tm_vtable_v3 rt = Some (v4_base vt) \<and>
         tm_vtable_v4 rt = Some vt \<and> tm_native rt = Some impl)"

lemma native_created: "turbo_tool_runtime_native_create impl w = (Some rt, w') \<Longrightarrow> native_over impl rt"
  by (auto simp: turbo_tool_runtime_native_create_def turbo_tool_runtime_create_v4_def new_runtime_def native_over_def Let_def
      split: prod.splits option.splits if_splits)

lemmas native_vtable_fields = turbo_tool_runtime_native_vtable_def turbo_tool_runtime_native_invoke_with_context_def
  turbo_tool_runtime_native_invoke_json_value_with_context_def turbo_tool_runtime_native_tool_count_def

lemma execute_none_on_failure:
  "checked (turbo_tool_registry_execute_with_context r name args ctx v) = turbo_tool_registry_execute_with_context r name args ctx v"
  "checked (turbo_tool_registry_execute_json_value_with_context r name x ctx v) =
     turbo_tool_registry_execute_json_value_with_context r name x ctx v"
  by (auto simp: checked_def turbo_tool_registry_execute_with_context_def turbo_tool_registry_execute_json_value_with_context_def
      call_handler_def call_context_handler_def Let_def split: prod.splits option.splits)

lemma execute_arguments:
  "turbo_tool_registry_execute_with_context r name (Some (arguments_or_empty args)) ctx v =
   turbo_tool_registry_execute_with_context r name args ctx v"
  by (simp add: turbo_tool_registry_execute_with_context_def arguments_idem Let_def split: option.split)

lemma native_invoke:
  assumes "native_over impl rt"
  shows "turbo_tool_runtime_invoke_with_context rt name args ctx v =
      turbo_tool_registry_execute_with_context (ni_registry impl v) name args ctx v"
    and "turbo_tool_runtime_invoke_json_value_with_context rt name x ctx v =
      turbo_tool_registry_execute_json_value_with_context (ni_registry impl v) name x ctx v"
  using assms
  by (simp_all add: native_over_def Let_def turbo_tool_runtime_invoke_with_context_def call_runtime_def
      turbo_tool_runtime_invoke_json_value_with_context_def native_vtable_fields execute_arguments)

lemma execute_plain_arguments:
  "turbo_tool_registry_execute r name (Some (arguments_or_empty args)) v = turbo_tool_registry_execute r name args v"
  by (simp add: turbo_tool_registry_execute_def arguments_idem Let_def split: option.split)

lemma native_invoke_plain:
  assumes "native_over impl rt"
  shows "turbo_tool_runtime_invoke rt name args v = turbo_tool_registry_execute (ni_registry impl v) name args v"
    and "turbo_tool_runtime_invoke_json_value rt name x v = turbo_tool_registry_execute_json_value (ni_registry impl v) name x v"
  using assms
  by (simp_all add: native_over_def Let_def turbo_tool_runtime_invoke_def call_runtime_def turbo_tool_runtime_invoke_json_value_def
      native_vtable_fields turbo_tool_runtime_native_invoke_def turbo_tool_runtime_native_invoke_json_value_def
      execute_plain_arguments)

lemma runtime_flags_valid: "turbo_tool_runtime_effect_flags_valid = turbo_tool_effect_flags_valid"
  by (intro ext) (simp add: turbo_tool_runtime_effect_flags_valid_def turbo_tool_effect_flags_valid_def)

lemma native_catalog:
  assumes "native_over impl rt" and "registry_inv J M (ni_registry impl w)"
  shows "turbo_tool_runtime_count rt w = length (tr_entries (ni_registry impl w))"
    and "i < length (tr_entries (ni_registry impl w)) \<Longrightarrow> catalog_name rt w i = name_at (ni_registry impl w) i"
proof -
  show "turbo_tool_runtime_count rt w = length (tr_entries (ni_registry impl w))"
    using assms(1) by (simp add: native_over_def Let_def turbo_tool_runtime_count_def native_vtable_fields turbo_tool_registry_count_def)
  assume i: "i < length (tr_entries (ni_registry impl w))"
  let ?e = "tr_entries (ni_registry impl w) ! i"
  have "turbo_tool_registry_find (ni_registry impl w) (te_name ?e) = Some i"
    using registry_find_name [OF _ i] assms(2) by (simp add: registry_inv_def)
  moreover have "turbo_tool_effect_flags_valid (te_effect_flags ?e)" "te_effect_flags ?e \<noteq> 0"
    using assms(2) i by (auto simp: registry_inv_def entry_ok_def)
  ultimately show "catalog_name rt w i = name_at (ni_registry impl w) i"
    using assms(1) i
    by (simp add: native_over_def Let_def catalog_name_def turbo_tool_runtime_get_tool_v3_def read_tool_def turbo_tool_runtime_native_vtable_def
        turbo_tool_runtime_native_get_tool_v3_def turbo_tool_runtime_native_get_tool_v2_def turbo_tool_registry_get_definition_def
        turbo_tool_registry_get_result_contract_def turbo_tool_registry_get_effects_def entry_field_def tool_of_definition_def
        runtime_flags_valid)
qed

text \<open>The catalog of a native runtime is steady when its registry is not among what allocations and counts change.\<close>

lemma native_steady:
  assumes "native_over impl rt" and "\<And>a refs. ni_registry impl (touched a refs w) = ni_registry impl w"
  shows "steady rt w"
proof -
  have "turbo_tool_runtime_native_get_tool_v3 impl i t (touched a refs w) = turbo_tool_runtime_native_get_tool_v3 impl i t w" for i t a refs
    unfolding turbo_tool_runtime_native_get_tool_v3_def turbo_tool_runtime_native_get_tool_v2_def assms(2) by (rule refl)
  moreover have "tm_vtable_v4 rt = Some (turbo_tool_runtime_native_vtable impl)"
    "v4_get_tool_v3 (turbo_tool_runtime_native_vtable impl) = Some (turbo_tool_runtime_native_get_tool_v3 impl)"
    "vt_tool_count (tm_vtable rt) = Some (turbo_tool_runtime_native_tool_count impl)"
    using assms(1) by (simp_all add: native_over_def Let_def turbo_tool_runtime_native_vtable_def)
  ultimately show ?thesis
    by (simp add: steady_def turbo_tool_runtime_get_tool_v3_def read_tool_def turbo_tool_runtime_count_def
        turbo_tool_runtime_native_tool_count_def assms(2))
qed

text \<open>C35. A registry built over a native runtime stands for the registry inside it: it has the same names in the same order. Executing
  one of them with an execution context, or with none given to the executors that take one, with a text or a value, gives the status, the
  output and the effects that executing it in the inner registry gives at that moment, whatever has become of that registry since the
  bridge was built. The two executors without a context give the same output and effects, too, but report every failure of the inner
  registry as \<open>TURBO_TOOL_ERROR\<close>.\<close>

theorem native_bridge_executes_registry:
  assumes "turbo_tool_runtime_native_create impl w0 = (Some rt, w1)" and "steady rt w" and "registry_inv J M (ni_registry impl w)"
    and "ref_counts w (tm_address rt) = Some c" and "0 < c" and "unat c + turbo_tool_runtime_count rt w < 2 ^ 64"
    and "turbo_tool_runtime_build_registry_bridge J M rt w = (Some b, w')"
  shows "tool_names b = tool_names (ni_registry impl w) \<and>
    (\<forall>name \<in> set (tool_names b). \<forall>args x ctx v.
       turbo_tool_registry_execute_with_context b name args ctx v =
         turbo_tool_registry_execute_with_context (ni_registry impl v) name args ctx v \<and>
       turbo_tool_registry_execute_json_value_with_context b name x ctx v =
         turbo_tool_registry_execute_json_value_with_context (ni_registry impl v) name x ctx v \<and>
       turbo_tool_registry_execute b name args v = flattened (turbo_tool_registry_execute (ni_registry impl v) name args v) \<and>
       turbo_tool_registry_execute_json_value b name x v =
         flattened (turbo_tool_registry_execute_json_value (ni_registry impl v) name x v))"
proof -
  note native = native_created [OF assms(1)]
  note built = bridge_built [OF assms(2,4-7)]
  have "tool_names b = tool_names (ni_registry impl w)"
    using built native_catalog [OF native assms(3)] by (auto intro!: nth_equalityI)
  moreover have "turbo_tool_registry_execute_with_context b name args ctx v =
         turbo_tool_registry_execute_with_context (ni_registry impl v) name args ctx v \<and>
       turbo_tool_registry_execute_json_value_with_context b name x ctx v =
         turbo_tool_registry_execute_json_value_with_context (ni_registry impl v) name x ctx v"
    if name: "name \<in> set (tool_names b)" for name args x ctx v
  proof (cases "turbo_tool_execution_context_valid ctx")
    case True
    obtain i where "turbo_tool_registry_find b name = Some i" "bridges rt (tr_entries b ! i)" "name_at b i = name"
      using bridge_find [of b rt name] built name by blast
    then show ?thesis using bridge_calls(3,4) True native_invoke [OF native] execute_none_on_failure by metis
  next
    case False
    then show ?thesis
      by (simp add: turbo_tool_registry_execute_with_context_def turbo_tool_registry_execute_json_value_with_context_def)
  qed
  moreover have "turbo_tool_registry_execute b name args v = flattened (turbo_tool_registry_execute (ni_registry impl v) name args v) \<and>
       turbo_tool_registry_execute_json_value b name x v =
         flattened (turbo_tool_registry_execute_json_value (ni_registry impl v) name x v)"
    if name: "name \<in> set (tool_names b)" for name args x v
  proof -
    obtain i where i: "turbo_tool_registry_find b name = Some i" "bridges rt (tr_entries b ! i)" "name_at b i = name"
      using bridge_find [of b rt name] built name by blast
    show ?thesis unfolding bridge_calls(1,2) [OF i] native_invoke_plain [OF native] by simp
  qed
  ultimately show ?thesis by blast
qed

subsection \<open>A runtime of two tools\<close>

definition demo_tool :: "string \<Rightarrow> jv turbo_tool_runtime_tool" where
  "demo_tool name = \<lparr>rt_name = Some name, rt_description = Some ''echo'', rt_parameters_json = Some ''{}'',
     rt_parameters_schema = None, rt_strict = 0\<rparr>"

definition demo_vtable :: "(jv, unit) turbo_tool_runtime_vtable" where
  "demo_vtable = \<lparr>vt_destroy = Some (\<lambda>w. w), vt_tool_count = Some (\<lambda>_. 2),
     vt_get_tool = Some (\<lambda>i t w. if i = 0 then (TURBO_TOOL_OK, demo_tool ''one'') else if i = 1 then (TURBO_TOOL_OK, demo_tool ''two'')
       else (TURBO_TOOL_NOT_FOUND, t)),
     vt_invoke = Some (\<lambda>name args w. (TURBO_TOOL_OK, Some args, w)),
     vt_invoke_json_value = Some (\<lambda>name args w. (TURBO_TOOL_OK, args, w))\<rparr>"

definition demo_runtime :: "(jv, unit, unit) turbo_tool_runtime" where
  "demo_runtime = \<lparr>tm_address = 0, tm_vtable = demo_vtable, tm_vtable_v2 = None, tm_vtable_v3 = None, tm_vtable_v4 = None, tm_native = None\<rparr>"

definition demo_world :: "alloc \<Rightarrow> unit rworld" where
  "demo_world a = \<lparr>ch_alloc = a, ch_states = Map.empty, ch_sources = Map.empty, ch_tokens = Map.empty, ch_next = 1,
     ch_sys_clock = [], ch_user_clock = [], \<dots> = \<lparr>rs_refs = [0 \<mapsto> 1], rs_rest = ()\<rparr>\<rparr>"

definition empty_registry :: "(jv, unit runtimes, unit) turbo_tool_registry" where
  "empty_registry = \<lparr>tr_entries = [], tr_capacity = 0\<rparr>"

lemma demo_steady: "steady demo_runtime w"
  by (simp add: steady_def demo_runtime_def demo_vtable_def turbo_tool_runtime_get_tool_v3_def turbo_tool_runtime_get_tool_v2_def
      turbo_tool_runtime_count_def read_tool_def)

lemma demo_counts:
  "ref_counts (demo_world a) (tm_address demo_runtime) = Some 1" "turbo_tool_runtime_count demo_runtime (demo_world a) = 2"
  by (simp_all add: demo_runtime_def demo_vtable_def demo_world_def turbo_tool_runtime_count_def)

lemma demo_names: "map (catalog_name demo_runtime (demo_world a)) [0..<2] = [''one'', ''two'']"
  by (simp add: catalog_name_def demo_runtime_def demo_vtable_def demo_tool_def turbo_tool_runtime_get_tool_v3_def
      turbo_tool_runtime_get_tool_v2_def read_tool_def zero_tool_v2_def zero_tool_v3_def numeral_2_eq_2)

text \<open>With enough memory both tools are added; when the last allocation for the second fails, none is.\<close>

lemma runtime_added_or_unchanged_witness:
  "(\<exists>r' w'. turbo_tool_runtime_add_to_registry ref_json no_cmeta demo_runtime empty_registry (Some legacy_policy) (demo_world []) =
      (TURBO_TOOL_OK, r', w') \<and> tool_names r' = [''one'', ''two''] \<and> ref_counts w' 0 = Some 3) \<and>
   (\<exists>r' w'. turbo_tool_runtime_add_to_registry ref_json no_cmeta demo_runtime empty_registry (Some legacy_policy)
        (demo_world (replicate 11 True @ [False])) = (TURBO_TOOL_OUT_OF_MEMORY, r', w') \<and> tr_entries r' = [] \<and> ref_counts w' 0 = Some 1)"
proof -
  have add: "fst (turbo_tool_runtime_add_to_registry ref_json no_cmeta demo_runtime empty_registry (Some legacy_policy) (demo_world [])) =
      TURBO_TOOL_OK"
    "fst (turbo_tool_runtime_add_to_registry ref_json no_cmeta demo_runtime empty_registry (Some legacy_policy)
      (demo_world (replicate 11 True @ [False]))) = TURBO_TOOL_OUT_OF_MEMORY"
    by code_simp+
  note added = runtime_added_or_unchanged [OF _ demo_steady demo_counts(1), of empty_registry _ ref_json no_cmeta "Some legacy_policy"]
  have names: "distinct (tool_names empty_registry)" and address: "tm_address demo_runtime = 0" and refs: "ref_counts (demo_world a) 0 = Some 1" for a
    by (simp_all add: empty_registry_def demo_runtime_def demo_world_def)
  obtain r1 w1 where 1: "turbo_tool_runtime_add_to_registry ref_json no_cmeta demo_runtime empty_registry (Some legacy_policy) (demo_world []) =
      (TURBO_TOOL_OK, r1, w1)" using add(1) by (metis prod.collapse)
  obtain r2 w2 where 2: "turbo_tool_runtime_add_to_registry ref_json no_cmeta demo_runtime empty_registry (Some legacy_policy)
      (demo_world (replicate 11 True @ [False])) = (TURBO_TOOL_OUT_OF_MEMORY, r2, w2)" using add(2) by (metis prod.collapse)
  have "tool_names r1 = [''one'', ''two'']" "ref_counts w1 0 = Some 3"
    using added [OF names _ _ 1] demo_names [of "[]"] address
    by (simp_all add: demo_counts(2) empty_registry_def) (metis fun_upd_same touched_simps(2))
  moreover have "tr_entries r2 = []" "ref_counts w2 0 = Some 1"
    using added [OF names _ _ 2] refs by (simp_all add: demo_counts(2) empty_registry_def) (metis touched_simps(2))
  ultimately show ?thesis using 1 2 by auto
qed

definition demo_bridge :: "(jv, unit runtimes, unit) turbo_tool_registry" where
  "demo_bridge = the (fst (turbo_tool_runtime_build_registry_bridge ref_json no_cmeta demo_runtime (demo_world [])))"

lemma bridge_forwards_and_releases_witness:
  "tool_names demo_bridge = [''one'', ''two''] \<and>
   turbo_tool_registry_execute demo_bridge ''two'' (Some ''[]'') (demo_world []) = (TURBO_TOOL_OK, Some ''[]'', demo_world [])"
proof -
  have "fst (turbo_tool_runtime_build_registry_bridge ref_json no_cmeta demo_runtime (demo_world [])) \<noteq> None" by code_simp
  then obtain w' where built: "turbo_tool_runtime_build_registry_bridge ref_json no_cmeta demo_runtime (demo_world []) = (Some demo_bridge, w')"
    unfolding demo_bridge_def by (metis option.collapse prod.collapse)
  have "0 < (1 :: size_t)" "unat (1 :: size_t) + turbo_tool_runtime_count demo_runtime (demo_world []) < 2 ^ 64"
    by (simp_all add: demo_counts(2))
  note forwards = bridge_forwards_and_releases [OF demo_steady demo_counts(1) this built]
  have names: "tool_names demo_bridge = [''one'', ''two'']"
    using conjunct1 [OF forwards] demo_names [of "[]"] by (simp add: demo_counts(2))
  then have "turbo_tool_registry_execute demo_bridge ''two'' (Some ''[]'') (demo_world []) =
      flattened (turbo_tool_runtime_invoke demo_runtime ''two'' (Some ''[]'') (demo_world []))"
    using bspec [OF conjunct2 [OF conjunct2 [OF forwards]], of "''two''"] by simp
  then show ?thesis
    using names by (simp add: flattened_def turbo_tool_runtime_invoke_def call_runtime_def demo_runtime_def demo_vtable_def arguments_or_empty_def)
qed

text \<open>A native runtime over a registry of one tool.\<close>

definition served :: "(jv, unit runtimes, unit) turbo_tool_registry" where
  "served = fst (snd (turbo_tool_registry_add ref_json empty_registry
     \<lparr>td_name = Some ''calc'', td_description = Some ''echo'', td_parameters_json = Some ''{}'', td_parameters_schema = None, td_strict = 0,
      td_handler = Some (\<lambda>args w. (0, Some args, w)), td_json_value_handler = None, td_user_data_free = None\<rparr> []))"

definition served_impl :: "(jv, unit, unit) native_impl" where
  "served_impl = \<lparr>ni_registry = (\<lambda>_. served), ni_set_registry = (\<lambda>_ w. w)\<rparr>"

definition served_runtime :: "(jv, unit, unit) turbo_tool_runtime" where
  "served_runtime = the (fst (turbo_tool_runtime_native_create served_impl (demo_world [])))"

lemma served_inv: "registry_inv ref_json no_cmeta served"
proof -
  obtain s a where "turbo_tool_registry_add ref_json empty_registry
     \<lparr>td_name = Some ''calc'', td_description = Some ''echo'', td_parameters_json = Some ''{}'', td_parameters_schema = None, td_strict = 0,
      td_handler = Some (\<lambda>args w. (0, Some args, w)), td_json_value_handler = None, td_user_data_free = None\<rparr> [] = (s, served, a)"
    unfolding served_def by (metis prod.collapse)
  then have "registry_step ref_json no_cmeta s empty_registry served"
    unfolding turbo_tool_registry_add_def by (rule add_step)
  moreover have "registry_inv ref_json no_cmeta empty_registry" by (simp add: registry_inv_def empty_registry_def)
  ultimately show ?thesis
    using entries_step_keeps [of "entry_ok ref_json no_cmeta" "tr_entries empty_registry" "tr_entries served"]
    by (simp add: registry_inv_def registry_step_def)
qed

lemma native_bridge_executes_registry_witness:
  "\<exists>b :: (jv, unit runtimes, unit) turbo_tool_registry. tool_names b = [''calc''] \<and>
     fst (turbo_tool_registry_execute_with_context b ''calc'' (Some ''[]'') None (demo_world [])) = TURBO_TOOL_OK \<and>
     fst (snd (turbo_tool_registry_execute_with_context b ''calc'' (Some ''[]'') None (demo_world []))) = Some ''[]''"
proof -
  let ?w = "snd (turbo_tool_runtime_native_create served_impl (demo_world []))"
  have "fst (turbo_tool_runtime_native_create served_impl (demo_world [])) \<noteq> None" by code_simp
  then have created: "turbo_tool_runtime_native_create served_impl (demo_world []) = (Some served_runtime, ?w)"
    unfolding served_runtime_def by (metis option.collapse prod.collapse)
  have impl: "ni_registry served_impl v = served" for v by (simp add: served_impl_def)
  have inv: "registry_inv ref_json no_cmeta (ni_registry served_impl ?w)" using served_inv by (simp add: impl)
  have steady: "steady served_runtime ?w"
    using native_steady [OF native_created [OF created]] by (simp add: impl)
  have count: "ref_counts ?w (tm_address served_runtime) = Some 1" "turbo_tool_runtime_count served_runtime ?w = 1" by code_simp+
  have "fst (turbo_tool_runtime_build_registry_bridge ref_json no_cmeta served_runtime ?w) \<noteq> None" by code_simp
  then obtain b w' where built: "turbo_tool_runtime_build_registry_bridge ref_json no_cmeta served_runtime ?w = (Some b, w')"
    by (metis option.collapse prod.collapse)
  have names: "tool_names served = [''calc'']" by code_simp
  have "fst (turbo_tool_registry_execute_with_context served ''calc'' (Some ''[]'') None (demo_world [])) = TURBO_TOOL_OK"
    "fst (snd (turbo_tool_registry_execute_with_context served ''calc'' (Some ''[]'') None (demo_world []))) = Some ''[]''"
    by code_simp+
  moreover have "0 < (1 :: size_t)" "unat (1 :: size_t) + turbo_tool_runtime_count served_runtime ?w < 2 ^ 64" by (simp_all add: count(2))
  note executes = native_bridge_executes_registry [OF created steady inv count(1) this built]
  have "tool_names b = [''calc'']" using conjunct1 [OF executes] names impl by simp
  ultimately show ?thesis using bspec [OF conjunct2 [OF executes], of "''calc''"] impl by (intro exI [of _ b]) simp
qed

end
