(* ===== verification/Spec2Isabelle.thy ===== *)
theory Spec2Isabelle
  imports Cancel_Control Graph_Resume Latest_Snapshot Run_Log_Trace Schema_Promises Runtime_Promises
begin

text \<open>
  \<^bold>\<open>The runtime core of TurboAgent.\<close>

  TurboAgent is a C library for agents over language models. Its runtime, which the agent and the harness
  are built on, executes graphs of nodes over a JSON state: it runs callbacks, routes along edges, counts steps,
  checks cancellation, emits checkpoints and records history. Beside it stand the tools an agent may call: registries of them,
  schemas of their arguments and results, runtimes that serve them. This library models both.

  \<^bold>\<open>Parts and theories.\<close>

  \<^item> \<open>Turbo_Prelude\<close>: machine integers, C strings and \<open>strcmp\<close>, the allocation oracle, the stable sort that stands for
    \<open>qsort\<close> on distinct keys, loops that may not end (\<open>run_loop\<close>), the locale \<open>builder\<close> (operations that keep an
    invariant and change nothing visible when they fail).
  \<^item> \<open>Cancel_Control\<close>: \<open>runtime_core/src/turbo_runtime_control.c\<close>. Cancellation sources and tokens share a
    reference-counted state with a deadline. The heap, the clock, the allocation oracle and the client's own state make
    up the \<open>world\<close> that every later operation threads.
  \<^item> \<open>Runtime_Json\<close>: \<open>runtime_data/src/turbo_runtime_json.c\<close> over the JSON package, which is the parameter \<open>json_lib\<close>;
    what the code relies on is named there as laws. \<open>Reference_Json\<close>: one library that satisfies every law, on which
    the witnesses evaluate. \<open>Decimal_Text\<close>: printed 64-bit integers read back.
  \<^item> \<open>Graph_Core\<close>, \<open>Graph_Topology\<close>, \<open>Graph_Run\<close>, \<open>Graph_Exec\<close>, \<open>Graph_Resume\<close>: \<open>runtime/src/turbo_graph.c\<close>. The first has
    construction, topology ids and checkpoints, the third the two run loops and the run interface (with the trace events
    of \<open>turbo_event.c\<close> that the loop creates); the others hold what is proved of them.
  \<^item> \<open>State_Graph_Core\<close>, \<open>State_Graph_Run\<close>, \<open>State_Graph_Query\<close>, \<open>State_Graph_Snapshot\<close>: \<open>runtime/src/turbo_state_graph.c\<close>,
    in the order of the file: channels and reducers, the builder, threads, runs and history with the execution loop,
    queries, snapshots. \<open>State_Graph_Updates\<close> has the properties of reducers and of the builder, \<open>State_Graph_Exec\<close> and
    \<open>State_Graph_Calls\<close> what every execution and every call keeps, \<open>State_Graph_Promises\<close> the properties of the run
    interface, \<open>State_Graph_Roundtrip\<close> those of snapshots.
  \<^item> \<open>Snapshot_Store\<close>: \<open>runtime/src/turbo_state_graph_store.c\<close>. The store interface is a record of callbacks over the
    backend's state; the backends are the store in memory (a list of records) and the store in files (a root directory
    and a file system, with the hexadecimal names of files). Above them are descriptors, selection by options, the latest
    snapshot, and saving and loading of graphs. \<open>Store_Contract\<close> states the contract and proves it of both backends;
    \<open>Latest_Snapshot\<close> relates the search for the latest snapshot to a lexicographic order.
  \<^item> \<open>Event_Model\<close>: \<open>runtime_data/src/turbo_event.c\<close>, the four kinds of event with their validators and schemas.
    \<open>Event_Log\<close>: \<open>runtime/src/turbo_event_log.c\<close> and \<open>runtime/src/turbo_graph_run_log.c\<close>; the log of a run is a part of the
    client's memory, which the sink and the checkpoint callback that the run gets change. \<open>Event_Promises\<close>,
    \<open>Event_Log_Promises\<close>, \<open>Run_Log_Promises\<close> and \<open>Run_Log_Trace\<close> hold what is proved of them.
  \<^item> \<open>Tool_Registry\<close>: \<open>runtime_tools/src/turbo_tool_registry.c\<close> with the definitions of \<open>turbo_tool.h\<close>. An entry holds its handlers
    as functions of the arguments and the world, their user data included; the descriptors of native functions are the
    parameter \<open>cmeta_lib\<close>. \<open>Tool_Schema\<close>: \<open>runtime_tools/src/turbo_tool_schema.c\<close>, the validator and the lists of tools for model
    providers; what it does with C doubles is the parameter \<open>c_doubles\<close>. \<open>Tool_Runtime\<close>: \<open>runtime_tools/src/turbo_tool_runtime.c\<close>; the
    reference counts of runtimes, and the registry of a native one, are in the client's memory. \<open>Tool_Promises\<close>,
    \<open>Schema_Promises\<close> and \<open>Runtime_Promises\<close> hold what is proved of them.

  \<^bold>\<open>How code corresponds to definitions.\<close> A C struct is a record with the fields of the struct under a short prefix, an
  enum a datatype with the enumerators as constructors, a function a definition of its own name; the inner part of a
  long function, or the body of a loop, is a definition of its own beside it. A function that changes a structure takes
  it and returns it changed; pointers into the arrays of a graph are indices. \<open>NULL\<close> is \<open>None\<close>. Callbacks are functions
  of the context and the world. \<open>size_t\<close> is a 64-bit word where the code counts or prints, and a natural number where
  it is the length of an array, which memory bounds.

  Allocation: every call that may fail for want of memory draws a truth value from the oracle \<open>ch_alloc\<close>, in the order
  of the code; the empty oracle never fails. The calls of the C library that open, write, read and list files draw from
  the same oracle, and a failed write leaves an arbitrary prefix in the file. So statements about failure hold for every pattern of failures.

  Loops: a run loop may not end, and is \<open>run_loop\<close>, which is \<open>None\<close> exactly when the loop does not end; that runs with a
  step limit return is proved. The fuel of the recursive merge is the nesting depth of the value, which suffices
  because a member is less deep than its object (\<open>merge_unfolds\<close>). The validator and the comparison of values count the
  levels they descend and stop below the 64th, as the code does, and end for that reason. All other recursion is structural.

  \<^bold>\<open>What is shown.\<close>

  \<^item> Cancellation: reference counts are exact in every reachable store, the first reason wins under every interleaving,
    checks are stable, waits neither overflow nor oversleep; a wait with a timeout on a callback clock ends, undisturbed by
    other threads, and says correctly whether it was signaled.
  \<^item> Graphs: the builder keeps graphs well formed and changes nothing when it fails, topology ids identify the topology
    up to the order of insertion, checkpoints read back and are accepted exactly for the same topology, runs with a
    limit return, routing takes the first edge that applies, a cancelled run executes nothing, and interrupting and
    resuming a run is the same as not interrupting it (when no node pauses and the interrupt is not at the start).
  \<^item> State graphs: the builder keeps graphs well formed; an update changes each channel the way the abstract
    specification of its reducer says (\<open>reducer_value\<close>, \<open>deep_merge\<close>) and, where the reducer suits the channel, to a value of
    the channel's kind; in every graph that calls reach from a new one the records are consistent and ids are numbered in
    order, with at most one gap per call, so that they are distinct until a counter wraps; until a snapshot is loaded,
    history is append-only; runs
    with a limit return, and their end is recorded; forks leave everything they branch from alone and start from the
    recorded state; ended runs cannot be resumed; a snapshot loads back to the same records, and a load that fails
    leaves none of it behind.
  \<^item> Stores: both backends refine a finite map from ids to texts under every sequence of saves and removals and every
    pattern of failures; in memory a failed save leaves no trace, in files (in a directory of its own, for ids that are not
    empty) it may leave a piece of its text under its id until a later change of that id succeeds. File names decode to the
    ids they encode, and a graph that was saved loads back; the latest snapshot is the greatest of those that match, when
    the search sets no limit.
  \<^item> Events: events the library creates are valid, as are those that conform to the schemas; a log implements the list of
    the events accepted so far, and survives export, loading and replay; the log of a run is exactly its trace, pass by
    pass, when no allocation fails, and holds valid trace events only in any case.
  \<^item> Tools: a registry has distinct names and well-formed entries after any operations; the names it is exported under lead
    back to its tools; projections and compositions execute the tools of their sources. The validator calls valid only what the
    keywords of a schema demand (\<open>matches_schema\<close>), and on well-formed schemas of at most 65 levels exactly that. Adding a
    runtime to a registry adds all its tools or changes nothing, reference counts included; bridges forward to the runtime and
    give their references back; the bridge of a native runtime executes as the registry inside it, but for the executors
    without a context, which report every failure as an error.

  \<^bold>\<open>Interfaces.\<close> The locale \<open>builder\<close> is interpreted by the builders of graphs, of state graphs and of tool registries; \<open>run_keeper\<close>, the three
  primitive changes of an execution, by the frame of a run, by the consistency of the records and by the numbering of ids; \<open>importer\<close>, one record
  read from a snapshot, by threads, runs and history; \<open>snapshot_store\<close>, the contract of a backend, by the stores in memory
  and in files, and its extension \<open>atomic_snapshot_store\<close> by the one in memory; \<open>client_keeper\<close>, a relation on the client's memory that every callback
  respects, by the growth of the log of a run; the loops of \<open>turbo_graph.c\<close> by the locales of \<open>Graph_Exec\<close> and
  \<open>Graph_Resume\<close>.

  \<^bold>\<open>Not modelled.\<close> Functions that only free memory, and leaks and dangling pointers as such; the tests of out-parameters
  and receivers against \<open>NULL\<close> (callers pass them); results of library calls that the code ignores, which are taken to
  succeed: the JSON setters while \<open>turbo_graph.c\<close> builds a topology (\<open>topology_json\<close>) or a checkpoint (\<open>checkpoint_json\<close>) and while
  \<open>turbo_tool_schema.c\<close> closes a strict schema (\<open>close_strict\<close>) or builds a tool (\<open>chat_tool\<close>, \<open>openai_tool\<close>), where a failure would leave
  members out, and the \<open>fclose\<close> after a write in \<open>turbo_state_graph_store.c\<close>, where it would lose buffered data; callbacks that change the graph they run on. Of \<open>turbo_state_graph.c\<close>, nodes that run a child state graph.
  Of \<open>turbo_state_graph_store.c\<close>, the Windows branch of the listing; parsing a text is taken not to run out of memory.
  Of the tools, the parser of texts is taken not to run out of memory, and a table of callbacks is called with its \<open>impl\<close> known; the
  callbacks that take it as \<open>const\<close> are taken to read only. Other parts of the repository (stores and segments of the runtime,
  agent, compiler, harness, providers, tool packages, command line) are not modelled: they are record stores over SQL and files,
  clients of network services and processes, and front ends. The records of the runtime (segments, heads, history) and the
  compiler of agent descriptions are what would come next.
\<close>

end
